(* ===== verification/Seo_Prelude.thy ===== *)
theory Seo_Prelude
  imports
    Complex_Main
    "HOL-Library.AList"
    "HOL-Library.Char_ord"
    "HOL-Library.List_Lexorder"
    "HOL-Library.Product_Lexorder"
    "HOL-Library.Sublist"
begin

text \<open>
  What every component shares: Python exceptions as values, programs as functions from a
  state to a result or an exception and a new state, the JSON-like values the code keeps in
  dictionaries, and the string operations of Python's standard library that the code uses.

  A character of the model stands for a code point below 256; an instant is an \<open>int\<close> (a
  number of microseconds) and a day an \<open>int\<close> (a day number), so that differences of
  instants and days are exact, as \<open>timedelta\<close> arithmetic is.
\<close>

named_theorems prog_simps \<open>unfolding of the program combinators\<close>
named_theorems frame_rules \<open>what an operation leaves alone\<close>

type_synonym instant = int
type_synonym day = int

abbreviation seconds :: "int \<Rightarrow> int" where "seconds n \<equiv> n * 1000000"
abbreviation minutes :: "int \<Rightarrow> int" where "minutes n \<equiv> seconds (n * 60)"
abbreviation hours :: "int \<Rightarrow> int" where "hours n \<equiv> minutes (n * 60)"
abbreviation days :: "int \<Rightarrow> int" where "days n \<equiv> hours (n * 24)"

section \<open>Exceptions\<close>

text \<open>
  One constructor per exception class the modelled code raises or catches by name.
  \<open>OtherError\<close> is a class the code does not name (raised by a site, a driver, a library).
\<close>

datatype exn_class =
    ValueError | KeyError | LookupError | RuntimeError | TypeError | AttributeError
  | ValidationError
  | PersistenceConflictError | PersistenceNotFoundError | InvalidCursorError
  | ActionChangedError | AccountExistsError | AccountChangedError
  | ApprovalError | ExecutionOrchestratorError
  | OtpError | OtpTooSoon int | SmsError
  | PlanRequired | PaymentUnavailable | GatewayError
  | FetchError | DayNotFinalError | CredentialError | GSCClientError "int option"
  | HTTPException int | InvalidKeyFormat | SignInError | TooManyAttemptsError | WeakPasswordError
  | KeywordProviderError | ProviderAuthError | ProviderPlanError | ProviderQuotaError
  | ProviderUnavailableError | BudgetExhaustedError
  | OtherError string

datatype exn = Exn (exn_class: exn_class) (exn_args: string)

fun class_name :: "exn_class \<Rightarrow> string" where
  "class_name ValueError = ''ValueError''"
| "class_name KeyError = ''KeyError''"
| "class_name LookupError = ''LookupError''"
| "class_name RuntimeError = ''RuntimeError''"
| "class_name TypeError = ''TypeError''"
| "class_name AttributeError = ''AttributeError''"
| "class_name ValidationError = ''ValidationError''"
| "class_name PersistenceConflictError = ''PersistenceConflictError''"
| "class_name PersistenceNotFoundError = ''PersistenceNotFoundError''"
| "class_name InvalidCursorError = ''InvalidCursorError''"
| "class_name ActionChangedError = ''ActionChangedError''"
| "class_name AccountExistsError = ''AccountExistsError''"
| "class_name AccountChangedError = ''AccountChangedError''"
| "class_name ApprovalError = ''ApprovalError''"
| "class_name ExecutionOrchestratorError = ''ExecutionOrchestratorError''"
| "class_name OtpError = ''OtpError''"
| "class_name (OtpTooSoon _) = ''OtpTooSoon''"
| "class_name SmsError = ''SmsError''"
| "class_name PlanRequired = ''PlanRequired''"
| "class_name PaymentUnavailable = ''PaymentUnavailable''"
| "class_name GatewayError = ''GatewayError''"
| "class_name FetchError = ''FetchError''"
| "class_name DayNotFinalError = ''DayNotFinalError''"
| "class_name CredentialError = ''CredentialError''"
| "class_name (GSCClientError _) = ''GSCClientError''"
| "class_name (HTTPException _) = ''HTTPException''"
| "class_name InvalidKeyFormat = ''InvalidKeyFormat''"
| "class_name SignInError = ''SignInError''"
| "class_name TooManyAttemptsError = ''TooManyAttemptsError''"
| "class_name WeakPasswordError = ''WeakPasswordError''"
| "class_name KeywordProviderError = ''KeywordProviderError''"
| "class_name ProviderAuthError = ''ProviderAuthError''"
| "class_name ProviderPlanError = ''ProviderPlanError''"
| "class_name ProviderQuotaError = ''ProviderQuotaError''"
| "class_name ProviderUnavailableError = ''ProviderUnavailableError''"
| "class_name BudgetExhaustedError = ''BudgetExhaustedError''"
| "class_name (OtherError n) = n"

text \<open>\<open>except PersistenceConflictError\<close> also catches its three subclasses.\<close>

fun is_conflict :: "exn \<Rightarrow> bool" where
  "is_conflict (Exn c _) =
     (c = PersistenceConflictError \<or> c = ActionChangedError
      \<or> c = AccountExistsError \<or> c = AccountChangedError)"

text \<open>
  \<open>str(exc)\<close>, the text an error message keeps. A \<open>KeyError\<close> renders its argument in
  quotes (the escapes of \<open>repr\<close> are not modelled).
\<close>

fun exn_text :: "exn \<Rightarrow> string" where
  "exn_text (Exn c m) = (if c = KeyError then [CHR 0x27] @ m @ [CHR 0x27] else m)"

section \<open>Programs\<close>

text \<open>
  A call with effects: from the state it runs in to its result, or the exception it
  raises, and the state it leaves. \<open>attempt\<close> is \<open>try .. except Exception\<close>.
\<close>

type_synonym ('s, 'a) prog = "'s \<Rightarrow> (exn + 'a) \<times> 's"

definition ret :: "'a \<Rightarrow> ('s, 'a) prog" where
  "ret x = (\<lambda>s. (Inr x, s))"

definition raise_exn :: "exn \<Rightarrow> ('s, 'a) prog" where
  "raise_exn e = (\<lambda>s. (Inl e, s))"

definition andthen :: "('s, 'a) prog \<Rightarrow> ('a \<Rightarrow> ('s, 'b) prog) \<Rightarrow> ('s, 'b) prog" where
  "andthen m f = (\<lambda>s. case m s of (Inl e, s') \<Rightarrow> (Inl e, s') | (Inr x, s') \<Rightarrow> f x s')"

definition attempt :: "('s, 'a) prog \<Rightarrow> (exn \<Rightarrow> ('s, 'a) prog) \<Rightarrow> ('s, 'a) prog" where
  "attempt m h = (\<lambda>s. case m s of (Inl e, s') \<Rightarrow> h e s' | (Inr x, s') \<Rightarrow> (Inr x, s'))"

definition of_result :: "exn + 'a \<Rightarrow> ('s, 'a) prog" where
  "of_result r = (\<lambda>s. (r, s))"

definition reads :: "('s \<Rightarrow> 'a) \<Rightarrow> ('s, 'a) prog" where
  "reads f = (\<lambda>s. (Inr (f s), s))"

text \<open>An update of the state that either happens or raises and leaves the state alone.\<close>

definition updates :: "('s \<Rightarrow> exn + 's) \<Rightarrow> ('s, unit) prog" where
  "updates f = (\<lambda>s. case f s of Inl e \<Rightarrow> (Inl e, s) | Inr s' \<Rightarrow> (Inr (), s'))"

text \<open>\<open>try .. except Exception: note; raise\<close>, where the note cannot raise.\<close>

definition noting :: "(exn \<Rightarrow> ('s, unit) prog) \<Rightarrow> ('s, 'a) prog \<Rightarrow> ('s, 'a) prog" where
  "noting note m = attempt m (\<lambda>e. andthen (note e) (\<lambda>_. raise_exn e))"

text \<open>A transaction that leaves nothing of a body that raises.\<close>

definition undoes_on_error :: "(('s, 'a) prog \<Rightarrow> ('s, 'a) prog) \<Rightarrow> bool" where
  "undoes_on_error tx \<longleftrightarrow> (\<forall>p s. tx p s = (case p s of (Inl e, _) \<Rightarrow> (Inl e, s) | (Inr x, s') \<Rightarrow> (Inr x, s')))"

lemma prog_unfolds [prog_simps]:
  "ret x s = (Inr x, s)"
  "raise_exn e s = (Inl e, s)"
  "of_result r s = (r, s)"
  "reads f s = (Inr (f s), s)"
  by (simp_all add: ret_def raise_exn_def of_result_def reads_def)

lemma andthen_Inl [prog_simps]: "m s = (Inl e, s') \<Longrightarrow> andthen m f s = (Inl e, s')"
  by (simp add: andthen_def)

lemma andthen_Inr [prog_simps]: "m s = (Inr x, s') \<Longrightarrow> andthen m f s = f x s'"
  by (simp add: andthen_def)

lemma attempt_Inl [prog_simps]: "m s = (Inl e, s') \<Longrightarrow> attempt m h s = h e s'"
  by (simp add: attempt_def)

lemma attempt_Inr [prog_simps]: "m s = (Inr x, s') \<Longrightarrow> attempt m h s = (Inr x, s')"
  by (simp add: attempt_def)

lemma updates_Inl [prog_simps]: "f s = Inl e \<Longrightarrow> updates f s = (Inl e, s)"
  by (simp add: updates_def)

lemma updates_Inr [prog_simps]: "f s = Inr s' \<Longrightarrow> updates f s = (Inr (), s')"
  by (simp add: updates_def)

lemma andthen_cases:
  assumes "andthen m f s = (r, s'')"
  obtains (raised) e where "m s = (Inl e, s'')" and "r = Inl e"
  | (returned) x s' where "m s = (Inr x, s')" and "f x s' = (r, s'')"
  using assms by (auto simp: andthen_def split: prod.splits sum.splits)

lemma andthen_ret: "andthen m ret = m"
  by (rule ext) (auto simp: andthen_def ret_def split: prod.splits sum.splits)

lemma andthen_assoc: "andthen (andthen m f) g = andthen m (\<lambda>x. andthen (f x) g)"
  by (rule ext) (auto simp: andthen_def split: prod.splits sum.splits)

text \<open>The same sequencing for calls that raise but have no state.\<close>

definition and_maybe :: "exn + 'a \<Rightarrow> ('a \<Rightarrow> exn + 'b) \<Rightarrow> exn + 'b" where
  "and_maybe r f = (case r of Inl e \<Rightarrow> Inl e | Inr x \<Rightarrow> f x)"

lemma and_maybe_simps [simp]:
  "and_maybe (Inl e) f = Inl e"
  "and_maybe (Inr x) f = f x"
  by (simp_all add: and_maybe_def)

lemma and_maybe_Inr: "and_maybe r f = Inr y \<longleftrightarrow> (\<exists>x. r = Inr x \<and> f x = Inr y)"
  by (cases r) simp_all

lemma map_filter_mem: "y \<in> set (List.map_filter f xs) \<longleftrightarrow> (\<exists>x \<in> set xs. f x = Some y)"
  by (induction xs) (auto split: option.splits)

section \<open>Values in dictionaries\<close>

text \<open>
  The values the code puts into \<open>dict[str, Any]\<close>. A dictionary is the list of its items
  in insertion order; \<open>AList.update\<close> keeps the place of a key that is already there, as
  Python does.
\<close>

datatype pyval =
    PNone
  | PBool bool
  | PInt int
  | PFloat rat
  | PStr string
  | PList "pyval list"
  | PDict "(string \<times> pyval) list"

type_synonym dict = "(string \<times> pyval) list"

text \<open>\<open>{**d, **e}\<close>\<close>

definition dict_merge :: "dict \<Rightarrow> dict \<Rightarrow> dict" where
  "dict_merge d e = foldl (\<lambda>acc (k, v). AList.update k v acc) d e"

lemma dict_merge_Nil [simp]: "dict_merge d [] = d"
  by (simp add: dict_merge_def)

lemma dict_merge_Cons [simp]: "dict_merge d ((k, v) # e) = dict_merge (AList.update k v d) e"
  by (simp add: dict_merge_def)

lemma map_of_dict_merge:
  "distinct (map fst e) \<Longrightarrow> map_of (dict_merge d e) x = (map_of d ++ map_of e) x"
proof (induction e arbitrary: d)
  case Nil
  then show ?case by simp
next
  case (Cons kv e)
  obtain k v where kv: "kv = (k, v)" by force
  then have "map_of e k = None" using Cons.prems by (simp add: map_of_eq_None_iff)
  then show ?case using Cons kv
    by (auto simp: map_add_def update_conv' split: option.splits)
qed

lemma map_of_dict_merge_other: "k \<notin> fst ` set e \<Longrightarrow> map_of (dict_merge d e) k = map_of d k"
  by (induction e arbitrary: d) (auto simp: update_conv')

text \<open>\<open>bool(v)\<close>\<close>

fun truthy :: "pyval \<Rightarrow> bool" where
  "truthy PNone = False"
| "truthy (PBool b) = b"
| "truthy (PInt n) = (n \<noteq> 0)"
| "truthy (PFloat x) = (x \<noteq> 0)"
| "truthy (PStr s) = (s \<noteq> [])"
| "truthy (PList xs) = (xs \<noteq> [])"
| "truthy (PDict d) = (d \<noteq> [])"

fun opt_str :: "string option \<Rightarrow> pyval" where
  "opt_str None = PNone"
| "opt_str (Some s) = PStr s"

section \<open>Strings\<close>

text \<open>\<open>str.isspace\<close> for the code points below 256.\<close>

definition is_space :: "char \<Rightarrow> bool" where
  "is_space c \<longleftrightarrow> (let n = of_char c :: nat in
     (9 \<le> n \<and> n \<le> 13) \<or> (28 \<le> n \<and> n \<le> 32) \<or> n = 133 \<or> n = 160)"

text \<open>\<open>s.split()\<close>: the maximal runs of characters that are not white space.\<close>

function py_split :: "string \<Rightarrow> string list" where
  "py_split [] = []"
| "py_split (c # cs) =
     (if is_space c then py_split cs
      else (c # takeWhile (\<lambda>x. \<not> is_space x) cs) # py_split (dropWhile (\<lambda>x. \<not> is_space x) cs))"
  by pat_completeness auto
termination
  by (relation "measure length") (auto simp: le_imp_less_Suc length_dropWhile_le)

fun py_join :: "string \<Rightarrow> string list \<Rightarrow> string" where
  "py_join sep [] = []"
| "py_join sep [w] = w"
| "py_join sep (w # v # ws) = w @ sep @ py_join sep (v # ws)"

text \<open>\<open>'' ''.join(s.split())\<close>, the code's idea of the same text.\<close>

definition squash :: "string \<Rightarrow> string" where
  "squash s = py_join '' '' (py_split s)"

text \<open>\<open>s.strip()\<close>\<close>

definition py_strip :: "string \<Rightarrow> string" where
  "py_strip s = rev (dropWhile is_space (rev (dropWhile is_space s)))"

definition word_ok :: "string \<Rightarrow> bool" where
  "word_ok w \<longleftrightarrow> w \<noteq> [] \<and> (\<forall>c \<in> set w. \<not> is_space c)"

lemma py_split_words: "w \<in> set (py_split s) \<Longrightarrow> word_ok w"
proof (induction s rule: py_split.induct)
  case (2 c cs)
  show ?case
  proof (cases "is_space c")
    case True
    then show ?thesis using 2 by simp
  next
    case False
    have head: "word_ok (c # takeWhile (\<lambda>x. \<not> is_space x) cs)"
      using False set_takeWhileD [of _ "\<lambda>x. \<not> is_space x" cs] unfolding word_ok_def by force
    have "w = c # takeWhile (\<lambda>x. \<not> is_space x) cs
        \<or> w \<in> set (py_split (dropWhile (\<lambda>x. \<not> is_space x) cs))"
      using "2.prems" False by simp
    then show ?thesis using head "2.IH"(2) [OF False] by blast
  qed
qed simp

lemma py_split_append_space:
  assumes "word_ok w" and "is_space c"
  shows "py_split (w @ c # rest) = w # py_split rest"
proof -
  obtain a as where w: "w = a # as" using assms(1) by (cases w) (auto simp: word_ok_def)
  have "takeWhile (\<lambda>x. \<not> is_space x) (as @ c # rest) = as"
    and "dropWhile (\<lambda>x. \<not> is_space x) (as @ c # rest) = c # rest"
    using assms w by (auto simp: word_ok_def takeWhile_append dropWhile_append)
  then show ?thesis using assms w by (simp add: word_ok_def)
qed

lemma py_split_word: "word_ok w \<Longrightarrow> py_split w = [w]"
  by (cases w) (auto simp: word_ok_def takeWhile_eq_all_conv[THEN iffD2] dropWhile_eq_Nil_conv[THEN iffD2])

lemma space_is_space [simp]: "is_space CHR '' ''"
  by (simp add: is_space_def)

lemma py_split_join: "\<forall>w \<in> set ws. word_ok w \<Longrightarrow> py_split (py_join '' '' ws) = ws"
  by (induction "'' ''" ws rule: py_join.induct)
    (auto simp: py_split_word py_split_append_space)

lemma squash_idem [simp]: "squash (squash s) = squash s"
  by (simp add: squash_def py_split_join py_split_words)

lemma py_join_Nil_iff: "\<forall>w \<in> set ws. w \<noteq> [] \<Longrightarrow> py_join sep ws = [] \<longleftrightarrow> ws = []"
  by (induction sep ws rule: py_join.induct) auto

lemma py_split_Nil_iff: "py_split s = [] \<longleftrightarrow> (\<forall>c \<in> set s. is_space c)"
  by (induction s rule: py_split.induct) auto

lemma squash_Nil_iff: "squash s = [] \<longleftrightarrow> (\<forall>c \<in> set s. is_space c)"
  unfolding squash_def
  by (subst py_join_Nil_iff) (auto simp: py_split_Nil_iff dest: py_split_words simp: word_ok_def)

text \<open>Decimal notation, as an f-string renders an \<open>int\<close>.\<close>

definition digit :: "nat \<Rightarrow> char" where
  "digit n = char_of (48 + n)"

fun show_nat :: "nat \<Rightarrow> string" where
  "show_nat n = (if n < 10 then [digit n] else show_nat (n div 10) @ [digit (n mod 10)])"

declare show_nat.simps [simp del]

definition show_int :: "int \<Rightarrow> string" where
  "show_int n = (if n < 0 then CHR ''-'' # show_nat (nat (- n)) else show_nat (nat n))"

lemma digit_inj: "a < 10 \<Longrightarrow> b < 10 \<Longrightarrow> digit a = digit b \<Longrightarrow> a = b"
  by (auto simp: digit_def char_of_eq_iff take_bit_nat_eq_self)

lemma digit_range: "n < 10 \<Longrightarrow> of_char (digit n) = 48 + n"
  by (simp add: digit_def take_bit_nat_eq_self)

lemma show_nat_nonempty [simp]: "show_nat n \<noteq> []"
  by (subst show_nat.simps) simp

lemma show_nat_chars: "c \<in> set (show_nat n) \<Longrightarrow> 48 \<le> (of_char c :: nat) \<and> (of_char c :: nat) \<le> 57"
proof (induction n rule: show_nat.induct)
  case (1 n)
  then show ?case
    by (subst (asm) show_nat.simps) (auto simp: digit_range split: if_splits)
qed

lemma show_nat_inj: "show_nat m = show_nat n \<Longrightarrow> m = n"
proof (induction m arbitrary: n rule: show_nat.induct)
  case (1 m)
  show ?case
  proof (cases "m < 10")
    case True
    then have "length (show_nat n) = 1" using "1.prems" by (metis One_nat_def length_Cons list.size(3) show_nat.simps)
    then have "n < 10" by (subst (asm) (1) show_nat.simps) (auto split: if_splits)
    with True "1.prems" show ?thesis
      by (auto simp: show_nat.simps [of m] show_nat.simps [of n] dest: digit_inj)
  next
    case False
    then have "1 < length (show_nat n)" using "1.prems"
      by (metis Suc_lessI length_append_singleton length_greater_0_conv One_nat_def Suc_less_eq show_nat.simps show_nat_nonempty)
    then have "\<not> n < 10" by (subst (asm) show_nat.simps) (auto split: if_splits)
    with False "1.prems" have "show_nat (m div 10) = show_nat (n div 10)" and "digit (m mod 10) = digit (n mod 10)"
      by (auto simp: show_nat.simps [of m] show_nat.simps [of n])
    then have "m div 10 = n div 10" and "m mod 10 = n mod 10"
      using "1.IH" [OF False] digit_inj [of "m mod 10" "n mod 10"] by simp_all
    then show ?thesis by (metis mult_div_mod_eq)
  qed
qed

text \<open>\<open>str.lower\<close> of a Latin-1 character.\<close>

definition lower_latin :: "char \<Rightarrow> char" where
  "lower_latin c = (let n = of_char c :: int in
     if (65 \<le> n \<and> n \<le> 90) \<or> (192 \<le> n \<and> n \<le> 222 \<and> n \<noteq> 215) then char_of (n + 32) else c)"

section \<open>Lists\<close>

text \<open>
  \<open>sorted(xs, key=f, reverse=True)\<close>: largest key first, and stable, so elements with
  equal keys keep the order they came in.
\<close>

definition sort_desc :: "('a \<Rightarrow> 'b::linorder) \<Rightarrow> 'a list \<Rightarrow> 'a list" where
  "sort_desc f xs = rev (sort_key f (rev xs))"

lemma set_sort_desc [simp]: "set (sort_desc f xs) = set xs"
  by (simp add: sort_desc_def)

lemma length_sort_desc [simp]: "length (sort_desc f xs) = length xs"
  by (simp add: sort_desc_def)

lemma distinct_sort_desc [simp]: "distinct (sort_desc f xs) = distinct xs"
  by (simp add: sort_desc_def)

lemma sort_desc_sorted: "sorted_wrt (\<lambda>x y. f y \<le> f x) (sort_desc f xs)"
proof -
  have "sorted (map f (sort_key f (rev xs)))" by (rule sorted_sort_key)
  then show ?thesis by (simp add: sort_desc_def sorted_wrt_rev sorted_wrt_map)
qed

text \<open>\<open>next((x for x in xs if p(x)), None)\<close> is \<open>find p xs\<close>; \<open>sum\<close> of the integers is
  \<open>sum_list\<close>. The first element of a list, if there is one:\<close>

fun first :: "'a list \<Rightarrow> 'a option" where
  "first [] = None"
| "first (x # _) = Some x"

lemma first_Some: "first xs = Some x \<Longrightarrow> x \<in> set xs"
  by (cases xs) auto

text \<open>A comprehension \<open>[f(x) for x in xs]\<close> whose body may raise.\<close>

fun collect :: "('a \<Rightarrow> exn + 'b) \<Rightarrow> 'a list \<Rightarrow> exn + 'b list" where
  "collect f [] = Inr []"
| "collect f (x # xs) = and_maybe (f x) (\<lambda>y. and_maybe (collect f xs) (\<lambda>ys. Inr (y # ys)))"

text \<open>Updating and deleting in an association list.\<close>

lemma length_alist_update_le: "length (AList.update k v al) \<le> Suc (length al)"
  by (induction al) auto

lemma length_alist_update: "map_of al k \<noteq> None \<Longrightarrow> length (AList.update k v al) = length al"
  by (induction al) (auto split: if_splits)

lemma set_alist_update: "set (AList.update k v al) \<subseteq> insert (k, v) (set al)"
  by (induction al) auto

lemma set_alist_delete: "set (AList.delete k al) \<subseteq> set al"
  by (simp add: AList.delete_eq)

lemma length_alist_delete: "length (AList.delete k al) \<le> length al"
  by (simp add: AList.delete_eq)

lemma length_alist_delete_less: "(k, v) \<in> set al \<Longrightarrow> length (AList.delete k al) < length al"
  unfolding AList.delete_eq by (rule length_filter_less) auto

text \<open>Distinctness through a sort and a prefix.\<close>

lemma distinct_map_take_sort: "distinct (map f xs) \<Longrightarrow> distinct (map f (take n (sort_key g xs)))"
  by (simp add: distinct_map inj_on_subset [OF _ set_take_subset] take_map [symmetric] distinct_take)

lemma collect_map: "(\<And>x. x \<in> set xs \<Longrightarrow> f x = Inr (g x)) \<Longrightarrow> collect f xs = Inr (map g xs)"
  by (induction xs) auto

text \<open>A sublist of a sorted list is sorted.\<close>

lemma sorted_wrt_subseq: "subseq xs ys \<Longrightarrow> sorted_wrt P ys \<Longrightarrow> sorted_wrt P xs"
  by (induction rule: list_emb.induct) (auto dest: list_emb_set)

end
