(* ===== verification/Persistence.thy ===== *)
theory Persistence
  imports Seo_Prelude
begin

text \<open>
  The versioned record store: \<open>app/models/persistence.py\<close> (the envelope),
  \<open>app/persistence/contracts.py\<close> (the \<open>Repository\<close> protocol and its pages) and
  \<open>app/persistence/memory.py\<close> (\<open>InMemoryRepository\<close>, whole). The protocol is the locale
  \<open>repository\<close>, interpreted on the in-memory store; every store of the code (jobs, actions,
  one-time codes) is a client of the protocol and is proved against the locale.

  A payload has the abstract type \<open>'p\<close>: what pydantic's \<open>model_dump\<close> and
  \<open>model_validate\<close> make of a model is a \<open>codec\<close>, an argument of the stores, with the round
  trip \<open>codec_ok\<close> as its documented behaviour. The cursor token is the pair it encodes
  (base64 and JSON text are not modelled); \<open>Undecodable\<close> is any other string.
\<close>

section \<open>Records\<close>

record 'p precord =
  pr_record_id :: string
  pr_type :: string
  pr_id :: string
  pr_schema_version :: int
  pr_version :: int
  pr_payload :: 'p
  pr_created_at :: instant
  pr_snapshot_id :: "string option"
  pr_data_snapshot_id :: "string option"
  pr_rule_version :: "string option"
  pr_config_version :: "string option"
  pr_tenant_id :: "string option"
  pr_site_id :: "string option"

text \<open>The constraints pydantic checks when a record is constructed.\<close>

definition pr_valid :: "'p precord \<Rightarrow> bool" where
  "pr_valid r \<longleftrightarrow> pr_record_id r \<noteq> [] \<and> pr_type r \<noteq> [] \<and> pr_id r \<noteq> []
     \<and> 1 \<le> pr_schema_version r \<and> 1 \<le> pr_version r"

definition new_precord ::
  "string \<Rightarrow> string \<Rightarrow> string \<Rightarrow> int \<Rightarrow> int \<Rightarrow> 'p \<Rightarrow> instant \<Rightarrow> string option \<Rightarrow> string option
   \<Rightarrow> exn + 'p precord" where
  "new_precord record_id ty i schema ver p now tenant site =
     (let r = \<lparr>pr_record_id = record_id, pr_type = ty, pr_id = i, pr_schema_version = schema,
               pr_version = ver, pr_payload = p, pr_created_at = now, pr_snapshot_id = None,
               pr_data_snapshot_id = None, pr_rule_version = None, pr_config_version = None,
               pr_tenant_id = tenant, pr_site_id = site\<rparr>
      in if pr_valid r then Inr r else Inl (Exn ValidationError ''PersistenceRecord''))"

abbreviation pr_key :: "'p precord \<Rightarrow> string \<times> string" where
  "pr_key r \<equiv> (pr_type r, pr_id r)"

abbreviation pr_identity :: "'p precord \<Rightarrow> string \<times> string \<times> int" where
  "pr_identity r \<equiv> (pr_type r, pr_id r, pr_version r)"

text \<open>How the stores build a record id: \<open>f"{prefix}:{id}:v{version}"\<close>.\<close>

definition rid :: "string \<Rightarrow> string \<Rightarrow> int \<Rightarrow> string" where
  "rid pre i v = pre @ '':'' @ i @ '':v'' @ show_int v"

record ('m, 'p) codec =
  model_dump :: "'m \<Rightarrow> 'p"
  model_validate :: "'p \<Rightarrow> 'm option"

definition codec_ok :: "('m \<Rightarrow> bool) \<Rightarrow> ('m, 'p) codec \<Rightarrow> bool" where
  "codec_ok valid c \<longleftrightarrow> (\<forall>m. valid m \<longrightarrow> model_validate c (model_dump c m) = Some m)"

text \<open>The codec of a store that keeps the model itself.\<close>

definition plain_codec :: "('m, 'm) codec" where
  "plain_codec = \<lparr>model_dump = id, model_validate = Some\<rparr>"

lemma plain_codec_ok [simp]: "codec_ok valid plain_codec"
  by (simp add: codec_ok_def plain_codec_def)

definition restore :: "('m, 'p) codec \<Rightarrow> 'p \<Rightarrow> exn + 'm" where
  "restore c p = (case model_validate c p of
     None \<Rightarrow> Inl (Exn ValidationError ''payload'') | Some m \<Rightarrow> Inr m)"

lemma restore_dump [simp]: "codec_ok valid c \<Longrightarrow> valid m \<Longrightarrow> restore c (model_dump c m) = Inr m"
  by (simp add: restore_def codec_ok_def)

subsection \<open>Record ids do not collide\<close>

lemma show_int_chars: "0 \<le> v \<Longrightarrow> CHR ''v'' \<notin> set (show_int v)"
  using show_nat_chars [of "CHR ''v''" "nat v"] by (auto simp: show_int_def)

lemma last_v_unique:
  assumes "xs @ CHR ''v'' # ds = ys @ CHR ''v'' # es"
    and "CHR ''v'' \<notin> set ds" and "CHR ''v'' \<notin> set es"
  shows "xs = ys \<and> ds = es"
proof -
  have "rev ds @ CHR ''v'' # rev xs = rev es @ CHR ''v'' # rev ys"
    using assms(1) by (metis append.assoc append_Cons append_Nil rev.simps(2) rev_append)
  moreover have "takeWhile (\<lambda>c. c \<noteq> CHR ''v'') (rev zs @ CHR ''v'' # ws) = rev zs"
    if "CHR ''v'' \<notin> set zs" for zs ws
    using that by (subst takeWhile_append2) auto
  ultimately have "rev ds = rev es" using assms(2,3) by metis
  then show ?thesis using assms(1) by simp
qed

lemma rid_inj:
  assumes "rid pre i v = rid pre j w" and "0 \<le> v" and "0 \<le> w"
  shows "i = j \<and> v = w"
proof -
  have "(i @ '':'') @ CHR ''v'' # show_int v = (j @ '':'') @ CHR ''v'' # show_int w"
    using assms(1) by (simp add: rid_def)
  then have "i @ '':'' = j @ '':'' \<and> show_int v = show_int w"
    by (rule last_v_unique) (simp_all add: show_int_chars assms)
  moreover have "v = w" if "show_int v = show_int w"
    using that assms(2,3) by (auto simp: show_int_def dest: show_nat_inj)
  ultimately show ?thesis by simp
qed

lemma rid_nonempty [simp]: "rid pre i v \<noteq> []"
  by (simp add: rid_def)

lemma rid_prefix [simp]: "prefix (pre @ '':'') (rid pre i v)"
  by (simp add: rid_def prefix_def)

text \<open>
  A record id that starts with another kind's prefix is that kind's: prefixes hold no
  colon, so the text before the first colon tells them apart.
\<close>

lemma rid_prefix_iff:
  assumes "CHR '':'' \<notin> set pre" and "CHR '':'' \<notin> set pre'"
  shows "prefix (pre' @ '':'') (rid pre i v) \<longleftrightarrow> pre' = pre"
proof
  assume "prefix (pre' @ '':'') (rid pre i v)"
  then obtain zs where eq: "pre @ CHR '':'' # i @ '':v'' @ show_int v = pre' @ CHR '':'' # zs"
    by (auto simp: prefix_def rid_def)
  have "takeWhile (\<lambda>c. c \<noteq> CHR '':'') (q @ CHR '':'' # ws) = q" if "CHR '':'' \<notin> set q" for q ws
    using that by (induction q) auto
  then show "pre' = pre" using eq assms by metis
qed simp

text \<open>
  \<open>keeps_kind pre t own\<close>: the record ids with prefix \<open>pre\<close> are exactly those of the
  aggregate type \<open>t\<close>, and each is the one its identity gives.
\<close>

definition keeps_kind ::
  "string \<Rightarrow> string \<Rightarrow> (string \<Rightarrow> (string \<times> string \<times> int) option) \<Rightarrow> bool" where
  "keeps_kind pre t own \<longleftrightarrow> (\<forall>x ty i v. own x = Some (ty, i, v) \<longrightarrow>
     0 \<le> v \<and> (prefix (pre @ '':'') x \<longleftrightarrow> ty = t) \<and> (ty = t \<longrightarrow> x = rid pre i v))"

lemma keeps_kind_empty: "keeps_kind pre t (\<lambda>_. None)"
  by (simp add: keeps_kind_def)

lemma keeps_kind_add:
  assumes "keeps_kind pre t own" and "0 \<le> v"
    and "CHR '':'' \<notin> set pre" and "CHR '':'' \<notin> set pre'" and "pre = pre' \<longleftrightarrow> t = t'"
  shows "keeps_kind pre t (own(rid pre' i v \<mapsto> (t', i, v)))"
  using assms by (auto simp: keeps_kind_def rid_prefix_iff)

section \<open>Pages\<close>

datatype cursor = CursorToken instant string | Undecodable

definition encode_cursor :: "instant \<Rightarrow> string \<Rightarrow> cursor" where
  "encode_cursor created i = CursorToken created i"

fun decode_cursor :: "cursor \<Rightarrow> exn + (instant \<times> string)" where
  "decode_cursor Undecodable = Inl (Exn InvalidCursorError ''Pagination cursor is not valid.'')"
| "decode_cursor (CursorToken created i) =
     (if i = [] then Inl (Exn InvalidCursorError ''Pagination cursor is not valid.'')
      else Inr (created, i))"

record 'p record_page =
  page_records :: "'p precord list"
  page_next_cursor :: "cursor option"

abbreviation page_key :: "'p precord \<Rightarrow> instant \<times> string" where
  "page_key r \<equiv> (pr_created_at r, pr_id r)"

section \<open>The repository protocol\<close>

record ('s, 'p) repository_ops =
  repo_create :: "'s \<Rightarrow> 'p precord \<Rightarrow> exn + 's"
  repo_get :: "'s \<Rightarrow> string \<Rightarrow> string \<Rightarrow> 'p precord option"
  repo_list :: "'s \<Rightarrow> string option \<Rightarrow> int option \<Rightarrow> exn + 'p precord list"
  repo_query :: "'s \<Rightarrow> string \<Rightarrow> string option \<Rightarrow> string option \<Rightarrow> int \<Rightarrow> cursor option
     \<Rightarrow> exn + 'p record_page"
  repo_replace :: "'s \<Rightarrow> 'p precord \<Rightarrow> int \<Rightarrow> exn + 's"

definition refused :: "exn_class \<Rightarrow> exn + 'a \<Rightarrow> bool" where
  "refused c r \<longleftrightarrow> (\<exists>m. r = Inl (Exn c m))"

lemma refused_not_Inr [simp]: "\<not> refused c (Inr x)"
  by (simp add: refused_def)

text \<open>The effect of a successful write: one aggregate has the new record, its id is taken.\<close>

definition written_to ::
  "('s, 'p) repository_ops \<Rightarrow> ('s \<Rightarrow> bool) \<Rightarrow> ('s \<Rightarrow> string \<Rightarrow> (string \<times> string \<times> int) option)
   \<Rightarrow> 's \<Rightarrow> 'p precord \<Rightarrow> 's \<Rightarrow> bool" where
  "written_to R ok owner s r s' \<longleftrightarrow> ok s'
     \<and> repo_get R s' = (\<lambda>t i. if (t, i) = pr_key r then Some r else repo_get R s t i)
     \<and> owner s' = (owner s)(pr_record_id r \<mapsto> pr_identity r)"

text \<open>
  What the protocol promises. \<open>ok\<close> is the store's own well-formedness and \<open>owner\<close> says
  which version of which aggregate a record id belongs to (the table's UNIQUE constraint).
\<close>

locale repository =
  fixes R :: "('s, 'p) repository_ops"
    and ok :: "'s \<Rightarrow> bool"
    and owner :: "'s \<Rightarrow> string \<Rightarrow> (string \<times> string \<times> int) option"
  assumes get_key: "ok s \<Longrightarrow> repo_get R s t i = Some r \<Longrightarrow> pr_type r = t \<and> pr_id r = i"
    and owned: "ok s \<Longrightarrow> owner s x = Some (t, i, v) \<Longrightarrow>
      \<exists>c. repo_get R s t i = Some c \<and> v \<le> pr_version c"
    and create_exists: "ok s \<Longrightarrow> repo_get R s (pr_type r) (pr_id r) = Some c \<Longrightarrow>
      refused PersistenceConflictError (repo_create R s r)"
    and create_taken: "ok s \<Longrightarrow> owner s (pr_record_id r) = Some p \<Longrightarrow> p \<noteq> pr_identity r \<Longrightarrow>
      refused PersistenceConflictError (repo_create R s r)"
    and create_new: "ok s \<Longrightarrow> repo_get R s (pr_type r) (pr_id r) = None \<Longrightarrow>
      owner s (pr_record_id r) = None \<Longrightarrow>
      \<exists>s'. repo_create R s r = Inr s' \<and> written_to R ok owner s r s'"
    and replace_missing: "ok s \<Longrightarrow> repo_get R s (pr_type r) (pr_id r) = None \<Longrightarrow>
      refused PersistenceNotFoundError (repo_replace R s r ev)"
    and replace_refused: "ok s \<Longrightarrow> repo_get R s (pr_type r) (pr_id r) = Some c \<Longrightarrow>
      pr_tenant_id c \<noteq> pr_tenant_id r \<or> pr_version c \<noteq> ev \<or> pr_version r \<noteq> ev + 1
        \<or> (\<exists>p. owner s (pr_record_id r) = Some p \<and> p \<noteq> pr_identity r) \<Longrightarrow>
      refused PersistenceConflictError (repo_replace R s r ev)"
    and replace_next: "ok s \<Longrightarrow> repo_get R s (pr_type r) (pr_id r) = Some c \<Longrightarrow>
      pr_tenant_id c = pr_tenant_id r \<Longrightarrow> pr_version c = ev \<Longrightarrow> pr_version r = ev + 1 \<Longrightarrow>
      owner s (pr_record_id r) = None \<Longrightarrow>
      \<exists>s'. repo_replace R s r ev = Inr s' \<and> written_to R ok owner s r s'"
    and list_type: "ok s \<Longrightarrow> \<exists>rs. repo_list R s (Some t) None = Inr rs
      \<and> set rs = {r. \<exists>i. repo_get R s t i = Some r} \<and> sorted_wrt (<) (map pr_id rs)"
begin

lemma create_owner_none:
  assumes "ok s" and "repo_create R s r = Inr s'"
  shows "repo_get R s (pr_type r) (pr_id r) = None \<and> owner s (pr_record_id r) = None"
proof -
  have "repo_get R s (pr_type r) (pr_id r) = None"
    using create_exists [OF assms(1), of r] assms(2) by (cases "repo_get R s (pr_type r) (pr_id r)") auto
  moreover have "owner s (pr_record_id r) = None"
  proof (cases "owner s (pr_record_id r)")
    case (Some p)
    then have "p = pr_identity r" using create_taken [OF assms(1) Some] assms(2) by auto
    then show ?thesis using owned [OF assms(1)] Some calculation by fastforce
  qed
  ultimately show ?thesis by simp
qed

lemma create_written:
  assumes "ok s" and "repo_create R s r = Inr s'"
  shows "written_to R ok owner s r s'"
  using create_new [OF assms(1), of r] create_owner_none [OF assms] assms(2)
  by auto

lemma replace_current:
  assumes "ok s" and "repo_replace R s r ev = Inr s'"
  shows "\<exists>c. repo_get R s (pr_type r) (pr_id r) = Some c \<and> pr_version c = ev
     \<and> pr_version r = ev + 1 \<and> pr_tenant_id c = pr_tenant_id r \<and> owner s (pr_record_id r) = None"
proof -
  obtain c where c: "repo_get R s (pr_type r) (pr_id r) = Some c"
    using replace_missing [OF assms(1), of r ev] assms(2)
    by (cases "repo_get R s (pr_type r) (pr_id r)") auto
  have ok: "pr_tenant_id c = pr_tenant_id r \<and> pr_version c = ev \<and> pr_version r = ev + 1
      \<and> (\<forall>p. owner s (pr_record_id r) = Some p \<longrightarrow> p = pr_identity r)"
    using replace_refused [OF assms(1) c, of ev] assms(2)
    by (metis refused_not_Inr)
  have "owner s (pr_record_id r) = None"
  proof (cases "owner s (pr_record_id r)")
    case (Some p)
    then show ?thesis using ok owned [OF assms(1)] c by fastforce
  qed
  then show ?thesis using c ok by simp
qed

lemma replace_written:
  assumes "ok s" and "repo_replace R s r ev = Inr s'"
  shows "written_to R ok owner s r s'"
  using replace_next [OF assms(1), of r _ ev] replace_current [OF assms] assms(2)
  by fastforce

lemma written_inv: "written_to R ok owner s r s' \<Longrightarrow> ok s'"
  by (simp add: written_to_def)

lemma written_get: "written_to R ok owner s r s' \<Longrightarrow>
    repo_get R s' t i = (if (t, i) = pr_key r then Some r else repo_get R s t i)"
  by (simp add: written_to_def)

lemma written_owner: "written_to R ok owner s r s' \<Longrightarrow> owner s' = (owner s)(pr_record_id r \<mapsto> pr_identity r)"
  by (simp add: written_to_def)

text \<open>
  The next version of an aggregate never meets a used record id: the id it will be written
  under is free as long as the ids of its kind follow the convention.
\<close>

lemma next_rid_free:
  assumes "ok s" and "keeps_kind pre t (owner s)"
    and "\<And>c. repo_get R s t i = Some c \<Longrightarrow> pr_version c < v" and "0 \<le> v"
  shows "owner s (rid pre i v) = None"
proof (cases "owner s (rid pre i v)")
  case (Some p)
  obtain ty j w where p: "p = (ty, j, w)" by (cases p)
  have "0 \<le> w \<and> (prefix (pre @ '':'') (rid pre i v) \<longleftrightarrow> ty = t) \<and> (ty = t \<longrightarrow> rid pre i v = rid pre j w)"
    using assms(2) Some p unfolding keeps_kind_def by blast
  then have "ty = t" and "0 \<le> w" and "rid pre i v = rid pre j w" by simp_all
  then have "j = i \<and> w = v" using rid_inj [of pre i v j w] assms(4) by auto
  then have "owner s (rid pre i v) = Some (t, i, v)" using Some p \<open>ty = t\<close> by simp
  then obtain c where "repo_get R s t i = Some c" and "v \<le> pr_version c"
    using owned [OF assms(1)] by blast
  then show ?thesis using assms(3) by force
qed

lemma written_keeps_kind:
  assumes "written_to R ok owner s r s'" and "keeps_kind pre t (owner s)" and "pr_record_id r = rid pre' (pr_id r) (pr_version r)"
    and "0 \<le> pr_version r" and "CHR '':'' \<notin> set pre" and "CHR '':'' \<notin> set pre'"
    and "pre = pre' \<longleftrightarrow> t = pr_type r"
  shows "keeps_kind pre t (owner s')"
  using keeps_kind_add [OF assms(2,4,5,6,7), of "pr_id r"] assms(1,3) by (simp add: written_to_def)

end

section \<open>The in-memory repository\<close>

record 'p memory =
  mem_records :: "((string \<times> string) \<times> 'p precord) list"
  mem_record_ids :: "(string \<times> (string \<times> string \<times> int)) list"

definition empty_memory :: "'p memory" where
  "empty_memory = \<lparr>mem_records = [], mem_record_ids = []\<rparr>"

definition claim_record_id :: "'p memory \<Rightarrow> 'p precord \<Rightarrow> exn + 'p memory" where
  "claim_record_id m r =
     (case map_of (mem_record_ids m) (pr_record_id r) of
        Some p \<Rightarrow>
          if p \<noteq> pr_identity r
          then Inl (Exn PersistenceConflictError
                 (''record_id is already used by another row: '' @ pr_record_id r))
          else Inr (m\<lparr>mem_record_ids := AList.update (pr_record_id r) (pr_identity r) (mem_record_ids m)\<rparr>)
      | None \<Rightarrow> Inr (m\<lparr>mem_record_ids := AList.update (pr_record_id r) (pr_identity r) (mem_record_ids m)\<rparr>))"

definition mem_put :: "'p memory \<Rightarrow> 'p precord \<Rightarrow> 'p memory" where
  "mem_put m r = m\<lparr>mem_records := AList.update (pr_key r) r (mem_records m)\<rparr>"

definition mem_create :: "'p memory \<Rightarrow> 'p precord \<Rightarrow> exn + 'p memory" where
  "mem_create m r =
     (if map_of (mem_records m) (pr_key r) \<noteq> None
      then Inl (Exn PersistenceConflictError
             (''aggregate already exists: '' @ pr_type r @ '':'' @ pr_id r))
      else and_maybe (claim_record_id m r) (\<lambda>m'. Inr (mem_put m' r)))"

definition mem_get :: "'p memory \<Rightarrow> string \<Rightarrow> string \<Rightarrow> 'p precord option" where
  "mem_get m t i = map_of (mem_records m) (t, i)"

definition mem_list :: "'p memory \<Rightarrow> string option \<Rightarrow> int option \<Rightarrow> exn + 'p precord list" where
  "mem_list m ty limit =
     (if (case limit of None \<Rightarrow> False | Some n \<Rightarrow> n < 1) then Inl (Exn ValueError ''limit must be >= 1'')
      else let rs = sort_key (\<lambda>r. (pr_type r, pr_id r, pr_version r))
                 (filter (\<lambda>r. ty = None \<or> ty = Some (pr_type r)) (map snd (mem_records m)))
           in Inr (case limit of None \<Rightarrow> rs | Some n \<Rightarrow> take (nat n) rs))"

definition query_hits ::
  "'p memory \<Rightarrow> string \<Rightarrow> string option \<Rightarrow> string option \<Rightarrow> 'p precord list" where
  "query_hits m tenant ty site =
     sort_desc page_key
       (filter (\<lambda>r. pr_tenant_id r = Some tenant \<and> (ty = None \<or> ty = Some (pr_type r))
                    \<and> (site = None \<or> pr_site_id r = site))
          (map snd (mem_records m)))"

definition page_of :: "'p precord list \<Rightarrow> int \<Rightarrow> 'p record_page" where
  "page_of rs limit =
     (let page = take (nat limit) rs
      in \<lparr>page_records = page,
          page_next_cursor =
            (if limit < int (length rs) \<and> page \<noteq> []
             then Some (encode_cursor (pr_created_at (last page)) (pr_id (last page))) else None)\<rparr>)"

definition mem_query ::
  "'p memory \<Rightarrow> string \<Rightarrow> string option \<Rightarrow> string option \<Rightarrow> int \<Rightarrow> cursor option
   \<Rightarrow> exn + 'p record_page" where
  "mem_query m tenant ty site limit cur =
     (if py_strip tenant = [] then Inl (Exn ValueError ''tenant_id is required for a scoped query'')
      else if limit < 1 \<or> 500 < limit then Inl (Exn ValueError ''limit must be between 1 and 500'')
      else case cur of
          None \<Rightarrow> Inr (page_of (query_hits m tenant ty site) limit)
        | Some c \<Rightarrow> and_maybe (decode_cursor c) (\<lambda>k.
            Inr (page_of (filter (\<lambda>r. page_key r < k) (query_hits m tenant ty site)) limit)))"

definition mem_replace :: "'p memory \<Rightarrow> 'p precord \<Rightarrow> int \<Rightarrow> exn + 'p memory" where
  "mem_replace m r ev =
     (case map_of (mem_records m) (pr_key r) of
        None \<Rightarrow> Inl (Exn PersistenceNotFoundError
                   (''aggregate not found: '' @ pr_type r @ '':'' @ pr_id r))
      | Some c \<Rightarrow>
          if pr_tenant_id c \<noteq> pr_tenant_id r
          then Inl (Exn PersistenceConflictError
                 (''aggregate tenant is immutable: '' @ pr_type r @ '':'' @ pr_id r))
          else if pr_version c \<noteq> ev
          then Inl (Exn PersistenceConflictError
                 (''optimistic concurrency conflict: expected version '' @ show_int ev
                  @ '', found '' @ show_int (pr_version c)))
          else if pr_version r \<noteq> ev + 1
          then Inl (Exn PersistenceConflictError
                 (''replacement version must increment by exactly one: expected '' @ show_int (ev + 1)
                  @ '', found '' @ show_int (pr_version r)))
          else and_maybe (claim_record_id m r) (\<lambda>m'. Inr (mem_put m' r)))"

definition memory_ops :: "('p memory, 'p) repository_ops" where
  "memory_ops = \<lparr>repo_create = mem_create, repo_get = mem_get, repo_list = mem_list,
                 repo_query = mem_query, repo_replace = mem_replace\<rparr>"

subsection \<open>It keeps the protocol\<close>

definition mem_owner :: "'p memory \<Rightarrow> string \<Rightarrow> (string \<times> string \<times> int) option" where
  "mem_owner m = map_of (mem_record_ids m)"

definition mem_ok :: "'p memory \<Rightarrow> bool" where
  "mem_ok m \<longleftrightarrow> distinct (map fst (mem_records m))
     \<and> (\<forall>(k, r) \<in> set (mem_records m). k = pr_key r)
     \<and> (\<forall>x t i v. mem_owner m x = Some (t, i, v) \<longrightarrow>
          (\<exists>c. mem_get m t i = Some c \<and> v \<le> pr_version c))"

lemma mem_ok_empty [simp]: "mem_ok empty_memory"
  by (simp add: mem_ok_def empty_memory_def mem_owner_def)

lemma mem_owner_empty [simp]: "mem_owner empty_memory = (\<lambda>_. None)"
  by (simp add: mem_owner_def empty_memory_def fun_eq_iff)

lemma mem_get_empty [simp]: "mem_get empty_memory t i = None"
  by (simp add: mem_get_def empty_memory_def)

lemma mem_get_put [simp]:
  "mem_get (mem_put m r) t i = (if (t, i) = pr_key r then Some r else mem_get m t i)"
  by (simp add: mem_get_def mem_put_def update_conv')

lemma mem_owner_put [simp]: "mem_owner (mem_put m r) = mem_owner m"
  by (simp add: mem_owner_def mem_put_def)

lemma mem_get_key: "mem_ok m \<Longrightarrow> mem_get m t i = Some r \<Longrightarrow> pr_type r = t \<and> pr_id r = i"
  by (auto simp: mem_ok_def mem_get_def dest!: map_of_SomeD)

lemma claim_record_id_Inr:
  "claim_record_id m r = Inr m' \<longleftrightarrow>
     (mem_owner m (pr_record_id r) = None \<or> mem_owner m (pr_record_id r) = Some (pr_identity r))
     \<and> m' = m\<lparr>mem_record_ids := AList.update (pr_record_id r) (pr_identity r) (mem_record_ids m)\<rparr>"
  by (auto simp: claim_record_id_def mem_owner_def split: option.splits)

lemma claim_record_id_taken:
  "mem_owner m (pr_record_id r) = Some p \<Longrightarrow> p \<noteq> pr_identity r \<Longrightarrow>
    refused PersistenceConflictError (claim_record_id m r)"
  by (simp add: claim_record_id_def mem_owner_def refused_def)

lemma claim_record_id_effects:
  assumes "claim_record_id m r = Inr m'"
  shows "mem_records m' = mem_records m"
    and "mem_owner m' = (mem_owner m)(pr_record_id r \<mapsto> pr_identity r)"
    and "mem_get m' t i = mem_get m t i"
  using assms by (auto simp: claim_record_id_Inr mem_owner_def mem_get_def update_conv')

text \<open>A claimed write keeps the store well formed when the new version is not older.\<close>

lemma mem_ok_write:
  assumes ok: "mem_ok m" and claim: "claim_record_id m r = Inr m'"
    and newer: "\<And>c. mem_get m (pr_type r) (pr_id r) = Some c \<Longrightarrow> pr_version c \<le> pr_version r"
  shows "written_to memory_ops mem_ok mem_owner m r (mem_put m' r)"
proof -
  have "distinct (map fst (mem_records (mem_put m' r)))"
    using ok claim_record_id_effects(1) [OF claim]
    by (simp add: mem_ok_def mem_put_def distinct_update)
  moreover have "\<forall>(k, c) \<in> set (mem_records (mem_put m' r)). k = pr_key c"
  proof -
    have "set (mem_records (mem_put m' r)) \<subseteq> insert (pr_key r, r) (set (mem_records m))"
      using claim_record_id_effects(1) [OF claim] by (auto simp: mem_put_def dest: set_mp [OF set_alist_update])
    then show ?thesis using ok by (fastforce simp: mem_ok_def)
  qed
  moreover have "\<exists>c. mem_get (mem_put m' r) t i = Some c \<and> v \<le> pr_version c"
    if own: "mem_owner (mem_put m' r) x = Some (t, i, v)" for x t i v
  proof (cases "(t, i) = pr_key r")
    case True
    have "v \<le> pr_version r"
    proof (cases "x = pr_record_id r")
      case True
      then show ?thesis using own claim_record_id_effects(2) [OF claim] by simp
    next
      case False
      then have "mem_owner m x = Some (t, i, v)" using own claim_record_id_effects(2) [OF claim] by simp
      then obtain c where "mem_get m t i = Some c" "v \<le> pr_version c" using ok unfolding mem_ok_def by blast
      then show ?thesis using newer [of c] \<open>(t, i) = pr_key r\<close> by simp
    qed
    then show ?thesis using True by simp
  next
    case False
    then have "mem_owner m x = Some (t, i, v)"
      using own claim_record_id_effects(2) [OF claim] by (auto split: if_splits)
    then show ?thesis using False ok claim_record_id_effects(3) [OF claim] by (auto simp: mem_ok_def)
  qed
  ultimately have "mem_ok (mem_put m' r)" by (simp add: mem_ok_def)
  then show ?thesis
    using claim_record_id_effects [OF claim]
    by (simp add: written_to_def memory_ops_def fun_eq_iff)
qed

lemma lex_snd_le: "((a :: 'a::linorder), (b :: 'b::linorder), (c :: 'c::linorder)) \<le> (a, d, e) \<Longrightarrow> b \<le> d"
  by auto

lemma mem_list_type:
  assumes "mem_ok m"
  shows "\<exists>rs. mem_list m (Some t) None = Inr rs
    \<and> set rs = {r. \<exists>i. mem_get m t i = Some r} \<and> sorted_wrt (<) (map pr_id rs)"
proof -
  let ?K = "\<lambda>r. (pr_type r, pr_id r, pr_version r)"
  let ?xs = "filter (\<lambda>r. Some t = None \<or> Some t = Some (pr_type r)) (map snd (mem_records m))"
  let ?rs = "sort_key ?K ?xs"
  have keys: "map (\<lambda>r. pr_key r) (map snd (mem_records m)) = map fst (mem_records m)"
    using assms by (auto simp: mem_ok_def)
  have eq: "mem_list m (Some t) None = Inr ?rs" by (simp add: mem_list_def)
  have types: "\<forall>r \<in> set ?rs. pr_type r = t" by auto
  have "set ?rs = {r. \<exists>i. mem_get m t i = Some r}"
  proof -
    have "r \<in> set ?rs \<longleftrightarrow> (\<exists>i. mem_get m t i = Some r)" for r
    proof
      assume "r \<in> set ?rs"
      then obtain k where "(k, r) \<in> set (mem_records m)" "pr_type r = t" by auto
      then have "mem_get m t (pr_id r) = Some r"
        using assms by (fastforce simp: mem_ok_def mem_get_def intro: map_of_is_SomeI)
      then show "\<exists>i. mem_get m t i = Some r" by blast
    next
      assume "\<exists>i. mem_get m t i = Some r"
      then obtain i where "mem_get m t i = Some r" by blast
      then show "r \<in> set ?rs"
        using mem_get_key [OF assms] by (force simp: mem_get_def dest: map_of_SomeD)
    qed
    then show ?thesis by blast
  qed
  moreover have "distinct (map pr_id ?rs)"
  proof -
    have "distinct (map (\<lambda>r. pr_key r) (map snd (mem_records m)))"
      using assms by (simp only: keys) (simp add: mem_ok_def)
    then have "distinct (map (\<lambda>r. pr_key r) ?xs)" by (rule distinct_map_filter)
    then have "distinct (map pr_id ?xs)" by (auto simp: distinct_map inj_on_def)
    then show ?thesis by (auto simp: distinct_map)
  qed
  moreover have "sorted (map pr_id ?rs)"
  proof -
    have "sorted_wrt (\<lambda>x y. ?K x \<le> ?K y) ?rs"
      using sorted_sort_key [of ?K ?xs] by (simp add: sorted_wrt_map)
    moreover have "pr_id x \<le> pr_id y"
      if "x \<in> set ?rs" "y \<in> set ?rs" "?K x \<le> ?K y" for x y
    proof -
      have "pr_type x = pr_type y" 
        using bspec [OF types that(1)] bspec [OF types that(2)] by (rule trans [OF _ sym])
      then show ?thesis using that(3) by (simp only: lex_snd_le)
    qed
    ultimately have "sorted_wrt (\<lambda>x y. pr_id x \<le> pr_id y) ?rs"
      using sorted_wrt_mono_rel [of ?rs "\<lambda>x y. ?K x \<le> ?K y" "\<lambda>x y. pr_id x \<le> pr_id y"] by blast
    then show ?thesis by (simp add: sorted_wrt_map)
  qed
  ultimately show ?thesis using eq by (simp add: strict_sorted_iff)
qed

lemma memory_ops_sel [simp]:
  "repo_create memory_ops = mem_create" "repo_get memory_ops = mem_get"
  "repo_list memory_ops = mem_list" "repo_query memory_ops = mem_query"
  "repo_replace memory_ops = mem_replace"
  by (simp_all add: memory_ops_def)

interpretation mem: repository memory_ops mem_ok mem_owner
proof (unfold_locales, goal_cases)
  case (1 s t i r) then show ?case using mem_get_key by simp
next
  case (2 s x t i v) then show ?case by (auto simp: mem_ok_def)
next
  case (3 s r c) then show ?case by (simp add: mem_create_def mem_get_def refused_def)
next
  case (4 s r p) then show ?case
    using claim_record_id_taken [OF 4(2,3)] by (auto simp: mem_create_def refused_def)
next
  case (5 s r)
  then obtain s' where "claim_record_id s r = Inr s'" by (auto simp: claim_record_id_Inr)
  with 5 show ?case using mem_ok_write [OF 5(1), of r s'] by (auto simp: mem_create_def mem_get_def)
next
  case (6 s r ev) then show ?case by (simp add: mem_replace_def mem_get_def refused_def)
next
  case (7 s r c ev) then show ?case
    using claim_record_id_taken [of s r] by (auto simp: mem_replace_def mem_get_def refused_def)
next
  case (8 s r c ev)
  then obtain s' where "claim_record_id s r = Inr s'" by (auto simp: claim_record_id_Inr)
  with 8 show ?case using mem_ok_write [OF 8(1), of r s'] by (auto simp: mem_replace_def mem_get_def)
next
  case (9 s t) then show ?case using mem_list_type by simp
qed

subsection \<open>Paging\<close>

text \<open>
  What a caller does with \<open>next_cursor\<close>: ask for a page, then for the page after its
  cursor, until there is none. \<open>None\<close> is running out of fuel.
\<close>

fun read_pages :: "nat \<Rightarrow> (cursor option \<Rightarrow> exn + 'p record_page) \<Rightarrow> cursor option
    \<Rightarrow> (exn + 'p precord list) option" where
  "read_pages 0 ask cur = None"
| "read_pages (Suc fuel) ask cur =
     (case ask cur of
        Inl e \<Rightarrow> Some (Inl e)
      | Inr pg \<Rightarrow>
          (case page_next_cursor pg of
             None \<Rightarrow> Some (Inr (page_records pg))
           | Some c \<Rightarrow> map_option (\<lambda>rest. and_maybe rest (\<lambda>rs. Inr (page_records pg @ rs)))
               (read_pages fuel ask (Some c))))"

lemma set_query_hits:
  "r \<in> set (query_hits m tenant ty site) \<longleftrightarrow>
     r \<in> snd ` set (mem_records m) \<and> pr_tenant_id r = Some tenant
     \<and> (ty = None \<or> ty = Some (pr_type r)) \<and> (site = None \<or> pr_site_id r = site)"
  by (simp only: query_hits_def set_sort_desc set_filter set_map) blast

lemma mem_query_records:
  assumes "mem_query m tenant ty site limit cur = Inr pg"
  shows "set (page_records pg) \<subseteq> set (query_hits m tenant ty site)
    \<and> length (page_records pg) \<le> nat limit"
proof -
  have "\<exists>P. pg = page_of (filter P (query_hits m tenant ty site)) limit"
  proof (cases cur)
    case None
    then have "pg = page_of (filter (\<lambda>_. True) (query_hits m tenant ty site)) limit"
      using assms by (simp add: mem_query_def split: if_splits)
    then show ?thesis by blast
  next
    case (Some c)
    then obtain k where "pg = page_of (filter (\<lambda>r. page_key r < k) (query_hits m tenant ty site)) limit"
      using assms by (auto simp only: mem_query_def and_maybe_Inr option.case sum.inject sum.distinct split: if_splits)
    then show ?thesis by blast
  qed
  then obtain P where pg: "pg = page_of (filter P (query_hits m tenant ty site)) limit" by blast
  have "set (page_records pg) \<subseteq> set (filter P (query_hits m tenant ty site))"
    unfolding pg page_of_def Let_def record_page.select_convs by (rule set_take_subset)
  then show ?thesis unfolding pg by (auto simp: page_of_def Let_def)
qed

lemma query_hits_distinct_keys:
  assumes "mem_ok m"
  shows "distinct (map page_key (query_hits m tenant (Some t) site))"
proof -
  let ?hits = "query_hits m tenant (Some t) site"
  have recs: "distinct (map snd (mem_records m))" and keys: "inj_on (\<lambda>r. pr_key r) (snd ` set (mem_records m))"
  proof -
    have "map (\<lambda>r. pr_key r) (map snd (mem_records m)) = map fst (mem_records m)"
      using assms by (auto simp: mem_ok_def)
    then have "distinct (map (\<lambda>r. pr_key r) (map snd (mem_records m)))"
      using assms by (simp only:) (simp add: mem_ok_def)
    then show "distinct (map snd (mem_records m))" and "inj_on (\<lambda>r. pr_key r) (snd ` set (mem_records m))"
      unfolding distinct_map [of "\<lambda>r. pr_key r"] by simp_all
  qed
  have "distinct ?hits"
    unfolding query_hits_def distinct_sort_desc by (rule distinct_filter [OF recs])
  moreover have "inj_on page_key (set ?hits)"
  proof (rule inj_onI)
    fix x y assume xy: "x \<in> set ?hits" "y \<in> set ?hits" "page_key x = page_key y"
    then have "pr_key x = pr_key y" unfolding set_query_hits by simp
    then show "x = y" using xy(1,2) inj_onD [OF keys] unfolding set_query_hits by blast
  qed
  ultimately show ?thesis unfolding distinct_map by simp
qed

lemma query_hits_decreasing:
  assumes "distinct (map page_key (query_hits m tenant ty site))"
  shows "sorted_wrt (\<lambda>x y. page_key y < page_key x) (query_hits m tenant ty site)"
proof -
  let ?hits = "query_hits m tenant ty site"
  have "sorted_wrt (\<lambda>x y. page_key y \<le> page_key x) ?hits"
    unfolding query_hits_def by (rule sort_desc_sorted)
  then have le: "sorted_wrt (\<lambda>a b. b \<le> a) (map page_key ?hits)"
    unfolding sorted_wrt_map .
  have strict: "sorted_wrt (\<lambda>a b. b \<le> a) ks \<Longrightarrow> distinct ks \<Longrightarrow> sorted_wrt (\<lambda>a b. b < a) ks"
    for ks :: "(instant \<times> string) list"
    by (induction ks) (force simp: order_le_less)+
  show ?thesis using strict [OF le assms] unfolding sorted_wrt_map .
qed

text \<open>After a full page, what its cursor admits is exactly what was not on it.\<close>

lemma filter_after_page:
  assumes "sorted_wrt (\<lambda>x y. k y < k x) xs" and "0 < n" and "n \<le> length xs"
  shows "filter (\<lambda>r. (k r :: 'k::linorder) < k (last (take n xs))) xs = drop n xs"
proof -
  let ?l = "last (take n xs)"
  have parts: "xs = take n xs @ drop n xs" by simp
  have "filter (\<lambda>r. k r < k ?l) (drop n xs) = drop n xs"
  proof (rule filter_True, rule ballI)
    fix y assume "y \<in> set (drop n xs)"
    moreover have "?l \<in> set (take n xs)" using assms(2,3) by (intro last_in_set) auto
    moreover have "sorted_wrt (\<lambda>x y. k y < k x) (take n xs @ drop n xs)" using assms(1) by simp
    ultimately show "k y < k ?l" unfolding sorted_wrt_append by blast
  qed
  moreover have "filter (\<lambda>r. k r < k ?l) (take n xs) = []"
  proof -
    have "take n xs = butlast (take n xs) @ [?l]" using assms(2,3) by (intro append_butlast_last_id [symmetric]) auto
    then have "sorted_wrt (\<lambda>x y. k y < k x) (butlast (take n xs) @ [?l])"
      using assms(1) by (metis sorted_wrt_take)
    then have "\<forall>x \<in> set (butlast (take n xs) @ [?l]). \<not> k x < k ?l"
      unfolding sorted_wrt_append by auto
    then have "\<forall>x \<in> set (take n xs). \<not> k x < k ?l"
      using \<open>take n xs = butlast (take n xs) @ [?l]\<close> by metis
    then show ?thesis by (simp add: filter_empty_conv)
  qed
  ultimately show ?thesis by (metis append.left_neutral filter_append parts)
qed

text \<open>Reading on from any place of a strictly decreasing list of hits gives the rest of it.\<close>

lemma read_pages_rest:
  assumes dec: "sorted_wrt (\<lambda>x y. page_key y < page_key x) (query_hits m tenant ty site)"
    and ids: "\<forall>r \<in> set (query_hits m tenant ty site). pr_id r \<noteq> []"
    and args: "py_strip tenant \<noteq> []" "1 \<le> limit" "limit \<le> 500"
  shows "mem_query m tenant ty site limit cur = Inr (page_of (drop k (query_hits m tenant ty site)) limit)
    \<Longrightarrow> length (query_hits m tenant ty site) - k < fuel
    \<Longrightarrow> read_pages fuel (mem_query m tenant ty site limit) cur
        = Some (Inr (drop k (query_hits m tenant ty site)))"
proof (induction fuel arbitrary: cur k)
  case 0
  then show ?case by simp
next
  case (Suc fuel)
  let ?hits = "query_hits m tenant ty site"
  let ?n = "nat limit"
  let ?l = "last (take ?n (drop k ?hits))"
  show ?case
  proof (cases "limit < int (length (drop k ?hits))")
    case False
    then have "page_of (drop k ?hits) limit = \<lparr>page_records = drop k ?hits, page_next_cursor = None\<rparr>"
      by (auto simp: page_of_def Let_def)
    then show ?thesis using Suc.prems(1) by simp
  next
    case True
    have len: "k + ?n < length ?hits" and n: "0 < ?n" using True args by auto
    have take_eq: "take (k + ?n) ?hits = take k ?hits @ take ?n (drop k ?hits)" by (rule take_add)
    have ne: "take ?n (drop k ?hits) \<noteq> []" using len n by auto
    have last_eq: "last (take (k + ?n) ?hits) = ?l" using ne take_eq by simp
    have page: "page_of (drop k ?hits) limit
        = \<lparr>page_records = take ?n (drop k ?hits), page_next_cursor = Some (CursorToken (pr_created_at ?l) (pr_id ?l))\<rparr>"
      using True ne by (simp add: page_of_def Let_def encode_cursor_def)
    have "?l \<in> set ?hits" using last_in_set [OF ne] by (meson in_set_dropD in_set_takeD)
    then have decoded: "decode_cursor (CursorToken (pr_created_at ?l) (pr_id ?l)) = Inr (page_key ?l)"
      using ids by simp
    have rest: "filter (\<lambda>r. page_key r < page_key ?l) ?hits = drop (k + ?n) ?hits"
      using filter_after_page [OF dec, of "k + ?n"] len n last_eq by simp
    have next_page: "mem_query m tenant ty site limit (Some (CursorToken (pr_created_at ?l) (pr_id ?l)))
        = Inr (page_of (drop (k + ?n) ?hits) limit)"
      using args decoded rest by (simp add: mem_query_def)
    have "length ?hits - (k + ?n) < fuel" using Suc.prems(2) len n by linarith
    from Suc.IH [OF next_page this] page Suc.prems(1)
    have "read_pages (Suc fuel) (mem_query m tenant ty site limit) cur
        = Some (Inr (take ?n (drop k ?hits) @ drop (k + ?n) ?hits))"
      by simp
    also have "take ?n (drop k ?hits) @ drop (k + ?n) ?hits = drop k ?hits"
      by (metis append_take_drop_id drop_drop add.commute)
    finally show ?thesis .
  qed
qed

section \<open>Properties\<close>

text \<open>
  Tenant isolation of the scoped listing: whatever page of \<open>query\<close> a caller asks for,
  with whatever cursor, every record on it was written for the tenant asked for, has the
  aggregate type and site asked for, and the page is no longer than the limit.
\<close>

theorem query_tenant_isolated:
  assumes "mem_query m tenant ty site limit cur = Inr pg" and "r \<in> set (page_records pg)"
  shows "pr_tenant_id r = Some tenant \<and> (ty = None \<or> ty = Some (pr_type r))
    \<and> (site = None \<or> pr_site_id r = site) \<and> length (page_records pg) \<le> nat limit"
proof -
  note page = mem_query_records [OF assms(1)]
  then have "r \<in> set (query_hits m tenant ty site)" using assms(2) by blast
  then show ?thesis using page unfolding set_query_hits by simp
qed

definition demo_record :: "string \<Rightarrow> string \<Rightarrow> string \<Rightarrow> instant \<Rightarrow> nat precord" where
  "demo_record ty i tenant now = \<lparr>pr_record_id = rid ty i 1, pr_type = ty, pr_id = i,
     pr_schema_version = 1, pr_version = 1, pr_payload = 0, pr_created_at = now,
     pr_snapshot_id = None, pr_data_snapshot_id = None, pr_rule_version = None,
     pr_config_version = None, pr_tenant_id = Some tenant, pr_site_id = None\<rparr>"

definition demo_memory :: "nat precord list \<Rightarrow> nat memory" where
  "demo_memory rs = \<lparr>mem_records = map (\<lambda>r. (pr_key r, r)) rs,
     mem_record_ids = map (\<lambda>r. (pr_record_id r, pr_identity r)) rs\<rparr>"

lemma demo_memory_ok:
  assumes "distinct (map (\<lambda>r. pr_key r) rs)"
  shows "mem_ok (demo_memory rs)"
proof -
  have get: "mem_get (demo_memory rs) (pr_type r) (pr_id r) = Some r" if "r \<in> set rs" for r
    unfolding mem_get_def demo_memory_def memory.select_convs
    by (rule map_of_is_SomeI) (use assms that in \<open>simp_all add: comp_def\<close>)
  have "\<exists>c. mem_get (demo_memory rs) t i = Some c \<and> v \<le> pr_version c"
    if "mem_owner (demo_memory rs) x = Some (t, i, v)" for x t i v
  proof -
    have "(x, t, i, v) \<in> (\<lambda>r. (pr_record_id r, pr_identity r)) ` set rs"
      using map_of_SomeD [OF that [unfolded mem_owner_def demo_memory_def memory.select_convs]]
      by (simp only: set_map)
    then obtain r where "r \<in> set rs" "(x, t, i, v) = (pr_record_id r, pr_identity r)" by (rule imageE)
    then show ?thesis using get [of r] by simp
  qed
  then show ?thesis using assms by (auto simp: mem_ok_def demo_memory_def comp_def)
qed

lemmas demo_memory_simps = demo_record_def demo_memory_def mem_query_def query_hits_def sort_desc_def
  page_of_def py_strip_def is_space_def encode_cursor_def

lemma query_tenant_isolated_witness:
  "pr_tenant_id (demo_record ''job'' ''a'' ''t1'' 5) = Some ''t1''"
proof -
  let ?m = "demo_memory [demo_record ''job'' ''a'' ''t1'' 5, demo_record ''job'' ''b'' ''t2'' 6]"
  have "mem_query ?m ''t1'' None None 10 None
      = Inr \<lparr>page_records = [demo_record ''job'' ''a'' ''t1'' 5], page_next_cursor = None\<rparr>"
    by (simp add: demo_memory_simps)
  from query_tenant_isolated [OF this, of "demo_record ''job'' ''a'' ''t1'' 5"]
  show ?thesis by simp
qed

text \<open>
  C39. Following the cursors of a listing of one aggregate type returns every record that
  matches, once, newest first, whatever the page size: no page is skipped and none is read
  twice. The loop ends after at most one round more than there are records.
\<close>

theorem paging_complete:
  assumes "mem_ok m" and "\<forall>r \<in> set (query_hits m tenant (Some ty) site). pr_valid r"
    and "py_strip tenant \<noteq> []" and "1 \<le> limit" and "limit \<le> 500"
    and "length (query_hits m tenant (Some ty) site) < fuel"
  shows "read_pages fuel (mem_query m tenant (Some ty) site limit) None
    = Some (Inr (query_hits m tenant (Some ty) site))"
proof -
  have "mem_query m tenant (Some ty) site limit None
      = Inr (page_of (drop 0 (query_hits m tenant (Some ty) site)) limit)"
    using assms(3-5) by (simp add: mem_query_def)
  then show ?thesis
    using read_pages_rest [OF query_hits_decreasing [OF query_hits_distinct_keys [OF assms(1)]],
        of tenant ty site limit None 0 fuel] assms(2-6)
    by (simp add: pr_valid_def)
qed

lemma paging_complete_witness:
  "read_pages 4 (mem_query (demo_memory [demo_record ''job'' ''a'' ''t'' 5, demo_record ''job'' ''b'' ''t'' 5,
      demo_record ''job'' ''c'' ''t'' 4]) ''t'' (Some ''job'') None 1) None
   = Some (Inr [demo_record ''job'' ''b'' ''t'' 5, demo_record ''job'' ''a'' ''t'' 5, demo_record ''job'' ''c'' ''t'' 4])"
proof -
  let ?m = "demo_memory [demo_record ''job'' ''a'' ''t'' 5, demo_record ''job'' ''b'' ''t'' 5,
      demo_record ''job'' ''c'' ''t'' 4]"
  have hits: "query_hits ?m ''t'' (Some ''job'') None
      = [demo_record ''job'' ''b'' ''t'' 5, demo_record ''job'' ''a'' ''t'' 5, demo_record ''job'' ''c'' ''t'' 4]"
    by (simp add: demo_memory_simps)
  have "mem_ok ?m"
    by (rule demo_memory_ok) (simp add: demo_record_def)
  moreover have "\<forall>r \<in> set (query_hits ?m ''t'' (Some ''job'') None). pr_valid r"
    unfolding hits by (simp add: pr_valid_def demo_record_def rid_def)
  ultimately show ?thesis
    using paging_complete [of ?m "''t''" "''job''" None 1 4] unfolding hits
    by (simp add: py_strip_def is_space_def)
qed

text \<open>
  A listing over all aggregate types can skip a record: the cursor names a creation
  time and an id but no type, so a record of another type with the same id, written at the
  same instant, is passed over when the page ends between the two.
\<close>

theorem paging_mixed_types_skips:
  "\<exists>m. mem_ok m \<and> length (query_hits m ''t'' None None) = 2
     \<and> read_pages 5 (mem_query m ''t'' None None 1) None = Some (Inr [demo_record ''account_email'' ''a'' ''t'' 5])
     \<and> demo_record ''account'' ''a'' ''t'' 5 \<in> set (query_hits m ''t'' None None)"
proof -
  let ?m = "demo_memory [demo_record ''account_email'' ''a'' ''t'' 5, demo_record ''account'' ''a'' ''t'' 5]"
  have "mem_ok ?m"
    by (rule demo_memory_ok) (simp add: demo_record_def)
  moreover have "read_pages 5 (mem_query ?m ''t'' None None 1) None
      = Some (Inr [demo_record ''account_email'' ''a'' ''t'' 5])"
    by (simp add: demo_memory_simps numeral_eq_Suc)
  ultimately show ?thesis by (intro exI [of _ ?m]) (simp add: demo_memory_simps)
qed

end
