(* ===== verification/Jobs.thy ===== *)
theory Jobs
  imports Persistence
begin

text \<open>
  Background jobs: \<open>app/models/jobs.py\<close> (the \<open>Job\<close> model and its transitions),
  \<open>app/jobs/store.py\<close> (\<open>JobStore\<close>, over any repository) and \<open>app/jobs/scheduler.py\<close>
  (\<open>JobHandlerRegistry\<close>, \<open>JobScheduler\<close>). A handler is any program on the state the
  repository lives in; the observability spans around it are not modelled, they neither
  change a result nor hide an exception. The clock is read once per call.
\<close>

section \<open>The job model\<close>

datatype job_status = QUEUED | RUNNING | COMPLETED | FAILED | CANCELLED

record job =
  job_id :: string
  job_type :: string
  principal_id :: string
  job_payload :: dict
  job_status :: job_status
  job_result :: "dict option"
  job_error :: "string option"
  attempt_count :: int
  max_attempts :: int
  job_created_at :: instant
  job_started_at :: "instant option"
  job_completed_at :: "instant option"

text \<open>The constraints of the pydantic fields.\<close>

definition job_valid :: "job \<Rightarrow> bool" where
  "job_valid j \<longleftrightarrow> job_id j \<noteq> [] \<and> job_type j \<noteq> [] \<and> principal_id j \<noteq> []
     \<and> 0 \<le> attempt_count j \<and> 1 \<le> max_attempts j \<and> max_attempts j \<le> 10"

definition transition_running :: "instant \<Rightarrow> job \<Rightarrow> exn + job" where
  "transition_running now j =
     (if job_status j \<noteq> QUEUED then Inl (Exn ValueError ''Only queued jobs can start running.'')
      else if max_attempts j \<le> attempt_count j
      then Inl (Exn ValueError ''Job has exhausted its maximum attempts.'')
      else Inr (j\<lparr>job_status := RUNNING, attempt_count := attempt_count j + 1,
                  job_started_at := Some now, job_error := None\<rparr>))"

definition complete :: "instant \<Rightarrow> dict \<Rightarrow> job \<Rightarrow> exn + job" where
  "complete now result j =
     (if job_status j \<noteq> RUNNING then Inl (Exn ValueError ''Only running jobs can complete.'')
      else Inr (j\<lparr>job_status := COMPLETED, job_result := Some result,
                  job_error := None, job_completed_at := Some now\<rparr>))"

definition normalized_error :: "string \<Rightarrow> string" where
  "normalized_error e = (if py_strip e = [] then ''Job failed.'' else py_strip e)"

definition fail :: "instant \<Rightarrow> string \<Rightarrow> job \<Rightarrow> exn + job" where
  "fail now e j =
     (if job_status j \<noteq> RUNNING then Inl (Exn ValueError ''Only running jobs can fail.'')
      else Inr (j\<lparr>job_status := FAILED, job_result := None,
                  job_error := Some (take 2000 (normalized_error e)),
                  job_completed_at := Some now\<rparr>))"

definition retry_or_fail :: "instant \<Rightarrow> string \<Rightarrow> job \<Rightarrow> exn + job" where
  "retry_or_fail now e j =
     (if job_status j \<noteq> RUNNING
      then Inl (Exn ValueError ''Only running jobs can be retried or failed.'')
      else if attempt_count j < max_attempts j
      then Inr (j\<lparr>job_status := QUEUED, job_result := None,
                  job_error := Some (take 2000 (normalized_error e)),
                  job_started_at := None, job_completed_at := None\<rparr>)
      else fail now (normalized_error e) j)"

definition cancel :: "instant \<Rightarrow> job \<Rightarrow> exn + job" where
  "cancel now j =
     (if job_status j \<noteq> QUEUED then Inl (Exn ValueError ''Only queued jobs can be cancelled.'')
      else Inr (j\<lparr>job_status := CANCELLED, job_completed_at := Some now\<rparr>))"

section \<open>The job store\<close>

abbreviation job_kind :: string where "job_kind \<equiv> ''job''"

text \<open>\<open>job.payload.get("site_id")\<close>, which the record accepts only as a string or nothing.\<close>

definition payload_site :: "dict \<Rightarrow> exn + string option" where
  "payload_site d = (case map_of d ''site_id'' of
     None \<Rightarrow> Inr None
   | Some PNone \<Rightarrow> Inr None
   | Some (PStr s) \<Rightarrow> Inr (Some s)
   | Some _ \<Rightarrow> Inl (Exn ValidationError ''site_id''))"

definition job_to_record :: "(job, 'p) codec \<Rightarrow> instant \<Rightarrow> job \<Rightarrow> int \<Rightarrow> exn + 'p precord" where
  "job_to_record c now j v =
     and_maybe (payload_site (job_payload j)) (\<lambda>site.
       new_precord (rid ''job'' (job_id j) v) job_kind (job_id j) 1 v (model_dump c j) now
         (Some (principal_id j)) site)"

definition job_from_record :: "(job, 'p) codec \<Rightarrow> 'p precord \<Rightarrow> exn + job" where
  "job_from_record c r = restore c (pr_payload r)"

definition job_create ::
  "('s, 'p) repository_ops \<Rightarrow> (job, 'p) codec \<Rightarrow> instant \<Rightarrow> job \<Rightarrow> ('s, job) prog" where
  "job_create R c now j =
     andthen (of_result (job_to_record c now j 1)) (\<lambda>r.
     andthen (updates (\<lambda>s. repo_create R s r)) (\<lambda>_. ret j))"

definition job_get :: "('s, 'p) repository_ops \<Rightarrow> (job, 'p) codec \<Rightarrow> string \<Rightarrow> ('s, job) prog" where
  "job_get R c i =
     andthen (reads (\<lambda>s. repo_get R s job_kind i)) (\<lambda>found.
     case found of
       None \<Rightarrow> raise_exn (Exn PersistenceNotFoundError (''job not found: '' @ i))
     | Some r \<Rightarrow> of_result (job_from_record c r))"

definition job_update ::
  "('s, 'p) repository_ops \<Rightarrow> (job, 'p) codec \<Rightarrow> instant \<Rightarrow> job \<Rightarrow> ('s, job) prog" where
  "job_update R c now j =
     andthen (reads (\<lambda>s. repo_get R s job_kind (job_id j))) (\<lambda>found.
     case found of
       None \<Rightarrow> raise_exn (Exn PersistenceNotFoundError (''job not found: '' @ job_id j))
     | Some current \<Rightarrow>
         andthen (of_result (job_to_record c now j (pr_version current + 1))) (\<lambda>r.
         andthen (updates (\<lambda>s. repo_replace R s r (pr_version current))) (\<lambda>_. ret j)))"

definition all_jobs :: "('s, 'p) repository_ops \<Rightarrow> (job, 'p) codec \<Rightarrow> 's \<Rightarrow> exn + job list" where
  "all_jobs R c s = and_maybe (repo_list R s (Some job_kind) None) (collect (job_from_record c))"

definition list_queued ::
  "('s, 'p) repository_ops \<Rightarrow> (job, 'p) codec \<Rightarrow> int \<Rightarrow> ('s, job list) prog" where
  "list_queued R c limit =
     (if limit < 1 then raise_exn (Exn ValueError ''limit must be at least 1'')
      else (\<lambda>s. (and_maybe (all_jobs R c s) (\<lambda>js.
             Inr (take (nat limit) (sort_key job_created_at (filter (\<lambda>j. job_status j = QUEUED) js)))), s)))"

definition recovered :: "instant \<Rightarrow> job \<Rightarrow> exn + job" where
  "recovered now j = retry_or_fail now
     (if attempt_count j < max_attempts j then ''Recovered after worker restart.''
      else ''Worker restarted after maximum attempts were exhausted.'') j"

fun recover_each ::
  "('s, 'p) repository_ops \<Rightarrow> (job, 'p) codec \<Rightarrow> instant \<Rightarrow> 'p precord list \<Rightarrow> ('s, job list) prog" where
  "recover_each R c now [] = ret []"
| "recover_each R c now (r # rs) =
     andthen (of_result (job_from_record c r)) (\<lambda>j.
       if job_status j \<noteq> RUNNING then recover_each R c now rs
       else
         andthen (of_result (recovered now j)) (\<lambda>j'.
         andthen (job_update R c now j') (\<lambda>_.
         andthen (recover_each R c now rs) (\<lambda>js. ret (j' # js)))))"

definition recover_running_jobs ::
  "('s, 'p) repository_ops \<Rightarrow> (job, 'p) codec \<Rightarrow> instant \<Rightarrow> ('s, job list) prog" where
  "recover_running_jobs R c now =
     (\<lambda>s. andthen (of_result (repo_list R s (Some job_kind) None)) (recover_each R c now) s)"

section \<open>Handlers and the scheduler\<close>

type_synonym 's handler = "dict \<Rightarrow> ('s, dict) prog"
type_synonym 's registry = "(string \<times> 's handler) list"

definition register :: "string \<Rightarrow> 's handler \<Rightarrow> bool \<Rightarrow> 's registry \<Rightarrow> exn + 's registry" where
  "register ty handler replace reg =
     (let t = py_strip ty in
      if t = [] then Inl (Exn ValueError ''job_type cannot be empty'')
      else if \<not> replace \<and> map_of reg t \<noteq> None
      then Inl (Exn ValueError (''Handler already registered for job type: '' @ t))
      else Inr (AList.update t handler reg))"

definition contains :: "'s registry \<Rightarrow> string \<Rightarrow> bool" where
  "contains reg t \<longleftrightarrow> map_of reg t \<noteq> None"

definition resolve :: "'s registry \<Rightarrow> string \<Rightarrow> exn + 's handler" where
  "resolve reg t = (case map_of reg t of
     Some h \<Rightarrow> Inr h
   | None \<Rightarrow> Inl (Exn KeyError (''No handler registered for job type: '' @ t)))"

definition run_once ::
  "('s, 'p) repository_ops \<Rightarrow> (job, 'p) codec \<Rightarrow> 's registry \<Rightarrow> instant \<Rightarrow> ('s, job option) prog" where
  "run_once R c reg now =
     andthen (list_queued R c 1) (\<lambda>queued.
     case queued of
       [] \<Rightarrow> ret None
     | j # _ \<Rightarrow>
         andthen (of_result (transition_running now j)) (\<lambda>running.
         andthen (job_update R c now running) (\<lambda>_.
         andthen
           (attempt
             (andthen (of_result (resolve reg (job_type running))) (\<lambda>handler.
              andthen (handler (job_payload running)) (\<lambda>result.
              of_result (complete now result running))))
             (\<lambda>e. of_result (retry_or_fail now (exn_text e) running)))
           (\<lambda>completed.
         andthen (job_update R c now completed) (\<lambda>_. ret (Some completed))))))"

text \<open>
  \<open>run_forever\<close> until its stop event is set: one round per reading of the clock; a round
  that finds nothing only sleeps.
\<close>

fun rounds ::
  "('s, 'p) repository_ops \<Rightarrow> (job, 'p) codec \<Rightarrow> 's registry \<Rightarrow> instant list \<Rightarrow> ('s, unit) prog" where
  "rounds R c reg [] = ret ()"
| "rounds R c reg (now # later) = andthen (run_once R c reg now) (\<lambda>_. rounds R c reg later)"

definition run_forever ::
  "('s, 'p) repository_ops \<Rightarrow> (job, 'p) codec \<Rightarrow> 's registry \<Rightarrow> instant \<Rightarrow> int \<Rightarrow> instant list
   \<Rightarrow> ('s, unit) prog" where
  "run_forever R c reg now poll later =
     (if poll < 0 then raise_exn (Exn ValueError ''poll_interval_seconds cannot be negative'')
      else andthen (recover_running_jobs R c now) (\<lambda>_. rounds R c reg later))"

section \<open>The store as a map of jobs\<close>

definition jobs_of :: "('s, 'p) repository_ops \<Rightarrow> (job, 'p) codec \<Rightarrow> 's \<Rightarrow> string \<Rightarrow> job option" where
  "jobs_of R c s i = (case repo_get R s job_kind i of
     None \<Rightarrow> None | Some r \<Rightarrow> model_validate c (pr_payload r))"

text \<open>What every stored job satisfies: in particular a queued job has an attempt left.\<close>

definition job_wf :: "job \<Rightarrow> bool" where
  "job_wf j \<longleftrightarrow> job_valid j \<and> attempt_count j \<le> max_attempts j
     \<and> (job_status j = QUEUED \<longrightarrow> attempt_count j < max_attempts j)
     \<and> (case payload_site (job_payload j) of Inl _ \<Rightarrow> False | Inr _ \<Rightarrow> True)"

definition jobs_ok ::
  "('s, 'p) repository_ops \<Rightarrow> ('s \<Rightarrow> bool) \<Rightarrow> ('s \<Rightarrow> string \<Rightarrow> (string \<times> string \<times> int) option)
   \<Rightarrow> (job, 'p) codec \<Rightarrow> 's \<Rightarrow> bool" where
  "jobs_ok R ok owner c s \<longleftrightarrow> ok s \<and> keeps_kind ''job'' job_kind (owner s)
     \<and> (\<forall>i r. repo_get R s job_kind i = Some r \<longrightarrow> 1 \<le> pr_version r
          \<and> (\<exists>j. model_validate c (pr_payload r) = Some j \<and> job_wf j \<and> job_id j = i
                \<and> pr_tenant_id r = Some (principal_id j)))"

lemma job_wf_valid [simp]: "job_wf j \<Longrightarrow> job_valid j"
  by (simp add: job_wf_def)

lemma job_to_record_wf:
  assumes "job_wf j" and "1 \<le> v"
  obtains r where "job_to_record c now j v = Inr r" and "pr_record_id r = rid ''job'' (job_id j) v"
    and "pr_type r = job_kind" and "pr_id r = job_id j" and "pr_version r = v"
    and "pr_payload r = model_dump c j" and "pr_tenant_id r = Some (principal_id j)"
proof -
  obtain site where site: "payload_site (job_payload j) = Inr site"
    using assms(1) by (cases "payload_site (job_payload j)") (simp_all add: job_wf_def)
  have "job_id j \<noteq> []" using assms(1) by (simp add: job_wf_def job_valid_def)
  then have "job_to_record c now j v = Inr \<lparr>pr_record_id = rid ''job'' (job_id j) v, pr_type = job_kind,
      pr_id = job_id j, pr_schema_version = 1, pr_version = v, pr_payload = model_dump c j,
      pr_created_at = now, pr_snapshot_id = None, pr_data_snapshot_id = None, pr_rule_version = None,
      pr_config_version = None, pr_tenant_id = Some (principal_id j), pr_site_id = site\<rparr>"
    using site assms(2)
    by (simp add: job_to_record_def new_precord_def pr_valid_def Let_def rid_nonempty)
  then show thesis by (rule that) simp_all
qed

text \<open>
  Handlers that leave the queue's bookkeeping alone: they may do anything else, and add
  jobs, but a job that is running keeps its record (\<open>handlers_safe\<close>); a quiet handler
  does not touch any job (\<open>handlers_quiet\<close>).
\<close>

definition handlers_safe ::
  "('s, 'p) repository_ops \<Rightarrow> ('s \<Rightarrow> bool) \<Rightarrow> ('s \<Rightarrow> string \<Rightarrow> (string \<times> string \<times> int) option)
   \<Rightarrow> (job, 'p) codec \<Rightarrow> 's registry \<Rightarrow> bool" where
  "handlers_safe R ok owner c reg \<longleftrightarrow> (\<forall>h \<in> snd ` set reg. \<forall>d s. jobs_ok R ok owner c s \<longrightarrow>
     jobs_ok R ok owner c (snd (h d s))
     \<and> (\<forall>i j. jobs_of R c s i = Some j \<longrightarrow> job_status j = RUNNING \<longrightarrow>
          jobs_of R c (snd (h d s)) i = Some j))"

definition handlers_quiet ::
  "('s, 'p) repository_ops \<Rightarrow> ('s \<Rightarrow> bool) \<Rightarrow> ('s \<Rightarrow> string \<Rightarrow> (string \<times> string \<times> int) option)
   \<Rightarrow> (job, 'p) codec \<Rightarrow> 's registry \<Rightarrow> bool" where
  "handlers_quiet R ok owner c reg \<longleftrightarrow> (\<forall>h \<in> snd ` set reg. \<forall>d s. jobs_ok R ok owner c s \<longrightarrow>
     jobs_ok R ok owner c (snd (h d s)) \<and> jobs_of R c (snd (h d s)) = jobs_of R c s)"

text \<open>The job \<open>run_once\<close> takes: queued, and none that is queued was created earlier.\<close>

definition next_job :: "(string \<Rightarrow> job option) \<Rightarrow> job \<Rightarrow> bool" where
  "next_job J j \<longleftrightarrow> J (job_id j) = Some j \<and> job_status j = QUEUED
     \<and> (\<forall>k \<in> ran J. job_status k = QUEUED \<longrightarrow> job_created_at j \<le> job_created_at k)"

definition started :: "instant \<Rightarrow> job \<Rightarrow> job" where
  "started now j = j\<lparr>job_status := RUNNING, attempt_count := attempt_count j + 1,
     job_started_at := Some now, job_error := None\<rparr>"

text \<open>What becomes of a running job when its handler has returned or raised.\<close>

definition outcome_of :: "instant \<Rightarrow> job \<Rightarrow> exn + dict \<Rightarrow> exn + job" where
  "outcome_of now j r = (case r of
     Inr d \<Rightarrow> complete now d j | Inl e \<Rightarrow> retry_or_fail now (exn_text e) j)"

definition call_handler :: "'s registry \<Rightarrow> string \<Rightarrow> dict \<Rightarrow> ('s, dict) prog" where
  "call_handler reg t d = andthen (of_result (resolve reg t)) (\<lambda>h. h d)"

text \<open>What a restart makes of a job.\<close>

definition after_restart :: "instant \<Rightarrow> job \<Rightarrow> job" where
  "after_restart now j = (if job_status j \<noteq> RUNNING then j
     else case recovered now j of Inr k \<Rightarrow> k | Inl _ \<Rightarrow> j)"

text \<open>How many attempts the jobs that are not finished have left.\<close>

definition attempts_left :: "job \<Rightarrow> nat" where
  "attempts_left j = (if job_status j = QUEUED \<or> job_status j = RUNNING
     then nat (max_attempts j - attempt_count j) else 0)"

definition queued_left :: "job \<Rightarrow> nat" where
  "queued_left j = (if job_status j = QUEUED then nat (max_attempts j - attempt_count j) else 0)"

definition total :: "(job \<Rightarrow> nat) \<Rightarrow> (string \<Rightarrow> job option) \<Rightarrow> nat" where
  "total f J = (\<Sum>i \<in> dom J. f (the (J i)))"

definition finished :: "job \<Rightarrow> bool" where
  "finished j \<longleftrightarrow> job_status j \<noteq> QUEUED \<and> job_status j \<noteq> RUNNING"

text \<open>What the scheduler may have made of a job it found: \<open>served j k\<close>.\<close>

definition served :: "job \<Rightarrow> job \<Rightarrow> bool" where
  "served j k \<longleftrightarrow> job_id k = job_id j \<and> max_attempts k = max_attempts j
     \<and> attempt_count j \<le> attempt_count k \<and> attempt_count k \<le> max_attempts k
     \<and> (job_status j \<noteq> QUEUED \<longrightarrow> k = j) \<and> (job_status k = RUNNING \<longrightarrow> k = j)"

subsection \<open>One transition of a job\<close>

lemma transition_running_wf:
  "job_wf j \<Longrightarrow> job_status j = QUEUED \<Longrightarrow>
    transition_running now j = Inr (started now j)"
  by (simp add: transition_running_def job_wf_def started_def)

lemma started_wf [simp]: "job_wf j \<Longrightarrow> job_status j = QUEUED \<Longrightarrow> job_wf (started now j)"
  by (simp add: started_def job_wf_def job_valid_def)

lemma started_simps [simp]:
  "job_id (started now j) = job_id j" "principal_id (started now j) = principal_id j"
  "job_status (started now j) = RUNNING" "attempt_count (started now j) = attempt_count j + 1"
  "max_attempts (started now j) = max_attempts j" "job_type (started now j) = job_type j"
  "job_payload (started now j) = job_payload j" "job_created_at (started now j) = job_created_at j"
  by (simp_all add: started_def)

lemma retry_or_fail_running:
  assumes "job_wf j" and "job_status j = RUNNING"
  obtains k where "retry_or_fail now e j = Inr k" and "job_wf k" and "job_id k = job_id j"
    and "principal_id k = principal_id j" and "attempt_count k = attempt_count j"
    and "max_attempts k = max_attempts j" and "job_created_at k = job_created_at j"
    and "job_status k = (if attempt_count j < max_attempts j then QUEUED else FAILED)"
    and "job_type k = job_type j" and "job_payload k = job_payload j"
proof (cases "attempt_count j < max_attempts j")
  case True
  show thesis
    by (rule that [of "j\<lparr>job_status := QUEUED, job_result := None,
          job_error := Some (take 2000 (normalized_error e)), job_started_at := None,
          job_completed_at := None\<rparr>"])
      (use assms True in \<open>simp_all add: retry_or_fail_def job_wf_def job_valid_def\<close>)
next
  case False
  show thesis
    by (rule that [of "j\<lparr>job_status := FAILED, job_result := None,
          job_error := Some (take 2000 (normalized_error (normalized_error e))),
          job_completed_at := Some now\<rparr>"])
      (use assms False in \<open>simp_all add: retry_or_fail_def fail_def job_wf_def job_valid_def\<close>)
qed

lemma complete_running:
  "job_status j = RUNNING \<Longrightarrow> complete now d j = Inr (j\<lparr>job_status := COMPLETED,
     job_result := Some d, job_error := None, job_completed_at := Some now\<rparr>)"
  by (simp add: complete_def)

lemma outcome_of_running:
  assumes "job_wf j" and "job_status j = RUNNING"
  shows "\<exists>k. outcome_of now j r = Inr k \<and> job_wf k \<and> job_id k = job_id j
    \<and> principal_id k = principal_id j \<and> attempt_count k = attempt_count j
    \<and> max_attempts k = max_attempts j \<and> job_created_at k = job_created_at j
    \<and> (job_status k = COMPLETED \<or> (\<exists>e. r = Inl e) \<and>
       job_status k = (if attempt_count j < max_attempts j then QUEUED else FAILED))"
proof (cases r)
  case (Inl e)
  show ?thesis
  proof (rule retry_or_fail_running [OF assms, of now "exn_text e"])
    fix k assume "retry_or_fail now (exn_text e) j = Inr k" "job_wf k" "job_id k = job_id j"
      "principal_id k = principal_id j" "attempt_count k = attempt_count j"
      "max_attempts k = max_attempts j" "job_created_at k = job_created_at j"
      "job_status k = (if attempt_count j < max_attempts j then QUEUED else FAILED)"
    then show ?thesis using Inl by (intro exI [of _ k]) (simp add: outcome_of_def)
  qed
next
  case (Inr d)
  show ?thesis
    by (rule exI [of _ "j\<lparr>job_status := COMPLETED, job_result := Some d, job_error := None,
          job_completed_at := Some now\<rparr>"])
      (use assms Inr in \<open>simp add: outcome_of_def complete_running job_wf_def job_valid_def\<close>)
qed

lemma after_restart_running:
  assumes "job_wf j" and "job_status j = RUNNING"
  shows "recovered now j = Inr (after_restart now j) \<and> job_wf (after_restart now j)
    \<and> job_id (after_restart now j) = job_id j \<and> principal_id (after_restart now j) = principal_id j
    \<and> attempt_count (after_restart now j) = attempt_count j
    \<and> max_attempts (after_restart now j) = max_attempts j
    \<and> job_status (after_restart now j) = (if attempt_count j < max_attempts j then QUEUED else FAILED)"
proof (rule retry_or_fail_running [OF assms, of now
      "if attempt_count j < max_attempts j then ''Recovered after worker restart.''
       else ''Worker restarted after maximum attempts were exhausted.''"])
  fix k assume "retry_or_fail now (if attempt_count j < max_attempts j then ''Recovered after worker restart.''
       else ''Worker restarted after maximum attempts were exhausted.'') j = Inr k"
    "job_wf k" "job_id k = job_id j"
    "principal_id k = principal_id j" "attempt_count k = attempt_count j"
    "max_attempts k = max_attempts j"
    "job_status k = (if attempt_count j < max_attempts j then QUEUED else FAILED)"
  moreover from this(1) have "recovered now j = Inr k" unfolding recovered_def .
  ultimately show ?thesis using assms(2) by (simp add: after_restart_def)
qed

lemma total_update:
  assumes "finite (dom J)" and "J i = Some j"
  shows "total f (J(i \<mapsto> k)) + f j = total f J + f k"
proof -
  have i: "i \<in> dom J" using assms(2) by blast
  have "total f (J(i \<mapsto> k)) = f k + (\<Sum>x \<in> dom J - {i}. f (the ((J(i \<mapsto> k)) x)))"
    using assms i by (simp add: total_def sum.remove [where x = i] insert_absorb)
  also have "(\<Sum>x \<in> dom J - {i}. f (the ((J(i \<mapsto> k)) x))) = (\<Sum>x \<in> dom J - {i}. f (the (J x)))"
    by (rule sum.cong) auto
  finally show ?thesis using assms i by (simp add: total_def sum.remove [where x = i])
qed

lemma total_zero: "finite (dom J) \<Longrightarrow> total f J = 0 \<Longrightarrow> j \<in> ran J \<Longrightarrow> f j = 0"
  by (auto simp: total_def ran_def dom_def)

lemma total_mono: "(\<And>i. i \<in> dom J \<Longrightarrow> f (the (J i)) \<le> g (the (J i))) \<Longrightarrow> total f J \<le> total g J"
  unfolding total_def by (rule sum_mono)

lemma total_map: "total f (map_option h \<circ> J) = total (f \<circ> h) J"
  unfolding total_def by (rule sum.cong) auto

lemma queued_left_restart: "job_wf j \<Longrightarrow> queued_left (after_restart now j) \<le> attempts_left j"
  using after_restart_running [of j now]
  by (cases "job_status j = RUNNING") (auto simp: queued_left_def attempts_left_def after_restart_def [of now j])

lemma queued_left_wf: "job_wf j \<Longrightarrow> queued_left j = 0 \<longleftrightarrow> job_status j \<noteq> QUEUED"
  by (auto simp: queued_left_def job_wf_def)

lemma normalized_error_nonempty [simp]: "normalized_error e \<noteq> []"
  by (simp add: normalized_error_def)

lemma outcome_of_cases:
  assumes "job_wf j" and "job_status j = RUNNING" and "outcome_of now j r = Inr k"
  shows "job_wf k \<and> attempt_count k = attempt_count j \<and> max_attempts k = max_attempts j
    \<and> (case r of Inr d \<Rightarrow> job_status k = COMPLETED \<and> job_result k = Some d
       | Inl e \<Rightarrow> job_status k = (if attempt_count k < max_attempts k then QUEUED else FAILED)
            \<and> (\<exists>t. job_error k = Some t \<and> t \<noteq> []))"
proof -
  have "job_wf k \<and> attempt_count k = attempt_count j \<and> max_attempts k = max_attempts j"
    using outcome_of_running [OF assms(1,2), of now r] assms(3) by auto
  moreover have "case r of Inr d \<Rightarrow> job_status k = COMPLETED \<and> job_result k = Some d
       | Inl e \<Rightarrow> job_status k = (if attempt_count k < max_attempts k then QUEUED else FAILED)
            \<and> (\<exists>t. job_error k = Some t \<and> t \<noteq> [])"
    using assms(2,3)
    by (cases r; cases "attempt_count j < max_attempts j")
      (auto simp: outcome_of_def complete_running retry_or_fail_def fail_def)
  ultimately show ?thesis by simp
qed

lemma resolve_set: "resolve reg t = Inr h \<Longrightarrow> h \<in> snd ` set reg"
  by (force simp: resolve_def split: option.splits dest: map_of_SomeD)

lemma call_handler_snd:
  "snd (call_handler reg t d s) = s \<or> (\<exists>h \<in> snd ` set reg. snd (call_handler reg t d s) = snd (h d s))"
  by (cases "resolve reg t") (auto simp: call_handler_def andthen_def of_result_def dest: resolve_set)

text \<open>The store over any repository that keeps the protocol and any codec that round-trips.\<close>

locale job_store = repository R ok owner
  for R :: "('s, 'p) repository_ops" and ok and owner +
  fixes c :: "(job, 'p) codec"
  assumes round_trip: "codec_ok job_valid c"
begin

lemma jobs_of_Some:
  "jobs_ok R ok owner c s \<Longrightarrow> jobs_of R c s i = Some j \<longleftrightarrow>
    (\<exists>r. repo_get R s job_kind i = Some r \<and> model_validate c (pr_payload r) = Some j)"
  by (auto simp: jobs_of_def split: option.splits)

lemma jobs_of_wf: "jobs_ok R ok owner c s \<Longrightarrow> jobs_of R c s i = Some j \<Longrightarrow> job_wf j \<and> job_id j = i"
  by (fastforce simp: jobs_ok_def jobs_of_def split: option.splits)

lemma written_jobs:
  assumes "jobs_ok R ok owner c s" and "written_to R ok owner s r s'" and "job_wf j"
    and "pr_record_id r = rid ''job'' (job_id j) (pr_version r)"
    and "pr_type r = job_kind" and "pr_id r = job_id j" and "1 \<le> pr_version r"
    and "pr_payload r = model_dump c j" and "pr_tenant_id r = Some (principal_id j)"
  shows "jobs_ok R ok owner c s'" and "jobs_of R c s' = (jobs_of R c s)(job_id j \<mapsto> j)"
    and "t \<noteq> job_kind \<Longrightarrow> repo_get R s' t i = repo_get R s t i"
proof -
  have validate: "model_validate c (model_dump c j) = Some j"
    using round_trip assms(3) by (simp add: codec_ok_def)
  have "keeps_kind ''job'' job_kind (owner s')"
    by (rule written_keeps_kind [OF assms(2)]) (use assms in \<open>simp_all add: jobs_ok_def\<close>)
  then show "jobs_ok R ok owner c s'"
    using assms validate written_inv [OF assms(2)]
    by (auto simp: jobs_ok_def written_get [OF assms(2)])
  show "jobs_of R c s' = (jobs_of R c s)(job_id j \<mapsto> j)"
    using assms(5,6,8) validate by (auto simp: jobs_of_def written_get [OF assms(2)] fun_eq_iff)
  show "t \<noteq> job_kind \<Longrightarrow> repo_get R s' t i = repo_get R s t i"
    using assms(5) by (simp add: written_get [OF assms(2)])
qed

text \<open>\<open>update\<close> replaces the job, and never meets a record id already in use.\<close>

lemma update_spec:
  assumes ok: "jobs_ok R ok owner c s" and stored: "jobs_of R c s (job_id j) = Some k"
    and wf: "job_wf j" and same: "principal_id j = principal_id k"
  obtains s' where "job_update R c now j s = (Inr j, s')" and "jobs_ok R ok owner c s'"
    and "jobs_of R c s' = (jobs_of R c s)(job_id j \<mapsto> j)"
    and "\<And>t i. t \<noteq> job_kind \<Longrightarrow> repo_get R s' t i = repo_get R s t i"
proof -
  have good: "ok s" "keeps_kind ''job'' job_kind (owner s)" using ok by (simp_all add: jobs_ok_def)
  obtain cur where cur: "repo_get R s job_kind (job_id j) = Some cur"
    and "model_validate c (pr_payload cur) = Some k"
    using stored by (auto simp: jobs_of_def split: option.splits)
  then have v: "1 \<le> pr_version cur" and tenant: "pr_tenant_id cur = Some (principal_id j)"
    using ok same by (fastforce simp: jobs_ok_def)+
  obtain r where r: "job_to_record c now j (pr_version cur + 1) = Inr r"
    "pr_record_id r = rid ''job'' (job_id j) (pr_version cur + 1)" "pr_type r = job_kind"
    "pr_id r = job_id j" "pr_version r = pr_version cur + 1" "pr_payload r = model_dump c j"
    "pr_tenant_id r = Some (principal_id j)"
    using job_to_record_wf [OF wf, of "pr_version cur + 1" c now] v by auto
  have "owner s (pr_record_id r) = None"
    unfolding r(2) by (rule next_rid_free [OF good]) (use cur v in auto)
  then obtain s' where s': "repo_replace R s r (pr_version cur) = Inr s'" "written_to R ok owner s r s'"
    using replace_next [OF good(1), of r cur "pr_version cur"] cur r tenant by auto
  have "job_update R c now j s = (Inr j, s')"
    unfolding job_update_def using cur r(1) s'(1) by (simp add: prog_simps andthen_def updates_def)
  then show thesis
    using that written_jobs [OF ok s'(2) wf] r v by simp
qed

lemma update_done:
  assumes "jobs_ok R ok owner c s" and "jobs_of R c s (job_id j) = Some k"
    and "job_wf j" and "principal_id j = principal_id k"
  shows "\<exists>s'. job_update R c now j s = (Inr j, s') \<and> jobs_ok R ok owner c s'
    \<and> jobs_of R c s' = (jobs_of R c s)(job_id j \<mapsto> j)"
proof (rule update_spec [OF assms, of now])
  fix s' assume "job_update R c now j s = (Inr j, s')" "jobs_ok R ok owner c s'"
    "jobs_of R c s' = (jobs_of R c s)(job_id j \<mapsto> j)"
  then show ?thesis by simp
qed

lemma create_spec:
  assumes ok: "jobs_ok R ok owner c s" and fresh: "repo_get R s job_kind (job_id j) = None" and wf: "job_wf j"
  obtains s' where "job_create R c now j s = (Inr j, s')" and "jobs_ok R ok owner c s'"
    and "jobs_of R c s' = (jobs_of R c s)(job_id j \<mapsto> j)"
    and "\<And>t i. t \<noteq> job_kind \<Longrightarrow> repo_get R s' t i = repo_get R s t i"
proof -
  have good: "ok s" "keeps_kind ''job'' job_kind (owner s)" using ok by (simp_all add: jobs_ok_def)
  obtain r where r: "job_to_record c now j 1 = Inr r"
    "pr_record_id r = rid ''job'' (job_id j) 1" "pr_type r = job_kind"
    "pr_id r = job_id j" "pr_version r = 1" "pr_payload r = model_dump c j"
    "pr_tenant_id r = Some (principal_id j)"
    using job_to_record_wf [OF wf, of 1 c now] by auto
  have "owner s (pr_record_id r) = None"
    unfolding r(2) by (rule next_rid_free [OF good]) (use fresh in auto)
  then obtain s' where s': "repo_create R s r = Inr s'" "written_to R ok owner s r s'"
    using create_new [OF good(1), of r] fresh r by auto
  have "job_create R c now j s = (Inr j, s')"
    unfolding job_create_def using r(1) s'(1) by (simp add: prog_simps andthen_def updates_def)
  then show thesis
    using that written_jobs [OF ok s'(2) wf] r by simp
qed

lemma all_jobs_spec:
  assumes "jobs_ok R ok owner c s"
  obtains js where "all_jobs R c s = Inr js" and "set js = ran (jobs_of R c s)"
    and "sorted_wrt (<) (map job_id js)"
proof -
  have good: "ok s" using assms by (simp add: jobs_ok_def)
  obtain rs where rs: "repo_list R s (Some job_kind) None = Inr rs"
    "set rs = {r. \<exists>i. repo_get R s job_kind i = Some r}" "sorted_wrt (<) (map pr_id rs)"
    using list_type [OF good] by blast
  let ?g = "\<lambda>r. the (model_validate c (pr_payload r))"
  have stored: "repo_get R s job_kind (pr_id r) = Some r" if "r \<in> set rs" for r
    using that rs(2) get_key [OF good] by blast
  have each: "job_from_record c r = Inr (?g r) \<and> job_id (?g r) = pr_id r
      \<and> jobs_of R c s (pr_id r) = Some (?g r)" if r: "r \<in> set rs" for r
  proof -
    obtain j where "model_validate c (pr_payload r) = Some j" and "job_id j = pr_id r"
      using assms stored [OF r] unfolding jobs_ok_def by blast
    then show ?thesis using stored [OF r] by (simp add: job_from_record_def restore_def jobs_of_def)
  qed
  have "all_jobs R c s = Inr (map ?g rs)"
    using rs(1) each by (simp add: all_jobs_def collect_map)
  moreover have "set (map ?g rs) = ran (jobs_of R c s)"
  proof
    show "set (map ?g rs) \<subseteq> ran (jobs_of R c s)" using each by (auto simp: ran_def)
    show "ran (jobs_of R c s) \<subseteq> set (map ?g rs)"
    proof
      fix j assume "j \<in> ran (jobs_of R c s)"
      then obtain i r where "repo_get R s job_kind i = Some r" and "model_validate c (pr_payload r) = Some j"
        by (auto simp: ran_def jobs_of_def split: option.splits)
      then show "j \<in> set (map ?g rs)" unfolding set_map rs(2) by force
    qed
  qed
  moreover have "map job_id (map ?g rs) = map pr_id rs" using each by simp
  then have "sorted_wrt (<) (map job_id (map ?g rs))" using rs(3) by (simp only:)
  ultimately show thesis using that by blast
qed

lemma jobs_finite:
  assumes "jobs_ok R ok owner c s"
  shows "finite (dom (jobs_of R c s))"
proof -
  obtain js where js: "set js = ran (jobs_of R c s)" using all_jobs_spec [OF assms] by metis
  have "dom (jobs_of R c s) \<subseteq> job_id ` set js"
    using jobs_of_wf [OF assms] unfolding js by (force simp: ran_def)
  then show ?thesis by (rule finite_subset) simp
qed

text \<open>The queue is listed oldest first.\<close>

lemma list_queued_spec:
  assumes "jobs_ok R ok owner c s"
  shows "(\<forall>j \<in> ran (jobs_of R c s). job_status j \<noteq> QUEUED) \<and> list_queued R c 1 s = (Inr [], s)
    \<or> (\<exists>j. next_job (jobs_of R c s) j \<and> list_queued R c 1 s = (Inr [j], s))"
proof -
  obtain js where js: "all_jobs R c s = Inr js" "set js = ran (jobs_of R c s)"
    using all_jobs_spec [OF assms] by metis
  let ?qs = "sort_key job_created_at (filter (\<lambda>j. job_status j = QUEUED) js)"
  have listed: "list_queued R c 1 s = (Inr (take 1 ?qs), s)"
    using js(1) by (simp add: list_queued_def)
  show ?thesis
  proof (cases ?qs)
    case Nil
    then have "set (filter (\<lambda>j. job_status j = QUEUED) js) = {}" by (metis set_empty set_sort)
    then show ?thesis using listed Nil js(2) by (auto simp: filter_empty_conv)
  next
    case (Cons j js')
    then have "j \<in> set ?qs" by simp
    then have j: "j \<in> ran (jobs_of R c s)" "job_status j = QUEUED" using js(2) by simp_all
    have "sorted (map job_created_at ?qs)" by (rule sorted_sort_key)
    then have "\<forall>k \<in> set ?qs. job_created_at j \<le> job_created_at k" unfolding Cons by simp
    moreover obtain i where "jobs_of R c s i = Some j" using j(1) by (auto simp: ran_def)
    ultimately have "next_job (jobs_of R c s) j"
      using j js(2) jobs_of_wf [OF assms] by (auto simp: next_job_def)
    then show ?thesis using listed Cons by auto
  qed
qed

lemma call_handler_safe:
  assumes "handlers_safe R ok owner c reg" and "jobs_ok R ok owner c s"
  shows "jobs_ok R ok owner c (snd (call_handler reg t d s))"
    and "jobs_of R c s i = Some j \<Longrightarrow> job_status j = RUNNING \<Longrightarrow>
      jobs_of R c (snd (call_handler reg t d s)) i = Some j"
  using assms call_handler_snd [of reg t d s] unfolding handlers_safe_def by metis+

lemma call_handler_quiet:
  assumes "handlers_quiet R ok owner c reg" and "jobs_ok R ok owner c s"
  shows "jobs_of R c (snd (call_handler reg t d s)) = jobs_of R c s"
  using assms call_handler_snd [of reg t d s] unfolding handlers_quiet_def by metis

lemma quiet_safe: "handlers_quiet R ok owner c reg \<Longrightarrow> handlers_safe R ok owner c reg"
  by (simp add: handlers_quiet_def handlers_safe_def)

text \<open>
  One round of the scheduler on a queued job: the attempt is recorded, the handler runs,
  its outcome is recorded. No step of it raises.
\<close>

lemma run_once_taken:
  assumes ok: "jobs_ok R ok owner c s" and safe: "handlers_safe R ok owner c reg"
    and listed: "list_queued R c 1 s = (Inr [j], s)" and j: "next_job (jobs_of R c s) j"
  obtains s1 k s3 where "jobs_of R c s1 = (jobs_of R c s)(job_id j \<mapsto> started now j)"
    and "jobs_ok R ok owner c s1"
    and "outcome_of now (started now j) (fst (call_handler reg (job_type j) (job_payload j) s1)) = Inr k"
    and "run_once R c reg now s = (Inr (Some k), s3)" and "jobs_ok R ok owner c s3"
    and "jobs_of R c s3 = (jobs_of R c (snd (call_handler reg (job_type j) (job_payload j) s1)))(job_id j \<mapsto> k)"
    and "job_id k = job_id j"
proof -
  have wf: "job_wf j" and stored: "jobs_of R c s (job_id j) = Some j" and queued: "job_status j = QUEUED"
    using j jobs_of_wf [OF ok] by (auto simp: next_job_def)
  obtain s1 where s1: "job_update R c now (started now j) s = (Inr (started now j), s1)"
    "jobs_ok R ok owner c s1" "jobs_of R c s1 = (jobs_of R c s)(job_id j \<mapsto> started now j)"
    using update_done [OF ok, of "started now j" j now] wf queued stored by auto
  obtain r s2 where h: "call_handler reg (job_type j) (job_payload j) s1 = (r, s2)" by force
  have s2: "jobs_ok R ok owner c s2" "jobs_of R c s2 (job_id j) = Some (started now j)"
    using call_handler_safe(1) [OF safe s1(2), of "job_type j" "job_payload j"]
      call_handler_safe(2) [OF safe s1(2), of "job_id j" "started now j" "job_type j" "job_payload j"] s1(3) h
    by simp_all
  obtain k where k: "outcome_of now (started now j) r = Inr k" "job_wf k" "job_id k = job_id j"
    "principal_id k = principal_id j"
    using outcome_of_running [OF started_wf [OF wf queued] started_simps(3), of now now r] by auto
  obtain s3 where s3: "job_update R c now k s2 = (Inr k, s3)" "jobs_ok R ok owner c s3"
    "jobs_of R c s3 = (jobs_of R c s2)(job_id j \<mapsto> k)"
    using update_done [OF s2(1), of k "started now j" now] s2(2) k by auto
  have body: "attempt
      (andthen (of_result (resolve reg (job_type (started now j)))) (\<lambda>handler.
       andthen (handler (job_payload (started now j))) (\<lambda>result.
       of_result (complete now result (started now j)))))
      (\<lambda>e. of_result (retry_or_fail now (exn_text e) (started now j))) s1 = (Inr k, s2)"
    using h k(1)
    by (cases "resolve reg (job_type j)"; cases r)
      (auto simp: call_handler_def attempt_def andthen_def of_result_def outcome_of_def complete_running
        split: prod.splits sum.splits)
  have "run_once R c reg now s = (Inr (Some k), s3)"
    unfolding run_once_def
    using listed s1(1) s3(1) body transition_running_wf [OF wf queued]
    by (simp add: prog_simps andthen_Inr [where m = "list_queued R c 1"])
  then show thesis using that s1 k s3 h by simp
qed

lemma run_once_idle:
  assumes "jobs_ok R ok owner c s" and "\<forall>j \<in> ran (jobs_of R c s). job_status j \<noteq> QUEUED"
  shows "run_once R c reg now s = (Inr None, s)"
  using list_queued_spec [OF assms(1)] assms(2)
  by (auto simp: run_once_def next_job_def prog_simps andthen_Inr [where m = "list_queued R c 1"] ran_def)

lemma round_spec:
  assumes ok: "jobs_ok R ok owner c s" and safe: "handlers_safe R ok owner c reg"
  shows "((\<forall>j \<in> ran (jobs_of R c s). job_status j \<noteq> QUEUED) \<and> run_once R c reg now s = (Inr None, s))
    \<or> (\<exists>j s1 r s2 k s3. next_job (jobs_of R c s) j
         \<and> jobs_of R c s1 = (jobs_of R c s)(job_id j \<mapsto> j\<lparr>job_status := RUNNING,
              attempt_count := attempt_count j + 1, job_started_at := Some now, job_error := None\<rparr>)
         \<and> call_handler reg (job_type j) (job_payload j) s1 = (r, s2)
         \<and> (case r of Inr d \<Rightarrow> job_status k = COMPLETED \<and> job_result k = Some d
                    | Inl e \<Rightarrow> job_status k = (if attempt_count k < max_attempts k then QUEUED else FAILED)
                         \<and> (\<exists>t. job_error k = Some t \<and> t \<noteq> []))
         \<and> attempt_count k = attempt_count j + 1 \<and> max_attempts k = max_attempts j \<and> job_wf k
         \<and> run_once R c reg now s = (Inr (Some k), s3)
         \<and> jobs_ok R ok owner c s3 \<and> jobs_of R c s3 = (jobs_of R c s2)(job_id j \<mapsto> k))"
proof (cases "\<exists>j \<in> ran (jobs_of R c s). job_status j = QUEUED")
  case False
  then show ?thesis using run_once_idle [OF ok] by blast
next
  case True
  then obtain j where j: "next_job (jobs_of R c s) j" "list_queued R c 1 s = (Inr [j], s)"
    using list_queued_spec [OF ok] by blast
  have wf: "job_wf j" "job_status j = QUEUED"
    using j(1) jobs_of_wf [OF ok] by (auto simp: next_job_def)
  show ?thesis
  proof (rule run_once_taken [OF ok safe j(2,1), of now])
    fix s1 k s3 assume s1: "jobs_of R c s1 = (jobs_of R c s)(job_id j \<mapsto> started now j)" "jobs_ok R ok owner c s1"
      and k: "outcome_of now (started now j) (fst (call_handler reg (job_type j) (job_payload j) s1)) = Inr k"
      and fin: "run_once R c reg now s = (Inr (Some k), s3)" "jobs_ok R ok owner c s3"
        "jobs_of R c s3 = (jobs_of R c (snd (call_handler reg (job_type j) (job_payload j) s1)))(job_id j \<mapsto> k)"
        "job_id k = job_id j"
    show ?thesis
      by (rule disjI2, rule exI [of _ j], rule exI [of _ s1],
          rule exI [of _ "fst (call_handler reg (job_type j) (job_payload j) s1)"],
          rule exI [of _ "snd (call_handler reg (job_type j) (job_payload j) s1)"],
          rule exI [of _ k], rule exI [of _ s3])
        (use j(1) s1(1) fin outcome_of_cases [OF started_wf [OF wf] started_simps(3) k]
         in \<open>simp add: started_def\<close>)
  qed
qed

text \<open>A restart hands every running job back to the queue or fails it, and touches no other.\<close>

lemma recover_each_spec:
  assumes "jobs_ok R ok owner c s" and "distinct (map pr_id rs)"
    and "\<And>r. r \<in> set rs \<Longrightarrow> \<exists>j. model_validate c (pr_payload r) = Some j \<and> jobs_of R c s (pr_id r) = Some j"
  shows "\<exists>js s'. recover_each R c now rs s = (Inr js, s') \<and> jobs_ok R ok owner c s'
    \<and> jobs_of R c s' = (\<lambda>i. if i \<in> pr_id ` set rs then map_option (after_restart now) (jobs_of R c s i)
                             else jobs_of R c s i)
    \<and> (\<forall>j \<in> set js. j \<in> ran (jobs_of R c s') \<and> (job_status j = QUEUED \<or> job_status j = FAILED))"
  using assms
proof (induction rs arbitrary: s)
  case Nil
  then show ?case by (simp add: prog_simps)
next
  case (Cons r rs)
  obtain j where j: "model_validate c (pr_payload r) = Some j" "jobs_of R c s (pr_id r) = Some j"
    using Cons.prems(3) by force
  then have wf: "job_wf j" "job_id j = pr_id r" using jobs_of_wf [OF Cons.prems(1)] by auto
  have from_rec: "job_from_record c r = Inr j" using j by (simp add: job_from_record_def restore_def)
  have other: "pr_id r \<notin> pr_id ` set rs" and dist: "distinct (map pr_id rs)" using Cons.prems(2) by simp_all
  show ?case
  proof (cases "job_status j = RUNNING")
    case False
    have "after_restart now j = j" using False by (simp add: after_restart_def)
    moreover obtain js s' where "recover_each R c now rs s = (Inr js, s')" "jobs_ok R ok owner c s'"
      "jobs_of R c s' = (\<lambda>i. if i \<in> pr_id ` set rs then map_option (after_restart now) (jobs_of R c s i)
                             else jobs_of R c s i)"
      "\<forall>j \<in> set js. j \<in> ran (jobs_of R c s') \<and> (job_status j = QUEUED \<or> job_status j = FAILED)"
      using Cons.IH [OF Cons.prems(1) dist] Cons.prems(3) by auto
    ultimately show ?thesis
      using False from_rec j other by (auto simp: andthen_def of_result_def fun_eq_iff)
  next
    case True
    let ?k = "after_restart now j"
    note k = after_restart_running [OF wf(1) True, of now]
    obtain s1 where s1: "job_update R c now ?k s = (Inr ?k, s1)" "jobs_ok R ok owner c s1"
      "jobs_of R c s1 = (jobs_of R c s)(pr_id r \<mapsto> ?k)"
      using update_done [OF Cons.prems(1), of ?k j now] k wf(2) j(2) by auto
    obtain js s' where s': "recover_each R c now rs s1 = (Inr js, s')" "jobs_ok R ok owner c s'"
      "jobs_of R c s' = (\<lambda>i. if i \<in> pr_id ` set rs then map_option (after_restart now) (jobs_of R c s1 i)
                             else jobs_of R c s1 i)"
      "\<forall>j \<in> set js. j \<in> ran (jobs_of R c s') \<and> (job_status j = QUEUED \<or> job_status j = FAILED)"
    proof -
      have "\<exists>j. model_validate c (pr_payload x) = Some j \<and> jobs_of R c s1 (pr_id x) = Some j"
        if "x \<in> set rs" for x
        using that Cons.prems(3) [of x] other s1(3) by (auto simp: image_iff)
      then show thesis using Cons.IH [OF s1(2) dist] that by blast
    qed
    have "jobs_of R c s' (pr_id r) = Some ?k" using s' s1(3) other by simp
    then have "?k \<in> ran (jobs_of R c s')" by (rule ranI)
    moreover have "recover_each R c now (r # rs) s = (Inr (?k # js), s')"
      using True from_rec k s1(1) s'(1) by (simp add: andthen_def of_result_def ret_def)
    moreover have "jobs_of R c s' = (\<lambda>i. if i \<in> pr_id ` set (r # rs)
        then map_option (after_restart now) (jobs_of R c s i) else jobs_of R c s i)"
      using s'(3) s1(3) j(2) other by (auto simp: fun_eq_iff)
    moreover have "job_status ?k = QUEUED \<or> job_status ?k = FAILED" using k by auto
    ultimately show ?thesis using s' by (intro exI [of _ "?k # js"] exI [of _ s']) simp
  qed
qed

lemma recover_spec:
  assumes "jobs_ok R ok owner c s"
  shows "\<exists>js s'. recover_running_jobs R c now s = (Inr js, s') \<and> jobs_ok R ok owner c s'
    \<and> jobs_of R c s' = map_option (after_restart now) \<circ> jobs_of R c s
    \<and> (\<forall>j \<in> set js. j \<in> ran (jobs_of R c s') \<and> (job_status j = QUEUED \<or> job_status j = FAILED))"
proof -
  have good: "ok s" using assms by (simp add: jobs_ok_def)
  obtain rs where rs: "repo_list R s (Some job_kind) None = Inr rs"
    "set rs = {r. \<exists>i. repo_get R s job_kind i = Some r}" "sorted_wrt (<) (map pr_id rs)"
    using list_type [OF good] by blast
  have each: "\<exists>j. model_validate c (pr_payload r) = Some j \<and> jobs_of R c s (pr_id r) = Some j" if r: "r \<in> set rs" for r
  proof -
    have get: "repo_get R s job_kind (pr_id r) = Some r" using r rs(2) get_key [OF good] by blast
    then obtain j where "model_validate c (pr_payload r) = Some j"
      using assms unfolding jobs_ok_def by blast
    then show ?thesis using get by (simp add: jobs_of_def)
  qed
  have dist: "distinct (map pr_id rs)" using rs(3) by (simp add: strict_sorted_iff)
  have "jobs_of R c s i = None" if i: "i \<notin> pr_id ` set rs" for i
  proof (cases "repo_get R s job_kind i")
    case (Some r)
    then have "r \<in> set rs" "pr_id r = i" using rs(2) get_key [OF good] by blast+
    then show ?thesis using i by blast
  qed (simp add: jobs_of_def)
  then have "(\<lambda>i. if i \<in> pr_id ` set rs then map_option (after_restart now) (jobs_of R c s i)
       else jobs_of R c s i) = map_option (after_restart now) \<circ> jobs_of R c s"
    by (auto simp: fun_eq_iff)
  then show ?thesis
    using recover_each_spec [OF assms dist each, of now] rs(1)
    by (simp add: recover_running_jobs_def andthen_def of_result_def)
qed

lemma served_step:
  assumes "served k y" and "job_id k = job_id j" and "attempt_count k = attempt_count j + 1"
    and "max_attempts k = max_attempts j" and "job_status k \<noteq> RUNNING" and "job_status j = QUEUED"
  shows "served j y"
proof -
  have "attempt_count j \<le> attempt_count y" using assms(1,3) unfolding served_def by linarith
  moreover have "job_status y \<noteq> RUNNING" using assms(1,5) unfolding served_def by metis
  ultimately show ?thesis using assms(1,2,4,6) unfolding served_def by simp
qed

text \<open>Rounds with handlers that leave the queue alone.\<close>

lemma run_once_quiet:
  assumes ok: "jobs_ok R ok owner c s" and quiet: "handlers_quiet R ok owner c reg"
    and some: "j \<in> ran (jobs_of R c s)" "job_status j = QUEUED"
  shows "\<exists>j k s'. next_job (jobs_of R c s) j \<and> run_once R c reg now s = (Inr (Some k), s')
    \<and> jobs_ok R ok owner c s' \<and> jobs_of R c s' = (jobs_of R c s)(job_id j \<mapsto> k)
    \<and> job_id k = job_id j \<and> attempt_count k = attempt_count j + 1 \<and> max_attempts k = max_attempts j
    \<and> job_status k \<noteq> RUNNING"
proof -
  obtain j where j: "next_job (jobs_of R c s) j" "list_queued R c 1 s = (Inr [j], s)"
    using list_queued_spec [OF ok] some by blast
  have wf: "job_wf j" "job_status j = QUEUED"
    using j(1) jobs_of_wf [OF ok] by (auto simp: next_job_def)
  show ?thesis
  proof (rule run_once_taken [OF ok quiet_safe [OF quiet] j(2,1), of now])
    fix s1 k s3 assume s1: "jobs_of R c s1 = (jobs_of R c s)(job_id j \<mapsto> started now j)" "jobs_ok R ok owner c s1"
      and k: "outcome_of now (started now j) (fst (call_handler reg (job_type j) (job_payload j) s1)) = Inr k"
      and fin: "run_once R c reg now s = (Inr (Some k), s3)" "jobs_ok R ok owner c s3"
        "jobs_of R c s3 = (jobs_of R c (snd (call_handler reg (job_type j) (job_payload j) s1)))(job_id j \<mapsto> k)"
        "job_id k = job_id j"
    have "jobs_of R c s3 = (jobs_of R c s)(job_id j \<mapsto> k)"
      using fin(3) call_handler_quiet [OF quiet s1(2)] s1(1) by simp
    moreover have "attempt_count k = attempt_count j + 1 \<and> max_attempts k = max_attempts j \<and> job_status k \<noteq> RUNNING"
      using outcome_of_running [OF started_wf [OF wf] started_simps(3), of now now
          "fst (call_handler reg (job_type j) (job_payload j) s1)"] k by (auto split: if_splits)
    ultimately show ?thesis using j(1) fin by blast
  qed
qed

lemma served_refl: "job_wf j \<Longrightarrow> served j j"
  by (simp add: served_def job_wf_def)

lemma rounds_drain:
  assumes "jobs_ok R ok owner c s" and quiet: "handlers_quiet R ok owner c reg"
    and "total queued_left (jobs_of R c s) \<le> length clock"
  shows "\<exists>s'. rounds R c reg clock s = (Inr (), s') \<and> jobs_ok R ok owner c s'
    \<and> dom (jobs_of R c s') = dom (jobs_of R c s)
    \<and> (\<forall>i j k. jobs_of R c s i = Some j \<longrightarrow> jobs_of R c s' i = Some k \<longrightarrow> served j k \<and> job_status k \<noteq> QUEUED)"
  using assms(1,3)
proof (induction clock arbitrary: s)
  case Nil
  have "job_status j \<noteq> QUEUED" if "jobs_of R c s i = Some j" for i j
    using total_zero [OF jobs_finite [OF Nil.prems(1)], of queued_left j] Nil.prems(2)
      queued_left_wf jobs_of_wf [OF Nil.prems(1) that] ranI [of "jobs_of R c s", OF that] by simp
  then show ?case using Nil.prems(1) jobs_of_wf by (auto simp: prog_simps served_refl)
next
  case (Cons now later)
  show ?case
  proof (cases "\<exists>j \<in> ran (jobs_of R c s). job_status j = QUEUED")
    case False
    then have none: "\<forall>j \<in> ran (jobs_of R c s). queued_left j = 0" by (auto simp: queued_left_def)
    have "total queued_left (jobs_of R c s) = 0"
      unfolding total_def by (rule sum.neutral) (use none in \<open>auto simp: ran_def\<close>)
    then have "\<exists>s'. rounds R c reg later s = (Inr (), s') \<and> jobs_ok R ok owner c s'
      \<and> dom (jobs_of R c s') = dom (jobs_of R c s)
      \<and> (\<forall>i j k. jobs_of R c s i = Some j \<longrightarrow> jobs_of R c s' i = Some k \<longrightarrow> served j k \<and> job_status k \<noteq> QUEUED)"
      using Cons.IH [OF Cons.prems(1)] by simp
    then show ?thesis using run_once_idle [OF Cons.prems(1)] False by (simp add: prog_simps)
  next
    case True
    then obtain j0 where j0: "j0 \<in> ran (jobs_of R c s)" "job_status j0 = QUEUED" by blast
    obtain j k s1 where step: "next_job (jobs_of R c s) j" "run_once R c reg now s = (Inr (Some k), s1)"
      "jobs_ok R ok owner c s1" "jobs_of R c s1 = (jobs_of R c s)(job_id j \<mapsto> k)"
      "job_id k = job_id j" "attempt_count k = attempt_count j + 1" "max_attempts k = max_attempts j"
      "job_status k \<noteq> RUNNING"
      using run_once_quiet [OF Cons.prems(1) quiet j0, of now] by blast
    have j: "jobs_of R c s (job_id j) = Some j" "job_status j = QUEUED" "job_wf j"
      using step(1) jobs_of_wf [OF Cons.prems(1)] by (auto simp: next_job_def)
    have "queued_left k < queued_left j"
      using j(2,3) step(6,7) by (auto simp: queued_left_def job_wf_def)
    then have "total queued_left (jobs_of R c s1) \<le> length later"
      using total_update [OF jobs_finite [OF Cons.prems(1)] j(1), of queued_left k] Cons.prems(2) step(4) by simp
    from Cons.IH [OF step(3) this] obtain s' where s': "rounds R c reg later s1 = (Inr (), s')"
      "jobs_ok R ok owner c s'" "dom (jobs_of R c s') = dom (jobs_of R c s1)"
      "\<And>i x y. jobs_of R c s1 i = Some x \<Longrightarrow> jobs_of R c s' i = Some y \<Longrightarrow> served x y \<and> job_status y \<noteq> QUEUED"
      by blast
    have "served x y \<and> job_status y \<noteq> QUEUED" if "jobs_of R c s i = Some x" "jobs_of R c s' i = Some y" for i x y
    proof (cases "i = job_id j")
      case True
      then have "x = j" "jobs_of R c s1 i = Some k" using that(1) j(1) step(4) by simp_all
      then have "served k y" "job_status y \<noteq> QUEUED" "x = j" using s'(4) [OF _ that(2)] by blast+
      then show ?thesis using served_step [OF _ step(5-8) j(2)] by simp
    next
      case False
      then have "jobs_of R c s1 i = Some x" using that(1) step(4) by simp
      then show ?thesis using that(2) by (rule s'(4))
    qed
    moreover have "dom (jobs_of R c s') = dom (jobs_of R c s)" using s'(3) step(4) j(1) by auto
    moreover have "rounds R c reg (now # later) s = (Inr (), s')"
      using step(2) s'(1) by (simp add: andthen_Inr)
    ultimately show ?thesis using s'(2) by (intro exI [of _ s'] conjI allI impI) simp_all
  qed
qed

lemma run_forever_spec:
  assumes ok: "jobs_ok R ok owner c s" and quiet: "handlers_quiet R ok owner c reg"
    and "0 \<le> poll" and enough: "total attempts_left (jobs_of R c s) \<le> length clock"
  shows "\<exists>s'. run_forever R c reg now poll clock s = (Inr (), s') \<and> jobs_ok R ok owner c s'
    \<and> dom (jobs_of R c s') = dom (jobs_of R c s)
    \<and> (\<forall>i j k. jobs_of R c s i = Some j \<longrightarrow> jobs_of R c s' i = Some k \<longrightarrow>
         finished k \<and> attempt_count k \<le> max_attempts k \<and> (finished j \<longrightarrow> k = j))"
proof -
  obtain js s1 where rec: "recover_running_jobs R c now s = (Inr js, s1)" "jobs_ok R ok owner c s1"
    "jobs_of R c s1 = map_option (after_restart now) \<circ> jobs_of R c s"
    using recover_spec [OF ok, of now] by blast
  have "total queued_left (jobs_of R c s1) \<le> total attempts_left (jobs_of R c s)"
    unfolding rec(3) total_map
  proof (rule total_mono)
    fix i assume "i \<in> dom (jobs_of R c s)"
    then show "(queued_left \<circ> after_restart now) (the (jobs_of R c s i)) \<le> attempts_left (the (jobs_of R c s i))"
      using jobs_of_wf [OF ok, of i] by (auto simp: queued_left_restart)
  qed
  then obtain s' where s': "rounds R c reg clock s1 = (Inr (), s')" "jobs_ok R ok owner c s'"
    "dom (jobs_of R c s') = dom (jobs_of R c s1)"
    "\<And>i j k. jobs_of R c s1 i = Some j \<Longrightarrow> jobs_of R c s' i = Some k \<Longrightarrow> served j k \<and> job_status k \<noteq> QUEUED"
    using rounds_drain [OF rec(2) quiet, of clock] enough by force
  have each: "finished k \<and> attempt_count k \<le> max_attempts k \<and> (finished j \<longrightarrow> k = j)"
    if j: "jobs_of R c s i = Some j" and k: "jobs_of R c s' i = Some k" for i j k
  proof -
    have "jobs_of R c s1 i = Some (after_restart now j)" using j rec(3) by simp
    then have sv: "served (after_restart now j) k" "job_status k \<noteq> QUEUED" using s'(4) k by blast+
    have "job_status (after_restart now j) \<noteq> RUNNING"
      using after_restart_running [of j now] jobs_of_wf [OF ok j]
      by (cases "job_status j = RUNNING") (auto simp: after_restart_def [of now j])
    then have "job_status k \<noteq> RUNNING" using sv(1) unfolding served_def by metis
    moreover have "finished j \<longrightarrow> k = j"
      using sv(1) by (auto simp: finished_def after_restart_def served_def)
    ultimately show ?thesis using sv by (simp add: finished_def served_def)
  qed
  have "run_forever R c reg now poll clock s = (Inr (), s')"
    using assms(3) rec(1) s'(1) by (simp add: run_forever_def andthen_Inr)
  moreover have "dom (jobs_of R c s') = dom (jobs_of R c s)" using s'(3) rec(3) by auto
  ultimately show ?thesis using s'(2) each by (intro exI [of _ s'] conjI allI impI) simp_all
qed

end

section \<open>On the in-memory repository\<close>

interpretation mem_jobs: job_store memory_ops mem_ok mem_owner plain_codec
  by unfold_locales simp

lemma jobs_on_memory: "codec_ok job_valid c \<Longrightarrow> job_store memory_ops mem_ok mem_owner c"
  by unfold_locales

abbreviation mem_jobs_ok :: "(job, 'p) codec \<Rightarrow> 'p memory \<Rightarrow> bool" where
  "mem_jobs_ok \<equiv> jobs_ok memory_ops mem_ok mem_owner"

abbreviation mem_jobs_of :: "(job, 'p) codec \<Rightarrow> 'p memory \<Rightarrow> string \<Rightarrow> job option" where
  "mem_jobs_of \<equiv> jobs_of memory_ops"

lemma empty_jobs_ok: "mem_jobs_ok c empty_memory"
  by (simp add: jobs_ok_def keeps_kind_empty memory_ops_def)

definition demo_job :: job where
  "demo_job = \<lparr>job_id = ''j1'', job_type = ''daily'', principal_id = ''t1'', job_payload = [],
     job_status = QUEUED, job_result = None, job_error = None, attempt_count = 0, max_attempts = 2,
     job_created_at = 5, job_started_at = None, job_completed_at = None\<rparr>"

lemma demo_job_wf: "job_wf demo_job"
  by (simp add: job_wf_def job_valid_def demo_job_def payload_site_def)

definition demo_queue :: "job memory" where
  "demo_queue = snd (job_create memory_ops plain_codec 5 demo_job empty_memory)"

lemma demo_queue_jobs: "mem_jobs_ok plain_codec demo_queue \<and> mem_jobs_of plain_codec demo_queue = [''j1'' \<mapsto> demo_job]"
proof (rule mem_jobs.create_spec [OF empty_jobs_ok _ demo_job_wf, of 5])
  show "repo_get memory_ops empty_memory job_kind (job_id demo_job) = None" by (simp add: memory_ops_def)
next
  fix s' assume "job_create memory_ops plain_codec 5 demo_job empty_memory = (Inr demo_job, s')"
    and "mem_jobs_ok plain_codec s'"
    and "mem_jobs_of plain_codec s' = (mem_jobs_of plain_codec empty_memory)(job_id demo_job \<mapsto> demo_job)"
  moreover have "mem_jobs_of plain_codec empty_memory = (\<lambda>_. None)"
    by (simp add: jobs_of_def memory_ops_def fun_eq_iff)
  ultimately show ?thesis by (simp add: demo_queue_def demo_job_def)
qed

section \<open>Properties\<close>

text \<open>
  Updating a stored job always lands: it never meets a record id some other row has
  taken, whatever mix of aggregates and versions the store holds, and it changes that job
  and nothing else.
\<close>

theorem job_update_lands:
  assumes "codec_ok job_valid c" and "mem_jobs_ok c s"
    and "mem_jobs_of c s (job_id j) = Some k" and "job_wf j" and "principal_id j = principal_id k"
  shows "\<exists>s'. job_update memory_ops c now j s = (Inr j, s') \<and> mem_jobs_ok c s'
    \<and> mem_jobs_of c s' = (mem_jobs_of c s)(job_id j \<mapsto> j)"
  by (rule job_store.update_done [OF jobs_on_memory [OF assms(1)] assms(2-5)])

lemma job_update_lands_witness:
  "fst (job_update memory_ops plain_codec 9 (started 7 demo_job) demo_queue) = Inr (started 7 demo_job)"
proof -
  have "job_status demo_job = QUEUED" by (simp add: demo_job_def)
  then have "job_wf (started 7 demo_job)" using demo_job_wf by simp
  moreover have "mem_jobs_of plain_codec demo_queue (job_id (started 7 demo_job)) = Some demo_job"
    using demo_queue_jobs by (simp add: demo_job_def)
  ultimately show ?thesis
    using job_update_lands [OF plain_codec_ok conjunct1 [OF demo_queue_jobs],
        of "started 7 demo_job" demo_job 9] by auto
qed

text \<open>
  A round of the scheduler never raises. With nothing queued it does nothing;
  otherwise it takes a queued job no other queued job is older than, records the attempt
  (running, one more attempt) before the handler is called, and records what the handler's
  result or exception makes of the job: completed, queued again while attempts are left,
  failed when none is.
\<close>

theorem scheduler_round:
  assumes "codec_ok job_valid c" and "mem_jobs_ok c s"
    and "handlers_safe memory_ops mem_ok mem_owner c reg"
  shows "((\<forall>j \<in> ran (mem_jobs_of c s). job_status j \<noteq> QUEUED) \<and> run_once memory_ops c reg now s = (Inr None, s))
    \<or> (\<exists>j s1 r s2 k s3. next_job (mem_jobs_of c s) j
         \<and> mem_jobs_of c s1 = (mem_jobs_of c s)(job_id j \<mapsto> j\<lparr>job_status := RUNNING,
              attempt_count := attempt_count j + 1, job_started_at := Some now, job_error := None\<rparr>)
         \<and> call_handler reg (job_type j) (job_payload j) s1 = (r, s2)
         \<and> (case r of Inr d \<Rightarrow> job_status k = COMPLETED \<and> job_result k = Some d
                    | Inl e \<Rightarrow> job_status k = (if attempt_count k < max_attempts k then QUEUED else FAILED)
                         \<and> (\<exists>t. job_error k = Some t \<and> t \<noteq> []))
         \<and> attempt_count k = attempt_count j + 1 \<and> max_attempts k = max_attempts j \<and> job_wf k
         \<and> run_once memory_ops c reg now s = (Inr (Some k), s3)
         \<and> mem_jobs_ok c s3 \<and> mem_jobs_of c s3 = (mem_jobs_of c s2)(job_id j \<mapsto> k))"
  by (rule job_store.round_spec [OF jobs_on_memory [OF assms(1)] assms(2,3)])

text \<open>A handler that always fails, and the registry that holds it.\<close>

definition demo_registry :: "job memory registry" where
  "demo_registry = [(''daily'', \<lambda>_. raise_exn (Exn RuntimeError ''no''))]"

lemma demo_registry_quiet: "handlers_quiet memory_ops mem_ok mem_owner c demo_registry"
  by (simp add: handlers_quiet_def demo_registry_def prog_simps)

lemma scheduler_round_witness:
  "\<exists>k s3. run_once memory_ops plain_codec demo_registry 7 demo_queue = (Inr (Some k), s3)
     \<and> job_status k = QUEUED \<and> attempt_count k = 1"
proof -
  have j: "j = demo_job" if "next_job (mem_jobs_of plain_codec demo_queue) j" for j
    using that demo_queue_jobs by (auto simp: next_job_def split: if_splits)
  have "demo_job \<in> ran (mem_jobs_of plain_codec demo_queue)" using demo_queue_jobs by simp
  moreover have "job_status demo_job = QUEUED" by (simp add: demo_job_def)
  ultimately obtain r k s1 s2 s3 where
    run: "run_once memory_ops plain_codec demo_registry 7 demo_queue = (Inr (Some k), s3)"
    and call: "call_handler demo_registry (job_type demo_job) (job_payload demo_job) s1 = (r, s2)"
    and k: "case r of Inr d \<Rightarrow> job_status k = COMPLETED \<and> job_result k = Some d
        | Inl e \<Rightarrow> job_status k = (if attempt_count k < max_attempts k then QUEUED else FAILED)
             \<and> (\<exists>t. job_error k = Some t \<and> t \<noteq> [])"
    and n: "attempt_count k = attempt_count demo_job + 1" "max_attempts k = max_attempts demo_job"
    using scheduler_round [OF plain_codec_ok conjunct1 [OF demo_queue_jobs]
        mem_jobs.quiet_safe [OF demo_registry_quiet], of 7] j by blast
  have "r = Inl (Exn RuntimeError ''no'')"
    using call by (simp add: demo_registry_def demo_job_def call_handler_def resolve_def prog_simps andthen_Inr)
  then have "job_status k = QUEUED \<and> attempt_count k = 1" using k n by (simp add: demo_job_def)
  then show ?thesis using run by blast
qed

text \<open>
  A restart leaves no job running: each one goes back to the queue if it has an
  attempt left and fails otherwise, keeps its attempt count, and every other job is as it was.
\<close>

theorem restart_recovers:
  assumes "codec_ok job_valid c" and "mem_jobs_ok c s"
  shows "\<exists>js s'. recover_running_jobs memory_ops c now s = (Inr js, s') \<and> mem_jobs_ok c s'
    \<and> (\<forall>i. case mem_jobs_of c s i of
          None \<Rightarrow> mem_jobs_of c s' i = None
        | Some j \<Rightarrow> if job_status j \<noteq> RUNNING then mem_jobs_of c s' i = Some j
            else \<exists>k. mem_jobs_of c s' i = Some k \<and> attempt_count k = attempt_count j
                  \<and> job_status k = (if attempt_count j < max_attempts j then QUEUED else FAILED))"
proof -
  obtain js s' where r: "recover_running_jobs memory_ops c now s = (Inr js, s')" "mem_jobs_ok c s'"
    "mem_jobs_of c s' = map_option (after_restart now) \<circ> mem_jobs_of c s"
    using job_store.recover_spec [OF jobs_on_memory [OF assms(1)] assms(2), of now] by blast
  have "job_wf j" if "mem_jobs_of c s i = Some j" for i j
    using job_store.jobs_of_wf [OF jobs_on_memory [OF assms(1)] assms(2) that] by simp
  then show ?thesis using r after_restart_running [of _ now]
    by (auto simp: after_restart_def [of now] split: option.split)
qed

lemma restart_recovers_witness:
  "\<exists>js s'. recover_running_jobs memory_ops plain_codec 9 demo_queue = (Inr js, s')
    \<and> mem_jobs_of plain_codec s' ''j1'' = Some demo_job"
proof -
  have "mem_jobs_of plain_codec demo_queue ''j1'' = Some demo_job" "job_status demo_job \<noteq> RUNNING"
    using demo_queue_jobs by (simp_all add: demo_job_def)
  then show ?thesis
    using restart_recovers [OF plain_codec_ok conjunct1 [OF demo_queue_jobs], of 9]
    by (fastforce split: option.splits dest: spec [of _ "''j1''"])
qed

text \<open>
  C32. The worker drains its queue: after a restart and at most as many rounds as the
  unfinished jobs have attempts left, every job is completed, failed or cancelled, none is
  lost, none has run more often than it may, and what was finished before is unchanged,
  whatever the handlers return or raise.
\<close>

theorem worker_drains_queue:
  assumes "codec_ok job_valid c" and "mem_jobs_ok c s"
    and "handlers_quiet memory_ops mem_ok mem_owner c reg" and "0 \<le> poll"
    and "total attempts_left (mem_jobs_of c s) \<le> length clock"
  shows "\<exists>s'. run_forever memory_ops c reg now poll clock s = (Inr (), s')
    \<and> dom (mem_jobs_of c s') = dom (mem_jobs_of c s)
    \<and> (\<forall>i j k. mem_jobs_of c s i = Some j \<longrightarrow> mem_jobs_of c s' i = Some k \<longrightarrow>
         finished k \<and> attempt_count k \<le> max_attempts k \<and> (finished j \<longrightarrow> k = j))"
  using job_store.run_forever_spec [OF jobs_on_memory [OF assms(1)] assms(2-5), of now] by blast

lemma worker_drains_queue_witness:
  "\<exists>s' k. run_forever memory_ops plain_codec demo_registry 7 1 [8, 9] demo_queue = (Inr (), s')
     \<and> mem_jobs_of plain_codec s' ''j1'' = Some k \<and> finished k"
proof -
  have j: "mem_jobs_of plain_codec demo_queue = [''j1'' \<mapsto> demo_job]" using demo_queue_jobs by simp
  have "total attempts_left (mem_jobs_of plain_codec demo_queue) \<le> length [8, 9 :: instant]"
    unfolding j by (simp add: total_def attempts_left_def demo_job_def)
  from worker_drains_queue [OF plain_codec_ok conjunct1 [OF demo_queue_jobs] demo_registry_quiet _ this, of 1 7]
  obtain s' where "run_forever memory_ops plain_codec demo_registry 7 1 [8, 9] demo_queue = (Inr (), s')"
    and "dom (mem_jobs_of plain_codec s') = dom (mem_jobs_of plain_codec demo_queue)"
    and "\<And>i j k. mem_jobs_of plain_codec demo_queue i = Some j \<Longrightarrow> mem_jobs_of plain_codec s' i = Some k \<Longrightarrow> finished k"
    by auto
  moreover from this(2) j have "''j1'' \<in> dom (mem_jobs_of plain_codec s')" by simp
  ultimately show ?thesis using j by fastforce
qed

end
