(* ===== verification/Stores.thy ===== *)
theory Stores
  imports Persistence
begin

text \<open>
  What the stores of one aggregate type share. A store keeps one model per id under its
  type, writes version \<open>v\<close> of id \<open>i\<close> under the record id \<open>prefix:i:vv\<close> (\<open>rid\<close>), and reads
  the current version before it writes the next: \<open>model_of\<close> is the map such a store is,
  \<open>store_ok\<close> what it keeps of the repository, and the lemmas say what a write does when the
  version it replaces is the current one and when it is not.
\<close>

definition model_of :: "('s, 'p) repository_ops \<Rightarrow> string \<Rightarrow> ('m, 'p) codec \<Rightarrow> 's \<Rightarrow> string \<Rightarrow> 'm option" where
  "model_of R kind c s i = (case repo_get R s kind i of
     None \<Rightarrow> None | Some r \<Rightarrow> model_validate c (pr_payload r))"

definition version_of :: "('s, 'p) repository_ops \<Rightarrow> string \<Rightarrow> 's \<Rightarrow> string \<Rightarrow> int" where
  "version_of R kind s i = (case repo_get R s kind i of None \<Rightarrow> 0 | Some r \<Rightarrow> pr_version r)"

definition store_ok ::
  "('s, 'p) repository_ops \<Rightarrow> ('s \<Rightarrow> bool) \<Rightarrow> ('s \<Rightarrow> string \<Rightarrow> (string \<times> string \<times> int) option)
   \<Rightarrow> string \<Rightarrow> string \<Rightarrow> ('m, 'p) codec \<Rightarrow> (string \<Rightarrow> string option \<Rightarrow> 'm \<Rightarrow> bool) \<Rightarrow> 's \<Rightarrow> bool" where
  "store_ok R ok owner pre kind c good s \<longleftrightarrow> ok s \<and> keeps_kind pre kind (owner s)
     \<and> (\<forall>i r. repo_get R s kind i = Some r \<longrightarrow> 1 \<le> pr_version r
          \<and> (\<exists>m. model_validate c (pr_payload r) = Some m \<and> good i (pr_tenant_id r) m))"

text \<open>A record as the stores build it.\<close>

definition store_record ::
  "string \<Rightarrow> string \<Rightarrow> ('m, 'p) codec \<Rightarrow> string \<Rightarrow> int \<Rightarrow> 'm \<Rightarrow> 'p precord \<Rightarrow> bool" where
  "store_record pre kind c i v m r \<longleftrightarrow> pr_record_id r = rid pre i v \<and> pr_type r = kind \<and> pr_id r = i
     \<and> pr_version r = v \<and> pr_payload r = model_dump c m \<and> model_validate c (model_dump c m) = Some m"

lemma new_precord_store:
  assumes "new_precord (rid pre i v) kind i schema v (model_dump c m) now tenant site = Inr r"
    and "model_validate c (model_dump c m) = Some m"
  shows "store_record pre kind c i v m r \<and> pr_tenant_id r = tenant"
  using assms by (auto simp: new_precord_def store_record_def Let_def split: if_splits)

lemma new_precord_Inr:
  assumes "kind \<noteq> []" and "i \<noteq> []" and "1 \<le> v" and "1 \<le> schema"
  shows "\<exists>r. new_precord (rid pre i v) kind i schema v p now tenant site = Inr r"
  using assms by (simp add: new_precord_def pr_valid_def Let_def)

context repository
begin

lemma store_ok_good:
  "store_ok R ok owner pre kind c good s \<Longrightarrow> model_of R kind c s i = Some m \<Longrightarrow>
    \<exists>r. repo_get R s kind i = Some r \<and> good i (pr_tenant_id r) m"
  by (fastforce simp: store_ok_def model_of_def split: option.splits)

lemma version_pos:
  "store_ok R ok owner pre kind c good s \<Longrightarrow> 0 \<le> version_of R kind s i
    \<and> (version_of R kind s i = 0 \<longleftrightarrow> repo_get R s kind i = None)
    \<and> (version_of R kind s i = 0 \<longleftrightarrow> model_of R kind c s i = None)"
  by (fastforce simp: store_ok_def version_of_def model_of_def split: option.splits)

lemma store_written:
  assumes so: "store_ok R ok owner pre kind c good s" and w: "written_to R ok owner s r s'"
    and sr: "store_record pre kind c i v m r" and "1 \<le> v" and good: "good i (pr_tenant_id r) m"
    and pre: "CHR '':'' \<notin> set pre"
  shows "store_ok R ok owner pre kind c good s'" and "model_of R kind c s' = (model_of R kind c s)(i \<mapsto> m)"
    and "version_of R kind s' j = (if j = i then v else version_of R kind s j)"
proof -
  have keeps: "keeps_kind pre kind (owner s')"
    by (rule written_keeps_kind [OF w]) (use assms in \<open>simp_all add: store_ok_def store_record_def\<close>)
  have get: "repo_get R s' t j = (if t = kind \<and> j = i then Some r else repo_get R s t j)" for t j
    using written_get [OF w] sr by (simp add: store_record_def)
  have val: "model_validate c (pr_payload r) = Some m" "pr_version r = v"
    using sr by (simp_all add: store_record_def)
  show "store_ok R ok owner pre kind c good s'"
    unfolding store_ok_def
  proof (intro conjI allI impI)
    show "ok s'" by (rule written_inv [OF w])
    show "keeps_kind pre kind (owner s')" by (rule keeps)
    fix j x assume x: "repo_get R s' kind j = Some x"
    show "1 \<le> pr_version x" and "\<exists>m. model_validate c (pr_payload x) = Some m \<and> good j (pr_tenant_id x) m"
      using x so val good \<open>1 \<le> v\<close> unfolding get store_ok_def by (auto split: if_splits)
  qed
  show "model_of R kind c s' = (model_of R kind c s)(i \<mapsto> m)"
    using val by (auto simp: model_of_def get fun_eq_iff)
  show "version_of R kind s' j = (if j = i then v else version_of R kind s j)"
    using val by (simp add: version_of_def get)
qed

text \<open>A write of another kind leaves the store as it is.\<close>

lemma store_other:
  assumes so: "store_ok R ok owner pre kind c good s" and w: "written_to R ok owner s r s'"
    and "pr_type r \<noteq> kind" and "pr_record_id r = rid pre' (pr_id r) (pr_version r)" and "0 \<le> pr_version r"
    and "CHR '':'' \<notin> set pre" and "CHR '':'' \<notin> set pre'" and "pre \<noteq> pre'"
  shows "store_ok R ok owner pre kind c good s'" and "model_of R kind c s' = model_of R kind c s"
    and "version_of R kind s' = version_of R kind s"
proof -
  have keeps: "keeps_kind pre kind (owner s')"
    by (rule written_keeps_kind [OF w]) (use assms in \<open>simp_all add: store_ok_def\<close>)
  have get: "repo_get R s' kind j = repo_get R s kind j" for j
    using written_get [OF w] assms(3) by simp
  show "store_ok R ok owner pre kind c good s'"
    using so keeps written_inv [OF w] by (simp add: store_ok_def get)
  show "model_of R kind c s' = model_of R kind c s" "version_of R kind s' = version_of R kind s"
    by (simp_all add: model_of_def version_of_def get fun_eq_iff)
qed

lemma next_id_free:
  assumes "store_ok R ok owner pre kind c good s" and "version_of R kind s i < v"
  shows "owner s (rid pre i v) = None"
proof (rule next_rid_free [where t = kind])
  show "ok s" "keeps_kind pre kind (owner s)" using assms(1) by (simp_all add: store_ok_def)
  show "0 \<le> v" using version_pos [OF assms(1), of i] assms(2) by simp
  fix cur assume "repo_get R s kind i = Some cur"
  then show "pr_version cur < v" using assms(2) by (simp add: version_of_def)
qed

text \<open>Writing the first version of an id, and the next one.\<close>

lemma store_create:
  assumes so: "store_ok R ok owner pre kind c good s" and sr: "store_record pre kind c i 1 m r"
    and new: "repo_get R s kind i = None"
  shows "\<exists>s'. repo_create R s r = Inr s' \<and> written_to R ok owner s r s'"
proof -
  have "owner s (pr_record_id r) = None"
    using next_id_free [OF so, of i 1] sr new by (simp add: store_record_def version_of_def)
  then show ?thesis
    using create_new [of s r] so sr new by (simp add: store_ok_def store_record_def)
qed

lemma store_replace:
  assumes so: "store_ok R ok owner pre kind c good s" and sr: "store_record pre kind c i (v + 1) m r"
    and cur: "repo_get R s kind i = Some cur" and "pr_version cur = v" and "pr_tenant_id cur = pr_tenant_id r"
  shows "\<exists>s'. repo_replace R s r v = Inr s' \<and> written_to R ok owner s r s'"
proof -
  have "owner s (pr_record_id r) = None"
    using next_id_free [OF so, of i "v + 1"] sr cur assms(4) by (simp add: store_record_def version_of_def)
  then show ?thesis
    using replace_next [of s r cur v] so sr cur assms(4,5) by (simp add: store_ok_def store_record_def)
qed

text \<open>
  A write over a version that is not the current one is refused: somebody else created the
  aggregate, or replaced it, since it was read.
\<close>

lemma store_create_stale:
  assumes "store_ok R ok owner pre kind c good s" and "store_record pre kind c i 1 m r"
    and "repo_get R s kind i \<noteq> None"
  shows "refused PersistenceConflictError (repo_create R s r)"
  using create_exists [of s r] assms by (auto simp: store_ok_def store_record_def)

lemma store_replace_stale:
  assumes "store_ok R ok owner pre kind c good s" and "store_record pre kind c i (v + 1) m r"
    and "repo_get R s kind i \<noteq> None" and "version_of R kind s i \<noteq> v"
  shows "refused PersistenceConflictError (repo_replace R s r v)"
proof -
  obtain cur where cur: "repo_get R s kind i = Some cur" using assms(3) by auto
  have "ok s" and "repo_get R s (pr_type r) (pr_id r) = Some cur" and "pr_version cur \<noteq> v"
    using assms(1,2,4) cur by (auto simp: store_ok_def store_record_def version_of_def)
  then show ?thesis by (intro replace_refused) auto
qed

end

section \<open>A repository beside the rest of the world\<close>

text \<open>
  A handler runs in a state that holds more than the repository: the sites it calls. Here
  the state is a pair, the repository's own state and a world its operations do not touch.
\<close>

definition beside :: "('s, 'p) repository_ops \<Rightarrow> ('s \<times> 'w, 'p) repository_ops" where
  "beside R = \<lparr>
     repo_create = (\<lambda>s r. and_maybe (repo_create R (fst s) r) (\<lambda>s'. Inr (s', snd s))),
     repo_get = (\<lambda>s. repo_get R (fst s)),
     repo_list = (\<lambda>s. repo_list R (fst s)),
     repo_query = (\<lambda>s. repo_query R (fst s)),
     repo_replace = (\<lambda>s r ev. and_maybe (repo_replace R (fst s) r ev) (\<lambda>s'. Inr (s', snd s)))\<rparr>"

lemma beside_simps [simp]:
  "repo_create (beside R) s r = and_maybe (repo_create R (fst s) r) (\<lambda>s'. Inr (s', snd s))"
  "repo_get (beside R) s = repo_get R (fst s)"
  "repo_list (beside R) s = repo_list R (fst s)"
  "repo_query (beside R) s = repo_query R (fst s)"
  "repo_replace (beside R) s r ev = and_maybe (repo_replace R (fst s) r ev) (\<lambda>s'. Inr (s', snd s))"
  by (simp_all add: beside_def)

lemma beside_written:
  "written_to R ok owner s r s' \<Longrightarrow>
    written_to (beside R) (\<lambda>s. ok (fst s)) (\<lambda>s. owner (fst s)) (s, w) r (s', w)"
  by (simp add: written_to_def fun_eq_iff)

lemma refused_and_maybe: "refused k r \<Longrightarrow> refused k (and_maybe r f)"
  by (auto simp: refused_def)

context repository
begin

lemma repository_beside: "repository (beside R) (\<lambda>s. ok (fst s)) (\<lambda>s. owner (fst s))"
proof
  fix s :: "'s \<times> 'w" and r :: "'p precord"
  assume ok: "ok (fst s)"
  show "repo_get (beside R) s t i = Some x \<Longrightarrow> pr_type x = t \<and> pr_id x = i" for t i x
    using get_key [OF ok] by simp
  show "owner (fst s) x = Some (t, i, v) \<Longrightarrow> \<exists>c. repo_get (beside R) s t i = Some c \<and> v \<le> pr_version c" for x t i v
    using owned [OF ok] by simp
  show "repo_get (beside R) s (pr_type r) (pr_id r) = Some c \<Longrightarrow>
      refused PersistenceConflictError (repo_create (beside R) s r)" for c
    using create_exists [OF ok] by (simp add: refused_and_maybe)
  show "owner (fst s) (pr_record_id r) = Some p \<Longrightarrow> p \<noteq> pr_identity r \<Longrightarrow>
      refused PersistenceConflictError (repo_create (beside R) s r)" for p
    using create_taken [OF ok, of r p] by (simp add: refused_and_maybe)
  show "repo_get (beside R) s (pr_type r) (pr_id r) = None \<Longrightarrow> owner (fst s) (pr_record_id r) = None \<Longrightarrow>
      \<exists>s'. repo_create (beside R) s r = Inr s'
        \<and> written_to (beside R) (\<lambda>s. ok (fst s)) (\<lambda>s. owner (fst s)) s r s'"
    using create_new [OF ok, of r] beside_written [of R ok owner "fst s" r _ "snd s"] by force
  show "repo_get (beside R) s (pr_type r) (pr_id r) = None \<Longrightarrow>
      refused PersistenceNotFoundError (repo_replace (beside R) s r ev)" for ev
    using replace_missing [OF ok] by (simp add: refused_and_maybe)
  show "repo_get (beside R) s (pr_type r) (pr_id r) = Some c \<Longrightarrow>
      pr_tenant_id c \<noteq> pr_tenant_id r \<or> pr_version c \<noteq> ev \<or> pr_version r \<noteq> ev + 1
        \<or> (\<exists>p. owner (fst s) (pr_record_id r) = Some p \<and> p \<noteq> pr_identity r) \<Longrightarrow>
      refused PersistenceConflictError (repo_replace (beside R) s r ev)" for c ev
    using replace_refused [OF ok, of r c ev] by (simp add: refused_and_maybe)
  show "repo_get (beside R) s (pr_type r) (pr_id r) = Some c \<Longrightarrow> pr_tenant_id c = pr_tenant_id r \<Longrightarrow>
      pr_version c = ev \<Longrightarrow> pr_version r = ev + 1 \<Longrightarrow> owner (fst s) (pr_record_id r) = None \<Longrightarrow>
      \<exists>s'. repo_replace (beside R) s r ev = Inr s'
        \<and> written_to (beside R) (\<lambda>s. ok (fst s)) (\<lambda>s. owner (fst s)) s r s'" for c ev
    using replace_next [OF ok, of r c ev] beside_written [of R ok owner "fst s" r _ "snd s"] by force
  show "\<exists>rs. repo_list (beside R) s (Some t) None = Inr rs
      \<and> set rs = {r. \<exists>i. repo_get (beside R) s t i = Some r} \<and> sorted_wrt (<) (map pr_id rs)" for t
    using list_type [OF ok] by simp
qed

end

interpretation mem_beside: repository "beside memory_ops" "\<lambda>s. mem_ok (fst s)" "\<lambda>s. mem_owner (fst s)"
  by (rule mem.repository_beside)

end
