(* ===== verification/Limiter.thy ===== *)
theory Limiter
  imports Seo_Prelude
begin

text \<open>
  \<open>AttemptLimiter\<close> of \<open>app/accounts/service.py\<close>: events per key in a sliding window. The
  dictionary of event queues is an association list in insertion order; the lock makes each
  operation one step, and the clock is read once per operation, so it is an argument.
\<close>

section \<open>Model\<close>

record limiter =
  lim_limit :: int
  lim_window :: int
  lim_max_keys :: int
  lim_events :: "(string \<times> instant list) list"

definition new_limiter :: "int \<Rightarrow> int \<Rightarrow> int \<Rightarrow> limiter" where
  "new_limiter limit window max_keys =
     \<lparr>lim_limit = limit, lim_window = window, lim_max_keys = max_keys, lim_events = []\<rparr>"

definition recent :: "int \<Rightarrow> instant \<Rightarrow> instant list \<Rightarrow> instant list" where
  "recent window now es = dropWhile (\<lambda>e. window < now - e) es"

definition expire :: "string \<Rightarrow> instant \<Rightarrow> limiter \<Rightarrow> instant list option \<times> limiter" where
  "expire k now l = (case map_of (lim_events l) k of
     None \<Rightarrow> (None, l)
   | Some es \<Rightarrow>
       (case recent (lim_window l) now es of
          [] \<Rightarrow> (None, l\<lparr>lim_events := AList.delete k (lim_events l)\<rparr>)
        | e # es' \<Rightarrow> (Some (e # es'), l\<lparr>lim_events := AList.update k (e # es') (lim_events l)\<rparr>)))"

definition at_limit :: "limiter \<Rightarrow> instant list option \<Rightarrow> bool" where
  "at_limit l es = (case es of None \<Rightarrow> False | Some xs \<Rightarrow> lim_limit l \<le> int (length xs))"

definition blocked :: "string \<Rightarrow> instant \<Rightarrow> limiter \<Rightarrow> bool \<times> limiter" where
  "blocked k now l = (let (es, l') = expire k now l in (at_limit l' es, l'))"

fun expire_all :: "string list \<Rightarrow> instant \<Rightarrow> limiter \<Rightarrow> limiter" where
  "expire_all [] now l = l"
| "expire_all (k # ks) now l = expire_all ks now (snd (expire k now l))"

definition without :: "string list \<Rightarrow> limiter \<Rightarrow> limiter" where
  "without ks l = l\<lparr>lim_events := filter (\<lambda>(k, _). k \<notin> set ks) (lim_events l)\<rparr>"

definition prune :: "instant \<Rightarrow> limiter \<Rightarrow> limiter" where
  "prune now l =
     (let l' = expire_all (map fst (lim_events l)) now l;
          overflow = int (length (lim_events l')) - lim_max_keys l' + 1
      in if 0 < overflow
         then without (map fst (take (nat overflow) (sort_key (\<lambda>(_, es). last es) (lim_events l')))) l'
         else l')"

definition append_event :: "string \<Rightarrow> instant \<Rightarrow> limiter \<Rightarrow> limiter" where
  "append_event k now l =
     (case expire k now l of
        (Some es, l') \<Rightarrow> l'\<lparr>lim_events := AList.update k (es @ [now]) (lim_events l')\<rparr>
      | (None, l') \<Rightarrow>
          (let l'' = (if lim_max_keys l' \<le> int (length (lim_events l')) then prune now l' else l')
           in l''\<lparr>lim_events := AList.update k [now] (lim_events l'')\<rparr>))"

definition limiter_record :: "string \<Rightarrow> instant \<Rightarrow> limiter \<Rightarrow> limiter" where
  "limiter_record k now l = append_event k now l"

definition attempt_event :: "string \<Rightarrow> instant \<Rightarrow> limiter \<Rightarrow> bool \<times> limiter" where
  "attempt_event k now l =
     (let (es, l') = expire k now l
      in if at_limit l' es then (False, l') else (True, append_event k now l'))"

definition cancel_event :: "string \<Rightarrow> limiter \<Rightarrow> limiter" where
  "cancel_event k l = (case map_of (lim_events l) k of
     None \<Rightarrow> l
   | Some [] \<Rightarrow> l
   | Some es \<Rightarrow>
       (if butlast es = [] then l\<lparr>lim_events := AList.delete k (lim_events l)\<rparr>
        else l\<lparr>lim_events := AList.update k (butlast es) (lim_events l)\<rparr>))"

definition succeeded :: "string \<Rightarrow> limiter \<Rightarrow> limiter" where
  "succeeded k l = l\<lparr>lim_events := AList.delete k (lim_events l)\<rparr>"

definition limiter_len :: "limiter \<Rightarrow> int" where
  "limiter_len l = int (length (lim_events l))"

section \<open>Well-formedness and what each operation keeps\<close>

text \<open>Each key once, no key without an event, and no more keys than the memory bound.\<close>

definition lim_ok :: "limiter \<Rightarrow> bool" where
  "lim_ok l \<longleftrightarrow> distinct (map fst (lim_events l)) \<and> (\<forall>(k, es) \<in> set (lim_events l). es \<noteq> [])
     \<and> 1 \<le> lim_max_keys l \<and> int (length (lim_events l)) \<le> lim_max_keys l"

definition same_bounds :: "limiter \<Rightarrow> limiter \<Rightarrow> bool" where
  "same_bounds l l' \<longleftrightarrow> lim_limit l' = lim_limit l \<and> lim_window l' = lim_window l
     \<and> lim_max_keys l' = lim_max_keys l"

abbreviation events_of :: "limiter \<Rightarrow> string \<Rightarrow> instant list option" where
  "events_of l \<equiv> map_of (lim_events l)"

lemma expire_cases:
  obtains (absent) "events_of l k = None" "expire k now l = (None, l)"
  | (aged) es where "events_of l k = Some es" "recent (lim_window l) now es = []"
      "expire k now l = (None, l\<lparr>lim_events := AList.delete k (lim_events l)\<rparr>)"
  | (kept) es where "events_of l k = Some es" "recent (lim_window l) now es \<noteq> []"
      "expire k now l = (Some (recent (lim_window l) now es),
         l\<lparr>lim_events := AList.update k (recent (lim_window l) now es) (lim_events l)\<rparr>)"
  unfolding expire_def by (cases "events_of l k"; cases "recent (lim_window l) now (the (events_of l k))") auto

lemma expire_bounds: "same_bounds l (snd (expire k now l))"
  by (rule expire_cases [of l k now]) (simp_all add: same_bounds_def)

lemma lim_ok_delete: "lim_ok l \<Longrightarrow> lim_ok (l\<lparr>lim_events := AList.delete k (lim_events l)\<rparr>)"
  using set_alist_delete [of k "lim_events l"] length_alist_delete [of k "lim_events l"]
  by (force simp: lim_ok_def distinct_delete)

lemma lim_ok_put:
  assumes "lim_ok l" and "es \<noteq> []" and "events_of l k \<noteq> None"
  shows "lim_ok (l\<lparr>lim_events := AList.update k es (lim_events l)\<rparr>)"
proof -
  have "\<forall>(x, xs) \<in> set (AList.update k es (lim_events l)). xs \<noteq> []"
    using set_alist_update [of k es "lim_events l"] assms(1,2) by (fastforce simp: lim_ok_def)
  then show ?thesis
    using assms(1) length_alist_update [OF assms(3)] by (simp add: lim_ok_def distinct_update)
qed

lemma lim_ok_new:
  assumes "lim_ok l" and "es \<noteq> []" and "int (length (lim_events l)) < lim_max_keys l"
  shows "lim_ok (l\<lparr>lim_events := AList.update k es (lim_events l)\<rparr>)"
proof -
  have "\<forall>(x, xs) \<in> set (AList.update k es (lim_events l)). xs \<noteq> []"
    using set_alist_update [of k es "lim_events l"] assms(1,2) by (fastforce simp: lim_ok_def)
  then show ?thesis
    using assms(1,3) length_alist_update_le [of k es "lim_events l"] by (simp add: lim_ok_def distinct_update)
qed

lemma expire_ok: "lim_ok l \<Longrightarrow> lim_ok (snd (expire k now l))"
  by (rule expire_cases [of l k now]) (auto intro: lim_ok_delete lim_ok_put)

lemma expire_length: "length (lim_events (snd (expire k now l))) \<le> length (lim_events l)"
  by (rule expire_cases [of l k now]) (auto simp: length_alist_delete length_alist_update)

lemma expire_all_ok: "lim_ok l \<Longrightarrow> lim_ok (expire_all ks now l)"
  by (induction ks now l rule: expire_all.induct) (auto intro: expire_ok)

lemma expire_all_bounds: "same_bounds l (expire_all ks now l)"
proof (induction ks now l rule: expire_all.induct)
  case (2 k ks now l)
  then show ?case using expire_bounds [of l k now] by (simp add: same_bounds_def)
qed (simp add: same_bounds_def)

lemma length_without:
  assumes "distinct (map fst (lim_events l))" and "set ks \<subseteq> fst ` set (lim_events l)" and "distinct ks"
  shows "length (lim_events (without ks l)) + length ks = length (lim_events l)"
proof -
  have "length (filter (\<lambda>(k, _). k \<notin> set ks) (lim_events l)) + length (filter (\<lambda>(k, _). k \<in> set ks) (lim_events l))
      = length (lim_events l)"
    using sum_length_filter_compl [of "\<lambda>(k, _). k \<in> set ks" "lim_events l"]
    by (simp add: case_prod_unfold)
  moreover have "length (filter (\<lambda>(k, _). k \<in> set ks) (lim_events l)) = length ks"
  proof -
    have dist: "distinct (map fst (filter (\<lambda>(k, _). k \<in> set ks) (lim_events l)))"
      using assms(1) by (rule distinct_map_filter)
    have "set (map fst (filter (\<lambda>(k, _). k \<in> set ks) (lim_events l))) = set ks"
      using assms(2) by force
    then show ?thesis using distinct_card [OF dist] distinct_card [OF assms(3)] by simp
  qed
  ultimately show ?thesis by (simp add: without_def)
qed

text \<open>Pruning makes room for one more key.\<close>

lemma prune_ok:
  assumes "lim_ok l"
  shows "lim_ok (prune now l) \<and> same_bounds l (prune now l)
    \<and> int (length (lim_events (prune now l))) < lim_max_keys l"
proof -
  let ?l = "expire_all (map fst (lim_events l)) now l"
  let ?over = "int (length (lim_events ?l)) - lim_max_keys ?l + 1"
  let ?victims = "map fst (take (nat ?over) (sort_key (\<lambda>(_, es). last es) (lim_events ?l)))"
  have ok: "lim_ok ?l" using assms by (rule expire_all_ok)
  have bounds: "same_bounds l ?l" by (rule expire_all_bounds)
  have max: "1 \<le> lim_max_keys l" using assms by (simp add: lim_ok_def)
  show ?thesis
  proof (cases "0 < ?over")
    case False
    then show ?thesis using ok bounds by (simp add: prune_def Let_def same_bounds_def)
  next
    case True
    have dist: "distinct (map fst (lim_events ?l))" using ok by (simp add: lim_ok_def)
    have vd: "distinct ?victims"
      by (rule distinct_map_take_sort [of fst]) (rule dist)
    have vs: "set ?victims \<subseteq> fst ` set (lim_events ?l)"
      by (force dest: in_set_takeD)
    have "length ?victims = nat ?over"
      using True bounds max by (simp add: same_bounds_def)
    then have "length (lim_events (without ?victims ?l)) + nat ?over = length (lim_events ?l)"
      using length_without [OF dist vs vd] by simp
    then have len: "int (length (lim_events (without ?victims ?l))) = lim_max_keys l - 1"
      using True bounds max by (simp add: same_bounds_def)
    have "lim_ok (without ?victims ?l)"
      using ok len bounds distinct_map_filter [OF dist]
      by (auto simp: lim_ok_def without_def same_bounds_def)
    then show ?thesis using True len bounds by (simp add: prune_def Let_def same_bounds_def without_def)
  qed
qed

lemma append_ok:
  assumes "lim_ok l"
  shows "lim_ok (append_event k now l) \<and> same_bounds l (append_event k now l)"
proof -
  obtain es l1 where e: "expire k now l = (es, l1)" by force
  have l1: "lim_ok l1" "same_bounds l l1"
    using expire_ok [OF assms, of k now] expire_bounds [of l k now] e by simp_all
  show ?thesis
  proof (cases es)
    case (Some xs)
    then have "events_of l1 k = Some xs"
      using e by (cases rule: expire_cases [of l k now]) (auto simp: update_conv')
    then show ?thesis using e Some l1 lim_ok_put [OF l1(1), of "xs @ [now]" k]
      by (simp add: append_event_def same_bounds_def)
  next
    case None
    let ?l2 = "if lim_max_keys l1 \<le> int (length (lim_events l1)) then prune now l1 else l1"
    have l2: "lim_ok ?l2" "same_bounds l1 ?l2" "int (length (lim_events ?l2)) < lim_max_keys l1"
      using l1(1) prune_ok [OF l1(1), of now] by (auto simp: same_bounds_def)
    have "lim_ok (?l2\<lparr>lim_events := AList.update k [now] (lim_events ?l2)\<rparr>)"
      by (rule lim_ok_new) (use l2 in \<open>simp_all add: same_bounds_def\<close>)
    moreover have "append_event k now l = ?l2\<lparr>lim_events := AList.update k [now] (lim_events ?l2)\<rparr>"
      using e None by (simp add: append_event_def Let_def)
    moreover have "same_bounds l (?l2\<lparr>lim_events := AList.update k [now] (lim_events ?l2)\<rparr>)"
      using l1(2) l2(2) by (simp add: same_bounds_def)
    ultimately show ?thesis by (simp only:)
  qed
qed

lemma attempt_ok: "lim_ok l \<Longrightarrow> lim_ok (snd (attempt_event k now l)) \<and> same_bounds l (snd (attempt_event k now l))"
  using expire_ok [of l k now] expire_bounds [of l k now] append_ok [of "snd (expire k now l)" k now]
  by (simp add: attempt_event_def case_prod_unfold Let_def same_bounds_def)

lemma cancel_ok: "lim_ok l \<Longrightarrow> lim_ok (cancel_event k l) \<and> same_bounds l (cancel_event k l)"
  by (auto simp: cancel_event_def same_bounds_def intro!: lim_ok_delete lim_ok_put split: option.split list.split)

lemma succeeded_ok: "lim_ok l \<Longrightarrow> lim_ok (succeeded k l) \<and> same_bounds l (succeeded k l)"
  by (simp add: succeeded_def same_bounds_def lim_ok_delete)

section \<open>The window\<close>

text \<open>The events stored for a key, none when the key is absent.\<close>

definition stored :: "limiter \<Rightarrow> string \<Rightarrow> instant list" where
  "stored l k = (case events_of l k of None \<Rightarrow> [] | Some es \<Rightarrow> es)"

lemma recent_Nil [simp]: "recent w now [] = []"
  by (simp add: recent_def)

lemma recent_idem [simp]: "recent w now (recent w now es) = recent w now es"
  by (induction es) (simp_all add: recent_def)

lemma expire_stored:
  assumes "lim_ok l"
  shows "stored (snd (expire k now l)) x = (if x = k then recent (lim_window l) now (stored l k) else stored l x)"
    and "fst (expire k now l) = (if recent (lim_window l) now (stored l k) = [] then None
           else Some (recent (lim_window l) now (stored l k)))"
  by (cases rule: expire_cases [of l k now]; simp add: stored_def update_conv' delete_conv')+

lemma expire_keys:
  "fst ` set (lim_events (snd (expire k now l))) \<subseteq> insert k (fst ` set (lim_events l))"
  using set_alist_delete [of k "lim_events l"]
  by (cases rule: expire_cases [of l k now]) (auto simp: dom_update dest: set_mp [OF set_alist_update])

text \<open>
  One attempt, when the memory bound does not bite: a key that is already there, or a
  limiter with room for one more.
\<close>

definition room :: "string \<Rightarrow> limiter \<Rightarrow> bool" where
  "room k l \<longleftrightarrow> events_of l k \<noteq> None \<or> int (length (lim_events l)) < lim_max_keys l"

lemma append_stored:
  assumes ok: "lim_ok l" and room: "room k l"
  shows "stored (append_event k now l) x
    = (if x = k then recent (lim_window l) now (stored l k) @ [now] else stored l x)"
    and "fst ` set (lim_events (append_event k now l)) \<subseteq> insert k (fst ` set (lim_events l))"
proof -
  obtain es l1 where e: "expire k now l = (es, l1)" by force
  note st = expire_stored [OF ok, of k now, unfolded e fst_conv snd_conv]
  have l1: "lim_ok l1" "same_bounds l l1"
    using expire_ok [OF ok, of k now] expire_bounds [of l k now] e by simp_all
  have no_prune: "int (length (lim_events l1)) < lim_max_keys l1" if "es = None"
    using room that e ok
    by (cases rule: expire_cases [of l k now])
      (fastforce simp: room_def lim_ok_def dest: map_of_SomeD length_alist_delete_less)+
  have "append_event k now l
      = l1\<lparr>lim_events := AList.update k (recent (lim_window l) now (stored l k) @ [now]) (lim_events l1)\<rparr>"
    using e st(2) no_prune by (auto simp: append_event_def Let_def split: if_splits)
  then show "stored (append_event k now l) x
      = (if x = k then recent (lim_window l) now (stored l k) @ [now] else stored l x)"
    and "fst ` set (lim_events (append_event k now l)) \<subseteq> insert k (fst ` set (lim_events l))"
    using st(1) [of x] expire_keys [of k now l] e
    by (auto simp: stored_def update_conv' dom_update split: if_splits)
qed

lemma attempt_stored:
  assumes ok: "lim_ok l" and room: "room k l" and "1 \<le> lim_limit l"
  shows "fst (attempt_event k now l) \<longleftrightarrow> int (length (recent (lim_window l) now (stored l k))) < lim_limit l"
    and "stored (snd (attempt_event k now l)) x = (if x \<noteq> k then stored l x
      else recent (lim_window l) now (stored l k) @ (if fst (attempt_event k now l) then [now] else []))"
    and "fst ` set (lim_events (snd (attempt_event k now l))) \<subseteq> insert k (fst ` set (lim_events l))"
proof -
  obtain es l1 where e: "expire k now l = (es, l1)" by force
  note st = expire_stored [OF ok, of k now, unfolded e fst_conv snd_conv]
  have l1: "lim_ok l1" "same_bounds l l1"
    using expire_ok [OF ok, of k now] expire_bounds [of l k now] e by simp_all
  have keys: "fst ` set (lim_events l1) \<subseteq> insert k (fst ` set (lim_events l))"
    using expire_keys [of k now l] e by simp
  have room1: "room k l1"
    using room e ok by (cases rule: expire_cases [of l k now])
      (fastforce simp: room_def lim_ok_def update_conv' dest: map_of_SomeD length_alist_delete_less)+
  have limit: "at_limit l1 es \<longleftrightarrow> lim_limit l \<le> int (length (recent (lim_window l) now (stored l k)))"
    using st(2) assms(3) l1(2) by (auto simp: at_limit_def same_bounds_def)
  have step: "attempt_event k now l = (if at_limit l1 es then (False, l1) else (True, append_event k now l1))"
    using e by (simp add: attempt_event_def)
  show "fst (attempt_event k now l) \<longleftrightarrow> int (length (recent (lim_window l) now (stored l k))) < lim_limit l"
    using step limit by auto
  show "stored (snd (attempt_event k now l)) x = (if x \<noteq> k then stored l x
      else recent (lim_window l) now (stored l k) @ (if fst (attempt_event k now l) then [now] else []))"
    using step st(1) append_stored(1) [OF l1(1) room1, of now x] l1(2)
    by (cases "x = k") (simp_all add: same_bounds_def)
  show "fst ` set (lim_events (snd (attempt_event k now l))) \<subseteq> insert k (fst ` set (lim_events l))"
  proof (cases "at_limit l1 es")
    case False
    have "fst ` set (lim_events (append_event k now l1)) \<subseteq> insert k (insert k (fst ` set (lim_events l)))"
      by (rule subset_trans [OF append_stored(2) [OF l1(1) room1, of now] insert_mono [OF keys]])
    then show ?thesis using step False by simp
  qed (use step keys in simp)
qed

text \<open>A run of attempts, each with its time and key; the answers in order.\<close>

fun attempts :: "(instant \<times> string) list \<Rightarrow> limiter \<Rightarrow> bool list \<times> limiter" where
  "attempts [] l = ([], l)"
| "attempts ((now, k) # rest) l =
     (let (b, l1) = attempt_event k now l; (bs, l2) = attempts rest l1 in (b # bs, l2))"

text \<open>The times at which a key was let through.\<close>

definition granted :: "string \<Rightarrow> (instant \<times> string) list \<Rightarrow> bool list \<Rightarrow> instant list" where
  "granted k ops bs = map (fst \<circ> fst) (filter (\<lambda>((_, k'), b). b \<and> k' = k) (zip ops bs))"

definition in_window :: "instant \<Rightarrow> int \<Rightarrow> instant list \<Rightarrow> instant list" where
  "in_window a w ts = filter (\<lambda>t. a \<le> t \<and> t \<le> a + w) ts"

text \<open>
  \<open>tracks l k t gs\<close>: of the times \<open>gs\<close> at which \<open>k\<close> was let through so far, those not
  stored any more are outside the window at \<open>t\<close>, and no window holds more than the limit.
\<close>

definition tracks :: "limiter \<Rightarrow> string \<Rightarrow> instant \<Rightarrow> instant list \<Rightarrow> bool" where
  "tracks l k t gs \<longleftrightarrow> (\<exists>old. gs = old @ stored l k \<and> (\<forall>e \<in> set old. lim_window l < t - e))
     \<and> (\<forall>a. int (length (in_window a (lim_window l) gs)) \<le> lim_limit l)"

lemma recent_split:
  obtains pre where "es = pre @ recent w now es" and "\<forall>e \<in> set pre. w < now - e"
proof (rule that [of "takeWhile (\<lambda>e. w < now - e) es"])
  show "es = takeWhile (\<lambda>e. w < now - e) es @ recent w now es" by (simp add: recent_def)
  show "\<forall>e \<in> set (takeWhile (\<lambda>e. w < now - e) es). w < now - e" by (meson set_takeWhileD)
qed

lemma in_window_granted:
  assumes "\<forall>e \<in> set old. w < now - e" and "int (length es) < limit"
    and "\<forall>a. int (length (in_window a w (old @ es))) \<le> limit"
  shows "int (length (in_window a w (old @ es @ [now]))) \<le> limit"
proof (cases "a \<le> now \<and> now \<le> a + w")
  case False
  then show ?thesis using assms(3) [rule_format, of a] by (auto simp: in_window_def)
next
  case True
  then have "in_window a w old = []" using assms(1) by (fastforce simp: in_window_def filter_empty_conv)
  moreover have "int (length (in_window a w es)) \<le> int (length es)" by (simp add: in_window_def)
  moreover have "length (in_window a w (old @ es @ [now])) = length (in_window a w old) + length (in_window a w es) + 1"
    using True by (simp add: in_window_def)
  ultimately show ?thesis using assms(2) by simp
qed

lemma attempt_tracks:
  assumes ok: "lim_ok l" and room: "room k' l" and limit: "1 \<le> lim_limit l"
    and tr: "tracks l k t gs" and later: "t \<le> now"
  shows "tracks (snd (attempt_event k' now l)) k now
    (gs @ (if fst (attempt_event k' now l) \<and> k' = k then [now] else []))"
proof -
  let ?l = "snd (attempt_event k' now l)"
  let ?b = "fst (attempt_event k' now l)"
  have bounds: "lim_window ?l = lim_window l" "lim_limit ?l = lim_limit l"
    using attempt_ok [OF ok, of k' now] by (simp_all add: same_bounds_def)
  obtain old where old: "gs = old @ stored l k" "\<forall>e \<in> set old. lim_window l < t - e"
    and few: "\<forall>a. int (length (in_window a (lim_window l) gs)) \<le> lim_limit l"
    using tr by (auto simp: tracks_def)
  have aged: "\<forall>e \<in> set old. lim_window l < now - e" using old(2) later by force
  show ?thesis
  proof (cases "k' = k")
    case False
    then have "stored ?l k = stored l k" using attempt_stored(2) [OF ok room limit, of now k] by simp
    then show ?thesis using False old(1) aged few bounds by (auto simp: tracks_def)
  next
    case True
    let ?es = "recent (lim_window l) now (stored l k)"
    obtain pre where pre: "stored l k = pre @ ?es" "\<forall>e \<in> set pre. lim_window l < now - e"
      by (rule recent_split)
    have st: "stored ?l k = ?es @ (if ?b then [now] else [])"
      using attempt_stored(2) [OF ok room limit, of now k] True by simp
    have gone: "\<forall>e \<in> set (old @ pre). lim_window l < now - e" using aged pre(2) by auto
    have gs: "gs = (old @ pre) @ ?es" using old(1) pre(1) by simp
    have "int (length (in_window a (lim_window l) (gs @ (if ?b then [now] else [])))) \<le> lim_limit l" for a
    proof (cases ?b)
      case False
      then show ?thesis using few by simp
    next
      case b: True
      then have "int (length ?es) < lim_limit l" using attempt_stored(1) [OF ok room limit, of now] True by simp
      then show ?thesis using in_window_granted [OF gone, of ?es "lim_limit l" a] few gs b by simp
    qed
    then show ?thesis unfolding tracks_def using True gone gs st bounds by (auto intro!: exI [of _ "old @ pre"])
  qed
qed

lemma attempts_tracks:
  assumes "lim_ok l" and "1 \<le> lim_limit l" and "tracks l k t gs"
    and "sorted (t # map fst ops)" and "finite K"
    and "fst ` set (lim_events l) \<subseteq> K" and "snd ` set ops \<subseteq> K" and "int (card K) \<le> lim_max_keys l"
  shows "\<forall>a. int (length (in_window a (lim_window l) (gs @ granted k ops (fst (attempts ops l))))) \<le> lim_limit l"
  using assms
proof (induction ops arbitrary: l t gs)
  case Nil
  then show ?case by (auto simp: granted_def tracks_def)
next
  case (Cons op ops)
  obtain now k' where op: "op = (now, k')" by force
  let ?l = "snd (attempt_event k' now l)"
  have room: "room k' l"
  proof (cases "events_of l k' = None")
    case True
    then have "k' \<notin> fst ` set (lim_events l)" by (simp add: map_of_eq_None_iff)
    then have "fst ` set (lim_events l) \<subset> K" using Cons.prems(6,7) op by auto
    then have "card (fst ` set (lim_events l)) < card K" using Cons.prems(5) by (simp add: psubset_card_mono)
    moreover have "card (fst ` set (lim_events l)) = length (lim_events l)"
      using Cons.prems(1) distinct_card [of "map fst (lim_events l)"] by (simp add: lim_ok_def)
    ultimately show ?thesis using Cons.prems(8) by (simp add: room_def)
  qed (simp add: room_def)
  have ok: "lim_ok ?l" "lim_limit ?l = lim_limit l" "lim_window ?l = lim_window l" "lim_max_keys ?l = lim_max_keys l"
    using attempt_ok [OF Cons.prems(1), of k' now] by (simp_all add: same_bounds_def)
  have tr: "tracks ?l k now (gs @ (if fst (attempt_event k' now l) \<and> k' = k then [now] else []))"
    by (rule attempt_tracks [OF Cons.prems(1) room Cons.prems(2,3)]) (use Cons.prems(4) op in simp)
  have keys: "fst ` set (lim_events ?l) \<subseteq> K"
    using attempt_stored(3) [OF Cons.prems(1) room Cons.prems(2), of now] Cons.prems(6,7) op by auto
  have "\<forall>a. int (length (in_window a (lim_window ?l)
      ((gs @ (if fst (attempt_event k' now l) \<and> k' = k then [now] else []))
        @ granted k ops (fst (attempts ops ?l))))) \<le> lim_limit ?l"
    by (rule Cons.IH [OF ok(1) _ tr _ Cons.prems(5) keys]) (use Cons.prems ok op in auto)
  moreover have "granted k (op # ops) (fst (attempts (op # ops) l))
      = (if fst (attempt_event k' now l) \<and> k' = k then [now] else []) @ granted k ops (fst (attempts ops ?l))"
    by (auto simp: op granted_def case_prod_unfold Let_def)
  ultimately show ?case using ok by simp
qed

section \<open>Properties\<close>

text \<open>
  The sliding window: from an empty limiter, whatever keys are tried and when, no
  interval of the window's length (its two ends included) holds more than the limit of
  attempts let through for one key, as long as the keys tried fit the memory bound.
\<close>

theorem attempts_bounded:
  assumes "1 \<le> limit" and "1 \<le> max_keys" and "sorted (map fst ops)"
    and "int (card (snd ` set ops)) \<le> max_keys"
  shows "int (length (in_window a window
      (granted k ops (fst (attempts ops (new_limiter limit window max_keys)))))) \<le> limit"
proof (cases ops)
  case Nil
  then show ?thesis using assms(1) by (simp add: granted_def in_window_def)
next
  case (Cons op rest)
  let ?l = "new_limiter limit window max_keys"
  have l: "lim_ok ?l" "1 \<le> lim_limit ?l" "tracks ?l k (fst op) []" "lim_window ?l = window" "lim_limit ?l = limit"
    "lim_max_keys ?l = max_keys" "lim_events ?l = []"
    using assms(1,2) by (simp_all add: new_limiter_def lim_ok_def tracks_def stored_def in_window_def)
  have sorted: "sorted (fst op # map fst ops)" using assms(3) Cons by simp
  show ?thesis
    using attempts_tracks [OF l(1-3) sorted, of "snd ` set ops"] l assms(4) by simp
qed

lemma attempts_bounded_witness:
  "length (in_window 0 10 (granted ''k'' [(1, ''k''), (2, ''k''), (3, ''j''), (4, ''k'')]
     (fst (attempts [(1, ''k''), (2, ''k''), (3, ''j''), (4, ''k'')] (new_limiter 2 10 5))))) \<le> 2"
  using attempts_bounded [of 2 5 "[(1, ''k''), (2, ''k''), (3, ''j''), (4, ''k'')]" 0 10 "''k''"]
  by (simp add: card_insert_if)

text \<open>
  Memory stays bounded: whatever is recorded, attempted, cancelled or cleared, a
  limiter never holds more than \<open>max_keys\<close> keys, each with at least one event.
\<close>

theorem limiter_memory_bounded:
  assumes "lim_ok l"
  shows "lim_ok (limiter_record k now l) \<and> lim_ok (snd (attempt_event k now l)) \<and> lim_ok (snd (blocked k now l))
    \<and> lim_ok (cancel_event k l) \<and> lim_ok (succeeded k l)
    \<and> limiter_len (limiter_record k now l) \<le> lim_max_keys l
    \<and> limiter_len (snd (attempt_event k now l)) \<le> lim_max_keys l"
proof -
  have "lim_ok (snd (blocked k now l))"
    using expire_ok [OF assms] by (simp add: blocked_def case_prod_unfold Let_def)
  moreover have "lim_ok (limiter_record k now l) \<and> lim_max_keys (limiter_record k now l) = lim_max_keys l"
    using append_ok [OF assms] by (simp add: limiter_record_def same_bounds_def)
  moreover have "lim_ok (snd (attempt_event k now l)) \<and> lim_max_keys (snd (attempt_event k now l)) = lim_max_keys l"
    using attempt_ok [OF assms] by (simp add: same_bounds_def)
  ultimately show ?thesis
    using cancel_ok [OF assms] succeeded_ok [OF assms] by (auto simp: limiter_len_def lim_ok_def)
qed

lemma limiter_memory_bounded_witness:
  "limiter_len (limiter_record ''c'' 3 (limiter_record ''b'' 2 (limiter_record ''a'' 1 (new_limiter 1 10 2)))) \<le> 2"
proof -
  have "lim_ok (new_limiter 1 10 2)" by (simp add: lim_ok_def new_limiter_def)
  then have "lim_ok (limiter_record ''b'' 2 (limiter_record ''a'' 1 (new_limiter 1 10 2)))"
    by (simp add: limiter_record_def append_ok)
  moreover have "lim_max_keys (limiter_record ''b'' 2 (limiter_record ''a'' 1 (new_limiter 1 10 2))) = 2"
    by (simp add: limiter_record_def append_event_def expire_def new_limiter_def)
  ultimately show ?thesis using limiter_memory_bounded [of _ "''c''" 3] by metis
qed

end
