(* ===== verification/Otp.thy ===== *)
theory Otp
  imports Stores Limiter
begin

text \<open>
  One-time codes by SMS: \<open>app/accounts/otp.py\<close> (\<open>OtpChallenge\<close>, \<open>OtpService\<close>) and
  \<open>app/accounts/phone.py\<close> (mobile numbers written one way). The service is a client of the
  repository protocol and of three \<open>AttemptLimiter\<close>s.

  Text a person types is a list of code points. The hash of a code, the random number and
  salt of a new code, the key an address is counted under and the answer of the SMS gateway
  are arguments; \<open>now\<close> is the service's clock and \<open>tick\<close> the limiters' monotonic one.
\<close>

section \<open>Mobile numbers\<close>

type_synonym typed = "nat list"

definition to_ascii_digit :: "nat \<Rightarrow> nat" where
  "to_ascii_digit n =
     (if 0x06F0 \<le> n \<and> n \<le> 0x06F9 then n - 0x06F0 + 48
      else if 0x0660 \<le> n \<and> n \<le> 0x0669 then n - 0x0660 + 48 else n)"

definition to_ascii_digits :: "typed \<Rightarrow> typed" where
  "to_ascii_digits t = map to_ascii_digit t"

definition ascii_digit :: "nat \<Rightarrow> bool" where
  "ascii_digit n \<longleftrightarrow> 48 \<le> n \<and> n \<le> 57"

text \<open>What \<open>[\s\-()]\<close> matches.\<close>

definition punctuation :: "nat \<Rightarrow> bool" where
  "punctuation n \<longleftrightarrow> (9 \<le> n \<and> n \<le> 13) \<or> (28 \<le> n \<and> n \<le> 32) \<or> n = 0x85 \<or> n = 0xA0 \<or> n = 0x1680
     \<or> (0x2000 \<le> n \<and> n \<le> 0x200A) \<or> n = 0x2028 \<or> n = 0x2029 \<or> n = 0x202F \<or> n = 0x205F \<or> n = 0x3000
     \<or> n = 45 \<or> n = 40 \<or> n = 41"

abbreviation codes :: "string \<Rightarrow> typed" where
  "codes s \<equiv> map of_char s"

definition starts_with :: "string \<Rightarrow> typed \<Rightarrow> bool" where
  "starts_with p t \<longleftrightarrow> take (length p) t = codes p"

definition is_mobile :: "typed \<Rightarrow> bool" where
  "is_mobile t \<longleftrightarrow> length t = 11 \<and> starts_with ''09'' t \<and> (\<forall>n \<in> set t. ascii_digit n)"

definition normalize_mobile :: "typed \<Rightarrow> typed option" where
  "normalize_mobile t =
     (if t = [] then None
      else let d = filter (\<lambda>n. \<not> punctuation n) (to_ascii_digits t);
               d = (if starts_with ''+'' d then drop 1 d else d);
               d = (if starts_with ''0098'' d then codes ''0'' @ drop 4 d
                    else if starts_with ''98'' d \<and> length d = 12 then codes ''0'' @ drop 2 d
                    else if starts_with ''9'' d \<and> length d = 10 then codes ''0'' @ d
                    else d)
           in if is_mobile d then Some d else None)"

lemma to_ascii_digits_ascii: "\<forall>n \<in> set t. ascii_digit n \<Longrightarrow> to_ascii_digits t = t"
  by (induction t) (auto simp: to_ascii_digits_def to_ascii_digit_def ascii_digit_def)

lemma no_punctuation: "\<forall>n \<in> set t. ascii_digit n \<Longrightarrow> filter (\<lambda>n. \<not> punctuation n) t = t"
  by (rule filter_True) (auto simp: punctuation_def ascii_digit_def)

lemma normalize_normal:
  assumes "is_mobile d"
  shows "normalize_mobile d = Some d"
proof -
  obtain x where d: "d = 48 # 57 # x" and x: "length x = 9" "\<forall>n \<in> set x. ascii_digit n"
  proof -
    obtain a b x where "d = a # b # x" using assms by (auto simp: is_mobile_def numeral_eq_Suc length_Suc_conv)
    then show thesis using that assms by (auto simp: is_mobile_def starts_with_def)
  qed
  have "\<forall>n \<in> set d. ascii_digit n" using x d by (simp add: ascii_digit_def)
  then have "filter (\<lambda>n. \<not> punctuation n) (to_ascii_digits d) = d"
    using no_punctuation to_ascii_digits_ascii by simp
  then show ?thesis using assms x unfolding normalize_mobile_def d by (simp add: Let_def starts_with_def)
qed

section \<open>The service\<close>

record challenge =
  otp_mobile :: string
  otp_salt :: string
  otp_code_hash :: string
  otp_expires_at :: instant
  otp_tries :: int
  otp_used :: bool
  otp_sent :: "instant list"

abbreviation otp_kind :: string where "otp_kind \<equiv> ''otp_challenge''"
abbreviation code_lifetime :: int where "code_lifetime \<equiv> minutes 2"
abbreviation resend_after :: int where "resend_after \<equiv> seconds 60"
abbreviation codes_per_day :: int where "codes_per_day \<equiv> 5"
abbreviation tries_per_code :: int where "tries_per_code \<equiv> 5"
abbreviation signup_form_time :: int where "signup_form_time \<equiv> minutes 10"
abbreviation sms_per_hour :: int where "sms_per_hour \<equiv> 300"

record 's otp_state =
  otp_repo :: 's
  otp_per_address :: limiter
  otp_checks :: limiter
  otp_all :: limiter
  otp_outbox :: "(instant \<times> string \<times> string) list"

definition new_otp_state :: "'s \<Rightarrow> 's otp_state" where
  "new_otp_state repo = \<lparr>otp_repo = repo,
     otp_per_address = new_limiter 10 (seconds 3600) 10000,
     otp_checks = new_limiter 30 (seconds 3600) 10000,
     otp_all = new_limiter sms_per_hour (seconds 3600) 10000, otp_outbox = []\<rparr>"

definition otp_read ::
  "('s, 'p) repository_ops \<Rightarrow> (challenge, 'p) codec \<Rightarrow> string \<Rightarrow> 's \<Rightarrow> exn + challenge option \<times> int" where
  "otp_read R c mobile repo = (case repo_get R repo otp_kind mobile of
     None \<Rightarrow> Inr (None, 0)
   | Some r \<Rightarrow> and_maybe (restore c (pr_payload r)) (\<lambda>ch. Inr (Some ch, pr_version r)))"

definition otp_save ::
  "('s, 'p) repository_ops \<Rightarrow> (challenge, 'p) codec \<Rightarrow> instant \<Rightarrow> challenge \<Rightarrow> int
   \<Rightarrow> ('s otp_state, unit) prog" where
  "otp_save R c now ch v =
     andthen (of_result (new_precord (rid otp_kind (otp_mobile ch) (v + 1)) otp_kind (otp_mobile ch) 1 (v + 1)
                (model_dump c ch) now None None)) (\<lambda>r.
     updates (\<lambda>s. and_maybe
       (if v \<noteq> 0 then repo_replace R (otp_repo s) r v else repo_create R (otp_repo s) r)
       (\<lambda>repo. Inr (s\<lparr>otp_repo := repo\<rparr>))))"

text \<open>\<open>f"{secrets.randbelow(1_000_000):06d}"\<close> for the number drawn.\<close>

definition six_digits :: "nat \<Rightarrow> string" where
  "six_digits n = (let d = show_nat n in replicate (6 - length d) CHR ''0'' @ d)"

definition too_soon :: "int \<Rightarrow> exn" where
  "too_soon wait = Exn (OtpTooSoon wait) ''A code was sent a moment ago.''"

text \<open>What is left of \<open>send\<close> once the number's challenge has been read.\<close>

definition otp_send_from ::
  "('s, 'p) repository_ops \<Rightarrow> (challenge, 'p) codec \<Rightarrow> (string \<Rightarrow> string \<Rightarrow> string)
   \<Rightarrow> (string \<Rightarrow> string \<Rightarrow> exn + unit) \<Rightarrow> nat \<Rightarrow> string \<Rightarrow> instant \<Rightarrow> instant \<Rightarrow> string \<Rightarrow> string
   \<Rightarrow> challenge option \<times> int \<Rightarrow> ('s otp_state, unit) prog" where
  "otp_send_from R c h sender n salt now tick mobile addr cv = (\<lambda>s.
     let (current, version) = cv;
         sent = filter (\<lambda>m. now - m < days 1) (case current of None \<Rightarrow> [] | Some ch \<Rightarrow> otp_sent ch)
     in if sent \<noteq> [] \<and> now - last sent < resend_after
        then (Inl (too_soon ((resend_after - (now - last sent)) div seconds 1 + 1)), s)
        else if codes_per_day \<le> int (length sent)
        then (Inl (Exn OtpError ''Too many codes sent to this number today.''), s)
        else
          let (allowed, per_address) = attempt_event addr tick (otp_per_address s);
              s = s\<lparr>otp_per_address := per_address\<rparr>
          in if \<not> allowed then (Inl (Exn OtpError ''Too many codes requested. Try again later.''), s)
          else
            let (allowed, all_sms) = attempt_event ''all'' tick (otp_all s);
                s = s\<lparr>otp_all := all_sms\<rparr>
            in if \<not> allowed then (Inl (Exn OtpError ''Too many codes requested. Try again later.''), s)
            else
              let code = six_digits n;
                  ch = \<lparr>otp_mobile = mobile, otp_salt = salt, otp_code_hash = h salt code,
                        otp_expires_at = now + code_lifetime, otp_tries = 0, otp_used = False,
                        otp_sent = sent @ [now]\<rparr>
              in case otp_save R c now ch version s of
                   (Inl e, s) \<Rightarrow> (Inl (if is_conflict e then too_soon (resend_after div seconds 1) else e), s)
                 | (Inr _, s) \<Rightarrow>
                     (case sender mobile code of
                        Inl e \<Rightarrow>
                          (Inl (if exn_class e = SmsError
                                then Exn OtpError ''The code could not be sent. Try again in a few minutes.''
                                else e), s)
                      | Inr _ \<Rightarrow> (Inr (), s\<lparr>otp_outbox := otp_outbox s @ [(now, mobile, code)]\<rparr>)))"

definition otp_send ::
  "('s, 'p) repository_ops \<Rightarrow> (challenge, 'p) codec \<Rightarrow> (string \<Rightarrow> string \<Rightarrow> string)
   \<Rightarrow> (string \<Rightarrow> string \<Rightarrow> exn + unit) \<Rightarrow> nat \<Rightarrow> string \<Rightarrow> instant \<Rightarrow> instant \<Rightarrow> string \<Rightarrow> string
   \<Rightarrow> ('s otp_state, unit) prog" where
  "otp_send R c h sender n salt now tick mobile addr =
     andthen (\<lambda>s. (otp_read R c mobile (otp_repo s), s))
       (otp_send_from R c h sender n salt now tick mobile addr)"

text \<open>The digits of what was typed, at most six.\<close>

definition given_digits :: "typed \<Rightarrow> string" where
  "given_digits t = map char_of (take 6 (filter ascii_digit (to_ascii_digits t)))"

definition otp_check_from ::
  "('s, 'p) repository_ops \<Rightarrow> (challenge, 'p) codec \<Rightarrow> (string \<Rightarrow> string \<Rightarrow> string) \<Rightarrow> instant \<Rightarrow> typed
   \<Rightarrow> bool \<Rightarrow> challenge option \<times> int \<Rightarrow> ('s otp_state, bool) prog" where
  "otp_check_from R c h now code consume cv = (\<lambda>s.
     case fst cv of
       None \<Rightarrow> (Inr False, s)
     | Some ch \<Rightarrow>
         let version = snd cv in
         if otp_used ch \<or> otp_expires_at ch \<le> now \<or> tries_per_code \<le> otp_tries ch then (Inr False, s)
         else case otp_save R c now (ch\<lparr>otp_tries := otp_tries ch + 1\<rparr>) version s of
             (Inl e, s) \<Rightarrow> (if is_conflict e then Inr False else Inl e, s)
           | (Inr _, s) \<Rightarrow>
               if h (otp_salt ch) (given_digits code) \<noteq> otp_code_hash ch then (Inr False, s)
               else
                 let ch' = (if consume then ch\<lparr>otp_tries := otp_tries ch + 1, otp_used := True\<rparr>
                            else ch\<lparr>otp_tries := otp_tries ch + 1,
                                    otp_expires_at := max (otp_expires_at ch) (now + signup_form_time)\<rparr>)
                 in case otp_save R c now ch' (version + 1) s of
                      (Inl e, s) \<Rightarrow> (if is_conflict e then Inr False else Inl e, s)
                    | (Inr _, s) \<Rightarrow> (Inr True, s))"

definition otp_check ::
  "('s, 'p) repository_ops \<Rightarrow> (challenge, 'p) codec \<Rightarrow> (string \<Rightarrow> string \<Rightarrow> string) \<Rightarrow> instant \<Rightarrow> instant
   \<Rightarrow> string \<Rightarrow> typed \<Rightarrow> string \<Rightarrow> bool \<Rightarrow> ('s otp_state, bool) prog" where
  "otp_check R c h now tick mobile code addr consume = (\<lambda>s.
     let (allowed, checks) = attempt_event addr tick (otp_checks s);
         s = s\<lparr>otp_checks := checks\<rparr>
     in if \<not> allowed then (Inl (Exn OtpError ''Too many tries. Try again later.''), s)
        else andthen (\<lambda>s. (otp_read R c mobile (otp_repo s), s))
               (otp_check_from R c h now code consume) s)"

section \<open>The store of challenges\<close>

definition otp_good :: "string \<Rightarrow> string option \<Rightarrow> challenge \<Rightarrow> bool" where
  "otp_good i tenant ch \<longleftrightarrow> otp_mobile ch = i \<and> tenant = None \<and> i \<noteq> []"

definition otp_ok ::
  "('s, 'p) repository_ops \<Rightarrow> ('s \<Rightarrow> bool) \<Rightarrow> ('s \<Rightarrow> string \<Rightarrow> (string \<times> string \<times> int) option)
   \<Rightarrow> (challenge, 'p) codec \<Rightarrow> 's otp_state \<Rightarrow> bool" where
  "otp_ok R ok owner c s \<longleftrightarrow> store_ok R ok owner otp_kind otp_kind c otp_good (otp_repo s)"

definition challenges ::
  "('s, 'p) repository_ops \<Rightarrow> (challenge, 'p) codec \<Rightarrow> 's otp_state \<Rightarrow> string \<Rightarrow> challenge option" where
  "challenges R c s = model_of R otp_kind c (otp_repo s)"

abbreviation otp_version :: "('s, 'p) repository_ops \<Rightarrow> 's otp_state \<Rightarrow> string \<Rightarrow> int" where
  "otp_version R s \<equiv> version_of R otp_kind (otp_repo s)"

text \<open>A challenge a code can still be checked against, and what one try makes of it.\<close>

definition live :: "instant \<Rightarrow> challenge \<Rightarrow> bool" where
  "live now ch \<longleftrightarrow> \<not> otp_used ch \<and> now < otp_expires_at ch \<and> otp_tries ch < tries_per_code"

definition right_code :: "(string \<Rightarrow> string \<Rightarrow> string) \<Rightarrow> typed \<Rightarrow> challenge \<Rightarrow> bool" where
  "right_code h code ch \<longleftrightarrow> h (otp_salt ch) (given_digits code) = otp_code_hash ch"

definition tried :: "instant \<Rightarrow> bool \<Rightarrow> bool \<Rightarrow> challenge \<Rightarrow> challenge" where
  "tried now right consume ch =
     (if \<not> right then ch\<lparr>otp_tries := otp_tries ch + 1\<rparr>
      else if consume then ch\<lparr>otp_tries := otp_tries ch + 1, otp_used := True\<rparr>
      else ch\<lparr>otp_tries := otp_tries ch + 1, otp_expires_at := max (otp_expires_at ch) (now + signup_form_time)\<rparr>)"

lemma tried_simps [simp]:
  "otp_mobile (tried now right consume ch) = otp_mobile ch"
  "otp_salt (tried now right consume ch) = otp_salt ch"
  "otp_code_hash (tried now right consume ch) = otp_code_hash ch"
  "otp_tries (tried now right consume ch) = otp_tries ch + 1"
  "otp_sent (tried now right consume ch) = otp_sent ch"
  "otp_used (tried now right consume ch) \<longleftrightarrow> otp_used ch \<or> (right \<and> consume)"
  by (auto simp: tried_def)

text \<open>The moments a number's challenge says codes went to it, and those of the last day.\<close>

definition sent_of ::
  "('s, 'p) repository_ops \<Rightarrow> (challenge, 'p) codec \<Rightarrow> 's otp_state \<Rightarrow> string \<Rightarrow> instant list" where
  "sent_of R c s m = (case challenges R c s m of None \<Rightarrow> [] | Some ch \<Rightarrow> otp_sent ch)"

definition last_day :: "instant \<Rightarrow> instant list \<Rightarrow> instant list" where
  "last_day now es = filter (\<lambda>m. now - m < days 1) es"

text \<open>When codes were handed to the gateway for a number.\<close>

definition texted :: "'s otp_state \<Rightarrow> string \<Rightarrow> instant list" where
  "texted s m = map fst (filter (\<lambda>(_, m', _). m' = m) (otp_outbox s))"

text \<open>A run of requests: codes asked for and codes typed, each with its time.\<close>

datatype otp_request =
    Send (request_time: instant) (request_tick: instant) (req_drawn: nat) (req_salt: string) (req_number: string) (req_source: string)
  | Check (request_time: instant) (request_tick: instant) (req_number: string) (req_entry: typed) (req_source: string) (req_consume: bool)

fun otp_step ::
  "('s, 'p) repository_ops \<Rightarrow> (challenge, 'p) codec \<Rightarrow> (string \<Rightarrow> string \<Rightarrow> string)
   \<Rightarrow> (string \<Rightarrow> string \<Rightarrow> exn + unit) \<Rightarrow> otp_request \<Rightarrow> 's otp_state \<Rightarrow> 's otp_state" where
  "otp_step R c h sender (Send now tick n salt m addr) s = snd (otp_send R c h sender n salt now tick m addr s)"
| "otp_step R c h sender (Check now tick m code addr consume) s = snd (otp_check R c h now tick m code addr consume s)"

fun otp_run ::
  "('s, 'p) repository_ops \<Rightarrow> (challenge, 'p) codec \<Rightarrow> (string \<Rightarrow> string \<Rightarrow> string)
   \<Rightarrow> (string \<Rightarrow> string \<Rightarrow> exn + unit) \<Rightarrow> otp_request list \<Rightarrow> 's otp_state \<Rightarrow> 's otp_state" where
  "otp_run R c h sender [] s = s"
| "otp_run R c h sender (q # qs) s = otp_run R c h sender qs (otp_step R c h sender q s)"

text \<open>
  \<open>paced s m t hs\<close>: \<open>hs\<close> are the times at which codes for \<open>m\<close> were saved, up to \<open>t\<close>. The
  challenge still lists those of the last day, no two are closer than the wait, no day
  holds more than five, and the gateway was only called at some of them.
\<close>

definition day_count :: "instant \<Rightarrow> instant list \<Rightarrow> int" where
  "day_count a es = int (length (filter (\<lambda>e. a \<le> e \<and> e < a + days 1) es))"

definition paced :: "instant list \<Rightarrow> instant list \<Rightarrow> instant \<Rightarrow> instant list \<Rightarrow> bool" where
  "paced sent out t hs \<longleftrightarrow> last_day t hs = last_day t sent \<and> (\<forall>e \<in> set hs. e \<le> t)
     \<and> sorted_wrt (\<lambda>x y. x + resend_after \<le> y) hs \<and> (\<forall>a. day_count a hs \<le> codes_per_day) \<and> subseq out hs"

lemma last_day_later: "t \<le> now \<Longrightarrow> last_day now (last_day t es) = last_day now es"
  unfolding last_day_def by (simp, rule filter_cong) auto

lemma paced_later:
  assumes "paced sent out t hs" and "t \<le> now"
  shows "paced sent out now hs"
proof -
  have "last_day now hs = last_day now sent"
    using assms last_day_later [OF assms(2), of hs] last_day_later [OF assms(2), of sent] by (simp add: paced_def)
  then show ?thesis using assms by (force simp: paced_def)
qed

lemma last_ge_all: "sorted es \<Longrightarrow> e \<in> set es \<Longrightarrow> e \<le> last (es :: int list)"
  by (induction es) auto

lemma paced_send:
  assumes p: "paced sent out t hs" and later: "t \<le> now"
    and gap: "\<not> (last_day now sent \<noteq> [] \<and> now - last (last_day now sent) < resend_after)"
    and few: "int (length (last_day now sent)) < codes_per_day"
    and out': "out' = out \<or> out' = out @ [now]"
  shows "paced (last_day now sent @ [now]) out' now (hs @ [now])"
proof -
  note q = paced_later [OF p later]
  then have day: "last_day now hs = last_day now sent" by (simp add: paced_def)
  have "sorted_wrt (\<lambda>x y. x + resend_after \<le> y) hs" using q by (simp add: paced_def)
  then have "sorted_wrt (\<le>) hs" by (rule sorted_wrt_mono_rel [rotated]) simp
  then have sorted: "sorted (last_day now hs)" unfolding last_day_def by (rule sorted_wrt_filter)
  have far: "e + resend_after \<le> now" if e: "e \<in> set hs" for e
  proof (cases "now - e < days 1")
    case False
    then show ?thesis by simp
  next
    case True
    then have "e \<in> set (last_day now hs)" using e by (simp add: last_day_def)
    then have "e \<le> last (last_day now sent)" "last_day now sent \<noteq> []"
      using last_ge_all [OF sorted] day by auto
    then show ?thesis using gap by simp
  qed
  have "day_count a (hs @ [now]) \<le> codes_per_day" for a
  proof (cases "a \<le> now \<and> now < a + days 1")
    case False
    then show ?thesis using q by (auto simp: paced_def day_count_def)
  next
    case True
    have "filter (\<lambda>e. a \<le> e \<and> e < a + days 1) hs = filter (\<lambda>e. a \<le> e \<and> e < a + days 1) (last_day now hs)"
      unfolding last_day_def using True by (simp, intro filter_cong) auto
    then have "length (filter (\<lambda>e. a \<le> e \<and> e < a + days 1) hs) \<le> length (last_day now sent)"
      using day by simp
    then show ?thesis using few True by (simp add: day_count_def)
  qed
  moreover have "last_day now (hs @ [now]) = last_day now (last_day now sent @ [now])"
    using day by (simp add: last_day_def)
  moreover have "subseq out' (hs @ [now])"
    using q out' by (auto simp: paced_def intro: list_emb_append_mono list_emb_append2)
  ultimately show ?thesis
    using q far by (auto simp: paced_def sorted_wrt_append)
qed

lemma sent_of_tried:
  "challenges R c s m = Some ch \<Longrightarrow> challenges R c s' = (challenges R c s)(m \<mapsto> tried now b k ch) \<Longrightarrow>
    sent_of R c s' m' = sent_of R c s m'"
  by (auto simp: sent_of_def)

text \<open>Codes typed for one number, one after the other, and what each was answered.\<close>

datatype guess = Guess (guess_time: instant) (guess_tick: instant) (guess_entry: typed) (guess_source: string) (guess_consume: bool)

fun otp_answers ::
  "('s, 'p) repository_ops \<Rightarrow> (challenge, 'p) codec \<Rightarrow> (string \<Rightarrow> string \<Rightarrow> string) \<Rightarrow> string \<Rightarrow> guess list
   \<Rightarrow> 's otp_state \<Rightarrow> (typed \<times> (exn + bool)) list" where
  "otp_answers R c h m [] s = []"
| "otp_answers R c h m (Guess now tick code addr consume # gs) s =
     (let (r, s') = otp_check R c h now tick m code addr consume s
      in (code, r) # otp_answers R c h m gs s')"

text \<open>The answers that were given: the others were refused before anything was read.\<close>

definition answered :: "(typed \<times> (exn + bool)) list \<Rightarrow> (typed \<times> (exn + bool)) list" where
  "answered as = filter (\<lambda>(_, r). case r of Inl _ \<Rightarrow> False | Inr _ \<Rightarrow> True) as"

lemma answered_simps [simp]:
  "answered [] = []"
  "answered ((code, Inl e) # as) = answered as"
  "answered ((code, Inr b) # as) = (code, Inr b) # answered as"
  by (simp_all add: answered_def)

definition spent :: "instant \<Rightarrow> challenge \<Rightarrow> bool" where
  "spent t ch \<longleftrightarrow> otp_used ch \<or> otp_expires_at ch \<le> t \<or> tries_per_code \<le> otp_tries ch"

lemma spent_not_live: "spent t ch \<Longrightarrow> t \<le> now \<Longrightarrow> \<not> live now ch"
  by (auto simp: spent_def live_def)

locale otp_store = repository R ok owner
  for R :: "('s, 'p) repository_ops" and ok and owner +
  fixes c :: "(challenge, 'p) codec"
  assumes round_trip: "codec_ok (\<lambda>_. True) c"
begin

lemma dumped [simp]: "model_validate c (model_dump c ch) = Some ch"
  using round_trip by (simp add: codec_ok_def)

lemma challenge_mobile: "otp_ok R ok owner c s \<Longrightarrow> challenges R c s m = Some ch \<Longrightarrow> otp_mobile ch = m \<and> m \<noteq> []"
  using store_ok_good [of otp_kind otp_kind c otp_good "otp_repo s" m ch]
  by (auto simp: otp_ok_def challenges_def otp_good_def)

lemma read_spec:
  "otp_ok R ok owner c s \<Longrightarrow> otp_read R c m (otp_repo s) = Inr (challenges R c s m, otp_version R s m)"
  by (fastforce simp: otp_ok_def store_ok_def otp_read_def challenges_def model_of_def version_of_def restore_def
      split: option.splits)

lemma save_spec:
  assumes ok: "otp_ok R ok owner c s" and v: "otp_version R s (otp_mobile ch) = v" and ne: "otp_mobile ch \<noteq> []"
  shows "\<exists>repo. otp_save R c now ch v s = (Inr (), s\<lparr>otp_repo := repo\<rparr>)
    \<and> otp_ok R ok owner c (s\<lparr>otp_repo := repo\<rparr>)
    \<and> challenges R c (s\<lparr>otp_repo := repo\<rparr>) = (challenges R c s)(otp_mobile ch \<mapsto> ch)
    \<and> otp_version R (s\<lparr>otp_repo := repo\<rparr>) (otp_mobile ch) = v + 1"
proof -
  have so: "store_ok R ok owner otp_kind otp_kind c otp_good (otp_repo s)" using ok by (simp add: otp_ok_def)
  have "0 \<le> v" using version_pos [OF so, of "otp_mobile ch"] v by simp
  then obtain r where r: "new_precord (rid otp_kind (otp_mobile ch) (v + 1)) otp_kind (otp_mobile ch) 1 (v + 1)
      (model_dump c ch) now None None = Inr r"
    using new_precord_Inr [of otp_kind "otp_mobile ch" "v + 1" 1 otp_kind "model_dump c ch" now None None] ne by auto
  then have sr: "store_record otp_kind otp_kind c (otp_mobile ch) (v + 1) ch r" and tenant: "pr_tenant_id r = None"
    using new_precord_store [OF r] by simp_all
  have "\<exists>repo. (if v \<noteq> 0 then repo_replace R (otp_repo s) r v else repo_create R (otp_repo s) r) = Inr repo
      \<and> written_to R ok owner (otp_repo s) r repo"
  proof (cases "v = 0")
    case True
    then have "repo_get R (otp_repo s) otp_kind (otp_mobile ch) = None"
      using version_pos [OF so, of "otp_mobile ch"] v by simp
    then show ?thesis using store_create [OF so, of "otp_mobile ch" ch r] sr True by simp
  next
    case False
    then obtain cur where cur: "repo_get R (otp_repo s) otp_kind (otp_mobile ch) = Some cur" "pr_version cur = v"
      using v by (auto simp: version_of_def split: option.splits)
    then have "pr_tenant_id cur = None" using so by (fastforce simp: store_ok_def otp_good_def)
    then show ?thesis using store_replace [OF so sr cur] tenant False by simp
  qed
  then obtain repo where repo: "(if v \<noteq> 0 then repo_replace R (otp_repo s) r v else repo_create R (otp_repo s) r) = Inr repo"
    "written_to R ok owner (otp_repo s) r repo" by blast
  note w = store_written [OF so repo(2) sr]
  have "otp_save R c now ch v s = (Inr (), s\<lparr>otp_repo := repo\<rparr>)"
    using r repo(1) by (simp add: otp_save_def andthen_def of_result_def updates_def)
  then show ?thesis
    using w \<open>0 \<le> v\<close> tenant ne
    by (intro exI [of _ repo]) (simp add: otp_ok_def challenges_def otp_good_def)
qed

text \<open>A save over a version somebody else has written is refused, and nothing changes.\<close>

lemma save_stale:
  assumes ok: "otp_ok R ok owner c s" and v: "otp_version R s (otp_mobile ch) \<noteq> v" and "0 \<le> v"
    and there: "challenges R c s (otp_mobile ch) \<noteq> None" and ne: "otp_mobile ch \<noteq> []"
  shows "\<exists>e. otp_save R c now ch v s = (Inl e, s) \<and> is_conflict e"
proof -
  have so: "store_ok R ok owner otp_kind otp_kind c otp_good (otp_repo s)" using ok by (simp add: otp_ok_def)
  obtain r where r: "new_precord (rid otp_kind (otp_mobile ch) (v + 1)) otp_kind (otp_mobile ch) 1 (v + 1)
      (model_dump c ch) now None None = Inr r"
    using new_precord_Inr [of otp_kind "otp_mobile ch" "v + 1" 1 otp_kind "model_dump c ch" now None None] ne \<open>0 \<le> v\<close>
    by auto
  then have sr: "store_record otp_kind otp_kind c (otp_mobile ch) (v + 1) ch r"
    using new_precord_store [OF r] by simp
  have get: "repo_get R (otp_repo s) otp_kind (otp_mobile ch) \<noteq> None"
    using there by (auto simp: challenges_def model_of_def split: option.splits)
  have "refused PersistenceConflictError
      (if v \<noteq> 0 then repo_replace R (otp_repo s) r v else repo_create R (otp_repo s) r)"
    using store_create_stale [OF so _ get, of ch r] store_replace_stale [OF so sr get v] sr
    by (cases "v = 0") simp_all
  then obtain m where "(if v \<noteq> 0 then repo_replace R (otp_repo s) r v else repo_create R (otp_repo s) r)
      = Inl (Exn PersistenceConflictError m)" by (auto simp: refused_def)
  then show ?thesis
    using r by (simp add: otp_save_def andthen_def of_result_def updates_def)
qed

lemma check_from_spec:
  assumes ok: "otp_ok R ok owner c s" and ch: "challenges R c s m = Some ch" and alive: "live now ch"
  shows "\<exists>repo. otp_check_from R c h now code consume (Some ch, otp_version R s m) s
        = (Inr (right_code h code ch), s\<lparr>otp_repo := repo\<rparr>)
    \<and> otp_ok R ok owner c (s\<lparr>otp_repo := repo\<rparr>)
    \<and> challenges R c (s\<lparr>otp_repo := repo\<rparr>) = (challenges R c s)(m \<mapsto> tried now (right_code h code ch) consume ch)"
proof -
  let ?v = "otp_version R s m"
  let ?ch = "ch\<lparr>otp_tries := otp_tries ch + 1\<rparr>"
  have m: "otp_mobile ch = m" "m \<noteq> []" using challenge_mobile [OF ok ch] by simp_all
  obtain repo where one: "otp_save R c now ?ch ?v s = (Inr (), s\<lparr>otp_repo := repo\<rparr>)"
    "otp_ok R ok owner c (s\<lparr>otp_repo := repo\<rparr>)"
    "challenges R c (s\<lparr>otp_repo := repo\<rparr>) = (challenges R c s)(m \<mapsto> ?ch)"
    "otp_version R (s\<lparr>otp_repo := repo\<rparr>) m = ?v + 1"
    using save_spec [OF ok, of ?ch ?v now] m by auto
  have alive': "\<not> (otp_used ch \<or> otp_expires_at ch \<le> now \<or> tries_per_code \<le> otp_tries ch)"
    using alive by (auto simp: live_def)
  show ?thesis
  proof (cases "right_code h code ch")
    case False
    then show ?thesis using one alive'
      by (intro exI [of _ repo]) (simp add: otp_check_from_def right_code_def tried_def)
  next
    case True
    let ?done = "tried now True consume ch"
    obtain repo' where two: "otp_save R c now ?done (?v + 1) (s\<lparr>otp_repo := repo\<rparr>) = (Inr (), s\<lparr>otp_repo := repo'\<rparr>)"
      "otp_ok R ok owner c (s\<lparr>otp_repo := repo'\<rparr>)"
      "challenges R c (s\<lparr>otp_repo := repo'\<rparr>) = (challenges R c s)(m \<mapsto> ?done)"
      using save_spec [OF one(2), of ?done "?v + 1" now] one(3,4) m by auto
    then show ?thesis using one(1) alive' True
      by (intro exI [of _ repo']) (simp add: otp_check_from_def right_code_def tried_def Let_def)
  qed
qed

lemma check_from_dead:
  "\<not> live now ch \<Longrightarrow> otp_check_from R c h now code consume (Some ch, v) s = (Inr False, s)"
  by (auto simp: otp_check_from_def live_def)

text \<open>One check, as the caller sees it.\<close>

lemma check_spec:
  assumes ok: "otp_ok R ok owner c s"
  shows "case otp_check R c h now tick m code addr consume s of
      (Inl e, s') \<Rightarrow> exn_class e = OtpError \<and> otp_repo s' = otp_repo s \<and> otp_outbox s' = otp_outbox s
    | (Inr b, s') \<Rightarrow> otp_ok R ok owner c s' \<and> otp_outbox s' = otp_outbox s
        \<and> (case challenges R c s m of
             None \<Rightarrow> \<not> b \<and> challenges R c s' = challenges R c s
           | Some ch \<Rightarrow>
               if live now ch
               then b = right_code h code ch \<and> challenges R c s' = (challenges R c s)(m \<mapsto> tried now b consume ch)
               else \<not> b \<and> challenges R c s' = challenges R c s)"
proof -
  obtain allowed checks where a: "attempt_event addr tick (otp_checks s) = (allowed, checks)" by force
  let ?s = "s\<lparr>otp_checks := checks\<rparr>"
  have ok': "otp_ok R ok owner c ?s" and same: "challenges R c ?s = challenges R c s"
    using ok by (simp_all add: otp_ok_def challenges_def)
  have step: "otp_check R c h now tick m code addr consume s =
      (if \<not> allowed then (Inl (Exn OtpError ''Too many tries. Try again later.''), ?s)
       else otp_check_from R c h now code consume (challenges R c s m, otp_version R ?s m) ?s)"
    using a read_spec [OF ok', of m] same by (simp add: otp_check_def andthen_def)
  show ?thesis
  proof (cases "\<not> allowed \<or> challenges R c s m = None")
    case True
    then show ?thesis using step ok' same by (auto simp: otp_check_from_def)
  next
    case False
    then obtain ch where ch: "challenges R c s m = Some ch" and al: allowed by auto
    show ?thesis
    proof (cases "live now ch")
      case False
      then show ?thesis using step ok' same ch al by (simp add: check_from_dead)
    next
      case True
      then obtain repo where "otp_check_from R c h now code consume (Some ch, otp_version R ?s m) ?s
            = (Inr (right_code h code ch), ?s\<lparr>otp_repo := repo\<rparr>)"
        "otp_ok R ok owner c (?s\<lparr>otp_repo := repo\<rparr>)"
        "challenges R c (?s\<lparr>otp_repo := repo\<rparr>) = (challenges R c s)(m \<mapsto> tried now (right_code h code ch) consume ch)"
        using check_from_spec [OF ok', of m ch now h code consume] ch same by auto
      then show ?thesis using step ch al True by simp
    qed
  qed
qed

lemma send_spec:
  assumes ok: "otp_ok R ok owner c s" and ne: "m \<noteq> []"
  shows "\<exists>r s'. otp_send R c h sender n salt now tick m addr s = (r, s') \<and> otp_ok R ok owner c s'
    \<and> (challenges R c s' = challenges R c s \<and> otp_outbox s' = otp_outbox s \<and> (\<exists>e. r = Inl e)
       \<or> \<not> (last_day now (sent_of R c s m) \<noteq> [] \<and> now - last (last_day now (sent_of R c s m)) < resend_after)
         \<and> int (length (last_day now (sent_of R c s m))) < codes_per_day
         \<and> challenges R c s' = (challenges R c s)(m \<mapsto> \<lparr>otp_mobile = m, otp_salt = salt,
              otp_code_hash = h salt (six_digits n), otp_expires_at = now + code_lifetime, otp_tries = 0,
              otp_used = False, otp_sent = last_day now (sent_of R c s m) @ [now]\<rparr>)
         \<and> (if sender m (six_digits n) = Inr () then r = Inr () \<and> otp_outbox s' = otp_outbox s @ [(now, m, six_digits n)]
            else (\<exists>e. r = Inl e) \<and> otp_outbox s' = otp_outbox s))"
proof -
  let ?sent = "last_day now (sent_of R c s m)"
  let ?code = "six_digits n"
  obtain b1 l1 where a1: "attempt_event addr tick (otp_per_address s) = (b1, l1)" by force
  obtain b2 l2 where a2: "attempt_event ''all'' tick (otp_all s) = (b2, l2)" by force
  let ?s1 = "s\<lparr>otp_per_address := l1\<rparr>"
  let ?s2 = "?s1\<lparr>otp_all := l2\<rparr>"
  let ?ch = "\<lparr>otp_mobile = m, otp_salt = salt, otp_code_hash = h salt ?code, otp_expires_at = now + code_lifetime,
    otp_tries = 0, otp_used = False, otp_sent = ?sent @ [now]\<rparr>"
  have ok1: "otp_ok R ok owner c ?s1" "otp_ok R ok owner c ?s2" using ok by (simp_all add: otp_ok_def)
  have same: "challenges R c ?s1 = challenges R c s" "challenges R c ?s2 = challenges R c s"
    by (simp_all add: challenges_def)
  obtain repo where sv: "otp_save R c now ?ch (otp_version R s m) ?s2 = (Inr (), ?s2\<lparr>otp_repo := repo\<rparr>)"
    "otp_ok R ok owner c (?s2\<lparr>otp_repo := repo\<rparr>)"
    "challenges R c (?s2\<lparr>otp_repo := repo\<rparr>) = (challenges R c s)(m \<mapsto> ?ch)"
    using save_spec [OF ok1(2), of ?ch "otp_version R s m" now] ne same by auto
  have step: "otp_send R c h sender n salt now tick m addr s =
      otp_send_from R c h sender n salt now tick m addr (challenges R c s m, otp_version R s m) s"
    using read_spec [OF ok, of m] by (simp add: otp_send_def andthen_def)
  have sent: "filter (\<lambda>m. now - m < days 1) (case challenges R c s m of None \<Rightarrow> [] | Some ch \<Rightarrow> otp_sent ch) = ?sent"
    by (simp add: last_day_def sent_of_def)
  note sent = this this [simplified]
  note unfolded = otp_send_from_def [of R c h sender n salt now tick m addr, unfolded Let_def, abs_def]
  consider (soon) "?sent \<noteq> []" "now - last ?sent < resend_after"
    | (many) "\<not> (?sent \<noteq> [] \<and> now - last ?sent < resend_after)" "codes_per_day \<le> int (length ?sent)"
    | (address) "\<not> (?sent \<noteq> [] \<and> now - last ?sent < resend_after)" "\<not> codes_per_day \<le> int (length ?sent)" "\<not> b1"
    | (hourly) "\<not> (?sent \<noteq> [] \<and> now - last ?sent < resend_after)" "\<not> codes_per_day \<le> int (length ?sent)" "b1" "\<not> b2"
    | (saved) "\<not> (?sent \<noteq> [] \<and> now - last ?sent < resend_after)" "\<not> codes_per_day \<le> int (length ?sent)" "b1" "b2"
    by blast
  then show ?thesis
  proof cases
    case soon
    then show ?thesis unfolding step unfolded using ok by (simp add: sent)
  next
    case many
    then show ?thesis unfolding step unfolded using ok by (simp add: sent)
  next
    case address
    then show ?thesis unfolding step unfolded using ok ok1 same by (simp add: sent a1)
  next
    case hourly
    then show ?thesis unfolding step unfolded using ok ok1 same by (simp add: sent a1 a2)
  next
    case saved
    show ?thesis
    proof (cases "sender m ?code")
      case (Inl e)
      then show ?thesis unfolding step unfolded using ok saved sv by (simp add: sent a1 a2)
    next
      case (Inr u)
      have "otp_ok R ok owner c (?s2\<lparr>otp_repo := repo, otp_outbox := otp_outbox s @ [(now, m, ?code)]\<rparr>)"
        "challenges R c (?s2\<lparr>otp_repo := repo, otp_outbox := otp_outbox s @ [(now, m, ?code)]\<rparr>) = (challenges R c s)(m \<mapsto> ?ch)"
        using sv(2,3) by (simp_all add: otp_ok_def challenges_def)
      then show ?thesis unfolding step unfolded using ok saved sv(1) Inr by (simp add: sent a1 a2)
    qed
  qed
qed

lemma step_paced:
  assumes ok: "otp_ok R ok owner c s" and ne: "req_number q \<noteq> []" and later: "t \<le> request_time q"
    and p: "paced (sent_of R c s m) (texted s m) t hs"
  shows "otp_ok R ok owner c (otp_step R c h sender q s)
    \<and> (\<exists>hs'. paced (sent_of R c (otp_step R c h sender q s) m) (texted (otp_step R c h sender q s) m)
          (request_time q) hs')"
proof (cases q)
  case (Check now tick m' code addr consume)
  obtain r s' where run: "otp_check R c h now tick m' code addr consume s = (r, s')" by force
  have "otp_ok R ok owner c s' \<and> otp_outbox s' = otp_outbox s \<and> sent_of R c s' m = sent_of R c s m"
    using check_spec [OF ok, where h = h and now = now and tick = tick and m = m' and code = code
        and addr = addr and consume = consume] run ok
    by (cases r)
      (auto simp: otp_ok_def challenges_def sent_of_def [of R c] split: option.splits if_splits
        dest: sent_of_tried [of R c s m'] )
  then show ?thesis using paced_later [OF p later] run Check by (auto simp: texted_def)
next
  case (Send now tick n salt m' addr)
  obtain r s' where run: "otp_send R c h sender n salt now tick m' addr s = (r, s')" by force
  have ok': "otp_ok R ok owner c s'"
    using send_spec [OF ok, where m = m' and h = h and sender = sender and n = n and salt = salt and now = now
        and tick = tick and addr = addr] ne run Send by auto
  have later': "t \<le> now" using later Send by simp
  consider (refused) "challenges R c s' = challenges R c s" "otp_outbox s' = otp_outbox s"
    | (saved) ch where "\<not> (last_day now (sent_of R c s m') \<noteq> [] \<and> now - last (last_day now (sent_of R c s m')) < resend_after)"
        "int (length (last_day now (sent_of R c s m'))) < codes_per_day"
        "challenges R c s' = (challenges R c s)(m' \<mapsto> ch)" "otp_sent ch = last_day now (sent_of R c s m') @ [now]"
        "otp_outbox s' = otp_outbox s \<or> otp_outbox s' = otp_outbox s @ [(now, m', six_digits n)]"
    using send_spec [OF ok, where m = m' and h = h and sender = sender and n = n and salt = salt and now = now
        and tick = tick and addr = addr] ne run Send by (fastforce split: if_splits)
  then have "\<exists>hs'. paced (sent_of R c s' m) (texted s' m) now hs'"
  proof cases
    case refused
    then show ?thesis using paced_later [OF p later'] by (auto simp: sent_of_def texted_def)
  next
    case saved
    show ?thesis
    proof (cases "m' = m")
      case False
      then have "sent_of R c s' m = sent_of R c s m" "texted s' m = texted s m"
        using saved by (auto simp: sent_of_def texted_def)
      then show ?thesis using paced_later [OF p later'] by auto
    next
      case True
      have "texted s' m = texted s m \<or> texted s' m = texted s m @ [now]" using saved(5) True by (auto simp: texted_def)
      then have "paced (last_day now (sent_of R c s m) @ [now]) (texted s' m) now (hs @ [now])"
        using paced_send [OF p later'] saved(1,2) True by simp
      then show ?thesis using saved(3,4) True by (auto simp: sent_of_def)
    qed
  qed
  then show ?thesis using ok' run Send by simp
qed

lemma run_paced:
  assumes "otp_ok R ok owner c s" and "\<forall>q \<in> set qs. req_number q \<noteq> []" and "sorted (t # map request_time qs)"
    and "paced (sent_of R c s m) (texted s m) t hs"
  shows "\<exists>t' hs'. paced (sent_of R c (otp_run R c h sender qs s) m) (texted (otp_run R c h sender qs s) m) t' hs'"
  using assms
proof (induction qs arbitrary: s t hs)
  case Nil
  then show ?case by auto
next
  case (Cons q qs)
  have "req_number q \<noteq> []" "t \<le> request_time q" "sorted (request_time q # map request_time qs)"
    "\<forall>q \<in> set qs. req_number q \<noteq> []"
    using Cons.prems by auto
  then obtain hs' where "otp_ok R ok owner c (otp_step R c h sender q s)"
    "paced (sent_of R c (otp_step R c h sender q s) m) (texted (otp_step R c h sender q s) m) (request_time q) hs'"
    using step_paced [OF Cons.prems(1) _ _ Cons.prems(4)] by blast
  from Cons.IH [OF this(1) \<open>\<forall>q \<in> set qs. req_number q \<noteq> []\<close> \<open>sorted (request_time q # map request_time qs)\<close> this(2)]
  show ?case by simp
qed

lemma refused_same:
  "otp_repo s' = otp_repo s \<Longrightarrow> challenges R c s' = challenges R c s \<and> otp_ok R ok owner c s' = otp_ok R ok owner c s"
  by (simp add: challenges_def otp_ok_def)

text \<open>A code that is spent stays spent.\<close>

lemma spent_never_right:
  assumes "otp_ok R ok owner c s" and "challenges R c s m = Some ch" and "spent t ch"
    and "sorted (t # map guess_time gs)"
  shows "(code, Inr True) \<notin> set (otp_answers R c h m gs s)"
  using assms
proof (induction gs arbitrary: s t)
  case Nil
  then show ?case by simp
next
  case (Cons g gs)
  obtain now tick entry addr cons where g: "g = Guess now tick entry addr cons" by (cases g)
  obtain r s' where run: "otp_check R c h now tick m entry addr cons s = (r, s')" by force
  have later: "t \<le> now" "sorted (now # map guess_time gs)" using Cons.prems(4) g by auto
  then have dead: "\<not> live now ch" "spent now ch"
    using spent_not_live [OF Cons.prems(3)] Cons.prems(3) by (auto simp: spent_def)
  have "otp_ok R ok owner c s' \<and> challenges R c s' m = Some ch \<and> r \<noteq> Inr True"
    using check_spec [OF Cons.prems(1), where h = h and now = now and tick = tick and m = m and code = entry
        and addr = addr and consume = cons] run Cons.prems(1,2) dead(1) refused_same [of s' s]
    by (cases r) auto
  then show ?case using Cons.IH [of s' now] dead(2) later(2) g run by auto
qed

text \<open>After as many wrong answers as there are tries left, no code is right any more.\<close>

lemma wrong_guesses_spend:
  assumes "otp_ok R ok owner c s" and "challenges R c s m = Some ch"
    and "sorted (map guess_time gs)"
    and "\<forall>(code, r) \<in> set (take (nat (tries_per_code - otp_tries ch)) (answered (otp_answers R c h m gs s))).
           \<not> right_code h code ch"
  shows "(code, Inr True) \<notin> set (otp_answers R c h m gs s)"
  using assms
proof (induction gs arbitrary: s ch)
  case Nil
  then show ?case by simp
next
  case (Cons g gs)
  obtain now tick entry addr cons where g: "g = Guess now tick entry addr cons" by (cases g)
  obtain r s' where run: "otp_check R c h now tick m entry addr cons s = (r, s')" by force
  note spec = check_spec [OF Cons.prems(1), where h = h and now = now and tick = tick and m = m and code = entry
        and addr = addr and consume = cons, unfolded run prod.case]
  have later: "sorted (map guess_time gs)" "sorted (now # map guess_time gs)" using Cons.prems(3) g by auto
  have answers: "otp_answers R c h m (g # gs) s = (entry, r) # otp_answers R c h m gs s'" using g run by simp
  show ?case
  proof (cases r)
    case (Inl e)
    have s': "otp_ok R ok owner c s'" "challenges R c s' m = Some ch"
      using spec Inl refused_same [of s' s] Cons.prems(1,2) by auto
    then have "(code, Inr True) \<notin> set (otp_answers R c h m gs s')"
      by (rule Cons.IH [OF _ _ later(1)]) (use Cons.prems(4) answers Inl in simp)
    then show ?thesis using answers Inl by simp
  next
    case (Inr b)
    show ?thesis
    proof (cases "live now ch")
      case False
      then have "otp_ok R ok owner c s'" "challenges R c s' m = Some ch" "\<not> b"
        using spec Inr Cons.prems(2) by auto
      moreover have "spent now ch" using False by (auto simp: spent_def live_def)
      ultimately show ?thesis using spent_never_right [OF _ _ _ later(2)] answers Inr by simp
    next
      case True
      then have k: "nat (tries_per_code - otp_tries ch) = Suc (nat (tries_per_code - (otp_tries ch + 1)))"
        by (auto simp: live_def)
      have wrong: "\<not> right_code h entry ch"
        using Cons.prems(4) answers Inr k by simp
      then have b: "\<not> b" and s': "otp_ok R ok owner c s'" "challenges R c s' m = Some (tried now b cons ch)"
        using spec Inr Cons.prems(2) True by auto
      have "\<forall>(code, r) \<in> set (take (nat (tries_per_code - otp_tries (tried now b cons ch)))
          (answered (otp_answers R c h m gs s'))). \<not> right_code h code (tried now b cons ch)"
        using Cons.prems(4) answers Inr k by (simp add: right_code_def)
      then have "(code, Inr True) \<notin> set (otp_answers R c h m gs s')"
        by (rule Cons.IH [OF s' later(1)])
      then show ?thesis using answers Inr b by simp
    qed
  qed
qed

text \<open>A right code that was consumed is spent at once.\<close>

lemma consumed_spent:
  assumes "otp_ok R ok owner c s" and "otp_check R c h now tick m code addr True s = (Inr True, s')"
  shows "otp_ok R ok owner c s' \<and> (\<exists>ch. challenges R c s' m = Some ch \<and> otp_used ch)"
  using check_spec [OF assms(1), where h = h and now = now and tick = tick and m = m and code = code
      and addr = addr and consume = True] assms(2)
  by (auto split: option.splits if_splits)

text \<open>Requests that read a version somebody has written over since.\<close>

lemma check_from_stale:
  assumes "otp_ok R ok owner c s" and "challenges R c s m \<noteq> None" and "v \<noteq> otp_version R s m" and "0 \<le> v"
    and "m \<noteq> []" and "otp_mobile ch = m"
  shows "otp_check_from R c h now code consume (Some ch, v) s = (Inr False, s)"
proof (cases "live now ch")
  case False
  then show ?thesis by (rule check_from_dead)
next
  case True
  obtain e where "otp_save R c now (ch\<lparr>otp_tries := otp_tries ch + 1\<rparr>) v s = (Inl e, s)" "is_conflict e"
    using save_stale [OF assms(1), of "ch\<lparr>otp_tries := otp_tries ch + 1\<rparr>" v now] assms(2-) by auto
  then show ?thesis by (simp add: otp_check_from_def)
qed

lemma send_from_stale:
  assumes "otp_ok R ok owner c s" and "challenges R c s m \<noteq> None" and "v \<noteq> otp_version R s m" and "0 \<le> v"
    and "m \<noteq> []"
  shows "\<exists>e s'. otp_send_from R c h sender n salt now tick m addr (current, v) s = (Inl e, s')
    \<and> otp_repo s' = otp_repo s \<and> otp_outbox s' = otp_outbox s"
proof -
  obtain b1 l1 where a1: "attempt_event addr tick (otp_per_address s) = (b1, l1)" by force
  obtain b2 l2 where a2: "attempt_event ''all'' tick (otp_all s) = (b2, l2)" by force
  let ?s2 = "s\<lparr>otp_per_address := l1, otp_all := l2\<rparr>"
  have ok2: "otp_ok R ok owner c ?s2" "challenges R c ?s2 = challenges R c s"
    using assms(1) by (simp_all add: otp_ok_def challenges_def)
  have "\<exists>e. otp_save R c now ch v ?s2 = (Inl e, ?s2) \<and> is_conflict e" if "otp_mobile ch = m" for ch
    using save_stale [OF ok2(1), of ch v now] ok2(2) assms(2-) that by simp
  then have "\<exists>e. otp_save R c now \<lparr>otp_mobile = m, otp_salt = salt, otp_code_hash = h salt (six_digits n),
      otp_expires_at = now + code_lifetime, otp_tries = 0, otp_used = False, otp_sent = es @ [now]\<rparr> v ?s2 = (Inl e, ?s2)
      \<and> is_conflict e" for es by simp
  then obtain e where "otp_save R c now \<lparr>otp_mobile = m, otp_salt = salt, otp_code_hash = h salt (six_digits n),
      otp_expires_at = now + code_lifetime, otp_tries = 0, otp_used = False,
      otp_sent = filter (\<lambda>m. now - m < days 1) (case current of None \<Rightarrow> [] | Some ch \<Rightarrow> otp_sent ch) @ [now]\<rparr> v ?s2
        = (Inl e, ?s2)" "is_conflict e" by blast
  then show ?thesis by (auto simp: otp_send_from_def Let_def a1 a2)
qed

end

section \<open>On the in-memory repository\<close>

interpretation mem_otp: otp_store memory_ops mem_ok mem_owner plain_codec
  by unfold_locales simp

lemma otp_on_memory: "codec_ok (\<lambda>_. True) c \<Longrightarrow> otp_store memory_ops mem_ok mem_owner c"
  by unfold_locales

abbreviation mem_otp_ok :: "(challenge, 'p) codec \<Rightarrow> 'p memory otp_state \<Rightarrow> bool" where
  "mem_otp_ok \<equiv> otp_ok memory_ops mem_ok mem_owner"

lemma new_otp_ok: "mem_otp_ok c (new_otp_state empty_memory)"
  by (simp add: otp_ok_def store_ok_def new_otp_state_def keeps_kind_empty memory_ops_def)

section \<open>Properties\<close>

definition demo_hash :: "string \<Rightarrow> string \<Rightarrow> string" where
  "demo_hash salt code = salt @ code"

definition demo_challenge :: challenge where
  "demo_challenge = \<lparr>otp_mobile = ''09120000000'', otp_salt = ''s'', otp_code_hash = ''s000007'',
     otp_expires_at = minutes 2, otp_tries = 0, otp_used = False, otp_sent = [0]\<rparr>"

definition demo_otp :: "challenge memory otp_state" where
  "demo_otp = snd (otp_send memory_ops plain_codec demo_hash (\<lambda>_ _. Inr ()) 7 ''s'' 0 0 ''09120000000'' ''a''
     (new_otp_state empty_memory))"

lemma demo_otp_ok: "mem_otp_ok plain_codec demo_otp"
  using mem_otp.send_spec [OF new_otp_ok, where m = "''09120000000''" and h = demo_hash
      and sender = "\<lambda>_ _. Inr ()" and n = 7 and salt = "''s''" and now = 0 and tick = 0 and addr = "''a''"]
  by (auto simp: demo_otp_def)

lemma demo_challenges: "challenges memory_ops plain_codec demo_otp ''09120000000'' = Some demo_challenge"
  by code_simp

text \<open>
  C12. Codes are paced: over any run of requests for any numbers, codes handed to the SMS
  gateway for one number are at least a minute apart, and no twenty-four hours hold more
  than five of them, whatever the gateway answers.
\<close>

theorem codes_paced:
  assumes "codec_ok (\<lambda>_. True) c" and "\<forall>q \<in> set qs. req_number q \<noteq> []" and "sorted (map request_time qs)"
  shows "sorted_wrt (\<lambda>x y. x + seconds 60 \<le> y) (texted (otp_run memory_ops c h sender qs (new_otp_state empty_memory)) m)
    \<and> day_count a (texted (otp_run memory_ops c h sender qs (new_otp_state empty_memory)) m) \<le> 5"
proof -
  let ?s = "new_otp_state empty_memory"
  let ?out = "texted (otp_run memory_ops c h sender qs ?s) m"
  have start: "paced (sent_of memory_ops c ?s m) (texted ?s m) t []" for t
    by (simp add: paced_def sent_of_def texted_def challenges_def model_of_def new_otp_state_def memory_ops_def
        last_day_def day_count_def)
  have "sorted ((case qs of [] \<Rightarrow> 0 | q # _ \<Rightarrow> request_time q) # map request_time qs)"
    using assms(3) by (cases qs) auto
  then obtain t hs where "paced (sent_of memory_ops c (otp_run memory_ops c h sender qs ?s) m) ?out t hs"
    using otp_store.run_paced [OF otp_on_memory [OF assms(1)] new_otp_ok assms(2) _ start] by blast
  then have hs: "sorted_wrt (\<lambda>x y. x + seconds 60 \<le> y) hs" "day_count a hs \<le> 5" "subseq ?out hs"
    by (simp_all add: paced_def)
  have "subseq (filter (\<lambda>e. a \<le> e \<and> e < a + days 1) ?out) (filter (\<lambda>e. a \<le> e \<and> e < a + days 1) hs)"
    using hs(3) by (rule subseq_filter)
  then have "day_count a ?out \<le> day_count a hs" by (simp add: day_count_def list_emb_length)
  then show ?thesis using hs sorted_wrt_subseq [OF hs(3,1)] by simp
qed

lemma codes_paced_witness:
  "day_count 0 (texted (otp_run memory_ops plain_codec demo_hash (\<lambda>_ _. Inr ())
     [Send 0 0 7 ''s'' ''09120000000'' ''a'', Send 1 1 8 ''t'' ''09120000000'' ''a''] (new_otp_state empty_memory))
     ''09120000000'') \<le> 5"
  using codes_paced [OF plain_codec_ok, of "[Send 0 0 7 ''s'' ''09120000000'' ''a'', Send 1 1 8 ''t'' ''09120000000'' ''a'']"
      demo_hash "\<lambda>_ _. Inr ()" "''09120000000''" 0] by simp

text \<open>
  What a check answers: yes exactly when a code is out for the number, is not used,
  has not expired, has been tried fewer than five times, and is the code typed. A try is
  counted whether it was right or wrong, a consumed code is marked used, a code kept for
  sign-up is given more time, and no other number is touched.
\<close>

theorem check_outcome:
  assumes "codec_ok (\<lambda>_. True) c" and "mem_otp_ok c s"
    and "otp_check memory_ops c h now tick m code addr consume s = (Inr b, s')"
  shows "mem_otp_ok c s' \<and> otp_outbox s' = otp_outbox s \<and>
    (case challenges memory_ops c s m of
       None \<Rightarrow> \<not> b \<and> challenges memory_ops c s' = challenges memory_ops c s
     | Some ch \<Rightarrow>
         b = (\<not> otp_used ch \<and> now < otp_expires_at ch \<and> otp_tries ch < 5
              \<and> h (otp_salt ch) (given_digits code) = otp_code_hash ch)
         \<and> (if otp_used ch \<or> otp_expires_at ch \<le> now \<or> 5 \<le> otp_tries ch
            then challenges memory_ops c s' = challenges memory_ops c s
            else \<exists>ch'. challenges memory_ops c s' = (challenges memory_ops c s)(m \<mapsto> ch')
                 \<and> otp_tries ch' = otp_tries ch + 1 \<and> otp_used ch' = (b \<and> consume)
                 \<and> otp_sent ch' = otp_sent ch
                 \<and> otp_expires_at ch' = (if b \<and> \<not> consume then max (otp_expires_at ch) (now + minutes 10)
                                         else otp_expires_at ch)))"
proof -
  note spec = otp_store.check_spec [OF otp_on_memory [OF assms(1)] assms(2), where h = h and now = now and tick = tick
      and m = m and code = code and addr = addr and consume = consume, unfolded assms(3) prod.case sum.case]
  show ?thesis
  proof (cases "challenges memory_ops c s m")
    case None
    then show ?thesis using spec by simp
  next
    case (Some ch)
    have "otp_expires_at (tried now b consume ch) =
        (if b \<and> \<not> consume then max (otp_expires_at ch) (now + minutes 10) else otp_expires_at ch)"
      by (simp add: tried_def)
    then show ?thesis using spec Some
      by (cases "live now ch") (auto simp: live_def right_code_def)
  qed
qed

lemma check_outcome_witness:
  "challenges memory_ops plain_codec (snd (otp_check memory_ops plain_codec demo_hash 1 1 ''09120000000''
     (codes ''000007'') ''a'' True demo_otp)) ''09120000000'' = Some (demo_challenge\<lparr>otp_tries := 1, otp_used := True\<rparr>)
   \<and> mem_otp_ok plain_codec (snd (otp_check memory_ops plain_codec demo_hash 1 1 ''09120000000''
     (codes ''000007'') ''a'' True demo_otp))"
proof -
  let ?r = "otp_check memory_ops plain_codec demo_hash 1 1 ''09120000000'' (codes ''000007'') ''a'' True demo_otp"
  have b: "fst ?r = Inr True" by code_simp
  then have "?r = (Inr True, snd ?r)" by (metis prod.collapse)
  from check_outcome [OF plain_codec_ok demo_otp_ok this]
  have "mem_otp_ok plain_codec (snd ?r)" by simp
  moreover have "challenges memory_ops plain_codec (snd ?r) ''09120000000''
      = Some (demo_challenge\<lparr>otp_tries := 1, otp_used := True\<rparr>)" by code_simp
  ultimately show ?thesis by simp
qed

text \<open>
  C13. Guessing is bounded: for one code, once as many wrong codes have been answered as it
  has tries left (five, for a new one), no code typed for that number is answered yes any
  more, the right one included, however many more are typed.
\<close>

theorem guessing_bounded:
  assumes "codec_ok (\<lambda>_. True) c" and "mem_otp_ok c s" and "challenges memory_ops c s m = Some ch"
    and "sorted (map guess_time gs)"
    and "\<forall>(code, r) \<in> set (take (nat (5 - otp_tries ch)) (answered (otp_answers memory_ops c h m gs s))).
           h (otp_salt ch) (given_digits code) \<noteq> otp_code_hash ch"
  shows "(code, Inr True) \<notin> set (otp_answers memory_ops c h m gs s)"
  by (rule otp_store.wrong_guesses_spend [OF otp_on_memory [OF assms(1)] assms(2-4)])
    (use assms(5) in \<open>simp add: right_code_def\<close>)

definition demo_guesses :: "guess list" where
  "demo_guesses = replicate 5 (Guess 1 1 (codes ''000001'') ''a'' True) @ [Guess 2 2 (codes ''000007'') ''a'' True]"

lemma guessing_bounded_witness:
  "(codes ''000007'', Inr True) \<notin> set (otp_answers memory_ops plain_codec demo_hash ''09120000000'' demo_guesses demo_otp)"
proof -
  have "sorted (map guess_time demo_guesses)" by code_simp
  moreover have "\<forall>(code, r) \<in> set (take (nat (5 - otp_tries demo_challenge))
      (answered (otp_answers memory_ops plain_codec demo_hash ''09120000000'' demo_guesses demo_otp))).
        demo_hash (otp_salt demo_challenge) (given_digits code) \<noteq> otp_code_hash demo_challenge"
    by code_simp
  ultimately show ?thesis
    by (rule guessing_bounded [OF plain_codec_ok demo_otp_ok demo_challenges])
qed

text \<open>
  C40. A code works once: after it was accepted and consumed, no code typed for that number
  is accepted until a new one has been sent.
\<close>

theorem code_single_use:
  assumes "codec_ok (\<lambda>_. True) c" and "mem_otp_ok c s"
    and "otp_check memory_ops c h now tick m code addr True s = (Inr True, s')"
    and "sorted (map guess_time gs)"
  shows "(code', Inr True) \<notin> set (otp_answers memory_ops c h m gs s')"
proof -
  obtain ch where ok: "mem_otp_ok c s'" and ch: "challenges memory_ops c s' m = Some ch" "otp_used ch"
    using otp_store.consumed_spent [OF otp_on_memory [OF assms(1)] assms(2,3)] by blast
  let ?t = "case gs of [] \<Rightarrow> 0 | g # _ \<Rightarrow> guess_time g"
  have "sorted (?t # map guess_time gs)" using assms(4) by (cases gs) auto
  moreover have "spent ?t ch" using ch(2) by (simp add: spent_def)
  ultimately show ?thesis
    by (rule otp_store.spent_never_right [OF otp_on_memory [OF assms(1)] ok ch(1), rotated])
qed

lemma code_single_use_witness:
  "(codes ''000007'', Inr True) \<notin> set (otp_answers memory_ops plain_codec demo_hash ''09120000000''
     [Guess 2 2 (codes ''000007'') ''a'' True]
     (snd (otp_check memory_ops plain_codec demo_hash 1 1 ''09120000000'' (codes ''000007'') ''a'' True demo_otp)))"
proof -
  let ?r = "otp_check memory_ops plain_codec demo_hash 1 1 ''09120000000'' (codes ''000007'') ''a'' True demo_otp"
  have "fst ?r = Inr True" by code_simp
  then have "?r = (Inr True, snd ?r)" by (metis prod.collapse)
  show ?thesis by (rule code_single_use [OF plain_codec_ok demo_otp_ok \<open>?r = (Inr True, snd ?r)\<close>]) simp
qed

text \<open>
  Concurrent requests: a check or a request for a code that read the challenge before
  somebody else wrote it changes nothing that is stored. The check answers no, even to the
  right code; the request sends no SMS.
\<close>

theorem stale_request_refused:
  assumes "codec_ok (\<lambda>_. True) c" and "mem_otp_ok c s" and "challenges memory_ops c s m \<noteq> None"
    and "v \<noteq> otp_version memory_ops s m" and "0 \<le> v" and "m \<noteq> []" and "otp_mobile ch = m"
  shows "otp_check_from memory_ops c h now code consume (Some ch, v) s = (Inr False, s)
    \<and> (\<exists>e s'. otp_send_from memory_ops c h sender n salt now tick m addr (current, v) s = (Inl e, s')
      \<and> otp_repo s' = otp_repo s \<and> otp_outbox s' = otp_outbox s)"
  using otp_store.check_from_stale [OF otp_on_memory [OF assms(1)] assms(2-7)]
    otp_store.send_from_stale [OF otp_on_memory [OF assms(1)] assms(2-6)] by simp

lemma stale_request_refused_witness:
  "otp_check_from memory_ops plain_codec demo_hash 1 (codes ''000007'') True (Some demo_challenge, 0) demo_otp
     = (Inr False, demo_otp)"
proof (rule conjunct1 [OF stale_request_refused [OF plain_codec_ok demo_otp_ok]])
  show "challenges memory_ops plain_codec demo_otp ''09120000000'' \<noteq> None" by (simp add: demo_challenges)
  show "0 \<noteq> otp_version memory_ops demo_otp ''09120000000''" by code_simp
qed (simp_all add: demo_challenge_def)

text \<open>
  A mobile number is written one way: every spelling of it (with the country code or
  without, with a leading zero or plus sign, in Latin, Persian or Arabic digits, with
  spaces, dashes or brackets anywhere) normalises to the same eleven digits, and those to
  themselves; what normalises at all is an eleven-digit number starting with 09.
\<close>

theorem mobile_spellings:
  assumes "length x = 9" and "\<forall>n \<in> set x. ascii_digit n"
    and "filter (\<lambda>n. \<not> punctuation n) (to_ascii_digits t) = codes p @ x"
    and "p \<in> {''09'', ''9'', ''989'', ''+989'', ''00989'', ''+09'', ''+9'', ''+00989''}"
  shows "normalize_mobile t = Some (codes ''09'' @ x) \<and> is_mobile (codes ''09'' @ x)
    \<and> normalize_mobile (codes ''09'' @ x) = Some (codes ''09'' @ x)"
proof -
  have ne: "t \<noteq> []" using assms(3,4) by (auto simp: to_ascii_digits_def)
  have mob: "is_mobile (codes ''09'' @ x)" using assms(1,2) by (simp add: is_mobile_def starts_with_def ascii_digit_def)
  have "normalize_mobile t = Some (codes ''09'' @ x)"
    using assms(4) mob ne unfolding normalize_mobile_def assms(3) insert_iff empty_iff Let_def
    by (elim disjE) (simp_all add: starts_with_def assms(1))
  moreover have "normalize_mobile d = Some d" if "is_mobile d" for d
    using that by (rule normalize_normal)
  ultimately show ?thesis using mob by simp
qed

lemma mobile_spellings_witness:
  "normalize_mobile (codes ''+98 (912) 000-0000'') = Some (codes ''09120000000'')"
proof -
  have "filter (\<lambda>n. \<not> punctuation n) (to_ascii_digits (codes ''+98 (912) 000-0000'')) = codes ''+989'' @ codes ''120000000''"
    by (simp add: to_ascii_digits_def to_ascii_digit_def punctuation_def)
  moreover have "length (codes ''120000000'') = 9" "\<forall>n \<in> set (codes ''120000000''). ascii_digit n"
    by (simp_all add: ascii_digit_def)
  ultimately have "normalize_mobile (codes ''+98 (912) 000-0000'') = Some (codes ''09'' @ codes ''120000000'')"
    using mobile_spellings [of "codes ''120000000''" "codes ''+98 (912) 000-0000''" "''+989''"] by blast
  then show ?thesis by simp
qed

end
