(* ===== verification/Domain.thy ===== *)
theory Domain
  imports Seo_Prelude
begin

text \<open>
  The data the parts of the program hand to each other, from \<open>app/models/\<close>: snapshots,
  opportunities, strategies, actions, measurements and outcomes, and what a site adapter
  returns. A score or other \<open>float\<close> field is a \<open>rat\<close>: every binary64 value is one. A
  \<open>dict\<close> is the list of its items; the constraints of a pydantic model are its
  \<open>valid\<close> predicate.
\<close>

section \<open>Snapshots, opportunities, strategies\<close>

record snapshot =
  sn_snapshot_id :: string
  sn_data_snapshot_id :: string
  sn_rule_version :: string
  sn_config_version :: string
  sn_generated_at :: instant

definition snapshot_valid :: "snapshot \<Rightarrow> bool" where
  "snapshot_valid s \<longleftrightarrow> sn_snapshot_id s \<noteq> [] \<and> sn_data_snapshot_id s \<noteq> []
     \<and> sn_rule_version s \<noteq> [] \<and> sn_config_version s \<noteq> []"

datatype opportunity_type = CTR_RECOVERY | POSITION_RECOVERY | VISIBILITY_GROWTH | MIXED_RECOVERY

datatype opportunity_status = QUALIFIED | OPPORTUNITY_REJECTED

definition unit_score :: "rat \<Rightarrow> bool" where
  "unit_score x \<longleftrightarrow> 0 \<le> x \<and> x \<le> 1"

record opportunity =
  op_opportunity_id :: string
  op_candidate_id :: string
  op_site_id :: string
  op_normalized_url :: string
  op_normalized_query :: string
  op_type :: opportunity_type
  op_status :: opportunity_status
  op_impact_score :: rat
  op_confidence_score :: rat
  op_business_value_score :: rat
  op_traffic_potential_score :: rat
  op_effort_score :: rat
  op_risk_score :: rat
  op_priority_score :: rat
  op_signal_types :: "string list"
  op_risk_types :: "string list"
  op_reasons :: "string list"
  op_evidence :: dict
  op_snapshot :: snapshot

datatype strategy_type =
    SERP_TITLE_OPTIMIZATION | META_DESCRIPTION_OPTIMIZATION | CANNIBALIZATION_INVESTIGATION
  | INTERNAL_LINKING | CONTENT_DEPTH_IMPROVEMENT | MONITOR_ONLY

datatype strategy_status = RECOMMENDED | STRATEGY_REJECTED

record strategy =
  st_strategy_id :: string
  st_opportunity_id :: string
  st_site_id :: string
  st_normalized_url :: string
  st_normalized_query :: string
  st_opportunity_type :: opportunity_type
  st_strategy_type :: strategy_type
  st_status :: strategy_status
  st_confidence_score :: rat
  st_expected_impact_score :: rat
  st_effort_score :: rat
  st_risk_score :: rat
  st_priority_score :: rat
  st_reasons :: "string list"
  st_evidence :: dict
  st_snapshot :: snapshot

definition strategy_valid :: "strategy \<Rightarrow> bool" where
  "strategy_valid s \<longleftrightarrow> unit_score (st_confidence_score s) \<and> unit_score (st_expected_impact_score s)
     \<and> unit_score (st_effort_score s) \<and> unit_score (st_risk_score s) \<and> unit_score (st_priority_score s)"

fun strategy_type_value :: "strategy_type \<Rightarrow> string" where
  "strategy_type_value SERP_TITLE_OPTIMIZATION = ''serp_title_optimization''"
| "strategy_type_value META_DESCRIPTION_OPTIMIZATION = ''meta_description_optimization''"
| "strategy_type_value CANNIBALIZATION_INVESTIGATION = ''cannibalization_investigation''"
| "strategy_type_value INTERNAL_LINKING = ''internal_linking''"
| "strategy_type_value CONTENT_DEPTH_IMPROVEMENT = ''content_depth_improvement''"
| "strategy_type_value MONITOR_ONLY = ''monitor_only''"

section \<open>Actions\<close>

datatype action_type =
    OPTIMIZE_TITLE | OPTIMIZE_META_DESCRIPTION | INVESTIGATE_CANNIBALIZATION
  | IMPROVE_INTERNAL_LINKING | IMPROVE_CONTENT_DEPTH | MONITOR

fun action_type_value :: "action_type \<Rightarrow> string" where
  "action_type_value OPTIMIZE_TITLE = ''optimize_title''"
| "action_type_value OPTIMIZE_META_DESCRIPTION = ''optimize_meta_description''"
| "action_type_value INVESTIGATE_CANNIBALIZATION = ''investigate_cannibalization''"
| "action_type_value IMPROVE_INTERNAL_LINKING = ''improve_internal_linking''"
| "action_type_value IMPROVE_CONTENT_DEPTH = ''improve_content_depth''"
| "action_type_value MONITOR = ''monitor''"

datatype action_status =
    PLANNED | AWAITING_APPROVAL | APPROVED | REJECTED | EXECUTING | EXECUTED
  | WAITING_FOR_RECRAWL | MEASUREMENT_WINDOW_ACTIVE | EVALUATING | SUCCEEDED | FAILED
  | INCONCLUSIVE | ROLLED_BACK

fun status_value :: "action_status \<Rightarrow> string" where
  "status_value PLANNED = ''planned''"
| "status_value AWAITING_APPROVAL = ''awaiting_approval''"
| "status_value APPROVED = ''approved''"
| "status_value REJECTED = ''rejected''"
| "status_value EXECUTING = ''executing''"
| "status_value EXECUTED = ''executed''"
| "status_value WAITING_FOR_RECRAWL = ''waiting_for_recrawl''"
| "status_value MEASUREMENT_WINDOW_ACTIVE = ''measurement_window_active''"
| "status_value EVALUATING = ''evaluating''"
| "status_value SUCCEEDED = ''succeeded''"
| "status_value FAILED = ''failed''"
| "status_value INCONCLUSIVE = ''inconclusive''"
| "status_value ROLLED_BACK = ''rolled_back''"

datatype risk_level = LOW | MEDIUM | HIGH

record action =
  ac_action_id :: string
  ac_strategy_id :: string
  ac_opportunity_id :: string
  ac_site_id :: string
  ac_normalized_url :: string
  ac_normalized_query :: string
  ac_strategy_type :: strategy_type
  ac_action_type :: action_type
  ac_status :: action_status
  ac_risk_level :: risk_level
  ac_confidence_score :: rat
  ac_expected_impact_score :: rat
  ac_priority_score :: rat
  ac_requires_approval :: bool
  ac_reasons :: "string list"
  ac_parameters :: dict
  ac_evidence :: dict
  ac_snapshot :: snapshot

definition action_valid :: "action \<Rightarrow> bool" where
  "action_valid a \<longleftrightarrow> unit_score (ac_confidence_score a) \<and> unit_score (ac_expected_impact_score a)
     \<and> unit_score (ac_priority_score a)"

section \<open>Measurements and outcomes\<close>

datatype measurement_status = READY | INSUFFICIENT_DATA | INVALID

fun measurement_status_value :: "measurement_status \<Rightarrow> string" where
  "measurement_status_value READY = ''ready''"
| "measurement_status_value INSUFFICIENT_DATA = ''insufficient_data''"
| "measurement_status_value INVALID = ''invalid''"

datatype metric = CTR | POSITION | CLICKS | IMPRESSIONS

fun metric_value :: "metric \<Rightarrow> string" where
  "metric_value CTR = ''ctr''"
| "metric_value POSITION = ''position''"
| "metric_value CLICKS = ''clicks''"
| "metric_value IMPRESSIONS = ''impressions''"

record window_summary =
  ws_start_date :: day
  ws_end_date :: day
  ws_expected_days :: int
  ws_known_days :: int
  ws_observed_days :: int
  ws_completeness :: rat
  ws_observation_count :: int
  ws_impressions :: int
  ws_clicks :: int
  ws_ctr :: rat
  ws_median_position :: "rat option"

record metric_comparison =
  mc_metric :: metric
  mc_baseline_value :: rat
  mc_current_value :: rat
  mc_absolute_delta :: rat
  mc_relative_change :: "rat option"

record measurement =
  me_measurement_id :: string
  me_action_id :: string
  me_site_id :: string
  me_normalized_url :: string
  me_normalized_query :: string
  me_status :: measurement_status
  me_baseline :: window_summary
  me_current :: window_summary
  me_comparisons :: "metric_comparison list"
  me_reasons :: "string list"
  me_evidence :: dict
  me_snapshot :: snapshot
  me_evaluated_at :: instant

datatype outcome_status = OUTCOME_SUCCESS | OUTCOME_FAILURE | OUTCOME_INCONCLUSIVE

fun outcome_status_value :: "outcome_status \<Rightarrow> string" where
  "outcome_status_value OUTCOME_SUCCESS = ''success''"
| "outcome_status_value OUTCOME_FAILURE = ''failure''"
| "outcome_status_value OUTCOME_INCONCLUSIVE = ''inconclusive''"

record metric_outcome =
  mo_metric :: metric
  mo_baseline_value :: rat
  mo_current_value :: rat
  mo_absolute_delta :: rat
  mo_relative_change :: "rat option"
  mo_direction :: string
  mo_improved :: bool
  mo_regressed :: bool

record outcome_policy =
  pol_primary_metric :: metric
  pol_min_relative_improvement :: rat
  pol_max_relative_regression :: rat
  pol_require_primary_metric :: bool
  pol_inconclusive_within_band :: bool

definition outcome_policy_valid :: "outcome_policy \<Rightarrow> bool" where
  "outcome_policy_valid p \<longleftrightarrow> 0 \<le> pol_min_relative_improvement p \<and> 0 \<le> pol_max_relative_regression p"

record outcome =
  oc_outcome_id :: string
  oc_action_id :: string
  oc_site_id :: string
  oc_normalized_url :: string
  oc_normalized_query :: string
  oc_status :: outcome_status
  oc_primary_metric :: metric
  oc_primary_metric_outcome :: "metric_outcome option"
  oc_metric_outcomes :: "metric_outcome list"
  oc_policy :: outcome_policy
  oc_measurement :: measurement
  oc_reasons :: "string list"
  oc_evidence :: dict
  oc_snapshot :: snapshot

section \<open>Sites\<close>

datatype capability =
    READ_PAGE | UPDATE_TITLE | UPDATE_META_DESCRIPTION | UPDATE_CONTENT | UPDATE_INTERNAL_LINKS
  | PUBLISH_CONTENT | ROLLBACK_CHANGE

fun capability_value :: "capability \<Rightarrow> string" where
  "capability_value READ_PAGE = ''read_page''"
| "capability_value UPDATE_TITLE = ''update_title''"
| "capability_value UPDATE_META_DESCRIPTION = ''update_meta_description''"
| "capability_value UPDATE_CONTENT = ''update_content''"
| "capability_value UPDATE_INTERNAL_LINKS = ''update_internal_links''"
| "capability_value PUBLISH_CONTENT = ''publish_content''"
| "capability_value ROLLBACK_CHANGE = ''rollback_change''"

record page =
  pg_site_id :: string
  pg_normalized_url :: string
  pg_title :: string
  pg_meta_description :: string
  pg_content :: string
  pg_status :: string
  pg_metadata :: dict

record operation_result =
  or_success :: bool
  or_operation :: capability
  or_site_id :: string
  or_normalized_url :: string
  or_message :: string
  or_change_id :: "string option"
  or_previous_value :: pyval
  or_new_value :: pyval
  or_metadata :: dict

section \<open>Comparing values\<close>

text \<open>\<open>==\<close> on the values of a dictionary: numbers by value, dictionaries whatever their order.\<close>

fun as_number :: "pyval \<Rightarrow> rat option" where
  "as_number (PBool b) = Some (if b then 1 else 0)"
| "as_number (PInt n) = Some (of_int n)"
| "as_number (PFloat x) = Some x"
| "as_number _ = None"

fun py_eq :: "pyval \<Rightarrow> pyval \<Rightarrow> bool" where
  "py_eq (PList xs) (PList ys) = list_all2 py_eq xs ys"
| "py_eq (PDict d) (PDict e) = (length d = length e
     \<and> (\<forall>(k, v) \<in> set d. case map_of e k of None \<Rightarrow> False | Some w \<Rightarrow> py_eq v w))"
| "py_eq PNone PNone = True"
| "py_eq (PStr s) (PStr t) = (s = t)"
| "py_eq x y = (case (as_number x, as_number y) of (Some a, Some b) \<Rightarrow> a = b | _ \<Rightarrow> False)"

end
