(* ===== verification/Actions.thy ===== *)
theory Actions
  imports Domain
begin

text \<open>
  What may happen to an action: \<open>app/action/planner.py\<close> (an action from a strategy),
  \<open>app/action/state_machine.py\<close> (the allowed transitions), \<open>app/models/action_lifecycle.py\<close>
  and \<open>app/action/lifecycle.py\<close> (a transition with its reason and evidence),
  \<open>app/action/fields.py\<close> (the part of the page an action is about),
  \<open>app/models/verification.py\<close> and \<open>app/verification/engine.py\<close> (whether a page shows what
  it should).
\<close>

section \<open>The planner\<close>

text \<open>The dictionary is total on the strategy types, so the \<open>KeyError\<close> branch has no case.\<close>

fun strategy_to_action :: "strategy_type \<Rightarrow> action_type" where
  "strategy_to_action SERP_TITLE_OPTIMIZATION = OPTIMIZE_TITLE"
| "strategy_to_action META_DESCRIPTION_OPTIMIZATION = OPTIMIZE_META_DESCRIPTION"
| "strategy_to_action CANNIBALIZATION_INVESTIGATION = INVESTIGATE_CANNIBALIZATION"
| "strategy_to_action INTERNAL_LINKING = IMPROVE_INTERNAL_LINKING"
| "strategy_to_action CONTENT_DEPTH_IMPROVEMENT = IMPROVE_CONTENT_DEPTH"
| "strategy_to_action MONITOR_ONLY = MONITOR"

text \<open>The literals 0.65 and 0.35 are the nearest binary64 numbers.\<close>

definition float_065 :: rat where "float_065 = of_int 5854679515581645 / of_int (2 ^ 53)"
definition float_035 :: rat where "float_035 = of_int 6305039478318694 / of_int (2 ^ 54)"

definition risk_level_of :: "strategy \<Rightarrow> risk_level" where
  "risk_level_of s =
     (if float_065 \<le> st_risk_score s then HIGH
      else if float_035 \<le> st_risk_score s then MEDIUM else LOW)"

definition requires_approval :: "action_type \<Rightarrow> risk_level \<Rightarrow> bool" where
  "requires_approval ty risk =
     (if ty \<in> {OPTIMIZE_TITLE, OPTIMIZE_META_DESCRIPTION, IMPROVE_CONTENT_DEPTH} then True
      else risk \<in> {MEDIUM, HIGH})"

definition build_action :: "strategy \<Rightarrow> string \<Rightarrow> exn + action" where
  "build_action s action_id =
     (let ty = strategy_to_action (st_strategy_type s);
          risk = risk_level_of s;
          needs = requires_approval ty risk;
          a = \<lparr>ac_action_id = action_id, ac_strategy_id = st_strategy_id s,
               ac_opportunity_id = st_opportunity_id s, ac_site_id = st_site_id s,
               ac_normalized_url = st_normalized_url s, ac_normalized_query = st_normalized_query s,
               ac_strategy_type = st_strategy_type s, ac_action_type = ty,
               ac_status = (if needs then AWAITING_APPROVAL else PLANNED),
               ac_risk_level = risk, ac_confidence_score = st_confidence_score s,
               ac_expected_impact_score = st_expected_impact_score s,
               ac_priority_score = st_priority_score s, ac_requires_approval = needs,
               ac_reasons = st_reasons s, ac_parameters = [],
               ac_evidence =
                 [(''strategy_priority_score'', PFloat (st_priority_score s)),
                  (''strategy_confidence_score'', PFloat (st_confidence_score s)),
                  (''strategy_risk_score'', PFloat (st_risk_score s)),
                  (''strategy_type'', PStr (strategy_type_value (st_strategy_type s))),
                  (''action_type'', PStr (action_type_value ty))],
               ac_snapshot = st_snapshot s\<rparr>
      in if action_valid a then Inr a else Inl (Exn ValidationError ''Action''))"

section \<open>The state machine\<close>

fun allowed_transitions :: "action_status \<Rightarrow> action_status set" where
  "allowed_transitions PLANNED = {AWAITING_APPROVAL, REJECTED}"
| "allowed_transitions AWAITING_APPROVAL = {APPROVED, REJECTED}"
| "allowed_transitions APPROVED = {EXECUTING, REJECTED}"
| "allowed_transitions EXECUTING = {EXECUTED, FAILED}"
| "allowed_transitions EXECUTED = {WAITING_FOR_RECRAWL, FAILED, ROLLED_BACK}"
| "allowed_transitions WAITING_FOR_RECRAWL = {MEASUREMENT_WINDOW_ACTIVE, FAILED, ROLLED_BACK}"
| "allowed_transitions MEASUREMENT_WINDOW_ACTIVE = {EVALUATING, FAILED, ROLLED_BACK}"
| "allowed_transitions EVALUATING = {SUCCEEDED, FAILED, INCONCLUSIVE, ROLLED_BACK}"
| "allowed_transitions FAILED = {ROLLED_BACK}"
| "allowed_transitions SUCCEEDED = {ROLLED_BACK}"
| "allowed_transitions INCONCLUSIVE = {ROLLED_BACK}"
| "allowed_transitions ROLLED_BACK = {}"
| "allowed_transitions REJECTED = {}"

definition can_transition :: "action_status \<Rightarrow> action_status \<Rightarrow> bool" where
  "can_transition current target \<longleftrightarrow> target \<in> allowed_transitions current"

definition transition :: "action_status \<Rightarrow> action_status \<Rightarrow> exn + action_status" where
  "transition current target =
     (if \<not> can_transition current target
      then Inl (Exn ValueError (''Invalid action transition: '' @ status_value current
             @ '' -> '' @ status_value target))
      else Inr target)"

record lifecycle_result =
  lr_action :: action
  lr_previous_status :: action_status
  lr_current_status :: action_status
  lr_reasons :: "string list"
  lr_evidence :: dict

definition transition_action ::
  "action \<Rightarrow> action_status \<Rightarrow> string \<Rightarrow> dict \<Rightarrow> exn + lifecycle_result" where
  "transition_action a target reason evidence =
     and_maybe (transition (ac_status a) target) (\<lambda>new.
       Inr \<lparr>lr_action = a\<lparr>ac_status := new, ac_reasons := ac_reasons a @ [reason],
              ac_evidence := dict_merge (dict_merge (ac_evidence a) evidence)
                [(''previous_status'', PStr (status_value (ac_status a))),
                 (''current_status'', PStr (status_value new)),
                 (''transition_reason'', PStr reason)]\<rparr>,
            lr_previous_status = ac_status a, lr_current_status = new,
            lr_reasons = [reason], lr_evidence = evidence\<rparr>)"

fun outcome_to_status :: "outcome_status \<Rightarrow> action_status" where
  "outcome_to_status OUTCOME_SUCCESS = SUCCEEDED"
| "outcome_to_status OUTCOME_FAILURE = FAILED"
| "outcome_to_status OUTCOME_INCONCLUSIVE = INCONCLUSIVE"

definition apply_outcome :: "action \<Rightarrow> outcome \<Rightarrow> exn + lifecycle_result" where
  "apply_outcome a oc =
     (if ac_status a \<noteq> EVALUATING
      then Inl (Exn ValueError ''Outcome can only be applied when action is in EVALUATING state.'')
      else if oc_action_id oc \<noteq> ac_action_id a
      then Inl (Exn ValueError ''Outcome action_id does not match action.'')
      else transition_action a (outcome_to_status (oc_status oc))
             (''outcome_'' @ outcome_status_value (oc_status oc))
             [(''outcome_id'', PStr (oc_outcome_id oc)),
              (''outcome_status'', PStr (outcome_status_value (oc_status oc))),
              (''primary_metric'', PStr (metric_value (oc_primary_metric oc)))])"

section \<open>The lifecycle\<close>

definition move_action :: "action \<Rightarrow> action_status \<Rightarrow> string \<Rightarrow> dict \<Rightarrow> exn + lifecycle_result" where
  "move_action a target reason evidence = transition_action a target reason evidence"

definition mark_executing :: "action \<Rightarrow> exn + lifecycle_result" where
  "mark_executing a = move_action a EXECUTING ''execution_started'' []"

definition mark_execution_succeeded :: "action \<Rightarrow> string \<Rightarrow> string \<Rightarrow> exn + lifecycle_result" where
  "mark_execution_succeeded a execution_id adapter_id =
     move_action a EXECUTED ''execution_succeeded''
       [(''execution_id'', PStr execution_id), (''adapter_id'', PStr adapter_id)]"

definition mark_execution_failed :: "action \<Rightarrow> string \<Rightarrow> string \<Rightarrow> exn + lifecycle_result" where
  "mark_execution_failed a execution_id reason =
     move_action a FAILED ''execution_failed''
       [(''execution_id'', PStr execution_id), (''failure_reason'', PStr reason)]"

definition mark_waiting_for_recrawl :: "action \<Rightarrow> string \<Rightarrow> exn + lifecycle_result" where
  "mark_waiting_for_recrawl a execution_id =
     move_action a WAITING_FOR_RECRAWL ''waiting_for_recrawl'' [(''execution_id'', PStr execution_id)]"

definition mark_measurement_window_active :: "action \<Rightarrow> string \<Rightarrow> exn + lifecycle_result" where
  "mark_measurement_window_active a verification_id =
     move_action a MEASUREMENT_WINDOW_ACTIVE ''post_execution_change_verified''
       [(''verification_id'', PStr verification_id)]"

definition mark_evaluating :: "action \<Rightarrow> measurement \<Rightarrow> exn + lifecycle_result" where
  "mark_evaluating a me =
     (if me_action_id me \<noteq> ac_action_id a
      then Inl (Exn ValueError ''Measurement action_id does not match action.'')
      else move_action a EVALUATING ''measurement_ready_for_evaluation''
             [(''measurement_id'', PStr (me_measurement_id me)),
              (''measurement_status'', PStr (measurement_status_value (me_status me)))])"

definition mark_outcome :: "action \<Rightarrow> outcome \<Rightarrow> exn + lifecycle_result" where
  "mark_outcome a oc = apply_outcome a oc"

section \<open>The fields of a page\<close>

record page_field =
  pf_name :: string
  pf_action_type :: action_type
  pf_max_length :: int
  pf_stored_key :: string
  pf_label :: string

definition TITLE :: page_field where
  "TITLE = \<lparr>pf_name = ''title'', pf_action_type = OPTIMIZE_TITLE, pf_max_length = 300,
     pf_stored_key = ''override_title'', pf_label = ''title''\<rparr>"

definition DESCRIPTION :: page_field where
  "DESCRIPTION = \<lparr>pf_name = ''description'', pf_action_type = OPTIMIZE_META_DESCRIPTION, pf_max_length = 170,
     pf_stored_key = ''override_description'', pf_label = ''meta description''\<rparr>"

text \<open>
  \<open>action.parameters[key]\<close>, where the code goes on to use a string: a value of another type
  raises where it is first used as one.
\<close>

definition string_parameter :: "action \<Rightarrow> string \<Rightarrow> exn + string" where
  "string_parameter a key = (case map_of (ac_parameters a) key of
     None \<Rightarrow> Inl (Exn KeyError key)
   | Some (PStr v) \<Rightarrow> Inr v
   | Some _ \<Rightarrow> Inl (Exn AttributeError key))"

definition recommended :: "page_field \<Rightarrow> action \<Rightarrow> exn + string" where
  "recommended f a = string_parameter a (''recommended_'' @ pf_name f)"

definition expected :: "page_field \<Rightarrow> action \<Rightarrow> exn + string" where
  "expected f a = string_parameter a (''expected_'' @ pf_name f)"

definition on_page :: "page_field \<Rightarrow> page \<Rightarrow> string" where
  "on_page f p = (if pf_name f = ''title'' then pg_title p else pg_meta_description p)"

definition field_of :: "action \<Rightarrow> exn + page_field" where
  "field_of a =
     (if ac_action_type a = OPTIMIZE_TITLE then Inr TITLE
      else if ac_action_type a = OPTIMIZE_META_DESCRIPTION then Inr DESCRIPTION
      else case map_of (ac_parameters a) ''field'' of
          None \<Rightarrow> Inr TITLE
        | Some (PStr n) \<Rightarrow>
            if n = pf_name TITLE then Inr TITLE
            else if n = pf_name DESCRIPTION then Inr DESCRIPTION
            else Inl (Exn KeyError n)
        | Some _ \<Rightarrow> Inl (Exn KeyError ''field''))"

section \<open>Verification\<close>

datatype verification_status = VERIFIED | NOT_VERIFIED | VERIFICATION_INCONCLUSIVE

fun verification_status_value :: "verification_status \<Rightarrow> string" where
  "verification_status_value VERIFIED = ''verified''"
| "verification_status_value NOT_VERIFIED = ''not_verified''"
| "verification_status_value VERIFICATION_INCONCLUSIVE = ''inconclusive''"

record verification_request =
  vq_verification_id :: string
  vq_action_id :: string
  vq_site_id :: string
  vq_normalized_url :: string
  vq_expected_state :: dict

record verification_result =
  vr_verification_id :: string
  vr_action_id :: string
  vr_site_id :: string
  vr_normalized_url :: string
  vr_status :: verification_status
  vr_expected_state :: dict
  vr_observed_state :: dict
  vr_matched_keys :: "string list"
  vr_mismatched_keys :: "string list"
  vr_reasons :: "string list"
  vr_evidence :: dict
  vr_checked_at :: instant

definition expected_items :: "dict \<Rightarrow> dict" where
  "expected_items d = map (\<lambda>(k, v). (drop (length ''expected_'') k, v))
     (filter (\<lambda>(k, _). prefix ''expected_'' k) d)"

definition build_verification_request :: "action \<Rightarrow> string \<Rightarrow> exn + verification_request" where
  "build_verification_request a verification_id =
     (if ac_parameters a = [] then Inl (Exn ValueError ''Action has no expected execution state.'')
      else if expected_items (ac_parameters a) = []
      then Inl (Exn ValueError ''Action has no expected_* parameters for verification.'')
      else Inr \<lparr>vq_verification_id = verification_id, vq_action_id = ac_action_id a,
                vq_site_id = ac_site_id a, vq_normalized_url = ac_normalized_url a,
                vq_expected_state = expected_items (ac_parameters a)\<rparr>)"

definition state_matches :: "dict \<Rightarrow> string \<times> pyval \<Rightarrow> bool" where
  "state_matches observed kv = (case map_of observed (fst kv) of
     None \<Rightarrow> False | Some v \<Rightarrow> py_eq v (snd kv))"

definition verify_action_state ::
  "action \<Rightarrow> string \<Rightarrow> dict \<Rightarrow> instant \<Rightarrow> exn + verification_result" where
  "verify_action_state a verification_id observed now =
     (if ac_status a \<noteq> WAITING_FOR_RECRAWL
      then Inl (Exn ValueError ''Verification requires action state WAITING_FOR_RECRAWL.'')
      else and_maybe (build_verification_request a verification_id) (\<lambda>req.
        let exp = vq_expected_state req;
            matched = sort (map fst (filter (state_matches observed) exp));
            mismatched = sort (map fst (filter (\<lambda>kv. \<not> state_matches observed kv) exp));
            missing = filter (\<lambda>k. map_of observed k = None) (map fst exp);
            (status, reasons) =
              (if exp = [] then (VERIFICATION_INCONCLUSIVE, [''no_expected_state''])
               else if missing \<noteq> [] then (VERIFICATION_INCONCLUSIVE, [''observed_state_incomplete''])
               else if mismatched \<noteq> [] then (NOT_VERIFIED, [''expected_state_mismatch''])
               else (VERIFIED, [''expected_state_verified'']))
        in Inr \<lparr>vr_verification_id = verification_id, vr_action_id = ac_action_id a,
                vr_site_id = ac_site_id a, vr_normalized_url = ac_normalized_url a,
                vr_status = status, vr_expected_state = exp, vr_observed_state = observed,
                vr_matched_keys = matched, vr_mismatched_keys = mismatched, vr_reasons = reasons,
                vr_evidence = [(''expected_key_count'', PInt (int (length exp))),
                               (''observed_key_count'', PInt (int (length observed)))],
                vr_checked_at = now\<rparr>))"

definition apply_verification :: "action \<Rightarrow> verification_result \<Rightarrow> exn + action" where
  "apply_verification a v =
     (if vr_action_id v \<noteq> ac_action_id a
      then Inl (Exn ValueError ''Verification action_id does not match action.'')
      else if vr_status v = VERIFIED
      then and_maybe (mark_measurement_window_active a (vr_verification_id v)) (\<lambda>r. Inr (lr_action r))
      else if vr_status v = NOT_VERIFIED
      then and_maybe (mark_execution_failed a (vr_verification_id v) ''post_execution_verification_failed'')
             (\<lambda>r. Inr (lr_action r))
      else Inr (a\<lparr>ac_reasons := ac_reasons a @ [''verification_inconclusive''],
                  ac_evidence := dict_merge (ac_evidence a)
                    [(''verification_id'', PStr (vr_verification_id v)),
                     (''verification_status'', PStr (verification_status_value (vr_status v)))]\<rparr>))"

end
