(* ===== verification/Approvals.thy ===== *)
theory Approvals
  imports Actions
begin

text \<open>
  An action as the customer sees it: \<open>app/models/managed_action.py\<close> (the action with its
  owner, the change that was applied and its history) and \<open>app/action/approval.py\<close> (proposing
  a change, and a person's decision on it). Each decision is a function from a managed action
  to the next one or an exception; \<open>now\<close> is the reading of the clock the models take.
\<close>

section \<open>Managed actions\<close>

record action_event =
  ev_at :: instant
  ev_status :: action_status
  ev_actor :: string
  ev_reason :: string
  ev_detail :: dict

record applied_change =
  ap_adapter_id :: string
  ap_change_id :: "string option"
  ap_previous_value :: string
  ap_new_value :: string
  ap_applied_at :: instant

record managed =
  mg_action :: action
  mg_tenant_id :: string
  mg_run_id :: string
  mg_proposal_id :: "string option"
  mg_observed_value :: "string option"
  mg_applied :: "applied_change option"
  mg_rolled_back :: "applied_change option"
  mg_error :: "string option"
  mg_history :: "action_event list"
  mg_created_at :: instant
  mg_updated_at :: instant

abbreviation mg_action_id :: "managed \<Rightarrow> string" where "mg_action_id m \<equiv> ac_action_id (mg_action m)"
abbreviation mg_site_id :: "managed \<Rightarrow> string" where "mg_site_id m \<equiv> ac_site_id (mg_action m)"
abbreviation mg_status :: "managed \<Rightarrow> action_status" where "mg_status m \<equiv> ac_status (mg_action m)"

definition new_event :: "instant \<Rightarrow> action_status \<Rightarrow> string \<Rightarrow> string \<Rightarrow> dict \<Rightarrow> exn + action_event" where
  "new_event now status actor reason detail =
     (if actor = [] \<or> reason = [] then Inl (Exn ValidationError ''ActionEvent'')
      else Inr \<lparr>ev_at = now, ev_status = status, ev_actor = actor, ev_reason = reason, ev_detail = detail\<rparr>)"

definition new_applied ::
  "instant \<Rightarrow> string \<Rightarrow> string option \<Rightarrow> string \<Rightarrow> string \<Rightarrow> exn + applied_change" where
  "new_applied now adapter_id change_id previous new =
     (if adapter_id = [] then Inl (Exn ValidationError ''AppliedChange'')
      else Inr \<lparr>ap_adapter_id = adapter_id, ap_change_id = change_id, ap_previous_value = previous,
                ap_new_value = new, ap_applied_at = now\<rparr>)"

text \<open>\<open>record\<close>: the next action and one more event; other changes are made on the copy.\<close>

definition record_event ::
  "instant \<Rightarrow> managed \<Rightarrow> action \<Rightarrow> string \<Rightarrow> string \<Rightarrow> dict \<Rightarrow> exn + managed" where
  "record_event now m a actor reason detail =
     and_maybe (new_event now (ac_status a) actor reason detail) (\<lambda>e.
       Inr (m\<lparr>mg_action := a, mg_history := mg_history m @ [e], mg_updated_at := now\<rparr>))"

section \<open>Proposals and decisions\<close>

abbreviation system_actor :: string where "system_actor \<equiv> ''system''"
abbreviation max_title_length :: int where "max_title_length \<equiv> 300"

definition rollbackable_statuses :: "action_status set" where
  "rollbackable_statuses = {EXECUTED, WAITING_FOR_RECRAWL, MEASUREMENT_WINDOW_ACTIVE, EVALUATING,
     FAILED, SUCCEEDED, INCONCLUSIVE}"

definition clean_title :: "string \<Rightarrow> exn + string" where
  "clean_title title =
     (let cleaned = squash title in
      if cleaned = [] then Inl (Exn ApprovalError ''The title must not be empty.'')
      else if max_title_length < int (length cleaned)
      then Inl (Exn ApprovalError (''The title must be at most '' @ show_int max_title_length @ '' characters.''))
      else Inr cleaned)"

definition clean :: "string \<Rightarrow> page_field \<Rightarrow> exn + string" where
  "clean v f =
     (let cleaned = squash v in
      if cleaned = [] then Inl (Exn ApprovalError (''The '' @ pf_label f @ '' must not be empty.''))
      else if pf_max_length f < int (length cleaned)
      then Inl (Exn ApprovalError (''The '' @ pf_label f @ '' must be at most ''
             @ show_int (pf_max_length f) @ '' characters.''))
      else Inr cleaned)"

fun other_titles :: "string \<Rightarrow> string list \<Rightarrow> string list \<Rightarrow> string list" where
  "other_titles title others [] = others"
| "other_titles title others (x # xs) =
     (let cleaned = squash x in
      other_titles title
        (if cleaned \<noteq> [] \<and> cleaned \<noteq> title \<and> cleaned \<notin> set others \<and> int (length cleaned) \<le> max_title_length
         then others @ [cleaned] else others) xs)"

definition propose_title_change ::
  "instant \<Rightarrow> action \<Rightarrow> string \<Rightarrow> string \<Rightarrow> string \<Rightarrow> string \<Rightarrow> string option \<Rightarrow> string option
   \<Rightarrow> string list \<Rightarrow> exn + managed" where
  "propose_title_change now a run_id tenant_id proposal_id proposed_title current_title provider_id alternatives =
     (if ac_action_type a \<noteq> OPTIMIZE_TITLE
      then Inl (Exn ApprovalError (''A title proposal needs an optimize_title action, got ''
             @ action_type_value (ac_action_type a) @ ''.''))
      else and_maybe (clean_title proposed_title) (\<lambda>title.
        let others = other_titles title [] alternatives;
            pending = a\<lparr>ac_action_id := ''action:'' @ run_id, ac_status := AWAITING_APPROVAL,
              ac_requires_approval := True,
              ac_parameters := dict_merge (ac_parameters a)
                [(''recommended_title'', PStr title), (''expected_title'', PStr title),
                 (''proposal_id'', PStr proposal_id), (''alternative_titles'', PList (map PStr others))]\<rparr>
        in if tenant_id = [] \<or> run_id = [] then Inl (Exn ValidationError ''ManagedAction'')
           else and_maybe (new_event now AWAITING_APPROVAL system_actor ''title_proposal_generated''
                  [(''proposal_id'', PStr proposal_id), (''provider_id'', opt_str provider_id)]) (\<lambda>e.
             Inr \<lparr>mg_action = pending, mg_tenant_id = tenant_id, mg_run_id = run_id,
                  mg_proposal_id = Some proposal_id, mg_observed_value = current_title, mg_applied = None,
                  mg_rolled_back = None, mg_error = None, mg_history = [e], mg_created_at = now,
                  mg_updated_at = now\<rparr>)))"

definition require_status :: "managed \<Rightarrow> action_status set \<Rightarrow> string \<Rightarrow> exn + unit" where
  "require_status m allowed verb =
     (if mg_status m \<notin> allowed
      then Inl (Exn ApprovalError (''An action in status '' @ status_value (mg_status m)
             @ '' cannot be '' @ verb @ ''.''))
      else Inr ())"

text \<open>\<open>edited in (parameters.get("alternative_titles") or [])\<close>\<close>

definition is_alternative :: "action \<Rightarrow> string \<Rightarrow> bool" where
  "is_alternative a edited = (case map_of (ac_parameters a) ''alternative_titles'' of
     Some (PList xs) \<Rightarrow> list_ex (\<lambda>x. py_eq x (PStr edited)) xs
   | _ \<Rightarrow> False)"

definition with_edit :: "action \<Rightarrow> string \<Rightarrow> exn + action \<times> dict" where
  "with_edit a title =
     and_maybe (field_of a) (\<lambda>f.
     and_maybe (clean title f) (\<lambda>edited.
     and_maybe (recommended f a) (\<lambda>proposed.
       if edited = proposed then Inr (a, [])
       else
         let chosen = is_alternative a edited in
         Inr (a\<lparr>ac_parameters := dict_merge (ac_parameters a)
                [(''recommended_'' @ pf_name f, PStr edited), (''expected_'' @ pf_name f, PStr edited),
                 (''edited_by_reviewer'', PBool (\<not> chosen)), (''chosen_alternative'', PBool chosen)]\<rparr>,
              [(''proposed_'' @ pf_name f, PStr proposed),
               (if chosen then ''chosen_alternative'' else ''edited_'' @ pf_name f, PStr edited)]))))"

definition note_detail :: "string option \<Rightarrow> dict" where
  "note_detail note = (case note of None \<Rightarrow> [] | Some n \<Rightarrow> if n = [] then [] else [(''note'', PStr n)])"

definition approve ::
  "instant \<Rightarrow> managed \<Rightarrow> string \<Rightarrow> string option \<Rightarrow> string option \<Rightarrow> exn + managed" where
  "approve now m actor title note =
     and_maybe (require_status m {AWAITING_APPROVAL} ''approved'') (\<lambda>_.
     and_maybe (case title of None \<Rightarrow> Inr (mg_action m, []) | Some t \<Rightarrow> with_edit (mg_action m) t) (\<lambda>(a, edits).
     and_maybe (transition_action a APPROVED ''approved'' []) (\<lambda>moved.
       record_event now m (lr_action moved) actor ''approved'' (note_detail note @ edits))))"

definition reject :: "instant \<Rightarrow> managed \<Rightarrow> string \<Rightarrow> string option \<Rightarrow> exn + managed" where
  "reject now m actor reason =
     and_maybe (require_status m {AWAITING_APPROVAL, APPROVED} ''rejected'') (\<lambda>_.
     and_maybe (transition_action (mg_action m) REJECTED ''rejected'' []) (\<lambda>moved.
       record_event now m (lr_action moved) actor ''rejected'' (note_detail reason)))"

definition check_rollback :: "managed \<Rightarrow> exn + unit" where
  "check_rollback m =
     (if mg_applied m = None
      then Inl (Exn ApprovalError ''Nothing was applied to the site, so there is nothing to roll back.'')
      else if mg_rolled_back m \<noteq> None
      then Inl (Exn ApprovalError ''This change has already been rolled back.'')
      else if mg_status m \<notin> rollbackable_statuses
      then Inl (Exn ApprovalError (''An action in status '' @ status_value (mg_status m)
             @ '' cannot be rolled back.''))
      else Inr ())"

section \<open>Lawful histories\<close>

text \<open>
  A history is lawful when each event's status is the one before it or one the state machine
  allows after it, and its last event carries the action's status.
\<close>

definition step_allowed :: "action_status \<Rightarrow> action_status \<Rightarrow> bool" where
  "step_allowed x y \<longleftrightarrow> y = x \<or> can_transition x y"

fun lawful_from :: "action_status \<Rightarrow> action_status list \<Rightarrow> bool" where
  "lawful_from x [] = True"
| "lawful_from x (y # ys) = (step_allowed x y \<and> lawful_from y ys)"

definition statuses :: "managed \<Rightarrow> action_status list" where
  "statuses m = map ev_status (mg_history m)"

definition lawful :: "managed \<Rightarrow> bool" where
  "lawful m \<longleftrightarrow> statuses m \<noteq> [] \<and> last (statuses m) = mg_status m
     \<and> hd (statuses m) = AWAITING_APPROVAL \<and> lawful_from (hd (statuses m)) (tl (statuses m))"

lemma lawful_from_append:
  "lawful_from x (ys @ zs) \<longleftrightarrow> lawful_from x ys \<and> lawful_from (last (x # ys)) zs"
  by (induction ys arbitrary: x) auto

lemma record_event_Inr:
  "record_event now m a actor reason detail = Inr m' \<longleftrightarrow> actor \<noteq> [] \<and> reason \<noteq> [] \<and>
     m' = m\<lparr>mg_action := a, mg_history := mg_history m @ [\<lparr>ev_at = now, ev_status = ac_status a,
       ev_actor = actor, ev_reason = reason, ev_detail = detail\<rparr>], mg_updated_at := now\<rparr>"
  by (auto simp: record_event_def new_event_def)

lemma transition_action_Inr:
  "transition_action a target reason ev = Inr r \<Longrightarrow>
     can_transition (ac_status a) target \<and> ac_status (lr_action r) = target
     \<and> ac_action_id (lr_action r) = ac_action_id a \<and> ac_parameters (lr_action r) = ac_parameters a
     \<and> ac_action_type (lr_action r) = ac_action_type a \<and> ac_site_id (lr_action r) = ac_site_id a
     \<and> ac_normalized_url (lr_action r) = ac_normalized_url a \<and> (action_valid (lr_action r) = action_valid a)"
  by (auto simp: transition_action_def transition_def action_valid_def split: if_splits)

text \<open>One more event with an allowed status keeps a history lawful.\<close>

lemma lawful_step:
  assumes "lawful m" and "mg_history m' = mg_history m @ [e]" and "ev_status e = mg_status m'"
    and "step_allowed (mg_status m) (mg_status m')"
  shows "lawful m'"
proof -
  let ?ss = "statuses m"
  have ne: "?ss \<noteq> []" "last ?ss = mg_status m" "hd ?ss = AWAITING_APPROVAL" "lawful_from (hd ?ss) (tl ?ss)"
    using assms(1) by (auto simp: lawful_def)
  have st: "statuses m' = ?ss @ [mg_status m']" using assms(2,3) by (simp add: statuses_def)
  have "last (hd ?ss # tl ?ss) = mg_status m" using ne(1,2) by (metis list.collapse)
  then have "lawful_from (hd ?ss) (tl ?ss @ [mg_status m'])"
    using ne assms(4) by (simp add: lawful_from_append)
  then show ?thesis using ne st by (simp add: lawful_def)
qed

text \<open>Every history that reaches a status has passed the ones that guard it.\<close>

fun guards :: "action_status \<Rightarrow> action_status set" where
  "guards PLANNED = {}" | "guards AWAITING_APPROVAL = {}" | "guards APPROVED = {}" | "guards REJECTED = {}"
| "guards EXECUTING = {APPROVED}"
| "guards EXECUTED = {APPROVED, EXECUTING}"
| "guards WAITING_FOR_RECRAWL = {APPROVED, EXECUTING, EXECUTED}"
| "guards MEASUREMENT_WINDOW_ACTIVE = {APPROVED, EXECUTING, EXECUTED, WAITING_FOR_RECRAWL}"
| "guards EVALUATING = {APPROVED, EXECUTING, EXECUTED, WAITING_FOR_RECRAWL, MEASUREMENT_WINDOW_ACTIVE}"
| "guards SUCCEEDED = {APPROVED, EXECUTING, EXECUTED, WAITING_FOR_RECRAWL, MEASUREMENT_WINDOW_ACTIVE, EVALUATING}"
| "guards INCONCLUSIVE = {APPROVED, EXECUTING, EXECUTED, WAITING_FOR_RECRAWL, MEASUREMENT_WINDOW_ACTIVE, EVALUATING}"
| "guards FAILED = {APPROVED, EXECUTING}"
| "guards ROLLED_BACK = {APPROVED, EXECUTING}"

lemma guards_step: "can_transition x y \<Longrightarrow> guards y \<subseteq> insert x (guards x)"
  by (cases x) (auto simp: can_transition_def)

lemma rolled_back_final: "can_transition x y \<Longrightarrow> x \<noteq> ROLLED_BACK \<and> x \<noteq> REJECTED"
  by (cases x) (auto simp: can_transition_def)

lemma lawful_from_guards:
  "lawful_from x ys \<Longrightarrow> guards x \<subseteq> seen \<Longrightarrow> y \<in> set (x # ys) \<Longrightarrow> guards y \<subseteq> seen \<union> set (x # ys)"
proof (induction ys arbitrary: x seen)
  case Nil
  then show ?case by auto
next
  case (Cons z zs)
  have "guards z \<subseteq> insert x seen"
    using Cons.prems(1,2) guards_step [of x z] by (auto simp: step_allowed_def)
  then have "guards y \<subseteq> insert x seen \<union> set (z # zs)" if "y \<in> set (z # zs)"
    using Cons.IH [of z "insert x seen"] Cons.prems(1) that by simp
  then show ?case using Cons.prems(2,3) by auto
qed

lemma lawful_guards:
  assumes "lawful m"
  shows "guards (mg_status m) \<subseteq> set (statuses m)"
proof -
  obtain xs where xs: "statuses m = AWAITING_APPROVAL # xs" "lawful_from AWAITING_APPROVAL xs"
    and "last (statuses m) = mg_status m"
    using assms by (cases "statuses m") (auto simp: lawful_def)
  then have "mg_status m \<in> set (AWAITING_APPROVAL # xs)" by (metis last_in_set list.distinct(1))
  from lawful_from_guards [OF xs(2) _ this, of "{}"] show ?thesis using xs(1) by simp
qed

end
