(* ===== verification/Executor.thy ===== *)
theory Executor
  imports Stores Approvals
begin

text \<open>
  Carrying out an approved change, checking it and undoing it: \<open>app/action/store.py\<close>
  (\<open>ManagedActionStore\<close>), \<open>app/execution/capabilities.py\<close> and \<open>app/action/executor.py\<close>, whole.

  The handlers are programs on a state the repository lives in. What they rely on outside
  \<open>src/\<close> or behind a protocol is an argument: the site adapter is a record of its operations
  (each a program on the same state, so that other people's writes may happen while the site
  is called), and \<open>adapter_for\<close> is \<open>adapter_factory.build(site_store.get(site_id))\<close>. \<open>now\<close>
  is the clock of the run.
\<close>

section \<open>The store\<close>

abbreviation action_kind :: string where "action_kind \<equiv> ''managed_action''"

definition action_to_record :: "(managed, 'p) codec \<Rightarrow> instant \<Rightarrow> managed \<Rightarrow> int \<Rightarrow> exn + 'p precord" where
  "action_to_record c now m v =
     new_precord (rid ''action'' (mg_action_id m) v) action_kind (mg_action_id m) 1 v (model_dump c m) now
       (Some (mg_tenant_id m)) (Some (mg_site_id m))"

definition action_create ::
  "('s, 'p) repository_ops \<Rightarrow> (managed, 'p) codec \<Rightarrow> instant \<Rightarrow> managed \<Rightarrow> ('s, managed) prog" where
  "action_create R c now m =
     andthen (of_result (action_to_record c now m 1)) (\<lambda>r.
     andthen (updates (\<lambda>s. repo_create R s r)) (\<lambda>_. ret m))"

definition action_find ::
  "('s, 'p) repository_ops \<Rightarrow> (managed, 'p) codec \<Rightarrow> string \<Rightarrow> ('s, managed option) prog" where
  "action_find R c i =
     andthen (reads (\<lambda>s. repo_get R s action_kind i)) (\<lambda>found.
     case found of
       None \<Rightarrow> ret None
     | Some r \<Rightarrow> andthen (of_result (restore c (pr_payload r))) (\<lambda>m. ret (Some m)))"

definition action_get ::
  "('s, 'p) repository_ops \<Rightarrow> (managed, 'p) codec \<Rightarrow> string \<Rightarrow> ('s, managed) prog" where
  "action_get R c i =
     andthen (action_find R c i) (\<lambda>found.
     case found of
       None \<Rightarrow> raise_exn (Exn PersistenceNotFoundError (''action not found: '' @ i))
     | Some m \<Rightarrow> ret m)"

definition action_update ::
  "('s, 'p) repository_ops \<Rightarrow> (managed, 'p) codec \<Rightarrow> instant \<Rightarrow> managed \<Rightarrow> ('s, managed) prog" where
  "action_update R c now m =
     andthen (reads (\<lambda>s. repo_get R s action_kind (mg_action_id m))) (\<lambda>found.
     case found of
       None \<Rightarrow> raise_exn (Exn PersistenceNotFoundError (''action not found: '' @ mg_action_id m))
     | Some current \<Rightarrow>
         andthen (of_result (restore c (pr_payload current))) (\<lambda>stored.
         if take (length (mg_history stored)) (mg_history m) \<noteq> mg_history stored
         then raise_exn (Exn ActionChangedError (''action changed since it was read: '' @ mg_action_id m))
         else
           andthen (of_result (action_to_record c now m (pr_version current + 1))) (\<lambda>r.
           andthen (updates (\<lambda>s. repo_replace R s r (pr_version current))) (\<lambda>_. ret m))))"

definition action_query ::
  "('s, 'p) repository_ops \<Rightarrow> (managed, 'p) codec \<Rightarrow> string \<Rightarrow> string option \<Rightarrow> int \<Rightarrow> cursor option
   \<Rightarrow> 's \<Rightarrow> exn + managed list \<times> cursor option" where
  "action_query R c tenant site limit cur s =
     and_maybe (repo_query R s tenant (Some action_kind) site limit cur) (\<lambda>pg.
     and_maybe (collect (\<lambda>r. restore c (pr_payload r)) (page_records pg)) (\<lambda>ms.
       Inr (ms, page_next_cursor pg)))"

section \<open>Adapters\<close>

record 's adapter =
  ad_adapter_id :: string
  ad_capabilities :: "capability list"
  ad_manual_apply :: bool
  ad_exact_rollback :: bool
  ad_read_page :: "string \<Rightarrow> string \<Rightarrow> ('s, page) prog"
  ad_update_title :: "string \<Rightarrow> string \<Rightarrow> string \<Rightarrow> string \<Rightarrow> ('s, operation_result) prog"
  ad_update_meta_description :: "string \<Rightarrow> string \<Rightarrow> string \<Rightarrow> string \<Rightarrow> ('s, operation_result) prog"
  ad_rollback_change :: "string \<Rightarrow> string \<Rightarrow> string \<Rightarrow> string \<Rightarrow> ('s, operation_result) prog"

fun required_capabilities :: "action_type \<Rightarrow> capability list" where
  "required_capabilities OPTIMIZE_TITLE = [UPDATE_TITLE]"
| "required_capabilities OPTIMIZE_META_DESCRIPTION = [UPDATE_META_DESCRIPTION]"
| "required_capabilities INVESTIGATE_CANNIBALIZATION = [READ_PAGE]"
| "required_capabilities IMPROVE_INTERNAL_LINKING = [READ_PAGE, UPDATE_INTERNAL_LINKS]"
| "required_capabilities IMPROVE_CONTENT_DEPTH = [READ_PAGE, UPDATE_CONTENT]"
| "required_capabilities MONITOR = [READ_PAGE]"

definition field_write ::
  "page_field \<Rightarrow> 's adapter \<Rightarrow> string \<Rightarrow> string \<Rightarrow> string \<Rightarrow> string \<Rightarrow> ('s, operation_result) prog" where
  "field_write f ad site url v key =
     (if pf_name f = ''title'' then ad_update_title ad site url v key
      else ad_update_meta_description ad site url v key)"

definition read_page :: "'s adapter \<Rightarrow> managed \<Rightarrow> ('s, page) prog" where
  "read_page ad m = ad_read_page ad (mg_site_id m) (ac_normalized_url (mg_action m))"

text \<open>\<open>_norm\<close> on a value that is not known to be a string.\<close>

definition norm_value :: "pyval \<Rightarrow> exn + string" where
  "norm_value v = (if \<not> truthy v then Inr [] else case v of
     PStr s \<Rightarrow> Inr (squash s) | _ \<Rightarrow> Inl (Exn AttributeError ''split''))"

section \<open>Steps of a handler\<close>

definition summary :: "managed \<Rightarrow> bool \<Rightarrow> dict" where
  "summary m skipped =
     [(''action_id'', PStr (mg_action_id m)), (''status'', PStr (status_value (mg_status m)))]
     @ (if skipped then [(''skipped'', PBool True)] else [])
     @ (case mg_error m of None \<Rightarrow> [] | Some e \<Rightarrow> if e = [] then [] else [(''error'', PStr e)])"

definition move :: "instant \<Rightarrow> managed \<Rightarrow> action_status \<Rightarrow> string \<Rightarrow> dict \<Rightarrow> exn + managed" where
  "move now m target reason detail =
     and_maybe (transition_action (mg_action m) target reason detail) (\<lambda>r.
       record_event now m (lr_action r) system_actor reason detail)"

text \<open>A move that also sets the error, or the change that was applied and clears the error.\<close>

definition move_error :: "instant \<Rightarrow> managed \<Rightarrow> action_status \<Rightarrow> string \<Rightarrow> dict \<Rightarrow> string \<Rightarrow> exn + managed" where
  "move_error now m target reason detail err =
     and_maybe (move now m target reason detail) (\<lambda>m'. Inr (m'\<lparr>mg_error := Some err\<rparr>))"

definition move_applied ::
  "instant \<Rightarrow> managed \<Rightarrow> string \<Rightarrow> string \<Rightarrow> string option \<Rightarrow> string \<Rightarrow> string \<Rightarrow> exn + managed" where
  "move_applied now m reason adapter_id change_id previous new =
     and_maybe (new_applied now adapter_id change_id previous new) (\<lambda>ap.
     and_maybe (move now m EXECUTED reason [(''adapter_id'', PStr adapter_id)]) (\<lambda>m'.
       Inr (m'\<lparr>mg_applied := Some ap, mg_error := None\<rparr>)))"

definition save ::
  "('s, 'p) repository_ops \<Rightarrow> (managed, 'p) codec \<Rightarrow> instant \<Rightarrow> exn + managed \<Rightarrow> ('s, managed) prog" where
  "save R c now r = andthen (of_result r) (action_update R c now)"

text \<open>What \<open>_verify\<close> makes of the page it read back.\<close>

definition verified_with :: "instant \<Rightarrow> managed \<Rightarrow> page \<Rightarrow> exn + managed" where
  "verified_with now m pg =
     and_maybe (field_of (mg_action m)) (\<lambda>f.
     and_maybe (expected f (mg_action m)) (\<lambda>target.
     let found = on_page f pg;
         stored = (case map_of (pg_metadata pg) (pf_stored_key f) of None \<Rightarrow> PNone | Some v \<Rightarrow> v);
         rendered_ok = (squash found = squash target)
     in and_maybe (if stored = PNone then Inr False
                   else and_maybe (norm_value stored) (\<lambda>v. Inr (v = squash target))) (\<lambda>stored_ok.
        let observed = (if rendered_ok \<or> stored_ok then target else found)
        in and_maybe (verify_action_state (mg_action m) (''verification:'' @ mg_action_id m)
                        [(pf_name f, PStr observed)] now) (\<lambda>v.
           and_maybe (apply_verification (mg_action m) v) (\<lambda>a.
           and_maybe (record_event now m a system_actor
                        (''verification_'' @ verification_status_value (vr_status v))
                        ([(''rendered_'' @ pf_name f, PStr found)]
                         @ (if stored_ok \<and> \<not> rendered_ok
                            then [(''note'', PStr ''stored on the site; the public page is still cached'')]
                            else []))) (\<lambda>m'.
             Inr (m'\<lparr>mg_error := (if ac_status a = FAILED
               then Some (''The '' @ pf_label f @ '' was written but the page does not show it.'') else None)\<rparr>)))))))"

definition verify_managed :: "instant \<Rightarrow> managed \<Rightarrow> 's adapter \<Rightarrow> ('s, managed) prog" where
  "verify_managed now m ad =
     andthen (of_result (move now m WAITING_FOR_RECRAWL ''waiting_for_recrawl'' [])) (\<lambda>m'.
     andthen (read_page ad m') (\<lambda>pg.
     of_result (verified_with now m' pg)))"

definition verify_and_save ::
  "('s, 'p) repository_ops \<Rightarrow> (managed, 'p) codec \<Rightarrow> instant \<Rightarrow> managed \<Rightarrow> 's adapter \<Rightarrow> ('s, managed) prog" where
  "verify_and_save R c now m ad = andthen (verify_managed now m ad) (action_update R c now)"

definition missing_capabilities :: "action \<Rightarrow> 's adapter \<Rightarrow> capability list" where
  "missing_capabilities a ad =
     filter (\<lambda>k. k \<notin> set (ad_capabilities ad)) (required_capabilities (ac_action_type a))"

definition or_default :: "string \<Rightarrow> string \<Rightarrow> string" where
  "or_default s d = (if s = [] then d else s)"

section \<open>Applying a change\<close>

definition carry_out ::
  "('s, 'p) repository_ops \<Rightarrow> (managed, 'p) codec \<Rightarrow> instant \<Rightarrow> managed \<Rightarrow> 's adapter \<Rightarrow> ('s, managed) prog" where
  "carry_out R c now m ad =
     andthen (of_result (field_of (mg_action m))) (\<lambda>f.
     andthen (of_result (recommended f (mg_action m))) (\<lambda>target.
     if missing_capabilities (mg_action m) ad \<noteq> []
     then save R c now (move_error now m FAILED ''adapter_cannot_apply''
            [(''missing'', PList (map PStr (sort (map capability_value (missing_capabilities (mg_action m) ad)))))]
            (''This site connection cannot change the page's '' @ pf_label f @ ''.''))
     else
       andthen (read_page ad m) (\<lambda>pg.
       let current = squash (on_page f pg);
           already_there = (current = squash target)
       in if \<not> already_there \<and> (case mg_observed_value m of None \<Rightarrow> False | Some v \<Rightarrow> current \<noteq> squash v)
          then save R c now (move_error now m FAILED ''page_changed_since_proposal''
                 [(''expected_current'', opt_str (mg_observed_value m)), (''found'', PStr (on_page f pg))]
                 (''The page's '' @ pf_label f @ '' changed after this proposal was made; nothing was written.''))
          else
            andthen (field_write f ad (mg_site_id m) (ac_normalized_url (mg_action m)) target
                       (''action:'' @ mg_action_id m)) (\<lambda>operation.
            if \<not> or_success operation
            then save R c now (move_error now m FAILED ''execution_failed''
                   [(''adapter_id'', PStr (ad_adapter_id ad))]
                   (or_default (or_message operation) ''The site refused the change.''))
            else
              let previous = (if already_there
                              then (case mg_observed_value m of
                                      Some v \<Rightarrow> or_default v (on_page f pg) | None \<Rightarrow> on_page f pg)
                              else on_page f pg)
              in andthen (save R c now (move_applied now m
                            (if already_there then ''already_applied'' else ''execution_succeeded'')
                            (ad_adapter_id ad) (or_change_id operation) previous target)) (\<lambda>m'.
                 verify_and_save R c now m' ad)))))"

definition check_applied_by_customer ::
  "('s, 'p) repository_ops \<Rightarrow> (managed, 'p) codec \<Rightarrow> instant \<Rightarrow> managed \<Rightarrow> 's adapter \<Rightarrow> ('s, managed) prog" where
  "check_applied_by_customer R c now m ad =
     andthen (of_result (field_of (mg_action m))) (\<lambda>f.
     andthen (of_result (recommended f (mg_action m))) (\<lambda>target.
     andthen (read_page ad m) (\<lambda>pg.
     if squash (on_page f pg) \<noteq> squash target
     then save R c now (and_maybe (record_event now m (mg_action m) system_actor ''waiting_for_customer_to_apply''
            [(''apply_'' @ pf_name f, PStr target), (''found'', PStr (on_page f pg))])
            (\<lambda>m'. Inr (m'\<lparr>mg_error := None\<rparr>)))
     else
       andthen (save R c now (move now m EXECUTING ''execution_started'' [])) (\<lambda>m1.
       andthen (save R c now (move_applied now m1 ''applied_by_customer'' (ad_adapter_id ad) None
                  (case mg_observed_value m1 of None \<Rightarrow> [] | Some v \<Rightarrow> v) target)) (\<lambda>m2.
       verify_and_save R c now m2 ad)))))"

definition note_error ::
  "('s, 'p) repository_ops \<Rightarrow> (managed, 'p) codec \<Rightarrow> instant \<Rightarrow> string \<Rightarrow> string \<Rightarrow> exn \<Rightarrow> ('s, unit) prog" where
  "note_error R c now action_id reason e =
     attempt
       (andthen (action_get R c action_id) (\<lambda>current.
        andthen (save R c now (and_maybe
          (record_event now current (mg_action current) system_actor reason
             [(''type'', PStr (class_name (exn_class e)))])
          (\<lambda>m. Inr (m\<lparr>mg_error := Some (take 500 (exn_text e))\<rparr>)))) (\<lambda>_. ret ())))
       (\<lambda>_. ret ())"

text \<open>The handler once the action has been read.\<close>

definition execute_from ::
  "('s, 'p) repository_ops \<Rightarrow> (managed, 'p) codec \<Rightarrow> (string \<Rightarrow> ('s, 's adapter) prog) \<Rightarrow> instant \<Rightarrow> string
   \<Rightarrow> managed \<Rightarrow> ('s, dict) prog" where
  "execute_from R c adapter_for now action_id m =
     (if mg_status m \<notin> {APPROVED, EXECUTING, EXECUTED} then ret (summary m True)
      else
        andthen (noting (note_error R c now action_id ''execution_error'')
          (andthen (adapter_for (mg_site_id m)) (\<lambda>ad.
           if ad_manual_apply ad
           then if mg_status m = EXECUTED
             then andthen (verify_and_save R c now m ad) (\<lambda>m'. ret (Inr (summary m' False)))
             else if mg_status m \<noteq> APPROVED then ret (Inr (summary m True))
             else andthen (check_applied_by_customer R c now m ad) (\<lambda>m'. ret (Inr (summary m' False)))
           else ret (Inl ad)))) (\<lambda>k.
        case k of
          Inr d \<Rightarrow> ret d
        | Inl ad \<Rightarrow>
            andthen (if mg_status m = APPROVED
                     then save R c now (move now m EXECUTING ''execution_started'' []) else ret m) (\<lambda>m'.
            noting (note_error R c now action_id ''execution_error'')
              (if mg_status m' = EXECUTED
               then andthen (verify_and_save R c now m' ad) (\<lambda>m2. ret (summary m2 False))
               else andthen (carry_out R c now m' ad) (\<lambda>m2. ret (summary m2 False))))))"

definition execute_action ::
  "('s, 'p) repository_ops \<Rightarrow> (managed, 'p) codec \<Rightarrow> (string \<Rightarrow> ('s, 's adapter) prog) \<Rightarrow> instant \<Rightarrow> string
   \<Rightarrow> ('s, dict) prog" where
  "execute_action R c adapter_for now action_id =
     andthen (action_get R c action_id) (execute_from R c adapter_for now action_id)"

section \<open>Undoing a change\<close>

definition rolled_back ::
  "instant \<Rightarrow> managed \<Rightarrow> 's adapter \<Rightarrow> string \<Rightarrow> string \<Rightarrow> string option \<Rightarrow> dict \<Rightarrow> exn + managed" where
  "rolled_back now m ad actor reason change_id detail = (case mg_applied m of
     None \<Rightarrow> Inl (Exn AttributeError ''applied'')
   | Some applied \<Rightarrow>
       and_maybe (transition_action (mg_action m) ROLLED_BACK reason []) (\<lambda>r.
       and_maybe (new_applied now (ad_adapter_id ad) change_id (ap_new_value applied) (ap_previous_value applied)) (\<lambda>ap.
       and_maybe (record_event now m (lr_action r) actor reason detail) (\<lambda>m'.
         Inr (m'\<lparr>mg_rolled_back := Some ap, mg_error := None\<rparr>)))))"

text \<open>An event that leaves the status, with an error or with the error cleared.\<close>

definition noted :: "instant \<Rightarrow> managed \<Rightarrow> string \<Rightarrow> string \<Rightarrow> dict \<Rightarrow> string option \<Rightarrow> exn + managed" where
  "noted now m actor reason detail err =
     and_maybe (record_event now m (mg_action m) actor reason detail) (\<lambda>m'. Inr (m'\<lparr>mg_error := err\<rparr>))"

definition rollback_by_customer ::
  "('s, 'p) repository_ops \<Rightarrow> (managed, 'p) codec \<Rightarrow> instant \<Rightarrow> managed \<Rightarrow> applied_change \<Rightarrow> 's adapter \<Rightarrow> string
   \<Rightarrow> ('s, managed) prog" where
  "rollback_by_customer R c now m applied ad actor =
     andthen (of_result (field_of (mg_action m))) (\<lambda>f.
     if py_strip (ap_previous_value applied) = [] \<and> pf_name f = ''title''
     then save R c now (noted now m actor ''rollback_refused'' []
            (Some (''The '' @ pf_label f @ '' before this change is not known; restore it by hand on your site.'')))
     else
       andthen (read_page ad m) (\<lambda>pg.
       if squash (on_page f pg) = squash (ap_previous_value applied)
       then save R c now (rolled_back now m ad actor ''restored_by_customer'' None [])
       else save R c now (noted now m actor ''waiting_for_customer_to_restore''
              [(''restore_'' @ pf_name f, PStr (ap_previous_value applied)), (''found'', PStr (on_page f pg))] None)))"

text \<open>\<open>AdapterRollbackRequest\<close> refuses empty strings.\<close>

definition rollback_request_valid :: "string \<Rightarrow> string \<Rightarrow> string \<Rightarrow> string \<Rightarrow> bool" where
  "rollback_request_valid site url change key \<longleftrightarrow> site \<noteq> [] \<and> url \<noteq> [] \<and> change \<noteq> [] \<and> key \<noteq> []"

definition rollback_exactly ::
  "('s, 'p) repository_ops \<Rightarrow> (managed, 'p) codec \<Rightarrow> instant \<Rightarrow> managed \<Rightarrow> applied_change \<Rightarrow> string \<Rightarrow> 's adapter
   \<Rightarrow> string \<Rightarrow> ('s, managed) prog" where
  "rollback_exactly R c now m applied change ad actor =
     (let site = mg_site_id m; url = ac_normalized_url (mg_action m); key = ''rollback:'' @ mg_action_id m in
      if \<not> rollback_request_valid site url change key
      then raise_exn (Exn ValidationError ''AdapterRollbackRequest'')
      else
        andthen (ad_rollback_change ad site url change key) (\<lambda>operation.
        if \<not> or_success operation
        then save R c now (noted now m actor ''rollback_refused'' []
               (Some (or_default (or_message operation) ''The site refused the rollback.'')))
        else
          andthen (read_page ad m) (\<lambda>pg.
          andthen (of_result (field_of (mg_action m))) (\<lambda>f.
          save R c now (rolled_back now m ad actor ''rolled_back'' (or_change_id operation)
            [(''rendered_'' @ pf_name f, PStr (on_page f pg)),
             (''rendered_matches'', PBool (squash (on_page f pg) = squash (ap_previous_value applied)))])))))"

definition rollback_by_rewriting ::
  "('s, 'p) repository_ops \<Rightarrow> (managed, 'p) codec \<Rightarrow> instant \<Rightarrow> managed \<Rightarrow> applied_change \<Rightarrow> 's adapter \<Rightarrow> string
   \<Rightarrow> ('s, managed) prog" where
  "rollback_by_rewriting R c now m applied ad actor =
     andthen (of_result (field_of (mg_action m))) (\<lambda>f.
     andthen (read_page ad m) (\<lambda>pg.
     let current = squash (on_page f pg) in
     if current = squash (ap_previous_value applied)
     then save R c now (rolled_back now m ad actor ''already_rolled_back'' None [])
     else if current \<noteq> squash (ap_new_value applied)
     then save R c now (noted now m actor ''rollback_refused_page_changed''
            [(''expected_current'', PStr (ap_new_value applied)), (''found'', PStr (on_page f pg))]
            (Some (''The page's '' @ pf_label f @ '' was changed after this action; rollback did not overwrite it.'')))
     else
       andthen (field_write f ad (mg_site_id m) (ac_normalized_url (mg_action m)) (ap_previous_value applied)
                  (''rollback:'' @ mg_action_id m)) (\<lambda>operation.
       if \<not> or_success operation
       then save R c now (noted now m actor ''rollback_failed'' []
              (Some (or_default (or_message operation) ''The site refused the rollback.'')))
       else
         andthen (read_page ad m) (\<lambda>restored.
         if squash (on_page f restored) \<noteq> squash (ap_previous_value applied)
         then save R c now (noted now m actor ''rollback_not_verified''
                [(''expected'', PStr (ap_previous_value applied)), (''found'', PStr (on_page f restored))]
                (Some (''The previous '' @ pf_label f @ '' was written but the page does not show it.'')))
         else save R c now (rolled_back now m ad actor ''rolled_back'' (or_change_id operation) [])))))"

definition rollback_from ::
  "('s, 'p) repository_ops \<Rightarrow> (managed, 'p) codec \<Rightarrow> (string \<Rightarrow> ('s, 's adapter) prog) \<Rightarrow> instant \<Rightarrow> string
   \<Rightarrow> string \<Rightarrow> managed \<Rightarrow> ('s, dict) prog" where
  "rollback_from R c adapter_for now action_id actor m =
     (if mg_rolled_back m \<noteq> None then ret (summary m True)
      else noting (note_error R c now action_id ''rollback_error'')
        (andthen (of_result (check_rollback m)) (\<lambda>_.
         andthen (adapter_for (mg_site_id m)) (\<lambda>ad.
         case mg_applied m of
           None \<Rightarrow> raise_exn (Exn AttributeError ''applied'')
         | Some applied \<Rightarrow>
             andthen
               (if ad_manual_apply ad then rollback_by_customer R c now m applied ad actor
                else case ap_change_id applied of
                    Some change \<Rightarrow>
                      if ad_exact_rollback ad \<and> change \<noteq> []
                      then rollback_exactly R c now m applied change ad actor
                      else rollback_by_rewriting R c now m applied ad actor
                  | None \<Rightarrow> rollback_by_rewriting R c now m applied ad actor) (\<lambda>m'.
             ret (summary m' False))))))"

definition rollback_action ::
  "('s, 'p) repository_ops \<Rightarrow> (managed, 'p) codec \<Rightarrow> (string \<Rightarrow> ('s, 's adapter) prog) \<Rightarrow> instant \<Rightarrow> string
   \<Rightarrow> string \<Rightarrow> ('s, dict) prog" where
  "rollback_action R c adapter_for now action_id actor =
     andthen (action_get R c action_id) (rollback_from R c adapter_for now action_id actor)"

section \<open>The job handlers\<close>

text \<open>\<open>str(payload[key])\<close>, for a payload whose value is a string (as every caller writes it).\<close>

definition payload_string :: "dict \<Rightarrow> string \<Rightarrow> exn + string" where
  "payload_string d key = (case map_of d key of
     None \<Rightarrow> Inl (Exn KeyError key)
   | Some (PStr s) \<Rightarrow> Inr s
   | Some _ \<Rightarrow> Inl (Exn TypeError key))"

definition execute_action_handler ::
  "('s, 'p) repository_ops \<Rightarrow> (managed, 'p) codec \<Rightarrow> (string \<Rightarrow> ('s, 's adapter) prog) \<Rightarrow> instant \<Rightarrow> dict
   \<Rightarrow> ('s, dict) prog" where
  "execute_action_handler R c adapter_for now d =
     andthen (of_result (payload_string d ''action_id'')) (execute_action R c adapter_for now)"

definition rollback_action_handler ::
  "('s, 'p) repository_ops \<Rightarrow> (managed, 'p) codec \<Rightarrow> (string \<Rightarrow> ('s, 's adapter) prog) \<Rightarrow> instant \<Rightarrow> dict
   \<Rightarrow> ('s, dict) prog" where
  "rollback_action_handler R c adapter_for now d =
     andthen (of_result (payload_string d ''action_id'')) (\<lambda>i.
       rollback_action R c adapter_for now i
         (case map_of d ''actor'' of Some (PStr a) \<Rightarrow> or_default a system_actor | _ \<Rightarrow> system_actor))"

section \<open>What the store holds\<close>

definition managed_valid :: "managed \<Rightarrow> bool" where
  "managed_valid m \<longleftrightarrow> mg_tenant_id m \<noteq> [] \<and> mg_run_id m \<noteq> [] \<and> action_valid (mg_action m)
     \<and> (\<forall>e \<in> set (mg_history m). ev_actor e \<noteq> [] \<and> ev_reason e \<noteq> [])
     \<and> (case mg_applied m of None \<Rightarrow> True | Some ap \<Rightarrow> ap_adapter_id ap \<noteq> [])
     \<and> (case mg_rolled_back m of None \<Rightarrow> True | Some ap \<Rightarrow> ap_adapter_id ap \<noteq> [])"

text \<open>
  A stored action: its history is lawful, a change on record was executed, and one that was
  rolled back is in that status.
\<close>

definition managed_ok :: "managed \<Rightarrow> bool" where
  "managed_ok m \<longleftrightarrow> managed_valid m \<and> mg_action_id m \<noteq> [] \<and> lawful m
     \<and> (mg_applied m \<noteq> None \<longrightarrow> EXECUTED \<in> set (statuses m))
     \<and> (mg_rolled_back m \<noteq> None \<longrightarrow> mg_status m = ROLLED_BACK \<and> mg_applied m \<noteq> None)"

definition action_good :: "string \<Rightarrow> string option \<Rightarrow> managed \<Rightarrow> bool" where
  "action_good i tenant m \<longleftrightarrow> managed_ok m \<and> mg_action_id m = i \<and> tenant = Some (mg_tenant_id m)"

definition actions_ok ::
  "('s, 'p) repository_ops \<Rightarrow> ('s \<Rightarrow> bool) \<Rightarrow> ('s \<Rightarrow> string \<Rightarrow> (string \<times> string \<times> int) option)
   \<Rightarrow> (managed, 'p) codec \<Rightarrow> 's \<Rightarrow> bool" where
  "actions_ok R ok owner c s \<longleftrightarrow> store_ok R ok owner ''action'' action_kind c action_good s"

definition actions_of :: "('s, 'p) repository_ops \<Rightarrow> (managed, 'p) codec \<Rightarrow> 's \<Rightarrow> string \<Rightarrow> managed option" where
  "actions_of R c s = model_of R action_kind c s"

text \<open>Every stored action is still there, and its history has only grown.\<close>

definition histories_extend :: "(string \<Rightarrow> managed option) \<Rightarrow> (string \<Rightarrow> managed option) \<Rightarrow> bool" where
  "histories_extend A B \<longleftrightarrow> (\<forall>i m. A i = Some m \<longrightarrow>
     (\<exists>m'. B i = Some m' \<and> prefix (mg_history m) (mg_history m')))"

lemma histories_extend_refl: "histories_extend A A"
  by (simp add: histories_extend_def)

lemma histories_extend_trans: "histories_extend A B \<Longrightarrow> histories_extend B C \<Longrightarrow> histories_extend A C"
  unfolding histories_extend_def by (meson prefix_order.trans)

lemma histories_extend_upd:
  "A i = Some m \<Longrightarrow> prefix (mg_history m) (mg_history m') \<Longrightarrow> histories_extend A (A(i \<mapsto> m'))"
  by (simp add: histories_extend_def)

text \<open>One more event by the code keeps an action good.\<close>

lemma managed_ok_record:
  assumes "managed_ok m" and "record_event now m a actor reason detail = Inr m'"
    and "step_allowed (mg_status m) (ac_status a)" and "action_valid a" and "ac_action_id a = mg_action_id m"
    and "mg_rolled_back m \<noteq> None \<longrightarrow> ac_status a = ROLLED_BACK"
  shows "managed_ok m' \<and> mg_action_id m' = mg_action_id m \<and> mg_tenant_id m' = mg_tenant_id m
    \<and> mg_history m' = mg_history m @ [last (mg_history m')] \<and> mg_status m' = ac_status a
    \<and> mg_applied m' = mg_applied m \<and> mg_rolled_back m' = mg_rolled_back m \<and> mg_action m' = a
    \<and> mg_observed_value m' = mg_observed_value m"
proof -
  have m': "actor \<noteq> []" "reason \<noteq> []" "m' = m\<lparr>mg_action := a, mg_history := mg_history m @ [\<lparr>ev_at = now,
      ev_status = ac_status a, ev_actor = actor, ev_reason = reason, ev_detail = detail\<rparr>], mg_updated_at := now\<rparr>"
    using assms(2) by (auto simp: record_event_Inr)
  have "lawful m'"
    by (rule lawful_step [of m _ "\<lparr>ev_at = now, ev_status = ac_status a, ev_actor = actor, ev_reason = reason, ev_detail = detail\<rparr>"])
      (use assms(1,3) m' in \<open>simp_all add: managed_ok_def\<close>)
  then show ?thesis using assms m' by (auto simp: managed_ok_def managed_valid_def statuses_def split: option.splits)
qed

lemma managed_ok_set [simp]:
  "managed_ok (m\<lparr>mg_error := e\<rparr>) = managed_ok m"
  by (simp add: managed_ok_def managed_valid_def lawful_def statuses_def)

lemma managed_ok_not_rolled: "managed_ok m \<Longrightarrow> mg_status m \<noteq> ROLLED_BACK \<Longrightarrow> mg_rolled_back m = None"
  by (auto simp: managed_ok_def)

lemma move_ok:
  assumes "managed_ok m" and "move now m target reason detail = Inr m'"
  shows "managed_ok m' \<and> mg_action_id m' = mg_action_id m \<and> mg_tenant_id m' = mg_tenant_id m
    \<and> mg_history m' = mg_history m @ [last (mg_history m')] \<and> mg_status m' = target
    \<and> mg_applied m' = mg_applied m \<and> mg_rolled_back m' = mg_rolled_back m
    \<and> mg_observed_value m' = mg_observed_value m
    \<and> ac_parameters (mg_action m') = ac_parameters (mg_action m)
    \<and> ac_action_type (mg_action m') = ac_action_type (mg_action m)
    \<and> can_transition (mg_status m) target"
proof -
  obtain r where r: "transition_action (mg_action m) target reason detail = Inr r"
    "record_event now m (lr_action r) system_actor reason detail = Inr m'"
    using assms(2) by (auto simp: move_def and_maybe_Inr)
  note t = transition_action_Inr [OF r(1)]
  have "mg_status m \<noteq> ROLLED_BACK" using t rolled_back_final by blast
  then have rb: "mg_rolled_back m = None" by (rule managed_ok_not_rolled [OF assms(1)])
  have "action_valid (mg_action m)" using assms(1) by (simp add: managed_ok_def managed_valid_def)
  then have "action_valid (lr_action r)" "step_allowed (mg_status m) (ac_status (lr_action r))"
    using t by (auto simp: step_allowed_def)
  then show ?thesis
    using managed_ok_record [OF assms(1) r(2)] t rb by simp
qed

lemma move_error_ok:
  "managed_ok m \<Longrightarrow> move_error now m target reason detail e = Inr m' \<Longrightarrow> managed_ok m' \<and> mg_action_id m' = mg_action_id m"
  by (auto simp: move_error_def and_maybe_Inr dest: move_ok)

lemma move_applied_ok:
  assumes "managed_ok m" and "move_applied now m reason adapter change previous new = Inr m'"
  shows "managed_ok m' \<and> mg_action_id m' = mg_action_id m"
proof -
  obtain ap k where ap: "new_applied now adapter change previous new = Inr ap"
    and k: "move now m EXECUTED reason [(''adapter_id'', PStr adapter)] = Inr k"
    and m': "m' = k\<lparr>mg_applied := Some ap, mg_error := None\<rparr>"
    using assms(2) by (auto simp: move_applied_def and_maybe_Inr)
  note kk = move_ok [OF assms(1) k]
  have "ap_adapter_id ap \<noteq> []" using ap by (auto simp: new_applied_def split: if_splits)
  moreover have "EXECUTED \<in> set (statuses k)"
  proof -
    have "lawful k" using kk by (simp add: managed_ok_def)
    then have "statuses k \<noteq> []" "last (statuses k) = mg_status k" by (auto simp: lawful_def)
    then show ?thesis using kk last_in_set [of "statuses k"] by simp
  qed
  ultimately show ?thesis
    using kk m' by (auto simp: managed_ok_def managed_valid_def lawful_def statuses_def)
qed

lemma noted_ok:
  "managed_ok m \<Longrightarrow> noted now m actor reason detail e = Inr m' \<Longrightarrow> managed_ok m'"
proof -
  assume ok: "managed_ok m" and "noted now m actor reason detail e = Inr m'"
  then obtain k where k: "record_event now m (mg_action m) actor reason detail = Inr k" "m' = k\<lparr>mg_error := e\<rparr>"
    by (auto simp: noted_def and_maybe_Inr)
  have "action_valid (mg_action m)" "mg_rolled_back m \<noteq> None \<longrightarrow> mg_status m = ROLLED_BACK"
    using ok by (simp_all add: managed_ok_def managed_valid_def)
  then show ?thesis using managed_ok_record [OF ok k(1)] k(2) by (simp add: step_allowed_def)
qed

lemma rolled_back_ok:
  assumes "managed_ok m" and "rolled_back now m ad actor reason change detail = Inr m'"
  shows "managed_ok m'"
proof -
  obtain applied r ap k where applied: "mg_applied m = Some applied"
    and r: "transition_action (mg_action m) ROLLED_BACK reason [] = Inr r"
    and ap: "new_applied now (ad_adapter_id ad) change (ap_new_value applied) (ap_previous_value applied) = Inr ap"
    and k: "record_event now m (lr_action r) actor reason detail = Inr k"
    and m': "m' = k\<lparr>mg_rolled_back := Some ap, mg_error := None\<rparr>"
    using assms(2) by (auto simp: rolled_back_def and_maybe_Inr split: option.splits)
  note t = transition_action_Inr [OF r]
  have "action_valid (mg_action m)" using assms(1) by (simp add: managed_ok_def managed_valid_def)
  then have kk: "managed_ok k" "mg_status k = ROLLED_BACK" "mg_applied k = Some applied"
    using managed_ok_record [OF assms(1) k] t applied by (auto simp: step_allowed_def)
  have "ap_adapter_id ap \<noteq> []" using ap by (auto simp: new_applied_def split: if_splits)
  then show ?thesis
    using kk m' by (auto simp: managed_ok_def managed_valid_def lawful_def statuses_def)
qed

lemma verified_with_ok:
  assumes "managed_ok m" and "mg_status m = WAITING_FOR_RECRAWL" and "verified_with now m pg = Inr m'"
  shows "managed_ok m' \<and> mg_action_id m' = mg_action_id m
    \<and> mg_status m' \<in> {WAITING_FOR_RECRAWL, MEASUREMENT_WINDOW_ACTIVE, FAILED}"
proof -
  obtain v a k e reason detail where a: "apply_verification (mg_action m) v = Inr a"
    and k: "record_event now m a system_actor reason detail = Inr k"
    and m': "m' = k\<lparr>mg_error := e\<rparr>"
    using assms(3) by (auto simp: verified_with_def and_maybe_Inr Let_def)
  have valid: "action_valid (mg_action m)" using assms(1) by (simp add: managed_ok_def managed_valid_def)
  have "action_valid a \<and> ac_action_id a = mg_action_id m \<and> step_allowed (mg_status m) (ac_status a)
      \<and> ac_status a \<in> {WAITING_FOR_RECRAWL, MEASUREMENT_WINDOW_ACTIVE, FAILED}"
    using a assms(2) valid
    by (auto simp: apply_verification_def and_maybe_Inr mark_measurement_window_active_def mark_execution_failed_def
        move_action_def step_allowed_def action_valid_def dest!: transition_action_Inr split: if_splits)
  moreover have "mg_rolled_back m = None" using managed_ok_not_rolled [OF assms(1)] assms(2) by simp
  ultimately show ?thesis using managed_ok_record [OF assms(1) k] m' by auto
qed

end
