(* ===== verification/Executor_Store.thy ===== *)
theory Executor_Store
  imports Executor
begin

text \<open>
  What the handlers of \<open>Executor\<close> do to a store of actions: rules for programs that keep
  the store well formed and its histories growing, the laws of the store as a locale over any
  repository, and its interpretation on the in-memory one, beside the state of a site.
\<close>

section \<open>Programs that only extend histories\<close>

text \<open>
  \<open>keeps I A p Q\<close>: from a state with \<open>I\<close>, \<open>p\<close> returns or raises in one with \<open>I\<close>, every
  stored action's history has only grown, and a result satisfies \<open>Q\<close>.
\<close>

definition keeps ::
  "('s \<Rightarrow> bool) \<Rightarrow> ('s \<Rightarrow> string \<Rightarrow> managed option) \<Rightarrow> ('s, 'a) prog \<Rightarrow> ('a \<Rightarrow> bool) \<Rightarrow> bool" where
  "keeps I A p Q \<longleftrightarrow> (\<forall>s. I s \<longrightarrow> I (snd (p s)) \<and> histories_extend (A s) (A (snd (p s)))
     \<and> (\<forall>x. fst (p s) = Inr x \<longrightarrow> Q x))"

lemma keeps_state: "keeps I A p Q \<Longrightarrow> I s \<Longrightarrow> I (snd (p s)) \<and> histories_extend (A s) (A (snd (p s)))"
  by (simp add: keeps_def)

lemma keeps_ret: "Q x \<Longrightarrow> keeps I A (ret x) Q"
  by (simp add: keeps_def ret_def histories_extend_refl)

lemma keeps_raise: "keeps I A (raise_exn e) Q"
  by (simp add: keeps_def raise_exn_def histories_extend_refl)

lemma keeps_of_result: "(\<And>x. r = Inr x \<Longrightarrow> Q x) \<Longrightarrow> keeps I A (of_result r) Q"
  by (simp add: keeps_def of_result_def histories_extend_refl)

lemma keeps_weaken: "keeps I A p Q \<Longrightarrow> (\<And>x. Q x \<Longrightarrow> Q' x) \<Longrightarrow> keeps I A p Q'"
  by (simp add: keeps_def)

lemma keeps_andthen:
  assumes "keeps I A p Q" and "\<And>x. Q x \<Longrightarrow> keeps I A (f x) Q'"
  shows "keeps I A (andthen p f) Q'"
  unfolding keeps_def
proof (intro allI impI)
  fix s assume s: "I s"
  obtain r s1 where p: "p s = (r, s1)" by force
  have s1: "I s1" "histories_extend (A s) (A s1)" using assms(1) s p by (fastforce simp: keeps_def)+
  show "I (snd (andthen p f s)) \<and> histories_extend (A s) (A (snd (andthen p f s)))
      \<and> (\<forall>x. fst (andthen p f s) = Inr x \<longrightarrow> Q' x)"
  proof (cases r)
    case (Inl e)
    then show ?thesis using p s1 by (simp add: andthen_def)
  next
    case (Inr x)
    then have "keeps I A (f x) Q'" using assms p s by (fastforce simp: keeps_def)
    then show ?thesis
      using p Inr s1 histories_extend_trans by (fastforce simp: andthen_def keeps_def)
  qed
qed

lemma keeps_if: "(b \<Longrightarrow> keeps I A p Q) \<Longrightarrow> (\<not> b \<Longrightarrow> keeps I A q Q) \<Longrightarrow> keeps I A (if b then p else q) Q"
  by simp

lemma keeps_sum:
  "(\<And>a. k = Inl a \<Longrightarrow> keeps I A (f a) Q) \<Longrightarrow> (\<And>b. k = Inr b \<Longrightarrow> keeps I A (g b) Q) \<Longrightarrow>
    keeps I A (case k of Inl a \<Rightarrow> f a | Inr b \<Rightarrow> g b) Q"
  by (cases k) simp_all

lemma keeps_attempt:
  assumes "keeps I A p Q" and "\<And>e. keeps I A (h e) Q"
  shows "keeps I A (attempt p h) Q"
  unfolding keeps_def
proof (intro allI impI)
  fix s assume s: "I s"
  obtain r s1 where p: "p s = (r, s1)" by force
  have s1: "I s1" "histories_extend (A s) (A s1)" using assms(1) s p by (fastforce simp: keeps_def)+
  show "I (snd (attempt p h s)) \<and> histories_extend (A s) (A (snd (attempt p h s)))
      \<and> (\<forall>x. fst (attempt p h s) = Inr x \<longrightarrow> Q x)"
  proof (cases r)
    case (Inl e)
    then show ?thesis using p s1 assms(2) [of e] histories_extend_trans by (fastforce simp: attempt_def keeps_def)
  next
    case (Inr x)
    then show ?thesis using p s1 assms(1) s by (fastforce simp: attempt_def keeps_def)
  qed
qed

lemma keeps_noting: "keeps I A p Q \<Longrightarrow> (\<And>e. keeps I A (note e) (\<lambda>_. True)) \<Longrightarrow> keeps I A (noting note p) Q"
  unfolding noting_def by (intro keeps_attempt keeps_andthen keeps_raise) auto

definition adapter_keeps :: "('s \<Rightarrow> bool) \<Rightarrow> ('s \<Rightarrow> string \<Rightarrow> managed option) \<Rightarrow> 's adapter \<Rightarrow> bool" where
  "adapter_keeps I A ad \<longleftrightarrow> (\<forall>site url v key.
     keeps I A (ad_read_page ad site url) (\<lambda>_. True) \<and> keeps I A (ad_update_title ad site url v key) (\<lambda>_. True)
     \<and> keeps I A (ad_update_meta_description ad site url v key) (\<lambda>_. True)
     \<and> keeps I A (ad_rollback_change ad site url v key) (\<lambda>_. True))"

lemma keeps_read: "adapter_keeps I A ad \<Longrightarrow> keeps I A (read_page ad m) (\<lambda>_. True)"
  by (simp add: adapter_keeps_def read_page_def)

lemma keeps_write: "adapter_keeps I A ad \<Longrightarrow> keeps I A (field_write f ad site url v key) (\<lambda>_. True)"
  by (simp add: adapter_keeps_def field_write_def)

lemma keeps_rollback_change: "adapter_keeps I A ad \<Longrightarrow> keeps I A (ad_rollback_change ad site url v key) (\<lambda>_. True)"
  by (simp add: adapter_keeps_def)

text \<open>A call to the site that returns or raises without touching the store.\<close>

definition leaves_alone :: "('s \<Rightarrow> bool) \<Rightarrow> ('s \<Rightarrow> string \<Rightarrow> managed option) \<Rightarrow> ('s, 'a) prog \<Rightarrow> bool" where
  "leaves_alone I A p \<longleftrightarrow> (\<forall>s. I s \<longrightarrow> I (snd (p s)) \<and> A (snd (p s)) = A s)"

lemma leaves_aloneD: "leaves_alone I A p \<Longrightarrow> I s \<Longrightarrow> p s = (r, s') \<Longrightarrow> I s' \<and> A s' = A s"
  by (force simp: leaves_alone_def)

text \<open>The change an action asks for: its field, the value to write, and nothing else to check.\<close>

definition asks_for :: "action \<Rightarrow> page_field \<Rightarrow> string \<Rightarrow> bool" where
  "asks_for a f target \<longleftrightarrow> field_of a = Inr f \<and> recommended f a = Inr target \<and> expected f a = Inr target
     \<and> expected_items (ac_parameters a) = [(pf_name f, PStr target)]"

lemma asks_for_same:
  "ac_parameters b = ac_parameters a \<Longrightarrow> ac_action_type b = ac_action_type a \<Longrightarrow> asks_for b f t = asks_for a f t"
  by (simp add: asks_for_def field_of_def recommended_def expected_def string_parameter_def)

text \<open>What a page must show, or the site report, for the check to pass.\<close>

definition stored_string :: "page_field \<Rightarrow> page \<Rightarrow> bool" where
  "stored_string f pg \<longleftrightarrow> (case map_of (pg_metadata pg) (pf_stored_key f) of
     None \<Rightarrow> True | Some v \<Rightarrow> v = PNone \<or> (\<exists>t. v = PStr t))"

lemma norm_value_string: "norm_value (PStr t) = Inr (squash t)"
  by (auto simp: norm_value_def squash_def)

lemma verified_with_shown:
  assumes m: "managed_ok m" and st: "mg_status m = WAITING_FOR_RECRAWL" and a: "asks_for (mg_action m) f target"
    and shown: "squash (on_page f pg) = squash target" and meta: "stored_string f pg"
  shows "\<exists>m'. verified_with now m pg = Inr m' \<and> mg_status m' = MEASUREMENT_WINDOW_ACTIVE \<and> mg_error m' = None
    \<and> mg_applied m' = mg_applied m \<and> mg_history m' = mg_history m @ [last (mg_history m')]"
proof -
  let ?stored = "case map_of (pg_metadata pg) (pf_stored_key f) of None \<Rightarrow> PNone | Some v \<Rightarrow> v"
  have "\<exists>ok. (if ?stored = PNone then Inr False
      else and_maybe (norm_value ?stored) (\<lambda>v. Inr (v = squash target))) = (Inr ok :: exn + bool)"
    using meta by (auto simp: stored_string_def norm_value_string split: option.splits)
  then obtain ok where ok: "(if ?stored = PNone then Inr False
      else and_maybe (norm_value ?stored) (\<lambda>v. Inr (v = squash target))) = (Inr ok :: exn + bool)"
    by blast
  have items: "expected_items (ac_parameters (mg_action m)) = [(pf_name f, PStr target)]"
    "ac_parameters (mg_action m) \<noteq> []"
    using a by (auto simp: asks_for_def expected_items_def)
  obtain v where v: "verify_action_state (mg_action m) (''verification:'' @ mg_action_id m)
      [(pf_name f, PStr target)] now = Inr v" "vr_status v = VERIFIED" "vr_action_id v = mg_action_id m"
    using items st by (auto simp: verify_action_state_def build_verification_request_def state_matches_def Let_def)
  obtain r where r: "transition_action (mg_action m) MEASUREMENT_WINDOW_ACTIVE ''post_execution_change_verified''
      [(''verification_id'', PStr (vr_verification_id v))] = Inr r"
    using st by (auto simp: transition_action_def transition_def can_transition_def)
  note t = transition_action_Inr [OF r]
  have app: "apply_verification (mg_action m) v = Inr (lr_action r)"
    using v(2,3) r by (simp add: apply_verification_def mark_measurement_window_active_def move_action_def)
  show ?thesis
    using a shown ok v(1,2) app t
    by (auto simp: verified_with_def asks_for_def record_event_def new_event_def)
qed

lemma move_lands:
  assumes "managed_ok m" and "can_transition (mg_status m) target" and "reason \<noteq> []"
  shows "\<exists>m'. move now m target reason detail = Inr m'"
  using assms by (simp add: move_def transition_action_def transition_def record_event_def new_event_def)

lemma move_site: "move now m target reason detail = Inr m' \<Longrightarrow>
    mg_site_id m' = mg_site_id m \<and> ac_normalized_url (mg_action m') = ac_normalized_url (mg_action m)"
  by (auto simp: move_def and_maybe_Inr record_event_Inr dest: transition_action_Inr)

lemma read_page_same:
  "mg_site_id m' = mg_site_id m \<Longrightarrow> ac_normalized_url (mg_action m') = ac_normalized_url (mg_action m) \<Longrightarrow>
    read_page ad m' = read_page ad m"
  by (simp add: read_page_def)

locale action_store = repository R ok owner
  for R :: "('s, 'p) repository_ops" and ok and owner +
  fixes c :: "(managed, 'p) codec"
  assumes round_trip: "codec_ok managed_valid c"
begin

abbreviation (input) I :: "'s \<Rightarrow> bool" where "I \<equiv> actions_ok R ok owner c"
abbreviation (input) A :: "'s \<Rightarrow> string \<Rightarrow> managed option" where "A \<equiv> actions_of R c"

lemma stored_good:
  assumes "actions_ok R ok owner c s" and "actions_of R c s i = Some m"
  shows "managed_ok m \<and> mg_action_id m = i"
  using store_ok_good [of "''action''" action_kind c action_good s i m] assms
  by (auto simp: actions_ok_def actions_of_def action_good_def)

lemma find_spec:
  "actions_ok R ok owner c s \<Longrightarrow> action_find R c i s = (Inr (actions_of R c s i), s)"
  by (fastforce simp: actions_ok_def store_ok_def action_find_def actions_of_def model_of_def restore_def andthen_def
      reads_def of_result_def ret_def split: option.splits)

lemma get_spec:
  "actions_ok R ok owner c s \<Longrightarrow> action_get R c i s =
    (case actions_of R c s i of None \<Rightarrow> (Inl (Exn PersistenceNotFoundError (''action not found: '' @ i)), s)
     | Some m \<Rightarrow> (Inr m, s))"
  using find_spec [of s i]
  by (simp add: action_get_def andthen_def raise_exn_def ret_def split: option.splits)

lemma record_ok:
  assumes "managed_ok m" and "1 \<le> v"
  shows "\<exists>r. action_to_record c now m v = Inr r \<and> store_record ''action'' action_kind c (mg_action_id m) v m r
    \<and> pr_tenant_id r = Some (mg_tenant_id m)"
proof -
  have "mg_action_id m \<noteq> []" "managed_valid m" using assms(1) by (simp_all add: managed_ok_def)
  then obtain r where r: "action_to_record c now m v = Inr r"
    using new_precord_Inr [of action_kind "mg_action_id m" v 1 "''action''" "model_dump c m" now
        "Some (mg_tenant_id m)" "Some (mg_site_id m)"] assms(2)
    by (auto simp: action_to_record_def)
  moreover have "model_validate c (model_dump c m) = Some m"
    using round_trip \<open>managed_valid m\<close> by (simp add: codec_ok_def)
  ultimately show ?thesis using new_precord_store by (force simp: action_to_record_def)
qed

text \<open>An update that extends the stored history lands.\<close>

lemma update_lands:
  assumes ok: "actions_ok R ok owner c s" and st: "actions_of R c s (mg_action_id m) = Some m0"
    and good: "managed_ok m" and tenant: "mg_tenant_id m = mg_tenant_id m0"
    and ext: "prefix (mg_history m0) (mg_history m)"
  shows "\<exists>s'. action_update R c now m s = (Inr m, s') \<and> actions_ok R ok owner c s'
    \<and> actions_of R c s' = (actions_of R c s)(mg_action_id m \<mapsto> m)"
proof -
  have so: "store_ok R ok owner ''action'' action_kind c action_good s" using ok by (simp add: actions_ok_def)
  obtain cur where cur: "repo_get R s action_kind (mg_action_id m) = Some cur"
    and val: "model_validate c (pr_payload cur) = Some m0"
    using st by (auto simp: actions_of_def model_of_def split: option.splits)
  have c1: "1 \<le> pr_version cur" "pr_tenant_id cur = Some (mg_tenant_id m0)"
    using so cur val by (fastforce simp: store_ok_def action_good_def)+
  obtain r where r: "action_to_record c now m (pr_version cur + 1) = Inr r"
    "store_record ''action'' action_kind c (mg_action_id m) (pr_version cur + 1) m r"
    "pr_tenant_id r = Some (mg_tenant_id m)"
    using record_ok [OF good, of "pr_version cur + 1" now] c1 by auto
  obtain s' where s': "repo_replace R s r (pr_version cur) = Inr s'" "written_to R ok owner s r s'"
    using store_replace [OF so r(2) cur refl] c1 r(3) tenant by auto
  have "take (length (mg_history m0)) (mg_history m) = mg_history m0"
    using ext by (auto simp: prefix_def)
  then have "action_update R c now m s = (Inr m, s')"
    using cur val r(1) s'(1)
    by (simp add: action_update_def andthen_def reads_def of_result_def restore_def updates_def ret_def)
  then show ?thesis
    using store_written [OF so s'(2) r(2)] c1 good r(3)
    by (simp add: actions_ok_def actions_of_def action_good_def)
qed

text \<open>An update from a stale copy is refused and writes nothing.\<close>

lemma update_stale:
  assumes ok: "actions_ok R ok owner c s" and st: "actions_of R c s (mg_action_id m) = Some m0"
    and stale: "\<not> prefix (mg_history m0) (mg_history m)"
  shows "action_update R c now m s
    = (Inl (Exn ActionChangedError (''action changed since it was read: '' @ mg_action_id m)), s)"
proof -
  obtain cur where cur: "repo_get R s action_kind (mg_action_id m) = Some cur"
    and val: "model_validate c (pr_payload cur) = Some m0"
    using st by (auto simp: actions_of_def model_of_def split: option.splits)
  have "take (length (mg_history m0)) (mg_history m) \<noteq> mg_history m0"
    using stale by (metis take_is_prefix)
  then show ?thesis
    using cur val by (simp add: action_update_def andthen_def reads_def of_result_def restore_def raise_exn_def)
qed

lemma keeps_update:
  assumes good: "managed_ok m"
  shows "keeps (actions_ok R ok owner c) (actions_of R c) (action_update R c now m) managed_ok"
  unfolding keeps_def
proof (intro allI impI)
  fix s assume ok: "actions_ok R ok owner c s"
  have so: "store_ok R ok owner ''action'' action_kind c action_good s" using ok by (simp add: actions_ok_def)
  let ?P = "\<lambda>p. actions_ok R ok owner c (snd p) \<and> histories_extend (actions_of R c s) (actions_of R c (snd p))
      \<and> (\<forall>x. fst p = Inr x \<longrightarrow> managed_ok x)"
  have raised: "?P (Inl e, s)" for e using ok by (simp add: histories_extend_refl)
  show "?P (action_update R c now m s)"
  proof (cases "repo_get R s action_kind (mg_action_id m)")
    case None
    then have "action_update R c now m s = (Inl (Exn PersistenceNotFoundError (''action not found: '' @ mg_action_id m)), s)"
      by (simp add: action_update_def andthen_def reads_def raise_exn_def)
    then show ?thesis using raised by simp
  next
    case (Some cur)
    obtain m0 where val: "model_validate c (pr_payload cur) = Some m0" and c1: "1 \<le> pr_version cur"
      using so Some by (fastforce simp: store_ok_def)
    then have st: "actions_of R c s (mg_action_id m) = Some m0" using Some by (simp add: actions_of_def model_of_def)
    obtain r where r: "action_to_record c now m (pr_version cur + 1) = Inr r"
      "store_record ''action'' action_kind c (mg_action_id m) (pr_version cur + 1) m r"
      "pr_tenant_id r = Some (mg_tenant_id m)"
      using record_ok [OF good, of "pr_version cur + 1" now] c1 by auto
    show ?thesis
    proof (cases "prefix (mg_history m0) (mg_history m)")
      case False
      then show ?thesis using update_stale [OF ok st] raised by simp
    next
      case True
      then have "take (length (mg_history m0)) (mg_history m) = mg_history m0" by (auto simp: prefix_def)
      then have step: "action_update R c now m s = (case repo_replace R s r (pr_version cur) of
          Inl e \<Rightarrow> (Inl e, s) | Inr s' \<Rightarrow> (Inr m, s'))"
        using Some val r(1)
        by (simp add: action_update_def andthen_def reads_def of_result_def restore_def updates_def ret_def split: sum.split)
      show ?thesis
      proof (cases "repo_replace R s r (pr_version cur)")
        case (Inl e)
        then show ?thesis using step raised by simp
      next
        case (Inr s')
        have w: "written_to R ok owner s r s'" using replace_written [OF _ Inr] so by (simp add: store_ok_def)
        have "actions_ok R ok owner c s'" "actions_of R c s' = (actions_of R c s)(mg_action_id m \<mapsto> m)"
          using store_written [OF so w r(2)] c1 good r(3)
          by (simp_all add: actions_ok_def actions_of_def action_good_def)
        then show ?thesis using step Inr good
            histories_extend_upd [of "actions_of R c s" "mg_action_id m" m0 m, OF st True] by simp
      qed
    qed
  qed
qed

abbreviation (input) "kept p Q \<equiv> keeps (actions_ok R ok owner c) (actions_of R c) p Q"

lemma kept_save: "(\<And>m. r = Inr m \<Longrightarrow> managed_ok m) \<Longrightarrow> kept (save R c now r) managed_ok"
  unfolding save_def by (rule keeps_andthen [OF keeps_of_result keeps_update])

lemma kept_get: "kept (action_get R c i) managed_ok"
  unfolding keeps_def
proof (intro allI impI)
  fix s assume ok: "actions_ok R ok owner c s"
  show "actions_ok R ok owner c (snd (action_get R c i s))
      \<and> histories_extend (actions_of R c s) (actions_of R c (snd (action_get R c i s)))
      \<and> (\<forall>x. fst (action_get R c i s) = Inr x \<longrightarrow> managed_ok x)"
    using get_spec [OF ok, of i] stored_good [OF ok, of i] ok histories_extend_refl
    by (auto split: option.splits)
qed

lemma kept_note: "kept (note_error R c now i reason e) (\<lambda>_. True)" if "reason \<noteq> []"
  unfolding note_error_def
  by (intro keeps_attempt keeps_andthen [OF kept_get] keeps_andthen [OF kept_save] keeps_ret, unfold noted_def [symmetric])
    (simp_all add: noted_def [symmetric] noted_ok)

lemma kept_verify:
  assumes "adapter_keeps (actions_ok R ok owner c) (actions_of R c) ad" and "managed_ok m"
  shows "kept (verify_and_save R c now m ad) managed_ok"
  unfolding verify_and_save_def
proof (rule keeps_andthen [OF _ keeps_update])
  show "kept (verify_managed now m ad) managed_ok"
    unfolding verify_managed_def
  proof (rule keeps_andthen [OF keeps_of_result [where Q = "\<lambda>m'. managed_ok m' \<and> mg_status m' = WAITING_FOR_RECRAWL"]])
    fix m' assume "move now m WAITING_FOR_RECRAWL ''waiting_for_recrawl'' [] = Inr m'"
    then show "managed_ok m' \<and> mg_status m' = WAITING_FOR_RECRAWL" using move_ok [OF assms(2)] by blast
  next
    fix m' assume m': "managed_ok m' \<and> mg_status m' = WAITING_FOR_RECRAWL"
    show "kept (andthen (read_page ad m') (\<lambda>pg. of_result (verified_with now m' pg))) managed_ok"
      by (rule keeps_andthen [OF keeps_read [OF assms(1)] keeps_of_result]) (use m' verified_with_ok in blast)
  qed
qed

lemma kept_carry_out:
  assumes ad: "adapter_keeps (actions_ok R ok owner c) (actions_of R c) ad" and m: "managed_ok m"
  shows "kept (carry_out R c now m ad) managed_ok"
  unfolding carry_out_def Let_def
  by (intro keeps_andthen [OF keeps_of_result [where Q = "\<lambda>_. True"]]
      keeps_if kept_save keeps_andthen [OF keeps_read [OF ad]]
      keeps_andthen [OF keeps_write [OF ad]] keeps_andthen [OF kept_save] kept_verify [OF ad])
    (auto dest: move_error_ok [OF m] move_applied_ok [OF m])

lemma kept_check_applied:
  assumes ad: "adapter_keeps (actions_ok R ok owner c) (actions_of R c) ad" and m: "managed_ok m"
  shows "kept (check_applied_by_customer R c now m ad) managed_ok"
  unfolding check_applied_by_customer_def
  by (intro keeps_andthen [OF keeps_of_result [where Q = "\<lambda>_. True"]]
      keeps_if kept_save keeps_andthen [OF keeps_read [OF ad]]
      keeps_andthen [OF kept_save] kept_verify [OF ad])
    (auto dest: move_ok [OF m] move_applied_ok noted_ok [OF m, unfolded noted_def])

lemma kept_execute_from:
  assumes ads: "\<And>site. keeps (actions_ok R ok owner c) (actions_of R c) (adapter_for site)
      (adapter_keeps (actions_ok R ok owner c) (actions_of R c))"
    and m: "managed_ok m"
  shows "kept (execute_from R c adapter_for now i m) (\<lambda>_. True)"
proof -
  let ?good = "\<lambda>k. case k of Inl ad \<Rightarrow> adapter_keeps (actions_ok R ok owner c) (actions_of R c) ad | Inr d \<Rightarrow> True"
  have first: "kept (noting (note_error R c now i ''execution_error'')
      (andthen (adapter_for (mg_site_id m)) (\<lambda>ad.
       if ad_manual_apply ad
       then if mg_status m = EXECUTED
         then andthen (verify_and_save R c now m ad) (\<lambda>m'. ret (Inr (summary m' False)))
         else if mg_status m \<noteq> APPROVED then ret (Inr (summary m True))
         else andthen (check_applied_by_customer R c now m ad) (\<lambda>m'. ret (Inr (summary m' False)))
       else ret (Inl ad)))) ?good"
    by (intro keeps_noting kept_note keeps_andthen [OF ads] keeps_if keeps_ret
        keeps_andthen [OF kept_verify] keeps_andthen [OF kept_check_applied]) (auto simp: m)
  have claim: "kept (if mg_status m = APPROVED then save R c now (move now m EXECUTING ''execution_started'' [])
      else ret m) managed_ok"
    by (intro keeps_if kept_save keeps_ret) (auto simp: m dest: move_ok [OF m])
  have second: "kept (noting (note_error R c now i ''execution_error'')
      (if mg_status m' = EXECUTED
       then andthen (verify_and_save R c now m' ad) (\<lambda>m2. ret (summary m2 False))
       else andthen (carry_out R c now m' ad) (\<lambda>m2. ret (summary m2 False)))) (\<lambda>_. True)"
    if "managed_ok m'" and "adapter_keeps (actions_ok R ok owner c) (actions_of R c) ad" for m' ad
    by (intro keeps_noting kept_note keeps_if keeps_ret
        keeps_andthen [OF kept_verify] keeps_andthen [OF kept_carry_out]) (auto simp: that)
  show ?thesis
    unfolding execute_from_def
    by (intro keeps_if keeps_ret keeps_andthen [OF first] keeps_sum keeps_andthen [OF claim] second) simp_all
qed

lemma kept_execute:
  assumes "\<And>site. keeps (actions_ok R ok owner c) (actions_of R c) (adapter_for site)
      (adapter_keeps (actions_ok R ok owner c) (actions_of R c))"
  shows "kept (execute_action R c adapter_for now i) (\<lambda>_. True)"
  unfolding execute_action_def by (rule keeps_andthen [OF kept_get kept_execute_from [OF assms]])

lemma kept_rollback:
  assumes ads: "\<And>site. keeps (actions_ok R ok owner c) (actions_of R c) (adapter_for site)
      (adapter_keeps (actions_ok R ok owner c) (actions_of R c))"
  shows "kept (rollback_action R c adapter_for now i actor) (\<lambda>_. True)"
proof -
  have byc: "kept (rollback_by_customer R c now m applied ad actor) managed_ok"
    if "managed_ok m" "adapter_keeps (actions_ok R ok owner c) (actions_of R c) ad" for m applied ad
    unfolding rollback_by_customer_def
    by (intro keeps_andthen [OF keeps_of_result [where Q = "\<lambda>_. True"]] keeps_if
        kept_save keeps_andthen [OF keeps_read [OF that(2)]])
      (auto dest: noted_ok [OF that(1)] rolled_back_ok [OF that(1)])
  have exactly: "kept (rollback_exactly R c now m applied change ad actor) managed_ok"
    if "managed_ok m" "adapter_keeps (actions_ok R ok owner c) (actions_of R c) ad" for m applied change ad
    unfolding rollback_exactly_def Let_def
    by (intro keeps_andthen [OF keeps_of_result [where Q = "\<lambda>_. True"]] keeps_if
        kept_save keeps_andthen [OF keeps_read [OF that(2)]] keeps_raise
        keeps_andthen [OF keeps_rollback_change [OF that(2)]])
      (auto dest: noted_ok [OF that(1)] rolled_back_ok [OF that(1)])
  have rewriting: "kept (rollback_by_rewriting R c now m applied ad actor) managed_ok"
    if "managed_ok m" "adapter_keeps (actions_ok R ok owner c) (actions_of R c) ad" for m applied ad
    unfolding rollback_by_rewriting_def Let_def
    by (intro keeps_andthen [OF keeps_of_result [where Q = "\<lambda>_. True"]] keeps_if
        kept_save keeps_andthen [OF keeps_read [OF that(2)]]
        keeps_andthen [OF keeps_write [OF that(2)]])
      (auto dest: noted_ok [OF that(1)] rolled_back_ok [OF that(1)])
  have "kept (rollback_from R c adapter_for now i actor m) (\<lambda>_. True)" if m: "managed_ok m" for m
    unfolding rollback_from_def
    by (intro keeps_if keeps_ret keeps_noting kept_note
        keeps_andthen [OF keeps_of_result [where Q = "\<lambda>_. True"]] keeps_andthen [OF ads])
      (auto split: option.split intro!: keeps_raise keeps_ret keeps_andthen [OF byc [OF m]]
        keeps_andthen [OF exactly [OF m]] keeps_andthen [OF rewriting [OF m]])
  then show ?thesis unfolding rollback_action_def by (rule keeps_andthen [OF kept_get])
qed

lemma save_lands:
  assumes "actions_ok R ok owner c s" and "actions_of R c s i = Some m" and "managed_ok m'"
    and "mg_action_id m' = i" and "mg_tenant_id m' = mg_tenant_id m" and "prefix (mg_history m) (mg_history m')"
  shows "\<exists>s'. save R c now (Inr m') s = (Inr m', s') \<and> actions_ok R ok owner c s'
    \<and> actions_of R c s' = (actions_of R c s)(i \<mapsto> m')"
  using update_lands [OF assms(1), of m' m now] assms(2-)
  by (simp add: save_def andthen_def of_result_def)

text \<open>Reading the page back and recording what it shows.\<close>

lemma verify_lands:
  assumes ok: "actions_ok R ok owner c s" and st: "actions_of R c s i = Some m" and exe: "mg_status m = EXECUTED"
    and read: "read_page ad m s = (Inr pg, s1)" and alone: "leaves_alone (actions_ok R ok owner c) (actions_of R c) (read_page ad m)"
    and a: "asks_for (mg_action m) f target" and shown: "squash (on_page f pg) = squash target" and meta: "stored_string f pg"
  shows "\<exists>m' s'. verify_and_save R c now m ad s = (Inr m', s') \<and> actions_ok R ok owner c s'
    \<and> actions_of R c s' = (actions_of R c s)(i \<mapsto> m') \<and> mg_status m' = MEASUREMENT_WINDOW_ACTIVE
    \<and> mg_error m' = None \<and> mg_applied m' = mg_applied m
    \<and> (\<exists>es. mg_history m' = mg_history m @ es \<and> map ev_status es = [WAITING_FOR_RECRAWL, MEASUREMENT_WINDOW_ACTIVE])"
proof -
  have m: "managed_ok m" "mg_action_id m = i" using stored_good [OF ok st] by simp_all
  obtain w where w: "move now m WAITING_FOR_RECRAWL ''waiting_for_recrawl'' [] = Inr w"
    using move_lands [OF m(1), of WAITING_FOR_RECRAWL "''waiting_for_recrawl''" now "[]"] exe
    by (auto simp: can_transition_def)
  note ww = move_ok [OF m(1) w]
  have aw: "asks_for (mg_action w) f target" using a ww asks_for_same by blast
  obtain m' where m': "verified_with now w pg = Inr m'" "mg_status m' = MEASUREMENT_WINDOW_ACTIVE" "mg_error m' = None"
    "mg_applied m' = mg_applied w" "mg_history m' = mg_history w @ [last (mg_history m')]"
    using verified_with_shown [of w f target pg now] ww aw shown meta by blast
  obtain ew where ew: "mg_history w = mg_history m @ [ew]" using ww by blast
  obtain em where em: "mg_history m' = mg_history w @ [em]" using m'(5) by blast
  have m'ok: "managed_ok m'" "mg_action_id m' = mg_action_id w"
    using verified_with_ok [OF _ _ m'(1)] ww by auto
  have s1: "actions_ok R ok owner c s1" "actions_of R c s1 i = Some m"
    using leaves_aloneD [OF alone ok read] st by auto
  have "mg_tenant_id m' = mg_tenant_id m"
    using m'(1) ww by (auto simp: verified_with_def and_maybe_Inr Let_def record_event_Inr)
  moreover have "prefix (mg_history m) (mg_history m')"
    using em ew by (simp add: prefix_def)
  ultimately obtain s' where s': "save R c now (Inr m') s1 = (Inr m', s')" "actions_ok R ok owner c s'"
    "actions_of R c s' = (actions_of R c s1)(i \<mapsto> m')"
    using save_lands [OF s1 m'ok(1), of now] m'ok(2) ww m(2) by auto
  have "read_page ad w = read_page ad m" using read_page_same move_site [OF w] by blast
  then have run: "verify_and_save R c now m ad s = (Inr m', s')"
    using w read m'(1) s'(1)
    by (simp add: verify_and_save_def verify_managed_def andthen_def of_result_def save_def)
  have "lawful m'" "lawful w" using m'ok(1) ww by (simp_all add: managed_ok_def)
  then have "ev_status em = MEASUREMENT_WINDOW_ACTIVE" "ev_status ew = WAITING_FOR_RECRAWL"
    using m'(2) ww em ew by (simp_all add: lawful_def statuses_def)
  then have "\<exists>es. mg_history m' = mg_history m @ es \<and> map ev_status es = [WAITING_FOR_RECRAWL, MEASUREMENT_WINDOW_ACTIVE]"
    using em ew by (intro exI [of _ "[ew, em]"]) simp
  moreover have "actions_of R c s1 = actions_of R c s" using leaves_aloneD [OF alone ok read] by simp
  ultimately show ?thesis using run s' m' ww by auto
qed

text \<open>Claiming an approved action before its site is touched.\<close>

lemma claim_lands:
  assumes ok: "actions_ok R ok owner c s" and st: "actions_of R c s i = Some m" and ap: "mg_status m = APPROVED"
  shows "\<exists>m' s'. save R c now (move now m EXECUTING ''execution_started'' []) s = (Inr m', s')
    \<and> actions_ok R ok owner c s' \<and> actions_of R c s' = (actions_of R c s)(i \<mapsto> m') \<and> managed_ok m'
    \<and> mg_action_id m' = i \<and> mg_status m' = EXECUTING \<and> mg_applied m' = mg_applied m
    \<and> mg_observed_value m' = mg_observed_value m \<and> mg_tenant_id m' = mg_tenant_id m
    \<and> mg_site_id m' = mg_site_id m \<and> ac_normalized_url (mg_action m') = ac_normalized_url (mg_action m)
    \<and> ac_parameters (mg_action m') = ac_parameters (mg_action m)
    \<and> ac_action_type (mg_action m') = ac_action_type (mg_action m)
    \<and> (\<exists>e. mg_history m' = mg_history m @ [e] \<and> ev_status e = EXECUTING)"
proof -
  have m: "managed_ok m" "mg_action_id m = i" using stored_good [OF ok st] by simp_all
  obtain k where k: "move now m EXECUTING ''execution_started'' [] = Inr k"
    using move_lands [OF m(1), of EXECUTING "''execution_started''" now "[]"] ap by (auto simp: can_transition_def)
  note kk = move_ok [OF m(1) k]
  obtain e where e: "mg_history k = mg_history m @ [e]" using kk by blast
  have "lawful k" using kk by (simp add: managed_ok_def)
  then have "ev_status e = EXECUTING" using kk e by (simp add: lawful_def statuses_def)
  moreover obtain s' where "save R c now (Inr k) s = (Inr k, s')" "actions_ok R ok owner c s'"
    "actions_of R c s' = (actions_of R c s)(i \<mapsto> k)"
    using save_lands [OF ok st, of k now] kk m(2) e by (auto simp: prefix_def)
  ultimately show ?thesis using k kk e m(2) move_site [OF k] by auto
qed

text \<open>A claim made from a copy that somebody has since decided on is refused.\<close>

lemma claim_loses:
  assumes ok: "actions_ok R ok owner c s" and st: "actions_of R c s (mg_action_id m) = Some m0"
    and m: "managed_ok m" and ap: "mg_status m = APPROVED"
    and decided: "mg_history m0 = mg_history m @ e # es" "ev_status e \<noteq> EXECUTING"
  shows "save R c now (move now m EXECUTING ''execution_started'' []) s
    = (Inl (Exn ActionChangedError (''action changed since it was read: '' @ mg_action_id m)), s)"
proof -
  obtain k where k: "move now m EXECUTING ''execution_started'' [] = Inr k"
    using move_lands [OF m, of EXECUTING "''execution_started''" now "[]"] ap by (auto simp: can_transition_def)
  note kk = move_ok [OF m k]
  obtain d where d: "mg_history k = mg_history m @ [d]" using kk by blast
  have "lawful k" using kk by (simp add: managed_ok_def)
  then have "ev_status d = EXECUTING" using kk d by (simp add: lawful_def statuses_def)
  then have "\<not> prefix (mg_history m0) (mg_history k)" using decided d by auto
  then show ?thesis using update_stale [OF ok, of k m0 now] st k kk by (simp add: save_def andthen_def of_result_def)
qed

end

section \<open>Beside the site's own world\<close>

text \<open>A call that changes the world only.\<close>

definition on_world :: "('w \<Rightarrow> (exn + 'a) \<times> 'w) \<Rightarrow> ('s \<times> 'w, 'a) prog" where
  "on_world g = (\<lambda>(a, w). let (x, w') = g w in (x, (a, w')))"

lemma on_world_run: "g w = (x, w') \<Longrightarrow> on_world g (a, w) = (x, (a, w'))"
  by (simp add: on_world_def)

abbreviation site_ops :: "('p memory \<times> 'w, 'p) repository_ops" where "site_ops \<equiv> beside memory_ops"
abbreviation site_ok :: "(managed, 'p) codec \<Rightarrow> 'p memory \<times> 'w \<Rightarrow> bool" where
  "site_ok \<equiv> actions_ok (beside memory_ops) (\<lambda>s. mem_ok (fst s)) (\<lambda>s. mem_owner (fst s))"
abbreviation site_actions :: "(managed, 'p) codec \<Rightarrow> 'p memory \<times> 'w \<Rightarrow> string \<Rightarrow> managed option" where
  "site_actions \<equiv> actions_of (beside memory_ops)"

interpretation mem_actions: action_store "beside memory_ops" "\<lambda>s. mem_ok (fst s)" "\<lambda>s. mem_owner (fst s)" plain_codec
  by unfold_locales simp

lemma actions_beside_memory:
  "codec_ok managed_valid c \<Longrightarrow> action_store (beside memory_ops) (\<lambda>s. mem_ok (fst s)) (\<lambda>s. mem_owner (fst s)) c"
  by (simp add: action_store_def action_store_axioms_def mem_beside.repository_axioms)

lemma site_world: "site_ok c (a, w') = site_ok c (a, w)" "site_actions c (a, w') = site_actions c (a, w)"
  by (simp_all add: actions_ok_def store_ok_def actions_of_def model_of_def fun_eq_iff)

lemma update_world: "action_update site_ops c now m (a, w) = (r, (a', w')) \<Longrightarrow> w' = w"
  by (auto simp: action_update_def andthen_def reads_def of_result_def updates_def ret_def raise_exn_def and_maybe_def
      split: option.splits sum.splits if_splits)

lemma save_world: "save site_ops c now r (a, w) = (x, (a', w')) \<Longrightarrow> w' = w"
  by (cases r) (auto simp: save_def andthen_def of_result_def dest: update_world)

text \<open>The site as a run of the handler sees it: what it shows, what it answers to the write.\<close>

definition site_is ::
  "('p memory \<times> 'w) adapter \<Rightarrow> managed \<Rightarrow> page_field \<Rightarrow> string \<Rightarrow> ('w \<Rightarrow> (exn + page) \<times> 'w)
   \<Rightarrow> ('w \<Rightarrow> (exn + operation_result) \<times> 'w) \<Rightarrow> bool" where
  "site_is ad m f target rd wr \<longleftrightarrow> \<not> ad_manual_apply ad \<and> ad_adapter_id ad \<noteq> []
     \<and> missing_capabilities (mg_action m) ad = []
     \<and> ad_read_page ad (mg_site_id m) (ac_normalized_url (mg_action m)) = on_world rd
     \<and> field_write f ad (mg_site_id m) (ac_normalized_url (mg_action m)) target (''action:'' @ mg_action_id m)
         = on_world wr"

text \<open>Whether the page still shows what the customer approved replacing.\<close>

definition as_proposed :: "managed \<Rightarrow> page_field \<Rightarrow> page \<Rightarrow> bool" where
  "as_proposed m f pg \<longleftrightarrow> (case mg_observed_value m of None \<Rightarrow> True | Some v \<Rightarrow> squash (on_page f pg) = squash v)"

lemma move_applied_lands:
  assumes m: "managed_ok m" and st: "mg_status m = EXECUTING" and ad: "adapter \<noteq> []" and why: "reason \<noteq> []"
  shows "\<exists>m' e. move_applied now m reason adapter change previous new = Inr m' \<and> managed_ok m'
    \<and> mg_action_id m' = mg_action_id m \<and> mg_tenant_id m' = mg_tenant_id m \<and> mg_status m' = EXECUTED
    \<and> mg_error m' = None
    \<and> mg_applied m' = Some \<lparr>ap_adapter_id = adapter, ap_change_id = change, ap_previous_value = previous,
         ap_new_value = new, ap_applied_at = now\<rparr>
    \<and> mg_history m' = mg_history m @ [e] \<and> ev_status e = EXECUTED
    \<and> mg_site_id m' = mg_site_id m \<and> ac_normalized_url (mg_action m') = ac_normalized_url (mg_action m)
    \<and> ac_parameters (mg_action m') = ac_parameters (mg_action m)
    \<and> ac_action_type (mg_action m') = ac_action_type (mg_action m)"
proof -
  let ?ap = "\<lparr>ap_adapter_id = adapter, ap_change_id = change, ap_previous_value = previous,
         ap_new_value = new, ap_applied_at = now\<rparr>"
  obtain k where k: "move now m EXECUTED reason [(''adapter_id'', PStr adapter)] = Inr k"
    using move_lands [OF m, of EXECUTED reason now] st why by (auto simp: can_transition_def)
  note kk = move_ok [OF m k]
  let ?m' = "k\<lparr>mg_applied := Some ?ap, mg_error := None\<rparr>"
  have run: "move_applied now m reason adapter change previous new = Inr ?m'"
    using k ad by (simp add: move_applied_def new_applied_def)
  obtain e where e: "mg_history k = mg_history m @ [e]" using kk by blast
  have "lawful k" using kk by (simp add: managed_ok_def)
  then have "ev_status e = EXECUTED" using kk e by (simp add: lawful_def statuses_def)
  then show ?thesis
    using run move_applied_ok [OF m run] kk e move_site [OF k] by (intro exI [of _ ?m'] exI [of _ e]) simp
qed

text \<open>The write and its record, up to the point where the page is read back.\<close>

lemma write_recorded:
  assumes c: "codec_ok managed_valid c" and ok: "site_ok c (a, w0)" and st: "site_actions c (a, w0) i = Some m"
    and exe: "mg_status m = EXECUTING" and asks: "asks_for (mg_action m) f target" and site: "site_is ad m f target rd wr"
    and rd: "rd w0 = (Inr pg, w1)" and wr: "wr w1 = (Inr op, w2)" and op: "or_success op"
    and page: "squash (on_page f pg) \<noteq> squash target" "as_proposed m f pg"
  shows "\<exists>a' m' e. carry_out site_ops c now m ad (a, w0) = verify_and_save site_ops c now m' ad (a', w2)
    \<and> site_ok c (a', w2) \<and> site_actions c (a', w2) = (site_actions c (a, w0))(i \<mapsto> m')
    \<and> mg_status m' = EXECUTED \<and> asks_for (mg_action m') f target \<and> mg_error m' = None
    \<and> mg_site_id m' = mg_site_id m \<and> ac_normalized_url (mg_action m') = ac_normalized_url (mg_action m)
    \<and> mg_applied m' = Some \<lparr>ap_adapter_id = ad_adapter_id ad, ap_change_id = or_change_id op,
         ap_previous_value = on_page f pg, ap_new_value = target, ap_applied_at = now\<rparr>
    \<and> mg_history m' = mg_history m @ [e] \<and> ev_status e = EXECUTED"
proof -
  note S = actions_beside_memory [OF c]
  have m: "managed_ok m" "mg_action_id m = i" using action_store.stored_good [OF S ok st] by simp_all
  obtain m' e where m': "move_applied now m ''execution_succeeded'' (ad_adapter_id ad) (or_change_id op)
      (on_page f pg) target = Inr m'" "managed_ok m'"
    "mg_action_id m' = mg_action_id m" "mg_tenant_id m' = mg_tenant_id m" "mg_status m' = EXECUTED" "mg_error m' = None"
    "mg_applied m' = Some \<lparr>ap_adapter_id = ad_adapter_id ad, ap_change_id = or_change_id op,
         ap_previous_value = on_page f pg, ap_new_value = target, ap_applied_at = now\<rparr>"
    "mg_history m' = mg_history m @ [e]" "ev_status e = EXECUTED"
    "mg_site_id m' = mg_site_id m" "ac_normalized_url (mg_action m') = ac_normalized_url (mg_action m)"
    "ac_parameters (mg_action m') = ac_parameters (mg_action m)"
    "ac_action_type (mg_action m') = ac_action_type (mg_action m)"
    using move_applied_lands [OF m(1) exe, of "ad_adapter_id ad" "''execution_succeeded''" now "or_change_id op"
        "on_page f pg" target] site by (auto simp: site_is_def)
  have ok2: "site_ok c (a, w2)" "site_actions c (a, w2) i = Some m" using ok st site_world by metis+
  obtain s' where s': "save site_ops c now (Inr m') (a, w2) = (Inr m', s')" "site_ok c s'"
    "site_actions c s' = (site_actions c (a, w2))(i \<mapsto> m')"
    using action_store.save_lands [OF S ok2, of m' now] m' m(2) by (auto simp: prefix_def)
  obtain a' w' where aw: "s' = (a', w')" by force
  have w': "w' = w2" using save_world [OF s'(1) [unfolded aw]] by simp
  have asks': "asks_for (mg_action m') f target" using asks_for_same m'(12,13) asks by blast
  have guard: "\<not> (squash (on_page f pg) \<noteq> squash target
      \<and> (case mg_observed_value m of None \<Rightarrow> False | Some v \<Rightarrow> squash (on_page f pg) \<noteq> squash v))"
    using page by (auto simp: as_proposed_def split: option.splits)
  have "carry_out site_ops c now m ad (a, w0) = verify_and_save site_ops c now m' ad s'"
    using asks site rd wr op page(1) guard m'(1) s'(1)
    by (simp add: carry_out_def andthen_def of_result_def asks_for_def site_is_def read_page_def on_world_def Let_def)
  moreover have "site_actions c (a, w2) = site_actions c (a, w0)" by (rule site_world)
  ultimately show ?thesis using s' m' aw w' asks' by (intro exI [of _ a'] exI [of _ m'] exI [of _ e]) simp
qed

lemma verify_world:
  assumes "verify_and_save site_ops c now m ad (a, w) = (Inr m', (a', w'))" and "read_page ad m (a, w) = (Inr pg, (a, w3))"
  shows "w' = w3"
proof -
  obtain k where k: "move now m WAITING_FOR_RECRAWL ''waiting_for_recrawl'' [] = Inr k"
    using assms(1) by (cases "move now m WAITING_FOR_RECRAWL ''waiting_for_recrawl'' []")
      (auto simp: verify_and_save_def verify_managed_def andthen_def of_result_def)
  have "read_page ad k = read_page ad m" using read_page_same move_site [OF k] by blast
  then have "andthen (of_result (verified_with now k pg)) (action_update site_ops c now) (a, w3) = (Inr m', (a', w'))"
    using assms k by (simp add: verify_and_save_def verify_managed_def andthen_def of_result_def)
  then show ?thesis by (cases "verified_with now k pg") (auto simp: andthen_def of_result_def dest: update_world)
qed

lemma automatic_site:
  "adapter_for site = ret ad \<Longrightarrow> \<not> ad_manual_apply ad \<Longrightarrow>
    andthen (noting note (andthen (adapter_for site) (\<lambda>ad. if ad_manual_apply ad then X ad else ret (Inl ad)))) K s
      = K (Inl ad) s"
  by (simp add: noting_def andthen_def attempt_def ret_def)

lemma execute_from_automatic:
  assumes "mg_status m \<in> {APPROVED, EXECUTING, EXECUTED}" and "adapter_for (mg_site_id m) = ret ad" and "\<not> ad_manual_apply ad"
  shows "execute_from R c adapter_for now i m s =
    andthen (if mg_status m = APPROVED then save R c now (move now m EXECUTING ''execution_started'' []) else ret m)
      (\<lambda>m'. noting (note_error R c now i ''execution_error'')
        (if mg_status m' = EXECUTED
         then andthen (verify_and_save R c now m' ad) (\<lambda>m2. ret (summary m2 False))
         else andthen (carry_out R c now m' ad) (\<lambda>m2. ret (summary m2 False)))) s"
proof -
  have going: "\<not> mg_status m \<notin> {APPROVED, EXECUTING, EXECUTED}" using assms(1) by simp
  show ?thesis
    unfolding execute_from_def if_not_P [OF going] 
      automatic_site [of adapter_for "mg_site_id m" ad, OF assms(2,3)] by simp
qed

lemma read_world_alone:
  "ad_read_page ad (mg_site_id m) (ac_normalized_url (mg_action m)) = on_world rd \<Longrightarrow>
    leaves_alone (site_ok c) (site_actions c) (read_page ad m)"
  using site_world by (fastforce simp: leaves_alone_def read_page_def on_world_def split: prod.splits)

text \<open>The handler on a stored, approved action, once its adapter is known.\<close>

lemma execute_claims:
  assumes c: "codec_ok managed_valid c" and ok: "site_ok c (a, w)" and st: "site_actions c (a, w) i = Some m"
    and ap: "mg_status m = APPROVED" and ad: "adapter_for (mg_site_id m) = ret ad" and auto: "\<not> ad_manual_apply ad"
  shows "\<exists>a' m' e. site_ok c (a', w) \<and> site_actions c (a', w) = (site_actions c (a, w))(i \<mapsto> m') \<and> managed_ok m'
    \<and> mg_action_id m' = i \<and> mg_status m' = EXECUTING \<and> mg_applied m' = mg_applied m
    \<and> mg_observed_value m' = mg_observed_value m \<and> mg_site_id m' = mg_site_id m
    \<and> ac_normalized_url (mg_action m') = ac_normalized_url (mg_action m)
    \<and> ac_parameters (mg_action m') = ac_parameters (mg_action m)
    \<and> ac_action_type (mg_action m') = ac_action_type (mg_action m)
    \<and> mg_history m' = mg_history m @ [e] \<and> ev_status e = EXECUTING
    \<and> execute_action site_ops c adapter_for now i (a, w) =
        noting (note_error site_ops c now i ''execution_error'')
          (andthen (carry_out site_ops c now m' ad) (\<lambda>m2. ret (summary m2 False))) (a', w)"
proof -
  note S = actions_beside_memory [OF c]
  obtain m' s' where k: "save site_ops c now (move now m EXECUTING ''execution_started'' []) (a, w) = (Inr m', s')"
    "site_ok c s'" "site_actions c s' = (site_actions c (a, w))(i \<mapsto> m')" "managed_ok m'"
    "mg_action_id m' = i" "mg_status m' = EXECUTING" "mg_applied m' = mg_applied m"
    "mg_observed_value m' = mg_observed_value m" "mg_site_id m' = mg_site_id m"
    "ac_normalized_url (mg_action m') = ac_normalized_url (mg_action m)"
    "ac_parameters (mg_action m') = ac_parameters (mg_action m)"
    "ac_action_type (mg_action m') = ac_action_type (mg_action m)"
    "\<exists>e. mg_history m' = mg_history m @ [e] \<and> ev_status e = EXECUTING"
    using action_store.claim_lands [OF S ok st ap, of now] by blast
  obtain e where e: "mg_history m' = mg_history m @ [e]" "ev_status e = EXECUTING" using k(13) by blast
  obtain a' w' where aw: "s' = (a', w')" by force
  have w': "w' = w" using save_world [OF k(1) [unfolded aw]] by simp
  have "execute_action site_ops c adapter_for now i (a, w) = execute_from site_ops c adapter_for now i m (a, w)"
    using action_store.get_spec [OF S ok, of i] st by (simp add: execute_action_def andthen_def)
  also have "\<dots> = noting (note_error site_ops c now i ''execution_error'')
          (andthen (carry_out site_ops c now m' ad) (\<lambda>m2. ret (summary m2 False))) (a', w)"
    using execute_from_automatic [of m adapter_for ad, OF _ ad auto, of site_ops c now i "(a, w)"] ap k(1,6) aw w'
    by (simp add: andthen_Inr)
  finally show ?thesis using k(2-12) e aw w' by (intro exI [of _ a'] exI [of _ m'] exI [of _ e]) simp
qed

end
