(* ===== verification/Action_Life.thy ===== *)
theory Action_Life
  imports Executor_Store
begin

text \<open>
  The life of an approved change: proposing it, deciding on it and running the handlers, in
  any order and from copies of any age, as a step relation on the store beside the site; and
  what holds of every action that ever comes to be stored.
\<close>

section \<open>Proposals and decisions keep an action good\<close>

lemma clean_title_Inr:
  "clean_title t = Inr x \<longleftrightarrow> x = squash t \<and> x \<noteq> [] \<and> int (length x) \<le> max_title_length"
  by (auto simp: clean_title_def Let_def)

lemma propose_ok:
  assumes "propose_title_change now a run tenant proposal title current provider alternatives = Inr m"
    and "action_valid a"
  shows "managed_ok m \<and> mg_status m = AWAITING_APPROVAL \<and> mg_tenant_id m = tenant \<and> mg_applied m = None"
  using assms
  by (auto simp: propose_title_change_def and_maybe_Inr new_event_def Let_def managed_ok_def managed_valid_def
      lawful_def statuses_def action_valid_def split: if_splits)

lemma with_edit_Inr:
  "with_edit a title = Inr (b, d) \<Longrightarrow> ac_action_id b = ac_action_id a \<and> ac_status b = ac_status a
     \<and> ac_site_id b = ac_site_id a \<and> ac_normalized_url b = ac_normalized_url a
     \<and> ac_action_type b = ac_action_type a \<and> action_valid b = action_valid a"
  by (auto simp: with_edit_def and_maybe_Inr Let_def action_valid_def split: if_splits)

lemma approve_ok:
  assumes m: "managed_ok m" and ap: "approve now m actor title why = Inr m'"
  shows "managed_ok m' \<and> mg_status m = AWAITING_APPROVAL \<and> mg_status m' = APPROVED \<and> mg_action_id m' = mg_action_id m
    \<and> mg_tenant_id m' = mg_tenant_id m \<and> mg_applied m' = mg_applied m
    \<and> mg_history m' = mg_history m @ [last (mg_history m')]"
proof -
  obtain a edits r where st: "mg_status m = AWAITING_APPROVAL"
    and a: "(case title of None \<Rightarrow> Inr (mg_action m, []) | Some t \<Rightarrow> with_edit (mg_action m) t) = Inr (a, edits)"
    and r: "transition_action a APPROVED ''approved'' [] = Inr r"
    and e: "record_event now m (lr_action r) actor ''approved'' (note_detail why @ edits) = Inr m'"
    using ap by (auto simp: approve_def and_maybe_Inr require_status_def split: if_splits)
  have aa: "ac_action_id a = mg_action_id m" "ac_status a = mg_status m" "action_valid a = action_valid (mg_action m)"
    using a by (auto split: option.splits dest: with_edit_Inr)
  note t = transition_action_Inr [OF r]
  have "mg_rolled_back m = None" using m st by (simp add: managed_ok_not_rolled)
  moreover have "action_valid (mg_action m)" using m by (simp add: managed_ok_def managed_valid_def)
  ultimately show ?thesis
    using managed_ok_record [OF m e] t aa st by (auto simp: step_allowed_def)
qed

lemma reject_ok:
  assumes m: "managed_ok m" and rj: "reject now m actor reason = Inr m'"
  shows "managed_ok m' \<and> mg_status m' = REJECTED \<and> mg_action_id m' = mg_action_id m
    \<and> mg_tenant_id m' = mg_tenant_id m \<and> mg_history m' = mg_history m @ [last (mg_history m')]"
proof -
  obtain r where r: "transition_action (mg_action m) REJECTED ''rejected'' [] = Inr r"
    and st: "mg_status m \<in> {AWAITING_APPROVAL, APPROVED}"
    and e: "record_event now m (lr_action r) actor ''rejected'' (note_detail reason) = Inr m'"
    using rj by (auto simp: reject_def and_maybe_Inr require_status_def split: if_splits)
  note t = transition_action_Inr [OF r]
  have "mg_rolled_back m = None" using m st by (auto simp: managed_ok_not_rolled)
  moreover have "action_valid (mg_action m)" using m by (simp add: managed_ok_def managed_valid_def)
  ultimately show ?thesis
    using managed_ok_record [OF m e] t by (auto simp: step_allowed_def)
qed

section \<open>Every step keeps the store\<close>

context action_store
begin

lemma keeps_create:
  assumes good: "managed_ok m"
  shows "keeps (actions_ok R ok owner c) (actions_of R c) (action_create R c now m) managed_ok"
  unfolding keeps_def
proof (intro allI impI)
  fix s assume ok: "actions_ok R ok owner c s"
  have so: "store_ok R ok owner ''action'' action_kind c action_good s" using ok by (simp add: actions_ok_def)
  obtain r where r: "action_to_record c now m 1 = Inr r"
    "store_record ''action'' action_kind c (mg_action_id m) 1 m r" "pr_tenant_id r = Some (mg_tenant_id m)"
    using record_ok [OF good, of 1 now] by auto
  have step: "action_create R c now m s = (case repo_create R s r of Inl e \<Rightarrow> (Inl e, s) | Inr s' \<Rightarrow> (Inr m, s'))"
    using r(1) by (simp add: action_create_def andthen_def of_result_def updates_def ret_def split: sum.split)
  show "actions_ok R ok owner c (snd (action_create R c now m s))
      \<and> histories_extend (actions_of R c s) (actions_of R c (snd (action_create R c now m s)))
      \<and> (\<forall>x. fst (action_create R c now m s) = Inr x \<longrightarrow> managed_ok x)"
  proof (cases "repo_get R s action_kind (mg_action_id m)")
    case (Some old)
    then have "\<exists>e. repo_create R s r = Inl e"
      using store_create_stale [OF so r(2)] by (auto simp: refused_def)
    then show ?thesis using step ok by (auto simp: histories_extend_refl)
  next
    case None
    obtain s' where s': "repo_create R s r = Inr s'" "written_to R ok owner s r s'"
      using store_create [OF so r(2) None] by blast
    have "actions_ok R ok owner c s'" "actions_of R c s' = (actions_of R c s)(mg_action_id m \<mapsto> m)"
      using store_written [OF so s'(2) r(2)] good r(3)
      by (simp_all add: actions_ok_def actions_of_def action_good_def)
    moreover have "actions_of R c s (mg_action_id m) = None" using None by (simp add: actions_of_def model_of_def)
    ultimately show ?thesis using step s'(1) good by (auto simp: histories_extend_def)
  qed
qed

end

section \<open>The system\<close>

text \<open>
  \<open>acting c adapter_for s s'\<close>: one proposal, decision or run of a handler. A decision starts
  from \<open>m\<close>, a copy some caller holds: any well-formed one, so any that was ever read.
\<close>

inductive acting ::
  "(managed, 'p) codec \<Rightarrow> (string \<Rightarrow> ('p memory \<times> 'w, ('p memory \<times> 'w) adapter) prog) \<Rightarrow> 'p memory \<times> 'w \<Rightarrow> 'p memory \<times> 'w \<Rightarrow> bool"
  for c and adapter_for where
  proposes: "propose_title_change now a run tenant proposal title current provider alternatives = Inr m \<Longrightarrow>
    action_valid a \<Longrightarrow> acting c adapter_for s (snd (action_create site_ops c now m s))"
| approves: "managed_ok m \<Longrightarrow> approve now m actor title why = Inr m' \<Longrightarrow>
    acting c adapter_for s (snd (action_update site_ops c now m' s))"
| rejects: "managed_ok m \<Longrightarrow> reject now m actor reason = Inr m' \<Longrightarrow>
    acting c adapter_for s (snd (action_update site_ops c now m' s))"
| executes: "acting c adapter_for s (snd (execute_action site_ops c adapter_for now i s))"
| undoes: "acting c adapter_for s (snd (rollback_action site_ops c adapter_for now i actor s))"

lemma acting_keeps:
  assumes c: "codec_ok managed_valid c"
    and ads: "\<And>site. keeps (site_ok c) (site_actions c) (adapter_for site) (adapter_keeps (site_ok c) (site_actions c))"
    and "acting c adapter_for s s'" and ok: "site_ok c s"
  shows "site_ok c s' \<and> histories_extend (site_actions c s) (site_actions c s')"
  using assms(3)
proof cases
  case (proposes now a run tenant proposal title current provider alternatives m)
  then have "managed_ok m" using propose_ok by blast
  then show ?thesis
    using proposes keeps_state [OF action_store.keeps_create [OF actions_beside_memory [OF c]] ok] by simp
next
  case (approves m now actor title why m')
  then have "managed_ok m'" using approve_ok by blast
  then show ?thesis
    using approves keeps_state [OF action_store.keeps_update [OF actions_beside_memory [OF c]] ok] by simp
next
  case (rejects m now actor reason m')
  then have "managed_ok m'" using reject_ok by blast
  then show ?thesis
    using rejects keeps_state [OF action_store.keeps_update [OF actions_beside_memory [OF c]] ok] by simp
next
  case (executes now i)
  then show ?thesis
    using keeps_state [OF action_store.kept_execute [OF actions_beside_memory [OF c] ads] ok] by simp
next
  case (undoes now i actor)
  then show ?thesis
    using keeps_state [OF action_store.kept_rollback [OF actions_beside_memory [OF c] ads] ok] by simp
qed

lemma acting_star_keeps:
  assumes c: "codec_ok managed_valid c"
    and ads: "\<And>site. keeps (site_ok c) (site_actions c) (adapter_for site) (adapter_keeps (site_ok c) (site_actions c))"
    and "(acting c adapter_for)\<^sup>*\<^sup>* s s'" and ok: "site_ok c s"
  shows "site_ok c s' \<and> histories_extend (site_actions c s) (site_actions c s')"
  using assms(3)
proof (induction rule: rtranclp_induct)
  case base
  show ?case using ok by (simp add: histories_extend_refl)
next
  case (step t u)
  then show ?case using acting_keeps [OF c ads step.hyps(2)] histories_extend_trans by blast
qed

section \<open>What an approved title asks for\<close>

lemma expected_items_Nil [simp]: "expected_items [] = []"
  by (simp add: expected_items_def)

lemma expected_items_Cons: "expected_items ((k, v) # d)
    = (if prefix ''expected_'' k then [(drop (length ''expected_'') k, v)] else []) @ expected_items d"
  by (simp add: expected_items_def)

lemma expected_items_update:
  "expected_items (AList.update k v d) = (if prefix ''expected_'' k
     then AList.update (drop (length ''expected_'') k) v (expected_items d) else expected_items d)"
proof (induction d)
  case Nil
  then show ?case by (simp add: expected_items_Cons)
next
  case (Cons x xs)
  have "drop (length ''expected_'') j = drop (length ''expected_'') k \<longleftrightarrow> j = k"
    if "prefix ''expected_'' k" "prefix ''expected_'' j" for j
    using that by (auto simp: prefix_def)
  then show ?case using Cons by (cases x) (auto simp: expected_items_Cons simp del: length_Cons list.size drop_Suc_Cons)
qed

lemma asks_title:
  "asks_for a TITLE t \<longleftrightarrow> field_of a = Inr TITLE
     \<and> map_of (ac_parameters a) ''recommended_title'' = Some (PStr t)
     \<and> map_of (ac_parameters a) ''expected_title'' = Some (PStr t)
     \<and> expected_items (ac_parameters a) = [(''title'', PStr t)]"
  by (auto simp: asks_for_def recommended_def expected_def string_parameter_def TITLE_def
      split: option.splits pyval.splits)

lemma title_name: "pf_name TITLE = ''title''"
  by (simp add: TITLE_def)

lemma field_of_same:
  "ac_action_type b = OPTIMIZE_TITLE \<Longrightarrow> field_of b = Inr TITLE"
  by (simp add: field_of_def)

text \<open>An edit replaces the title; one that is the proposal already changes nothing.\<close>

lemma edit_asks:
  assumes "asks_for a TITLE t0" and "ac_action_type a = OPTIMIZE_TITLE" and "with_edit a e = Inr (b, d)"
  shows "asks_for b TITLE (squash e) \<and> squash e \<noteq> [] \<and> int (length (squash e)) \<le> max_title_length"
proof -
  have f: "field_of a = Inr TITLE" "recommended TITLE a = Inr t0" using assms(1) by (auto simp: asks_for_def)
  have cl: "clean e TITLE = Inr (squash e)" "squash e \<noteq> []" "int (length (squash e)) \<le> max_title_length"
    using assms(3) f by (auto simp: with_edit_def and_maybe_Inr clean_def Let_def TITLE_def split: if_splits)
  have "asks_for b TITLE (squash e)"
  proof (cases "squash e = t0")
    case True
    then show ?thesis using assms(1,3) f cl(1) by (auto simp: with_edit_def)
  next
    case False
    then show ?thesis using assms f cl(1)
      by (auto simp: with_edit_def Let_def asks_title field_of_same expected_items_update update_conv' title_name)
  qed
  then show ?thesis using cl by simp
qed

section \<open>Properties\<close>

definition demo_snapshot :: snapshot where
  "demo_snapshot = \<lparr>sn_snapshot_id = ''s'', sn_data_snapshot_id = ''d'', sn_rule_version = ''1'',
     sn_config_version = ''1'', sn_generated_at = 0\<rparr>"

definition demo_plan :: action where
  "demo_plan = \<lparr>ac_action_id = ''a'', ac_strategy_id = ''st'', ac_opportunity_id = ''op'', ac_site_id = ''site'',
     ac_normalized_url = ''/p'', ac_normalized_query = ''q'', ac_strategy_type = SERP_TITLE_OPTIMIZATION,
     ac_action_type = OPTIMIZE_TITLE, ac_status = AWAITING_APPROVAL, ac_risk_level = LOW, ac_confidence_score = 1,
     ac_expected_impact_score = 1, ac_priority_score = 1, ac_requires_approval = True, ac_reasons = [],
     ac_parameters = [], ac_evidence = [], ac_snapshot = demo_snapshot\<rparr>"

definition demo_proposed :: managed where
  "demo_proposed = projr (propose_title_change 0 demo_plan ''r1'' ''t'' ''p1'' ''New  title'' (Some ''Old'') None [''Other''])"

definition demo_approved :: managed where
  "demo_approved = projr (approve 1 demo_proposed ''jo'' (Some '' Other '') None)"

definition demo_pending :: "managed memory" where
  "demo_pending = fst (snd (action_create site_ops plain_codec 0 demo_proposed (empty_memory, ())))"

lemma demo_proposes:
  "propose_title_change 0 demo_plan ''r1'' ''t'' ''p1'' ''New  title'' (Some ''Old'') None [''Other''] = Inr demo_proposed"
  unfolding demo_proposed_def by code_simp

lemma demo_approves: "approve 1 demo_proposed ''jo'' (Some '' Other '') None = Inr demo_approved"
  unfolding demo_approved_def by code_simp

text \<open>
  C3. Whatever is proposed, decided and run, in whatever order, from copies of whatever age
  and with whatever failures of the site: a stored action stays stored and its history only
  grows, its statuses follow the state machine, and a change on record was approved and
  claimed before.
\<close>

theorem applied_was_approved:
  assumes "codec_ok managed_valid c"
    and "\<And>site. keeps (site_ok c) (site_actions c) (adapter_for site) (adapter_keeps (site_ok c) (site_actions c))"
    and "(acting c adapter_for)\<^sup>*\<^sup>* (empty_memory, w) s" and "(acting c adapter_for)\<^sup>*\<^sup>* s s'"
    and "site_actions c s i = Some m"
  shows "\<exists>m'. site_actions c s' i = Some m' \<and> prefix (mg_history m) (mg_history m') \<and> lawful m'
    \<and> (mg_applied m' \<noteq> None \<longrightarrow> {APPROVED, EXECUTING, EXECUTED} \<subseteq> set (statuses m'))"
proof -
  have "site_ok c (empty_memory, w)"
    by (simp add: actions_ok_def store_ok_def keeps_kind_empty memory_ops_def)
  then have s: "site_ok c s" using acting_star_keeps [OF assms(1-3)] by blast
  have s': "site_ok c s'" "histories_extend (site_actions c s) (site_actions c s')"
    using acting_star_keeps [OF assms(1,2,4) s] by simp_all
  then obtain m' where m': "site_actions c s' i = Some m'" "prefix (mg_history m) (mg_history m')"
    using assms(5) by (auto simp: histories_extend_def)
  then have ok: "managed_ok m'" using action_store.stored_good [OF actions_beside_memory [OF assms(1)] s'(1)] by blast
  have "{APPROVED, EXECUTING} \<subseteq> set (statuses m')" if "EXECUTED \<in> set (statuses m')"
  proof -
    obtain xs where xs: "statuses m' = AWAITING_APPROVAL # xs" "lawful_from AWAITING_APPROVAL xs"
      using ok by (cases "statuses m'") (auto simp: managed_ok_def lawful_def)
    show ?thesis using lawful_from_guards [OF xs(2), of "{}" EXECUTED] that xs(1) by simp
  qed
  then show ?thesis using m' ok by (auto simp: managed_ok_def)
qed

lemma applied_was_approved_witness:
  "\<exists>m'. site_actions plain_codec (snd (action_update site_ops plain_codec 1 demo_approved (demo_pending, ()))) ''action:r1'' = Some m'
    \<and> prefix (mg_history demo_proposed) (mg_history m') \<and> lawful m'"
proof -
  let ?ads = "\<lambda>_. raise_exn (Exn RuntimeError ''no connection'')"
  let ?s0 = "(empty_memory, ())" and ?s1 = "(demo_pending, ())"
    and ?s2 = "snd (action_update site_ops plain_codec 1 demo_approved (demo_pending, ()))"
  have ok: "managed_ok demo_proposed" using propose_ok [OF demo_proposes]
    by (simp add: action_valid_def demo_plan_def unit_score_def)
  have "acting plain_codec ?ads ?s0 (snd (action_create site_ops plain_codec 0 demo_proposed ?s0))"
    by (rule acting.proposes [OF demo_proposes]) (simp add: action_valid_def demo_plan_def unit_score_def)
  moreover have "snd (action_create site_ops plain_codec 0 demo_proposed ?s0) = ?s1"
    by (simp add: demo_pending_def prod_eq_iff)
  ultimately have one: "(acting plain_codec ?ads)\<^sup>*\<^sup>* ?s0 ?s1" by (metis r_into_rtranclp)
  have two: "(acting plain_codec ?ads)\<^sup>*\<^sup>* ?s1 ?s2"
    by (rule r_into_rtranclp) (rule acting.approves [OF ok demo_approves])
  have st: "site_actions plain_codec ?s1 ''action:r1'' = Some demo_proposed" by code_simp
  show ?thesis
    using applied_was_approved [OF plain_codec_ok keeps_raise one two st] by blast
qed

text \<open>
  Approving a title proposal: the action that may then be executed asks for exactly the
  title the reviewer confirmed (the edited one, or the proposed one), with white space
  squeezed, never empty and never longer than the limit, in the title field, for the page and
  the site of the proposal; the proposal itself is only ever pending.
\<close>

theorem approved_asks:
  assumes "propose_title_change now a run tenant proposal title current provider alternatives = Inr m"
    and "expected_items (ac_parameters a) = []" and "approve later m actor edit why = Inr m'"
  shows "(let t = squash (case edit of None \<Rightarrow> title | Some e \<Rightarrow> e) in
      asks_for (mg_action m') TITLE t \<and> t \<noteq> [] \<and> int (length t) \<le> max_title_length)
    \<and> mg_status m = AWAITING_APPROVAL \<and> mg_status m' = APPROVED \<and> mg_observed_value m' = current
    \<and> mg_site_id m' = ac_site_id a \<and> ac_normalized_url (mg_action m') = ac_normalized_url a
    \<and> (\<exists>e. mg_history m' = mg_history m @ [e] \<and> ev_actor e = actor \<and> ev_status e = APPROVED)"
proof -
  have type: "ac_action_type a = OPTIMIZE_TITLE"
    and ti: "squash title \<noteq> []" "int (length (squash title)) \<le> max_title_length"
    using assms(1) by (auto simp: propose_title_change_def and_maybe_Inr clean_title_Inr split: if_splits)
  have m: "asks_for (mg_action m) TITLE (squash title)" "mg_status m = AWAITING_APPROVAL" "mg_observed_value m = current"
    "mg_site_id m = ac_site_id a" "ac_normalized_url (mg_action m) = ac_normalized_url a"
    "ac_action_type (mg_action m) = OPTIMIZE_TITLE"
    using assms(1) type
    by (auto simp: propose_title_change_def and_maybe_Inr new_event_def Let_def clean_title_Inr asks_title assms(2) field_of_same
        expected_items_update update_conv' split: if_splits)
  obtain b edits r where b: "(case edit of None \<Rightarrow> Inr (mg_action m, []) | Some t \<Rightarrow> with_edit (mg_action m) t) = Inr (b, edits)"
    and r: "transition_action b APPROVED ''approved'' [] = Inr r"
    and e: "record_event later m (lr_action r) actor ''approved'' (note_detail why @ edits) = Inr m'"
    using assms(3) by (auto simp: approve_def and_maybe_Inr)
  have asks: "let t = squash (case edit of None \<Rightarrow> title | Some e \<Rightarrow> e) in
      asks_for b TITLE t \<and> t \<noteq> [] \<and> int (length t) \<le> max_title_length"
    "ac_site_id b = mg_site_id m" "ac_normalized_url b = ac_normalized_url (mg_action m)"
    using b m(1) ti edit_asks [OF m(1,6)] by (auto simp: Let_def split: option.splits dest: with_edit_Inr)
  note t = transition_action_Inr [OF r]
  have "asks_for (lr_action r) f v = asks_for b f v" for f v using t asks_for_same by blast
  then show ?thesis using asks e t m(2-5) by (auto simp: record_event_Inr Let_def)
qed

lemma approved_asks_witness:
  "asks_for (mg_action demo_approved) TITLE ''Other'' \<and> mg_status demo_approved = APPROVED
    \<and> mg_observed_value demo_approved = Some ''Old''"
  using approved_asks [OF demo_proposes _ demo_approves]
  by (simp add: demo_plan_def squash_def is_space_def Let_def)

end
