(* ===== verification/Execution_Claims.thy ===== *)
theory Execution_Claims
  imports Action_Life
begin

text \<open>
  The properties of carrying out, checking and undoing an approved change, over the in-memory
  repository and a site with a state of its own.
\<close>


section \<open>More of what lands in the store\<close>

context action_store
begin

text \<open>A handler that fails notes the error on what is stored, and the status stays.\<close>

lemma note_lands:
  assumes ok: "actions_ok R ok owner c s" and st: "actions_of R c s i = Some m" and why: "reason \<noteq> []"
  shows "\<exists>m' s' ev. note_error R c now i reason e s = (Inr (), s') \<and> actions_ok R ok owner c s'
    \<and> actions_of R c s' = (actions_of R c s)(i \<mapsto> m') \<and> mg_status m' = mg_status m
    \<and> mg_applied m' = mg_applied m \<and> mg_action m' = mg_action m
    \<and> mg_error m' = Some (take 500 (exn_text e)) \<and> mg_history m' = mg_history m @ [ev] \<and> ev_status ev = mg_status m"
proof -
  have m: "managed_ok m" "mg_action_id m = i" using stored_good [OF ok st] by simp_all
  obtain k where k: "record_event now m (mg_action m) system_actor reason [(''type'', PStr (class_name (exn_class e)))] = Inr k"
    using why by (simp add: record_event_def new_event_def)
  note kk = k [unfolded record_event_Inr]
  let ?m' = "k\<lparr>mg_error := Some (take 500 (exn_text e))\<rparr>"
  have nd: "noted now m system_actor reason [(''type'', PStr (class_name (exn_class e)))] (Some (take 500 (exn_text e)))
      = Inr ?m'"
    using k by (simp add: noted_def)
  have "managed_ok ?m'" using noted_ok [OF m(1) nd] by simp
  then obtain s' where s': "save R c now (Inr ?m') s = (Inr ?m', s')" "actions_ok R ok owner c s'"
    "actions_of R c s' = (actions_of R c s)(i \<mapsto> ?m')"
    using save_lands [OF ok st, of ?m' now] kk m(2) by (auto simp: prefix_def)
  have "note_error R c now i reason e s = (Inr (), s')"
    using get_spec [OF ok, of i] st k s'(1)
    by (simp add: note_error_def attempt_def andthen_def ret_def)
  moreover obtain ev where "mg_history k = mg_history m @ [ev]" "ev_status ev = mg_status m" "mg_status k = mg_status m"
    "mg_applied k = mg_applied m" "mg_action k = mg_action m" using kk by auto
  ultimately show ?thesis using s'(2,3) by (intro exI [of _ ?m'] exI [of _ s'] exI [of _ ev]) simp
qed

text \<open>A failed step moves the action to \<open>FAILED\<close> with its reason.\<close>

lemma failure_lands:
  assumes ok: "actions_ok R ok owner c s" and st: "actions_of R c s i = Some m"
    and exe: "mg_status m = EXECUTING" and why: "reason \<noteq> []"
  shows "\<exists>m' s' ev. save R c now (move_error now m FAILED reason detail err) s = (Inr m', s')
    \<and> actions_ok R ok owner c s' \<and> actions_of R c s' = (actions_of R c s)(i \<mapsto> m')
    \<and> mg_status m' = FAILED \<and> mg_error m' = Some err \<and> mg_applied m' = mg_applied m
    \<and> mg_history m' = mg_history m @ [ev] \<and> ev_status ev = FAILED \<and> ev_reason ev = reason"
proof -
  have m: "managed_ok m" "mg_action_id m = i" using stored_good [OF ok st] by simp_all
  obtain k where k: "move now m FAILED reason detail = Inr k"
    using move_lands [OF m(1), of FAILED reason now detail] exe why by (auto simp: can_transition_def)
  note kk = move_ok [OF m(1) k]
  let ?m' = "k\<lparr>mg_error := Some err\<rparr>"
  have run: "move_error now m FAILED reason detail err = Inr ?m'" using k by (simp add: move_error_def)
  obtain ev where ev: "mg_history k = mg_history m @ [ev]" using kk by blast
  have "ev_reason ev = reason" using k ev by (auto simp: move_def and_maybe_Inr record_event_Inr)
  moreover have "lawful k" using kk by (simp add: managed_ok_def)
  then have "ev_status ev = FAILED" using kk ev by (simp add: lawful_def statuses_def)
  moreover obtain s' where "save R c now (Inr ?m') s = (Inr ?m', s')" "actions_ok R ok owner c s'"
    "actions_of R c s' = (actions_of R c s)(i \<mapsto> ?m')"
    using save_lands [OF ok st, of ?m' now] move_error_ok [OF m(1) run] kk m(2) ev by (auto simp: prefix_def)
  ultimately show ?thesis using run kk ev by (intro exI [of _ ?m'] exI [of _ s'] exI [of _ ev]) simp
qed

text \<open>The undoing of a change, and a note that leaves the status, land in the store.\<close>

lemma undone_lands:
  assumes ok: "actions_ok R ok owner c s" and st: "actions_of R c s i = Some m"
    and may: "check_rollback m = Inr ()" and ap: "mg_applied m = Some applied"
    and ad: "ad_adapter_id ad \<noteq> []" and why: "reason \<noteq> []" "actor \<noteq> []"
  shows "\<exists>m' s' ev. save R c now (rolled_back now m ad actor reason change detail) s = (Inr m', s')
    \<and> actions_ok R ok owner c s' \<and> actions_of R c s' = (actions_of R c s)(i \<mapsto> m') \<and> mg_status m' = ROLLED_BACK
    \<and> mg_error m' = None \<and> mg_applied m' = Some applied
    \<and> mg_rolled_back m' = Some \<lparr>ap_adapter_id = ad_adapter_id ad, ap_change_id = change,
         ap_previous_value = ap_new_value applied, ap_new_value = ap_previous_value applied, ap_applied_at = now\<rparr>
    \<and> mg_history m' = mg_history m @ [ev] \<and> ev_status ev = ROLLED_BACK \<and> ev_actor ev = actor \<and> ev_reason ev = reason"
proof -
  have m: "managed_ok m" "mg_action_id m = i" using stored_good [OF ok st] by simp_all
  have rb: "can_transition (mg_status m) ROLLED_BACK"
    using may by (auto simp: check_rollback_def rollbackable_statuses_def can_transition_def split: if_splits)
  obtain r where r: "transition_action (mg_action m) ROLLED_BACK reason [] = Inr r"
    using rb by (simp add: transition_action_def transition_def)
  note t = transition_action_Inr [OF r]
  obtain k where k: "record_event now m (lr_action r) actor reason detail = Inr k"
    using why by (simp add: record_event_def new_event_def)
  note kk = k [unfolded record_event_Inr]
  let ?ap = "\<lparr>ap_adapter_id = ad_adapter_id ad, ap_change_id = change,
         ap_previous_value = ap_new_value applied, ap_new_value = ap_previous_value applied, ap_applied_at = now\<rparr>"
  let ?m' = "k\<lparr>mg_rolled_back := Some ?ap, mg_error := None\<rparr>"
  have run: "rolled_back now m ad actor reason change detail = Inr ?m'"
    using r k ap ad by (simp add: rolled_back_def new_applied_def)
  have "managed_ok ?m'" by (rule rolled_back_ok [OF m(1) run])
  then obtain s' where s': "save R c now (Inr ?m') s = (Inr ?m', s')" "actions_ok R ok owner c s'"
    "actions_of R c s' = (actions_of R c s)(i \<mapsto> ?m')"
    using save_lands [OF ok st, of ?m' now] kk t m(2) by (auto simp: prefix_def)
  obtain ev where "mg_history k = mg_history m @ [ev]" "ev_status ev = ROLLED_BACK" "ev_actor ev = actor" "ev_reason ev = reason"
    "mg_status k = ROLLED_BACK" "mg_applied k = Some applied" using kk t ap by auto
  then show ?thesis using run s' by (intro exI [of _ ?m'] exI [of _ s'] exI [of _ ev]) simp
qed

lemma noted_lands:
  assumes ok: "actions_ok R ok owner c s" and st: "actions_of R c s i = Some m" and why: "reason \<noteq> []" "actor \<noteq> []"
  shows "\<exists>m' s' ev. save R c now (noted now m actor reason detail err) s = (Inr m', s')
    \<and> actions_ok R ok owner c s' \<and> actions_of R c s' = (actions_of R c s)(i \<mapsto> m') \<and> mg_action m' = mg_action m
    \<and> mg_error m' = err \<and> mg_applied m' = mg_applied m \<and> mg_rolled_back m' = mg_rolled_back m
    \<and> mg_history m' = mg_history m @ [ev] \<and> ev_status ev = mg_status m \<and> ev_actor ev = actor \<and> ev_reason ev = reason"
proof -
  have m: "managed_ok m" "mg_action_id m = i" using stored_good [OF ok st] by simp_all
  obtain k where k: "record_event now m (mg_action m) actor reason detail = Inr k"
    using why by (simp add: record_event_def new_event_def)
  note kk = k [unfolded record_event_Inr]
  let ?m' = "k\<lparr>mg_error := err\<rparr>"
  have run: "noted now m actor reason detail err = Inr ?m'" using k by (simp add: noted_def)
  have "managed_ok ?m'" by (rule noted_ok [OF m(1) run])
  then obtain s' where s': "save R c now (Inr ?m') s = (Inr ?m', s')" "actions_ok R ok owner c s'"
    "actions_of R c s' = (actions_of R c s)(i \<mapsto> ?m')"
    using save_lands [OF ok st, of ?m' now] kk m(2) by (auto simp: prefix_def)
  obtain ev where "mg_history k = mg_history m @ [ev]" "ev_status ev = mg_status m" "ev_actor ev = actor" "ev_reason ev = reason"
    "mg_action k = mg_action m" "mg_applied k = mg_applied m" "mg_rolled_back k = mg_rolled_back m" using kk by auto
  then show ?thesis using run s' by (intro exI [of _ ?m'] exI [of _ s'] exI [of _ ev]) simp
qed

end

text \<open>The same, with what is known of the change and its site carried to the claimed copy.\<close>

lemma execute_reaches:
  assumes c: "codec_ok managed_valid c" and ok: "site_ok c (a, w)" and st: "site_actions c (a, w) i = Some m"
    and ap: "mg_status m = APPROVED" and ad: "adapter_for (mg_site_id m) = ret ad"
    and asks: "asks_for (mg_action m) f target" and site: "site_is ad m f target rd wr"
  shows "\<exists>a' m' e. site_ok c (a', w) \<and> site_actions c (a', w) = (site_actions c (a, w))(i \<mapsto> m')
    \<and> mg_action_id m' = i \<and> mg_status m' = EXECUTING \<and> mg_applied m' = mg_applied m
    \<and> mg_observed_value m' = mg_observed_value m
    \<and> asks_for (mg_action m') f target \<and> site_is ad m' f target rd wr
    \<and> mg_history m' = mg_history m @ [e] \<and> ev_status e = EXECUTING
    \<and> execute_action site_ops c adapter_for now i (a, w) =
        noting (note_error site_ops c now i ''execution_error'')
          (andthen (carry_out site_ops c now m' ad) (\<lambda>m2. ret (summary m2 False))) (a', w)"
proof -
  have auto: "\<not> ad_manual_apply ad" using site by (simp add: site_is_def)
  obtain a' m' e where one: "site_ok c (a', w)" "site_actions c (a', w) = (site_actions c (a, w))(i \<mapsto> m')"
    "mg_action_id m' = i" "mg_status m' = EXECUTING" "mg_applied m' = mg_applied m"
    "mg_observed_value m' = mg_observed_value m" "mg_site_id m' = mg_site_id m"
    "ac_normalized_url (mg_action m') = ac_normalized_url (mg_action m)"
    "ac_parameters (mg_action m') = ac_parameters (mg_action m)" "ac_action_type (mg_action m') = ac_action_type (mg_action m)"
    "mg_history m' = mg_history m @ [e]" "ev_status e = EXECUTING"
    "execute_action site_ops c adapter_for now i (a, w) =
        noting (note_error site_ops c now i ''execution_error'')
          (andthen (carry_out site_ops c now m' ad) (\<lambda>m2. ret (summary m2 False))) (a', w)"
    using execute_claims [where adapter_for = adapter_for and m = m and now = now, OF c ok st ap ad auto] by blast
  have "mg_action_id m = i" using action_store.stored_good [OF actions_beside_memory [OF c] ok st] by simp
  then have "site_is ad m' f target rd wr" using site one by (simp add: site_is_def missing_capabilities_def)
  moreover have "asks_for (mg_action m') f target" using asks_for_same one(9,10) asks by blast
  ultimately show ?thesis using one by (intro exI [of _ a'] exI [of _ m'] exI [of _ e]) simp
qed


text \<open>Reading the page back fails: nothing of the check is stored.\<close>

lemma verify_lost:
  assumes S: "action_store site_ops ok owner c" and ok: "actions_ok site_ops ok owner c s"
    and st: "actions_of site_ops c s i = Some m" and exe: "mg_status m = EXECUTED" and read: "read_page ad m s = (Inl err, s')"
  shows "verify_and_save site_ops c now m ad s = (Inl err, s')"
proof -
  have m: "managed_ok m" using action_store.stored_good [OF S ok st] by simp
  obtain k where k: "move now m WAITING_FOR_RECRAWL ''waiting_for_recrawl'' [] = Inr k"
    using move_lands [OF m, of WAITING_FOR_RECRAWL "''waiting_for_recrawl''" now "[]"] exe
    by (auto simp: can_transition_def)
  have "read_page ad k = read_page ad m" using read_page_same move_site [OF k] by blast
  then show ?thesis using k read by (simp add: verify_and_save_def verify_managed_def andthen_def of_result_def)
qed

lemma note_world:
  assumes "note_error site_ops c now i reason e (a, w) = (x, (a', w'))"
  shows "w' = w"
proof -
  have get: "\<exists>y. action_get site_ops c i (a, w) = (y, (a, w))"
    by (auto simp: action_get_def action_find_def reads_def andthen_def of_result_def ret_def raise_exn_def
        split: option.splits sum.splits prod.splits)
  then show ?thesis using assms
    by (auto simp: note_error_def attempt_def andthen_def ret_def split: sum.splits prod.splits dest: save_world)
qed

text \<open>A site on which a change can be undone by writing the previous value again.\<close>

definition site_undoes ::
  "('p memory \<times> 'w) adapter \<Rightarrow> managed \<Rightarrow> page_field \<Rightarrow> applied_change \<Rightarrow> ('w \<Rightarrow> (exn + page) \<times> 'w)
   \<Rightarrow> ('w \<Rightarrow> (exn + operation_result) \<times> 'w) \<Rightarrow> bool" where
  "site_undoes ad m f applied rd wr \<longleftrightarrow> \<not> ad_manual_apply ad \<and> ad_adapter_id ad \<noteq> []
     \<and> (ad_exact_rollback ad \<longrightarrow> ap_change_id applied \<in> {None, Some []})
     \<and> field_of (mg_action m) = Inr f
     \<and> ad_read_page ad (mg_site_id m) (ac_normalized_url (mg_action m)) = on_world rd
     \<and> field_write f ad (mg_site_id m) (ac_normalized_url (mg_action m)) (ap_previous_value applied)
         (''rollback:'' @ mg_action_id m) = on_world wr"

text \<open>The way a change is undone on a site: by its owner, through the site's own record, or by writing.\<close>

datatype undo_route = ByCustomer | Exactly string | ByRewriting

definition undo_way :: "'s adapter \<Rightarrow> applied_change \<Rightarrow> undo_route" where
  "undo_way ad applied = (if ad_manual_apply ad then ByCustomer
     else case ap_change_id applied of
       Some change \<Rightarrow> if ad_exact_rollback ad \<and> change \<noteq> [] then Exactly change else ByRewriting
     | None \<Rightarrow> ByRewriting)"

fun undone_by ::
  "('s, 'p) repository_ops \<Rightarrow> (managed, 'p) codec \<Rightarrow> instant \<Rightarrow> managed \<Rightarrow> applied_change \<Rightarrow> 's adapter \<Rightarrow> string
   \<Rightarrow> undo_route \<Rightarrow> ('s, managed) prog" where
  "undone_by R c now m applied ad actor ByCustomer = rollback_by_customer R c now m applied ad actor"
| "undone_by R c now m applied ad actor (Exactly change) = rollback_exactly R c now m applied change ad actor"
| "undone_by R c now m applied ad actor ByRewriting = rollback_by_rewriting R c now m applied ad actor"

lemma rollback_goes:
  assumes c: "codec_ok managed_valid c" and ok: "site_ok c (a, w)" and st: "site_actions c (a, w) i = Some m"
    and may: "check_rollback m = Inr ()" and ap: "mg_applied m = Some applied"
    and ad: "adapter_for (mg_site_id m) = ret ad"
  shows "rollback_action site_ops c adapter_for now i actor (a, w)
    = noting (note_error site_ops c now i ''rollback_error'')
        (andthen (undone_by site_ops c now m applied ad actor (undo_way ad applied)) (\<lambda>m'. ret (summary m' False))) (a, w)"
proof -
  have live: "mg_rolled_back m = None" using may by (auto simp: check_rollback_def split: if_splits)
  have pick: "(if ad_manual_apply ad then rollback_by_customer site_ops c now m applied ad actor
     else case ap_change_id applied of
       Some change \<Rightarrow> if ad_exact_rollback ad \<and> change \<noteq> [] then rollback_exactly site_ops c now m applied change ad actor
         else rollback_by_rewriting site_ops c now m applied ad actor
     | None \<Rightarrow> rollback_by_rewriting site_ops c now m applied ad actor) = undone_by site_ops c now m applied ad actor (undo_way ad applied)"
    by (simp add: undo_way_def split: option.split)
  have "rollback_action site_ops c adapter_for now i actor (a, w)
      = rollback_from site_ops c adapter_for now i actor m (a, w)"
    using action_store.get_spec [OF actions_beside_memory [OF c] ok, of i] st
    by (simp add: rollback_action_def andthen_def)
  also have "\<dots> = noting (note_error site_ops c now i ''rollback_error'')
        (andthen (undone_by site_ops c now m applied ad actor (undo_way ad applied)) (\<lambda>m'. ret (summary m' False))) (a, w)"
    using live may ap ad pick
    by (simp add: rollback_from_def noting_def andthen_def attempt_def of_result_def ret_def)
  finally show ?thesis .
qed

lemma rollback_reaches:
  assumes c: "codec_ok managed_valid c" and ok: "site_ok c (a, w)" and st: "site_actions c (a, w) i = Some m"
    and may: "check_rollback m = Inr ()" and ap: "mg_applied m = Some applied"
    and ad: "adapter_for (mg_site_id m) = ret ad" and site: "site_undoes ad m f applied rd wr"
  shows "rollback_action site_ops c adapter_for now i actor (a, w)
    = noting (note_error site_ops c now i ''rollback_error'')
        (andthen (rollback_by_rewriting site_ops c now m applied ad actor) (\<lambda>m'. ret (summary m' False))) (a, w)"
proof -
  have "undo_way ad applied = ByRewriting" using site by (auto simp: site_undoes_def undo_way_def split: option.split)
  then show ?thesis using rollback_goes [OF c ok st may ap, of adapter_for ad now actor] ad by simp
qed

text \<open>
  A page that shows neither the value that was applied nor the one before: what is noted, with what error
  if any, and the state the site is left in, when reading leaves it in \<open>w1\<close> and refusing in \<open>w2\<close>.
\<close>

definition left_alone :: "page_field \<Rightarrow> applied_change \<Rightarrow> operation_result \<Rightarrow> 'w \<Rightarrow> 'w \<Rightarrow> 'w \<Rightarrow> undo_route \<Rightarrow> string \<times> string option \<times> 'w" where
  "left_alone f applied refusal w0 w1 w2 way = (case way of
     ByCustomer \<Rightarrow>
       if py_strip (ap_previous_value applied) = [] \<and> pf_name f = ''title''
       then (''rollback_refused'', Some (''The '' @ pf_label f @ '' before this change is not known; restore it by hand on your site.''), w0)
       else (''waiting_for_customer_to_restore'', None, w1)
   | Exactly _ \<Rightarrow> (''rollback_refused'', Some (or_default (or_message refusal) ''The site refused the rollback.''), w2)
   | ByRewriting \<Rightarrow> (''rollback_refused_page_changed'',
       Some (''The page's '' @ pf_label f @ '' was changed after this action; rollback did not overwrite it.''), w1))"

text \<open>A site with its own record of changes refuses to undo one that a later change has superseded.\<close>

definition site_refuses ::
  "('p memory \<times> 'w) adapter \<Rightarrow> managed \<Rightarrow> applied_change \<Rightarrow> operation_result \<Rightarrow> 'w \<Rightarrow> 'w \<Rightarrow> bool" where
  "site_refuses ad m applied refusal w0 w2 \<longleftrightarrow> (case undo_way ad applied of
     Exactly change \<Rightarrow> mg_site_id m \<noteq> [] \<and> ac_normalized_url (mg_action m) \<noteq> [] \<and> \<not> or_success refusal
       \<and> (\<forall>a. ad_rollback_change ad (mg_site_id m) (ac_normalized_url (mg_action m)) change (''rollback:'' @ mg_action_id m) (a, w0)
            = (Inr refusal, (a, w2)))
   | _ \<Rightarrow> True)"

lemma undo_left_alone:
  assumes "undo_way ad applied = way" and "field_of (mg_action m) = Inr f"
    and "ad_read_page ad (mg_site_id m) (ac_normalized_url (mg_action m)) = on_world rd" and "rd w0 = (Inr pg, w1)"
    and "squash (on_page f pg) \<notin> {squash (ap_new_value applied), squash (ap_previous_value applied)}"
    and "site_refuses ad m applied refusal w0 w2"
    and "left_alone f applied refusal w0 w1 w2 way = (reason, err, w')"
  shows "\<exists>d. undone_by R c now m applied ad actor way (a, w0) = save R c now (noted now m actor reason d err) (a, w')"
proof (cases way)
  case ByCustomer
  then show ?thesis using assms
    by (auto simp: rollback_by_customer_def left_alone_def andthen_def of_result_def read_page_def on_world_def split: if_splits)
next
  case (Exactly change)
  then have "change \<noteq> []" using assms(1) by (auto simp: undo_way_def split: if_splits option.splits)
  then show ?thesis using assms Exactly
    by (auto simp: rollback_exactly_def left_alone_def site_refuses_def rollback_request_valid_def andthen_def Let_def)
next
  case ByRewriting
  then show ?thesis using assms
    by (auto simp: rollback_by_rewriting_def left_alone_def andthen_def of_result_def read_page_def on_world_def Let_def)
qed

section \<open>An example\<close>

text \<open>An example: an approved title on a site that shows what was last written to it.\<close>

definition demo_action :: action where
  "demo_action = \<lparr>ac_action_id = ''action:r1'', ac_strategy_id = ''st'', ac_opportunity_id = ''op'', ac_site_id = ''site'',
     ac_normalized_url = ''/p'', ac_normalized_query = ''q'', ac_strategy_type = SERP_TITLE_OPTIMIZATION,
     ac_action_type = OPTIMIZE_TITLE, ac_status = APPROVED, ac_risk_level = LOW, ac_confidence_score = 1,
     ac_expected_impact_score = 1, ac_priority_score = 1, ac_requires_approval = True, ac_reasons = [],
     ac_parameters = [(''recommended_title'', PStr ''New''), (''expected_title'', PStr ''New'')], ac_evidence = [],
     ac_snapshot = demo_snapshot\<rparr>"

definition demo_event :: "action_status \<Rightarrow> string \<Rightarrow> action_event" where
  "demo_event st why = \<lparr>ev_at = 0, ev_status = st, ev_actor = ''user'', ev_reason = why, ev_detail = []\<rparr>"

definition demo_managed :: managed where
  "demo_managed = \<lparr>mg_action = demo_action, mg_tenant_id = ''t'', mg_run_id = ''r1'', mg_proposal_id = None,
     mg_observed_value = Some ''Old'', mg_applied = None, mg_rolled_back = None, mg_error = None,
     mg_history = [demo_event AWAITING_APPROVAL ''proposed'', demo_event APPROVED ''approved''],
     mg_created_at = 0, mg_updated_at = 0\<rparr>"

definition demo_page :: "string \<Rightarrow> page" where
  "demo_page t = \<lparr>pg_site_id = ''site'', pg_normalized_url = ''/p'', pg_title = t, pg_meta_description = [],
     pg_content = [], pg_status = ''ok'', pg_metadata = []\<rparr>"

definition demo_result :: operation_result where
  "demo_result = \<lparr>or_success = True, or_operation = UPDATE_TITLE, or_site_id = ''site'', or_normalized_url = ''/p'',
     or_message = [], or_change_id = Some ''c1'', or_previous_value = PNone, or_new_value = PNone, or_metadata = []\<rparr>"

definition demo_read :: "string \<Rightarrow> (exn + page) \<times> string" where
  "demo_read w = (Inr (demo_page w), w)"

definition demo_write :: "string \<Rightarrow> string \<Rightarrow> (exn + operation_result) \<times> string" where
  "demo_write v w = (Inr demo_result, v)"

definition demo_adapter :: "(managed memory \<times> string) adapter" where
  "demo_adapter = \<lparr>ad_adapter_id = ''wp'', ad_capabilities = [UPDATE_TITLE], ad_manual_apply = False,
     ad_exact_rollback = False, ad_read_page = (\<lambda>_ _. on_world demo_read),
     ad_update_title = (\<lambda>_ _ v _. on_world (demo_write v)),
     ad_update_meta_description = (\<lambda>_ _ v _. on_world (demo_write v)),
     ad_rollback_change = (\<lambda>_ _ _ _. on_world (demo_write ''Old''))\<rparr>"

definition demo_store :: "managed \<Rightarrow> managed memory" where
  "demo_store m = fst (snd (action_create site_ops plain_codec 0 m (empty_memory, ''Old'')))"

lemma demo_managed_ok: "managed_ok demo_managed"
  by (simp add: managed_ok_def managed_valid_def lawful_def statuses_def step_allowed_def can_transition_def
      demo_managed_def demo_event_def demo_action_def action_valid_def unit_score_def)

lemma empty_actions_ok: "site_ok c (empty_memory, w)"
  by (simp add: actions_ok_def store_ok_def keeps_kind_empty memory_ops_def)

lemma demo_store_ok:
  assumes "managed_ok m"
  shows "site_ok plain_codec (demo_store m, w) \<and> site_actions plain_codec (demo_store m, w) (mg_action_id m) = Some m"
proof -
  let ?s = "(empty_memory, ''Old'')"
  have so: "store_ok site_ops (\<lambda>s. mem_ok (fst s)) (\<lambda>s. mem_owner (fst s)) ''action'' action_kind plain_codec action_good ?s"
    using empty_actions_ok [of plain_codec "''Old''"] by (simp add: actions_ok_def)
  obtain r where r: "action_to_record plain_codec 0 m 1 = Inr r"
    "store_record ''action'' action_kind plain_codec (mg_action_id m) 1 m r" "pr_tenant_id r = Some (mg_tenant_id m)"
    using mem_actions.record_ok [OF assms, of 1 0] by auto
  have "repo_get site_ops ?s action_kind (mg_action_id m) = None" by (simp add: memory_ops_def)
  from mem_beside.store_create [OF so r(2) this] obtain s' where s': "repo_create site_ops ?s r = Inr s'"
    "written_to site_ops (\<lambda>s. mem_ok (fst s)) (\<lambda>s. mem_owner (fst s)) ?s r s'" by blast
  have "snd (action_create site_ops plain_codec 0 m ?s) = s'"
    using r(1) s'(1) by (simp add: action_create_def andthen_def of_result_def updates_def ret_def)
  then have fst: "demo_store m = fst s'" by (simp add: demo_store_def)
  have "site_ok plain_codec s'" "site_actions plain_codec s' (mg_action_id m) = Some m"
    using mem_beside.store_written [OF so s'(2) r(2)] assms r(3)
    by (simp_all add: actions_ok_def actions_of_def action_good_def)
  then show ?thesis unfolding fst using site_world by (metis prod.collapse)
qed

lemma demo_asks: "asks_for demo_action TITLE ''New''"
  by (simp add: asks_for_def field_of_def recommended_def expected_def string_parameter_def demo_action_def TITLE_def
      expected_items_def)

lemma demo_site: "site_is demo_adapter demo_managed TITLE ''New'' demo_read (demo_write ''New'')"
  by (simp add: site_is_def demo_adapter_def demo_managed_def demo_action_def missing_capabilities_def field_write_def TITLE_def)

lemma demo_stored:
  "site_ok plain_codec (demo_store demo_managed, w)"
  "site_actions plain_codec (demo_store demo_managed, w) ''action:r1'' = Some demo_managed"
  using demo_store_ok [OF demo_managed_ok, of w] by (simp_all add: demo_managed_def demo_action_def)

lemma demo_facts:
  "mg_status demo_managed = APPROVED" "mg_action demo_managed = demo_action"
  "mg_observed_value demo_managed = Some ''Old''"
  by (simp_all add: demo_managed_def demo_action_def)

lemma demo_shows: "on_page TITLE (demo_page t) = t" "stored_string TITLE (demo_page t)"
  by (simp_all add: on_page_def TITLE_def demo_page_def stored_string_def)

lemma demo_words: "squash ''Old'' = ''Old''" "squash ''New'' = ''New''" "squash ''Mine'' = ''Mine''"
  by (simp_all add: squash_def is_space_def)

text \<open>A site that takes the write and then cannot be read.\<close>

definition flaky_read :: "string \<Rightarrow> (exn + page) \<times> string" where
  "flaky_read w = (if w = ''New'' then Inl (Exn RuntimeError ''timeout'') else Inr (demo_page w), w)"

definition flaky_adapter :: "(managed memory \<times> string) adapter" where
  "flaky_adapter = demo_adapter\<lparr>ad_read_page := \<lambda>_ _. on_world flaky_read\<rparr>"

lemma flaky_site: "site_is flaky_adapter demo_managed TITLE ''New'' flaky_read (demo_write ''New'')"
  by (simp add: site_is_def demo_adapter_def flaky_adapter_def demo_managed_def demo_action_def missing_capabilities_def
      field_write_def TITLE_def)

text \<open>The example once it is executed.\<close>

definition demo_executed :: managed where
  "demo_executed = demo_managed\<lparr>
     mg_action := demo_action\<lparr>ac_status := EXECUTED\<rparr>,
     mg_applied := Some \<lparr>ap_adapter_id = ''wp'', ap_change_id = Some ''c1'', ap_previous_value = ''Old'',
       ap_new_value = ''New'', ap_applied_at = 0\<rparr>,
     mg_history := mg_history demo_managed @ [demo_event EXECUTING ''started'', demo_event EXECUTED ''done'']\<rparr>"

lemma executed_ok: "managed_ok demo_executed"
  by (simp add: managed_ok_def managed_valid_def lawful_def statuses_def step_allowed_def can_transition_def
      demo_executed_def demo_managed_def demo_event_def demo_action_def action_valid_def unit_score_def)

lemma executed_stored:
  "site_ok plain_codec (demo_store demo_executed, w)"
  "site_actions plain_codec (demo_store demo_executed, w) ''action:r1'' = Some demo_executed"
  using demo_store_ok [OF executed_ok, of w] by (simp_all add: demo_executed_def demo_managed_def demo_action_def)

lemma executed_facts:
  "mg_status demo_executed = EXECUTED" "asks_for (mg_action demo_executed) TITLE ''New''"
  "site_is demo_adapter demo_executed TITLE ''New'' demo_read (demo_write ''New'')"
  using demo_asks demo_site asks_for_same [of "mg_action demo_executed" demo_action]
  by (simp_all add: demo_executed_def demo_managed_def site_is_def missing_capabilities_def)

abbreviation demo_applied :: applied_change where
  "demo_applied \<equiv> \<lparr>ap_adapter_id = ''wp'', ap_change_id = Some ''c1'', ap_previous_value = ''Old'',
       ap_new_value = ''New'', ap_applied_at = 0\<rparr>"

lemma executed_applied: "check_rollback demo_executed = Inr ()" "mg_applied demo_executed = Some demo_applied"
  by (simp_all add: check_rollback_def demo_executed_def demo_managed_def rollbackable_statuses_def)

lemma executed_undoes: "site_undoes demo_adapter demo_executed TITLE demo_applied demo_read (demo_write ''Old'')"
  by (simp add: site_undoes_def demo_adapter_def demo_executed_def demo_managed_def demo_action_def field_of_def
      field_write_def TITLE_def)




definition demo_claimed :: managed where
  "demo_claimed = demo_managed\<lparr>
     mg_action := demo_action\<lparr>ac_status := EXECUTING\<rparr>,
     mg_history := mg_history demo_managed @ [demo_event EXECUTING ''started'']\<rparr>"

lemma claimed_stored:
  "site_ok plain_codec (demo_store demo_claimed, w)"
  "site_actions plain_codec (demo_store demo_claimed, w) ''action:r1'' = Some demo_claimed"
proof -
  have "managed_ok demo_claimed"
    by (simp add: managed_ok_def managed_valid_def lawful_def statuses_def step_allowed_def can_transition_def
        demo_claimed_def demo_managed_def demo_event_def demo_action_def action_valid_def unit_score_def)
  from demo_store_ok [OF this, of w] show
    "site_ok plain_codec (demo_store demo_claimed, w)"
    "site_actions plain_codec (demo_store demo_claimed, w) ''action:r1'' = Some demo_claimed"
    by (simp_all add: demo_claimed_def demo_managed_def demo_action_def)
qed

text \<open>
  C2. Applying an approved change: when the page still shows what the customer approved
  replacing, the site accepts the write and then shows the new value, the action ends with
  its measurement window open, the change is on record with the value it replaced and the
  site's change id, no error is left, and its history is the claim, the execution, the wait
  and the verification, in that order, after what was there.
\<close>

theorem change_applied:
  assumes "codec_ok managed_valid c" and "site_ok c (a, w0)" and "site_actions c (a, w0) i = Some m"
    and "mg_status m = APPROVED" and "adapter_for (mg_site_id m) = ret ad"
    and "asks_for (mg_action m) f target" and "site_is ad m f target rd wr"
    and "rd w0 = (Inr pg, w1)" and "wr w1 = (Inr op, w2)" and "or_success op" and "rd w2 = (Inr pg', w3)"
    and "squash (on_page f pg) \<noteq> squash target" and "as_proposed m f pg"
    and "squash (on_page f pg') = squash target" and "stored_string f pg'"
  shows "\<exists>d a' m' es. execute_action site_ops c adapter_for now i (a, w0) = (Inr d, (a', w3))
    \<and> site_ok c (a', w3) \<and> site_actions c (a', w3) = (site_actions c (a, w0))(i \<mapsto> m')
    \<and> mg_status m' = MEASUREMENT_WINDOW_ACTIVE \<and> mg_error m' = None
    \<and> mg_applied m' = Some \<lparr>ap_adapter_id = ad_adapter_id ad, ap_change_id = or_change_id op,
         ap_previous_value = on_page f pg, ap_new_value = target, ap_applied_at = now\<rparr>
    \<and> mg_history m' = mg_history m @ es
    \<and> map ev_status es = [EXECUTING, EXECUTED, WAITING_FOR_RECRAWL, MEASUREMENT_WINDOW_ACTIVE]"
proof -
  note c = assms(1)
  note S = actions_beside_memory [OF c]
  have auto: "\<not> ad_manual_apply ad" using assms(7) by (simp add: site_is_def)
  obtain a1 m1 e1 where one: "site_ok c (a1, w0)" "site_actions c (a1, w0) = (site_actions c (a, w0))(i \<mapsto> m1)"
    "mg_action_id m1 = i" "mg_status m1 = EXECUTING" "mg_observed_value m1 = mg_observed_value m"
    "mg_site_id m1 = mg_site_id m" "ac_normalized_url (mg_action m1) = ac_normalized_url (mg_action m)"
    "ac_parameters (mg_action m1) = ac_parameters (mg_action m)" "ac_action_type (mg_action m1) = ac_action_type (mg_action m)"
    "mg_history m1 = mg_history m @ [e1]" "ev_status e1 = EXECUTING"
    and run: "execute_action site_ops c adapter_for now i (a, w0) =
        noting (note_error site_ops c now i ''execution_error'')
          (andthen (carry_out site_ops c now m1 ad) (\<lambda>m2. ret (summary m2 False))) (a1, w0)"
    using execute_claims [where adapter_for = adapter_for and m = m and now = now, OF c assms(2-5) auto] by blast
  have mi: "mg_action_id m = i" using action_store.stored_good [OF S assms(2,3)] by simp
  have asks1: "asks_for (mg_action m1) f target" using asks_for_same one(8,9) assms(6) by blast
  have site1: "site_is ad m1 f target rd wr" using assms(7) one mi by (simp add: site_is_def missing_capabilities_def)
  have st1: "site_actions c (a1, w0) i = Some m1" using one(2) by simp
  have prop1: "as_proposed m1 f pg" using assms(13) one(5) by (simp add: as_proposed_def)
  obtain a2 m2 e2 where two: "carry_out site_ops c now m1 ad (a1, w0) = verify_and_save site_ops c now m2 ad (a2, w2)"
    "site_ok c (a2, w2)" "site_actions c (a2, w2) = (site_actions c (a1, w0))(i \<mapsto> m2)" "mg_status m2 = EXECUTED"
    "asks_for (mg_action m2) f target" "mg_site_id m2 = mg_site_id m1"
    "ac_normalized_url (mg_action m2) = ac_normalized_url (mg_action m1)"
    "mg_applied m2 = Some \<lparr>ap_adapter_id = ad_adapter_id ad, ap_change_id = or_change_id op,
         ap_previous_value = on_page f pg, ap_new_value = target, ap_applied_at = now\<rparr>"
    "mg_history m2 = mg_history m1 @ [e2]" "ev_status e2 = EXECUTED"
    using write_recorded [OF c one(1) st1 one(4) asks1 site1 assms(8-10,12) prop1, of now] by blast
  have world: "ad_read_page ad (mg_site_id m2) (ac_normalized_url (mg_action m2)) = on_world rd"
    using site1 two(6,7) by (simp add: site_is_def)
  then have read: "read_page ad m2 (a2, w2) = (Inr pg', (a2, w3))"
    using assms(11) by (simp add: read_page_def on_world_run)
  have st2: "site_actions c (a2, w2) i = Some m2" using two(3) by simp
  obtain m3 s3 es where three: "verify_and_save site_ops c now m2 ad (a2, w2) = (Inr m3, s3)" "site_ok c s3"
    "site_actions c s3 = (site_actions c (a2, w2))(i \<mapsto> m3)" "mg_status m3 = MEASUREMENT_WINDOW_ACTIVE"
    "mg_error m3 = None" "mg_applied m3 = mg_applied m2"
    "mg_history m3 = mg_history m2 @ es" "map ev_status es = [WAITING_FOR_RECRAWL, MEASUREMENT_WINDOW_ACTIVE]"
    using action_store.verify_lands [OF S two(2) st2 two(4) read read_world_alone [OF world] two(5) assms(14,15), of now]
    by (elim exE conjE) (rule that)
  obtain a3 w' where s3: "s3 = (a3, w')" by force
  have w': "w' = w3"
    using verify_world [OF three(1) [unfolded s3] read] .
  have "execute_action site_ops c adapter_for now i (a, w0) = (Inr (summary m3 False), s3)"
    using run two(1) three(1) by (simp add: noting_def andthen_def attempt_def ret_def)
  moreover have "map ev_status ([e1, e2] @ es) = [EXECUTING, EXECUTED, WAITING_FOR_RECRAWL, MEASUREMENT_WINDOW_ACTIVE]"
    using one(11) two(10) three(8) by simp
  moreover have "mg_history m3 = mg_history m @ [e1, e2] @ es" using one(10) two(9) three(7) by simp
  moreover have "site_actions c s3 = (site_actions c (a, w0))(i \<mapsto> m3)" using one(2) two(3) three(3) by simp
  ultimately show ?thesis
    using three two(8) s3 w' by (intro exI [of _ "summary m3 False"] exI [of _ a3] exI [of _ m3] exI [of _ "[e1, e2] @ es"]) simp
qed

lemma change_applied_witness:
  "\<exists>d a' m'. execute_action site_ops plain_codec (\<lambda>_. ret demo_adapter) 7 ''action:r1'' (demo_store demo_managed, ''Old'')
      = (Inr d, (a', ''New''))
    \<and> site_actions plain_codec (a', ''New'') ''action:r1'' = Some m' \<and> mg_status m' = MEASUREMENT_WINDOW_ACTIVE"
  using change_applied [OF plain_codec_ok demo_stored [of "''Old''"] demo_facts(1), of "\<lambda>_. ret demo_adapter" demo_adapter
      TITLE "''New''" demo_read "demo_write ''New''" "demo_page ''Old''" "''Old''" demo_result "''New''"
      "demo_page ''New''" "''New''" 7]
    demo_asks demo_site demo_facts demo_shows demo_words
  by (auto simp: demo_read_def demo_write_def demo_result_def as_proposed_def)



text \<open>
  C33. A crash between the write and the check is recorded: when the site took the change but
  reading the page back raises, the handler raises the same error, and what is stored is an
  executed action with the change, the value it replaced and the error on record, so that the
  next delivery checks the page instead of writing again.
\<close>

theorem interrupted_execution_recorded:
  assumes "codec_ok managed_valid c" and "site_ok c (a, w0)" and "site_actions c (a, w0) i = Some m"
    and "mg_status m = APPROVED" and "adapter_for (mg_site_id m) = ret ad"
    and "asks_for (mg_action m) f target" and "site_is ad m f target rd wr"
    and "rd w0 = (Inr pg, w1)" and "wr w1 = (Inr op, w2)" and "or_success op" and "rd w2 = (Inl err, w3)"
    and "squash (on_page f pg) \<noteq> squash target" and "as_proposed m f pg"
  shows "\<exists>a' m' es. execute_action site_ops c adapter_for now i (a, w0) = (Inl err, (a', w3))
    \<and> site_ok c (a', w3) \<and> site_actions c (a', w3) = (site_actions c (a, w0))(i \<mapsto> m')
    \<and> mg_status m' = EXECUTED \<and> mg_error m' = Some (take 500 (exn_text err))
    \<and> mg_applied m' = Some \<lparr>ap_adapter_id = ad_adapter_id ad, ap_change_id = or_change_id op,
         ap_previous_value = on_page f pg, ap_new_value = target, ap_applied_at = now\<rparr>
    \<and> mg_history m' = mg_history m @ es \<and> map ev_status es = [EXECUTING, EXECUTED, EXECUTED]"
proof -
  note c = assms(1)
  note S = actions_beside_memory [OF c]
  obtain a1 m1 e1 where one: "site_ok c (a1, w0)" "site_actions c (a1, w0) = (site_actions c (a, w0))(i \<mapsto> m1)"
    "mg_status m1 = EXECUTING" "mg_observed_value m1 = mg_observed_value m"
    "asks_for (mg_action m1) f target" "site_is ad m1 f target rd wr"
    "mg_history m1 = mg_history m @ [e1]" "ev_status e1 = EXECUTING"
    and run: "execute_action site_ops c adapter_for now i (a, w0) =
        noting (note_error site_ops c now i ''execution_error'')
          (andthen (carry_out site_ops c now m1 ad) (\<lambda>m2. ret (summary m2 False))) (a1, w0)"
    using execute_reaches [where adapter_for = adapter_for and m = m and now = now, OF c assms(2-7)] by blast
  have st1: "site_actions c (a1, w0) i = Some m1" using one(2) by simp
  have prop1: "as_proposed m1 f pg" using assms(13) one(4) by (simp add: as_proposed_def)
  obtain a2 m2 e2 where two: "carry_out site_ops c now m1 ad (a1, w0) = verify_and_save site_ops c now m2 ad (a2, w2)"
    "site_ok c (a2, w2)" "site_actions c (a2, w2) = (site_actions c (a1, w0))(i \<mapsto> m2)" "mg_status m2 = EXECUTED"
    "mg_site_id m2 = mg_site_id m1" "ac_normalized_url (mg_action m2) = ac_normalized_url (mg_action m1)"
    "mg_applied m2 = Some \<lparr>ap_adapter_id = ad_adapter_id ad, ap_change_id = or_change_id op,
         ap_previous_value = on_page f pg, ap_new_value = target, ap_applied_at = now\<rparr>"
    "mg_history m2 = mg_history m1 @ [e2]" "ev_status e2 = EXECUTED"
    using write_recorded [OF c one(1) st1 one(3,5,6) assms(8-10,12) prop1, of now] by blast
  have "site_actions c (a2, w2) i = Some m2" using two(3) by simp
  then have st2: "site_actions c (a2, w3) i = Some m2" "site_ok c (a2, w3)" using two(2) site_world by metis+
  have "read_page ad m2 (a2, w2) = (Inl err, (a2, w3))"
    using assms(11) one(6) two(5,6) by (simp add: read_page_def site_is_def on_world_run)
  then have lost: "carry_out site_ops c now m1 ad (a1, w0) = (Inl err, (a2, w3))"
    using verify_lost [OF S two(2), of i m2 ad err "(a2, w3)" now] two by simp
  obtain m3 s3 e3 where three: "note_error site_ops c now i ''execution_error'' err (a2, w3) = (Inr (), s3)"
    "site_ok c s3" "site_actions c s3 = (site_actions c (a2, w3))(i \<mapsto> m3)" "mg_status m3 = mg_status m2"
    "mg_applied m3 = mg_applied m2" "mg_error m3 = Some (take 500 (exn_text err))"
    "mg_history m3 = mg_history m2 @ [e3]" "ev_status e3 = mg_status m2"
    using action_store.note_lands [OF S st2(2,1), of "''execution_error''" now err] by auto
  obtain a3 w' where s3: "s3 = (a3, w')" by force
  have w': "w' = w3" using note_world [OF three(1) [unfolded s3]] .
  have "execute_action site_ops c adapter_for now i (a, w0) = (Inl err, s3)"
    using run lost three(1) by (simp add: noting_def andthen_def attempt_def raise_exn_def)
  moreover have "site_actions c s3 = (site_actions c (a, w0))(i \<mapsto> m3)"
    using one(2) two(3) three(3) site_world(2) [of c a2 w3 w2] by simp
  ultimately show ?thesis using one(7,8) two(4,7-9) three s3 w'
    by (intro exI [of _ a3] exI [of _ m3] exI [of _ "[e1, e2, e3]"]) simp
qed

lemma interrupted_execution_recorded_witness:
  "\<exists>a' m'. execute_action site_ops plain_codec (\<lambda>_. ret flaky_adapter) 7 ''action:r1'' (demo_store demo_managed, ''Old'')
      = (Inl (Exn RuntimeError ''timeout''), (a', ''New''))
    \<and> site_actions plain_codec (a', ''New'') ''action:r1'' = Some m' \<and> mg_status m' = EXECUTED"
  using interrupted_execution_recorded [OF plain_codec_ok demo_stored [of "''Old''"] demo_facts(1),
      of "\<lambda>_. ret flaky_adapter" flaky_adapter TITLE "''New''" flaky_read "demo_write ''New''" "demo_page ''Old''" "''Old''"
      demo_result "''New''" "Exn RuntimeError ''timeout''" "''New''" 7]
    demo_asks flaky_site demo_facts demo_shows demo_words
  by (auto simp: flaky_read_def demo_write_def demo_result_def as_proposed_def)

text \<open>
  C34. A delivery that finds the change already executed only checks the page: it reads it
  once and writes nothing, and when the page shows the value the action ends with its
  measurement window open, the change on record as it was and no error left.
\<close>

theorem redelivery_resumes:
  assumes "codec_ok managed_valid c" and "site_ok c (a, w0)" and "site_actions c (a, w0) i = Some m"
    and "mg_status m = EXECUTED" and "adapter_for (mg_site_id m) = ret ad"
    and "asks_for (mg_action m) f target" and "site_is ad m f target rd wr" and "rd w0 = (Inr pg, w1)"
    and "squash (on_page f pg) = squash target" and "stored_string f pg"
  shows "\<exists>d a' m' es. execute_action site_ops c adapter_for now i (a, w0) = (Inr d, (a', w1))
    \<and> site_ok c (a', w1) \<and> site_actions c (a', w1) = (site_actions c (a, w0))(i \<mapsto> m')
    \<and> mg_status m' = MEASUREMENT_WINDOW_ACTIVE \<and> mg_error m' = None \<and> mg_applied m' = mg_applied m
    \<and> mg_history m' = mg_history m @ es \<and> map ev_status es = [WAITING_FOR_RECRAWL, MEASUREMENT_WINDOW_ACTIVE]"
proof -
  note S = actions_beside_memory [OF assms(1)]
  have auto: "\<not> ad_manual_apply ad" using assms(7) by (simp add: site_is_def)
  have world: "ad_read_page ad (mg_site_id m) (ac_normalized_url (mg_action m)) = on_world rd"
    using assms(7) by (simp add: site_is_def)
  then have read: "read_page ad m (a, w0) = (Inr pg, (a, w1))" using assms(8) by (simp add: read_page_def on_world_run)
  obtain m1 s1 es where one: "verify_and_save site_ops c now m ad (a, w0) = (Inr m1, s1)" "site_ok c s1"
    "site_actions c s1 = (site_actions c (a, w0))(i \<mapsto> m1)" "mg_status m1 = MEASUREMENT_WINDOW_ACTIVE"
    "mg_error m1 = None" "mg_applied m1 = mg_applied m"
    "mg_history m1 = mg_history m @ es" "map ev_status es = [WAITING_FOR_RECRAWL, MEASUREMENT_WINDOW_ACTIVE]"
    using action_store.verify_lands [OF S assms(2-4) read read_world_alone [OF world] assms(6,9,10), of now]
    by (elim exE conjE) (rule that)
  obtain a1 w' where s1: "s1 = (a1, w')" by force
  have w': "w' = w1" using verify_world [OF one(1) [unfolded s1] read] .
  have "execute_action site_ops c adapter_for now i (a, w0) = execute_from site_ops c adapter_for now i m (a, w0)"
    using action_store.get_spec [OF S assms(2), of i] assms(3) by (simp add: execute_action_def andthen_def)
  also have "\<dots> = (Inr (summary m1 False), s1)"
    using execute_from_automatic [of m adapter_for ad, OF _ assms(5) auto, of site_ops c now i "(a, w0)"] assms(4) one(1)
    by (simp add: noting_def andthen_def attempt_def ret_def)
  finally show ?thesis using one s1 w'
    by (intro exI [of _ "summary m1 False"] exI [of _ a1] exI [of _ m1] exI [of _ es]) simp
qed

lemma redelivery_resumes_witness:
  "\<exists>d a' m'. execute_action site_ops plain_codec (\<lambda>_. ret demo_adapter) 7 ''action:r1'' (demo_store demo_executed, ''New'')
      = (Inr d, (a', ''New''))
    \<and> site_actions plain_codec (a', ''New'') ''action:r1'' = Some m' \<and> mg_status m' = MEASUREMENT_WINDOW_ACTIVE"
  using redelivery_resumes [OF plain_codec_ok executed_stored [of "''New''"] executed_facts(1),
      of "\<lambda>_. ret demo_adapter" demo_adapter TITLE "''New''" demo_read "demo_write ''New''" "demo_page ''New''" "''New''" 7]
    executed_facts demo_shows demo_words
  by (auto simp: demo_read_def)

text \<open>
  C38. Undoing a change on a site without a rollback of its own: while the page still shows
  what was applied, the previous value is written once, read back, and the action ends rolled
  back with the inverse change on record, by whoever asked for it.
\<close>

theorem rollback_restores:
  assumes "codec_ok managed_valid c" and "site_ok c (a, w0)" and "site_actions c (a, w0) i = Some m"
    and "check_rollback m = Inr ()" and "mg_applied m = Some applied" and "adapter_for (mg_site_id m) = ret ad"
    and "site_undoes ad m f applied rd wr" and "actor \<noteq> []"
    and "rd w0 = (Inr pg, w1)" and "wr w1 = (Inr op, w2)" and "or_success op" and "rd w2 = (Inr pg', w3)"
    and "squash (on_page f pg) = squash (ap_new_value applied)"
    and "squash (ap_new_value applied) \<noteq> squash (ap_previous_value applied)"
    and "squash (on_page f pg') = squash (ap_previous_value applied)"
  shows "\<exists>d a' m' e. rollback_action site_ops c adapter_for now i actor (a, w0) = (Inr d, (a', w3))
    \<and> site_ok c (a', w3) \<and> site_actions c (a', w3) = (site_actions c (a, w0))(i \<mapsto> m') \<and> mg_status m' = ROLLED_BACK
    \<and> mg_error m' = None \<and> mg_rolled_back m' = Some \<lparr>ap_adapter_id = ad_adapter_id ad, ap_change_id = or_change_id op,
         ap_previous_value = ap_new_value applied, ap_new_value = ap_previous_value applied, ap_applied_at = now\<rparr>
    \<and> mg_history m' = mg_history m @ [e] \<and> ev_actor e = actor \<and> ev_reason e = ''rolled_back''"
proof -
  note c = assms(1)
  have ad: "ad_adapter_id ad \<noteq> []" using assms(7) by (simp add: site_undoes_def)
  have ok3: "site_ok c (a, w3)" "site_actions c (a, w3) i = Some m" using assms(2,3) site_world by metis+
  obtain m' s' e where k: "save site_ops c now (rolled_back now m ad actor ''rolled_back'' (or_change_id op) []) (a, w3) = (Inr m', s')"
    "site_ok c s'" "site_actions c s' = (site_actions c (a, w3))(i \<mapsto> m')" "mg_status m' = ROLLED_BACK" "mg_error m' = None"
    "mg_rolled_back m' = Some \<lparr>ap_adapter_id = ad_adapter_id ad, ap_change_id = or_change_id op,
         ap_previous_value = ap_new_value applied, ap_new_value = ap_previous_value applied, ap_applied_at = now\<rparr>"
    "mg_history m' = mg_history m @ [e]" "ev_actor e = actor" "ev_reason e = ''rolled_back''"
    using action_store.undone_lands [OF actions_beside_memory [OF c] ok3 assms(4,5) ad _ assms(8),
        of "''rolled_back''" now "or_change_id op" "[]"] by auto
  obtain a' w' where aw: "s' = (a', w')" by force
  have w': "w' = w3" using save_world k(1) aw by metis
  have "rollback_by_rewriting site_ops c now m applied ad actor (a, w0) = (Inr m', s')"
    using assms(7,9-15) k(1)
    by (simp add: rollback_by_rewriting_def andthen_def of_result_def site_undoes_def read_page_def on_world_def Let_def)
  then have "rollback_action site_ops c adapter_for now i actor (a, w0) = (Inr (summary m' False), s')"
    using rollback_reaches [OF c assms(2-5), of adapter_for ad f rd wr now actor] assms(6,7)
    by (simp add: noting_def andthen_def attempt_def ret_def)
  moreover have "site_actions c (a, w3) = site_actions c (a, w0)" by (rule site_world)
  ultimately show ?thesis using k aw w'
    by (intro exI [of _ "summary m' False"] exI [of _ a'] exI [of _ m'] exI [of _ e]) simp
qed

lemma rollback_restores_witness:
  "\<exists>d a' m'. rollback_action site_ops plain_codec (\<lambda>_. ret demo_adapter) 9 ''action:r1'' ''jo'' (demo_store demo_executed, ''New'')
      = (Inr d, (a', ''Old''))
    \<and> site_actions plain_codec (a', ''Old'') ''action:r1'' = Some m' \<and> mg_status m' = ROLLED_BACK"
  using rollback_restores [OF plain_codec_ok executed_stored [of "''New''"] executed_applied, of "\<lambda>_. ret demo_adapter"
      demo_adapter TITLE demo_read "demo_write ''Old''" "''jo''" "demo_page ''New''" "''New''" demo_result "''Old''"
      "demo_page ''Old''" "''Old''" 9]
    executed_undoes demo_shows demo_words
  by (auto simp: demo_read_def demo_write_def demo_result_def)

text \<open>
  C4. A page that somebody changed after the change was applied is not overwritten by a rollback,
  whichever way the site undoes changes. When the page shows neither the applied value nor the one
  before: a site that is rewritten is read and not written to; a site whose owner applies changes is
  read at most, and never written to; a site with its own record of changes is asked once to undo
  that change by its id, no value is sent, and when it refuses, as it does once a later change has
  superseded that one (\<open>site_refuses\<close>), the refusal is taken. In each case the action keeps its status
  and its change, nothing counts as rolled back, and what happened is on record.
\<close>

theorem rollback_does_not_overwrite:
  assumes "codec_ok managed_valid c" and "site_ok c (a, w0)" and "site_actions c (a, w0) i = Some m"
    and "check_rollback m = Inr ()" and "mg_applied m = Some applied" and "adapter_for (mg_site_id m) = ret ad"
    and "field_of (mg_action m) = Inr f" and "ad_read_page ad (mg_site_id m) (ac_normalized_url (mg_action m)) = on_world rd"
    and "actor \<noteq> []" and "rd w0 = (Inr pg, w1)"
    and "squash (on_page f pg) \<notin> {squash (ap_new_value applied), squash (ap_previous_value applied)}"
    and "site_refuses ad m applied refusal w0 w2"
    and "left_alone f applied refusal w0 w1 w2 (undo_way ad applied) = (reason, err, w')"
  shows "\<exists>d a' m' e. rollback_action site_ops c adapter_for now i actor (a, w0) = (Inr d, (a', w'))
    \<and> site_ok c (a', w') \<and> site_actions c (a', w') = (site_actions c (a, w0))(i \<mapsto> m')
    \<and> mg_action m' = mg_action m \<and> mg_error m' = err \<and> mg_applied m' = Some applied \<and> mg_rolled_back m' = None
    \<and> mg_history m' = mg_history m @ [e] \<and> ev_actor e = actor \<and> ev_reason e = reason"
proof -
  note c = assms(1)
  have live: "mg_rolled_back m = None" using assms(4) by (auto simp: check_rollback_def split: if_splits)
  have ok1: "site_ok c (a, w')" "site_actions c (a, w') i = Some m" using assms(2,3) site_world by metis+
  have why: "reason \<noteq> []" using assms(13) by (auto simp: left_alone_def split: undo_route.splits if_splits)
  obtain d where undone: "undone_by site_ops c now m applied ad actor (undo_way ad applied) (a, w0)
      = save site_ops c now (noted now m actor reason d err) (a, w')"
    using undo_left_alone [OF refl assms(7,8,10-13)] by blast
  obtain m' s' e where k: "save site_ops c now (noted now m actor reason d err) (a, w') = (Inr m', s')"
    "site_ok c s'" "site_actions c s' = (site_actions c (a, w'))(i \<mapsto> m')" "mg_action m' = mg_action m"
    "mg_error m' = err" "mg_applied m' = mg_applied m" "mg_rolled_back m' = mg_rolled_back m"
    "mg_history m' = mg_history m @ [e]" "ev_actor e = actor" "ev_reason e = reason"
    using action_store.noted_lands [OF actions_beside_memory [OF c] ok1 why assms(9), of now d err] by auto
  obtain a' v where aw: "s' = (a', v)" by force
  have v: "v = w'" using save_world k(1) aw by metis
  have "rollback_action site_ops c adapter_for now i actor (a, w0) = (Inr (summary m' False), s')"
    using rollback_goes [OF c assms(2-5), of adapter_for ad now actor] assms(6) undone k(1)
    by (simp add: noting_def andthen_def attempt_def ret_def)
  moreover have "site_actions c (a, w') = site_actions c (a, w0)" by (rule site_world)
  ultimately show ?thesis using k aw v live assms(5)
    by (intro exI [of _ "summary m' False"] exI [of _ a'] exI [of _ m'] exI [of _ e]) simp
qed

text \<open>A site that is rewritten, one with its own record of changes, and one whose owner applies changes.\<close>

definition exact_adapter :: "(managed memory \<times> string) adapter" where
  "exact_adapter = demo_adapter\<lparr>ad_exact_rollback := True,
     ad_rollback_change := \<lambda>_ _ _ _ s. (Inr (demo_result\<lparr>or_success := False, or_message := ''superseded''\<rparr>), s)\<rparr>"

definition manual_adapter :: "(managed memory \<times> string) adapter" where
  "manual_adapter = demo_adapter\<lparr>ad_manual_apply := True\<rparr>"

lemma rollback_does_not_overwrite_witness:
  "(\<exists>d a' m'. rollback_action site_ops plain_codec (\<lambda>_. ret demo_adapter) 9 ''action:r1'' ''jo'' (demo_store demo_executed, ''Mine'')
      = (Inr d, (a', ''Mine'')) \<and> site_actions plain_codec (a', ''Mine'') ''action:r1'' = Some m' \<and> mg_rolled_back m' = None)
   \<and> (\<exists>d a' m'. rollback_action site_ops plain_codec (\<lambda>_. ret exact_adapter) 9 ''action:r1'' ''jo'' (demo_store demo_executed, ''Mine'')
      = (Inr d, (a', ''Mine'')) \<and> site_actions plain_codec (a', ''Mine'') ''action:r1'' = Some m' \<and> mg_error m' = Some ''superseded'')
   \<and> (\<exists>d a' m'. rollback_action site_ops plain_codec (\<lambda>_. ret manual_adapter) 9 ''action:r1'' ''jo'' (demo_store demo_executed, ''Mine'')
      = (Inr d, (a', ''Mine'')) \<and> site_actions plain_codec (a', ''Mine'') ''action:r1'' = Some m' \<and> mg_error m' = None)"
proof -
  let ?no = "demo_result\<lparr>or_success := False, or_message := ''superseded''\<rparr>"
  have field: "field_of (mg_action demo_executed) = Inr TITLE" using executed_undoes by (simp add: site_undoes_def)
  have "undo_way demo_adapter demo_applied = ByRewriting" using executed_undoes by (auto simp: site_undoes_def undo_way_def split: option.split)
  moreover have "undo_way exact_adapter demo_applied = Exactly ''c1''" "undo_way manual_adapter demo_applied = ByCustomer"
    by (simp_all add: undo_way_def exact_adapter_def manual_adapter_def demo_adapter_def)
  moreover have "py_strip (ap_previous_value demo_applied) \<noteq> []" by code_simp
  ultimately have ways: "left_alone TITLE demo_applied ?no ''Mine'' ''Mine'' ''Mine'' (undo_way demo_adapter demo_applied)
        = (''rollback_refused_page_changed'', Some (''The page's '' @ pf_label TITLE @ '' was changed after this action; rollback did not overwrite it.''), ''Mine'')"
      "left_alone TITLE demo_applied ?no ''Mine'' ''Mine'' ''Mine'' (undo_way exact_adapter demo_applied) = (''rollback_refused'', Some ''superseded'', ''Mine'')"
      "left_alone TITLE demo_applied ?no ''Mine'' ''Mine'' ''Mine'' (undo_way manual_adapter demo_applied) = (''waiting_for_customer_to_restore'', None, ''Mine'')"
      "site_refuses demo_adapter demo_executed demo_applied ?no ''Mine'' ''Mine''"
      "site_refuses exact_adapter demo_executed demo_applied ?no ''Mine'' ''Mine''"
      "site_refuses manual_adapter demo_executed demo_applied ?no ''Mine'' ''Mine''"
    by (simp_all add: left_alone_def site_refuses_def or_default_def exact_adapter_def demo_executed_def demo_managed_def demo_action_def)
  note none = rollback_does_not_overwrite [where now = 9, OF plain_codec_ok executed_stored [of "''Mine''"] executed_applied _ field _ _ _ _ _]
  have rd: "ad_read_page demo_adapter s u = on_world demo_read" "ad_read_page exact_adapter s u = on_world demo_read"
      "ad_read_page manual_adapter s u = on_world demo_read" for s u
    by (simp_all add: demo_adapter_def exact_adapter_def manual_adapter_def)
  note facts = demo_read_def demo_shows demo_words
  show ?thesis
  proof (intro conjI)
    show "\<exists>d a' m'. rollback_action site_ops plain_codec (\<lambda>_. ret demo_adapter) 9 ''action:r1'' ''jo'' (demo_store demo_executed, ''Mine'')
        = (Inr d, (a', ''Mine'')) \<and> site_actions plain_codec (a', ''Mine'') ''action:r1'' = Some m' \<and> mg_rolled_back m' = None"
      using none [of "\<lambda>_. ret demo_adapter" demo_adapter demo_read "''jo''" "demo_page ''Mine''" "''Mine''" ?no "''Mine''", OF refl rd(1) _ _ _ ways(4,1)]
      by (auto simp: facts)
    show "\<exists>d a' m'. rollback_action site_ops plain_codec (\<lambda>_. ret exact_adapter) 9 ''action:r1'' ''jo'' (demo_store demo_executed, ''Mine'')
        = (Inr d, (a', ''Mine'')) \<and> site_actions plain_codec (a', ''Mine'') ''action:r1'' = Some m' \<and> mg_error m' = Some ''superseded''"
      using none [of "\<lambda>_. ret exact_adapter" exact_adapter demo_read "''jo''" "demo_page ''Mine''" "''Mine''" ?no "''Mine''", OF refl rd(2) _ _ _ ways(5,2)]
      by (auto simp: facts)
    show "\<exists>d a' m'. rollback_action site_ops plain_codec (\<lambda>_. ret manual_adapter) 9 ''action:r1'' ''jo'' (demo_store demo_executed, ''Mine'')
        = (Inr d, (a', ''Mine'')) \<and> site_actions plain_codec (a', ''Mine'') ''action:r1'' = Some m' \<and> mg_error m' = None"
      using none [of "\<lambda>_. ret manual_adapter" manual_adapter demo_read "''jo''" "demo_page ''Mine''" "''Mine''" ?no "''Mine''", OF refl rd(3) _ _ _ ways(6,3)]
      by (auto simp: facts)
  qed
qed



text \<open>
  A delivery for an action that has nothing left to do changes nothing, in the store or on
  the site: executing one that is not approved, executing or executed, undoing one that was
  undone, and also executing one that is marked executing on a site whose owner applies changes
  by hand, which no delivery moves on.
\<close>

theorem settled_actions_untouched:
  assumes "codec_ok managed_valid c" and "site_ok c (a, w)" and "site_actions c (a, w) i = Some m"
  shows "(mg_status m \<notin> {APPROVED, EXECUTING, EXECUTED} \<longrightarrow>
      execute_action site_ops c adapter_for now i (a, w) = (Inr (summary m True), (a, w)))
    \<and> (mg_rolled_back m \<noteq> None \<longrightarrow>
      rollback_action site_ops c adapter_for now i actor (a, w) = (Inr (summary m True), (a, w)))
    \<and> (mg_status m = EXECUTING \<and> adapter_for (mg_site_id m) = ret ad \<and> ad_manual_apply ad \<longrightarrow>
      execute_action site_ops c adapter_for now i (a, w) = (Inr (summary m True), (a, w)))"
proof -
  have get: "action_get site_ops c i (a, w) = (Inr m, (a, w))"
    using action_store.get_spec [OF actions_beside_memory [OF assms(1)] assms(2), of i] assms(3) by simp
  show ?thesis
    by (auto simp: execute_action_def rollback_action_def get execute_from_def rollback_from_def
        ret_def noting_def andthen_def attempt_def)
qed

lemma settled_actions_untouched_witness:
  "execute_action site_ops plain_codec (\<lambda>_. ret (demo_adapter\<lparr>ad_manual_apply := True\<rparr>)) 9 ''action:r1'' (demo_store demo_claimed, ''Old'')
    = (Inr (summary demo_claimed True), (demo_store demo_claimed, ''Old''))"
  using settled_actions_untouched [OF plain_codec_ok claimed_stored [of "''Old''"],
      of "\<lambda>_. ret (demo_adapter\<lparr>ad_manual_apply := True\<rparr>)" 9 "''jo''" "demo_adapter\<lparr>ad_manual_apply := True\<rparr>"]
  by (simp add: demo_claimed_def)

end
