(* ===== verification/Billing.thy ===== *)
theory Billing
  imports Stores
begin

text \<open>
  Plans, trials and payments: \<open>app/billing/\<close>, every module. The gateway's HTTP transport and
  \<open>repository.transaction\<close> are arguments of the record \<open>billing\<close>, with the clock and the ids drawn,
  which are read from the state, so that time may pass and other requests may be served while the
  gateway is called. The Persian names of the plans, used only in the text a customer sees at the
  gateway, are the argument \<open>bl_describe\<close>.
\<close>

section \<open>Plans\<close>

datatype plan_id = TRIAL | STARTER | GROWTH | PRO

definition all_plans :: "plan_id list" where
  "all_plans = [TRIAL, STARTER, GROWTH, PRO]"

fun plan_value :: "plan_id \<Rightarrow> string" where
  "plan_value TRIAL = ''trial''" | "plan_value STARTER = ''starter''" | "plan_value GROWTH = ''growth''"
| "plan_value PRO = ''pro''"

record plan =
  pl_id :: plan_id
  pl_sites :: int
  pl_price :: int

abbreviation trial_length :: int where "trial_length \<equiv> days 7"
abbreviation plan_period :: int where "plan_period \<equiv> days 30"
abbreviation min_price :: int where "min_price \<equiv> 1000"

fun default_price :: "plan_id \<Rightarrow> int" where
  "default_price TRIAL = 0" | "default_price STARTER = 490000" | "default_price GROWTH = 1290000"
| "default_price PRO = 2990000"

fun plan_sites :: "plan_id \<Rightarrow> int" where
  "plan_sites TRIAL = 1" | "plan_sites STARTER = 1" | "plan_sites GROWTH = 3" | "plan_sites PRO = 10"

text \<open>\<open>int(text)\<close> on ASCII text: a sign, then digits with single underscores between them.\<close>

fun digits_value :: "int \<Rightarrow> bool \<Rightarrow> string \<Rightarrow> int option" where
  "digits_value acc after_digit [] = (if after_digit then Some acc else None)"
| "digits_value acc after_digit (ch # cs) =
     (if CHR ''0'' \<le> ch \<and> ch \<le> CHR ''9'' then digits_value (acc * 10 + (of_char ch - 48)) True cs
      else if ch = CHR ''_'' \<and> after_digit then digits_value acc False cs else None)"

definition py_int :: "string \<Rightarrow> exn + int" where
  "py_int s = (let t = py_strip s in
     case (case t of [] \<Rightarrow> None
       | ch # cs \<Rightarrow> if ch = CHR ''-'' then map_option uminus (digits_value 0 False cs)
           else if ch = CHR ''+'' then digits_value 0 False cs else digits_value 0 False t) of
     None \<Rightarrow> Inl (Exn ValueError ''invalid literal for int()'') | Some n \<Rightarrow> Inr n)"

definition lower_char :: "char \<Rightarrow> char" where
  "lower_char ch = (if CHR ''A'' \<le> ch \<and> ch \<le> CHR ''Z'' then char_of (of_char ch + 32 :: nat) else ch)"

fun split_on :: "char \<Rightarrow> string \<Rightarrow> string list" where
  "split_on sep [] = [[]]"
| "split_on sep (ch # cs) =
     (if ch = sep then [] # split_on sep cs
      else case split_on sep cs of [] \<Rightarrow> [[ch]] | w # ws \<Rightarrow> (ch # w) # ws)"

definition plan_named :: "string \<Rightarrow> exn + plan_id" where
  "plan_named name = (case filter (\<lambda>p. plan_value p = name) all_plans of
     p # _ \<Rightarrow> Inr p | [] \<Rightarrow> Inl (Exn ValueError (name @ '' is not a valid PlanId'')))"

fun parse_parts :: "string list \<Rightarrow> (plan_id \<Rightarrow> int) \<Rightarrow> exn + (plan_id \<Rightarrow> int)" where
  "parse_parts [] prices = Inr prices"
| "parse_parts (part # parts) prices =
     (if py_strip part = [] then parse_parts parts prices
      else
        let name = takeWhile (\<lambda>ch. ch \<noteq> CHR ''='') part;
            price_text = drop (Suc (length name)) part
        in and_maybe (plan_named (map lower_char (py_strip name))) (\<lambda>p.
           if p = TRIAL then Inl (Exn ValueError ''The trial has no price.'')
           else and_maybe (py_int (py_strip price_text)) (\<lambda>price.
             if price < min_price
             then Inl (Exn ValueError (''The price of '' @ plan_value p @ '' is below 1000 tomans.''))
             else parse_parts parts (prices(p := price)))))"

definition parse_prices :: "string option \<Rightarrow> exn + (plan_id \<Rightarrow> int)" where
  "parse_prices text = parse_parts (split_on (CHR '','') (case text of None \<Rightarrow> [] | Some t \<Rightarrow> t)) default_price"

definition plan_catalog :: "(plan_id \<Rightarrow> int) \<Rightarrow> plan_id \<Rightarrow> plan" where
  "plan_catalog prices p = \<lparr>pl_id = p, pl_sites = plan_sites p, pl_price = (if p = TRIAL then 0 else prices p)\<rparr>"

section \<open>Subscriptions and payments\<close>

record subscription_event =
  se_at :: instant
  se_reason :: string
  se_plan :: plan_id
  se_ends_at :: instant
  se_payment_id :: "string option"

record subscription =
  sb_tenant_id :: string
  sb_plan :: plan_id
  sb_started_at :: instant
  sb_ends_at :: instant
  sb_history :: "subscription_event list"

datatype payment_status = PENDING | PAID | PAYMENT_FAILED

record payment =
  py_payment_id :: string
  py_tenant_id :: string
  py_plan :: plan_id
  py_amount :: int
  py_authority :: "string option"
  py_status :: payment_status
  py_ref_id :: "string option"
  py_card_pan :: "string option"
  py_failure :: "string option"
  py_verify_tried :: bool
  py_created_at :: instant
  py_settled_at :: "instant option"

definition short :: "nat \<Rightarrow> string option \<Rightarrow> bool" where
  "short n t = (case t of None \<Rightarrow> True | Some s \<Rightarrow> length s \<le> n)"

definition named :: "nat \<Rightarrow> string \<Rightarrow> bool" where
  "named n s \<longleftrightarrow> s \<noteq> [] \<and> length s \<le> n"

definition subscription_valid :: "subscription \<Rightarrow> bool" where
  "subscription_valid b \<longleftrightarrow> named 64 (sb_tenant_id b) \<and> (\<forall>e \<in> set (sb_history b). named 50 (se_reason e))"

definition payment_valid :: "payment \<Rightarrow> bool" where
  "payment_valid p \<longleftrightarrow> named 64 (py_payment_id p) \<and> named 64 (py_tenant_id p) \<and> 0 < py_amount p
     \<and> short 100 (py_authority p) \<and> short 100 (py_ref_id p) \<and> short 32 (py_card_pan p) \<and> short 200 (py_failure p)"

record entitlement_now =
  en_plan :: "plan_id option"
  en_active :: bool
  en_ends_at :: "instant option"
  en_sites :: "int option"

section \<open>The gateway\<close>

record verified =
  vf_paid :: bool
  vf_ref_id :: "string option"
  vf_card_pan :: "string option"
  vf_code :: "int option"

text \<open>\<open>gw_text\<close> is the text Python gives a float, a list or a dictionary.\<close>

record 's gateway =
  gw_merchant :: string
  gw_base :: string
  gw_transport :: "string \<Rightarrow> dict \<Rightarrow> ('s, dict) prog"
  gw_text :: "pyval \<Rightarrow> string"

definition live_url :: string where "live_url = ''https://payment.zarinpal.com''"
definition sandbox_url :: string where "sandbox_url = ''https://sandbox.zarinpal.com''"

definition new_gateway :: "string \<Rightarrow> bool \<Rightarrow> (string \<Rightarrow> dict \<Rightarrow> ('s, dict) prog) \<Rightarrow> (pyval \<Rightarrow> string) \<Rightarrow> exn + 's gateway" where
  "new_gateway merchant sandbox transport rep =
     (if length (py_strip merchant) \<noteq> 36 then Inl (Exn ValueError ''A Zarinpal merchant id is 36 characters.'')
      else Inr \<lparr>gw_merchant = py_strip merchant, gw_base = (if sandbox then sandbox_url else live_url),
                gw_transport = transport, gw_text = rep\<rparr>)"

definition py_str :: "(pyval \<Rightarrow> string) \<Rightarrow> pyval \<Rightarrow> string" where
  "py_str rep v = (case v of PStr s \<Rightarrow> s | PInt n \<Rightarrow> show_int n | PNone \<Rightarrow> ''None''
     | PBool b \<Rightarrow> if b then ''True'' else ''False'' | _ \<Rightarrow> rep v)"

text \<open>\<open>d.get(key)\<close>\<close>

definition get_value :: "dict \<Rightarrow> string \<Rightarrow> pyval" where
  "get_value d k = (case map_of d k of None \<Rightarrow> PNone | Some v \<Rightarrow> v)"

definition answer_data :: "dict \<Rightarrow> dict" where
  "answer_data answer = (case get_value answer ''data'' of PDict d \<Rightarrow> d | _ \<Rightarrow> [])"

definition answer_code :: "dict \<Rightarrow> int option" where
  "answer_code answer = (case get_value (answer_data answer) ''code'' of
     PInt n \<Rightarrow> Some n | PBool b \<Rightarrow> Some (if b then 1 else 0) | _ \<Rightarrow> None)"

definition gateway_request ::
  "'s gateway \<Rightarrow> int \<Rightarrow> string \<Rightarrow> string \<Rightarrow> string option \<Rightarrow> string \<Rightarrow> ('s, string) prog" where
  "gateway_request g amount description callback mobile order_id =
     andthen (gw_transport g (gw_base g @ ''/pg/v4/payment/request.json'')
       [(''merchant_id'', PStr (gw_merchant g)), (''amount'', PInt (amount * 10)), (''currency'', PStr ''IRR''),
        (''description'', PStr (take 250 description)), (''callback_url'', PStr callback),
        (''metadata'', PDict ([(''order_id'', PStr order_id)]
           @ (case mobile of None \<Rightarrow> [] | Some m \<Rightarrow> if m = [] then [] else [(''mobile'', PStr m)])))]) (\<lambda>answer.
     if answer_code answer \<noteq> Some 100 \<or> \<not> truthy (get_value (answer_data answer) ''authority'')
     then raise_exn (Exn GatewayError ''request refused'')
     else ret (py_str (gw_text g) (get_value (answer_data answer) ''authority'')))"

definition start_url :: "'s gateway \<Rightarrow> string \<Rightarrow> string" where
  "start_url g authority = gw_base g @ ''/pg/StartPay/'' @ authority"

definition gateway_verify :: "'s gateway \<Rightarrow> int \<Rightarrow> string option \<Rightarrow> ('s, verified) prog" where
  "gateway_verify g amount authority =
     andthen (gw_transport g (gw_base g @ ''/pg/v4/payment/verify.json'')
       [(''merchant_id'', PStr (gw_merchant g)), (''amount'', PInt (amount * 10)), (''authority'', opt_str authority)]) (\<lambda>answer.
     let code = answer_code answer; d = answer_data answer; ref = get_value d ''ref_id''
     in if code = Some 100 \<or> code = Some 101
        then ret \<lparr>vf_paid = True,
             vf_ref_id = (if truthy ref \<and> py_str (gw_text g) ref \<noteq> [] then Some (py_str (gw_text g) ref) else None),
             vf_card_pan = (case get_value d ''card_pan'' of PStr c \<Rightarrow> Some c | _ \<Rightarrow> None), vf_code = code\<rparr>
        else ret \<lparr>vf_paid = False, vf_ref_id = None, vf_card_pan = None, vf_code = code\<rparr>)"

section \<open>Stores of versions\<close>

abbreviation subscription_kind :: string where "subscription_kind \<equiv> ''subscription''"
abbreviation payment_kind :: string where "payment_kind \<equiv> ''payment''"
abbreviation link_kind :: string where "link_kind \<equiv> ''payment_authority''"

record ('s, 'p) billing =
  bl_repo :: "('s, 'p) repository_ops"
  bl_subscription :: "(subscription, 'p) codec"
  bl_payment :: "(payment, 'p) codec"
  bl_link :: "(string, 'p) codec"
  bl_plans :: "plan_id \<Rightarrow> plan"
  bl_describe :: "plan_id \<Rightarrow> string"
  bl_gateway :: "'s gateway option"
  bl_callback :: "string option"
  bl_transaction :: "('s, payment) prog \<Rightarrow> ('s, payment) prog"
  bl_clock :: "'s \<Rightarrow> instant"
  bl_new_id :: "'s \<Rightarrow> string"

definition write_version ::
  "('s, 'p) repository_ops \<Rightarrow> ('m, 'p) codec \<Rightarrow> string \<Rightarrow> string \<Rightarrow> 'm \<Rightarrow> string \<Rightarrow> int \<Rightarrow> instant \<Rightarrow> ('s, unit) prog" where
  "write_version R c kind i m tenant expected_version now =
     andthen (of_result (new_precord (rid kind i (expected_version + 1)) kind i 1 (expected_version + 1)
        (model_dump c m) now (Some tenant) None)) (\<lambda>r.
     if expected_version \<noteq> 0 then updates (\<lambda>s. repo_replace R s r expected_version)
     else updates (\<lambda>s. repo_create R s r))"

definition read_version ::
  "('s, 'p) repository_ops \<Rightarrow> ('m, 'p) codec \<Rightarrow> string \<Rightarrow> string \<Rightarrow> ('s, 'm option \<times> int) prog" where
  "read_version R c kind i =
     andthen (reads (\<lambda>s. repo_get R s kind i)) (\<lambda>found.
     case found of None \<Rightarrow> ret (None, 0)
     | Some r \<Rightarrow> andthen (of_result (restore c (pr_payload r))) (\<lambda>m. ret (Some m, pr_version r)))"

definition subscription_read :: "('s, 'p) billing \<Rightarrow> string \<Rightarrow> ('s, subscription option \<times> int) prog" where
  "subscription_read B tenant = read_version (bl_repo B) (bl_subscription B) subscription_kind tenant"

definition subscription_save :: "('s, 'p) billing \<Rightarrow> subscription \<Rightarrow> int \<Rightarrow> ('s, subscription) prog" where
  "subscription_save B b expected_version = (\<lambda>s.
     andthen (write_version (bl_repo B) (bl_subscription B) subscription_kind (sb_tenant_id b) b (sb_tenant_id b)
       expected_version (bl_clock B s)) (\<lambda>_. ret b) s)"

definition payment_read :: "('s, 'p) billing \<Rightarrow> string \<Rightarrow> ('s, payment option \<times> int) prog" where
  "payment_read B i = read_version (bl_repo B) (bl_payment B) payment_kind i"

definition payment_save :: "('s, 'p) billing \<Rightarrow> payment \<Rightarrow> int \<Rightarrow> ('s, payment) prog" where
  "payment_save B p expected_version = (\<lambda>s.
     andthen (write_version (bl_repo B) (bl_payment B) payment_kind (py_payment_id p) p (py_tenant_id p)
       expected_version (bl_clock B s)) (\<lambda>_. ret p) s)"

text \<open>\<open>str(payment.authority)\<close>: the only caller has just set it.\<close>

definition link_authority :: "('s, 'p) billing \<Rightarrow> payment \<Rightarrow> ('s, unit) prog" where
  "link_authority B p = (\<lambda>s.
     write_version (bl_repo B) (bl_link B) link_kind (case py_authority p of None \<Rightarrow> ''None'' | Some a \<Rightarrow> a)
       (py_payment_id p) (py_tenant_id p) 0 (bl_clock B s) s)"

definition by_authority :: "('s, 'p) billing \<Rightarrow> string \<Rightarrow> ('s, payment option \<times> int) prog" where
  "by_authority B authority =
     andthen (read_version (bl_repo B) (bl_link B) link_kind authority) (\<lambda>(found, _).
     case found of None \<Rightarrow> ret (None, 0) | Some i \<Rightarrow> payment_read B i)"

definition payments_for_tenant :: "('s, 'p) billing \<Rightarrow> string \<Rightarrow> int \<Rightarrow> ('s, payment list) prog" where
  "payments_for_tenant B tenant limit = (\<lambda>s.
     (and_maybe (repo_query (bl_repo B) s tenant (Some payment_kind) None limit None) (\<lambda>pg.
      collect (\<lambda>r. restore (bl_payment B) (pr_payload r)) (page_records pg)), s))"

section \<open>The service\<close>

abbreviation recheck_after :: int where "recheck_after \<equiv> minutes 20"
abbreviation give_up_after :: int where "give_up_after \<equiv> days 2"
abbreviation credit_attempts :: nat where "credit_attempts \<equiv> 3"
abbreviation not_paid_codes :: "int set" where "not_paid_codes \<equiv> {-51}"

definition can_take_payments :: "('s, 'p) billing \<Rightarrow> bool" where
  "can_take_payments B \<longleftrightarrow> bl_gateway B \<noteq> None \<and> (case bl_callback B of None \<Rightarrow> False | Some u \<Rightarrow> u \<noteq> [])"

definition entitlement :: "('s, 'p) billing \<Rightarrow> string \<Rightarrow> ('s, entitlement_now) prog" where
  "entitlement B tenant =
     andthen (subscription_read B tenant) (\<lambda>(found, _).
     case found of
       None \<Rightarrow> ret \<lparr>en_plan = None, en_active = True, en_ends_at = None, en_sites = None\<rparr>
     | Some b \<Rightarrow> (\<lambda>s. (Inr \<lparr>en_plan = Some (sb_plan b), en_active = bl_clock B s < sb_ends_at b,
         en_ends_at = Some (sb_ends_at b), en_sites = Some (pl_sites (bl_plans B (sb_plan b)))\<rparr>, s)))"

definition require_active :: "('s, 'p) billing \<Rightarrow> string \<Rightarrow> ('s, entitlement_now) prog" where
  "require_active B tenant =
     andthen (entitlement B tenant) (\<lambda>e.
     if \<not> en_active e then raise_exn (Exn PlanRequired ''Your subscription has ended. Renew it to start new work.'')
     else ret e)"

definition require_site_room :: "('s, 'p) billing \<Rightarrow> string \<Rightarrow> int \<Rightarrow> ('s, unit) prog" where
  "require_site_room B tenant sites_now =
     andthen (require_active B tenant) (\<lambda>e.
     if (case en_sites e of None \<Rightarrow> False | Some n \<Rightarrow> n \<le> sites_now)
     then raise_exn (Exn PlanRequired ''Your plan has no room for another site. Upgrade it to add one.'')
     else ret ())"

definition new_subscription :: "string \<Rightarrow> plan_id \<Rightarrow> instant \<Rightarrow> instant \<Rightarrow> subscription_event list \<Rightarrow> exn + subscription" where
  "new_subscription tenant p started ends hist =
     (let b = \<lparr>sb_tenant_id = tenant, sb_plan = p, sb_started_at = started, sb_ends_at = ends, sb_history = hist\<rparr>
      in if subscription_valid b then Inr b else Inl (Exn ValidationError ''Subscription''))"

definition start_trial :: "('s, 'p) billing \<Rightarrow> string \<Rightarrow> ('s, subscription) prog" where
  "start_trial B tenant = (\<lambda>s.
     let now = bl_clock B s
     in andthen (of_result (new_subscription tenant TRIAL now (now + trial_length)
          [\<lparr>se_at = now, se_reason = ''trial_started'', se_plan = TRIAL, se_ends_at = now + trial_length,
            se_payment_id = None\<rparr>])) (\<lambda>b. subscription_save B b 0) s)"

definition close_payment :: "('s, 'p) billing \<Rightarrow> payment \<Rightarrow> int \<Rightarrow> string \<Rightarrow> ('s, payment option) prog" where
  "close_payment B p version why = (\<lambda>s.
     attempt
       (andthen (payment_save B (p\<lparr>py_status := PAYMENT_FAILED, py_failure := Some why,
          py_settled_at := Some (bl_clock B s)\<rparr>) version) (\<lambda>q. ret (Some q)))
       (\<lambda>e. if is_conflict e then andthen (payment_read B (py_payment_id p)) (\<lambda>(q, _). ret q) else raise_exn e) s)"

text \<open>\<open>timedelta * int / int\<close>: to the nearest microsecond, a tie to the even one.\<close>

definition div_round :: "int \<Rightarrow> int \<Rightarrow> int" where
  "div_round a b = (let q = a div b; r = 2 * (a mod b) in if b < r \<or> (r = b \<and> odd q) then q + 1 else q)"

definition remaining_in :: "('s, 'p) billing \<Rightarrow> subscription option \<Rightarrow> plan_id \<Rightarrow> instant \<Rightarrow> exn + int" where
  "remaining_in B current p now = (case current of
     None \<Rightarrow> Inr 0
   | Some b \<Rightarrow>
       if sb_ends_at b \<le> now then Inr 0
       else let left = sb_ends_at b - now in
         if sb_plan b = p \<or> sb_plan b = TRIAL then Inr left
         else if pl_price (bl_plans B p) = 0 then Inl (Exn (OtherError ''ZeroDivisionError'') [])
         else Inr (div_round (left * pl_price (bl_plans B (sb_plan b))) (pl_price (bl_plans B p))))"

definition last_events :: "nat \<Rightarrow> 'a list \<Rightarrow> 'a list" where
  "last_events n xs = drop (length xs - n) xs"

text \<open>The body of the transaction of \<open>_credit\<close>.\<close>

definition credit_once :: "('s, 'p) billing \<Rightarrow> payment \<Rightarrow> payment \<Rightarrow> int \<Rightarrow> instant \<Rightarrow> ('s, payment) prog" where
  "credit_once B p paid version now =
     andthen (payment_save B paid version) (\<lambda>_.
     andthen (subscription_read B (py_tenant_id p)) (\<lambda>(current, sub_version).
     andthen (of_result (remaining_in B current (py_plan p) now)) (\<lambda>left.
     let ends_at = now + left + plan_period;
         event = \<lparr>se_at = now, se_reason = ''paid'', se_plan = py_plan p, se_ends_at = ends_at,
                  se_payment_id = Some (py_payment_id p)\<rparr>
     in andthen (of_result (new_subscription (py_tenant_id p) (py_plan p)
          (case current of None \<Rightarrow> now | Some b \<Rightarrow> sb_started_at b) ends_at
          (last_events 50 ((case current of None \<Rightarrow> [] | Some b \<Rightarrow> sb_history b) @ [event])))) (\<lambda>renewed.
        andthen (subscription_save B renewed sub_version) (\<lambda>_. ret paid)))))"

fun credit :: "('s, 'p) billing \<Rightarrow> nat \<Rightarrow> verified \<Rightarrow> payment \<Rightarrow> int \<Rightarrow> ('s, payment option) prog" where
  "credit B 0 v p version = ret (Some p)"
| "credit B (Suc n) v p version = (\<lambda>s.
     let now = bl_clock B s;
         paid = p\<lparr>py_status := PAID, py_ref_id := vf_ref_id v, py_card_pan := vf_card_pan v, py_settled_at := Some now\<rparr>
     in attempt
          (andthen (bl_transaction B (credit_once B p paid version now)) (\<lambda>q. ret (Some q)))
          (\<lambda>e. if is_conflict e
            then andthen (payment_read B (py_payment_id p)) (\<lambda>(latest, version').
                 case latest of
                   None \<Rightarrow> ret None
                 | Some l \<Rightarrow> if py_status l \<noteq> PENDING then ret (Some l) else credit B n v l version')
            else raise_exn e) s)"

text \<open>Kept pending and marked, so that the billing page asks again.\<close>

definition keep_pending :: "('s, 'p) billing \<Rightarrow> payment \<Rightarrow> int \<Rightarrow> ('s, payment option) prog" where
  "keep_pending B p version =
     (if py_verify_tried p then ret (Some p)
      else attempt
        (andthen (payment_save B (p\<lparr>py_verify_tried := True\<rparr>) version) (\<lambda>q. ret (Some q)))
        (\<lambda>e. if is_conflict e then andthen (payment_read B (py_payment_id p)) (\<lambda>(q, _). ret q) else raise_exn e))"

text \<open>What \<open>_verify\<close> does with the gateway's answer.\<close>

definition verify_with :: "('s, 'p) billing \<Rightarrow> payment \<Rightarrow> int \<Rightarrow> verified \<Rightarrow> ('s, payment option) prog" where
  "verify_with B p version v =
     (if \<not> vf_paid v
      then (\<lambda>s. if (\<exists>code \<in> not_paid_codes. vf_code v = Some code) \<or> give_up_after \<le> bl_clock B s - py_created_at p
        then close_payment B p version (''not_paid:'' @ (case vf_code v of None \<Rightarrow> ''None'' | Some n \<Rightarrow> show_int n)) s
        else keep_pending B p version s)
      else credit B credit_attempts v p version)"

definition verify_payment :: "('s, 'p) billing \<Rightarrow> 's gateway \<Rightarrow> payment \<Rightarrow> int \<Rightarrow> ('s, payment option) prog" where
  "verify_payment B g p version = (\<lambda>s.
     case gateway_verify g (py_amount p) (py_authority p) s of
       (Inl e, s') \<Rightarrow> if exn_class e = GatewayError then keep_pending B p version s' else (Inl e, s')
     | (Inr v, s') \<Rightarrow> verify_with B p version v s')"

definition settle :: "('s, 'p) billing \<Rightarrow> string \<Rightarrow> string \<Rightarrow> ('s, payment option) prog" where
  "settle B authority status =
     andthen (by_authority B authority) (\<lambda>(found, version).
     case found of
       None \<Rightarrow> ret None
     | Some p \<Rightarrow>
         if py_status p \<noteq> PENDING then ret (Some p)
         else if status \<noteq> ''OK'' then close_payment B p version ''cancelled''
         else case bl_gateway B of
             None \<Rightarrow> raise_exn (Exn AttributeError ''verify'')
           | Some g \<Rightarrow> verify_payment B g p version)"

fun recheck_each :: "('s, 'p) billing \<Rightarrow> 's gateway \<Rightarrow> instant \<Rightarrow> payment list \<Rightarrow> ('s, unit) prog" where
  "recheck_each B g now [] = ret ()"
| "recheck_each B g now (p # ps) =
     andthen
       (if py_status p \<noteq> PENDING \<or> py_authority p \<in> {None, Some []} then ret ()
        else if py_verify_tried p \<or> recheck_after \<le> now - py_created_at p
        then andthen (payment_read B (py_payment_id p)) (\<lambda>(current, version).
             case current of
               None \<Rightarrow> ret ()
             | Some q \<Rightarrow> if py_status q = PENDING then andthen (verify_payment B g q version) (\<lambda>_. ret ()) else ret ())
        else ret ())
       (\<lambda>_. recheck_each B g now ps)"

definition recheck :: "('s, 'p) billing \<Rightarrow> string \<Rightarrow> ('s, unit) prog" where
  "recheck B tenant = (case bl_gateway B of
     None \<Rightarrow> ret ()
   | Some g \<Rightarrow> (\<lambda>s. andthen (payments_for_tenant B tenant 20) (recheck_each B g (bl_clock B s)) s))"

definition new_payment :: "string \<Rightarrow> string \<Rightarrow> plan \<Rightarrow> instant \<Rightarrow> exn + payment" where
  "new_payment i tenant p now =
     (let pay = \<lparr>py_payment_id = i, py_tenant_id = tenant, py_plan = pl_id p, py_amount = pl_price p, py_authority = None,
        py_status = PENDING, py_ref_id = None, py_card_pan = None, py_failure = None, py_verify_tried = False,
        py_created_at = now, py_settled_at = None\<rparr>
      in if payment_valid pay then Inr pay else Inl (Exn ValidationError ''Payment''))"

definition checkout :: "('s, 'p) billing \<Rightarrow> string \<Rightarrow> plan_id \<Rightarrow> string option \<Rightarrow> ('s, string) prog" where
  "checkout B tenant pid mobile = (case (bl_gateway B, bl_callback B) of
     (Some g, Some callback) \<Rightarrow>
       if callback = [] then raise_exn (Exn PaymentUnavailable ''Online payment is not available yet.'')
       else if pl_id (bl_plans B pid) = TRIAL then raise_exn (Exn PaymentUnavailable ''The trial is not for sale.'')
       else
         andthen (entitlement B tenant) (\<lambda>e.
         if en_plan e = None then raise_exn (Exn PaymentUnavailable ''This account has no plan to pay for.'')
         else
           andthen (\<lambda>s. (new_payment (bl_new_id B s) tenant (bl_plans B pid) (bl_clock B s), s)) (\<lambda>p.
           andthen (payment_save B p 0) (\<lambda>_.
           andthen
             (attempt (gateway_request g (py_amount p) (bl_describe B (pl_id (bl_plans B pid))) callback mobile (py_payment_id p))
               (\<lambda>e. if exn_class e \<noteq> GatewayError then raise_exn e
                 else (\<lambda>s. andthen (payment_save B (p\<lparr>py_status := PAYMENT_FAILED, py_failure := Some ''request_refused'',
                        py_settled_at := Some (bl_clock B s)\<rparr>) 1)
                   (\<lambda>_. raise_exn (Exn PaymentUnavailable
                     ''The payment gateway did not answer. Try again in a few minutes.'')) s))) (\<lambda>authority.
           andthen (bl_transaction B
             (andthen (payment_save B (p\<lparr>py_authority := Some authority\<rparr>) 1) (\<lambda>started.
              andthen (link_authority B started) (\<lambda>_. ret started)))) (\<lambda>_.
           ret (start_url g authority))))))
   | _ \<Rightarrow> raise_exn (Exn PaymentUnavailable ''Online payment is not available yet.''))"

end
