(* ===== verification/Guarantee.thy ===== *)
theory Guarantee
  imports Seo_Prelude
begin

text \<open>
  Reasoning about programs that others may interrupt. \<open>triple I L P p Q\<close>: from a state with the
  invariant \<open>I\<close> and \<open>P\<close>, whether \<open>p\<close> returns or raises, the invariant holds again and the state
  has only changed as \<open>L\<close> allows; a result satisfies \<open>Q\<close>. The rules are proved once for any
  invariant and any reflexive and transitive \<open>L\<close>, in the locale \<open>guarantee\<close>.
\<close>

definition triple ::
  "('s \<Rightarrow> bool) \<Rightarrow> ('s \<Rightarrow> 's \<Rightarrow> bool) \<Rightarrow> ('s \<Rightarrow> bool) \<Rightarrow> ('s, 'a) prog \<Rightarrow> ('a \<Rightarrow> 's \<Rightarrow> bool) \<Rightarrow> bool" where
  "triple I L P p Q \<longleftrightarrow> (\<forall>s. I s \<longrightarrow> P s \<longrightarrow> I (snd (p s)) \<and> L s (snd (p s)) \<and> (\<forall>x. fst (p s) = Inr x \<longrightarrow> Q x (snd (p s))))"

lemma tripleD:
  "triple I L P p Q \<Longrightarrow> I s \<Longrightarrow> P s \<Longrightarrow> p s = (r, s') \<Longrightarrow> I s' \<and> L s s' \<and> (\<forall>x. r = Inr x \<longrightarrow> Q x s')"
  by (simp add: triple_def) (metis fst_conv snd_conv)

lemma triple_state: "triple I L P p Q \<Longrightarrow> I s \<Longrightarrow> P s \<Longrightarrow> I (snd (p s)) \<and> L s (snd (p s))"
  by (simp add: triple_def)

text \<open>A fact that others cannot take away.\<close>

definition lasting :: "('s \<Rightarrow> bool) \<Rightarrow> ('s \<Rightarrow> 's \<Rightarrow> bool) \<Rightarrow> ('s \<Rightarrow> bool) \<Rightarrow> bool" where
  "lasting I L P \<longleftrightarrow> (\<forall>s s'. I s \<longrightarrow> I s' \<longrightarrow> L s s' \<longrightarrow> P s \<longrightarrow> P s')"

lemma lasting_True [simp]: "lasting I L (\<lambda>_. True)"
  by (simp add: lasting_def)

lemma lasting_const [simp]: "lasting I L (\<lambda>_. b)"
  by (simp add: lasting_def)

lemma lasting_conj: "lasting I L P \<Longrightarrow> lasting I L Q \<Longrightarrow> lasting I L (\<lambda>s. P s \<and> Q s)"
  by (simp add: lasting_def)

locale guarantee =
  fixes I :: "'s \<Rightarrow> bool" and L :: "'s \<Rightarrow> 's \<Rightarrow> bool"
  assumes L_refl: "I s \<Longrightarrow> L s s" and L_trans: "L s t \<Longrightarrow> L t u \<Longrightarrow> L s u"
begin

abbreviation (input) "T \<equiv> triple I L"

lemma t_weaken: "T P p Q \<Longrightarrow> (\<And>s. P' s \<Longrightarrow> P s) \<Longrightarrow> (\<And>x s. Q x s \<Longrightarrow> Q' x s) \<Longrightarrow> T P' p Q'"
  by (simp add: triple_def)

lemma t_ret: "(\<And>s. I s \<Longrightarrow> P s \<Longrightarrow> Q x s) \<Longrightarrow> T P (ret x) Q"
  by (simp add: triple_def ret_def L_refl)

lemma t_raise: "T P (raise_exn e) Q"
  by (simp add: triple_def raise_exn_def L_refl)

lemma t_result: "(\<And>x s. r = Inr x \<Longrightarrow> I s \<Longrightarrow> P s \<Longrightarrow> Q x s) \<Longrightarrow> T P (of_result r) Q"
  by (simp add: triple_def of_result_def L_refl)

lemma t_andthen:
  assumes p: "T P p M" and f: "\<And>x. T (M x) (f x) Q"
  shows "T P (andthen p f) Q"
  unfolding triple_def
proof (intro allI impI)
  fix s assume s: "I s" "P s"
  obtain r s' where ps: "p s = (r, s')" by force
  note one = tripleD [OF p s ps]
  show "I (snd (andthen p f s)) \<and> L s (snd (andthen p f s))
      \<and> (\<forall>x. fst (andthen p f s) = Inr x \<longrightarrow> Q x (snd (andthen p f s)))"
  proof (cases r)
    case (Inl e)
    then show ?thesis using one ps by (simp add: andthen_def)
  next
    case (Inr x)
    obtain r2 s2 where fs: "f x s' = (r2, s2)" by force
    have "M x s'" "I s'" using one Inr by simp_all
    note two = tripleD [OF f [of x] this(2,1) fs]
    show ?thesis using one two ps fs Inr L_trans [of s s' s2] by (simp add: andthen_def)
  qed
qed

lemma t_frame: "T P p Q \<Longrightarrow> lasting I L F \<Longrightarrow> T (\<lambda>s. P s \<and> F s) p (\<lambda>x s. Q x s \<and> F s)"
  by (simp add: triple_def lasting_def)

text \<open>What is asked only of the call, with a fact that lasts carried to what follows.\<close>

lemma t_andthen_lasting:
  assumes "T (\<lambda>_. True) p M" and "lasting I L F" and "\<And>x. T (\<lambda>s. M x s \<and> F s) (f x) Q"
  shows "T F (andthen p f) Q"
  using t_andthen [OF t_weaken [OF t_frame [OF assms(1,2)], of F "\<lambda>x s. M x s \<and> F s"] assms(3)] by simp

lemma t_attempt:
  assumes p: "T P p Q" and last: "lasting I L P" and h: "\<And>e. T P (h e) Q"
  shows "T P (attempt p h) Q"
  unfolding triple_def
proof (intro allI impI)
  fix s assume s: "I s" "P s"
  obtain r s' where ps: "p s = (r, s')" by force
  note one = tripleD [OF p s ps]
  show "I (snd (attempt p h s)) \<and> L s (snd (attempt p h s))
      \<and> (\<forall>x. fst (attempt p h s) = Inr x \<longrightarrow> Q x (snd (attempt p h s)))"
  proof (cases r)
    case (Inr x)
    then show ?thesis using one ps by (simp add: attempt_def)
  next
    case (Inl e)
    obtain r2 s2 where hs: "h e s' = (r2, s2)" by force
    have s': "I s'" "P s'" using one last s by (auto simp: lasting_def)
    note two = tripleD [OF h [of e] s' hs]
    show ?thesis using one two ps hs Inl L_trans [of s s' s2] by (simp add: attempt_def)
  qed
qed

lemma t_cases:
  assumes p: "T P p M" and last: "lasting I L P" and h: "\<And>e. T P (h e) Q" and f: "\<And>x. T (\<lambda>s. M x s \<and> P s) (f x) Q"
  shows "T P (\<lambda>s. case p s of (Inl e, s') \<Rightarrow> h e s' | (Inr x, s') \<Rightarrow> f x s') Q"
  unfolding triple_def
proof (intro allI impI)
  fix s assume s: "I s" "P s"
  obtain r s' where ps: "p s = (r, s')" by force
  note one = tripleD [OF p s ps]
  have s': "I s'" "P s'" "L s s'" using one last s by (auto simp: lasting_def)
  have next_ok: "I (snd (q s')) \<and> L s (snd (q s')) \<and> (\<forall>x. fst (q s') = Inr x \<longrightarrow> Q x (snd (q s')))"
    if "T F q Q" "F s'" for q F
  proof -
    obtain r2 s2 where q: "q s' = (r2, s2)" by force
    show ?thesis using tripleD [OF that(1) s'(1) that(2) q] L_trans [OF s'(3)] q by simp
  qed
  show "I (snd (case p s of (Inl e, s') \<Rightarrow> h e s' | (Inr x, s') \<Rightarrow> f x s'))
      \<and> L s (snd (case p s of (Inl e, s') \<Rightarrow> h e s' | (Inr x, s') \<Rightarrow> f x s'))
      \<and> (\<forall>x. fst (case p s of (Inl e, s') \<Rightarrow> h e s' | (Inr x, s') \<Rightarrow> f x s') = Inr x \<longrightarrow>
           Q x (snd (case p s of (Inl e, s') \<Rightarrow> h e s' | (Inr x, s') \<Rightarrow> f x s')))"
  proof (cases r)
    case (Inl e)
    then show ?thesis using next_ok [OF h [of e] s'(2)] ps by simp
  next
    case (Inr x)
    then show ?thesis using next_ok [OF f [of x]] one s'(2) ps by simp
  qed
qed

lemma t_if: "(b \<Longrightarrow> T P p Q) \<Longrightarrow> (\<not> b \<Longrightarrow> T P q Q) \<Longrightarrow> T P (if b then p else q) Q"
  by simp

lemma t_state: "(\<And>s0. T P (f s0) Q) \<Longrightarrow> T P (\<lambda>s. f s s) Q"
  by (simp add: triple_def)

lemma t_reads: "(\<And>s. I s \<Longrightarrow> P s \<Longrightarrow> Q (f s) s) \<Longrightarrow> T P (reads f) Q"
  by (simp add: triple_def reads_def L_refl)

end

end
