(* ===== verification/Billing_Store.thy ===== *)
theory Billing_Store
  imports Billing Guarantee
begin

text \<open>
  What the billing service keeps of its three kinds of records, whatever runs beside it. The
  laws it relies on are the locale \<open>billing_store\<close>: a repository, codecs that bring a valid model
  back, and a transaction that leaves nothing of a body that raises.
\<close>

definition sub_good :: "string \<Rightarrow> string option \<Rightarrow> subscription \<Rightarrow> bool" where
  "sub_good i tenant b \<longleftrightarrow> subscription_valid b \<and> sb_tenant_id b = i \<and> tenant = Some i"

definition pay_good :: "string \<Rightarrow> string option \<Rightarrow> payment \<Rightarrow> bool" where
  "pay_good i tenant p \<longleftrightarrow> payment_valid p \<and> py_payment_id p = i \<and> tenant = Some (py_tenant_id p)"

definition link_good :: "string \<Rightarrow> string option \<Rightarrow> string \<Rightarrow> bool" where
  "link_good i tenant p \<longleftrightarrow> True"

definition paid_ids :: "subscription \<Rightarrow> string list" where
  "paid_ids b = List.map_filter se_payment_id (sb_history b)"

text \<open>Each payment extends one subscription, its tenant's, and once; and only a paid one does.\<close>

definition credited :: "(string \<Rightarrow> subscription option) \<Rightarrow> (string \<Rightarrow> payment option) \<Rightarrow> bool" where
  "credited S P \<longleftrightarrow> (\<forall>t b. S t = Some b \<longrightarrow> distinct (paid_ids b)
     \<and> (\<forall>i \<in> set (paid_ids b). \<exists>p. P i = Some p \<and> py_status p = PAID \<and> py_tenant_id p = t))"

definition subs_of :: "('s, 'p) billing \<Rightarrow> 's \<Rightarrow> string \<Rightarrow> subscription option" where
  "subs_of B s = model_of (bl_repo B) subscription_kind (bl_subscription B) s"

definition pays_of :: "('s, 'p) billing \<Rightarrow> 's \<Rightarrow> string \<Rightarrow> payment option" where
  "pays_of B s = model_of (bl_repo B) payment_kind (bl_payment B) s"

definition links_of :: "('s, 'p) billing \<Rightarrow> 's \<Rightarrow> string \<Rightarrow> string option" where
  "links_of B s = model_of (bl_repo B) link_kind (bl_link B) s"

abbreviation pay_version :: "('s, 'p) billing \<Rightarrow> 's \<Rightarrow> string \<Rightarrow> int" where
  "pay_version B s i \<equiv> version_of (bl_repo B) payment_kind s i"

definition billing_ok ::
  "('s, 'p) billing \<Rightarrow> ('s \<Rightarrow> bool) \<Rightarrow> ('s \<Rightarrow> string \<Rightarrow> (string \<times> string \<times> int) option) \<Rightarrow> 's \<Rightarrow> bool" where
  "billing_ok B ok owner s \<longleftrightarrow>
     store_ok (bl_repo B) ok owner subscription_kind subscription_kind (bl_subscription B) sub_good s
     \<and> store_ok (bl_repo B) ok owner payment_kind payment_kind (bl_payment B) pay_good s
     \<and> store_ok (bl_repo B) ok owner link_kind link_kind (bl_link B) link_good s
     \<and> credited (subs_of B s) (pays_of B s)"

text \<open>
  How the payments may change: versions only grow, a version keeps its content, a payment keeps
  its tenant, and one that is settled keeps everything.
\<close>

definition pays_later :: "('s, 'p) billing \<Rightarrow> 's \<Rightarrow> 's \<Rightarrow> bool" where
  "pays_later B s s' \<longleftrightarrow> (\<forall>i. pay_version B s i \<le> pay_version B s' i
     \<and> (pay_version B s' i = pay_version B s i \<longrightarrow> pays_of B s' i = pays_of B s i)
     \<and> (\<forall>p. pays_of B s i = Some p \<longrightarrow>
          (\<exists>p'. pays_of B s' i = Some p' \<and> (py_status p \<noteq> PENDING \<longrightarrow> p' = p))))"

lemma pays_later_refl: "pays_later B s s"
  by (simp add: pays_later_def)

lemma pays_later_trans: "pays_later B s t \<Longrightarrow> pays_later B t u \<Longrightarrow> pays_later B s u"
  unfolding pays_later_def
proof (intro allI conjI)
  fix i
  assume st: "\<forall>i. pay_version B s i \<le> pay_version B t i \<and> (pay_version B t i = pay_version B s i \<longrightarrow> pays_of B t i = pays_of B s i)
      \<and> (\<forall>p. pays_of B s i = Some p \<longrightarrow> (\<exists>p'. pays_of B t i = Some p' \<and> (py_status p \<noteq> PENDING \<longrightarrow> p' = p)))"
    and tu: "\<forall>i. pay_version B t i \<le> pay_version B u i \<and> (pay_version B u i = pay_version B t i \<longrightarrow> pays_of B u i = pays_of B t i)
      \<and> (\<forall>p. pays_of B t i = Some p \<longrightarrow> (\<exists>p'. pays_of B u i = Some p' \<and> (py_status p \<noteq> PENDING \<longrightarrow> p' = p)))"
  show "pay_version B s i \<le> pay_version B u i" using st tu order.trans by blast
  show "pay_version B u i = pay_version B s i \<longrightarrow> pays_of B u i = pays_of B s i"
  proof
    assume eq: "pay_version B u i = pay_version B s i"
    have "pay_version B s i \<le> pay_version B t i" "pay_version B t i \<le> pay_version B u i" using st tu by simp_all
    then have "pay_version B t i = pay_version B s i" "pay_version B u i = pay_version B t i" using eq by simp_all
    then show "pays_of B u i = pays_of B s i" using st tu by simp
  qed
  show "pays_of B s i = Some p \<longrightarrow> (\<exists>p'. pays_of B u i = Some p' \<and> (py_status p \<noteq> PENDING \<longrightarrow> p' = p))" for p
  proof
    assume "pays_of B s i = Some p"
    then obtain p' where "pays_of B t i = Some p'" "py_status p \<noteq> PENDING \<longrightarrow> p' = p" using st by blast
    then show "\<exists>p'. pays_of B u i = Some p' \<and> (py_status p \<noteq> PENDING \<longrightarrow> p' = p)" using tu by metis
  qed
qed

text \<open>A copy of a payment read at a version: the store has that version or a later one.\<close>

definition held :: "('s, 'p) billing \<Rightarrow> payment \<Rightarrow> int \<Rightarrow> 's \<Rightarrow> bool" where
  "held B p v s \<longleftrightarrow> payment_valid p \<and> 1 \<le> v \<and> v \<le> pay_version B s (py_payment_id p)
     \<and> (pay_version B s (py_payment_id p) = v \<longrightarrow> pays_of B s (py_payment_id p) = Some p)"

lemma held_lasting: "lasting I (pays_later B) (held B p v)"
  unfolding lasting_def held_def
proof (intro allI impI)
  let ?i = "py_payment_id p"
  fix s s' assume l: "pays_later B s s'" and h: "payment_valid p \<and> 1 \<le> v \<and> v \<le> pay_version B s ?i
      \<and> (pay_version B s ?i = v \<longrightarrow> pays_of B s ?i = Some p)"
  have le: "pay_version B s ?i \<le> pay_version B s' ?i" and
    eq: "pay_version B s' ?i = pay_version B s ?i \<Longrightarrow> pays_of B s' ?i = pays_of B s ?i"
    using l by (simp_all add: pays_later_def)
  show "payment_valid p \<and> 1 \<le> v \<and> v \<le> pay_version B s' ?i \<and> (pay_version B s' ?i = v \<longrightarrow> pays_of B s' ?i = Some p)"
  proof (intro conjI impI)
    assume "pay_version B s' ?i = v"
    then have "pay_version B s ?i = v" using h le by simp
    then show "pays_of B s' ?i = Some p" using h eq \<open>pay_version B s' ?i = v\<close> by simp
  qed (use h le in simp_all)
qed

lemma map_filter_drop: "\<exists>k. List.map_filter f (drop n xs) = drop k (List.map_filter f xs)"
proof (induction n arbitrary: xs)
  case 0
  show ?case by (rule exI [of _ 0]) simp
next
  case (Suc n)
  show ?case
  proof (cases xs)
    case Nil
    then show ?thesis by (simp add: map_filter_simps)
  next
    case (Cons x ys)
    obtain k where k: "List.map_filter f (drop n ys) = drop k (List.map_filter f ys)" using Suc by blast
    show ?thesis
    proof (cases "f x")
      case None
      then show ?thesis using Cons k by (auto simp: map_filter_simps)
    next
      case (Some y)
      then show ?thesis using Cons k by (intro exI [of _ "Suc k"]) (simp add: map_filter_simps)
    qed
  qed
qed

lemma map_filter_append: "List.map_filter f (xs @ ys) = List.map_filter f xs @ List.map_filter f ys"
  by (simp add: List.map_filter_def)

lemma paid_ids_last:
  assumes "se_payment_id e = Some i" and "i \<notin> set (List.map_filter se_payment_id h)"
    and "distinct (List.map_filter se_payment_id h)"
  shows "distinct (List.map_filter se_payment_id (last_events n (h @ [e])))
    \<and> set (List.map_filter se_payment_id (last_events n (h @ [e]))) \<subseteq> insert i (set (List.map_filter se_payment_id h))"
proof -
  have all: "List.map_filter se_payment_id (h @ [e]) = List.map_filter se_payment_id h @ [i]"
    using assms(1) by (simp add: map_filter_append map_filter_simps)
  obtain k where k: "List.map_filter se_payment_id (last_events n (h @ [e])) = drop k (List.map_filter se_payment_id h @ [i])"
    using map_filter_drop [of se_payment_id "length (h @ [e]) - n" "h @ [e]"] all by (auto simp: last_events_def)
  have "distinct (List.map_filter se_payment_id h @ [i])" using assms by simp
  then have "distinct (drop k (List.map_filter se_payment_id h @ [i]))" by (rule distinct_drop)
  moreover have "set (drop k (List.map_filter se_payment_id h @ [i])) \<subseteq> set (List.map_filter se_payment_id h @ [i])"
    by (rule set_drop_subset)
  ultimately show ?thesis unfolding k by simp
qed

lemma last_events_last: "0 < n \<Longrightarrow> last (last_events n (h @ [e])) = e \<and> last_events n (h @ [e]) \<noteq> []"
  by (simp add: last_events_def)

text \<open>
  What the gateway's documentation promises of its answers: an authority, a reference, a masked
  card number and a code of ordinary length.
\<close>

definition answer_ok :: "'s gateway \<Rightarrow> dict \<Rightarrow> bool" where
  "answer_ok g a \<longleftrightarrow> length (py_str (gw_text g) (get_value (answer_data a) ''authority'')) \<le> 100
     \<and> length (py_str (gw_text g) (get_value (answer_data a) ''ref_id'')) \<le> 100
     \<and> (\<forall>card. get_value (answer_data a) ''card_pan'' = PStr card \<longrightarrow> length card \<le> 32)
     \<and> (\<forall>n. answer_code a = Some n \<longrightarrow> length (show_int n) \<le> 100)"

definition verified_ok :: "verified \<Rightarrow> bool" where
  "verified_ok v \<longleftrightarrow> short 100 (vf_ref_id v) \<and> short 32 (vf_card_pan v)
     \<and> (\<forall>n. vf_code v = Some n \<longrightarrow> length (show_int n) \<le> 100)"

definition gateway_keeps :: "('s \<Rightarrow> bool) \<Rightarrow> ('s \<Rightarrow> 's \<Rightarrow> bool) \<Rightarrow> 's gateway \<Rightarrow> bool" where
  "gateway_keeps I L g \<longleftrightarrow> (\<forall>url d. triple I L (\<lambda>_. True) (gw_transport g url d) (\<lambda>a _. answer_ok g a))"

section \<open>The laws\<close>

locale billing_store = repository R ok owner
  for R :: "('s, 'p) repository_ops" and ok and owner +
  fixes B :: "('s, 'p) billing"
  assumes repo: "bl_repo B = R"
    and sub_codec: "codec_ok subscription_valid (bl_subscription B)"
    and pay_codec: "codec_ok payment_valid (bl_payment B)"
    and link_codec: "codec_ok (\<lambda>_. True) (bl_link B)"
    and atomic: "undoes_on_error (bl_transaction B)"
begin

lemma read_version_run:
  assumes "store_ok R ok owner pre kind c good s"
  shows "read_version R c kind i s = (Inr (model_of R kind c s i, version_of R kind s i), s)"
  using assms
  by (fastforce simp: read_version_def store_ok_def model_of_def version_of_def andthen_def reads_def of_result_def
      restore_def ret_def split: option.splits)

text \<open>
  A write of the version after the current one lands; any other is refused, and the state is as it was.
\<close>

lemma write_version_run:
  assumes so: "store_ok R ok owner kind kind c good s" and val: "model_validate c (model_dump c m) = Some m"
    and i: "i \<noteq> []" "kind \<noteq> []" "0 \<le> v" and old: "version_of R kind s i = v \<longrightarrow> (\<forall>m0. model_of R kind c s i = Some m0 \<longrightarrow>
      (\<exists>r0. repo_get R s kind i = Some r0 \<and> pr_tenant_id r0 = Some tenant))"
  shows "if version_of R kind s i = v
    then \<exists>s' r. write_version R c kind i m tenant v now s = (Inr (), s') \<and> written_to R ok owner s r s'
      \<and> store_record kind kind c i (v + 1) m r \<and> pr_tenant_id r = Some tenant
    else \<exists>e. write_version R c kind i m tenant v now s = (Inl e, s) \<and> (version_of R kind s i \<noteq> 0 \<longrightarrow> is_conflict e)"
proof -
  obtain r where r: "new_precord (rid kind i (v + 1)) kind i 1 (v + 1) (model_dump c m) now (Some tenant) None = Inr r"
    using new_precord_Inr [where kind = kind and i = i and v = "v + 1" and schema = 1 and pre = kind
        and p = "model_dump c m" and now = now and tenant = "Some tenant" and site = None] i by auto
  have sr: "store_record kind kind c i (v + 1) m r" "pr_tenant_id r = Some tenant"
    using new_precord_store [OF r val] by simp_all
  note pos = version_pos [OF so, of i]
  have run: "write_version R c kind i m tenant v now s
      = (case (if v \<noteq> 0 then repo_replace R s r v else repo_create R s r) of Inl e \<Rightarrow> (Inl e, s) | Inr s' \<Rightarrow> (Inr (), s'))"
    using r by (simp add: write_version_def andthen_def of_result_def updates_def split: sum.split)
  show ?thesis
  proof (cases "version_of R kind s i = v")
    case True
    have "\<exists>s'. (if v \<noteq> 0 then repo_replace R s r v else repo_create R s r) = Inr s' \<and> written_to R ok owner s r s'"
    proof (cases "v = 0")
      case True
      then show ?thesis using store_create [OF so, of i m r] sr(1) pos \<open>version_of R kind s i = v\<close> by simp
    next
      case False
      then obtain cur where cur: "repo_get R s kind i = Some cur" "pr_version cur = v"
        using True pos by (auto simp: version_of_def split: option.splits)
      have "pr_tenant_id cur = pr_tenant_id r"
        using old [rule_format, OF \<open>version_of R kind s i = v\<close>] sr(2) cur(1) so by (fastforce simp: store_ok_def model_of_def)
      then show ?thesis using store_replace [OF so sr(1) cur] False by simp
    qed
    then show ?thesis using run True sr by auto
  next
    case False
    have "\<exists>e. (if v \<noteq> 0 then repo_replace R s r v else repo_create R s r) = Inl e
        \<and> (version_of R kind s i \<noteq> 0 \<longrightarrow> is_conflict e)"
    proof (cases "repo_get R s kind i")
      case None
      then show ?thesis using False pos replace_missing [of s r v] so sr(1)
        by (auto simp: store_ok_def store_record_def refused_def)
    next
      case (Some cur)
      then have get: "repo_get R s kind i \<noteq> None" by simp
      show ?thesis
      proof (cases "v = 0")
        case True
        then show ?thesis using store_create_stale [OF so _ get, of m r] sr(1) by (auto simp: refused_def)
      next
        case False
        then show ?thesis using store_replace_stale [OF so sr(1) get] \<open>version_of R kind s i \<noteq> v\<close> by (auto simp: refused_def)
      qed
    qed
    then show ?thesis using run False by auto
  qed
qed

lemma kinds_apart: "CHR '':'' \<notin> set subscription_kind" "CHR '':'' \<notin> set payment_kind" "CHR '':'' \<notin> set link_kind"
  by simp_all

lemma store_record_id:
  "store_record pre kind c i v m r \<Longrightarrow> pr_record_id r = rid pre (pr_id r) (pr_version r) \<and> pr_type r = kind \<and> pr_version r = v"
  by (simp add: store_record_def)

text \<open>A record of one kind leaves the stores of the other two as they are.\<close>

lemma others_written:
  assumes so: "store_ok R ok owner kind kind c good s" and w: "written_to R ok owner s r s'"
    and sr: "store_record kind' kind' c' i v m r" and "0 \<le> v" and "kind \<noteq> kind'"
    and "CHR '':'' \<notin> set kind" "CHR '':'' \<notin> set kind'"
  shows "store_ok R ok owner kind kind c good s' \<and> model_of R kind c s' = model_of R kind c s
    \<and> version_of R kind s' = version_of R kind s"
  using store_other [OF so w, of kind'] store_record_id [OF sr] assms(4-7) by auto

lemma payment_written:
  assumes ok: "billing_ok B ok owner s" and val: "payment_valid p"
    and ver: "pay_version B s (py_payment_id p) = v"
    and old: "\<And>p0. pays_of B s (py_payment_id p) = Some p0 \<Longrightarrow> py_status p0 = PENDING \<and> py_tenant_id p0 = py_tenant_id p"
  shows "\<exists>s'. payment_save B p v s = (Inr p, s') \<and> billing_ok B ok owner s' \<and> pays_later B s s'
    \<and> pays_of B s' = (pays_of B s)(py_payment_id p \<mapsto> p) \<and> subs_of B s' = subs_of B s \<and> links_of B s' = links_of B s
    \<and> version_of (bl_repo B) subscription_kind s' = version_of (bl_repo B) subscription_kind s
    \<and> pay_version B s' (py_payment_id p) = v + 1"
proof -
  let ?i = "py_payment_id p"
  have so: "store_ok R ok owner payment_kind payment_kind (bl_payment B) pay_good s"
    "store_ok R ok owner subscription_kind subscription_kind (bl_subscription B) sub_good s"
    "store_ok R ok owner link_kind link_kind (bl_link B) link_good s"
    "credited (subs_of B s) (pays_of B s)"
    using ok repo by (simp_all add: billing_ok_def)
  note pos = version_pos [OF so(1), of ?i]
  have v: "0 \<le> v" using pos ver repo by simp
  have mv: "model_validate (bl_payment B) (model_dump (bl_payment B) p) = Some p"
    using pay_codec val by (simp add: codec_ok_def)
  have old': "X \<longrightarrow> (\<forall>m0. model_of R payment_kind (bl_payment B) s ?i = Some m0 \<longrightarrow>
      (\<exists>r0. repo_get R s payment_kind ?i = Some r0 \<and> pr_tenant_id r0 = Some (py_tenant_id p)))" for X
    using store_ok_good [OF so(1)] old repo by (fastforce simp: pays_of_def pay_good_def)
  have ne: "?i \<noteq> []" "payment_kind \<noteq> []" using val by (simp_all add: payment_valid_def named_def)
  obtain s' r where w: "write_version R (bl_payment B) payment_kind ?i p (py_tenant_id p) v (bl_clock B s) s = (Inr (), s')"
    "written_to R ok owner s r s'" "store_record payment_kind payment_kind (bl_payment B) ?i (v + 1) p r"
    "pr_tenant_id r = Some (py_tenant_id p)"
    using write_version_run [OF so(1) mv ne v old', where now = "bl_clock B s"] ver repo by auto
  have one: "store_ok R ok owner payment_kind payment_kind (bl_payment B) pay_good s'"
    "model_of R payment_kind (bl_payment B) s' = (model_of R payment_kind (bl_payment B) s)(?i \<mapsto> p)"
    "version_of R payment_kind s' j = (if j = ?i then v + 1 else version_of R payment_kind s j)" for j
    using store_written [OF so(1) w(2,3)] v val w(4) by (simp_all add: pay_good_def)
  have two: "store_ok R ok owner subscription_kind subscription_kind (bl_subscription B) sub_good s'
      \<and> model_of R subscription_kind (bl_subscription B) s' = model_of R subscription_kind (bl_subscription B) s
      \<and> version_of R subscription_kind s' = version_of R subscription_kind s"
    by (rule others_written [OF so(2) w(2,3)]) (use v in simp_all)
  have three: "store_ok R ok owner link_kind link_kind (bl_link B) link_good s'
      \<and> model_of R link_kind (bl_link B) s' = model_of R link_kind (bl_link B) s
      \<and> version_of R link_kind s' = version_of R link_kind s"
    by (rule others_written [OF so(3) w(2,3)]) (use v in simp_all)
  have maps: "pays_of B s' = (pays_of B s)(?i \<mapsto> p)" "subs_of B s' = subs_of B s" "links_of B s' = links_of B s"
    using one two three repo by (simp_all add: pays_of_def subs_of_def links_of_def)
  have "?i \<notin> set (paid_ids b)" if "subs_of B s t = Some b" for t b
    using so(4) that old by (fastforce simp: credited_def)
  then have "credited (subs_of B s') (pays_of B s')" using so(4) by (auto simp: credited_def maps)
  then have "billing_ok B ok owner s'" using one two three repo by (simp add: billing_ok_def)
  moreover have "pays_later B s s'"
    unfolding pays_later_def maps using one(3) repo ver old by auto
  ultimately show ?thesis using w(1) maps two one(3) repo
    by (intro exI [of _ s']) (simp add: payment_save_def andthen_def ret_def)
qed

lemma payment_refused:
  assumes ok: "billing_ok B ok owner s" and val: "payment_valid p" and "0 \<le> v"
    and ver: "pay_version B s (py_payment_id p) \<noteq> v"
  shows "\<exists>e. payment_save B p v s = (Inl e, s) \<and> (pay_version B s (py_payment_id p) \<noteq> 0 \<longrightarrow> is_conflict e)"
proof -
  let ?i = "py_payment_id p"
  have so: "store_ok R ok owner payment_kind payment_kind (bl_payment B) pay_good s"
    using ok repo by (simp add: billing_ok_def)
  have mv: "model_validate (bl_payment B) (model_dump (bl_payment B) p) = Some p"
    using pay_codec val by (simp add: codec_ok_def)
  have ne: "?i \<noteq> []" "payment_kind \<noteq> []" using val by (simp_all add: payment_valid_def named_def)
  show ?thesis
    using write_version_run [OF so mv ne assms(3), where now = "bl_clock B s" and tenant = "py_tenant_id p"] ver repo
    by (auto simp: payment_save_def andthen_def)
qed

text \<open>A subscription is written when what it says of payments is true.\<close>

lemma subscription_written:
  assumes ok: "billing_ok B ok owner s" and val: "subscription_valid b"
    and ver: "version_of (bl_repo B) subscription_kind s (sb_tenant_id b) = v"
    and cr: "credited ((subs_of B s)(sb_tenant_id b \<mapsto> b)) (pays_of B s)"
  shows "\<exists>s'. subscription_save B b v s = (Inr b, s') \<and> billing_ok B ok owner s' \<and> pays_later B s s'
    \<and> pays_of B s' = pays_of B s \<and> subs_of B s' = (subs_of B s)(sb_tenant_id b \<mapsto> b) \<and> links_of B s' = links_of B s
    \<and> version_of (bl_repo B) payment_kind s' = version_of (bl_repo B) payment_kind s"
proof -
  let ?i = "sb_tenant_id b"
  have so: "store_ok R ok owner subscription_kind subscription_kind (bl_subscription B) sub_good s"
    "store_ok R ok owner payment_kind payment_kind (bl_payment B) pay_good s"
    "store_ok R ok owner link_kind link_kind (bl_link B) link_good s"
    using ok repo by (simp_all add: billing_ok_def)
  note pos = version_pos [OF so(1), of ?i]
  have v: "0 \<le> v" using pos ver repo by simp
  have mv: "model_validate (bl_subscription B) (model_dump (bl_subscription B) b) = Some b"
    using sub_codec val by (simp add: codec_ok_def)
  have old': "X \<longrightarrow> (\<forall>m0. model_of R subscription_kind (bl_subscription B) s ?i = Some m0 \<longrightarrow>
      (\<exists>r0. repo_get R s subscription_kind ?i = Some r0 \<and> pr_tenant_id r0 = Some ?i))" for X
    using store_ok_good [OF so(1)] by (fastforce simp: sub_good_def)
  have ne: "?i \<noteq> []" "subscription_kind \<noteq> []" using val by (simp_all add: subscription_valid_def named_def)
  obtain s' r where w: "write_version R (bl_subscription B) subscription_kind ?i b ?i v (bl_clock B s) s = (Inr (), s')"
    "written_to R ok owner s r s'" "store_record subscription_kind subscription_kind (bl_subscription B) ?i (v + 1) b r"
    "pr_tenant_id r = Some ?i"
    using write_version_run [OF so(1) mv ne v old', where now = "bl_clock B s"] ver repo by auto
  have one: "store_ok R ok owner subscription_kind subscription_kind (bl_subscription B) sub_good s'"
    "model_of R subscription_kind (bl_subscription B) s' = (model_of R subscription_kind (bl_subscription B) s)(?i \<mapsto> b)"
    using store_written [OF so(1) w(2,3)] v val w(4) by (simp_all add: sub_good_def)
  have two: "store_ok R ok owner payment_kind payment_kind (bl_payment B) pay_good s'
      \<and> model_of R payment_kind (bl_payment B) s' = model_of R payment_kind (bl_payment B) s
      \<and> version_of R payment_kind s' = version_of R payment_kind s"
    by (rule others_written [OF so(2) w(2,3)]) (use v in simp_all)
  have three: "store_ok R ok owner link_kind link_kind (bl_link B) link_good s'
      \<and> model_of R link_kind (bl_link B) s' = model_of R link_kind (bl_link B) s
      \<and> version_of R link_kind s' = version_of R link_kind s"
    by (rule others_written [OF so(3) w(2,3)]) (use v in simp_all)
  have maps: "subs_of B s' = (subs_of B s)(?i \<mapsto> b)" "pays_of B s' = pays_of B s" "links_of B s' = links_of B s"
    using one two three repo by (simp_all add: pays_of_def subs_of_def links_of_def)
  have "billing_ok B ok owner s'" using one two three repo cr by (simp add: billing_ok_def maps)
  moreover have "pays_later B s s'" unfolding pays_later_def maps using two repo by simp
  ultimately show ?thesis using w(1) maps two repo
    by (intro exI [of _ s']) (simp add: subscription_save_def andthen_def ret_def)
qed

lemma paid_first:
  assumes ok: "billing_ok B ok owner s" and st: "pays_of B s (py_payment_id p) = Some p" and pend: "py_status p = PENDING"
    and ver: "pay_version B s (py_payment_id p) = v" and val: "payment_valid paid"
    and paid: "py_status paid = PAID" "py_payment_id paid = py_payment_id p" "py_tenant_id paid = py_tenant_id p"
  shows "\<exists>s1. payment_save B paid v s = (Inr paid, s1) \<and> billing_ok B ok owner s1 \<and> pays_later B s s1
    \<and> pays_of B s1 = (pays_of B s)(py_payment_id p \<mapsto> paid) \<and> subs_of B s1 = subs_of B s \<and> links_of B s1 = links_of B s
    \<and> pay_version B s1 (py_payment_id p) = v + 1
    \<and> subscription_read B (py_tenant_id p) s1
        = (Inr (subs_of B s (py_tenant_id p), version_of (bl_repo B) subscription_kind s1 (py_tenant_id p)), s1)"
proof -
  obtain s1 where one: "payment_save B paid v s = (Inr paid, s1)" "billing_ok B ok owner s1" "pays_later B s s1"
    "pays_of B s1 = (pays_of B s)(py_payment_id p \<mapsto> paid)" "subs_of B s1 = subs_of B s" "links_of B s1 = links_of B s"
    "pay_version B s1 (py_payment_id p) = v + 1"
    using payment_written [OF ok val, of v] st ver pend paid by auto
  have "store_ok R ok owner subscription_kind subscription_kind (bl_subscription B) sub_good s1"
    using one(2) repo by (simp add: billing_ok_def)
  from read_version_run [OF this, of "py_tenant_id p"] show ?thesis
    using one repo by (intro exI [of _ s1]) (simp add: subscription_read_def subs_of_def)
qed

text \<open>A body that returns has found what the rest of the current subscription is worth.\<close>

lemma credit_once_needs:
  assumes "billing_ok B ok owner s" and "pays_of B s (py_payment_id p) = Some p" and "py_status p = PENDING"
    and "pay_version B s (py_payment_id p) = v" and "payment_valid paid"
    and "py_status paid = PAID" "py_payment_id paid = py_payment_id p" "py_tenant_id paid = py_tenant_id p"
    and "fst (credit_once B p paid v now s) = Inr x"
  shows "\<exists>left. remaining_in B (subs_of B s (py_tenant_id p)) (py_plan p) now = Inr left"
proof -
  obtain s1 where "payment_save B paid v s = (Inr paid, s1)" "subscription_read B (py_tenant_id p) s1
      = (Inr (subs_of B s (py_tenant_id p), version_of (bl_repo B) subscription_kind s1 (py_tenant_id p)), s1)"
    using paid_first [OF assms(1-8)] by blast
  then show ?thesis using assms(9)
    by (cases "remaining_in B (subs_of B s (py_tenant_id p)) (py_plan p) now")
      (simp_all add: credit_once_def andthen_def of_result_def)
qed

text \<open>A payment that is still pending at its version, paid and credited in one body.\<close>

lemma credit_once_run:
  assumes ok: "billing_ok B ok owner s" and st: "pays_of B s (py_payment_id p) = Some p" and pend: "py_status p = PENDING"
    and ver: "pay_version B s (py_payment_id p) = v" and val: "payment_valid paid"
    and paid: "py_status paid = PAID" "py_payment_id paid = py_payment_id p" "py_tenant_id paid = py_tenant_id p"
    and left: "remaining_in B (subs_of B s (py_tenant_id p)) (py_plan p) now = Inr left"
  shows "\<exists>s' b. credit_once B p paid v now s = (Inr paid, s') \<and> billing_ok B ok owner s' \<and> pays_later B s s'
    \<and> pays_of B s' = (pays_of B s)(py_payment_id p \<mapsto> paid) \<and> subs_of B s' = (subs_of B s)(py_tenant_id p \<mapsto> b)
    \<and> sb_plan b = py_plan p \<and> sb_ends_at b = now + left + plan_period
    \<and> sb_history b \<noteq> [] \<and> se_payment_id (last (sb_history b)) = Some (py_payment_id p) \<and> pay_version B s' (py_payment_id p) = v + 1
    \<and> links_of B s' = links_of B s"
proof -
  let ?i = "py_payment_id p" and ?t = "py_tenant_id p"
  let ?cur = "subs_of B s ?t"
  obtain s1 where one: "payment_save B paid v s = (Inr paid, s1)" "billing_ok B ok owner s1" "pays_later B s s1"
    "pays_of B s1 = (pays_of B s)(?i \<mapsto> paid)" "subs_of B s1 = subs_of B s" "links_of B s1 = links_of B s" "pay_version B s1 ?i = v + 1"
    and read: "subscription_read B ?t s1 = (Inr (?cur, version_of (bl_repo B) subscription_kind s1 ?t), s1)"
    using paid_first [OF ok st pend ver val paid] by blast
  have cr: "credited (subs_of B s) (pays_of B s)" and
    so: "store_ok R ok owner subscription_kind subscription_kind (bl_subscription B) sub_good s"
    using ok repo by (simp_all add: billing_ok_def)
  let ?e = "\<lparr>se_at = now, se_reason = ''paid'', se_plan = py_plan p, se_ends_at = now + left + plan_period,
                  se_payment_id = Some ?i\<rparr>"
  let ?h = "case ?cur of None \<Rightarrow> [] | Some b \<Rightarrow> sb_history b"
  let ?b = "\<lparr>sb_tenant_id = ?t, sb_plan = py_plan p, sb_started_at = (case ?cur of None \<Rightarrow> now | Some b \<Rightarrow> sb_started_at b),
     sb_ends_at = now + left + plan_period, sb_history = last_events 50 (?h @ [?e])\<rparr>"
  have good: "subscription_valid b0 \<and> sb_tenant_id b0 = ?t" if "?cur = Some b0" for b0
    using store_ok_good [OF so, of ?t b0] that repo by (auto simp: subs_of_def sub_good_def)
  have hist: "\<forall>e \<in> set ?h. named 50 (se_reason e)"
    using good by (cases ?cur) (auto simp: subscription_valid_def)
  have tn: "named 64 ?t" using val paid(3) by (simp add: payment_valid_def)
  have valid: "subscription_valid ?b"
    using hist tn by (auto simp: subscription_valid_def last_events_def named_def dest!: in_set_dropD)
  then have new: "new_subscription ?t (py_plan p) (case ?cur of None \<Rightarrow> now | Some b \<Rightarrow> sb_started_at b)
      (now + left + plan_period) (last_events 50 (?h @ [?e])) = Inr ?b"
    by (simp add: new_subscription_def)
  have fresh: "?i \<notin> set (paid_ids b0)" if "subs_of B s t = Some b0" for t b0
    using cr that st pend by (fastforce simp: credited_def)
  have h: "distinct (List.map_filter se_payment_id ?h)" "?i \<notin> set (List.map_filter se_payment_id ?h)"
    using cr fresh by (cases ?cur; auto simp: credited_def paid_ids_def map_filter_simps)+
  have ids: "distinct (paid_ids ?b)" "set (paid_ids ?b) \<subseteq> insert ?i (set (List.map_filter se_payment_id ?h))"
    using paid_ids_last [of ?e ?i ?h 50] h by (simp_all add: paid_ids_def)
  have old: "\<exists>q. pays_of B s j = Some q \<and> py_status q = PAID \<and> py_tenant_id q = ?t"
    if "j \<in> set (List.map_filter se_payment_id ?h)" for j
    using that cr by (cases ?cur) (auto simp: credited_def paid_ids_def map_filter_simps)
  have "credited ((subs_of B s1)(?t \<mapsto> ?b)) (pays_of B s1)"
    using cr fresh ids old paid unfolding credited_def one(4,5)
    by (auto split: if_splits)
  then obtain s2 where two: "subscription_save B ?b (version_of (bl_repo B) subscription_kind s1 ?t) s1 = (Inr ?b, s2)"
    "billing_ok B ok owner s2" "pays_later B s1 s2" "pays_of B s2 = pays_of B s1" "subs_of B s2 = (subs_of B s1)(?t \<mapsto> ?b)" "links_of B s2 = links_of B s1"
    "version_of (bl_repo B) payment_kind s2 = version_of (bl_repo B) payment_kind s1"
    using subscription_written [OF one(2) valid] by auto
  have "credit_once B p paid v now s = (Inr paid, s2)"
    using one(1) read left new two(1)
    by (simp add: credit_once_def andthen_def of_result_def ret_def Let_def)
  then show ?thesis
    using one two pays_later_trans last_events_last [of 50 ?h ?e] by (intro exI [of _ s2] exI [of _ ?b]) simp
qed

sublocale guarantee "billing_ok B ok owner" "pays_later B"
  by unfold_locales (auto intro: pays_later_refl pays_later_trans)

lemma payment_read_run:
  assumes "billing_ok B ok owner s"
  shows "payment_read B i s = (Inr (pays_of B s i, pay_version B s i), s)"
  using read_version_run [of payment_kind payment_kind "bl_payment B" pay_good s i] assms repo
  by (simp add: billing_ok_def payment_read_def pays_of_def)

lemma pays_good: "billing_ok B ok owner s \<Longrightarrow> pays_of B s i = Some p \<Longrightarrow>
    payment_valid p \<and> py_payment_id p = i \<and> 1 \<le> pay_version B s i"
  using store_ok_good [of payment_kind payment_kind "bl_payment B" pay_good s i p]
    version_pos [of payment_kind payment_kind "bl_payment B" pay_good s i] repo
  by (auto simp: billing_ok_def pays_of_def pay_good_def)

lemma t_read: "T (\<lambda>_. True) (payment_read B i)
    (\<lambda>x s. case fst x of None \<Rightarrow> True | Some p \<Rightarrow> py_payment_id p = i \<and> held B p (snd x) s)"
  unfolding triple_def
proof (intro allI impI)
  fix s assume ok: "billing_ok B ok owner s"
  show "billing_ok B ok owner (snd (payment_read B i s)) \<and> pays_later B s (snd (payment_read B i s))
      \<and> (\<forall>x. fst (payment_read B i s) = Inr x \<longrightarrow>
        (case fst x of None \<Rightarrow> True | Some p \<Rightarrow> py_payment_id p = i \<and> held B p (snd x) (snd (payment_read B i s))))"
    using ok pays_good [OF ok, of i] by (auto simp: payment_read_run pays_later_refl held_def split: option.split)
qed

lemma t_save:
  assumes "py_status p = PENDING" and "payment_valid q" and "py_payment_id q = py_payment_id p" and "py_tenant_id q = py_tenant_id p"
  shows "T (held B p v) (payment_save B q v) (\<lambda>_ _. True)"
  unfolding triple_def
proof (intro allI impI)
  fix s assume ok: "billing_ok B ok owner s" and h: "held B p v s"
  show "billing_ok B ok owner (snd (payment_save B q v s)) \<and> pays_later B s (snd (payment_save B q v s))
      \<and> (\<forall>x. fst (payment_save B q v s) = Inr x \<longrightarrow> True)"
  proof (cases "pay_version B s (py_payment_id p) = v")
    case True
    then show ?thesis using payment_written [OF ok assms(2), of v] h assms by (auto simp: held_def)
  next
    case False
    then show ?thesis using payment_refused [OF ok assms(2), of v] h assms ok by (auto simp: held_def pays_later_refl)
  qed
qed

lemma t_create:
  assumes "payment_valid p"
  shows "T (\<lambda>_. True) (payment_save B p 0) (\<lambda>_. held B p 1)"
  unfolding triple_def
proof (intro allI impI)
  fix s assume ok: "billing_ok B ok owner s"
  show "billing_ok B ok owner (snd (payment_save B p 0 s)) \<and> pays_later B s (snd (payment_save B p 0 s))
      \<and> (\<forall>x. fst (payment_save B p 0 s) = Inr x \<longrightarrow> held B p 1 (snd (payment_save B p 0 s)))"
  proof (cases "pay_version B s (py_payment_id p) = 0")
    case True
    then have "pays_of B s (py_payment_id p) = None" using pays_good [OF ok] by (cases "pays_of B s (py_payment_id p)") force+
    then show ?thesis using payment_written [OF ok assms True] assms by (auto simp: held_def)
  next
    case False
    then show ?thesis using payment_refused [OF ok assms, of 0] ok by (auto simp: pays_later_refl)
  qed
qed

lemma t_transaction: "T P p Q \<Longrightarrow> T P (bl_transaction B p) Q"
  using atomic unfolding triple_def undoes_on_error_def
  by (auto simp: pays_later_refl split: sum.splits prod.splits)

lemma t_credit_once:
  assumes "py_status p = PENDING" and "payment_valid paid" and "py_status paid = PAID"
    and "py_payment_id paid = py_payment_id p" and "py_tenant_id paid = py_tenant_id p"
  shows "T (held B p v) (bl_transaction B (credit_once B p paid v now)) (\<lambda>_ _. True)"
  unfolding triple_def
proof (intro allI impI)
  fix s assume ok: "billing_ok B ok owner s" and h: "held B p v s"
  let ?run = "bl_transaction B (credit_once B p paid v now) s"
  have undone: "?run = (Inl e, s)" if "fst (credit_once B p paid v now s) = Inl e" for e
    using atomic that by (auto simp: undoes_on_error_def split: prod.split)
  show "billing_ok B ok owner (snd ?run) \<and> pays_later B s (snd ?run) \<and> (\<forall>x. fst ?run = Inr x \<longrightarrow> True)"
  proof (cases "pay_version B s (py_payment_id p) = v")
    case False
    then obtain e where "payment_save B paid v s = (Inl e, s)"
      using payment_refused [OF ok assms(2), of v] h assms by (auto simp: held_def)
    then have "fst (credit_once B p paid v now s) = Inl e" by (simp add: credit_once_def andthen_def)
    then show ?thesis using undone ok by (simp add: pays_later_refl)
  next
    case True
    then have st: "pays_of B s (py_payment_id p) = Some p" using h by (simp add: held_def)
    show ?thesis
    proof (cases "fst (credit_once B p paid v now s)")
      case (Inl e)
      then show ?thesis using undone ok by (simp add: pays_later_refl)
    next
      case (Inr x)
      obtain left where "remaining_in B (subs_of B s (py_tenant_id p)) (py_plan p) now = Inr left"
        using credit_once_needs [OF ok st assms(1) True assms(2-5)] Inr by auto
      then obtain s' where "credit_once B p paid v now s = (Inr paid, s')" "billing_ok B ok owner s'" "pays_later B s s'"
        using credit_once_run [OF ok st assms(1) True assms(2-5)] by blast
      then have "?run = (Inr paid, s')" using atomic by (simp add: undoes_on_error_def)
      then show ?thesis using \<open>billing_ok B ok owner s'\<close> \<open>pays_later B s s'\<close> by simp
    qed
  qed
qed

section \<open>Every operation keeps the books\<close>

abbreviation (input) "books_gateway g \<equiv> gateway_keeps (billing_ok B ok owner) (pays_later B) g"

lemma t_verify_call: "books_gateway g \<Longrightarrow> T (\<lambda>_. True) (gateway_verify g amount authority) (\<lambda>v _. verified_ok v)"
  unfolding gateway_verify_def Let_def
  by (rule t_andthen [where M = "\<lambda>a _. answer_ok g a"])
    (auto simp: gateway_keeps_def answer_ok_def verified_ok_def short_def split: pyval.splits intro!: t_ret)

lemma t_request_call: "books_gateway g \<Longrightarrow>
    T (\<lambda>_. True) (gateway_request g amount d cb mobile order) (\<lambda>a _. length a \<le> 100)"
  unfolding gateway_request_def
  by (rule t_andthen [where M = "\<lambda>a _. answer_ok g a"])
    (auto simp: gateway_keeps_def answer_ok_def intro!: t_if t_ret t_raise)

lemma t_reread: "T (\<lambda>_. True) (andthen (payment_read B i) (\<lambda>(q, _). ret q)) (\<lambda>_ _. True)"
  by (rule t_andthen [OF t_read]) (auto intro!: t_ret)

text \<open>A save over the version held, answered by what is stored when it comes too late.\<close>

lemma t_save_or_reread:
  assumes "py_status p = PENDING" and "payment_valid q" and "py_payment_id q = py_payment_id p" and "py_tenant_id q = py_tenant_id p"
  shows "T (held B p v) (attempt (andthen (payment_save B q v) (\<lambda>q. ret (Some q)))
    (\<lambda>e. if is_conflict e then andthen (payment_read B (py_payment_id p)) (\<lambda>(q, _). ret q) else raise_exn e)) (\<lambda>_ _. True)"
  by (intro t_attempt held_lasting t_if t_raise t_andthen [OF t_save [OF assms]] t_weaken [OF t_reread])
    (auto intro!: t_ret)

lemma t_close:
  assumes "py_status p = PENDING" and "length why \<le> 200"
  shows "T (held B p v) (close_payment B p v why) (\<lambda>_ _. True)"
proof (cases "payment_valid p")
  case True
  show ?thesis unfolding close_payment_def
    by (rule t_state, rule t_save_or_reread) (use assms True in \<open>auto simp: payment_valid_def short_def\<close>)
next
  case False
  then show ?thesis by (auto simp: triple_def held_def)
qed

lemma t_keep_pending:
  assumes "py_status p = PENDING"
  shows "T (held B p v) (keep_pending B p v) (\<lambda>_ _. True)"
proof (cases "payment_valid p")
  case True
  then show ?thesis unfolding keep_pending_def
    by (intro t_if t_save_or_reread t_ret) (use assms in \<open>auto simp: payment_valid_def\<close>)
next
  case False
  then show ?thesis by (auto simp: triple_def held_def)
qed

lemma t_credit:
  assumes "verified_ok vf"
  shows "py_status p = PENDING \<Longrightarrow> T (held B p v) (credit B n vf p v) (\<lambda>_ _. True)"
proof (induction n arbitrary: p v)
  case 0
  then show ?case by (auto intro: t_ret)
next
  case (Suc n)
  show ?case
  proof (cases "payment_valid p")
    case False
    then show ?thesis by (auto simp: triple_def held_def)
  next
    case True
    have again: "T (\<lambda>_. True) (andthen (payment_read B (py_payment_id p)) (\<lambda>(latest, version').
          case latest of None \<Rightarrow> ret None
          | Some l \<Rightarrow> if py_status l \<noteq> PENDING then ret (Some l) else credit B n vf l version')) (\<lambda>_ _. True)"
      by (rule t_andthen [OF t_read]) (auto split: option.split intro!: t_if t_ret t_weaken [OF Suc.IH])
    show ?thesis
      unfolding credit.simps Let_def
      by (rule t_state, intro t_attempt held_lasting t_if t_raise t_weaken [OF again]
          t_andthen [OF t_credit_once [OF Suc.prems]])
        (use True assms in \<open>auto simp: payment_valid_def verified_ok_def intro!: t_ret\<close>)
  qed
qed

lemma t_verify_with:
  assumes "verified_ok vf" and "py_status p = PENDING"
  shows "T (held B p v) (verify_with B p v vf) (\<lambda>_ _. True)"
proof -
  have "length (''not_paid:'' @ (case vf_code vf of None \<Rightarrow> ''None'' | Some n \<Rightarrow> show_int n)) \<le> 200"
    using assms(1) by (auto simp: verified_ok_def split: option.splits)
  note close = t_close [OF assms(2) this, of v]
  show ?thesis
  proof (cases "vf_paid vf")
    case True
    then show ?thesis using t_credit [OF assms] by (simp add: verify_with_def)
  next
    case False
    then show ?thesis using close t_keep_pending [OF assms(2), of v] by (simp add: verify_with_def triple_def)
  qed
qed

lemma t_verify:
  assumes "books_gateway g" and "py_status p = PENDING"
  shows "T (held B p v) (verify_payment B g p v) (\<lambda>_ _. True)"
  unfolding verify_payment_def
proof (rule t_cases [where M = "\<lambda>vf _. verified_ok vf"])
  show "T (held B p v) (gateway_verify g (py_amount p) (py_authority p)) (\<lambda>vf _. verified_ok vf)"
    by (rule t_weaken [OF t_verify_call [OF assms(1)]]) simp_all
  show "lasting (billing_ok B ok owner) (pays_later B) (held B p v)" by (rule held_lasting)
  show "T (held B p v) (\<lambda>s'. if exn_class e = GatewayError then keep_pending B p v s' else (Inl e, s')) (\<lambda>_ _. True)" for e
    using t_keep_pending [OF assms(2), of v] t_raise [of "held B p v" e "\<lambda>_ _. True"]
    by (cases "exn_class e = GatewayError") (simp_all add: raise_exn_def)
  show "T (\<lambda>s. verified_ok vf \<and> held B p v s) (verify_with B p v vf) (\<lambda>_ _. True)" for vf
    using t_verify_with [OF _ assms(2), of vf v] by (auto simp: triple_def)
qed

end

end
