(* ===== verification/Billing_Claims.thy ===== *)
theory Billing_Claims
  imports Billing_Store
begin

text \<open>
  The operations of the billing service keep its books, whatever runs while the gateway is
  called; and what they do when nobody interferes.
\<close>

context billing_store
begin

lemma t_link: "T (\<lambda>_. True) (link_authority B p) (\<lambda>_ _. True)"
  unfolding triple_def
proof (intro allI impI)
  fix s assume ok: "billing_ok B ok owner s"
  let ?a = "case py_authority p of None \<Rightarrow> ''None'' | Some a \<Rightarrow> a"
  let ?run = "link_authority B p s"
  have so: "store_ok R ok owner link_kind link_kind (bl_link B) link_good s"
    "store_ok R ok owner payment_kind payment_kind (bl_payment B) pay_good s"
    "store_ok R ok owner subscription_kind subscription_kind (bl_subscription B) sub_good s"
    "credited (subs_of B s) (pays_of B s)"
    using ok repo by (simp_all add: billing_ok_def)
  have mv: "model_validate (bl_link B) (model_dump (bl_link B) (py_payment_id p)) = Some (py_payment_id p)"
    using link_codec by (simp add: codec_ok_def)
  show "billing_ok B ok owner (snd ?run) \<and> pays_later B s (snd ?run) \<and> (\<forall>x. fst ?run = Inr x \<longrightarrow> True)"
  proof (cases "?a = [] \<or> version_of R link_kind s ?a \<noteq> 0")
    case True
    have "\<exists>e. ?run = (Inl e, s)"
    proof (cases "?a = []")
      case True
      then show ?thesis
        by (simp add: link_authority_def write_version_def new_precord_def pr_valid_def andthen_def of_result_def Let_def)
    next
      case False
      then have "?a \<noteq> []" "link_kind \<noteq> []" "(0::int) \<le> 0" "version_of R link_kind s ?a \<noteq> 0" using \<open>?a = [] \<or> _\<close> by simp_all
      then show ?thesis
        using write_version_run [OF so(1) mv, where i = ?a and v = 0 and tenant = "py_tenant_id p" and now = "bl_clock B s"] repo
        unfolding link_authority_def by (metis (no_types, lifting))
    qed
    then show ?thesis using ok by (auto simp: pays_later_refl)
  next
    case False
    then have ne: "?a \<noteq> []" "link_kind \<noteq> []" "(0::int) \<le> 0" "version_of R link_kind s ?a = 0" by simp_all
    have "model_of R link_kind (bl_link B) s ?a = None" using version_pos [OF so(1), of ?a] ne(4) by blast
    then have old: "version_of R link_kind s ?a = 0 \<longrightarrow> (\<forall>m0. model_of R link_kind (bl_link B) s ?a = Some m0 \<longrightarrow>
        (\<exists>r0. repo_get R s link_kind ?a = Some r0 \<and> pr_tenant_id r0 = Some (py_tenant_id p)))" by simp
    obtain s' r where w: "?run = (Inr (), s')" "written_to R ok owner s r s'"
      "store_record link_kind link_kind (bl_link B) ?a (0 + 1) (py_payment_id p) r"
      using write_version_run [OF so(1) mv ne(1-3) old, where now = "bl_clock B s", unfolded if_P [OF ne(4)]] repo
      unfolding link_authority_def by blast
    have one: "store_ok R ok owner link_kind link_kind (bl_link B) link_good s'"
      using store_written [OF so(1) w(2,3)] by (simp add: link_good_def)
    have two: "store_ok R ok owner payment_kind payment_kind (bl_payment B) pay_good s'
        \<and> model_of R payment_kind (bl_payment B) s' = model_of R payment_kind (bl_payment B) s
        \<and> version_of R payment_kind s' = version_of R payment_kind s"
      by (rule others_written [OF so(2) w(2,3)]) simp_all
    have three: "store_ok R ok owner subscription_kind subscription_kind (bl_subscription B) sub_good s'
        \<and> model_of R subscription_kind (bl_subscription B) s' = model_of R subscription_kind (bl_subscription B) s
        \<and> version_of R subscription_kind s' = version_of R subscription_kind s"
      by (rule others_written [OF so(3) w(2,3)]) simp_all
    have maps: "pays_of B s' = pays_of B s" "subs_of B s' = subs_of B s"
      using two three repo by (simp_all add: pays_of_def subs_of_def)
    show ?thesis using w(1) one two three so(4) repo maps by (simp add: billing_ok_def pays_later_def)
  qed
qed

lemma t_read_any: "T P (read_version R c kind i) (\<lambda>_ _. True)"
  by (auto simp: triple_def read_version_def andthen_def reads_def of_result_def ret_def pays_later_refl
      split: option.split sum.split)

lemma t_by_authority: "T (\<lambda>_. True) (by_authority B a)
    (\<lambda>x s. case fst x of None \<Rightarrow> True | Some p \<Rightarrow> held B p (snd x) s)"
  unfolding by_authority_def
  by (rule t_andthen [where M = "\<lambda>_ _. True"])
    (use t_read_any repo in \<open>auto split: option.splits intro!: t_ret t_weaken [OF t_read]\<close>)

lemma t_entitlement: "T (\<lambda>_. True) (entitlement B tenant) (\<lambda>_ _. True)"
  by (auto simp: entitlement_def subscription_read_def triple_def read_version_def andthen_def reads_def of_result_def
      ret_def pays_later_refl split: option.split sum.split)

lemma t_settle:
  assumes g: "\<And>g. bl_gateway B = Some g \<Longrightarrow> books_gateway g"
  shows "T (\<lambda>_. True) (settle B authority status) (\<lambda>_ _. True)"
  unfolding settle_def
proof (rule t_andthen [OF t_by_authority])
  fix x :: "payment option \<times> int"
  obtain found v where x: "x = (found, v)" by force
  show "T (\<lambda>s. case fst x of None \<Rightarrow> True | Some p \<Rightarrow> held B p (snd x) s)
      (case x of (found, version) \<Rightarrow> (case found of None \<Rightarrow> ret None
        | Some p \<Rightarrow> if py_status p \<noteq> PENDING then ret (Some p)
            else if status \<noteq> ''OK'' then close_payment B p version ''cancelled''
            else case bl_gateway B of None \<Rightarrow> raise_exn (Exn AttributeError ''verify'')
              | Some g \<Rightarrow> verify_payment B g p version)) (\<lambda>_ _. True)"
    using g unfolding x
    by (auto split: option.split intro!: t_ret t_raise t_close t_verify)
qed

lemma t_recheck:
  assumes g: "\<And>g. bl_gateway B = Some g \<Longrightarrow> books_gateway g"
  shows "T (\<lambda>_. True) (recheck B tenant) (\<lambda>_ _. True)"
proof -
  have each: "T (\<lambda>_. True) (recheck_each B g now ps) (\<lambda>_ _. True)" if g: "books_gateway g" for g now ps
  proof (induction ps)
    case Nil
    show ?case by (auto intro: t_ret)
  next
    case (Cons p ps)
    have one: "T (\<lambda>_. True) (andthen (payment_read B (py_payment_id p)) (\<lambda>(current, version).
             case current of
               None \<Rightarrow> ret ()
             | Some q \<Rightarrow> if py_status q = PENDING then andthen (verify_payment B g q version) (\<lambda>_. ret ()) else ret ()))
        (\<lambda>_ _. True)"
      by (rule t_andthen [OF t_read])
        (auto split: option.split intro!: t_ret t_andthen [OF t_weaken [OF t_verify [OF g]]])
    have idle: "T (\<lambda>_. True) (ret ()) (\<lambda>_ _. True)" by (rule t_ret) simp
    show ?case unfolding recheck_each.simps
      by (rule t_andthen [where M = "\<lambda>_ _. True", OF t_if [OF idle t_if [OF one idle]] Cons.IH])
  qed
  have list: "T (\<lambda>_. True) (payments_for_tenant B tenant 20) (\<lambda>_ _. True)"
    by (simp add: triple_def payments_for_tenant_def pays_later_refl)
  show ?thesis
  proof (cases "bl_gateway B")
    case None
    then show ?thesis by (auto simp: recheck_def intro: t_ret)
  next
    case (Some gw)
    have "T (\<lambda>_. True) (andthen (payments_for_tenant B tenant 20) (recheck_each B gw now)) (\<lambda>_ _. True)" for now
      by (rule t_andthen [OF list each [OF g [OF Some]]])
    then show ?thesis using Some by (simp add: recheck_def triple_def)
  qed
qed

lemma t_start_trial: "T (\<lambda>_. True) (start_trial B tenant) (\<lambda>_ _. True)"
  unfolding triple_def
proof (intro allI impI)
  fix s assume ok: "billing_ok B ok owner s"
  let ?run = "start_trial B tenant s" and ?now = "bl_clock B s"
  let ?b = "\<lparr>sb_tenant_id = tenant, sb_plan = TRIAL, sb_started_at = ?now, sb_ends_at = ?now + trial_length,
     sb_history = [\<lparr>se_at = ?now, se_reason = ''trial_started'', se_plan = TRIAL, se_ends_at = ?now + trial_length,
       se_payment_id = None\<rparr>]\<rparr>"
  have so: "store_ok R ok owner subscription_kind subscription_kind (bl_subscription B) sub_good s"
    "credited (subs_of B s) (pays_of B s)"
    using ok repo by (simp_all add: billing_ok_def)
  show "billing_ok B ok owner (snd ?run) \<and> pays_later B s (snd ?run) \<and> (\<forall>x. fst ?run = Inr x \<longrightarrow> True)"
  proof (cases "subscription_valid ?b \<and> version_of R subscription_kind s tenant = 0")
    case True
    have "credited ((subs_of B s)(tenant \<mapsto> ?b)) (pays_of B s)"
      using so(2) by (auto simp: credited_def paid_ids_def map_filter_simps)
    then show ?thesis using subscription_written [OF ok, of ?b 0] True repo
      by (auto simp: start_trial_def new_subscription_def andthen_def of_result_def Let_def)
  next
    case False
    have "\<exists>e. ?run = (Inl e, s)"
    proof (cases "subscription_valid ?b")
      case True
      have mv: "model_validate (bl_subscription B) (model_dump (bl_subscription B) ?b) = Some ?b"
        using sub_codec True by (simp add: codec_ok_def)
      have "tenant \<noteq> []" using True by (auto simp: subscription_valid_def named_def)
      then show ?thesis
        using write_version_run [OF so(1) mv, of tenant 0 tenant ?now] False True repo
        by (auto simp: start_trial_def new_subscription_def andthen_def of_result_def Let_def subscription_save_def)
    next
      case False
      then show ?thesis by (simp add: start_trial_def new_subscription_def andthen_def of_result_def Let_def)
    qed
    then show ?thesis using ok by (auto simp: pays_later_refl)
  qed
qed

lemma t_checkout:
  assumes g: "\<And>g. bl_gateway B = Some g \<Longrightarrow> books_gateway g"
  shows "T (\<lambda>_. True) (checkout B tenant pid mobile) (\<lambda>_ _. True)"
proof (cases "bl_gateway B = None \<or> bl_callback B = None")
  case True
  then show ?thesis by (auto simp: checkout_def intro: t_raise split: option.split)
next
  case False
  then obtain gw cb where gw: "bl_gateway B = Some gw" "bl_callback B = Some cb" by auto
  have asked: "T (held B p 1) (attempt (gateway_request gw (py_amount p) d cb mobile (py_payment_id p))
      (\<lambda>e. if exn_class e \<noteq> GatewayError then raise_exn e
        else (\<lambda>s. andthen (payment_save B (p\<lparr>py_status := PAYMENT_FAILED, py_failure := Some ''request_refused'',
            py_settled_at := Some (bl_clock B s)\<rparr>) 1) (\<lambda>_. raise_exn (Exn PaymentUnavailable m)) s)))
      (\<lambda>a s. length a \<le> 100 \<and> held B p 1 s)" if p: "payment_valid p" "py_status p = PENDING" for p d m
  proof (rule t_attempt)
    show "T (held B p 1) (gateway_request gw (py_amount p) d cb mobile (py_payment_id p)) (\<lambda>a s. length a \<le> 100 \<and> held B p 1 s)"
      using t_frame [OF t_request_call [OF g [OF gw(1)]] held_lasting] by simp
    show "lasting (billing_ok B ok owner) (pays_later B) (held B p 1)" by (rule held_lasting)
    have "T (held B p 1) (andthen (payment_save B (p\<lparr>py_status := PAYMENT_FAILED, py_failure := Some ''request_refused'',
            py_settled_at := Some now\<rparr>) 1) (\<lambda>_. raise_exn (Exn PaymentUnavailable m))) Q" for now Q
      by (rule t_andthen [OF t_save [OF p(2)] t_raise]) (use p(1) in \<open>auto simp: payment_valid_def short_def\<close>)
    then have "T (held B p 1) (\<lambda>s. andthen (payment_save B (p\<lparr>py_status := PAYMENT_FAILED, py_failure := Some ''request_refused'',
            py_settled_at := Some (bl_clock B s)\<rparr>) 1) (\<lambda>_. raise_exn (Exn PaymentUnavailable m)) s) Q" for Q
      by (rule t_state)
    then show "T (held B p 1) (if exn_class e \<noteq> GatewayError then raise_exn e
        else (\<lambda>s. andthen (payment_save B (p\<lparr>py_status := PAYMENT_FAILED, py_failure := Some ''request_refused'',
            py_settled_at := Some (bl_clock B s)\<rparr>) 1) (\<lambda>_. raise_exn (Exn PaymentUnavailable m)) s))
        (\<lambda>a s. length a \<le> 100 \<and> held B p 1 s)" for e
      by (intro t_if t_raise)
  qed
  have linked: "T (\<lambda>s. length a \<le> 100 \<and> held B p 1 s) (andthen (bl_transaction B
      (andthen (payment_save B (p\<lparr>py_authority := Some a\<rparr>) 1) (\<lambda>started.
        andthen (link_authority B started) (\<lambda>_. ret started)))) (\<lambda>_. ret x)) (\<lambda>_ _. True)"
    if p: "payment_valid p" "py_status p = PENDING" for p a x
  proof (cases "length a \<le> 100")
    case True
    have "T (held B p 1) (payment_save B (p\<lparr>py_authority := Some a\<rparr>) 1) (\<lambda>_ _. True)"
      by (rule t_save [OF p(2)]) (use p True in \<open>auto simp: payment_valid_def short_def\<close>)
    moreover have "T (\<lambda>_. True) (andthen (link_authority B started) (\<lambda>_. ret started)) (\<lambda>_ _. True)" for started
      by (rule t_andthen [OF t_link]) (auto intro: t_ret)
    ultimately have "T (held B p 1) (andthen (payment_save B (p\<lparr>py_authority := Some a\<rparr>) 1) (\<lambda>started.
        andthen (link_authority B started) (\<lambda>_. ret started))) (\<lambda>_ _. True)"
      by (rule t_andthen)
    from t_andthen [OF t_transaction [OF this], of "\<lambda>_. ret x"] show ?thesis
      using t_ret [of "\<lambda>_. True" "\<lambda>_ _. True" x] True by simp
  next
    case False
    then show ?thesis by (simp add: triple_def)
  qed
  have drawn: "T (\<lambda>_. True) (\<lambda>s. (new_payment (bl_new_id B s) tenant (bl_plans B pid) (bl_clock B s), s))
      (\<lambda>p _. payment_valid p \<and> py_status p = PENDING)"
    by (auto simp: triple_def new_payment_def Let_def pays_later_refl split: if_splits)
  have paying: "T (\<lambda>_. payment_valid p \<and> py_status p = PENDING) (andthen (payment_save B p 0) (\<lambda>_.
      andthen (attempt (gateway_request gw (py_amount p) d cb mobile (py_payment_id p))
        (\<lambda>e. if exn_class e \<noteq> GatewayError then raise_exn e
          else (\<lambda>s. andthen (payment_save B (p\<lparr>py_status := PAYMENT_FAILED, py_failure := Some ''request_refused'',
              py_settled_at := Some (bl_clock B s)\<rparr>) 1) (\<lambda>_. raise_exn (Exn PaymentUnavailable m)) s))) (\<lambda>authority.
      andthen (bl_transaction B (andthen (payment_save B (p\<lparr>py_authority := Some authority\<rparr>) 1) (\<lambda>started.
        andthen (link_authority B started) (\<lambda>_. ret started)))) (\<lambda>_. ret (start_url gw authority))))) (\<lambda>_ _. True)" for p d m
  proof (cases "payment_valid p \<and> py_status p = PENDING")
    case True
    then have p: "payment_valid p" "py_status p = PENDING" by simp_all
    show ?thesis by (rule t_weaken [OF t_andthen [OF t_create [OF p(1)] t_andthen [OF asked [OF p] linked [OF p]]]]) simp_all
  next
    case False
    then show ?thesis by (auto simp: triple_def)
  qed
  show ?thesis
    unfolding checkout_def gw prod.case option.case
    by (intro t_if t_raise t_andthen [OF t_entitlement] t_weaken [OF t_andthen [OF drawn paying]]) simp_all
qed

end

section \<open>The service over the in-memory store\<close>

text \<open>The three kinds of record, kept as they are.\<close>

datatype bill = SubBill subscription | PayBill payment | LinkBill string

definition sub_bill :: "(subscription, bill) codec" where
  "sub_bill = \<lparr>model_dump = SubBill, model_validate = (\<lambda>x. case x of SubBill b \<Rightarrow> Some b | _ \<Rightarrow> None)\<rparr>"

definition pay_bill :: "(payment, bill) codec" where
  "pay_bill = \<lparr>model_dump = PayBill, model_validate = (\<lambda>x. case x of PayBill p \<Rightarrow> Some p | _ \<Rightarrow> None)\<rparr>"

definition link_bill :: "(string, bill) codec" where
  "link_bill = \<lparr>model_dump = LinkBill, model_validate = (\<lambda>x. case x of LinkBill i \<Rightarrow> Some i | _ \<Rightarrow> None)\<rparr>"

definition undo_on_error :: "('s, 'a) prog \<Rightarrow> ('s, 'a) prog" where
  "undo_on_error p s = (case p s of (Inl e, _) \<Rightarrow> (Inl e, s) | (Inr x, s') \<Rightarrow> (Inr x, s'))"

lemma undo_on_error_ok: "undoes_on_error undo_on_error"
  by (simp add: undoes_on_error_def undo_on_error_def)

text \<open>
  What the service is given: the in-memory store beside the rest of the world, codecs that bring
  a valid record back, and a transaction that undoes a body that raises.
\<close>

definition billing_given :: "('p memory \<times> 'w, 'p) billing \<Rightarrow> bool" where
  "billing_given B \<longleftrightarrow> bl_repo B = beside memory_ops \<and> codec_ok subscription_valid (bl_subscription B)
     \<and> codec_ok payment_valid (bl_payment B) \<and> codec_ok (\<lambda>_. True) (bl_link B) \<and> undoes_on_error (bl_transaction B)"

lemma billing_on_memory:
  "billing_given B \<Longrightarrow> billing_store (beside memory_ops) (\<lambda>s. mem_ok (fst s)) (\<lambda>s. mem_owner (fst s)) B"
  by unfold_locales (simp_all add: billing_given_def)

definition demo_billing :: "(bill memory \<times> instant, bill) billing" where
  "demo_billing = \<lparr>bl_repo = beside memory_ops, bl_subscription = sub_bill, bl_payment = pay_bill, bl_link = link_bill,
     bl_plans = plan_catalog default_price, bl_describe = plan_value, bl_gateway = None, bl_callback = None,
     bl_transaction = undo_on_error, bl_clock = snd, bl_new_id = (\<lambda>s. ''pay-1'')\<rparr>"

lemma demo_given: "billing_given (demo_billing\<lparr>bl_gateway := g, bl_callback := u\<rparr>)"
  by (simp add: billing_given_def demo_billing_def codec_ok_def sub_bill_def pay_bill_def link_bill_def undo_on_error_ok)

interpretation mem_billing: billing_store "beside memory_ops" "\<lambda>s. mem_ok (fst s)" "\<lambda>s. mem_owner (fst s)" demo_billing
  by (rule billing_on_memory) (use demo_given [of None None] in \<open>simp add: demo_billing_def\<close>)

abbreviation books :: "('p memory \<times> 'w, 'p) billing \<Rightarrow> 'p memory \<times> 'w \<Rightarrow> bool" where
  "books B \<equiv> billing_ok B (\<lambda>s. mem_ok (fst s)) (\<lambda>s. mem_owner (fst s))"

abbreviation fair_gateway :: "('p memory \<times> 'w, 'p) billing \<Rightarrow> bool" where
  "fair_gateway B \<equiv> \<forall>g. bl_gateway B = Some g \<longrightarrow> gateway_keeps (books B) (pays_later B) g"

text \<open>One request to the service: a purchase, a return from the gateway, a look at the billing page, a sign-up.\<close>

inductive billing_step :: "('s, 'p) billing \<Rightarrow> 's \<Rightarrow> 's \<Rightarrow> bool" for B where
  buys: "billing_step B s (snd (checkout B tenant pid mobile s))"
| returns: "billing_step B s (snd (settle B authority status s))"
| looks: "billing_step B s (snd (recheck B tenant s))"
| signs_up: "billing_step B s (snd (start_trial B tenant s))"

lemma billing_step_keeps:
  assumes B: "billing_given B" and g: "fair_gateway B" and "billing_step B s s'" and ok: "books B s"
  shows "books B s' \<and> pays_later B s s'"
proof -
  note S = billing_on_memory [OF B]
  have gw: "gateway_keeps (books B) (pays_later B) g" if "bl_gateway B = Some g" for g using g that by blast
  show ?thesis using assms(3)
  proof cases
    case (buys tenant pid mobile)
    then show ?thesis using triple_state [OF billing_store.t_checkout [OF S gw] ok] by simp
  next
    case (returns authority status)
    then show ?thesis using triple_state [OF billing_store.t_settle [OF S gw] ok] by simp
  next
    case (looks tenant)
    then show ?thesis using triple_state [OF billing_store.t_recheck [OF S gw] ok] by simp
  next
    case (signs_up tenant)
    then show ?thesis using triple_state [OF billing_store.t_start_trial [OF S] ok] by simp
  qed
qed

lemma billing_run_keeps:
  assumes B: "billing_given B" and g: "fair_gateway B" and "(billing_step B)\<^sup>*\<^sup>* s s'" and ok: "books B s"
  shows "books B s' \<and> pays_later B s s'"
  using assms(3)
proof (induction rule: rtranclp_induct)
  case base
  show ?case using ok by (simp add: pays_later_refl)
next
  case (step t u)
  then have one: "books B t" "pays_later B s t" by simp_all
  then have "books B u" "pays_later B t u" using billing_step_keeps [OF B g step.hyps(2)] by simp_all
  then show ?case using pays_later_trans [OF one(2)] by simp
qed

lemma empty_books:
  assumes B: "billing_given B"
  shows "books B (empty_memory, w)"
proof -
  have get: "repo_get (bl_repo B) (empty_memory, w) k i = None" for k i
    using B by (simp add: billing_given_def memory_ops_def)
  then have "subs_of B (empty_memory, w) = Map.empty" by (simp add: subs_of_def model_of_def fun_eq_iff)
  then have "credited (subs_of B (empty_memory, w)) P" for P by (simp add: credited_def)
  then show ?thesis using get by (simp add: billing_ok_def store_ok_def keeps_kind_empty)
qed

text \<open>The store does not depend on the world.\<close>

lemma beside_model [simp]: "model_of (beside R) kind c s = model_of R kind c (fst s)"
  by (simp add: model_of_def fun_eq_iff)

lemma beside_version [simp]: "version_of (beside R) kind s = version_of R kind (fst s)"
  by (simp add: version_of_def fun_eq_iff)

lemma billing_world:
  assumes "billing_given B"
  shows "books B (a, w') = books B (a, w)" "pays_of B (a, w') = pays_of B (a, w)" "subs_of B (a, w') = subs_of B (a, w)"
    "links_of B (a, w') = links_of B (a, w)" "pay_version B (a, w') = pay_version B (a, w)"
  using assms by (simp_all add: billing_given_def billing_ok_def store_ok_def pays_of_def subs_of_def links_of_def)

text \<open>The call that verifies a payment: the amount is the stored one, in rials.\<close>

abbreviation verify_call :: "'s gateway \<Rightarrow> payment \<Rightarrow> ('s, dict) prog" where
  "verify_call g p \<equiv> gw_transport g (gw_base g @ ''/pg/v4/payment/verify.json'')
     [(''merchant_id'', PStr (gw_merchant g)), (''amount'', PInt (py_amount p * 10)), (''authority'', opt_str (py_authority p))]"

lemma settle_reaches:
  assumes B: "billing_given B" and ok: "books B s" and link: "links_of B s authority = Some i" and st: "pays_of B s i = Some p"
  shows "settle B authority status s =
    (if py_status p \<noteq> PENDING then ret (Some p)
     else if status \<noteq> ''OK'' then close_payment B p (pay_version B s i) ''cancelled''
     else case bl_gateway B of None \<Rightarrow> raise_exn (Exn AttributeError ''verify'')
       | Some g \<Rightarrow> verify_payment B g p (pay_version B s i)) s"
proof -
  note S = billing_on_memory [OF B]
  have repo: "bl_repo B = beside memory_ops" using B by (simp add: billing_given_def)
  have so: "store_ok (beside memory_ops) (\<lambda>s. mem_ok (fst s)) (\<lambda>s. mem_owner (fst s)) link_kind link_kind (bl_link B) link_good s"
    using ok repo by (simp add: billing_ok_def)
  have "\<exists>v. read_version (bl_repo B) (bl_link B) link_kind authority s = (Inr (Some i, v), s)"
    using billing_store.read_version_run [OF S so, of authority] link repo by (simp add: links_of_def)
  then have "by_authority B authority s = (Inr (Some p, pay_version B s i), s)"
    using billing_store.payment_read_run [OF S ok, of i] st by (auto simp: by_authority_def andthen_def)
  then show ?thesis by (simp add: settle_def andthen_def)
qed

section \<open>An example\<close>

definition paid_answer :: dict where
  "paid_answer = [(''data'', PDict [(''code'', PInt 100), (''authority'', PStr ''A1''), (''ref_id'', PInt 7)])]"

definition demo_gateway :: "dict \<Rightarrow> (bill memory \<times> instant) gateway" where
  "demo_gateway answer = \<lparr>gw_merchant = ''m'', gw_base = ''g'', gw_transport = (\<lambda>_ _. ret answer), gw_text = (\<lambda>_. [])\<rparr>"

abbreviation demo_service :: "(bill memory \<times> instant, bill) billing" where
  "demo_service \<equiv> demo_billing\<lparr>bl_gateway := Some (demo_gateway paid_answer), bl_callback := Some ''u''\<rparr>"

lemma paid_answer_ok: "answer_ok (demo_gateway r) paid_answer" "answer_code paid_answer = Some 100"
proof -
  show "answer_code paid_answer = Some 100"
    by (simp add: answer_code_def answer_data_def get_value_def paid_answer_def)
  have "show_int 7 = ''7''" "show_int 100 = ''100''" by code_simp+
  then show "answer_ok (demo_gateway r) paid_answer"
    by (simp add: answer_ok_def answer_code_def answer_data_def get_value_def paid_answer_def py_str_def)
qed

lemma demo_fair: "fair_gateway demo_service"
proof -
  have "gateway_keeps I (pays_later B) (demo_gateway paid_answer)" for I B
    using paid_answer_ok(1) [unfolded demo_gateway_def]
    by (simp add: gateway_keeps_def demo_gateway_def triple_def ret_def pays_later_refl)
  then show ?thesis by simp
qed

text \<open>A sign-up at time 0, then a purchase the customer has not come back from.\<close>

definition demo_trial :: "bill memory \<times> instant" where
  "demo_trial = snd (start_trial demo_service ''t'' (empty_memory, 0))"

definition demo_bought :: "bill memory \<times> instant" where
  "demo_bought = snd (checkout demo_service ''t'' PRO None demo_trial)"

definition demo_pay :: payment where
  "demo_pay = \<lparr>py_payment_id = ''pay-1'', py_tenant_id = ''t'', py_plan = PRO, py_amount = 2990000,
     py_authority = Some ''A1'', py_status = PENDING, py_ref_id = None, py_card_pan = None, py_failure = None,
     py_verify_tried = False, py_created_at = 0, py_settled_at = None\<rparr>"

lemma bought_eta: "(fst demo_bought, 0) = demo_bought"
  by code_simp

lemma bought_books: "books (demo_billing\<lparr>bl_gateway := g, bl_callback := u\<rparr>) (fst demo_bought, 0)"
proof -
  have "(billing_step demo_service)\<^sup>*\<^sup>* (empty_memory, 0) demo_bought"
    unfolding demo_bought_def demo_trial_def
    by (meson billing_step.buys billing_step.signs_up r_into_rtranclp rtranclp.rtrancl_into_rtrancl)
  from billing_run_keeps [OF demo_given demo_fair this empty_books [OF demo_given]]
  have "books demo_service demo_bought" by blast
  then show ?thesis unfolding bought_eta by (simp add: billing_ok_def subs_of_def pays_of_def)
qed

lemma bought_link: "links_of (demo_billing\<lparr>bl_gateway := g, bl_callback := u\<rparr>) (fst demo_bought, 0) ''A1'' = Some ''pay-1''"
  unfolding bought_eta by code_simp

lemma bought_pay: "pays_of (demo_billing\<lparr>bl_gateway := g, bl_callback := u\<rparr>) (fst demo_bought, 0) ''pay-1'' = Some demo_pay"
  unfolding bought_eta by code_simp

lemma demo_clock: "bl_clock (demo_billing\<lparr>bl_gateway := g, bl_callback := u\<rparr>) demo_bought = 0"
proof -
  have "snd demo_bought = 0" using arg_cong [OF bought_eta, of snd] by simp
  then show ?thesis by (simp add: demo_billing_def)
qed

lemma demo_pay_pending: "py_status demo_pay = PENDING"
  by (simp add: demo_pay_def)

lemma demo_pay_facts: "py_tenant_id demo_pay = ''t''" "py_plan demo_pay = PRO" "py_created_at demo_pay = 0"
  by (simp_all add: demo_pay_def)

lemma bought_left: "remaining_in demo_service (subs_of demo_service demo_bought ''t'') PRO 0 = Inr (days 7)"
  by code_simp

section \<open>Properties\<close>

text \<open>
  C29. A payment extends one subscription, its tenant's, and once, and a settled payment stays as
  it was settled: over any run of purchases, returns from the gateway (reloaded or forged), looks
  at the billing page and sign-ups, and whatever else runs while the gateway is called, a
  subscription's history names each payment at most once and only paid ones of its tenant.
\<close>

theorem paid_once:
  assumes "billing_given B" and "fair_gateway B"
    and "(billing_step B)\<^sup>*\<^sup>* (empty_memory, w) s" and "(billing_step B)\<^sup>*\<^sup>* s s'"
  shows "(\<forall>t b. subs_of B s' t = Some b \<longrightarrow> distinct (paid_ids b)
      \<and> (\<forall>i \<in> set (paid_ids b). \<exists>p. pays_of B s' i = Some p \<and> py_status p = PAID \<and> py_tenant_id p = t))
    \<and> (\<forall>i p. pays_of B s i = Some p \<and> py_status p \<noteq> PENDING \<longrightarrow> pays_of B s' i = Some p)"
proof -
  have s: "books B s" using billing_run_keeps [OF assms(1-3) empty_books [OF assms(1)]] by blast
  have s': "books B s'" "pays_later B s s'" using billing_run_keeps [OF assms(1,2,4) s] by simp_all
  have "credited (subs_of B s') (pays_of B s')" using s'(1) by (simp add: billing_ok_def)
  moreover have "pays_of B s' i = Some p" if "pays_of B s i = Some p" "py_status p \<noteq> PENDING" for i p
    using s'(2) that by (auto simp: pays_later_def)
  ultimately show ?thesis unfolding credited_def by blast
qed

lemma paid_once_witness:
  "\<exists>p. py_status p = PAID \<and> pays_of demo_service (snd (settle demo_service ''A1'' ''NOK''
      (snd (settle demo_service ''A1'' ''OK'' demo_bought)))) (py_payment_id demo_pay) = Some p"
proof -
  define s where "s = snd (settle demo_service ''A1'' ''OK'' demo_bought)"
  have "case pays_of demo_service s (py_payment_id demo_pay) of Some p \<Rightarrow> py_status p = PAID | None \<Rightarrow> False"
    unfolding s_def by code_simp
  then obtain p where p: "pays_of demo_service s (py_payment_id demo_pay) = Some p" "py_status p = PAID"
    by (auto split: option.splits)
  have "(billing_step demo_service)\<^sup>*\<^sup>* (empty_memory, 0) s"
    unfolding s_def demo_bought_def demo_trial_def
    by (meson billing_step.buys billing_step.signs_up billing_step.returns r_into_rtranclp rtranclp.rtrancl_into_rtrancl)
  moreover have "(billing_step demo_service)\<^sup>*\<^sup>* s (snd (settle demo_service ''A1'' ''NOK'' s))"
    by (meson billing_step.returns r_into_rtranclp)
  ultimately have "pays_of demo_service (snd (settle demo_service ''A1'' ''NOK'' s)) (py_payment_id demo_pay) = Some p"
    using conjunct2 [OF paid_once [OF demo_given demo_fair, of 0 s "snd (settle demo_service ''A1'' ''NOK'' s)"]]
      p(1) p(2) payment_status.distinct(1)
    by (metis (no_types, lifting))
  then show ?thesis using p(2) unfolding s_def by blast
qed

text \<open>
  The rest of a plan is worth what was paid for it: moving to another plan, the time left is
  turned into time of the new plan at the ratio of the prices, to the nearest microsecond, and a
  plan that has ended leaves nothing.
\<close>

theorem remaining_worth:
  assumes "sb_plan b \<notin> {p, TRIAL}" and "0 < pl_price (bl_plans B p)"
  shows "\<exists>left. remaining_in B (Some b) p now = Inr left
    \<and> (now < sb_ends_at b \<longrightarrow> 2 * \<bar>left * pl_price (bl_plans B p) - (sb_ends_at b - now) * pl_price (bl_plans B (sb_plan b))\<bar>
         \<le> pl_price (bl_plans B p))
    \<and> (sb_ends_at b \<le> now \<longrightarrow> left = 0)"
proof -
  have round: "2 * \<bar>div_round a b * b - a\<bar> \<le> b" if "0 < b" for a b :: int
  proof -
    obtain q r where qr0: "a div b = q" "a mod b = r" by blast
    then have qr: "a div b = q" "a mod b = r" "a = q * b + r" "0 \<le> r" "r < b"
      using that div_mult_mod_eq [of a b] by auto
    then have "div_round a b * b - a = (if b < 2 * r \<or> (2 * r = b \<and> odd q) then b - r else - r)"
      by (simp add: div_round_def Let_def ring_distribs)
    then show ?thesis using qr(4,5) by auto
  qed
  show ?thesis using assms round [OF assms(2)] by (auto simp: remaining_in_def)
qed

lemma remaining_worth_witness:
  "\<exists>left. remaining_in demo_billing (Some \<lparr>sb_tenant_id = ''t'', sb_plan = PRO, sb_started_at = 0, sb_ends_at = 490,
      sb_history = []\<rparr>) STARTER 0 = Inr left \<and> 2 * \<bar>left * 490000 - 490 * 2990000\<bar> \<le> 490000"
  using remaining_worth [of "\<lparr>sb_tenant_id = ''t'', sb_plan = PRO, sb_started_at = 0, sb_ends_at = 490, sb_history = []\<rparr>"
      STARTER demo_billing 0]
  by (simp add: demo_billing_def plan_catalog_def)

text \<open>
  C30. A paid return credits the payment: when the gateway, asked about our amount, says the
  payment was made, the payment is stored as paid and its tenant's subscription is of the plan
  bought and ends a period after now and what was left, both or neither; and any later return
  with the same authority, whatever it says, answers the same and changes nothing.
\<close>

theorem payment_credited:
  assumes "billing_given B" and "books B (a, w)" and "links_of B (a, w) authority = Some i"
    and "pays_of B (a, w) i = Some p" and "py_status p = PENDING" and "bl_gateway B = Some g"
    and "verify_call g p (a, w) = (Inr answer, (a, w'))" and "answer_code answer \<in> {Some 100, Some 101}"
    and "answer_ok g answer" and "now = bl_clock B (a, w')"
    and "remaining_in B (subs_of B (a, w) (py_tenant_id p)) (py_plan p) now = Inr left"
  shows "\<exists>q b s. settle B authority ''OK'' (a, w) = (Inr (Some q), s) \<and> books B s
    \<and> py_status q = PAID \<and> py_amount q = py_amount p \<and> pays_of B s = (pays_of B (a, w))(i \<mapsto> q)
    \<and> subs_of B s = (subs_of B (a, w))(py_tenant_id p \<mapsto> b) \<and> sb_plan b = py_plan p
    \<and> sb_ends_at b = now + left + plan_period \<and> se_payment_id (last (sb_history b)) = Some i
    \<and> settle B authority status s = (Inr (Some q), s)"
proof -
  note S = billing_on_memory [OF assms(1)]
  note same = billing_world [OF assms(1), of a w' w]
  have p: "payment_valid p" "py_payment_id p = i" using billing_store.pays_good [OF S assms(2,4)] by simp_all
  let ?v = "pay_version B (a, w) i"
  obtain vf where vf: "gateway_verify g (py_amount p) (py_authority p) (a, w) = (Inr vf, (a, w'))" "vf_paid vf" "verified_ok vf"
    using assms(7-9)
    by (auto simp: gateway_verify_def andthen_def Let_def ret_def answer_ok_def verified_ok_def short_def split: pyval.splits)
  let ?paid = "p\<lparr>py_status := PAID, py_ref_id := vf_ref_id vf, py_card_pan := vf_card_pan vf, py_settled_at := Some now\<rparr>"
  have paid: "payment_valid ?paid" using p vf(3) by (simp add: payment_valid_def verified_ok_def)
  have ok: "books B (a, w')" "pays_of B (a, w') (py_payment_id p) = Some p" "pay_version B (a, w') (py_payment_id p) = ?v"
    "remaining_in B (subs_of B (a, w') (py_tenant_id p)) (py_plan p) now = Inr left"
    using assms(2,4,11) same p(2) by simp_all
  obtain s b where run: "credit_once B p ?paid ?v now (a, w') = (Inr ?paid, s)" "books B s"
    "pays_of B s = (pays_of B (a, w'))(i \<mapsto> ?paid)" "subs_of B s = (subs_of B (a, w'))(py_tenant_id p \<mapsto> b)"
    "sb_plan b = py_plan p" "sb_ends_at b = now + left + plan_period" "se_payment_id (last (sb_history b)) = Some i"
    "links_of B s = links_of B (a, w')"
    using billing_store.credit_once_run [OF S ok(1,2) assms(5) ok(3) paid _ _ _ ok(4)] p(2) by auto
  have "bl_transaction B (credit_once B p ?paid ?v now) (a, w') = (Inr ?paid, s)"
    using run(1) assms(1) by (simp add: billing_given_def undoes_on_error_def)
  then have "settle B authority ''OK'' (a, w) = (Inr (Some ?paid), s)"
    using settle_reaches [OF assms(1-4), of "''OK''"] assms(5,6,10) vf(1,2)
    by (simp add: verify_payment_def verify_with_def numeral_3_eq_3 Let_def attempt_def andthen_def ret_def)
  moreover have "links_of B s authority = Some i"
    using run(8) assms(3) same by simp
  then have "settle B authority status s = (Inr (Some ?paid), s)"
    using settle_reaches [OF assms(1) run(2), of authority i ?paid status] run(3) by (simp add: ret_def)
  ultimately show ?thesis using run same by (intro exI [of _ ?paid] exI [of _ b] exI [of _ s]) simp
qed

lemma payment_credited_witness:
  "\<exists>q b s. settle demo_service ''A1'' ''OK'' demo_bought = (Inr (Some q), s) \<and> py_status q = PAID
    \<and> subs_of demo_service s ''t'' = Some b \<and> sb_ends_at b = days 37 \<and> settle demo_service ''A1'' ''NOK'' s = (Inr (Some q), s)"
proof -
  have call: "verify_call (demo_gateway paid_answer) demo_pay (fst demo_bought, 0) = (Inr paid_answer, (fst demo_bought, 0))"
    by (simp add: demo_gateway_def ret_def)
  show ?thesis
    using payment_credited [where now = 0 and left = "days 7" and status = "''NOK''" and B = demo_service,
        OF demo_given bought_books bought_link bought_pay demo_pay_pending _ call]
      paid_answer_ok bought_left bought_eta demo_clock
    by (auto simp: demo_pay_facts)
qed

text \<open>
  C31. Money is never left without an answer: when the gateway cannot be asked, or refuses
  with anything but "not paid" while the payment may still be under way, the payment stays
  pending with its content, marked so that the next look at the billing page asks again, and the
  subscription is left alone.
\<close>

theorem payment_not_lost:
  assumes "billing_given B" and "books B (a, w)" and "links_of B (a, w) authority = Some i"
    and "pays_of B (a, w) i = Some p" and "py_status p = PENDING" and "bl_gateway B = Some g"
    and "verify_call g p (a, w) = (r, (a, w'))"
    and "(\<exists>m. r = Inl (Exn GatewayError m)) \<or> (\<exists>answer. r = Inr answer
      \<and> answer_code answer \<notin> {Some 100, Some 101, Some (- 51)} \<and> bl_clock B (a, w') - py_created_at p < give_up_after)"
  shows "\<exists>s. settle B authority ''OK'' (a, w) = (Inr (Some (p\<lparr>py_verify_tried := True\<rparr>)), s) \<and> books B s
    \<and> pays_of B s = (pays_of B (a, w))(i \<mapsto> p\<lparr>py_verify_tried := True\<rparr>) \<and> subs_of B s = subs_of B (a, w)"
proof -
  note S = billing_on_memory [OF assms(1)]
  note same = billing_world [OF assms(1), of a w' w]
  have p: "payment_valid p" "py_payment_id p = i" using billing_store.pays_good [OF S assms(2,4)] by simp_all
  let ?v = "pay_version B (a, w) i" and ?q = "p\<lparr>py_verify_tried := True\<rparr>"
  have "verify_payment B g p ?v (a, w) = keep_pending B p ?v (a, w')"
    using assms(7,8)
    by (auto simp: verify_payment_def gateway_verify_def verify_with_def andthen_def Let_def ret_def)
  then have run: "settle B authority ''OK'' (a, w) = keep_pending B p ?v (a, w')"
    using settle_reaches [OF assms(1-4), of "''OK''"] assms(5,6) by simp
  have ok: "books B (a, w')" "pays_of B (a, w') i = Some p" using assms(2,4) same by simp_all
  show ?thesis
  proof (cases "py_verify_tried p")
    case True
    then have "?q = p" by simp
    then show ?thesis using run ok same True assms(4) by (intro exI [of _ "(a, w')"]) (simp add: keep_pending_def ret_def fun_upd_idem)
  next
    case False
    have q: "payment_valid ?q" "pay_version B (a, w') (py_payment_id ?q) = ?v"
      using p same by (simp_all add: payment_valid_def)
    obtain s where s: "payment_save B ?q ?v (a, w') = (Inr ?q, s)" "books B s"
      "pays_of B s = (pays_of B (a, w'))(i \<mapsto> ?q)" "subs_of B s = subs_of B (a, w')"
      using billing_store.payment_written [OF S ok(1) q] ok(2) assms(5) p(2) by auto
    then show ?thesis using run same False
      by (intro exI [of _ s]) (simp add: keep_pending_def attempt_def andthen_def ret_def)
  qed
qed

lemma payment_not_lost_witness:
  "\<exists>s. settle (demo_billing\<lparr>bl_gateway := Some (demo_gateway []), bl_callback := Some ''u''\<rparr>) ''A1'' ''OK'' demo_bought
      = (Inr (Some (demo_pay\<lparr>py_verify_tried := True\<rparr>)), s)"
proof -
  have call: "verify_call (demo_gateway []) demo_pay (fst demo_bought, 0) = (Inr [], (fst demo_bought, 0))"
    by (simp add: demo_gateway_def ret_def)
  show ?thesis
    using payment_not_lost [where B = "demo_billing\<lparr>bl_gateway := Some (demo_gateway []), bl_callback := Some ''u''\<rparr>",
        OF demo_given bought_books bought_link bought_pay demo_pay_pending _ call]
      bought_eta demo_clock
    by (auto simp: answer_code_def answer_data_def get_value_def demo_pay_facts)
qed

end
