(* ===== verification/Py_Float.thy ===== *)
theory Py_Float
  imports
    Complex_Main
    "HOL-Library.Log_Nat"
begin

text \<open>
  The \<open>float\<close> arithmetic of the program: a value is the rational it stands for and every
  operation rounds its exact result to the nearest binary64 number, ties to the even
  significand (\<open>fl\<close>). Subnormal numbers are rounded at their own spacing; infinities,
  not-a-number and results too large for a binary64 number have no counterpart. \<open>round(x, 6)\<close>
  rounds the exact value to six decimals, ties to even, and the result to a binary64 number.
  The lemmas say what the scores of the program rest on: rounding is monotone, symmetric
  about zero and keeps zero and one.
\<close>

section \<open>Rounding\<close>

definition half_even :: "rat \<Rightarrow> int" where
  "half_even x = (let n = \<lfloor>x\<rfloor>; d = x - of_int n in
     if d < 1 / 2 \<or> (d = 1 / 2 \<and> even n) then n else n + 1)"

text \<open>The \<open>e\<close> with \<open>2 ^ e \<le> \<bar>x\<bar> < 2 ^ (e + 1)\<close>.\<close>

definition exponent :: "rat \<Rightarrow> int" where
  "exponent x = (let (p, q) = quotient_of \<bar>x\<bar>; e = bitlen p - bitlen q in
     if 2 powi e \<le> \<bar>x\<bar> then e else e - 1)"

definition spacing :: "rat \<Rightarrow> int" where
  "spacing x = max (exponent x - 52) (- 1074)"

definition fl :: "rat \<Rightarrow> rat" where
  "fl x = (if x = 0 then 0
           else of_int (half_even (x / 2 powi spacing x)) * 2 powi spacing x)"

definition fadd :: "rat \<Rightarrow> rat \<Rightarrow> rat" where "fadd a b = fl (a + b)"
definition fsub :: "rat \<Rightarrow> rat \<Rightarrow> rat" where "fsub a b = fl (a - b)"
definition fmul :: "rat \<Rightarrow> rat \<Rightarrow> rat" where "fmul a b = fl (a * b)"
definition fdiv :: "rat \<Rightarrow> rat \<Rightarrow> rat" where "fdiv a b = fl (a / b)"

text \<open>\<open>a / b\<close> of two integers is the exact quotient, rounded once.\<close>

definition int_div :: "int \<Rightarrow> int \<Rightarrow> rat" where
  "int_div a b = fl (of_int a / of_int b)"

definition round6 :: "rat \<Rightarrow> rat" where
  "round6 x = fl (of_int (half_even (x * 1000000)) / 1000000)"

text \<open>A decimal literal: \<open>decimal 65 2\<close> is \<open>0.65\<close>.\<close>

definition decimal :: "int \<Rightarrow> nat \<Rightarrow> rat" where
  "decimal n k = fl (of_int n / 10 ^ k)"

text \<open>
  \<open>sum\<close> of floats as CPython 3.12 and later compute it, with the rounding error of every
  addition carried along and added at the end.
\<close>

fun fsum_from :: "rat \<Rightarrow> rat \<Rightarrow> rat list \<Rightarrow> rat" where
  "fsum_from s c [] = (if c = 0 then s else fadd s c)"
| "fsum_from s c (x # xs) = (let t = fadd s x in
     fsum_from t
       (if \<bar>x\<bar> \<le> \<bar>s\<bar> then fadd c (fadd (fsub s t) x)
        else fadd c (fadd (fsub x t) s)) xs)"

fun fsum :: "rat list \<Rightarrow> rat" where
  "fsum [] = 0"
| "fsum (x # xs) = fsum_from x 0 xs"

section \<open>Facts about rounding\<close>

lemma half_even_bounds: "\<lfloor>x\<rfloor> \<le> half_even x" "half_even x \<le> \<lfloor>x\<rfloor> + 1"
  by (auto simp: half_even_def Let_def)

lemma half_even_int [simp]: "half_even (of_int n) = n"
  by (simp add: half_even_def)

lemma half_even_mono: "x \<le> y \<Longrightarrow> half_even x \<le> half_even y"
proof -
  assume le: "x \<le> y"
  show ?thesis
  proof (cases "\<lfloor>x\<rfloor> = \<lfloor>y\<rfloor>")
    case True
    then have "x - of_int \<lfloor>x\<rfloor> \<le> y - of_int \<lfloor>y\<rfloor>" using le by simp
    then show ?thesis using True by (auto simp: half_even_def Let_def)
  next
    case False
    then have "\<lfloor>x\<rfloor> + 1 \<le> \<lfloor>y\<rfloor>" using floor_mono [OF le] by linarith
    then show ?thesis using half_even_bounds(2) [of x] half_even_bounds(1) [of y] by linarith
  qed
qed

lemma half_even_le_int: "x \<le> of_int n \<Longrightarrow> half_even x \<le> n"
  using half_even_mono [of x "of_int n"] by simp

lemma half_even_ge_int: "of_int n \<le> x \<Longrightarrow> n \<le> half_even x"
  using half_even_mono [of "of_int n" x] by simp

lemma half_even_uminus: "half_even (- x) = - half_even x"
proof (cases "x = of_int \<lfloor>x\<rfloor>")
  case True
  then show ?thesis by (metis half_even_int of_int_minus)
next
  case False
  then have "of_int \<lfloor>x\<rfloor> < x" using of_int_floor_le [of x] by linarith
  moreover have "x < of_int \<lfloor>x\<rfloor> + 1" by linarith
  ultimately have fl: "\<lfloor>- x\<rfloor> = - \<lfloor>x\<rfloor> - 1" by (intro floor_unique) auto
  define d where "d = x - of_int \<lfloor>x\<rfloor>"
  have "- x - of_int \<lfloor>- x\<rfloor> = 1 - d" unfolding d_def fl by simp
  then show ?thesis unfolding half_even_def Let_def fl d_def [symmetric]
    by (auto simp: fl)
qed

lemma bitlen_powi:
  assumes "0 < n"
  shows "2 powi (bitlen n - 1) \<le> (of_int n :: rat)" and "of_int n < (2 powi bitlen n :: rat)"
proof -
  have b: "2 ^ nat (bitlen n - 1) \<le> n" "n < 2 ^ nat (bitlen n)"
    using bitlen_bounds [OF assms] by simp_all
  have "0 < bitlen n" using assms bitlen_nonneg [of n] bitlen_eq_zero_iff [of n] by linarith
  then have powi: "(2 :: rat) powi (bitlen n - 1) = of_int (2 ^ nat (bitlen n - 1))"
    "(2 :: rat) powi bitlen n = of_int (2 ^ nat (bitlen n))"
    by (simp_all add: power_int_def)
  show "2 powi (bitlen n - 1) \<le> (of_int n :: rat)" unfolding powi of_int_le_iff by (rule b(1))
  show "of_int n < (2 powi bitlen n :: rat)" unfolding powi of_int_less_iff by (rule b(2))
qed

lemma exponent_bounds:
  assumes "x \<noteq> 0"
  shows "2 powi exponent x \<le> \<bar>x\<bar>" and "\<bar>x\<bar> < 2 powi (exponent x + 1)"
proof -
  obtain p q where pq: "quotient_of \<bar>x\<bar> = (p, q)" by force
  have x: "\<bar>x\<bar> = of_int p / of_int q" by (rule quotient_of_div [OF pq])
  have q: "0 < q" by (rule quotient_of_denom_pos [OF pq])
  have "0 < \<bar>x\<bar>" using assms by simp
  then have p: "0 < p" using q unfolding x by (simp add: zero_less_divide_iff)
  define e where "e = bitlen p - bitlen q"
  have "(2 :: rat) powi (e - 1) = 2 powi (bitlen p - 1) / 2 powi bitlen q"
    unfolding e_def by (subst power_int_diff [symmetric]) (simp_all add: algebra_simps)
  also have "\<dots> \<le> of_int p / of_int q"
    using bitlen_powi(1) [OF p] bitlen_powi(2) [OF q] p q by (intro frac_le) auto
  finally have low: "2 powi (e - 1) \<le> \<bar>x\<bar>" by (simp add: x)
  have "of_int p / of_int q < (2 :: rat) powi bitlen p / 2 powi (bitlen q - 1)"
    using bitlen_powi(2) [OF p] bitlen_powi(1) [OF q] p by (intro frac_less) auto
  also have "\<dots> = 2 powi (e + 1)"
    unfolding e_def by (subst power_int_diff [symmetric]) (simp_all add: algebra_simps)
  finally have high: "\<bar>x\<bar> < 2 powi (e + 1)" by (simp add: x)
  show "2 powi exponent x \<le> \<bar>x\<bar>" using low by (simp add: exponent_def pq e_def [symmetric])
  show "\<bar>x\<bar> < 2 powi (exponent x + 1)" using high by (auto simp: exponent_def pq e_def [symmetric])
qed

lemma exponent_uminus [simp]: "exponent (- x) = exponent x"
  by (simp add: exponent_def)

lemma spacing_uminus [simp]: "spacing (- x) = spacing x"
  by (simp add: spacing_def)

lemma exponent_mono: "x \<noteq> 0 \<Longrightarrow> \<bar>x\<bar> \<le> \<bar>y\<bar> \<Longrightarrow> exponent x \<le> exponent y"
proof -
  assume "x \<noteq> 0" and le: "\<bar>x\<bar> \<le> \<bar>y\<bar>"
  then have "y \<noteq> 0" by auto
  have "(2 :: rat) powi exponent x < 2 powi (exponent y + 1)"
    using exponent_bounds(1) [OF \<open>x \<noteq> 0\<close>] exponent_bounds(2) [OF \<open>y \<noteq> 0\<close>] le by linarith
  then have "\<not> exponent y + 1 \<le> exponent x"
    using power_int_increasing [of "exponent y + 1" "exponent x" "2 :: rat"] by linarith
  then show ?thesis by simp
qed

lemma fl_0 [simp]: "fl 0 = 0"
  by (simp add: fl_def)

lemma fl_uminus [simp]: "fl (- x) = - fl x"
  by (simp add: fl_def half_even_uminus)

text \<open>The significand has at most 53 bits, and 53 of them above the subnormal range.\<close>

lemma fl_significand:
  assumes "0 < x"
  shows "half_even (x / 2 powi spacing x) \<le> 2 ^ 53"
    and "spacing x \<noteq> - 1074 \<Longrightarrow> 2 ^ 52 \<le> half_even (x / 2 powi spacing x)"
proof -
  note b = exponent_bounds [of x]
  have "x < 2 powi (exponent x + 1)" using b(2) assms by simp
  also have "\<dots> \<le> 2 powi (53 + spacing x)"
    by (rule power_int_increasing) (auto simp: spacing_def)
  also have "\<dots> = of_int (2 ^ 53) * 2 powi spacing x" by (subst power_int_add) simp_all
  finally have "x / 2 powi spacing x \<le> of_int (2 ^ 53)" by (simp add: divide_le_eq)
  then show "half_even (x / 2 powi spacing x) \<le> 2 ^ 53" by (rule half_even_le_int)
  assume "spacing x \<noteq> - 1074"
  then have "52 + spacing x = exponent x" by (auto simp: spacing_def)
  then have "of_int (2 ^ 52) * 2 powi spacing x = (2 :: rat) powi exponent x"
    by (metis of_int_numeral of_int_power power_int_add power_int_numeral zero_neq_numeral)
  also have "\<dots> \<le> x" using b(1) assms by simp
  finally have "of_int (2 ^ 52) \<le> x / 2 powi spacing x" by (simp add: le_divide_eq)
  then show "2 ^ 52 \<le> half_even (x / 2 powi spacing x)" by (rule half_even_ge_int)
qed

lemma fl_nonneg: "0 \<le> x \<Longrightarrow> 0 \<le> fl x"
proof -
  assume "0 \<le> x"
  then have "0 \<le> half_even (x / 2 powi spacing x)" by (intro half_even_ge_int) simp
  then show ?thesis by (simp add: fl_def)
qed

lemma fl_mono_pos:
  assumes "0 < x" and "x \<le> y"
  shows "fl x \<le> fl y"
proof -
  have e: "exponent x \<le> exponent y" using assms by (intro exponent_mono) auto
  have nz: "x \<noteq> 0" "y \<noteq> 0" "0 < y" using assms by auto
  show ?thesis
  proof (cases "spacing x = spacing y")
    case True
    have "x / 2 powi spacing x \<le> y / 2 powi spacing x"
      using assms by (intro divide_right_mono) auto
    then show ?thesis using half_even_mono True nz by (simp add: fl_def)
  next
    case False
    then have less: "1 + spacing x \<le> spacing y" and "spacing y \<noteq> - 1074"
      using e by (auto simp: spacing_def)
    have "fl x \<le> of_int (2 ^ 53) * 2 powi spacing x"
      unfolding fl_def using nz(1) fl_significand(1) [OF assms(1)]
      by (simp del: of_int_power)
    also have "\<dots> = of_int (2 ^ 52) * 2 powi (1 + spacing x)" by (subst power_int_add) simp_all
    also have "\<dots> \<le> of_int (2 ^ 52) * 2 powi spacing y"
      using less by (intro mult_left_mono power_int_increasing) auto
    also have "\<dots> \<le> fl y"
      unfolding fl_def using nz(2) fl_significand(2) [OF nz(3) \<open>spacing y \<noteq> - 1074\<close>]
      by (simp del: of_int_power)
    finally show ?thesis .
  qed
qed

lemma fl_mono: "x \<le> y \<Longrightarrow> fl x \<le> fl y"
proof -
  assume le: "x \<le> y"
  consider "0 < x" | "y < 0" | "x \<le> 0" "0 \<le> y" by linarith
  then show ?thesis
  proof cases
    case 1
    then show ?thesis using le by (rule fl_mono_pos)
  next
    case 2
    then show ?thesis using fl_mono_pos [of "- y" "- x"] le by simp
  next
    case 3
    then show ?thesis using fl_nonneg [of "- x"] fl_nonneg [of y] by simp
  qed
qed

lemma fl_1 [simp]: "fl 1 = 1"
  by code_simp

lemma fl_le_1: "x \<le> 1 \<Longrightarrow> fl x \<le> 1"
  using fl_mono [of x 1] by simp

lemma fl_ge_minus_1: "- 1 \<le> x \<Longrightarrow> - 1 \<le> fl x"
  using fl_mono [of "- 1" x] by simp

lemma round6_mono: "x \<le> y \<Longrightarrow> round6 x \<le> round6 y"
  unfolding round6_def by (intro fl_mono divide_right_mono) (auto intro: half_even_mono)

lemma round6_0 [simp]: "round6 0 = 0"
  using half_even_int [of 0] by (simp add: round6_def)

lemma round6_1 [simp]: "round6 1 = 1"
  by code_simp

lemma round6_uminus [simp]: "round6 (- x) = - round6 x"
  by (simp add: round6_def half_even_uminus)

lemma round6_nonneg: "0 \<le> x \<Longrightarrow> 0 \<le> round6 x"
  using round6_mono [of 0 x] by simp

lemma round6_le_1: "x \<le> 1 \<Longrightarrow> round6 x \<le> 1"
  using round6_mono [of x 1] by simp

lemma fmul_unit: "0 \<le> a \<Longrightarrow> a \<le> 1 \<Longrightarrow> 0 \<le> b \<Longrightarrow> b \<le> 1 \<Longrightarrow> 0 \<le> fmul a b \<and> fmul a b \<le> 1"
  unfolding fmul_def using fl_nonneg [of "a * b"] fl_le_1 [of "a * b"] by (simp add: mult_le_one)

lemma int_div_nonneg: "0 \<le> a \<Longrightarrow> 0 \<le> b \<Longrightarrow> 0 \<le> int_div a b"
  unfolding int_div_def by (intro fl_nonneg) simp

lemma int_div_le_1: "0 \<le> a \<Longrightarrow> a \<le> b \<Longrightarrow> int_div a b \<le> 1"
  unfolding int_div_def by (intro fl_le_1) (auto simp: divide_le_eq_1)

end
