(* ===== verification/Observations.thy ===== *)
theory Observations
  imports Domain Py_Float "HOL-Library.Multiset"
begin

text \<open>
  The daily observations the decisions are made from: \<open>app/models/observations.py\<close>,
  \<open>models/gsc.py\<close>, \<open>models/url_metrics.py\<close>, \<open>models/integrity.py\<close> and
  \<open>models/reconciliation.py\<close>; the calendar of a window and the state of each of its days
  (\<open>ingestion/calendar.py\<close>, \<open>ingestion/daily_window.py\<close>, \<open>features/missing_data.py\<close>); the
  totals of each page and day (\<open>features/url_metrics.py\<close>); the checks of a batch
  (\<open>ingestion/integrity.py\<close>, \<open>ingestion/reconciliation.py\<close>); rows as observations
  (\<open>normalization/observation.py\<close>). The constructor of a pydantic model is the \<open>new_\<close>
  function of its record: it raises when a constraint fails and returns the fields as the
  validators leave them.
\<close>

section \<open>Data\<close>

datatype data_status = OBSERVED | MISSING_EXPECTED_ZERO | MISSING_UNKNOWN

fun data_status_value :: "data_status \<Rightarrow> string" where
  "data_status_value OBSERVED = ''OBSERVED''"
| "data_status_value MISSING_EXPECTED_ZERO = ''MISSING_EXPECTED_ZERO''"
| "data_status_value MISSING_UNKNOWN = ''MISSING_UNKNOWN''"

text \<open>\<open>status in {OBSERVED, MISSING_EXPECTED_ZERO}\<close>\<close>

definition usable :: "data_status \<Rightarrow> bool" where
  "usable st \<longleftrightarrow> st \<in> {OBSERVED, MISSING_EXPECTED_ZERO}"

record calendar_context =
  cc_is_weekend :: bool
  cc_holiday_overlap :: bool
  cc_event_type :: "string option"

record observation =
  ob_site_id :: string
  ob_normalized_url :: string
  ob_normalized_query :: string
  ob_date :: day
  ob_impressions :: int
  ob_clicks :: int
  ob_avg_position :: "rat option"
  ob_data_status :: data_status
  ob_calendar_context :: calendar_context
  ob_retrieved_at :: "instant option"

definition position_valid :: "rat option \<Rightarrow> bool" where
  "position_valid p \<longleftrightarrow> (case p of None \<Rightarrow> True | Some x \<Rightarrow> 0 \<le> x)"

definition observation_valid :: "observation \<Rightarrow> bool" where
  "observation_valid ob \<longleftrightarrow> ob_site_id ob \<noteq> [] \<and> length (ob_site_id ob) \<le> 50
     \<and> ob_normalized_url ob \<noteq> [] \<and> ob_normalized_query ob \<noteq> []
     \<and> 0 \<le> ob_clicks ob \<and> ob_clicks ob \<le> ob_impressions ob \<and> position_valid (ob_avg_position ob)"

definition new_observation ::
  "string \<Rightarrow> string \<Rightarrow> string \<Rightarrow> day \<Rightarrow> int \<Rightarrow> int \<Rightarrow> rat option \<Rightarrow> data_status \<Rightarrow> exn + observation" where
  "new_observation site url query d impressions clicks position st =
     (if length site \<le> 50 \<and> py_strip site \<noteq> [] \<and> py_strip url \<noteq> [] \<and> py_strip query \<noteq> []
         \<and> 0 \<le> impressions \<and> 0 \<le> clicks \<and> clicks \<le> impressions \<and> position_valid position
      then Inr \<lparr>ob_site_id = py_strip site, ob_normalized_url = py_strip url,
             ob_normalized_query = py_strip query, ob_date = d, ob_impressions = impressions,
             ob_clicks = clicks, ob_avg_position = position, ob_data_status = st,
             ob_calendar_context = \<lparr>cc_is_weekend = False, cc_holiday_overlap = False, cc_event_type = None\<rparr>,
             ob_retrieved_at = None\<rparr>
      else Inl (Exn ValidationError ''DailyObservation''))"

definition observation_ctr :: "observation \<Rightarrow> rat" where
  "observation_ctr ob = (if ob_impressions ob = 0 then 0 else int_div (ob_clicks ob) (ob_impressions ob))"

record gsc_response =
  rg_response_id :: string
  rg_site_id :: string
  rg_fetch_date :: day
  rg_raw_payload :: dict
  rg_created_at :: instant

record gsc_row =
  gr_site_id :: string
  gr_date :: day
  gr_normalized_url :: string
  gr_normalized_query :: string
  gr_impressions :: int
  gr_clicks :: int
  gr_avg_position :: "rat option"

definition gsc_row_valid :: "gsc_row \<Rightarrow> bool" where
  "gsc_row_valid r \<longleftrightarrow> gr_site_id r \<noteq> [] \<and> gr_normalized_url r \<noteq> [] \<and> gr_normalized_query r \<noteq> []
     \<and> 0 \<le> gr_impressions r \<and> 0 \<le> gr_clicks r \<and> position_valid (gr_avg_position r)"

definition new_gsc_row :: "gsc_row \<Rightarrow> exn + gsc_row" where
  "new_gsc_row r = (if gsc_row_valid r then Inr r else Inl (Exn ValidationError ''NormalizedGSCRow''))"

record url_metric =
  um_site_id :: string
  um_normalized_url :: string
  um_date :: day
  um_total_impressions :: int
  um_total_clicks :: int
  um_data_status :: data_status

definition url_metric_valid :: "url_metric \<Rightarrow> bool" where
  "url_metric_valid m \<longleftrightarrow> um_site_id m \<noteq> [] \<and> um_normalized_url m \<noteq> []
     \<and> 0 \<le> um_total_impressions m \<and> 0 \<le> um_total_clicks m
     \<and> um_total_clicks m \<le> um_total_impressions m"

definition new_url_metric :: "string \<Rightarrow> string \<Rightarrow> day \<Rightarrow> int \<Rightarrow> int \<Rightarrow> exn + url_metric" where
  "new_url_metric site url d impressions clicks =
     (let m = \<lparr>um_site_id = site, um_normalized_url = url, um_date = d,
               um_total_impressions = impressions, um_total_clicks = clicks, um_data_status = OBSERVED\<rparr>
      in if url_metric_valid m then Inr m else Inl (Exn ValidationError ''URLDailyMetric''))"

section \<open>The days of a window\<close>

definition gsc_data_lag_days :: int where "gsc_data_lag_days = 3"

definition latest_final_date :: "day \<Rightarrow> int \<Rightarrow> exn + day" where
  "latest_final_date today lag_days =
     (if lag_days < 0 then Inl (Exn ValueError ''lag_days must not be negative'')
      else Inr (today - lag_days))"

text \<open>The loop of \<open>expand_date_range\<close>, from the day it has reached.\<close>

function dates_from :: "day \<Rightarrow> day \<Rightarrow> day list" where
  "dates_from current end_date =
     (if current \<le> end_date then current # dates_from (current + 1) end_date else [])"
  by pat_completeness auto
termination
  by (relation "measure (\<lambda>(current, end_date). nat (end_date + 1 - current))") auto

declare dates_from.simps [simp del]

definition expand_date_range :: "day \<Rightarrow> day \<Rightarrow> exn + day list" where
  "expand_date_range start_date end_date =
     (if end_date < start_date
      then Inl (Exn ValueError ''end_date must be greater than or equal to start_date'')
      else Inr (dates_from start_date end_date))"

definition classify_missing_days ::
  "day list \<Rightarrow> observation list \<Rightarrow> day list option \<Rightarrow> (day \<times> data_status) list" where
  "classify_missing_days expected_dates observations expected_zero_dates =
     (let zero_dates = (case expected_zero_dates of None \<Rightarrow> [] | Some ds \<Rightarrow> ds);
          observed_dates = map ob_date observations
      in map (\<lambda>d. (d, if d \<in> set observed_dates then OBSERVED
                      else if d \<in> set zero_dates then MISSING_EXPECTED_ZERO
                      else MISSING_UNKNOWN)) (sort (remdups expected_dates)))"

definition apply_data_status :: "observation list \<Rightarrow> (day \<times> data_status) list \<Rightarrow> observation list" where
  "apply_data_status observations status_by_date =
     map (\<lambda>ob. ob\<lparr>ob_data_status := (case map_of status_by_date (ob_date ob) of
                None \<Rightarrow> ob_data_status ob | Some st \<Rightarrow> st)\<rparr>) observations"

definition classify_daily_window ::
  "day \<Rightarrow> day \<Rightarrow> observation list \<Rightarrow> day list option \<Rightarrow> exn + (day \<times> data_status) list" where
  "classify_daily_window start_date end_date observations expected_zero_dates =
     and_maybe (expand_date_range start_date end_date) (\<lambda>expected_dates.
       Inr (classify_missing_days expected_dates observations expected_zero_dates))"

section \<open>Rows, pages and days\<close>

definition row_to_observation :: "gsc_row \<Rightarrow> exn + observation" where
  "row_to_observation r = new_observation (gr_site_id r) (gr_normalized_url r) (gr_normalized_query r)
     (gr_date r) (gr_impressions r) (gr_clicks r) (gr_avg_position r) OBSERVED"

definition rows_to_observations :: "gsc_row list \<Rightarrow> exn + observation list" where
  "rows_to_observations rows = collect row_to_observation rows"

text \<open>The \<open>defaultdict\<close> of \<open>aggregate_url_daily_metrics\<close>, one row at a time.\<close>

type_synonym page_day = "string \<times> string \<times> day"

definition row_page_day :: "gsc_row \<Rightarrow> page_day" where
  "row_page_day r = (gr_site_id r, gr_normalized_url r, gr_date r)"

definition add_row :: "(page_day \<times> int \<times> int) list \<Rightarrow> gsc_row \<Rightarrow> (page_day \<times> int \<times> int) list" where
  "add_row aggregates r =
     (let (i, c) = (case map_of aggregates (row_page_day r) of None \<Rightarrow> (0, 0) | Some v \<Rightarrow> v)
      in AList.update (row_page_day r) (i + gr_impressions r, c + gr_clicks r) aggregates)"

definition aggregate_url_daily_metrics :: "gsc_row list \<Rightarrow> exn + url_metric list" where
  "aggregate_url_daily_metrics rows =
     collect (\<lambda>((site, url, d), (i, c)). new_url_metric site url d i c)
       (sort_key fst (foldl add_row [] rows))"

section \<open>Integrity of a batch\<close>

record integrity_result =
  ir_response_is_unique :: bool
  ir_duplicate_row_count :: int
  ir_unique_row_count :: int
  ir_query_impressions :: int
  ir_url_impressions :: int
  ir_query_clicks :: int
  ir_url_clicks :: int

definition query_impression_gap :: "integrity_result \<Rightarrow> int" where
  "query_impression_gap r = ir_url_impressions r - ir_query_impressions r"

definition query_click_gap :: "integrity_result \<Rightarrow> int" where
  "query_click_gap r = ir_url_clicks r - ir_query_clicks r"

type_synonym row_identity = "string \<times> day \<times> string \<times> string \<times> int \<times> int \<times> rat option"

definition row_key :: "gsc_row \<Rightarrow> row_identity" where
  "row_key r = (gr_site_id r, gr_date r, gr_normalized_url r, gr_normalized_query r,
     gr_impressions r, gr_clicks r, gr_avg_position r)"

text \<open>The loop over the rows: the keys seen, the duplicates and the two totals.\<close>

fun scan_rows :: "gsc_row list \<Rightarrow> row_identity list \<times> int \<times> int \<times> int
    \<Rightarrow> row_identity list \<times> int \<times> int \<times> int" where
  "scan_rows [] acc = acc"
| "scan_rows (r # rows) (seen, duplicates, impressions, clicks) =
     scan_rows rows
       (if row_key r \<in> set seen
        then (seen, duplicates + 1, impressions + gr_impressions r, clicks + gr_clicks r)
        else (row_key r # seen, duplicates, impressions + gr_impressions r, clicks + gr_clicks r))"

definition check_ingestion_integrity ::
  "gsc_row list \<Rightarrow> url_metric list \<Rightarrow> string list option \<Rightarrow> string option
    \<Rightarrow> exn + integrity_result" where
  "check_ingestion_integrity rows metrics known_response_ids response_id =
     (let known_ids = (case known_response_ids of None \<Rightarrow> [] | Some ids \<Rightarrow> ids);
          (seen, duplicates, impressions, clicks) = scan_rows rows ([], 0, 0, 0);
          url_impressions = (\<Sum>m\<leftarrow>metrics. um_total_impressions m);
          url_clicks = (\<Sum>m\<leftarrow>metrics. um_total_clicks m)
      in if impressions < 0 \<or> clicks < 0 \<or> url_impressions < 0 \<or> url_clicks < 0
         then Inl (Exn ValidationError ''IngestionIntegrityResult'')
         else Inr \<lparr>ir_response_is_unique = (case response_id of None \<Rightarrow> True | Some i \<Rightarrow> i \<notin> set known_ids),
          ir_duplicate_row_count = duplicates, ir_unique_row_count = int (length seen),
          ir_query_impressions = impressions,
          ir_url_impressions = url_impressions,
          ir_query_clicks = clicks, ir_url_clicks = url_clicks\<rparr>)"

section \<open>Reconciliation\<close>

datatype reconciliation_status = RECON_MATCH | RECON_PARTIAL | RECON_INVALID

record reconciliation_input =
  ri_daily_query_impressions :: int
  ri_daily_query_clicks :: int
  ri_url_daily_metrics :: "url_metric list"

record reconciliation_result =
  rr_impression_status :: reconciliation_status
  rr_click_status :: reconciliation_status
  rr_query_impressions :: int
  rr_url_impressions :: int
  rr_query_clicks :: int
  rr_url_clicks :: int
  rr_impression_gap :: int
  rr_click_gap :: int
  rr_is_valid :: bool
  rr_is_partial :: bool

definition classify_totals :: "int \<Rightarrow> int \<Rightarrow> reconciliation_status \<times> int" where
  "classify_totals query_total url_total =
     (if query_total = url_total then (RECON_MATCH, 0)
      else if query_total < url_total then (RECON_PARTIAL, url_total - query_total)
      else (RECON_INVALID, query_total - url_total))"

definition new_reconciliation_input :: "int \<Rightarrow> int \<Rightarrow> url_metric list \<Rightarrow> exn + reconciliation_input" where
  "new_reconciliation_input impressions clicks metrics =
     (if 0 \<le> impressions \<and> 0 \<le> clicks
      then Inr \<lparr>ri_daily_query_impressions = impressions, ri_daily_query_clicks = clicks,
             ri_url_daily_metrics = metrics\<rparr>
      else Inl (Exn ValidationError ''ReconciliationInput''))"

definition reconcile_input :: "reconciliation_input \<Rightarrow> exn + reconciliation_result" where
  "reconcile_input input =
     (let query_impressions = ri_daily_query_impressions input;
          query_clicks = ri_daily_query_clicks input;
          url_impressions = (\<Sum>m\<leftarrow>ri_url_daily_metrics input. um_total_impressions m);
          url_clicks = (\<Sum>m\<leftarrow>ri_url_daily_metrics input. um_total_clicks m);
          (impression_status, impression_difference) = classify_totals query_impressions url_impressions;
          (click_status, click_difference) = classify_totals query_clicks url_clicks
      in if url_impressions < 0 \<or> url_clicks < 0
         then Inl (Exn ValidationError ''ReconciliationResult'')
         else Inr \<lparr>rr_impression_status = impression_status, rr_click_status = click_status,
          rr_query_impressions = query_impressions, rr_url_impressions = url_impressions,
          rr_query_clicks = query_clicks, rr_url_clicks = url_clicks,
          rr_impression_gap = impression_difference, rr_click_gap = click_difference,
          rr_is_valid = (impression_status \<noteq> RECON_INVALID \<and> click_status \<noteq> RECON_INVALID),
          rr_is_partial = (impression_status = RECON_PARTIAL \<or> click_status = RECON_PARTIAL)\<rparr>)"

record ingestion_result =
  in_site_id :: string
  in_response_id :: string
  in_normalized_rows :: "gsc_row list"
  in_observations :: "observation list"
  in_url_daily_metrics :: "url_metric list"
  in_daily_status :: "(day \<times> data_status) list"

definition daily_query_impressions :: "ingestion_result \<Rightarrow> int" where
  "daily_query_impressions r = (\<Sum>x\<leftarrow>in_normalized_rows r. gr_impressions x)"

definition daily_query_clicks :: "ingestion_result \<Rightarrow> int" where
  "daily_query_clicks r = (\<Sum>x\<leftarrow>in_normalized_rows r. gr_clicks x)"

definition daily_url_impressions :: "ingestion_result \<Rightarrow> int" where
  "daily_url_impressions r = (\<Sum>m\<leftarrow>in_url_daily_metrics r. um_total_impressions m)"

definition daily_url_clicks :: "ingestion_result \<Rightarrow> int" where
  "daily_url_clicks r = (\<Sum>m\<leftarrow>in_url_daily_metrics r. um_total_clicks m)"

definition reconcile_ingestion :: "ingestion_result \<Rightarrow> url_metric list option \<Rightarrow> exn + reconciliation_result" where
  "reconcile_ingestion r url_daily_metrics =
     and_maybe (new_reconciliation_input (daily_query_impressions r) (daily_query_clicks r)
        (case url_daily_metrics of None \<Rightarrow> in_url_daily_metrics r | Some ms \<Rightarrow> ms))
       reconcile_input"

section \<open>Facts\<close>

lemma length_py_strip: "length (py_strip s) \<le> length s"
  unfolding py_strip_def
  by (metis length_dropWhile_le length_rev le_trans)

lemma new_observation_Inr:
  "new_observation site url query d i c p st = Inr ob \<longleftrightarrow>
     length site \<le> 50 \<and> py_strip site \<noteq> [] \<and> py_strip url \<noteq> [] \<and> py_strip query \<noteq> []
     \<and> 0 \<le> i \<and> 0 \<le> c \<and> c \<le> i \<and> position_valid p
     \<and> ob = \<lparr>ob_site_id = py_strip site, ob_normalized_url = py_strip url,
             ob_normalized_query = py_strip query, ob_date = d, ob_impressions = i,
             ob_clicks = c, ob_avg_position = p, ob_data_status = st,
             ob_calendar_context = \<lparr>cc_is_weekend = False, cc_holiday_overlap = False, cc_event_type = None\<rparr>,
             ob_retrieved_at = None\<rparr>"
  by (auto simp: new_observation_def)

lemma new_observation_valid: "new_observation site url query d i c p st = Inr ob \<Longrightarrow> observation_valid ob"
  unfolding new_observation_Inr observation_valid_def using length_py_strip [of site] by auto

lemma dates_from_upto: "dates_from a b = [a..b]"
proof (induction a b rule: dates_from.induct)
  case (1 a b)
  then show ?case by (subst dates_from.simps) (simp add: upto_rec1)
qed

lemma upto_fold: "sum_list (map f [a..b]) = (\<Sum>d = a..b. f d)"
  by (simp add: interv_sum_list_conv_sum_set_int)

text \<open>The totals of the aggregates, and each key once.\<close>

lemma distinct_add_row: "distinct (map fst agg) \<Longrightarrow> distinct (map fst (add_row agg r))"
  by (simp add: add_row_def Let_def distinct_update split: prod.splits)

lemma distinct_aggregates: "distinct (map fst agg) \<Longrightarrow> distinct (map fst (foldl add_row agg rows))"
  by (induction rows arbitrary: agg) (simp_all add: distinct_add_row)

lemma sum_update:
  fixes f :: "'b \<Rightarrow> int"
  assumes "distinct (map fst al)"
  shows "(\<Sum>x\<leftarrow>AList.update k v al. f (snd x))
    = (\<Sum>x\<leftarrow>al. f (snd x)) - (case map_of al k of None \<Rightarrow> 0 | Some w \<Rightarrow> f w) + f v"
  using assms by (induction al) (auto split: option.splits)

lemma sum_add_row:
  assumes "distinct (map fst agg)"
  shows "(\<Sum>x\<leftarrow>add_row agg r. fst (snd x)) = (\<Sum>x\<leftarrow>agg. fst (snd x)) + gr_impressions r"
    and "(\<Sum>x\<leftarrow>add_row agg r. snd (snd x)) = (\<Sum>x\<leftarrow>agg. snd (snd x)) + gr_clicks r"
  using sum_update [OF assms, of fst] sum_update [OF assms, of snd]
  by (auto simp: add_row_def split: option.splits prod.splits)

lemma sum_aggregates:
  "distinct (map fst agg) \<Longrightarrow> (\<Sum>x\<leftarrow>foldl add_row agg rows. fst (snd x))
     = (\<Sum>x\<leftarrow>agg. fst (snd x)) + (\<Sum>r\<leftarrow>rows. gr_impressions r)"
  "distinct (map fst agg) \<Longrightarrow> (\<Sum>x\<leftarrow>foldl add_row agg rows. snd (snd x))
     = (\<Sum>x\<leftarrow>agg. snd (snd x)) + (\<Sum>r\<leftarrow>rows. gr_clicks r)"
  by (induction rows arbitrary: agg) (simp_all add: sum_add_row distinct_add_row)

lemma sum_list_sort_key:
  fixes f :: "'a \<Rightarrow> int"
  shows "(\<Sum>x\<leftarrow>sort_key g xs. f x) = (\<Sum>x\<leftarrow>xs. f x)"
  by (metis Multiset.mset_map mset_sort sum_mset_sum_list)

text \<open>What is stored under each key is a sum over its rows.\<close>

definition rows_of :: "page_day \<Rightarrow> gsc_row list \<Rightarrow> gsc_row list" where
  "rows_of k rows = filter (\<lambda>r. row_page_day r = k) rows"

lemma map_of_add_row:
  "map_of (add_row agg r) = (map_of agg)(row_page_day r \<mapsto>
     (let (i, c) = (case map_of agg (row_page_day r) of None \<Rightarrow> (0, 0) | Some v \<Rightarrow> v)
      in (i + gr_impressions r, c + gr_clicks r)))"
  by (auto simp: add_row_def update_conv' split: prod.splits)

lemma map_of_aggregates:
  "map_of (foldl add_row agg rows) k =
     (if rows_of k rows = [] then map_of agg k
      else (case map_of agg k of
          None \<Rightarrow> Some (\<Sum>r\<leftarrow>rows_of k rows. gr_impressions r, \<Sum>r\<leftarrow>rows_of k rows. gr_clicks r)
        | Some (i, c) \<Rightarrow> Some (i + (\<Sum>r\<leftarrow>rows_of k rows. gr_impressions r),
            c + (\<Sum>r\<leftarrow>rows_of k rows. gr_clicks r))))"
proof (induction rows arbitrary: agg)
  case Nil
  then show ?case by (simp add: rows_of_def)
next
  case (Cons r rows)
  show ?case unfolding foldl_Cons Cons.IH map_of_add_row
    by (auto simp: rows_of_def split: option.splits prod.splits)
qed

text \<open>A row of a valid batch: a constructed row whose clicks do not exceed its impressions.\<close>

definition row_ok :: "gsc_row \<Rightarrow> bool" where
  "row_ok r \<longleftrightarrow> gsc_row_valid r \<and> gr_clicks r \<le> gr_impressions r"

lemma aggregate_entry:
  assumes ok: "\<forall>r \<in> set rows. row_ok r" and e: "((site, url, d), (i, c)) \<in> set (foldl add_row [] rows)"
  shows "rows_of (site, url, d) rows \<noteq> []"
    and "i = (\<Sum>r\<leftarrow>rows_of (site, url, d) rows. gr_impressions r)"
    and "c = (\<Sum>r\<leftarrow>rows_of (site, url, d) rows. gr_clicks r)"
    and "site \<noteq> []" "url \<noteq> []" "0 \<le> c" "c \<le> i"
proof -
  have m: "map_of (foldl add_row [] rows) (site, url, d) = Some (i, c)"
    using e distinct_aggregates [of "[]" rows] by simp
  then show ne: "rows_of (site, url, d) rows \<noteq> []" by (auto simp: map_of_aggregates)
  then show i: "i = (\<Sum>r\<leftarrow>rows_of (site, url, d) rows. gr_impressions r)"
    and c: "c = (\<Sum>r\<leftarrow>rows_of (site, url, d) rows. gr_clicks r)"
    using m by (auto simp: map_of_aggregates)
  obtain r where r: "r \<in> set (rows_of (site, url, d) rows)" using ne by (meson list.set_sel(1))
  then have "row_page_day r = (site, url, d)" "row_ok r" using ok by (auto simp: rows_of_def)
  then show "site \<noteq> []" "url \<noteq> []" by (auto simp: row_page_day_def row_ok_def gsc_row_valid_def)
  show "0 \<le> c" unfolding c using ok
    by (intro sum_list_nonneg) (auto simp: rows_of_def row_ok_def gsc_row_valid_def)
  show "c \<le> i" unfolding c i using ok by (intro sum_list_mono) (auto simp: rows_of_def row_ok_def)
qed

text \<open>The metric of one entry, and the list the aggregation returns.\<close>

fun entry_metric :: "page_day \<times> int \<times> int \<Rightarrow> url_metric" where
  "entry_metric ((site, url, d), (i, c)) = \<lparr>um_site_id = site, um_normalized_url = url, um_date = d,
     um_total_impressions = i, um_total_clicks = c, um_data_status = OBSERVED\<rparr>"

lemma aggregate_result:
  assumes "\<forall>r \<in> set rows. row_ok r"
  shows "aggregate_url_daily_metrics rows = Inr (map entry_metric (sort_key fst (foldl add_row [] rows)))"
  unfolding aggregate_url_daily_metrics_def
proof (rule collect_map)
  fix e assume "e \<in> set (sort_key fst (foldl add_row [] rows))"
  moreover obtain site url d i c where e: "e = ((site, url, d), (i, c))" by (metis prod.exhaust)
  ultimately have "((site, url, d), (i, c)) \<in> set (foldl add_row [] rows)" by simp
  note E = aggregate_entry [OF assms this]
  show "(\<lambda>((site, url, d), i, c). new_url_metric site url d i c) e = Inr (entry_metric e)"
    using E(4-7) unfolding e by (auto simp: new_url_metric_def url_metric_valid_def Let_def)
qed

lemma entry_metric_sel:
  "um_total_impressions (entry_metric e) = fst (snd e)" "um_total_clicks (entry_metric e) = snd (snd e)"
  "(um_site_id (entry_metric e), um_normalized_url (entry_metric e), um_date (entry_metric e)) = fst e"
  by (cases e rule: entry_metric.cases; simp)+

lemma aggregate_totals:
  assumes "\<forall>r \<in> set rows. row_ok r" and "aggregate_url_daily_metrics rows = Inr ms"
  shows "(\<Sum>m\<leftarrow>ms. um_total_impressions m) = (\<Sum>r\<leftarrow>rows. gr_impressions r)"
    and "(\<Sum>m\<leftarrow>ms. um_total_clicks m) = (\<Sum>r\<leftarrow>rows. gr_clicks r)"
  using assms(2) unfolding aggregate_result [OF assms(1)]
  by (auto simp: comp_def entry_metric_sel sum_list_sort_key sum_aggregates)

lemma scan_rows_total:
  "scan_rows rows (seen, n, i, c) = (seen', n', i', c') \<Longrightarrow> distinct seen \<Longrightarrow>
     distinct seen' \<and> set seen' = set seen \<union> row_key ` set rows
     \<and> n' + int (length seen') = n + int (length seen) + int (length rows)
     \<and> i' = i + (\<Sum>r\<leftarrow>rows. gr_impressions r) \<and> c' = c + (\<Sum>r\<leftarrow>rows. gr_clicks r)"
proof (induction rows arbitrary: seen n i c)
  case Nil
  then show ?case by simp
next
  case (Cons r rows)
  show ?case
  proof (cases "row_key r \<in> set seen")
    case True
    then have "scan_rows rows (seen, n + 1, i + gr_impressions r, c + gr_clicks r) = (seen', n', i', c')"
      using Cons.prems by simp
    from Cons.IH [OF this Cons.prems(2)] show ?thesis using True by auto
  next
    case False
    then have "scan_rows rows (row_key r # seen, n, i + gr_impressions r, c + gr_clicks r) = (seen', n', i', c')"
      using Cons.prems by simp
    from Cons.IH [OF this] show ?thesis using False Cons.prems(2) by auto
  qed
qed

lemma row_key_eq: "row_key r = row_key r' \<longleftrightarrow> r = r'"
  by (cases r; cases r') (auto simp: row_key_def)

end
