(* ===== verification/Features.thy ===== *)
theory Features
  imports Observations
begin

text \<open>
  From the observations of two windows to signals: the feature records
  (\<open>app/models/features.py\<close>) and how they are computed (\<open>features/\<close>), the signals
  (\<open>models/signals.py\<close>) and the five detectors (\<open>detectors/\<close>), the classification
  (\<open>models/classification.py\<close>, \<open>classifier/rules.py\<close>). The median and the least-squares slope
  are numpy's and \<open>repr\<close> of a float is Python's: they are an argument (\<open>numerics\<close>). A default
  argument of the code is an argument here; \<open>detect_all_signals\<close> passes the defaults.
\<close>

record numerics =
  nu_median :: "rat list \<Rightarrow> rat"
  nu_slope :: "rat list \<Rightarrow> rat list \<Rightarrow> rat"
  nu_repr :: "rat \<Rightarrow> string"

section \<open>Feature records\<close>

record data_quality =
  dq_url_level_completeness :: rat
  dq_query_level_completeness :: rat
  dq_current_window_completeness :: rat
  dq_baseline_window_completeness :: rat
  dq_reconciliation_completeness :: rat

definition data_quality_valid :: "data_quality \<Rightarrow> bool" where
  "data_quality_valid q \<longleftrightarrow> unit_score (dq_url_level_completeness q)
     \<and> unit_score (dq_query_level_completeness q) \<and> unit_score (dq_current_window_completeness q)
     \<and> unit_score (dq_baseline_window_completeness q) \<and> unit_score (dq_reconciliation_completeness q)"

record volume_features =
  vo_current_impressions :: int
  vo_current_clicks :: int
  vo_baseline_impressions :: int
  vo_baseline_clicks :: int

definition volume_valid :: "volume_features \<Rightarrow> bool" where
  "volume_valid v \<longleftrightarrow> 0 \<le> vo_current_impressions v \<and> 0 \<le> vo_current_clicks v
     \<and> 0 \<le> vo_baseline_impressions v \<and> 0 \<le> vo_baseline_clicks v"

record ctr_features =
  ct_baseline_ctr :: rat
  ct_current_ctr :: rat
  ct_absolute_delta :: rat
  ct_relative_change :: rat
  ct_baseline_ctr_zero :: bool

definition ctr_valid :: "ctr_features \<Rightarrow> bool" where
  "ctr_valid c \<longleftrightarrow> unit_score (ct_baseline_ctr c) \<and> unit_score (ct_current_ctr c)"

record position_features =
  po_baseline_median :: rat
  po_current_median :: rat
  po_delta :: rat
  po_mad_current :: rat
  po_trend_slope :: rat
  po_trend_direction :: string

definition position_features_valid :: "position_features \<Rightarrow> bool" where
  "position_features_valid p \<longleftrightarrow> 0 \<le> po_baseline_median p \<and> 0 \<le> po_current_median p
     \<and> 0 \<le> po_mad_current p \<and> po_trend_direction p \<in> {''improving'', ''stable'', ''declining''}"

record visibility_features =
  vi_query_impressions :: int
  vi_url_total_impressions :: int
  vi_query_visibility_share :: rat

definition visibility_valid :: "visibility_features \<Rightarrow> bool" where
  "visibility_valid v \<longleftrightarrow> 0 \<le> vi_query_impressions v \<and> 0 \<le> vi_url_total_impressions v
     \<and> unit_score (vi_query_visibility_share v)"

record feature_set =
  fs_volume :: volume_features
  fs_ctr :: ctr_features
  fs_position :: position_features
  fs_visibility :: visibility_features
  fs_data_quality :: data_quality

definition feature_set_valid :: "feature_set \<Rightarrow> bool" where
  "feature_set_valid f \<longleftrightarrow> volume_valid (fs_volume f) \<and> ctr_valid (fs_ctr f)
     \<and> position_features_valid (fs_position f) \<and> visibility_valid (fs_visibility f)
     \<and> data_quality_valid (fs_data_quality f)"

section \<open>Feature calculation\<close>

definition usable_observations :: "observation list \<Rightarrow> observation list" where
  "usable_observations obs = filter (\<lambda>x. usable (ob_data_status x)) obs"

definition calculate_ctr :: "observation list \<Rightarrow> rat" where
  "calculate_ctr observations =
     (let total_impressions = (\<Sum>x\<leftarrow>usable_observations observations. ob_impressions x);
          total_clicks = (\<Sum>x\<leftarrow>usable_observations observations. ob_clicks x)
      in if total_impressions = 0 then 0 else int_div total_clicks total_impressions)"

definition calculate_ctr_delta :: "rat \<Rightarrow> rat \<Rightarrow> rat" where
  "calculate_ctr_delta baseline_ctr current_ctr = fsub current_ctr baseline_ctr"

definition calculate_relative_ctr_change :: "rat \<Rightarrow> rat \<Rightarrow> rat" where
  "calculate_relative_ctr_change baseline_ctr current_ctr =
     (if baseline_ctr = 0 then 0 else fdiv (fsub current_ctr baseline_ctr) baseline_ctr)"

text \<open>Both completeness functions count the usable statuses of what they are given.\<close>

definition calculate_completeness :: "data_status list \<Rightarrow> rat" where
  "calculate_completeness sts =
     (if sts = [] then 0 else int_div (int (length (filter usable sts))) (int (length sts)))"

definition calculate_window_completeness :: "(day \<times> data_status) list \<Rightarrow> rat" where
  "calculate_window_completeness daily_statuses = calculate_completeness (map snd daily_statuses)"

definition valid_positions :: "observation list \<Rightarrow> rat list" where
  "valid_positions observations =
     map snd (sort_key fst (List.map_filter (\<lambda>x. if usable (ob_data_status x)
       then map_option (\<lambda>p. (ob_date x, p)) (ob_avg_position x) else None) observations))"

definition calculate_median_position :: "numerics \<Rightarrow> observation list \<Rightarrow> rat" where
  "calculate_median_position N observations =
     (let positions = valid_positions observations in if positions = [] then 0 else nu_median N positions)"

definition calculate_mad :: "numerics \<Rightarrow> observation list \<Rightarrow> rat" where
  "calculate_mad N observations =
     (let positions = valid_positions observations
      in if positions = [] then 0
         else let median = nu_median N positions
              in nu_median N (map (\<lambda>p. \<bar>fsub p median\<bar>) positions))"

definition calculate_position_delta :: "rat \<Rightarrow> rat \<Rightarrow> rat" where
  "calculate_position_delta baseline_median current_median = fsub current_median baseline_median"

definition calculate_trend_slope :: "numerics \<Rightarrow> observation list \<Rightarrow> rat" where
  "calculate_trend_slope N observations =
     (let positions = valid_positions observations
      in if length positions < 2 then 0
         else nu_slope N (map rat_of_nat [0..<length positions]) positions)"

definition classify_trend :: "rat \<Rightarrow> rat \<Rightarrow> string" where
  "classify_trend slope stable_threshold =
     (if stable_threshold < slope then ''declining''
      else if slope < - stable_threshold then ''improving'' else ''stable'')"

fun reconciliation_score :: "reconciliation_status \<Rightarrow> rat" where
  "reconciliation_score RECON_MATCH = 1"
| "reconciliation_score RECON_PARTIAL = 1 / 2"
| "reconciliation_score RECON_INVALID = 0"

definition calculate_reconciliation_completeness :: "reconciliation_result \<Rightarrow> rat" where
  "calculate_reconciliation_completeness r =
     fdiv (fadd (reconciliation_score (rr_impression_status r)) (reconciliation_score (rr_click_status r))) 2"

definition passes_data_quality_gate :: "data_quality \<Rightarrow> bool" where
  "passes_data_quality_gate q \<longleftrightarrow> decimal 8 1 \<le> dq_query_level_completeness q
     \<and> decimal 8 1 \<le> dq_url_level_completeness q
     \<and> decimal 8 1 \<le> dq_current_window_completeness q
     \<and> decimal 8 1 \<le> dq_baseline_window_completeness q
     \<and> 1 / 2 \<le> dq_reconciliation_completeness q"

definition extract_feature_set ::
  "numerics \<Rightarrow> observation list \<Rightarrow> observation list \<Rightarrow> url_metric list \<Rightarrow> url_metric list
    \<Rightarrow> rat \<Rightarrow> rat option \<Rightarrow> rat option \<Rightarrow> exn + feature_set" where
  "extract_feature_set N baseline_observations current_observations baseline_url_metrics current_url_metrics
     reconciliation_completeness current_window_completeness baseline_window_completeness =
     (let current_impressions = (\<Sum>x\<leftarrow>current_observations. ob_impressions x);
          baseline_ctr = calculate_ctr baseline_observations;
          current_ctr = calculate_ctr current_observations;
          baseline_position = calculate_median_position N baseline_observations;
          current_position = calculate_median_position N current_observations;
          position_slope = calculate_trend_slope N current_observations;
          url_total_impressions = (\<Sum>m\<leftarrow>current_url_metrics. um_total_impressions m);
          f = \<lparr>fs_volume =
                \<lparr>vo_current_impressions = current_impressions,
                 vo_current_clicks = (\<Sum>x\<leftarrow>current_observations. ob_clicks x),
                 vo_baseline_impressions = (\<Sum>x\<leftarrow>baseline_observations. ob_impressions x),
                 vo_baseline_clicks = (\<Sum>x\<leftarrow>baseline_observations. ob_clicks x)\<rparr>,
              fs_ctr =
                \<lparr>ct_baseline_ctr = baseline_ctr, ct_current_ctr = current_ctr,
                 ct_absolute_delta = calculate_ctr_delta baseline_ctr current_ctr,
                 ct_relative_change = calculate_relative_ctr_change baseline_ctr current_ctr,
                 ct_baseline_ctr_zero = (baseline_ctr = 0)\<rparr>,
              fs_position =
                \<lparr>po_baseline_median = baseline_position, po_current_median = current_position,
                 po_delta = calculate_position_delta baseline_position current_position,
                 po_mad_current = calculate_mad N current_observations,
                 po_trend_slope = position_slope,
                 po_trend_direction = classify_trend position_slope (decimal 5 2)\<rparr>,
              fs_visibility =
                \<lparr>vi_query_impressions = current_impressions,
                 vi_url_total_impressions = url_total_impressions,
                 vi_query_visibility_share =
                   (if 0 < url_total_impressions then int_div current_impressions url_total_impressions else 0)\<rparr>,
              fs_data_quality =
                \<lparr>dq_url_level_completeness = calculate_completeness (map um_data_status current_url_metrics),
                 dq_query_level_completeness = calculate_completeness (map ob_data_status current_observations),
                 dq_current_window_completeness = (case current_window_completeness of
                     None \<Rightarrow> calculate_completeness (map ob_data_status current_observations) | Some c \<Rightarrow> c),
                 dq_baseline_window_completeness = (case baseline_window_completeness of
                     None \<Rightarrow> calculate_completeness (map ob_data_status baseline_observations) | Some c \<Rightarrow> c),
                 dq_reconciliation_completeness = reconciliation_completeness\<rparr>\<rparr>
      in if feature_set_valid f then Inr f else Inl (Exn ValidationError ''FeatureSet''))"

section \<open>Signals\<close>

datatype signal_type =
    CTR_DROP | POSITION_DECLINE | HIGH_VALUE_OPPORTUNITY | VOLATILITY
  | CTR_DROP_UNDER_VOLATILITY | POSITION_DECLINE_UNDER_VOLATILITY

fun signal_type_value :: "signal_type \<Rightarrow> string" where
  "signal_type_value CTR_DROP = ''CTR_DROP''"
| "signal_type_value POSITION_DECLINE = ''POSITION_DECLINE''"
| "signal_type_value HIGH_VALUE_OPPORTUNITY = ''HIGH_VALUE_OPPORTUNITY''"
| "signal_type_value VOLATILITY = ''VOLATILITY''"
| "signal_type_value CTR_DROP_UNDER_VOLATILITY = ''CTR_DROP_UNDER_VOLATILITY''"
| "signal_type_value POSITION_DECLINE_UNDER_VOLATILITY = ''POSITION_DECLINE_UNDER_VOLATILITY''"

datatype signal_severity = INFO | WARNING | CRITICAL

record signal =
  sg_signal_type :: signal_type
  sg_detected :: bool
  sg_severity :: signal_severity
  sg_confidence :: rat
  sg_evidence :: dict

definition new_signal ::
  "signal_type \<Rightarrow> bool \<Rightarrow> signal_severity \<Rightarrow> rat \<Rightarrow> dict \<Rightarrow> exn + signal" where
  "new_signal ty detected severity confidence evidence =
     (if unit_score confidence
      then Inr \<lparr>sg_signal_type = ty, sg_detected = detected, sg_severity = severity,
             sg_confidence = confidence, sg_evidence = evidence\<rparr>
      else Inl (Exn ValidationError ''Signal''))"

text \<open>\<open>{**evidence, "reason": reason}\<close> of a signal that was not detected.\<close>

definition undetected :: "signal_type \<Rightarrow> dict \<Rightarrow> string \<Rightarrow> exn + signal" where
  "undetected ty evidence reason =
     new_signal ty False INFO 0 (dict_merge evidence [(''reason'', PStr reason)])"

definition window_incomplete :: "feature_set \<Rightarrow> rat \<Rightarrow> bool" where
  "window_incomplete f min_data_completeness \<longleftrightarrow>
     dq_baseline_window_completeness (fs_data_quality f) < min_data_completeness
     \<or> dq_current_window_completeness (fs_data_quality f) < min_data_completeness"

definition window_confidence :: "feature_set \<Rightarrow> rat" where
  "window_confidence f = min 1 (fmul (dq_baseline_window_completeness (fs_data_quality f))
     (dq_current_window_completeness (fs_data_quality f)))"

definition window_evidence :: "feature_set \<Rightarrow> dict" where
  "window_evidence f =
     [(''baseline_window_completeness'', PFloat (dq_baseline_window_completeness (fs_data_quality f))),
      (''current_window_completeness'', PFloat (dq_current_window_completeness (fs_data_quality f)))]"

definition detect_ctr_drop :: "rat \<Rightarrow> rat \<Rightarrow> rat \<Rightarrow> feature_set \<Rightarrow> exn + signal" where
  "detect_ctr_drop min_absolute_drop critical_absolute_drop min_data_completeness f =
     (let c = fs_ctr f;
          evidence = [(''baseline_ctr'', PFloat (ct_baseline_ctr c)), (''current_ctr'', PFloat (ct_current_ctr c)),
             (''absolute_delta'', PFloat (ct_absolute_delta c)), (''relative_change'', PFloat (ct_relative_change c)),
             (''baseline_ctr_zero'', PBool (ct_baseline_ctr_zero c))] @ window_evidence f @
            [(''min_absolute_drop'', PFloat min_absolute_drop),
             (''critical_absolute_drop'', PFloat critical_absolute_drop),
             (''min_data_completeness'', PFloat min_data_completeness)]
      in if ct_baseline_ctr_zero c then undetected CTR_DROP evidence ''baseline_ctr_zero''
         else if window_incomplete f min_data_completeness
         then undetected CTR_DROP evidence ''insufficient_data_completeness''
         else if \<not> ct_absolute_delta c \<le> - min_absolute_drop
         then undetected CTR_DROP evidence ''drop_below_threshold''
         else new_signal CTR_DROP True
                (if ct_absolute_delta c \<le> - critical_absolute_drop then CRITICAL else WARNING)
                (window_confidence f) (dict_merge evidence [(''reason'', PStr ''meaningful_ctr_drop'')]))"

definition detect_position_decline :: "rat \<Rightarrow> rat \<Rightarrow> rat \<Rightarrow> feature_set \<Rightarrow> exn + signal" where
  "detect_position_decline min_position_drop critical_position_drop min_data_completeness f =
     (let p = fs_position f;
          evidence = [(''baseline_median'', PFloat (po_baseline_median p)),
             (''current_median'', PFloat (po_current_median p)), (''position_delta'', PFloat (po_delta p)),
             (''trend_slope'', PFloat (po_trend_slope p)), (''trend_direction'', PStr (po_trend_direction p))]
            @ window_evidence f @
            [(''min_position_drop'', PFloat min_position_drop),
             (''critical_position_drop'', PFloat critical_position_drop),
             (''min_data_completeness'', PFloat min_data_completeness)]
      in if window_incomplete f min_data_completeness
         then undetected POSITION_DECLINE evidence ''insufficient_data_completeness''
         else if \<not> min_position_drop \<le> po_delta p
         then undetected POSITION_DECLINE evidence ''position_drop_below_threshold''
         else new_signal POSITION_DECLINE True
                (if critical_position_drop \<le> po_delta p then CRITICAL else WARNING)
                (window_confidence f) (dict_merge evidence [(''reason'', PStr ''meaningful_position_decline'')]))"

definition detect_high_value_opportunity ::
  "int \<Rightarrow> rat \<Rightarrow> rat \<Rightarrow> rat \<Rightarrow> rat \<Rightarrow> feature_set \<Rightarrow> exn + signal" where
  "detect_high_value_opportunity min_impressions min_position max_position max_current_ctr
     min_data_completeness f =
     (let evidence = [(''current_impressions'', PInt (vo_current_impressions (fs_volume f))),
             (''current_position'', PFloat (po_current_median (fs_position f))),
             (''current_ctr'', PFloat (ct_current_ctr (fs_ctr f))),
             (''baseline_ctr'', PFloat (ct_baseline_ctr (fs_ctr f))),
             (''ctr_absolute_delta'', PFloat (ct_absolute_delta (fs_ctr f)))] @ window_evidence f @
            [(''min_impressions'', PInt min_impressions), (''min_position'', PFloat min_position),
             (''max_position'', PFloat max_position), (''max_current_ctr'', PFloat max_current_ctr),
             (''min_data_completeness'', PFloat min_data_completeness)];
          ctr_decline_support = (ct_absolute_delta (fs_ctr f) < 0)
      in if window_incomplete f min_data_completeness
         then undetected HIGH_VALUE_OPPORTUNITY evidence ''insufficient_data_completeness''
         else if vo_current_impressions (fs_volume f) < min_impressions
         then undetected HIGH_VALUE_OPPORTUNITY evidence ''insufficient_impressions''
         else if \<not> (min_position \<le> po_current_median (fs_position f)
                     \<and> po_current_median (fs_position f) \<le> max_position)
         then undetected HIGH_VALUE_OPPORTUNITY evidence ''position_outside_opportunity_range''
         else if max_current_ctr < ct_current_ctr (fs_ctr f)
         then undetected HIGH_VALUE_OPPORTUNITY evidence ''ctr_not_low_enough''
         else new_signal HIGH_VALUE_OPPORTUNITY True (if ctr_decline_support then WARNING else INFO)
                (window_confidence f)
                (dict_merge evidence [(''reason'', PStr ''high_value_opportunity''),
                   (''ctr_decline_support'', PBool ctr_decline_support)]))"

definition detect_position_volatility :: "rat \<Rightarrow> rat \<Rightarrow> rat \<Rightarrow> feature_set \<Rightarrow> exn + signal" where
  "detect_position_volatility min_mad critical_mad min_data_completeness f =
     (let p = fs_position f;
          evidence = [(''mad_current'', PFloat (po_mad_current p)), (''trend_slope'', PFloat (po_trend_slope p)),
             (''trend_direction'', PStr (po_trend_direction p))] @ window_evidence f @
            [(''min_mad'', PFloat min_mad), (''critical_mad'', PFloat critical_mad),
             (''min_data_completeness'', PFloat min_data_completeness)]
      in if window_incomplete f min_data_completeness
         then undetected VOLATILITY evidence ''insufficient_data_completeness''
         else if \<not> min_mad \<le> po_mad_current p
         then undetected VOLATILITY evidence ''volatility_below_threshold''
         else new_signal VOLATILITY True (if critical_mad \<le> po_mad_current p then CRITICAL else WARNING)
                (window_confidence f) (dict_merge evidence [(''reason'', PStr ''high_position_volatility'')]))"

text \<open>A risk is added for a detected signal when high volatility was detected too.\<close>

definition risk_signal :: "signal list \<Rightarrow> signal_type \<Rightarrow> signal_type \<Rightarrow> string \<Rightarrow> exn + signal list" where
  "risk_signal signals original risk reason =
     (case find (\<lambda>s. sg_signal_type s = original \<and> sg_detected s) signals of
        None \<Rightarrow> Inr []
      | Some s \<Rightarrow> and_maybe (new_signal risk True WARNING (min (sg_confidence s) (decimal 8 1))
          [(''original_signal'', PStr (signal_type_value original)),
           (''risk_signal'', PStr (signal_type_value VOLATILITY)),
           (''original_confidence'', PFloat (sg_confidence s)), (''reason'', PStr reason)])
          (\<lambda>r. Inr [r]))"

definition detect_signal_risks :: "signal list \<Rightarrow> exn + signal list" where
  "detect_signal_risks signals =
     (if VOLATILITY \<notin> set (map sg_signal_type (filter sg_detected signals)) then Inr []
      else and_maybe (risk_signal signals CTR_DROP CTR_DROP_UNDER_VOLATILITY
              ''ctr_drop_occurs_during_high_volatility'') (\<lambda>ctr_risk.
           and_maybe (risk_signal signals POSITION_DECLINE POSITION_DECLINE_UNDER_VOLATILITY
              ''position_decline_occurs_during_high_volatility'') (\<lambda>position_risk.
           Inr (ctr_risk @ position_risk))))"

definition with_risks :: "signal list \<Rightarrow> exn + signal list" where
  "with_risks signals = and_maybe (detect_signal_risks signals) (\<lambda>risks. Inr (signals @ risks))"

definition detect_all_signals :: "feature_set \<Rightarrow> exn + signal list" where
  "detect_all_signals f =
     and_maybe (collect (\<lambda>r. r)
       [detect_ctr_drop (decimal 2 2) (decimal 5 2) (decimal 8 1) f,
        detect_position_decline (3 / 2) 3 (decimal 8 1) f,
        detect_high_value_opportunity 100 4 20 (decimal 8 2) (decimal 8 1) f,
        detect_position_volatility (3 / 2) 3 (decimal 8 1) f])
       with_risks"

section \<open>Classification\<close>

datatype classification_status = CLASS_PASS | CLASS_INVESTIGATE | CLASS_REJECT

record classification =
  cl_status :: classification_status
  cl_confidence :: rat
  cl_reasons :: "string list"
  cl_signal_count :: int
  cl_risk_count :: int

definition new_classification ::
  "classification_status \<Rightarrow> rat \<Rightarrow> string list \<Rightarrow> int \<Rightarrow> int \<Rightarrow> exn + classification" where
  "new_classification st confidence reasons signal_count risk_count =
     (if unit_score confidence \<and> 0 \<le> signal_count \<and> 0 \<le> risk_count
      then Inr \<lparr>cl_status = st, cl_confidence = confidence, cl_reasons = reasons,
             cl_signal_count = signal_count, cl_risk_count = risk_count\<rparr>
      else Inl (Exn ValidationError ''ClassificationResult''))"

text \<open>\<open>"_UNDER_" in signal_type.value\<close>\<close>

definition is_under :: "signal_type \<Rightarrow> bool" where
  "is_under ty \<longleftrightarrow> sublist ''_UNDER_'' (signal_type_value ty)"

definition is_risk :: "signal_type \<Rightarrow> bool" where
  "is_risk ty \<longleftrightarrow> ty \<in> {CTR_DROP_UNDER_VOLATILITY, POSITION_DECLINE_UNDER_VOLATILITY}"

definition is_actionable :: "signal_type \<Rightarrow> bool" where
  "is_actionable ty \<longleftrightarrow> ty \<in> {CTR_DROP, POSITION_DECLINE, HIGH_VALUE_OPPORTUNITY}"

definition max_of :: "rat list \<Rightarrow> rat" where
  "max_of xs = foldl max (hd xs) (tl xs)"

definition classify_signals ::
  "signal list \<Rightarrow> rat \<Rightarrow> data_quality option \<Rightarrow> exn + classification" where
  "classify_signals signals min_confidence quality =
     (let detected = filter sg_detected signals;
          risks = filter (\<lambda>s. is_risk (sg_signal_type s)) detected;
          actionable = filter (\<lambda>s. is_actionable (sg_signal_type s)) detected;
          strongest = max_of (map sg_confidence actionable);
          adjusted = (if risks \<noteq> [] then fmul strongest (decimal 8 1) else strongest);
          names = map (\<lambda>s. signal_type_value (sg_signal_type s)) actionable
                @ map (\<lambda>s. signal_type_value (sg_signal_type s)) risks;
          signal_count = int (length detected);
          risk_count = int (length risks)
      in if (case quality of None \<Rightarrow> False | Some q \<Rightarrow> \<not> passes_data_quality_gate q)
         then new_classification CLASS_REJECT 0 [''insufficient_data_quality''] signal_count
                (int (length (filter (\<lambda>s. is_under (sg_signal_type s)) detected)))
         else if detected = [] then new_classification CLASS_PASS 1 [''no_actionable_signal''] 0 0
         else if actionable = []
         then new_classification CLASS_PASS 0 [''only_risk_signals_present''] signal_count risk_count
         else if adjusted < min_confidence
         then new_classification CLASS_REJECT adjusted (''confidence_below_threshold'' # names) signal_count risk_count
         else new_classification CLASS_INVESTIGATE adjusted names signal_count risk_count)"

end
