(* ===== verification/Learning.thy ===== *)
theory Learning
  imports Actions Py_Float "HOL-Library.Multiset"
begin

text \<open>
  What settled actions teach: \<open>app/models/learning.py\<close>, \<open>learning/direction.py\<close>,
  \<open>learning/engine.py\<close> (feedback events, their grouping into the performance of a strategy,
  and the signals drawn from it) and \<open>learning/decision.py\<close> (the bounded adjustment of a
  strategy's priority). \<open>show_float\<close> is Python's text of a float, an argument.
\<close>

section \<open>Data\<close>

datatype learning_maturity = EXPLORATION | ESTABLISHED

record feedback_event =
  fe_feedback_id :: string
  fe_action_id :: string
  fe_strategy_id :: string
  fe_opportunity_id :: string
  fe_site_id :: string
  fe_normalized_url :: string
  fe_normalized_query :: string
  fe_strategy_type :: strategy_type
  fe_action_type :: action_type
  fe_outcome_status :: outcome_status
  fe_primary_metric :: metric
  fe_relative_change :: "rat option"
  fe_improved :: "bool option"
  fe_regressed :: "bool option"
  fe_snapshot :: snapshot
  fe_evidence :: dict

record strategy_performance =
  sp_strategy_type :: strategy_type
  sp_action_type :: action_type
  sp_primary_metric :: metric
  sp_sample_size :: int
  sp_usable_sample_size :: int
  sp_success_count :: int
  sp_failure_count :: int
  sp_inconclusive_count :: int
  sp_success_rate :: "rat option"
  sp_average_relative_change :: "rat option"
  sp_improvement_rate :: "rat option"
  sp_regression_rate :: "rat option"
  sp_maturity :: learning_maturity
  sp_confidence :: rat
  sp_feedback_ids :: "string list"

definition rate_valid :: "rat option \<Rightarrow> bool" where
  "rate_valid r \<longleftrightarrow> (case r of None \<Rightarrow> True | Some x \<Rightarrow> unit_score x)"

definition performance_valid :: "strategy_performance \<Rightarrow> bool" where
  "performance_valid p \<longleftrightarrow> 0 \<le> sp_sample_size p \<and> 0 \<le> sp_usable_sample_size p
     \<and> 0 \<le> sp_success_count p \<and> 0 \<le> sp_failure_count p \<and> 0 \<le> sp_inconclusive_count p
     \<and> rate_valid (sp_success_rate p) \<and> rate_valid (sp_improvement_rate p)
     \<and> rate_valid (sp_regression_rate p) \<and> unit_score (sp_confidence p)"

record learning_signal =
  ls_signal_id :: string
  ls_strategy_type :: strategy_type
  ls_action_type :: action_type
  ls_primary_metric :: metric
  ls_maturity :: learning_maturity
  ls_confidence :: rat
  ls_sample_size :: int
  ls_success_rate :: "rat option"
  ls_average_relative_change :: "rat option"
  ls_direction :: string
  ls_evidence :: dict

record learning_context =
  lc_context_id :: string
  lc_min_samples_for_learning :: int
  lc_performances :: "strategy_performance list"
  lc_signals :: "learning_signal list"
  lc_evidence :: dict

section \<open>Feedback\<close>

text \<open>\<open>NOISE_BAND_REASON\<close>\<close>

definition noise_band_reason :: string where
  "noise_band_reason = ''primary_metric_change_within_noise_band''"

fun benefit_change :: "metric \<Rightarrow> rat option \<Rightarrow> rat option" where
  "benefit_change m None = None"
| "benefit_change m (Some change) = Some (if m = POSITION then - change else change)"

definition build_feedback_event :: "string \<Rightarrow> action \<Rightarrow> outcome \<Rightarrow> exn + feedback_event" where
  "build_feedback_event feedback_id a oc =
     (let primary = oc_primary_metric_outcome oc in
      if oc_action_id oc \<noteq> ac_action_id a
      then Inl (Exn ValueError ''Outcome action_id does not match action.'')
      else if oc_site_id oc \<noteq> ac_site_id a
      then Inl (Exn ValueError ''Outcome site_id does not match action.'')
      else if oc_normalized_url oc \<noteq> ac_normalized_url a
      then Inl (Exn ValueError ''Outcome normalized_url does not match action.'')
      else if oc_normalized_query oc \<noteq> ac_normalized_query a
      then Inl (Exn ValueError ''Outcome normalized_query does not match action.'')
      else Inr \<lparr>fe_feedback_id = feedback_id, fe_action_id = ac_action_id a,
             fe_strategy_id = ac_strategy_id a, fe_opportunity_id = ac_opportunity_id a,
             fe_site_id = ac_site_id a, fe_normalized_url = ac_normalized_url a,
             fe_normalized_query = ac_normalized_query a, fe_strategy_type = ac_strategy_type a,
             fe_action_type = ac_action_type a, fe_outcome_status = oc_status oc,
             fe_primary_metric = oc_primary_metric oc,
             fe_relative_change = (case primary of None \<Rightarrow> None | Some m \<Rightarrow> mo_relative_change m),
             fe_improved = map_option mo_improved primary,
             fe_regressed = map_option mo_regressed primary, fe_snapshot = oc_snapshot oc,
             fe_evidence = [(''outcome_id'', PStr (oc_outcome_id oc)),
                (''outcome_status'', PStr (outcome_status_value (oc_status oc))),
                (''measurement_id'', PStr (me_measurement_id (oc_measurement oc))),
                (''learning_safe'', PBool True),
                (''within_noise_band'', PBool (noise_band_reason \<in> set (oc_reasons oc)))]\<rparr>)"

definition measured :: "feedback_event \<Rightarrow> bool" where
  "measured e \<longleftrightarrow> fe_outcome_status e \<in> {OUTCOME_SUCCESS, OUTCOME_FAILURE}
     \<or> (fe_outcome_status e = OUTCOME_INCONCLUSIVE
        \<and> map_of (fe_evidence e) ''within_noise_band'' = Some (PBool True))"

type_synonym learning_key = "string \<times> string \<times> string"

definition group_key :: "feedback_event \<Rightarrow> learning_key" where
  "group_key e = (strategy_type_value (fe_strategy_type e), action_type_value (fe_action_type e),
     metric_value (fe_primary_metric e))"

section \<open>Performance and signals\<close>

definition count_status :: "outcome_status \<Rightarrow> feedback_event list \<Rightarrow> int" where
  "count_status st events = int (length (filter (\<lambda>e. fe_outcome_status e = st) events))"

text \<open>\<open>n / usable if usable else None\<close>\<close>

definition rate :: "int \<Rightarrow> int \<Rightarrow> rat option" where
  "rate n whole = (if whole = 0 then None else Some (int_div n whole))"

definition build_performance :: "feedback_event list \<Rightarrow> int \<Rightarrow> exn + strategy_performance" where
  "build_performance events min_samples =
     (let ordered = sort_key fe_feedback_id events;
          start = hd ordered;
          successes = count_status OUTCOME_SUCCESS ordered;
          measured_events = filter measured ordered;
          usable_size = int (length measured_events);
          relative_changes = List.map_filter fe_relative_change measured_events;
          improvements = int (length (filter (\<lambda>e. fe_improved e = Some True) measured_events));
          regressions = int (length (filter (\<lambda>e. fe_regressed e = Some True) measured_events));
          data_completeness = (if ordered = [] then 0 else int_div usable_size (int (length ordered)));
          sample_confidence = min 1 (int_div usable_size min_samples);
          p = \<lparr>sp_strategy_type = fe_strategy_type start, sp_action_type = fe_action_type start,
               sp_primary_metric = fe_primary_metric start, sp_sample_size = int (length ordered),
               sp_usable_sample_size = usable_size, sp_success_count = successes,
               sp_failure_count = count_status OUTCOME_FAILURE ordered,
               sp_inconclusive_count = count_status OUTCOME_INCONCLUSIVE ordered,
               sp_success_rate = rate successes usable_size,
               sp_average_relative_change =
                 (if relative_changes = [] then None
                  else Some (fdiv (fsum relative_changes) (fl (of_nat (length relative_changes))))),
               sp_improvement_rate = rate improvements usable_size,
               sp_regression_rate = rate regressions usable_size,
               sp_maturity = (if min_samples \<le> usable_size then ESTABLISHED else EXPLORATION),
               sp_confidence = fmul sample_confidence data_completeness,
               sp_feedback_ids = map fe_feedback_id ordered\<rparr>
      in if performance_valid p then Inr p else Inl (Exn ValidationError ''StrategyPerformance''))"

definition signal_direction :: "strategy_performance \<Rightarrow> string" where
  "signal_direction p =
     (let benefit = benefit_change (sp_primary_metric p) (sp_average_relative_change p)
      in if sp_maturity p = EXPLORATION then ''insufficient_sample''
         else case benefit of None \<Rightarrow> ''neutral''
           | Some b \<Rightarrow> if 0 < b then ''positive'' else if b < 0 then ''negative'' else ''neutral'')"

definition build_learning_signal :: "string \<Rightarrow> strategy_performance \<Rightarrow> learning_signal" where
  "build_learning_signal signal_id p =
     \<lparr>ls_signal_id = signal_id, ls_strategy_type = sp_strategy_type p, ls_action_type = sp_action_type p,
      ls_primary_metric = sp_primary_metric p, ls_maturity = sp_maturity p,
      ls_confidence = sp_confidence p, ls_sample_size = sp_sample_size p,
      ls_success_rate = sp_success_rate p, ls_average_relative_change = sp_average_relative_change p,
      ls_direction = signal_direction p,
      ls_evidence = [(''learning_only'', PBool True), (''does_not_mutate_rules'', PBool True),
        (''feedback_ids'', PList (map PStr (sp_feedback_ids p)))]\<rparr>"

text \<open>\<open>==\<close> of two events: their evidence is compared as dictionaries.\<close>

definition same_event :: "feedback_event \<Rightarrow> feedback_event \<Rightarrow> bool" where
  "same_event e e' \<longleftrightarrow> e\<lparr>fe_evidence := []\<rparr> = e'\<lparr>fe_evidence := []\<rparr>
     \<and> py_eq (PDict (fe_evidence e)) (PDict (fe_evidence e'))"

type_synonym learning_groups =
  "(string \<times> feedback_event) list \<times> (learning_key \<times> feedback_event list) list"

definition group_event :: "learning_groups \<Rightarrow> feedback_event \<Rightarrow> exn + learning_groups" where
  "group_event g e =
     (case map_of (fst g) (fe_feedback_id e) of
        Some old \<Rightarrow> if same_event old e then Inr g
          else Inl (Exn ValueError ''Conflicting duplicate feedback_id.'')
      | None \<Rightarrow>
          let events = (case map_of (snd g) (group_key e) of None \<Rightarrow> [] | Some es \<Rightarrow> es)
          in Inr ((fe_feedback_id e, e) # fst g, AList.update (group_key e) (events @ [e]) (snd g)))"

fun group_events :: "learning_groups \<Rightarrow> feedback_event list \<Rightarrow> exn + learning_groups" where
  "group_events g [] = Inr g"
| "group_events g (e # es) = and_maybe (group_event g e) (\<lambda>g'. group_events g' es)"

definition group_performance :: "int \<Rightarrow> learning_key \<times> feedback_event list \<Rightarrow> exn + strategy_performance" where
  "group_performance min_samples g = build_performance (snd g) min_samples"

definition learning_signal_id :: "strategy_performance \<Rightarrow> string" where
  "learning_signal_id p = ''learning:'' @ strategy_type_value (sp_strategy_type p) @ '':''
     @ action_type_value (sp_action_type p) @ '':'' @ metric_value (sp_primary_metric p)"

definition build_learning_context :: "string \<Rightarrow> feedback_event list \<Rightarrow> int \<Rightarrow> exn + learning_context" where
  "build_learning_context context_id events min_samples =
     (if min_samples < 1 then Inl (Exn ValueError ''min_samples_for_learning must be >= 1.'')
      else and_maybe (group_events ([], []) events) (\<lambda>(seen, groups).
        and_maybe (collect (group_performance min_samples) (sort_key fst groups)) (\<lambda>performances.
          Inr \<lparr>lc_context_id = context_id, lc_min_samples_for_learning = min_samples,
               lc_performances = performances,
               lc_signals = map (\<lambda>p. build_learning_signal (learning_signal_id p) p) performances,
               lc_evidence = [(''feedback_count'', PInt (int (length seen))),
                 (''learning_is_advisory_only'', PBool True), (''rules_were_not_mutated'', PBool True)]\<rparr>)))"

section \<open>The adjustment of a strategy\<close>

record learning_policy =
  lp_min_samples :: int
  lp_min_confidence :: rat
  lp_max_priority_adjustment :: rat
  lp_adjustment_scale :: rat

definition new_learning_policy :: "int \<Rightarrow> rat \<Rightarrow> rat \<Rightarrow> rat \<Rightarrow> exn + learning_policy" where
  "new_learning_policy min_samples min_confidence max_adjustment scale =
     (if min_samples < 1 then Inl (Exn ValueError ''min_samples must be >= 1.'')
      else if \<not> (0 \<le> min_confidence \<and> min_confidence \<le> 1)
      then Inl (Exn ValueError ''min_confidence must be between 0 and 1.'')
      else if \<not> (0 < max_adjustment \<and> max_adjustment \<le> 1)
      then Inl (Exn ValueError ''max_priority_adjustment must be in (0, 1].'')
      else if \<not> (0 < scale \<and> scale \<le> 1)
      then Inl (Exn ValueError ''adjustment_scale must be in (0, 1].'')
      else Inr \<lparr>lp_min_samples = min_samples, lp_min_confidence = min_confidence,
             lp_max_priority_adjustment = max_adjustment, lp_adjustment_scale = scale\<rparr>)"

definition default_learning_policy :: learning_policy where
  "default_learning_policy = \<lparr>lp_min_samples = 5, lp_min_confidence = 1 / 2,
     lp_max_priority_adjustment = decimal 10 2, lp_adjustment_scale = 1 / 4\<rparr>"

record learning_adjustment =
  la_applied :: bool
  la_adjustment :: rat
  la_confidence :: rat
  la_reason :: string
  la_signal_id :: "string option"

definition find_matching_signal :: "strategy \<Rightarrow> learning_context \<Rightarrow> learning_policy \<Rightarrow> learning_signal option" where
  "find_matching_signal s context policy =
     first (sort_key ls_signal_id (filter (\<lambda>sig. ls_strategy_type sig = st_strategy_type s
        \<and> ls_action_type sig = strategy_to_action (st_strategy_type s)
        \<and> ls_maturity sig = ESTABLISHED \<and> lp_min_samples policy \<le> ls_sample_size sig
        \<and> lp_min_confidence policy \<le> ls_confidence sig) (lc_signals context)))"

definition calculate_learning_adjustment ::
  "strategy \<Rightarrow> learning_context option \<Rightarrow> learning_policy option \<Rightarrow> learning_adjustment" where
  "calculate_learning_adjustment s context policy =
     (let effective = (case policy of None \<Rightarrow> default_learning_policy | Some p \<Rightarrow> p);
          none = \<lparr>la_applied = False, la_adjustment = 0, la_confidence = 0, la_reason = [], la_signal_id = None\<rparr>
      in case context of
           None \<Rightarrow> none\<lparr>la_reason := ''no_learning_context''\<rparr>
         | Some c \<Rightarrow>
           (case find_matching_signal s c effective of
              None \<Rightarrow> none\<lparr>la_reason := ''no_eligible_learning_signal''\<rparr>
            | Some sig \<Rightarrow>
              let skipped = none\<lparr>la_confidence := ls_confidence sig, la_signal_id := Some (ls_signal_id sig)\<rparr>
              in if ls_direction sig \<notin> {''positive'', ''negative''}
                 then skipped\<lparr>la_reason := ''learning_signal_not_directional''\<rparr>
                 else case benefit_change (ls_primary_metric sig) (ls_average_relative_change sig) of
                     None \<Rightarrow> skipped\<lparr>la_reason := ''learning_signal_missing_average_change''\<rparr>
                   | Some benefit \<Rightarrow>
                     let raw = fmul (fmul benefit (ls_confidence sig)) (lp_adjustment_scale effective);
                         most = lp_max_priority_adjustment effective;
                         bounded = max (- most) (min most raw)
                     in \<lparr>la_applied = True, la_adjustment = round6 bounded, la_confidence = ls_confidence sig,
                         la_reason = ''established_directional_learning_signal'',
                         la_signal_id = Some (ls_signal_id sig)\<rparr>))"

definition apply_learning_to_strategy ::
  "(rat \<Rightarrow> string) \<Rightarrow> strategy \<Rightarrow> learning_context option \<Rightarrow> learning_policy option \<Rightarrow> strategy" where
  "apply_learning_to_strategy show_float s context policy =
     (let adj = calculate_learning_adjustment s context policy
      in if \<not> la_applied adj
         then s\<lparr>st_evidence := dict_merge (st_evidence s) [(''learning'', PDict
                [(''applied'', PBool False), (''adjustment'', PFloat 0),
                 (''confidence'', PFloat (la_confidence adj)), (''reason'', PStr (la_reason adj)),
                 (''signal_id'', opt_str (la_signal_id adj))])]\<rparr>
         else s\<lparr>st_priority_score := round6 (min (max (fadd (st_priority_score s) (la_adjustment adj)) 0) 1),
                st_reasons := st_reasons s @ [''learning_adjustment='' @ show_float (la_adjustment adj)],
                st_evidence := dict_merge (st_evidence s) [(''learning'', PDict
                  [(''applied'', PBool True), (''adjustment'', PFloat (la_adjustment adj)),
                   (''confidence'', PFloat (la_confidence adj)), (''reason'', PStr (la_reason adj)),
                   (''signal_id'', opt_str (la_signal_id adj)),
                   (''learning_context_id'', opt_str (map_option lc_context_id context)),
                   (''rules_were_not_mutated'', PBool True)])]\<rparr>)"

section \<open>Facts\<close>

lemma adjustment_bounded:
  assumes "effective = (case policy of None \<Rightarrow> default_learning_policy | Some p \<Rightarrow> p)"
    and "0 \<le> lp_max_priority_adjustment effective"
  shows "- round6 (lp_max_priority_adjustment effective) \<le> la_adjustment (calculate_learning_adjustment s context policy)"
    and "la_adjustment (calculate_learning_adjustment s context policy) \<le> round6 (lp_max_priority_adjustment effective)"
proof -
  define most where "most = lp_max_priority_adjustment effective"
  have low: "- round6 most \<le> round6 (max (- most) (min most raw))" for raw
    using round6_mono [of "- most" "max (- most) (min most raw)"] by simp
  have high: "round6 (max (- most) (min most raw)) \<le> round6 most" for raw
    by (rule round6_mono) (use assms(2) in \<open>simp add: most_def\<close>)
  have pos: "0 \<le> round6 most" by (rule round6_nonneg) (use assms(2) in \<open>simp add: most_def\<close>)
  show "- round6 (lp_max_priority_adjustment effective) \<le> la_adjustment (calculate_learning_adjustment s context policy)"
    using low pos unfolding calculate_learning_adjustment_def most_def assms(1)
    by (auto simp: Let_def split: option.splits)
  show "la_adjustment (calculate_learning_adjustment s context policy) \<le> round6 (lp_max_priority_adjustment effective)"
    using high pos unfolding calculate_learning_adjustment_def most_def assms(1)
    by (auto simp: Let_def split: option.splits)
qed

lemma clamp_mono: "x \<le> y \<Longrightarrow> round6 (min (max x 0) 1) \<le> round6 (min (max y 0) (1 :: rat))"
  by (intro round6_mono) auto

lemma clamp_unit: "unit_score (round6 (min (max x 0) 1))"
  unfolding unit_score_def by (simp add: round6_nonneg round6_le_1)

lemma fadd_mono: "b \<le> c \<Longrightarrow> fadd a b \<le> fadd a c"
  unfolding fadd_def by (intro fl_mono) simp

text \<open>The groups hold, under each key, the events of that key, each once.\<close>

definition grouped :: "feedback_event set \<Rightarrow> learning_groups \<Rightarrow> bool" where
  "grouped S g \<longleftrightarrow> finite S
     \<and> (\<forall>i e. map_of (fst g) i = Some e \<longleftrightarrow> e \<in> S \<and> fe_feedback_id e = i)
     \<and> length (fst g) = card S \<and> distinct (map fst (snd g))
     \<and> (\<forall>k es. map_of (snd g) k = Some es \<longrightarrow> distinct es \<and> set es = {e \<in> S. group_key e = k})
     \<and> (\<forall>k. map_of (snd g) k = None \<longleftrightarrow> {e \<in> S. group_key e = k} = {})"

lemma groupedD:
  assumes "grouped S g"
  shows "finite S" "map_of (fst g) i = Some e \<longleftrightarrow> e \<in> S \<and> fe_feedback_id e = i"
    "length (fst g) = card S" "distinct (map fst (snd g))"
    "map_of (snd g) k = Some es \<Longrightarrow> distinct es \<and> set es = {e \<in> S. group_key e = k}"
    "map_of (snd g) k = None \<longleftrightarrow> {e \<in> S. group_key e = k} = {}"
  using assms unfolding grouped_def by blast+

lemma group_event_grouped:
  assumes g: "grouped S g" and inj: "inj_on fe_feedback_id (insert e S)" and "same_event e e"
  obtains g' where "group_event g e = Inr g'" and "grouped (insert e S) g'"
proof (cases "e \<in> S")
  case True
  then have "map_of (fst g) (fe_feedback_id e) = Some e" using groupedD(2) [OF g] by blast
  then show thesis using that assms(3) g True by (simp add: group_event_def insert_absorb)
next
  case False
  have none: "map_of (fst g) (fe_feedback_id e) = None"
  proof (rule ccontr)
    assume "map_of (fst g) (fe_feedback_id e) \<noteq> None"
    then obtain e' where "map_of (fst g) (fe_feedback_id e) = Some e'" by blast
    then have "e' \<in> S" "fe_feedback_id e' = fe_feedback_id e" using groupedD(2) [OF g] by blast+
    then show False using inj_onD [OF inj, of e' e] False by auto
  qed
  define old where "old = (case map_of (snd g) (group_key e) of None \<Rightarrow> [] | Some es \<Rightarrow> es)"
  define g' where "g' = ((fe_feedback_id e, e) # fst g, AList.update (group_key e) (old @ [e]) (snd g))"
  have old: "distinct old \<and> set old = {x \<in> S. group_key x = group_key e}"
  proof (cases "map_of (snd g) (group_key e)")
    case None
    then have "{x \<in> S. group_key x = group_key e} = {}" using groupedD(6) [OF g] by blast
    then show ?thesis using None by (simp add: old_def)
  next
    case (Some es)
    then show ?thesis using groupedD(5) [OF g Some] by (simp add: old_def)
  qed
  have g1: "map_of (fst g') = (map_of (fst g))(fe_feedback_id e \<mapsto> e)"
    and g2: "map_of (snd g') = (map_of (snd g))(group_key e \<mapsto> old @ [e])"
    by (simp_all add: g'_def update_conv')
  have "group_event g e = Inr g'" using none by (simp add: group_event_def g'_def old_def Let_def)
  moreover have "grouped (insert e S) g'"
    unfolding grouped_def
  proof (intro conjI allI impI)
    show "finite (insert e S)" using groupedD(1) [OF g] by simp
    show "map_of (fst g') i = Some x \<longleftrightarrow> x \<in> insert e S \<and> fe_feedback_id x = i" for i x
    proof (cases "i = fe_feedback_id e")
      case True
      then have "\<not> (x \<in> S \<and> fe_feedback_id x = i)" using groupedD(2) [OF g, of i x] none by simp
      then show ?thesis unfolding g1 True by auto
    next
      case False
      then show ?thesis using groupedD(2) [OF g, of i x] unfolding g1 by auto
    qed
    show "length (fst g') = card (insert e S)"
      using groupedD(1,3) [OF g] False by (simp add: g'_def)
    show "distinct (map fst (snd g'))" using groupedD(4) [OF g] by (simp add: g'_def distinct_update)
    have entry: "distinct es \<and> set es = {x \<in> insert e S. group_key x = k}"
      if "map_of (snd g') k = Some es" for k es
    proof (cases "k = group_key e")
      case True
      then have "es = old @ [e]" using that unfolding g2 by simp
      then show ?thesis using old False True by auto
    next
      case False
      then have "map_of (snd g) k = Some es" using that unfolding g2 by simp
      then have "distinct es \<and> set es = {x \<in> S. group_key x = k}" by (rule groupedD(5) [OF g])
      then show ?thesis using False by auto
    qed
    show "distinct es" "set es = {x \<in> insert e S. group_key x = k}"
      if "map_of (snd g') k = Some es" for k es
      using entry [OF that] by simp_all
    show "(map_of (snd g') k = None) = ({x \<in> insert e S. group_key x = k} = {})" for k
    proof (cases "k = group_key e")
      case True
      then show ?thesis unfolding g2 by auto
    next
      case False
      then have "{x \<in> insert e S. group_key x = k} = {x \<in> S. group_key x = k}" by auto
      then show ?thesis using groupedD(6) [OF g, of k] False unfolding g2 by simp
    qed
  qed
  ultimately show thesis by (rule that)
qed

lemma group_events_grouped:
  assumes "grouped S g" and "inj_on fe_feedback_id (S \<union> set xs)" and "\<forall>e \<in> set xs. same_event e e"
  shows "\<exists>g'. group_events g xs = Inr g' \<and> grouped (S \<union> set xs) g'"
  using assms
proof (induction xs arbitrary: S g)
  case (Cons e xs)
  have "inj_on fe_feedback_id (insert e S)" using Cons.prems(2) by (rule inj_on_subset) auto
  then obtain g' where "group_event g e = Inr g'" "grouped (insert e S) g'"
    using group_event_grouped [OF Cons.prems(1)] Cons.prems(3) by auto
  then show ?case using Cons.IH [of "insert e S" g'] Cons.prems(2,3) by simp
qed simp

lemma same_performance:
  assumes "inj_on fe_feedback_id (set es)" and "distinct es" "distinct es'" "set es = set es'"
  shows "build_performance es n = build_performance es' n"
proof -
  have "mset es = mset es'" using assms by (simp add: set_eq_iff_mset_eq_distinct)
  then have "mset es = mset (sort_key fe_feedback_id es')" by simp
  then have "sort_key fe_feedback_id es = sort_key fe_feedback_id es'"
    using assms(1) sorted_sort_key by (rule sort_key_inj_key_eq)
  then show ?thesis by (simp add: build_performance_def)
qed

lemma collect_of_map: "collect f xs = collect (\<lambda>r. r) (map f xs)"
  by (induction xs) simp_all

lemma grouped_keys: "grouped S g \<Longrightarrow> set (map fst (snd g)) = group_key ` S"
proof -
  assume g: "grouped S g"
  have "k \<in> set (map fst (snd g)) \<longleftrightarrow> k \<in> group_key ` S" for k
  proof -
    have none: "{e \<in> S. group_key e = k} = {} \<longleftrightarrow> k \<notin> group_key ` S" by blast
    show ?thesis using groupedD(6) [OF g, of k] unfolding map_of_eq_None_iff none set_map by argo
  qed
  then show ?thesis by blast
qed

definition performance_of :: "int \<Rightarrow> learning_groups \<Rightarrow> learning_key \<Rightarrow> exn + strategy_performance" where
  "performance_of n g k = build_performance (the (map_of (snd g) k)) n"

lemma performances_by_key:
  assumes "grouped S g"
  shows "collect (group_performance n) (sort_key fst (snd g))
    = collect (\<lambda>r. r) (map (performance_of n g) (map fst (sort_key fst (snd g))))"
  unfolding collect_of_map [of "group_performance n"] map_map
proof (rule arg_cong [of _ _ "collect (\<lambda>r. r)"], rule map_cong [OF refl])
  fix x assume x: "x \<in> set (sort_key fst (snd g))"
  obtain k es where k: "x = (k, es)" by (rule prod.exhaust)
  then have "map_of (snd g) k = Some es" using x groupedD(4) [OF assms] by (simp add: map_of_is_SomeI)
  then show "group_performance n x = (performance_of n g \<circ> fst) x"
    by (simp add: k performance_of_def group_performance_def)
qed

lemma same_groups:
  assumes g: "grouped S g" and h: "grouped S h" and inj: "inj_on fe_feedback_id S"
  shows "collect (group_performance n) (sort_key fst (snd g))
    = collect (group_performance n) (sort_key fst (snd h))"
proof -
  have keys: "map fst (sort_key fst (snd g)) = map fst (sort_key fst (snd h))"
  proof (rule sorted_distinct_set_unique)
    show "sorted (map fst (sort_key fst (snd g)))" "sorted (map fst (sort_key fst (snd h)))"
      by (rule sorted_sort_key)+
    show "distinct (map fst (sort_key fst (snd g)))" "distinct (map fst (sort_key fst (snd h)))"
      using groupedD(4) [OF g] groupedD(4) [OF h] by (simp_all add: distinct_map)
    show "set (map fst (sort_key fst (snd g))) = set (map fst (sort_key fst (snd h)))"
      using grouped_keys [OF g] grouped_keys [OF h] by simp
  qed
  have "performance_of n g k = performance_of n h k" if "k \<in> group_key ` S" for k
  proof -
    have "map_of (snd g) k \<noteq> None" "map_of (snd h) k \<noteq> None"
      using that groupedD(6) [OF g, of k] groupedD(6) [OF h, of k] by auto
    then obtain es es' where es: "map_of (snd g) k = Some es" "map_of (snd h) k = Some es'" by blast
    have "build_performance es n = build_performance es' n"
      using groupedD(5) [OF g es(1)] groupedD(5) [OF h es(2)] inj_on_subset [OF inj, of "set es"]
      by (intro same_performance) auto
    then show ?thesis by (simp add: performance_of_def es)
  qed
  then have "map (performance_of n g) (map fst (sort_key fst (snd g)))
      = map (performance_of n h) (map fst (sort_key fst (snd h)))"
    unfolding keys using grouped_keys [OF h] by (intro map_cong) auto
  then show ?thesis unfolding performances_by_key [OF g] performances_by_key [OF h] by simp
qed

lemma learning_same:
  assumes "set es = set es'" and "inj_on fe_feedback_id (set es)" and "\<forall>e \<in> set es. same_event e e"
  shows "build_learning_context i es n = build_learning_context i es' n"
proof -
  have start: "grouped {} ([], [])" by (simp add: grouped_def)
  obtain g where g: "group_events ([], []) es = Inr g" "grouped (set es) g"
    using group_events_grouped [OF start, of es] assms by auto
  obtain h where h: "group_events ([], []) es' = Inr h" "grouped (set es) h"
    using group_events_grouped [OF start, of es'] assms by auto
  have "collect (group_performance n) (sort_key fst (snd g))
    = collect (group_performance n) (sort_key fst (snd h))"
    by (rule same_groups [OF g(2) h(2) assms(2)])
  moreover have "length (fst g) = length (fst h)" using groupedD(3) [OF g(2)] groupedD(3) [OF h(2)] by simp
  ultimately show ?thesis by (cases g; cases h) (simp add: build_learning_context_def g(1) h(1))
qed

text \<open>Every performance the engine builds satisfies the constraints of its model.\<close>

lemma rate_ok: "0 \<le> n \<Longrightarrow> n \<le> whole \<Longrightarrow> rate_valid (rate n whole)"
  by (simp add: rate_def rate_valid_def unit_score_def int_div_nonneg int_div_le_1)

lemma successes_measured:
  "filter (\<lambda>e. fe_outcome_status e = OUTCOME_SUCCESS) es
     = filter (\<lambda>e. fe_outcome_status e = OUTCOME_SUCCESS) (filter measured es)"
  by (induction es) (auto simp: measured_def)

lemma build_performance_valid:
  assumes "0 < n"
  shows "\<exists>p. build_performance es n = Inr p \<and> performance_valid p"
proof -
  define ordered where "ordered = sort_key fe_feedback_id es"
  have low: "0 \<le> count_status st ordered" for st by (simp add: count_status_def)
  have some: "\<exists>q. (if performance_valid p then Inr p else Inl e) = Inr q \<and> performance_valid q"
    if "performance_valid p" for p :: strategy_performance and e :: exn
    using that by simp
  have "rate_valid (rate (count_status OUTCOME_SUCCESS ordered) (int (length (filter measured ordered))))"
    by (rule rate_ok [OF low], unfold count_status_def successes_measured [of ordered])
      (simp only: of_nat_le_iff length_filter_le)
  moreover have "rate_valid (rate (int (length (filter P (filter measured ordered)))) (int (length (filter measured ordered))))" for P
    by (rule rate_ok) (simp_all only: of_nat_le_iff of_nat_0_le_iff length_filter_le)
  moreover have "unit_score (fmul (min 1 (int_div (int (length (filter measured ordered))) n))
      (if ordered = [] then 0 else int_div (int (length (filter measured ordered))) (int (length ordered))))"
    unfolding unit_score_def using assms
    by (intro fmul_unit) (simp_all add: int_div_nonneg int_div_le_1)
  ultimately show ?thesis
    unfolding build_performance_def ordered_def [symmetric] Let_def
    by (intro some) (simp only: performance_valid_def strategy_performance.simps of_nat_0_le_iff low simp_thms)
qed

section \<open>A strategy and what was learned\<close>

definition taught_snapshot :: snapshot where
  "taught_snapshot = \<lparr>sn_snapshot_id = ''s'', sn_data_snapshot_id = ''d'', sn_rule_version = ''r'',
     sn_config_version = ''c'', sn_generated_at = 0\<rparr>"

definition taught_strategy :: strategy where
  "taught_strategy = \<lparr>st_strategy_id = ''st'', st_opportunity_id = ''o'', st_site_id = ''site'',
     st_normalized_url = ''u'', st_normalized_query = ''q'', st_opportunity_type = CTR_RECOVERY,
     st_strategy_type = SERP_TITLE_OPTIMIZATION, st_status = RECOMMENDED, st_confidence_score = 1 / 2,
     st_expected_impact_score = 1 / 2, st_effort_score = 1 / 4, st_risk_score = 1 / 4,
     st_priority_score = 1 / 2, st_reasons = [''r''], st_evidence = [], st_snapshot = taught_snapshot\<rparr>"

definition taught_event :: "string \<Rightarrow> rat \<Rightarrow> feedback_event" where
  "taught_event i change = \<lparr>fe_feedback_id = i, fe_action_id = ''a'', fe_strategy_id = ''st'', fe_opportunity_id = ''o'',
     fe_site_id = ''site'', fe_normalized_url = ''u'', fe_normalized_query = ''q'',
     fe_strategy_type = SERP_TITLE_OPTIMIZATION, fe_action_type = OPTIMIZE_TITLE,
     fe_outcome_status = OUTCOME_SUCCESS, fe_primary_metric = CTR, fe_relative_change = Some change,
     fe_improved = Some True, fe_regressed = Some False, fe_snapshot = taught_snapshot, fe_evidence = []\<rparr>"

definition taught_events :: "feedback_event list" where
  "taught_events = [taught_event ''a'' (1 / 2), taught_event ''b'' (1 / 4)]"

definition taught_context :: "learning_context option" where
  "taught_context = (case build_learning_context ''c'' taught_events 2 of Inl _ \<Rightarrow> None | Inr c \<Rightarrow> Some c)"

definition taught_policy :: "learning_policy option" where
  "taught_policy = Some \<lparr>lp_min_samples = 2, lp_min_confidence = 1 / 2, lp_max_priority_adjustment = 1 / 16,
     lp_adjustment_scale = 1 / 4\<rparr>"

section \<open>Properties\<close>

text \<open>
  C24. What was learned only advises: applied to a strategy it changes nothing but its priority,
  its reasons, which it extends, and the entry of its evidence it owns; the priority moves by no
  more than the largest adjustment the policy allows, as floating-point arithmetic rounds it, stays
  a score, and moves not at all unless an established signal of the strategy's own kind has enough
  samples and confidence.
\<close>

theorem learning_advisory:
  assumes "effective = (case policy of None \<Rightarrow> default_learning_policy | Some p \<Rightarrow> p)"
    and "0 \<le> lp_max_priority_adjustment effective"
    and "s' = apply_learning_to_strategy show_float s context policy"
  shows "s'\<lparr>st_priority_score := st_priority_score s, st_reasons := st_reasons s, st_evidence := st_evidence s\<rparr> = s
    \<and> prefix (st_reasons s) (st_reasons s')
    \<and> (\<forall>k. k \<noteq> ''learning'' \<longrightarrow> map_of (st_evidence s') k = map_of (st_evidence s) k)
    \<and> (st_priority_score s' = st_priority_score s
       \<or> (let most = round6 (lp_max_priority_adjustment effective); P = st_priority_score s
          in round6 (min (max (fadd P (- most)) 0) 1) \<le> st_priority_score s'
             \<and> st_priority_score s' \<le> round6 (min (max (fadd P most) 0) 1)
             \<and> unit_score (st_priority_score s')
             \<and> (\<exists>c sig. context = Some c \<and> sig \<in> set (lc_signals c) \<and> ls_maturity sig = ESTABLISHED
                  \<and> ls_strategy_type sig = st_strategy_type s \<and> lp_min_samples effective \<le> ls_sample_size sig
                  \<and> lp_min_confidence effective \<le> ls_confidence sig)))"
proof (cases "la_applied (calculate_learning_adjustment s context policy)")
  case False
  then show ?thesis unfolding assms(3)
    by (simp add: apply_learning_to_strategy_def Let_def map_of_dict_merge_other update_conv')
next
  case True
  obtain c sig where c: "context = Some c" "find_matching_signal s c effective = Some sig"
    using True by (auto simp: calculate_learning_adjustment_def assms(1) Let_def split: option.splits)
  have sig: "sig \<in> set (lc_signals c) \<and> ls_maturity sig = ESTABLISHED
      \<and> ls_strategy_type sig = st_strategy_type s \<and> lp_min_samples effective \<le> ls_sample_size sig
      \<and> lp_min_confidence effective \<le> ls_confidence sig"
    using c(2) by (auto simp: find_matching_signal_def dest: first_Some)
  define most where "most = round6 (lp_max_priority_adjustment effective)"
  define delta where "delta = la_adjustment (calculate_learning_adjustment s context policy)"
  have delta: "- most \<le> delta" "delta \<le> most"
    unfolding most_def delta_def by (rule adjustment_bounded [OF assms(1,2)])+
  have P: "st_priority_score s' = round6 (min (max (fadd (st_priority_score s) delta) 0) 1)"
    unfolding assms(3) by (simp add: apply_learning_to_strategy_def Let_def True delta_def)
  have "round6 (min (max (fadd (st_priority_score s) (- most)) 0) 1) \<le> st_priority_score s'"
    and "st_priority_score s' \<le> round6 (min (max (fadd (st_priority_score s) most) 0) 1)"
    unfolding P by (rule clamp_mono [OF fadd_mono], rule delta)+
  moreover have "unit_score (st_priority_score s')" unfolding P by (rule clamp_unit)
  moreover have "s'\<lparr>st_priority_score := st_priority_score s, st_reasons := st_reasons s, st_evidence := st_evidence s\<rparr> = s"
    "prefix (st_reasons s) (st_reasons s')"
    "\<forall>k. k \<noteq> ''learning'' \<longrightarrow> map_of (st_evidence s') k = map_of (st_evidence s) k"
    unfolding assms(3) by (simp_all add: apply_learning_to_strategy_def Let_def True update_conv')
  moreover have "\<exists>c sig. context = Some c \<and> sig \<in> set (lc_signals c) \<and> ls_maturity sig = ESTABLISHED
      \<and> ls_strategy_type sig = st_strategy_type s \<and> lp_min_samples effective \<le> ls_sample_size sig
      \<and> lp_min_confidence effective \<le> ls_confidence sig"
    by (intro exI [of _ c] exI [of _ sig] conjI) (simp_all add: c(1) sig)
  ultimately show ?thesis unfolding Let_def most_def [symmetric] by (intro conjI disjI2) assumption+
qed

lemma learning_advisory_witness:
  "unit_score (st_priority_score (apply_learning_to_strategy (\<lambda>x. []) taught_strategy taught_context taught_policy))
    \<and> st_priority_score taught_strategy
      < st_priority_score (apply_learning_to_strategy (\<lambda>x. []) taught_strategy taught_context taught_policy)"
proof -
  have "st_priority_score taught_strategy
      < st_priority_score (apply_learning_to_strategy (\<lambda>x. []) taught_strategy taught_context taught_policy)"
    by code_simp
  then show ?thesis
    using learning_advisory [OF refl _ refl, of taught_policy taught_strategy "\<lambda>x. []" taught_context]
    by (simp add: taught_policy_def Let_def)
qed

text \<open>
  What is learned does not depend on the order in which the events are read, nor on events
  read twice: two lists with the same events, in which an id names one event, give the same
  learning context, down to the rounding of its averages.
\<close>

theorem learning_order_independent:
  assumes "set es = set es'" and "inj_on fe_feedback_id (set es)" and "\<forall>e \<in> set es. same_event e e"
  shows "build_learning_context i es n = build_learning_context i es' n"
  by (rule learning_same [OF assms])

lemma learning_order_independent_witness:
  "build_learning_context ''c'' (rev taught_events @ taught_events) 2 = build_learning_context ''c'' taught_events 2"
  by (rule learning_order_independent) (auto simp: taught_events_def taught_event_def same_event_def)

end
