(* ===== verification/Decisions.thy ===== *)
theory Decisions
  imports Features Learning
begin

text \<open>
  From signals to an action, without effects: candidates and their queue
  (\<open>app/models/candidates.py\<close>, \<open>models/clusters.py\<close>, \<open>classifier/candidate_builder.py\<close>,
  \<open>classifier/clustering.py\<close>, \<open>classifier/queue.py\<close>), opportunities
  (\<open>opportunity/engine.py\<close>), strategies (\<open>strategy/engine.py\<close>) and the engine that composes
  them (\<open>models/evidence.py\<close>, \<open>models/decision.py\<close>, \<open>engine/decision.py\<close>). SHA-256 of a
  text, in hexadecimal, is an argument.
\<close>

section \<open>Candidates\<close>

datatype candidate_status = CAND_PASS | CAND_INVESTIGATE | CAND_REJECT

text \<open>\<open>CandidateStatus(classification.status.value)\<close>\<close>

fun candidate_status_of :: "classification_status \<Rightarrow> candidate_status" where
  "candidate_status_of CLASS_PASS = CAND_PASS"
| "candidate_status_of CLASS_INVESTIGATE = CAND_INVESTIGATE"
| "candidate_status_of CLASS_REJECT = CAND_REJECT"

record candidate =
  ca_candidate_id :: string
  ca_site_id :: string
  ca_normalized_url :: string
  ca_normalized_query :: string
  ca_status :: candidate_status
  ca_confidence :: rat
  ca_priority_score :: rat
  ca_signal_types :: "string list"
  ca_risk_types :: "string list"
  ca_reasons :: "string list"
  ca_snapshot :: snapshot

definition candidate_valid :: "candidate \<Rightarrow> bool" where
  "candidate_valid c \<longleftrightarrow> ca_candidate_id c \<noteq> [] \<and> ca_site_id c \<noteq> [] \<and> ca_normalized_url c \<noteq> []
     \<and> ca_normalized_query c \<noteq> [] \<and> unit_score (ca_confidence c) \<and> 0 \<le> ca_priority_score c"

definition candidate_priority_score :: "feature_set \<Rightarrow> signal list \<Rightarrow> rat \<Rightarrow> rat" where
  "candidate_priority_score f signals confidence =
     (let impression_factor = min (int_div (vo_current_impressions (fs_volume f)) 1000) 10;
          signal_factor = of_nat (min (length signals) 5)
      in fmul (fmul impression_factor signal_factor) confidence)"

definition detected_types :: "signal list \<Rightarrow> string list" where
  "detected_types signals = map (\<lambda>s. signal_type_value (sg_signal_type s)) (filter sg_detected signals)"

definition detected_risks :: "signal list \<Rightarrow> string list" where
  "detected_risks signals =
     filter (\<lambda>v. sublist ''_UNDER_'' v) (map (\<lambda>s. signal_type_value (sg_signal_type s)) (filter sg_detected signals))"

definition build_candidate ::
  "string \<Rightarrow> string \<Rightarrow> string \<Rightarrow> string \<Rightarrow> feature_set \<Rightarrow> signal list \<Rightarrow> classification \<Rightarrow> snapshot
    \<Rightarrow> exn + candidate" where
  "build_candidate candidate_id site url query f signals cl snap =
     (let c = \<lparr>ca_candidate_id = candidate_id, ca_site_id = site, ca_normalized_url = url,
               ca_normalized_query = query, ca_status = candidate_status_of (cl_status cl),
               ca_confidence = cl_confidence cl,
               ca_priority_score = candidate_priority_score f (filter sg_detected signals) (cl_confidence cl),
               ca_signal_types = detected_types signals, ca_risk_types = detected_risks signals,
               ca_reasons = cl_reasons cl, ca_snapshot = snap\<rparr>
      in if candidate_valid c then Inr c else Inl (Exn ValidationError ''Candidate''))"

section \<open>Clusters\<close>

record cluster =
  cu_cluster_id :: string
  cu_fingerprint :: string
  cu_candidate_ids :: "string list"
  cu_candidate_count :: int
  cu_representative_priority_score :: rat

definition cluster_valid :: "cluster \<Rightarrow> bool" where
  "cluster_valid c \<longleftrightarrow> cu_cluster_id c \<noteq> [] \<and> cu_fingerprint c \<noteq> [] \<and> cu_candidate_ids c \<noteq> []
     \<and> 1 \<le> cu_candidate_count c \<and> 0 \<le> cu_representative_priority_score c"

definition candidate_fingerprint :: "(string \<Rightarrow> string) \<Rightarrow> candidate \<Rightarrow> string" where
  "candidate_fingerprint sha c =
     sha (py_join ''|'' (sort (ca_signal_types c) @ [''--RISKS--''] @ sort (ca_risk_types c)))"

definition group_candidate ::
  "(string \<Rightarrow> string) \<Rightarrow> (string \<times> candidate list) list \<Rightarrow> candidate \<Rightarrow> (string \<times> candidate list) list" where
  "group_candidate sha gs c =
     (let k = candidate_fingerprint sha c;
          members = (case map_of gs k of None \<Rightarrow> [] | Some cs \<Rightarrow> cs)
      in AList.update k (members @ [c]) gs)"

text \<open>\<open>max(members, key=priority_score)\<close>: the first of the largest.\<close>

definition best_candidate :: "candidate list \<Rightarrow> candidate" where
  "best_candidate cs =
     foldl (\<lambda>b c. if ca_priority_score b < ca_priority_score c then c else b) (hd cs) (tl cs)"

definition new_cluster :: "string \<times> candidate list \<Rightarrow> exn + cluster" where
  "new_cluster g =
     (let c = \<lparr>cu_cluster_id = ''cluster-'' @ take 16 (fst g), cu_fingerprint = fst g,
               cu_candidate_ids = map ca_candidate_id (snd g), cu_candidate_count = int (length (snd g)),
               cu_representative_priority_score = ca_priority_score (best_candidate (snd g))\<rparr>
      in if cluster_valid c then Inr c else Inl (Exn ValidationError ''CandidateCluster''))"

definition cluster_candidates :: "(string \<Rightarrow> string) \<Rightarrow> candidate list \<Rightarrow> exn + cluster list" where
  "cluster_candidates sha candidates =
     and_maybe (collect new_cluster (foldl (group_candidate sha) [] candidates)) (\<lambda>clusters.
       Inr (sort_desc cu_representative_priority_score clusters))"

type_synonym candidate_identity = "string \<times> string \<times> string"

definition candidate_key :: "candidate \<Rightarrow> candidate_identity" where
  "candidate_key c = (ca_site_id c, ca_normalized_url c, ca_normalized_query c)"

definition keep_better :: "(candidate_identity \<times> candidate) list \<Rightarrow> candidate \<Rightarrow> (candidate_identity \<times> candidate) list" where
  "keep_better gs c = (case map_of gs (candidate_key c) of
     None \<Rightarrow> AList.update (candidate_key c) c gs
   | Some old \<Rightarrow> if ca_priority_score old < ca_priority_score c
       then AList.update (candidate_key c) c gs else gs)"

definition deduplicate_candidates :: "candidate list \<Rightarrow> candidate list" where
  "deduplicate_candidates candidates = sort_desc ca_priority_score (map snd (foldl keep_better [] candidates))"

section \<open>The investigation queue\<close>

text \<open>\<open>xs[:n]\<close>\<close>

definition py_prefix :: "int \<Rightarrow> 'a list \<Rightarrow> 'a list" where
  "py_prefix n xs = (if 0 \<le> n then take (nat n) xs else take (length xs - nat (- n)) xs)"

definition cluster_of_candidate :: "cluster list \<Rightarrow> (string \<times> string) list" where
  "cluster_of_candidate clusters =
     foldl (\<lambda>m (i, k). AList.update i k m) []
       (concat (map (\<lambda>c. map (\<lambda>i. (i, cu_cluster_id c)) (cu_candidate_ids c)) clusters))"

text \<open>The loop over the eligible candidates: the counts of the clusters and the queue so far.\<close>

fun fill_queue ::
  "int \<Rightarrow> int \<Rightarrow> (string \<times> string) list \<Rightarrow> (string \<times> int) list \<Rightarrow> candidate list \<Rightarrow> candidate list
    \<Rightarrow> candidate list" where
  "fill_queue max_candidates max_per_cluster clusters counts queue [] = queue"
| "fill_queue max_candidates max_per_cluster clusters counts queue (c # cs) =
     (if max_candidates \<le> int (length queue) then queue
      else case map_of clusters (ca_candidate_id c) of
          None \<Rightarrow> fill_queue max_candidates max_per_cluster clusters counts (queue @ [c]) cs
        | Some k \<Rightarrow>
          let current = (case map_of counts k of None \<Rightarrow> 0 | Some n \<Rightarrow> n)
          in if max_per_cluster \<le> current
             then fill_queue max_candidates max_per_cluster clusters counts queue cs
             else fill_queue max_candidates max_per_cluster clusters
                    (AList.update k (current + 1) counts) (queue @ [c]) cs)"

definition eligible_candidates :: "candidate list \<Rightarrow> candidate list" where
  "eligible_candidates candidates =
     sort_key (\<lambda>c. (- ca_priority_score c, - ca_confidence c)) (filter (\<lambda>c. ca_status c = CAND_INVESTIGATE) candidates)"

definition build_investigation_queue ::
  "candidate list \<Rightarrow> int \<Rightarrow> int \<Rightarrow> cluster list option \<Rightarrow> candidate list" where
  "build_investigation_queue candidates max_candidates max_per_cluster clusters =
     (case clusters of
        None \<Rightarrow> py_prefix max_candidates (eligible_candidates candidates)
      | Some cs \<Rightarrow> fill_queue max_candidates max_per_cluster (cluster_of_candidate cs) [] []
          (eligible_candidates candidates))"

section \<open>Opportunities\<close>

definition opportunity_valid :: "opportunity \<Rightarrow> bool" where
  "opportunity_valid p \<longleftrightarrow> unit_score (op_impact_score p) \<and> unit_score (op_confidence_score p)
     \<and> unit_score (op_business_value_score p) \<and> unit_score (op_traffic_potential_score p)
     \<and> unit_score (op_effort_score p) \<and> unit_score (op_risk_score p) \<and> unit_score (op_priority_score p)"

definition resolve_opportunity_type :: "string list \<Rightarrow> opportunity_type" where
  "resolve_opportunity_type signal_types =
     (let has_ctr = signal_type_value CTR_DROP \<in> set signal_types;
          has_position = signal_type_value POSITION_DECLINE \<in> set signal_types;
          has_high_value = signal_type_value HIGH_VALUE_OPPORTUNITY \<in> set signal_types
      in if has_ctr \<and> has_position then MIXED_RECOVERY
         else if has_ctr then CTR_RECOVERY
         else if has_position then POSITION_RECOVERY
         else if has_high_value then VISIBILITY_GROWTH
         else VISIBILITY_GROWTH)"

definition impact_score :: "feature_set \<Rightarrow> rat" where
  "impact_score f = min (int_div (vo_current_impressions (fs_volume f)) 5000) 1"

definition business_value_score :: "feature_set \<Rightarrow> rat" where
  "business_value_score f = min (int_div (vo_current_clicks (fs_volume f)) 500) 1"

definition traffic_potential_score :: "feature_set \<Rightarrow> rat" where
  "traffic_potential_score f =
     (let position = po_current_median (fs_position f)
      in if position \<le> 3 then decimal 35 2
         else if position \<le> 10 then 1
         else if position \<le> 20 then decimal 7 1 else decimal 3 1)"

fun effort_score :: "opportunity_type \<Rightarrow> rat" where
  "effort_score CTR_RECOVERY = decimal 3 1"
| "effort_score POSITION_RECOVERY = decimal 6 1"
| "effort_score VISIBILITY_GROWTH = decimal 4 1"
| "effort_score MIXED_RECOVERY = decimal 7 1"

definition risk_score :: "string list \<Rightarrow> rat" where
  "risk_score risk_types = min (fmul (of_nat (length risk_types)) (1 / 4)) 1"

definition opportunity_priority_score :: "rat \<Rightarrow> rat \<Rightarrow> rat \<Rightarrow> rat \<Rightarrow> rat \<Rightarrow> rat \<Rightarrow> rat" where
  "opportunity_priority_score impact confidence business traffic effort risk =
     (let score = fadd (fadd (fadd (fadd (fadd
            (fmul (decimal 30 2) impact)
            (fmul (decimal 20 2) confidence))
            (fmul (decimal 15 2) business))
            (fmul (decimal 15 2) traffic))
            (fmul (decimal 10 2) (fsub 1 effort)))
            (fmul (decimal 10 2) (fsub 1 risk))
      in round6 (min (max score 0) 1))"

definition build_opportunity ::
  "numerics \<Rightarrow> string \<Rightarrow> string \<Rightarrow> string \<Rightarrow> string \<Rightarrow> string \<Rightarrow> feature_set \<Rightarrow> signal list
    \<Rightarrow> classification_status \<Rightarrow> rat \<Rightarrow> snapshot \<Rightarrow> exn + opportunity option" where
  "build_opportunity N opportunity_id candidate_id site url query f signals st confidence snap =
     (let signal_types = detected_types signals;
          risk_types = detected_risks signals;
          ty = resolve_opportunity_type signal_types;
          impact = impact_score f;
          business = business_value_score f;
          traffic = traffic_potential_score f;
          effort = effort_score ty;
          risk = risk_score risk_types;
          priority = opportunity_priority_score impact confidence business traffic effort risk;
          p = \<lparr>op_opportunity_id = opportunity_id, op_candidate_id = candidate_id, op_site_id = site,
               op_normalized_url = url, op_normalized_query = query, op_type = ty, op_status = QUALIFIED,
               op_impact_score = impact, op_confidence_score = confidence,
               op_business_value_score = business, op_traffic_potential_score = traffic,
               op_effort_score = effort, op_risk_score = risk, op_priority_score = priority,
               op_signal_types = signal_types, op_risk_types = risk_types,
               op_reasons = [''signals='' @ py_join '','' signal_types, ''priority_score='' @ nu_repr N priority],
               op_evidence =
                 [(''current_impressions'', PInt (vo_current_impressions (fs_volume f))),
                  (''current_clicks'', PInt (vo_current_clicks (fs_volume f))),
                  (''current_ctr'', PFloat (ct_current_ctr (fs_ctr f))),
                  (''ctr_delta'', PFloat (ct_absolute_delta (fs_ctr f))),
                  (''current_position'', PFloat (po_current_median (fs_position f))),
                  (''position_delta'', PFloat (po_delta (fs_position f))),
                  (''query_visibility_share'', PFloat (vi_query_visibility_share (fs_visibility f)))],
               op_snapshot = snap\<rparr>
      in if st \<noteq> CLASS_INVESTIGATE then Inr None
         else if signal_types = [] then Inr None
         else if opportunity_valid p then Inr (Some p)
         else Inl (Exn ValidationError ''Opportunity''))"

section \<open>Strategies\<close>

definition recommend_strategy_type :: "opportunity \<Rightarrow> strategy_type" where
  "recommend_strategy_type p =
     (let volatile = (signal_type_value POSITION_DECLINE_UNDER_VOLATILITY \<in> set (op_signal_types p))
      in case op_type p of
           CTR_RECOVERY \<Rightarrow> SERP_TITLE_OPTIMIZATION
         | POSITION_RECOVERY \<Rightarrow> if volatile then MONITOR_ONLY else INTERNAL_LINKING
         | MIXED_RECOVERY \<Rightarrow> if volatile then CANNIBALIZATION_INVESTIGATION else SERP_TITLE_OPTIMIZATION
         | VISIBILITY_GROWTH \<Rightarrow> CONTENT_DEPTH_IMPROVEMENT)"

text \<open>The three tables have no entry for \<open>META_DESCRIPTION_OPTIMIZATION\<close>.\<close>

fun strategy_effort :: "strategy_type \<Rightarrow> exn + rat" where
  "strategy_effort SERP_TITLE_OPTIMIZATION = Inr (1 / 4)"
| "strategy_effort CANNIBALIZATION_INVESTIGATION = Inr (decimal 60 2)"
| "strategy_effort INTERNAL_LINKING = Inr (decimal 45 2)"
| "strategy_effort CONTENT_DEPTH_IMPROVEMENT = Inr (decimal 70 2)"
| "strategy_effort MONITOR_ONLY = Inr (decimal 5 2)"
| "strategy_effort META_DESCRIPTION_OPTIMIZATION = Inl (Exn KeyError ''StrategyType'')"

fun strategy_risk :: "strategy_type \<Rightarrow> exn + rat" where
  "strategy_risk SERP_TITLE_OPTIMIZATION = Inr (decimal 30 2)"
| "strategy_risk CANNIBALIZATION_INVESTIGATION = Inr (decimal 20 2)"
| "strategy_risk INTERNAL_LINKING = Inr (decimal 35 2)"
| "strategy_risk CONTENT_DEPTH_IMPROVEMENT = Inr (decimal 45 2)"
| "strategy_risk MONITOR_ONLY = Inr (decimal 5 2)"
| "strategy_risk META_DESCRIPTION_OPTIMIZATION = Inl (Exn KeyError ''StrategyType'')"

fun impact_multiplier :: "strategy_type \<Rightarrow> exn + rat" where
  "impact_multiplier SERP_TITLE_OPTIMIZATION = Inr (decimal 95 2)"
| "impact_multiplier CANNIBALIZATION_INVESTIGATION = Inr (decimal 80 2)"
| "impact_multiplier INTERNAL_LINKING = Inr (3 / 4)"
| "impact_multiplier CONTENT_DEPTH_IMPROVEMENT = Inr (decimal 70 2)"
| "impact_multiplier MONITOR_ONLY = Inr (decimal 20 2)"
| "impact_multiplier META_DESCRIPTION_OPTIMIZATION = Inl (Exn KeyError ''StrategyType'')"

definition expected_impact :: "opportunity \<Rightarrow> strategy_type \<Rightarrow> exn + rat" where
  "expected_impact p ty = and_maybe (impact_multiplier ty) (\<lambda>m. Inr (round6 (min (fmul (op_impact_score p) m) 1)))"

definition strategy_priority_score :: "rat \<Rightarrow> rat \<Rightarrow> rat \<Rightarrow> rat \<Rightarrow> rat" where
  "strategy_priority_score promised confidence effort risk =
     (let score = fadd (fadd (fadd
            (fmul (decimal 40 2) promised)
            (fmul (decimal 35 2) confidence))
            (fmul (decimal 15 2) (fsub 1 effort)))
            (fmul (decimal 10 2) (fsub 1 risk))
      in round6 (min (max score 0) 1))"

fun opportunity_type_value :: "opportunity_type \<Rightarrow> string" where
  "opportunity_type_value CTR_RECOVERY = ''ctr_recovery''"
| "opportunity_type_value POSITION_RECOVERY = ''position_recovery''"
| "opportunity_type_value VISIBILITY_GROWTH = ''visibility_growth''"
| "opportunity_type_value MIXED_RECOVERY = ''mixed_recovery''"

definition build_strategy :: "numerics \<Rightarrow> string \<Rightarrow> opportunity \<Rightarrow> exn + strategy option" where
  "build_strategy N strategy_id p =
     (if op_status p \<noteq> QUALIFIED then Inr None
      else let ty = recommend_strategy_type p in
        and_maybe (strategy_effort ty) (\<lambda>effort.
        and_maybe (strategy_risk ty) (\<lambda>risk.
        and_maybe (expected_impact p ty) (\<lambda>promised.
          let confidence = round6 (op_confidence_score p);
              priority = strategy_priority_score promised confidence effort risk;
              s = \<lparr>st_strategy_id = strategy_id, st_opportunity_id = op_opportunity_id p,
                   st_site_id = op_site_id p, st_normalized_url = op_normalized_url p,
                   st_normalized_query = op_normalized_query p, st_opportunity_type = op_type p,
                   st_strategy_type = ty, st_status = RECOMMENDED, st_confidence_score = confidence,
                   st_expected_impact_score = promised, st_effort_score = effort, st_risk_score = risk,
                   st_priority_score = priority,
                   st_reasons = [''opportunity_type='' @ opportunity_type_value (op_type p),
                     ''strategy_type='' @ strategy_type_value ty, ''priority_score='' @ nu_repr N priority],
                   st_evidence =
                     [(''opportunity_priority_score'', PFloat (op_priority_score p)),
                      (''opportunity_impact_score'', PFloat (op_impact_score p)),
                      (''opportunity_confidence_score'', PFloat (op_confidence_score p)),
                      (''opportunity_risk_score'', PFloat (op_risk_score p)),
                      (''signal_types'', PList (map PStr (op_signal_types p))),
                      (''risk_types'', PList (map PStr (op_risk_types p)))],
                   st_snapshot = op_snapshot p\<rparr>
          in if strategy_valid s then Inr (Some s) else Inl (Exn ValidationError ''Strategy'')))))"

section \<open>The decision engine\<close>

record decision_evidence =
  de_site_id :: string
  de_normalized_url :: string
  de_normalized_query :: string
  de_baseline_observations :: "observation list"
  de_current_observations :: "observation list"
  de_baseline_url_metrics :: "url_metric list"
  de_current_url_metrics :: "url_metric list"
  de_baseline_daily_status :: "(day \<times> data_status) list"
  de_current_daily_status :: "(day \<times> data_status) list"
  de_reconciliation :: reconciliation_result
  de_snapshot :: snapshot

record decision_result =
  dr_features :: feature_set
  dr_signals :: "signal list"
  dr_classification :: classification
  dr_candidate :: "candidate option"
  dr_opportunity :: "opportunity option"
  dr_strategy :: "strategy option"
  dr_action :: "action option"
  dr_investigation_queue :: "candidate list"
  dr_learning_context :: "learning_context option"

text \<open>\<open>f(x) if x is not None else None\<close>, where the call may raise.\<close>

definition when_some :: "'a option \<Rightarrow> ('a \<Rightarrow> exn + 'b option) \<Rightarrow> exn + 'b option" where
  "when_some x f = (case x of None \<Rightarrow> Inr None | Some y \<Rightarrow> f y)"

definition evidence_features :: "numerics \<Rightarrow> decision_evidence \<Rightarrow> exn + feature_set" where
  "evidence_features N e = extract_feature_set N (de_baseline_observations e) (de_current_observations e)
     (de_baseline_url_metrics e) (de_current_url_metrics e)
     (calculate_reconciliation_completeness (de_reconciliation e))
     (Some (calculate_window_completeness (de_current_daily_status e)))
     (Some (calculate_window_completeness (de_baseline_daily_status e)))"

definition decide ::
  "numerics \<Rightarrow> decision_evidence \<Rightarrow> string \<Rightarrow> learning_context option \<Rightarrow> feature_set \<Rightarrow> signal list
    \<Rightarrow> exn + decision_result" where
  "decide N e candidate_id learning f signals =
     and_maybe (classify_signals signals (1 / 2) (Some (fs_data_quality f))) (\<lambda>cl.
     and_maybe (build_candidate candidate_id (de_site_id e) (de_normalized_url e) (de_normalized_query e)
        f signals cl (de_snapshot e)) (\<lambda>cand.
     and_maybe (build_opportunity N (''opportunity-'' @ candidate_id) candidate_id (de_site_id e)
        (de_normalized_url e) (de_normalized_query e) f signals (cl_status cl) (cl_confidence cl)
        (de_snapshot e)) (\<lambda>opportunity.
     and_maybe (when_some opportunity (build_strategy N (''strategy-'' @ candidate_id))) (\<lambda>recommended.
       let strategy = map_option (\<lambda>s. apply_learning_to_strategy (nu_repr N) s learning None) recommended in
     and_maybe (when_some strategy (\<lambda>s. and_maybe (build_action s (''action-'' @ candidate_id)) (\<lambda>a. Inr (Some a))))
       (\<lambda>planned.
       Inr \<lparr>dr_features = f, dr_signals = signals, dr_classification = cl, dr_candidate = Some cand,
            dr_opportunity = opportunity, dr_strategy = strategy, dr_action = planned,
            dr_investigation_queue = build_investigation_queue [cand] 50 5 None,
            dr_learning_context = learning\<rparr>)))))"

definition run_decision_engine ::
  "numerics \<Rightarrow> decision_evidence \<Rightarrow> string \<Rightarrow> learning_context option \<Rightarrow> exn + decision_result" where
  "run_decision_engine N e candidate_id learning =
     and_maybe (evidence_features N e) (\<lambda>f.
       if \<not> passes_data_quality_gate (fs_data_quality f)
       then and_maybe (classify_signals [] (1 / 2) (Some (fs_data_quality f))) (\<lambda>cl.
         Inr \<lparr>dr_features = f, dr_signals = [], dr_classification = cl, dr_candidate = None,
              dr_opportunity = None, dr_strategy = None, dr_action = None,
              dr_investigation_queue = [], dr_learning_context = learning\<rparr>)
       else and_maybe (detect_all_signals f) (decide N e candidate_id learning f))"

end
