(* ===== verification/Decision_Facts.thy ===== *)
theory Decision_Facts
  imports Decisions
begin

text \<open>
  What the decision engine guarantees of its records: on valid observations every constructor's
  constraints hold, step by step, so no step raises; and what the presence of an action says
  about the evidence. The only thing assumed of numpy's median is that it lies between the
  smallest and the largest of its values (\<open>median_law\<close>).
\<close>

definition median_law :: "numerics \<Rightarrow> bool" where
  "median_law N \<longleftrightarrow> (\<forall>xs lo hi. xs \<noteq> [] \<and> (\<forall>x \<in> set xs. lo \<le> x \<and> x \<le> hi)
     \<longrightarrow> lo \<le> nu_median N xs \<and> nu_median N xs \<le> hi)"

named_theorems unit_rules \<open>scores between zero and one\<close>

section \<open>Features\<close>

lemma unit_0 [simp]: "unit_score 0" and unit_1 [simp]: "unit_score 1"
  by (simp_all add: unit_score_def)

lemma unit_min_1 [unit_rules]: "0 \<le> x \<Longrightarrow> unit_score (min 1 x)" "0 \<le> x \<Longrightarrow> unit_score (min x 1)"
  by (simp_all add: unit_score_def)

lemma unit_min [unit_rules]: "unit_score x \<Longrightarrow> unit_score y \<Longrightarrow> unit_score (min x y)"
  by (auto simp: unit_score_def min_def)

lemma unit_fmul [unit_rules]: "unit_score a \<Longrightarrow> unit_score b \<Longrightarrow> unit_score (fmul a b)"
  by (simp add: unit_score_def fmul_unit)

lemma unit_round6 [unit_rules]: "unit_score x \<Longrightarrow> unit_score (round6 x)"
  by (simp add: unit_score_def round6_nonneg round6_le_1)

lemma unit_decimal: "0 \<le> n \<Longrightarrow> n \<le> 10 ^ k \<Longrightarrow> unit_score (decimal n k)"
proof -
  assume n: "0 \<le> n" "n \<le> 10 ^ k"
  then have "(of_int n :: rat) \<le> of_int (10 ^ k)" by (simp only: of_int_le_iff)
  then have "0 \<le> (of_int n / 10 ^ k :: rat)" "of_int n / 10 ^ k \<le> (1 :: rat)" using n by simp_all
  then show ?thesis unfolding decimal_def unit_score_def by (intro conjI fl_nonneg fl_le_1)
qed

lemma unit_decimals [simp]:
  "unit_score (decimal 8 1)" "unit_score (decimal 35 2)" "unit_score (decimal 7 1)" "unit_score (decimal 3 1)"
  "unit_score (decimal 6 1)" "unit_score (decimal 4 1)" "unit_score (decimal 60 2)" "unit_score (decimal 45 2)"
  "unit_score (decimal 70 2)" "unit_score (decimal 5 2)" "unit_score (decimal 30 2)" "unit_score (decimal 20 2)"
  "unit_score (decimal 95 2)" "unit_score (decimal 80 2)" "unit_score (1 / 4)" "unit_score (3 / 4)"
  by (rule unit_decimal; simp)+ (simp_all add: unit_score_def)

lemmas unit_decimals_Suc [simp] = unit_decimals [unfolded One_nat_def]

lemma unit_completeness [unit_rules]: "unit_score (calculate_completeness sts)"
  by (auto simp: calculate_completeness_def unit_score_def int_div_nonneg intro!: int_div_le_1)

lemma unit_window_completeness [unit_rules]: "unit_score (calculate_window_completeness sts)"
  by (simp add: calculate_window_completeness_def unit_completeness)

lemma unit_reconciliation [unit_rules]: "unit_score (calculate_reconciliation_completeness r)"
proof -
  define a where "a = reconciliation_score (rr_impression_status r)"
  define b where "b = reconciliation_score (rr_click_status r)"
  have "0 \<le> reconciliation_score st \<and> reconciliation_score st \<le> 1" for st by (cases st) simp_all
  then have "0 \<le> a + b" "a + b \<le> 2" unfolding a_def b_def by (metis add_nonneg_nonneg, metis add_mono one_add_one)
  moreover have "fl 2 = 2" by code_simp
  ultimately have "0 \<le> fadd a b" "fadd a b \<le> 2"
    unfolding fadd_def using fl_nonneg fl_mono [of "a + b" 2] by simp_all
  then show ?thesis
    unfolding calculate_reconciliation_completeness_def a_def [symmetric] b_def [symmetric] fdiv_def unit_score_def
    by (intro conjI fl_nonneg fl_le_1) simp_all
qed

lemma observation_nonneg: "observation_valid x \<Longrightarrow> 0 \<le> ob_clicks x" "observation_valid x \<Longrightarrow> 0 \<le> ob_impressions x"
  by (simp_all add: observation_valid_def)

lemma sum_clicks_le:
  "\<forall>x \<in> set obs. observation_valid x \<Longrightarrow> (\<Sum>x\<leftarrow>obs. ob_clicks x) \<le> (\<Sum>x\<leftarrow>obs. ob_impressions x)"
  by (intro sum_list_mono) (simp add: observation_valid_def)

lemma sum_observed_nonneg:
  assumes "\<forall>x \<in> set obs. observation_valid x"
  shows "0 \<le> (\<Sum>x\<leftarrow>obs. ob_clicks x)" and "0 \<le> (\<Sum>x\<leftarrow>obs. ob_impressions x)"
  using assms by (auto intro!: sum_list_nonneg observation_nonneg)

lemma unit_ctr [unit_rules]:
  assumes "\<forall>x \<in> set obs. observation_valid x"
  shows "unit_score (calculate_ctr obs)"
proof -
  have ok: "\<forall>x \<in> set (usable_observations obs). observation_valid x"
    using assms by (simp add: usable_observations_def)
  show ?thesis using sum_clicks_le [OF ok] sum_observed_nonneg [OF ok]
    by (auto simp: calculate_ctr_def Let_def unit_score_def int_div_nonneg int_div_le_1)
qed

lemma valid_positions_nonneg: "\<forall>x \<in> set obs. observation_valid x \<Longrightarrow> p \<in> set (valid_positions obs) \<Longrightarrow> 0 \<le> p"
  by (fastforce simp: valid_positions_def List.map_filter_def observation_valid_def position_valid_def
      split: if_splits)

lemma median_nonneg:
  assumes "median_law N" and "xs \<noteq> []" and "\<forall>x \<in> set xs. 0 \<le> x"
  shows "0 \<le> nu_median N xs"
proof -
  have "\<forall>x \<in> set xs. 0 \<le> x \<and> x \<le> Max (set xs)" using assms(3) by simp
  then show ?thesis using assms(1,2) unfolding median_law_def by blast
qed

lemma median_position_nonneg:
  "median_law N \<Longrightarrow> \<forall>x \<in> set obs. observation_valid x \<Longrightarrow> 0 \<le> calculate_median_position N obs"
  using valid_positions_nonneg by (auto simp: calculate_median_position_def Let_def intro!: median_nonneg)

lemma mad_nonneg: "median_law N \<Longrightarrow> 0 \<le> calculate_mad N obs"
  by (auto simp: calculate_mad_def Let_def intro!: median_nonneg)

lemma metrics_nonneg: "\<forall>m \<in> set ms. url_metric_valid m \<Longrightarrow> 0 \<le> (\<Sum>m\<leftarrow>ms. um_total_impressions m)"
  by (auto intro!: sum_list_nonneg simp: url_metric_valid_def)

lemma extract_feature_set_ok:
  assumes law: "median_law N"
    and b: "\<forall>x \<in> set bs. observation_valid x" and c: "\<forall>x \<in> set cs. observation_valid x"
    and m: "\<forall>m \<in> set cms. url_metric_valid m"
    and share: "(\<Sum>x\<leftarrow>cs. ob_impressions x) \<le> (\<Sum>m\<leftarrow>cms. um_total_impressions m)"
    and scores: "unit_score r" "unit_score cw" "unit_score bw"
  obtains f where "extract_feature_set N bs cs bms cms r (Some cw) (Some bw) = Inr f" and "feature_set_valid f"
    and "dq_current_window_completeness (fs_data_quality f) = cw"
    and "dq_baseline_window_completeness (fs_data_quality f) = bw"
    and "dq_reconciliation_completeness (fs_data_quality f) = r"
    and "ct_baseline_ctr_zero (fs_ctr f) \<longleftrightarrow> ct_baseline_ctr (fs_ctr f) = 0"
proof -
  define total where "total = (\<Sum>m\<leftarrow>cms. um_total_impressions m)"
  have share_unit: "unit_score (if 0 < total then int_div (\<Sum>x\<leftarrow>cs. ob_impressions x) total else 0)"
    using sum_observed_nonneg(2) [OF c] share metrics_nonneg [OF m]
    unfolding total_def unit_score_def by (simp add: int_div_nonneg int_div_le_1)
  note N = median_position_nonneg [OF law b] median_position_nonneg [OF law c] mad_nonneg [OF law, of cs]
  have trend: "classify_trend x t \<in> {''improving'', ''stable'', ''declining''}" for x t
    by (simp add: classify_trend_def)
  define f where "f = \<lparr>fs_volume = \<lparr>vo_current_impressions = (\<Sum>x\<leftarrow>cs. ob_impressions x), vo_current_clicks = (\<Sum>x\<leftarrow>cs. ob_clicks x),
        vo_baseline_impressions = (\<Sum>x\<leftarrow>bs. ob_impressions x), vo_baseline_clicks = (\<Sum>x\<leftarrow>bs. ob_clicks x)\<rparr>,
     fs_ctr = \<lparr>ct_baseline_ctr = calculate_ctr bs, ct_current_ctr = calculate_ctr cs,
        ct_absolute_delta = calculate_ctr_delta (calculate_ctr bs) (calculate_ctr cs),
        ct_relative_change = calculate_relative_ctr_change (calculate_ctr bs) (calculate_ctr cs),
        ct_baseline_ctr_zero = (calculate_ctr bs = 0)\<rparr>,
     fs_position = \<lparr>po_baseline_median = calculate_median_position N bs,
        po_current_median = calculate_median_position N cs,
        po_delta = calculate_position_delta (calculate_median_position N bs) (calculate_median_position N cs),
        po_mad_current = calculate_mad N cs, po_trend_slope = calculate_trend_slope N cs,
        po_trend_direction = classify_trend (calculate_trend_slope N cs) (decimal 5 2)\<rparr>,
     fs_visibility = \<lparr>vi_query_impressions = (\<Sum>x\<leftarrow>cs. ob_impressions x), vi_url_total_impressions = total,
        vi_query_visibility_share = (if 0 < total then int_div (\<Sum>x\<leftarrow>cs. ob_impressions x) total else 0)\<rparr>,
     fs_data_quality = \<lparr>dq_url_level_completeness = calculate_completeness (map um_data_status cms),
        dq_query_level_completeness = calculate_completeness (map ob_data_status cs),
        dq_current_window_completeness = cw, dq_baseline_window_completeness = bw,
        dq_reconciliation_completeness = r\<rparr>\<rparr>"
  have valid: "feature_set_valid f"
    using sum_observed_nonneg [OF b] sum_observed_nonneg [OF c] metrics_nonneg [OF m] share_unit N trend scores
      unit_ctr [OF b] unit_ctr [OF c] unit_completeness
    by (simp add: f_def feature_set_valid_def volume_valid_def ctr_valid_def position_features_valid_def
        visibility_valid_def data_quality_valid_def total_def)
  have "extract_feature_set N bs cs bms cms r (Some cw) (Some bw)
      = (if feature_set_valid f then Inr f else Inl (Exn ValidationError ''FeatureSet''))"
    by (simp add: extract_feature_set_def Let_def f_def total_def)
  then show thesis using that [OF _ valid] valid by (simp add: f_def)
qed

section \<open>Signals and classification\<close>

definition signal_ok :: "signal \<Rightarrow> bool" where
  "signal_ok s \<longleftrightarrow> unit_score (sg_confidence s)"

lemma new_signal_Inr: "new_signal ty d sv c ev = Inr s \<longleftrightarrow> unit_score c
    \<and> s = \<lparr>sg_signal_type = ty, sg_detected = d, sg_severity = sv, sg_confidence = c, sg_evidence = ev\<rparr>"
  by (auto simp: new_signal_def)

lemma undetected_Inr: "undetected ty ev reason = Inr s \<longleftrightarrow>
    s = \<lparr>sg_signal_type = ty, sg_detected = False, sg_severity = INFO, sg_confidence = 0,
         sg_evidence = dict_merge ev [(''reason'', PStr reason)]\<rparr>"
  by (simp add: undetected_def new_signal_Inr)

lemma unit_window_confidence: "feature_set_valid f \<Longrightarrow> unit_score (window_confidence f)"
  unfolding window_confidence_def
  by (intro unit_rules unit_1) (simp_all add: feature_set_valid_def data_quality_valid_def)

text \<open>A detector answers with a signal of its type, which is detected exactly when its condition holds.\<close>

definition answers :: "exn + signal \<Rightarrow> signal_type \<Rightarrow> bool \<Rightarrow> bool" where
  "answers r ty cond \<longleftrightarrow> (\<exists>s. r = Inr s \<and> sg_signal_type s = ty \<and> signal_ok s \<and> (sg_detected s \<longleftrightarrow> cond))"

definition ctr_dropped :: "feature_set \<Rightarrow> bool" where
  "ctr_dropped f \<longleftrightarrow> ct_baseline_ctr (fs_ctr f) \<noteq> 0 \<and> \<not> window_incomplete f (decimal 8 1)
     \<and> ct_absolute_delta (fs_ctr f) \<le> - decimal 2 2"

definition position_declined :: "feature_set \<Rightarrow> bool" where
  "position_declined f \<longleftrightarrow> \<not> window_incomplete f (decimal 8 1) \<and> 3 / 2 \<le> po_delta (fs_position f)"

definition worth_more :: "feature_set \<Rightarrow> bool" where
  "worth_more f \<longleftrightarrow> \<not> window_incomplete f (decimal 8 1) \<and> 100 \<le> vo_current_impressions (fs_volume f)
     \<and> 4 \<le> po_current_median (fs_position f) \<and> po_current_median (fs_position f) \<le> 20
     \<and> ct_current_ctr (fs_ctr f) \<le> decimal 8 2"

definition volatile :: "feature_set \<Rightarrow> bool" where
  "volatile f \<longleftrightarrow> \<not> window_incomplete f (decimal 8 1) \<and> 3 / 2 \<le> po_mad_current (fs_position f)"

lemma undetected_answers: "\<not> cond \<Longrightarrow> answers (undetected ty ev reason) ty cond"
  by (simp add: answers_def undetected_def new_signal_def signal_ok_def)

lemma detected_answers: "cond \<Longrightarrow> unit_score c \<Longrightarrow> answers (new_signal ty True sv c ev) ty cond"
  by (simp add: answers_def new_signal_def signal_ok_def)

lemma detectors_answer:
  assumes "feature_set_valid f" and "ct_baseline_ctr_zero (fs_ctr f) \<longleftrightarrow> ct_baseline_ctr (fs_ctr f) = 0"
  shows "answers (detect_ctr_drop (decimal 2 2) (decimal 5 2) (decimal 8 1) f) CTR_DROP (ctr_dropped f)"
    and "answers (detect_position_decline (3 / 2) 3 (decimal 8 1) f) POSITION_DECLINE (position_declined f)"
    and "answers (detect_high_value_opportunity 100 4 20 (decimal 8 2) (decimal 8 1) f) HIGH_VALUE_OPPORTUNITY (worth_more f)"
    and "answers (detect_position_volatility (3 / 2) 3 (decimal 8 1) f) VOLATILITY (volatile f)"
proof -
  note c = unit_window_confidence [OF assms(1)]
  note rules = undetected_answers detected_answers [OF _ c]
  show "answers (detect_ctr_drop (decimal 2 2) (decimal 5 2) (decimal 8 1) f) CTR_DROP (ctr_dropped f)"
    unfolding detect_ctr_drop_def Let_def using assms(2)
    by (simp split del: if_split add: ctr_dropped_def split: if_split) (auto intro!: rules)
  show "answers (detect_position_decline (3 / 2) 3 (decimal 8 1) f) POSITION_DECLINE (position_declined f)"
    unfolding detect_position_decline_def Let_def
    by (simp split del: if_split add: position_declined_def split: if_split) (auto intro!: rules)
  show "answers (detect_high_value_opportunity 100 4 20 (decimal 8 2) (decimal 8 1) f) HIGH_VALUE_OPPORTUNITY (worth_more f)"
    unfolding detect_high_value_opportunity_def Let_def
    by (simp split del: if_split add: worth_more_def split: if_split) (auto intro!: rules)
  show "answers (detect_position_volatility (3 / 2) 3 (decimal 8 1) f) VOLATILITY (volatile f)"
    unfolding detect_position_volatility_def Let_def
    by (simp split del: if_split add: volatile_def split: if_split) (auto intro!: rules)
qed

text \<open>The risks that volatility adds.\<close>

lemma risk_signal_answers:
  assumes "\<forall>s \<in> set sigs. signal_ok s"
  obtains rs where "risk_signal sigs ty risk reason = Inr rs" and "\<forall>s \<in> set rs. signal_ok s \<and> sg_detected s \<and> sg_signal_type s = risk"
    and "rs \<noteq> [] \<longleftrightarrow> (\<exists>s \<in> set sigs. sg_signal_type s = ty \<and> sg_detected s)"
proof (cases "find (\<lambda>s. sg_signal_type s = ty \<and> sg_detected s) sigs")
  case None
  then have "\<not> (\<exists>s \<in> set sigs. sg_signal_type s = ty \<and> sg_detected s)" by (auto simp: find_None_iff)
  then show thesis using that [of "[]"] None by (simp add: risk_signal_def)
next
  case (Some s)
  then have s: "s \<in> set sigs" "sg_signal_type s = ty" "sg_detected s" by (auto simp: find_Some_iff)
  then have "unit_score (min (sg_confidence s) (decimal 8 1))"
    using assms by (intro unit_min) (auto simp: signal_ok_def)
  then show thesis using that Some s by (auto simp: risk_signal_def new_signal_def signal_ok_def)
qed

definition signals_of :: "feature_set \<Rightarrow> signal list \<Rightarrow> bool" where
  "signals_of f sigs \<longleftrightarrow> (\<forall>s \<in> set sigs. signal_ok s)
     \<and> (\<forall>s \<in> set sigs. sg_detected s \<longrightarrow> (case sg_signal_type s of
           CTR_DROP \<Rightarrow> ctr_dropped f | POSITION_DECLINE \<Rightarrow> position_declined f
         | HIGH_VALUE_OPPORTUNITY \<Rightarrow> worth_more f | VOLATILITY \<Rightarrow> volatile f
         | CTR_DROP_UNDER_VOLATILITY \<Rightarrow> ctr_dropped f \<and> volatile f
         | POSITION_DECLINE_UNDER_VOLATILITY \<Rightarrow> position_declined f \<and> volatile f))"

lemma detect_all_signals_ok:
  assumes "feature_set_valid f" and "ct_baseline_ctr_zero (fs_ctr f) \<longleftrightarrow> ct_baseline_ctr (fs_ctr f) = 0"
  shows "\<exists>sigs. detect_all_signals f = Inr sigs \<and> signals_of f sigs"
proof -
  note A = detectors_answer [OF assms]
  obtain a where a: "detect_ctr_drop (decimal 2 2) (decimal 5 2) (decimal 8 1) f = Inr a"
      "sg_signal_type a = CTR_DROP" "signal_ok a" "sg_detected a \<longleftrightarrow> ctr_dropped f"
    using A(1) unfolding answers_def by (elim exE conjE) (rule that)
  obtain b where b: "detect_position_decline (3 / 2) 3 (decimal 8 1) f = Inr b"
      "sg_signal_type b = POSITION_DECLINE" "signal_ok b" "sg_detected b \<longleftrightarrow> position_declined f"
    using A(2) unfolding answers_def by (elim exE conjE) (rule that)
  obtain c where c: "detect_high_value_opportunity 100 4 20 (decimal 8 2) (decimal 8 1) f = Inr c"
      "sg_signal_type c = HIGH_VALUE_OPPORTUNITY" "signal_ok c" "sg_detected c \<longleftrightarrow> worth_more f"
    using A(3) unfolding answers_def by (elim exE conjE) (rule that)
  obtain d where d: "detect_position_volatility (3 / 2) 3 (decimal 8 1) f = Inr d"
      "sg_signal_type d = VOLATILITY" "signal_ok d" "sg_detected d \<longleftrightarrow> volatile f"
    using A(4) unfolding answers_def by (elim exE conjE) (rule that)
  have ok: "\<forall>s \<in> set [a, b, c, d]. signal_ok s" using a b c d by simp
  have e1: "(\<exists>s \<in> set [a, b, c, d]. sg_signal_type s = CTR_DROP \<and> sg_detected s) \<longleftrightarrow> ctr_dropped f"
    and e2: "(\<exists>s \<in> set [a, b, c, d]. sg_signal_type s = POSITION_DECLINE \<and> sg_detected s) \<longleftrightarrow> position_declined f"
    using a b c d by simp_all
  obtain r1 where r1: "risk_signal [a, b, c, d] CTR_DROP CTR_DROP_UNDER_VOLATILITY
        ''ctr_drop_occurs_during_high_volatility'' = Inr r1"
      "\<forall>s \<in> set r1. signal_ok s \<and> sg_detected s \<and> sg_signal_type s = CTR_DROP_UNDER_VOLATILITY"
      "r1 \<noteq> [] \<longleftrightarrow> ctr_dropped f"
    using risk_signal_answers [OF ok, of CTR_DROP CTR_DROP_UNDER_VOLATILITY] unfolding e1 by metis
  obtain r2 where r2: "risk_signal [a, b, c, d] POSITION_DECLINE POSITION_DECLINE_UNDER_VOLATILITY
        ''position_decline_occurs_during_high_volatility'' = Inr r2"
      "\<forall>s \<in> set r2. signal_ok s \<and> sg_detected s \<and> sg_signal_type s = POSITION_DECLINE_UNDER_VOLATILITY"
      "r2 \<noteq> [] \<longleftrightarrow> position_declined f"
    using risk_signal_answers [OF ok, of POSITION_DECLINE POSITION_DECLINE_UNDER_VOLATILITY] unfolding e2 by metis
  have chain: "detect_all_signals f = and_maybe (detect_signal_risks [a, b, c, d]) (\<lambda>risks. Inr ([a, b, c, d] @ risks))"
    unfolding detect_all_signals_def a(1) b(1) c(1) d(1) collect.simps and_maybe_simps with_risks_def by (rule refl)
  show ?thesis
  proof (cases "volatile f")
    case False
    then have "VOLATILITY \<notin> set (map sg_signal_type (filter sg_detected [a, b, c, d]))"
      using a(2) b(2) c(2) d(4) by auto
    then have "detect_all_signals f = Inr [a, b, c, d]"
      unfolding chain detect_signal_risks_def by simp
    moreover have "signals_of f [a, b, c, d]" using a b c d by (simp add: signals_of_def)
    ultimately show ?thesis by blast
  next
    case True
    then have "VOLATILITY \<in> set (map sg_signal_type (filter sg_detected [a, b, c, d]))" using d by simp
    then have "detect_all_signals f = Inr ([a, b, c, d] @ r1 @ r2)"
      unfolding chain detect_signal_risks_def r1(1) r2(1) and_maybe_simps by simp
    moreover have "signals_of f ([a, b, c, d] @ r1 @ r2)"
      unfolding signals_of_def using a b c d r1(2,3) r2(2,3) True by (auto simp: ball_Un)
    ultimately show ?thesis by blast
  qed
qed

lemma max_of_in: "xs \<noteq> [] \<Longrightarrow> max_of xs \<in> set xs"
proof -
  have "foldl max x ys \<in> insert x (set ys)" for x :: rat and ys
    by (induction ys arbitrary: x) (auto simp: max_def)
  then show "xs \<noteq> [] \<Longrightarrow> max_of xs \<in> set xs" by (cases xs) (auto simp: max_of_def)
qed

definition classification_valid :: "classification \<Rightarrow> bool" where
  "classification_valid cl \<longleftrightarrow> unit_score (cl_confidence cl) \<and> 0 \<le> cl_signal_count cl \<and> 0 \<le> cl_risk_count cl"

lemma classify_signals_ok:
  assumes "\<forall>s \<in> set sigs. signal_ok s"
  shows "\<exists>cl. classify_signals sigs m q = Inr cl \<and> classification_valid cl
    \<and> (cl_status cl = CLASS_INVESTIGATE \<longrightarrow> m \<le> cl_confidence cl
        \<and> (\<exists>s \<in> set sigs. sg_detected s \<and> is_actionable (sg_signal_type s)))"
proof -
  define detected where "detected = filter sg_detected sigs"
  define actionable where "actionable = filter (\<lambda>s. is_actionable (sg_signal_type s)) detected"
  define strongest where "strongest = max_of (map sg_confidence actionable)"
  have strongest: "actionable \<noteq> [] \<Longrightarrow> unit_score strongest"
    using max_of_in [of "map sg_confidence actionable"] assms
    by (auto simp: strongest_def actionable_def detected_def signal_ok_def)
  have some: "actionable \<noteq> [] \<Longrightarrow> \<exists>s \<in> set sigs. sg_detected s \<and> is_actionable (sg_signal_type s)"
    unfolding actionable_def detected_def by (auto simp: filter_empty_conv)
  have weaker: "actionable \<noteq> [] \<Longrightarrow> unit_score (fmul strongest (decimal 8 1))"
    using strongest by (intro unit_fmul) simp_all
  show ?thesis
    unfolding classify_signals_def Let_def detected_def [symmetric] actionable_def [symmetric] strongest_def [symmetric]
    using strongest some weaker
    by (auto simp: new_classification_def classification_valid_def)
qed

section \<open>Candidates, opportunities, strategies, actions\<close>

lemma fmul_nonneg: "0 \<le> a \<Longrightarrow> 0 \<le> b \<Longrightarrow> 0 \<le> fmul a b"
  by (simp add: fmul_def fl_nonneg)

lemma build_candidate_ok:
  assumes "feature_set_valid f" and "classification_valid cl"
    and "i \<noteq> []" "site \<noteq> []" "url \<noteq> []" "query \<noteq> []"
  obtains c where "build_candidate i site url query f sigs cl snap = Inr c" and "candidate_valid c"
    and "ca_status c = candidate_status_of (cl_status cl)"
proof -
  have "0 \<le> candidate_priority_score f sigs (cl_confidence cl)" for sigs
    unfolding candidate_priority_score_def Let_def
    by (intro fmul_nonneg)
      (use assms(1,2) in \<open>auto simp: feature_set_valid_def volume_valid_def classification_valid_def unit_score_def
        int_div_nonneg\<close>)
  then show thesis using that assms
    by (auto simp: build_candidate_def Let_def candidate_valid_def classification_valid_def)
qed

lemma unit_clamp: "unit_score (round6 (min (max x 0) 1))"
  by (rule clamp_unit)

lemma build_opportunity_ok:
  assumes "feature_set_valid f" and "unit_score confidence"
  obtains p where "build_opportunity N i c site url query f sigs st confidence snap = Inr p"
    and "p \<noteq> None \<longleftrightarrow> st = CLASS_INVESTIGATE \<and> detected_types sigs \<noteq> []"
    and "\<forall>q. p = Some q \<longrightarrow> opportunity_valid q \<and> op_status q = QUALIFIED \<and> op_confidence_score q = confidence
       \<and> op_signal_types q = detected_types sigs"
proof -
  have "unit_score (impact_score f)" "unit_score (business_value_score f)"
    unfolding impact_score_def business_value_score_def
    by (intro unit_rules; use assms(1) in \<open>simp add: feature_set_valid_def volume_valid_def int_div_nonneg\<close>)+
  moreover have "unit_score (traffic_potential_score f)"
    by (simp add: traffic_potential_score_def Let_def)
  moreover have "unit_score (effort_score ty)" for ty by (cases ty) simp_all
  moreover have "unit_score (risk_score ts)" for ts
    unfolding risk_score_def by (intro unit_rules fmul_nonneg) simp_all
  moreover have "unit_score (opportunity_priority_score a b c d e f)" for a b c d e f
    unfolding opportunity_priority_score_def Let_def by (rule unit_clamp)
  ultimately have "\<exists>p. build_opportunity N i c site url query f sigs st confidence snap = Inr p
      \<and> (p \<noteq> None \<longleftrightarrow> st = CLASS_INVESTIGATE \<and> detected_types sigs \<noteq> [])
      \<and> (\<forall>q. p = Some q \<longrightarrow> opportunity_valid q \<and> op_status q = QUALIFIED \<and> op_confidence_score q = confidence
         \<and> op_signal_types q = detected_types sigs)"
    using assms(2) by (cases "st = CLASS_INVESTIGATE \<and> detected_types sigs \<noteq> []")
      (simp_all add: build_opportunity_def Let_def opportunity_valid_def)
  then show thesis using that by blast
qed

lemma recommended_in_tables:
  obtains e r m where "strategy_effort (recommend_strategy_type p) = Inr e" and "unit_score e"
    and "strategy_risk (recommend_strategy_type p) = Inr r" and "unit_score r"
    and "impact_multiplier (recommend_strategy_type p) = Inr m" and "unit_score m"
proof -
  have "recommend_strategy_type p \<noteq> META_DESCRIPTION_OPTIMIZATION"
    by (auto simp: recommend_strategy_type_def Let_def split: opportunity_type.splits)
  then have "strategy_effort (recommend_strategy_type p) = Inr (projr (strategy_effort (recommend_strategy_type p)))"
    "unit_score (projr (strategy_effort (recommend_strategy_type p)))"
    "strategy_risk (recommend_strategy_type p) = Inr (projr (strategy_risk (recommend_strategy_type p)))"
    "unit_score (projr (strategy_risk (recommend_strategy_type p)))"
    "impact_multiplier (recommend_strategy_type p) = Inr (projr (impact_multiplier (recommend_strategy_type p)))"
    "unit_score (projr (impact_multiplier (recommend_strategy_type p)))"
    by (cases "recommend_strategy_type p"; simp)+
  then show thesis by (rule that)
qed

lemma build_strategy_ok:
  assumes "opportunity_valid p" and "op_status p = QUALIFIED"
  obtains s where "build_strategy N i p = Inr (Some s)" and "strategy_valid s"
    and "st_strategy_type s = recommend_strategy_type p"
proof -
  obtain e r m where t: "strategy_effort (recommend_strategy_type p) = Inr e" "unit_score e"
      "strategy_risk (recommend_strategy_type p) = Inr r" "unit_score r"
      "impact_multiplier (recommend_strategy_type p) = Inr m" "unit_score m"
    by (rule recommended_in_tables)
  have "unit_score (round6 (min (fmul (op_impact_score p) m) 1))"
    by (intro unit_rules unit_1) (use assms(1) t in \<open>auto simp: opportunity_valid_def\<close>)
  moreover have "unit_score (round6 (op_confidence_score p))"
    by (intro unit_rules) (use assms(1) in \<open>simp add: opportunity_valid_def\<close>)
  moreover have "unit_score (strategy_priority_score a b c d)" for a b c d
    unfolding strategy_priority_score_def Let_def by (rule unit_clamp)
  ultimately show thesis using that t assms(2)
    by (auto simp: build_strategy_def Let_def expected_impact_def strategy_valid_def)
qed

lemma learning_keeps_valid:
  "strategy_valid s \<Longrightarrow> strategy_valid (apply_learning_to_strategy sh s context policy)
     \<and> st_strategy_type (apply_learning_to_strategy sh s context policy) = st_strategy_type s"
  by (simp add: apply_learning_to_strategy_def Let_def strategy_valid_def unit_clamp)

lemma build_action_ok:
  assumes "strategy_valid s"
  obtains a where "build_action s i = Inr a" and "action_valid a"
    and "ac_action_type a = strategy_to_action (st_strategy_type s)"
    and "ac_requires_approval a \<longleftrightarrow> requires_approval (ac_action_type a) (ac_risk_level a)"
    and "ac_status a = (if ac_requires_approval a then AWAITING_APPROVAL else PLANNED)"
  using assms that by (auto simp: build_action_def Let_def action_valid_def strategy_valid_def)

section \<open>The engine\<close>

definition evidence_ok :: "decision_evidence \<Rightarrow> bool" where
  "evidence_ok e \<longleftrightarrow> de_site_id e \<noteq> [] \<and> de_normalized_url e \<noteq> [] \<and> de_normalized_query e \<noteq> []
     \<and> (\<forall>x \<in> set (de_baseline_observations e). observation_valid x)
     \<and> (\<forall>x \<in> set (de_current_observations e). observation_valid x)
     \<and> (\<forall>m \<in> set (de_current_url_metrics e). url_metric_valid m)
     \<and> (\<Sum>x\<leftarrow>de_current_observations e. ob_impressions x) \<le> (\<Sum>m\<leftarrow>de_current_url_metrics e. um_total_impressions m)"

lemma evidence_okD:
  assumes "evidence_ok e"
  shows "de_site_id e \<noteq> []" "de_normalized_url e \<noteq> []" "de_normalized_query e \<noteq> []"
    and "\<forall>x \<in> set (de_baseline_observations e). observation_valid x"
    and "\<forall>x \<in> set (de_current_observations e). observation_valid x"
    and "\<forall>m \<in> set (de_current_url_metrics e). url_metric_valid m"
    and "(\<Sum>x\<leftarrow>de_current_observations e. ob_impressions x) \<le> (\<Sum>m\<leftarrow>de_current_url_metrics e. um_total_impressions m)"
  using assms by (simp_all add: evidence_ok_def)

definition result_valid :: "decision_result \<Rightarrow> bool" where
  "result_valid r \<longleftrightarrow> feature_set_valid (dr_features r) \<and> (\<forall>s \<in> set (dr_signals r). signal_ok s)
     \<and> classification_valid (dr_classification r)
     \<and> (\<forall>c. dr_candidate r = Some c \<longrightarrow> candidate_valid c)
     \<and> (\<forall>p. dr_opportunity r = Some p \<longrightarrow> opportunity_valid p)
     \<and> (\<forall>s. dr_strategy r = Some s \<longrightarrow> strategy_valid s)
     \<and> (\<forall>a. dr_action r = Some a \<longrightarrow> action_valid a)"

text \<open>What an action in the result rests on.\<close>

definition rests_on_evidence :: "decision_result \<Rightarrow> bool" where
  "rests_on_evidence r \<longleftrightarrow> (case dr_action r of None \<Rightarrow> True | Some a \<Rightarrow>
     passes_data_quality_gate (fs_data_quality (dr_features r))
     \<and> cl_status (dr_classification r) = CLASS_INVESTIGATE \<and> 1 / 2 \<le> cl_confidence (dr_classification r)
     \<and> (ctr_dropped (dr_features r) \<or> position_declined (dr_features r) \<or> worth_more (dr_features r))
     \<and> (\<exists>p s. dr_opportunity r = Some p \<and> dr_strategy r = Some s
          \<and> st_strategy_type s = recommend_strategy_type p
          \<and> ac_action_type a = strategy_to_action (st_strategy_type s))
     \<and> ac_status a = (if ac_requires_approval a then AWAITING_APPROVAL else PLANNED)
     \<and> ac_requires_approval a = requires_approval (ac_action_type a) (ac_risk_level a))"

lemma actionable_condition:
  assumes "signals_of f sigs" and "s \<in> set sigs" and "sg_detected s" and "is_actionable (sg_signal_type s)"
  shows "ctr_dropped f \<or> position_declined f \<or> worth_more f"
  using assms by (fastforce simp: signals_of_def is_actionable_def)

lemma queue_of_one:
  "build_investigation_queue [c] 50 5 None = (if ca_status c = CAND_INVESTIGATE then [c] else [])"
  by (simp add: build_investigation_queue_def eligible_candidates_def py_prefix_def)

lemma decide_ok:
  assumes f: "feature_set_valid f" and sigs: "signals_of f sigs" and e: "evidence_ok e" and i: "i \<noteq> []"
    and gate: "passes_data_quality_gate (fs_data_quality f)"
  shows "\<exists>r. decide N e i learning f sigs = Inr r \<and> result_valid r \<and> rests_on_evidence r
    \<and> dr_features r = f \<and> dr_signals r = sigs
    \<and> classify_signals sigs (1 / 2) (Some (fs_data_quality f)) = Inr (dr_classification r)
    \<and> (dr_action r \<noteq> None \<longleftrightarrow> cl_status (dr_classification r) = CLASS_INVESTIGATE)
    \<and> (\<exists>c. dr_candidate r = Some c \<and> dr_investigation_queue r = (if dr_action r \<noteq> None then [c] else []))"
proof -
  have ok: "\<forall>s \<in> set sigs. signal_ok s" using sigs by (simp add: signals_of_def)
  obtain cl where cl: "classify_signals sigs (1 / 2) (Some (fs_data_quality f)) = Inr cl" "classification_valid cl"
      "cl_status cl = CLASS_INVESTIGATE \<longrightarrow> 1 / 2 \<le> cl_confidence cl
        \<and> (\<exists>s \<in> set sigs. sg_detected s \<and> is_actionable (sg_signal_type s))"
    using classify_signals_ok [OF ok] by blast
  obtain c where c: "build_candidate i (de_site_id e) (de_normalized_url e) (de_normalized_query e) f sigs cl (de_snapshot e) = Inr c"
      "candidate_valid c" "ca_status c = candidate_status_of (cl_status cl)"
    by (rule build_candidate_ok [OF f cl(2) i evidence_okD(1-3) [OF e]])
  have unit: "unit_score (cl_confidence cl)" using cl(2) by (simp add: classification_valid_def)
  obtain p where p: "build_opportunity N (''opportunity-'' @ i) i (de_site_id e) (de_normalized_url e) (de_normalized_query e)
        f sigs (cl_status cl) (cl_confidence cl) (de_snapshot e) = Inr p"
      "p \<noteq> None \<longleftrightarrow> cl_status cl = CLASS_INVESTIGATE \<and> detected_types sigs \<noteq> []"
      "\<forall>q. p = Some q \<longrightarrow> opportunity_valid q \<and> op_status q = QUALIFIED \<and> op_confidence_score q = cl_confidence cl
         \<and> op_signal_types q = detected_types sigs"
    by (rule build_opportunity_ok [OF f unit])
  show ?thesis
  proof (cases p)
    case None
    have "detected_types sigs \<noteq> []" if "s \<in> set sigs" "sg_detected s" for s
      using that by (auto simp: detected_types_def filter_empty_conv)
    then have "cl_status cl \<noteq> CLASS_INVESTIGATE" using p(2) cl(3) None by blast
    then have "ca_status c \<noteq> CAND_INVESTIGATE" using c(3) by (cases "cl_status cl") simp_all
    then show ?thesis using cl(1,2) c(1,2) p(1) None f ok \<open>cl_status cl \<noteq> CLASS_INVESTIGATE\<close>
      by (simp add: decide_def when_some_def queue_of_one result_valid_def rests_on_evidence_def)
  next
    case (Some q)
    then have q: "opportunity_valid q" "op_status q = QUALIFIED" and inv: "cl_status cl = CLASS_INVESTIGATE"
      using p(2,3) by auto
    obtain s where s: "build_strategy N (''strategy-'' @ i) q = Inr (Some s)" "strategy_valid s"
        "st_strategy_type s = recommend_strategy_type q"
      by (rule build_strategy_ok [OF q])
    define s' where "s' = apply_learning_to_strategy (nu_repr N) s learning None"
    have s': "strategy_valid s'" "st_strategy_type s' = recommend_strategy_type q"
      using learning_keeps_valid [OF s(2), of "nu_repr N" learning None] s(3) by (simp_all add: s'_def)
    obtain a where a: "build_action s' (''action-'' @ i) = Inr a" "action_valid a"
        "ac_action_type a = strategy_to_action (st_strategy_type s')"
        "ac_requires_approval a \<longleftrightarrow> requires_approval (ac_action_type a) (ac_risk_level a)"
        "ac_status a = (if ac_requires_approval a then AWAITING_APPROVAL else PLANNED)"
      by (rule build_action_ok [OF s'(1)])
    obtain sig where "sig \<in> set sigs" "sg_detected sig" "is_actionable (sg_signal_type sig)"
      using cl(3) inv by blast
    then have cond: "ctr_dropped f \<or> position_declined f \<or> worth_more f" using actionable_condition [OF sigs] by blast
    show ?thesis
      using cl(1-3) c p(1) Some f ok inv s(1) s' a q cond gate
      by (simp add: decide_def when_some_def queue_of_one result_valid_def rests_on_evidence_def s'_def [symmetric])
  qed
qed

lemma run_decision_engine_ok:
  assumes law: "median_law N" and e: "evidence_ok e" and i: "i \<noteq> []"
  shows "\<exists>r. run_decision_engine N e i learning = Inr r \<and> result_valid r \<and> rests_on_evidence r
    \<and> evidence_features N e = Inr (dr_features r)
    \<and> (passes_data_quality_gate (fs_data_quality (dr_features r)) \<longrightarrow>
         detect_all_signals (dr_features r) = Inr (dr_signals r)
         \<and> classify_signals (dr_signals r) (1 / 2) (Some (fs_data_quality (dr_features r))) = Inr (dr_classification r))
    \<and> (dr_candidate r = None \<longleftrightarrow> \<not> passes_data_quality_gate (fs_data_quality (dr_features r)))
    \<and> (dr_action r \<noteq> None \<longleftrightarrow> cl_status (dr_classification r) = CLASS_INVESTIGATE)
    \<and> dr_investigation_queue r = (case dr_candidate r of None \<Rightarrow> []
         | Some c \<Rightarrow> if dr_action r \<noteq> None then [c] else [])"
proof -
  obtain f where f: "evidence_features N e = Inr f" "feature_set_valid f"
      "ct_baseline_ctr_zero (fs_ctr f) \<longleftrightarrow> ct_baseline_ctr (fs_ctr f) = 0"
    unfolding evidence_features_def
    by (rule extract_feature_set_ok [OF law evidence_okD(4-7) [OF e] unit_reconciliation
        unit_window_completeness unit_window_completeness])
  show ?thesis
  proof (cases "passes_data_quality_gate (fs_data_quality f)")
    case False
    then have "run_decision_engine N e i learning = Inr \<lparr>dr_features = f, dr_signals = [],
        dr_classification = \<lparr>cl_status = CLASS_REJECT, cl_confidence = 0, cl_reasons = [''insufficient_data_quality''],
          cl_signal_count = 0, cl_risk_count = 0\<rparr>,
        dr_candidate = None, dr_opportunity = None, dr_strategy = None, dr_action = None,
        dr_investigation_queue = [], dr_learning_context = learning\<rparr>"
      by (simp add: run_decision_engine_def f(1) classify_signals_def new_classification_def)
    then show ?thesis using False f(1,2)
      by (simp add: result_valid_def rests_on_evidence_def classification_valid_def)
  next
    case True
    obtain sigs where sigs: "detect_all_signals f = Inr sigs" "signals_of f sigs"
      using detect_all_signals_ok [OF f(2,3)] by blast
    have run: "run_decision_engine N e i learning = decide N e i learning f sigs"
      by (simp add: run_decision_engine_def f(1) True sigs(1))
    obtain r c where r: "decide N e i learning f sigs = Inr r" "result_valid r" "rests_on_evidence r"
        "dr_features r = f" "dr_signals r = sigs"
        "classify_signals sigs (1 / 2) (Some (fs_data_quality f)) = Inr (dr_classification r)"
        "dr_action r \<noteq> None \<longleftrightarrow> cl_status (dr_classification r) = CLASS_INVESTIGATE"
        "dr_candidate r = Some c" "dr_investigation_queue r = (if dr_action r \<noteq> None then [c] else [])"
      using decide_ok [OF f(2) sigs(2) e i True, of N learning] by (elim exE conjE) (rule that)
    show ?thesis unfolding run
      by (rule exI [of _ r]) (simp add: r f(1) sigs(1) True del: not_None_eq One_nat_def)
  qed
qed

end
