(* ===== verification/Ingestion.thy ===== *)
theory Ingestion
  imports Observations
begin

text \<open>
  From a raw Search Console response to daily observations: \<open>app/normalization/query.py\<close>,
  \<open>normalization/url.py\<close>, \<open>normalization/gsc.py\<close> and \<open>ingestion/gsc.py\<close>. A search query is
  first modelled over code points, since its rules are about characters outside the strings of
  this development; on those strings only the rule for white space applies
  (\<open>normalize_query_latin\<close>). Splitting and joining a URL, its percent-encoded query and the
  reading of an ISO date are Python's standard library and an argument here (\<open>std_library\<close>).
\<close>

section \<open>Search queries\<close>

text \<open>The code points of the three character tables.\<close>

fun translate_char :: "int \<Rightarrow> int" where
  "translate_char c = (if c = 0x64a \<or> c = 0x649 then 0x6cc else if c = 0x643 then 0x6a9 else c)"

definition between :: "int \<Rightarrow> int \<Rightarrow> int \<Rightarrow> bool" where
  "between a c b \<longleftrightarrow> a \<le> c \<and> c \<le> b"

definition invisible_control :: "int \<Rightarrow> bool" where
  "invisible_control c \<longleftrightarrow> c \<in> {0x61c, 0x200e, 0x200f} \<or> between 0x202a c 0x202e \<or> between 0x2066 c 0x2069"

definition zero_width_noise :: "int \<Rightarrow> bool" where
  "zero_width_noise c \<longleftrightarrow> c \<in> {0x200b, 0x200d, 0xfeff}"

definition diacritic :: "int \<Rightarrow> bool" where
  "diacritic c \<longleftrightarrow> between 0x610 c 0x61a \<or> between 0x64b c 0x65f \<or> c = 0x670 \<or> between 0x6d6 c 0x6ed"

definition unicode_space :: "int \<Rightarrow> bool" where
  "unicode_space c \<longleftrightarrow> between 9 c 13 \<or> between 28 c 32 \<or> c \<in> {0x85, 0xa0, 0x1680}
     \<or> between 0x2000 c 0x200a \<or> c \<in> {0x2028, 0x2029, 0x202f, 0x205f, 0x3000}"

text \<open>\<open>re.sub(r"\s+", " ", value)\<close>\<close>

fun single_spaces :: "int list \<Rightarrow> int list" where
  "single_spaces [] = []"
| "single_spaces (c # cs) =
     (if unicode_space c
      then (case cs of d # _ \<Rightarrow> if unicode_space d then single_spaces cs else 32 # single_spaces cs
            | [] \<Rightarrow> [32])
      else c # single_spaces cs)"

definition strip_spaces :: "int list \<Rightarrow> int list" where
  "strip_spaces cs = rev (dropWhile unicode_space (rev (dropWhile unicode_space cs)))"

abbreviation "zwnj \<equiv> (0x200c :: int)"

lemma dropWhile_shorter: "dropWhile P xs = d # ds \<Longrightarrow> length ds < length xs"
  using length_dropWhile_le [of P xs] by simp

text \<open>\<open>re.sub(r"\s*\u200c\s*", "\u200c", value)\<close>, from left to right.\<close>

function close_zwnj :: "int list \<Rightarrow> int list" where
  "close_zwnj [] = []"
| "close_zwnj (c # cs) =
     (case dropWhile unicode_space (c # cs) of
        d # ds \<Rightarrow> if d = zwnj then zwnj # close_zwnj (dropWhile unicode_space ds) else c # close_zwnj cs
      | [] \<Rightarrow> c # close_zwnj cs)"
  by pat_completeness auto
termination
  by (relation "measure length")
    (auto simp: less_Suc_eq_le length_dropWhile_le
      dest!: dropWhile_shorter intro: le_trans [OF length_dropWhile_le] split: if_splits)

text \<open>\<open>nfc\<close> is \<open>unicodedata.normalize("NFC", value)\<close>.\<close>

definition clean_query :: "int list \<Rightarrow> int list" where
  "clean_query cs =
     (let translated = map translate_char cs;
          visible = filter (\<lambda>c. \<not> invisible_control c) translated;
          noiseless = filter (\<lambda>c. \<not> zero_width_noise c) visible;
          plain = filter (\<lambda>c. \<not> diacritic c) noiseless
      in close_zwnj (strip_spaces (single_spaces plain)))"

definition normalize_query :: "(int list \<Rightarrow> int list) \<Rightarrow> int list \<Rightarrow> int list" where
  "normalize_query nfc query = clean_query (nfc query)"

text \<open>A string of this development: its code points are below 256 and composed already.\<close>

definition normalize_query_latin :: "string \<Rightarrow> string" where
  "normalize_query_latin s = map char_of (normalize_query (\<lambda>cs. cs) (map of_char s))"

section \<open>URLs\<close>

record url_parts =
  up_scheme :: string
  up_netloc :: string
  up_path :: string
  up_query :: string

record std_library =
  sl_urlsplit :: "string \<Rightarrow> exn + url_parts"
  sl_hostname :: "url_parts \<Rightarrow> string option"
  sl_port :: "url_parts \<Rightarrow> exn + int option"
  sl_parse_qsl :: "string \<Rightarrow> (string \<times> string) list"
  sl_urlencode :: "(string \<times> string) list \<Rightarrow> string"
  sl_urlunsplit :: "string \<Rightarrow> string \<Rightarrow> string \<Rightarrow> string \<Rightarrow> string"
  sl_fromisoformat :: "string \<Rightarrow> exn + day"

definition tracking_query_param_exact :: "string list" where
  "tracking_query_param_exact =
     [''gclid'', ''fbclid'', ''dclid'', ''msclkid'', ''yclid'', ''mc_cid'', ''mc_eid'']"

definition is_tracking_parameter :: "string \<Rightarrow> bool" where
  "is_tracking_parameter name = (let n = map lower_latin (py_strip name)
     in n \<in> set tracking_query_param_exact \<or> take 4 n = ''utm_'')"

text \<open>\<open>MULTI_SLASH_RE.sub("/", path)\<close> and \<open>path.split("/")\<close>\<close>

fun single_slashes :: "string \<Rightarrow> string" where
  "single_slashes [] = []"
| "single_slashes (c # cs) =
     (if c = CHR ''/'' \<and> take 1 cs = ''/'' then single_slashes cs else c # single_slashes cs)"

fun slash_parts :: "string \<Rightarrow> string list" where
  "slash_parts [] = [[]]"
| "slash_parts (c # cs) =
     (if c = CHR ''/'' then [] # slash_parts cs
      else (case slash_parts cs of p # ps \<Rightarrow> (c # p) # ps | [] \<Rightarrow> [[c]]))"

text \<open>\<open>posixpath.normpath\<close> of a path without double slashes: the loop over its components.\<close>

fun norm_parts :: "bool \<Rightarrow> string list \<Rightarrow> string list \<Rightarrow> string list" where
  "norm_parts rooted done [] = done"
| "norm_parts rooted done (p # ps) =
     norm_parts rooted
       (if p = [] \<or> p = ''.'' then done
        else if p \<noteq> ''..'' \<or> (\<not> rooted \<and> done = []) \<or> (done \<noteq> [] \<and> last done = ''..'') then done @ [p]
        else butlast done) ps"

definition norm_path :: "string \<Rightarrow> string" where
  "norm_path path =
     (let rooted = (take 1 path = ''/'');
          text = (if rooted then ''/'' else []) @ py_join ''/'' (norm_parts rooted [] (slash_parts path))
      in if text = [] then ''.'' else text)"

definition normalize_path :: "string \<Rightarrow> string" where
  "normalize_path given =
     (if given = [] then []
      else let path = single_slashes given;
               plain = norm_path path;
               normalized = (if take 1 plain \<noteq> ''/'' then CHR ''/'' # plain else plain)
           in if path = ''/'' then ''/''
              else if last path = CHR ''/'' \<and> normalized \<noteq> ''/'' then normalized @ ''/''
              else normalized)"

definition canonicalize_url :: "std_library \<Rightarrow> string \<Rightarrow> exn + string" where
  "canonicalize_url L url =
     (let text = py_strip url in
      if text = [] then Inl (Exn ValueError ''url must not be empty'')
      else and_maybe (sl_urlsplit L text) (\<lambda>parsed.
        let scheme = map lower_latin (up_scheme parsed) in
        if scheme \<notin> {''http'', ''https''} then Inl (Exn ValueError ''url must use http or https'')
        else if up_netloc parsed = [] then Inl (Exn ValueError ''url must contain a hostname'')
        else case sl_hostname L parsed of
            None \<Rightarrow> Inl (Exn ValueError ''url must contain a valid hostname'')
          | Some host \<Rightarrow>
            if host = [] then Inl (Exn ValueError ''url must contain a valid hostname'')
            else case sl_port L parsed of
                Inl e \<Rightarrow> Inl (if exn_class e = ValueError then Exn ValueError ''url contains an invalid port'' else e)
              | Inr port \<Rightarrow>
                let lowered = map lower_latin host;
                    bracketed = (if CHR '':'' \<in> set host \<and> take 1 host \<noteq> ''['' then ''['' @ lowered @ '']''
                                 else lowered);
                    hostname = (case port of
                        None \<Rightarrow> bracketed
                      | Some n \<Rightarrow> if (scheme = ''http'' \<and> n = 80) \<or> (scheme = ''https'' \<and> n = 443)
                                 then bracketed else bracketed @ '':'' @ show_int n);
                    pairs = sort (filter (\<lambda>(key, v). \<not> is_tracking_parameter key)
                                    (sl_parse_qsl L (up_query parsed)))
                in Inr (sl_urlunsplit L ''https'' hostname (normalize_path (up_path parsed))
                          (sl_urlencode L pairs))))"

section \<open>Search Console rows\<close>

text \<open>Numbers of a payload: an \<open>int\<close> or a \<open>float\<close>, and \<open>sum\<close> over a mixture of them.\<close>

fun num_times :: "int \<Rightarrow> pyval \<Rightarrow> pyval" where
  "num_times n (PInt m) = PInt (n * m)"
| "num_times n (PFloat x) = PFloat (fmul (fl (of_int n)) x)"
| "num_times n v = PNone"

fun sum_floats :: "rat \<Rightarrow> rat \<Rightarrow> pyval list \<Rightarrow> pyval" where
  "sum_floats s c [] = PFloat (if c = 0 then s else fadd s c)"
| "sum_floats s c (PFloat x # xs) = (let t = fadd s x in
     sum_floats t
       (if \<bar>x\<bar> \<le> \<bar>s\<bar> then fadd c (fadd (fsub s t) x) else fadd c (fadd (fsub x t) s)) xs)"
| "sum_floats s c (PInt n # xs) = sum_floats (fadd s (fl (of_int n))) c xs"
| "sum_floats s c (v # xs) = PNone"

fun sum_numbers :: "int \<Rightarrow> pyval list \<Rightarrow> pyval" where
  "sum_numbers s [] = PInt s"
| "sum_numbers s (PInt n # xs) = sum_numbers (s + n) xs"
| "sum_numbers s (PFloat x # xs) = sum_floats (fadd (fl (of_int s)) x) 0 xs"
| "sum_numbers s (v # xs) = PNone"

fun num_over :: "pyval \<Rightarrow> int \<Rightarrow> pyval" where
  "num_over (PInt m) n = PFloat (int_div m n)"
| "num_over (PFloat x) n = PFloat (fdiv x (fl (of_int n)))"
| "num_over v n = PNone"

text \<open>A field declared \<open>float | None\<close> takes an \<open>int\<close> as the nearest float.\<close>

fun as_float :: "pyval \<Rightarrow> rat option" where
  "as_float (PInt n) = Some (fl (of_int n))"
| "as_float (PFloat x) = Some x"
| "as_float v = None"

fun get_list :: "pyval \<Rightarrow> pyval list option" where
  "get_list (PList xs) = Some xs"
| "get_list _ = None"

fun get_str :: "pyval \<Rightarrow> string option" where
  "get_str (PStr s) = Some s"
| "get_str _ = None"

fun count_of :: "pyval \<Rightarrow> int option" where
  "count_of (PInt n) = (if 0 \<le> n then Some n else None)"
| "count_of _ = None"

fun position_ok :: "pyval \<Rightarrow> bool" where
  "position_ok PNone = True"
| "position_ok (PInt n) = (0 \<le> n)"
| "position_ok (PFloat x) = (0 \<le> x)"
| "position_ok _ = False"

definition field :: "dict \<Rightarrow> string \<Rightarrow> pyval" where
  "field d k = (case map_of d k of None \<Rightarrow> PNone | Some v \<Rightarrow> v)"

definition expected_dimensions :: "bool \<Rightarrow> pyval" where
  "expected_dimensions query_level =
     PList (if query_level then [PStr ''page'', PStr ''query'', PStr ''date''] else [PStr ''page'', PStr ''date''])"

type_synonym row_values = "int \<times> int \<times> pyval"

text \<open>\<open>exact\<close>: the payload names exactly the expected dimensions.\<close>

definition lengths_ok :: "bool \<Rightarrow> bool \<Rightarrow> nat \<Rightarrow> bool" where
  "lengths_ok query_level exact n =
     (if query_level \<and> \<not> exact then n = 2 \<or> n = 3 else n = (if query_level then 3 else 2))"

definition read_keys :: "bool \<Rightarrow> bool \<Rightarrow> pyval \<Rightarrow> string list option" where
  "read_keys query_level exact v = (case get_list v of
     None \<Rightarrow> None
   | Some ks \<Rightarrow> if lengths_ok query_level exact (length ks) \<and> list_all (\<lambda>k. get_str k \<noteq> None) ks
       then Some (map (\<lambda>k. the (get_str k)) ks) else None)"

definition read_row :: "bool \<Rightarrow> bool \<Rightarrow> pyval \<Rightarrow> exn + string list \<times> row_values" where
  "read_row query_level exact v = (case v of
     PDict row \<Rightarrow>
       (case read_keys query_level exact (field row ''keys'') of
          None \<Rightarrow> Inl (Exn ValueError ''Invalid GSC row keys'')
        | Some keys \<Rightarrow>
          (case (count_of (field row ''impressions''), count_of (field row ''clicks'')) of
             (Some impressions, Some clicks) \<Rightarrow>
               if impressions < clicks then Inl (Exn ValueError ''GSC clicks exceed impressions'')
               else if \<not> position_ok (field row ''position'')
               then Inl (Exn ValueError ''GSC position must be finite, non-negative or null'')
               else Inr (keys, (impressions, clicks, field row ''position''))
           | _ \<Rightarrow> Inl (Exn ValueError ''GSC counts must be non-negative integers'')))
   | _ \<Rightarrow> Inl (Exn ValueError ''Each GSC row must be an object''))"

fun same_values :: "row_values \<Rightarrow> row_values \<Rightarrow> bool" where
  "same_values (i, c, p) (i', c', p') \<longleftrightarrow> i = i' \<and> c = c' \<and> py_eq p p'"

type_synonym canonical_key = "string \<times> string \<times> day"

type_synonym grouping = "(string list \<times> row_values) list \<times> (canonical_key \<times> row_values list) list"

text \<open>The canonical identity of a row: its page, its query and its day.\<close>

definition canonical_key_of :: "std_library \<Rightarrow> bool \<Rightarrow> day \<Rightarrow> string list \<Rightarrow> exn + canonical_key" where
  "canonical_key_of L query_level fetch_date keys =
     and_maybe (if \<not> query_level \<or> length keys = 3 then sl_fromisoformat L (last keys) else Inr fetch_date) (\<lambda>d.
     and_maybe (canonicalize_url L (hd keys)) (\<lambda>url.
       Inr (url, if query_level then normalize_query_latin (keys ! 1) else [], d)))"

definition group_row :: "std_library \<Rightarrow> bool \<Rightarrow> bool \<Rightarrow> day \<Rightarrow> grouping \<Rightarrow> pyval \<Rightarrow> exn + grouping" where
  "group_row L query_level exact fetch_date g row =
     and_maybe (read_row query_level exact row) (\<lambda>(keys, values).
       case map_of (fst g) keys of
         Some w \<Rightarrow> if same_values w values then Inr g
           else Inl (Exn ValueError ''Conflicting duplicate GSC row'')
       | None \<Rightarrow> and_maybe (canonical_key_of L query_level fetch_date keys) (\<lambda>k.
           let old = (case map_of (snd g) k of None \<Rightarrow> [] | Some vs \<Rightarrow> vs)
           in Inr ((keys, values) # fst g, AList.update k (old @ [values]) (snd g))))"

fun group_rows :: "std_library \<Rightarrow> bool \<Rightarrow> bool \<Rightarrow> day \<Rightarrow> grouping \<Rightarrow> pyval list \<Rightarrow> exn + grouping" where
  "group_rows L query_level exact fetch_date g [] = Inr g"
| "group_rows L query_level exact fetch_date g (row # rows) =
     and_maybe (group_row L query_level exact fetch_date g row)
       (\<lambda>g'. group_rows L query_level exact fetch_date g' rows)"

definition groups :: "std_library \<Rightarrow> gsc_response \<Rightarrow> bool \<Rightarrow> exn + (canonical_key \<times> row_values list) list" where
  "groups L r query_level =
     (let payload = rg_raw_payload r;
          dimensions = field payload ''dimensions'';
          exact = py_eq dimensions (expected_dimensions query_level)
      in case get_list (case map_of payload ''rows'' of None \<Rightarrow> PList [] | Some v \<Rightarrow> v) of
           None \<Rightarrow> Inl (Exn ValueError ''GSC payload 'rows' must be a sequence'')
         | Some rows \<Rightarrow>
           if dimensions \<noteq> PNone \<and> \<not> exact
              \<and> \<not> (query_level \<and> py_eq dimensions (PList [PStr ''page'', PStr ''query'']))
           then Inl (Exn ValueError ''Unexpected GSC dimensions'')
           else and_maybe (group_rows L query_level exact (rg_fetch_date r) ([], []) rows) (\<lambda>g. Inr (snd g)))"

definition merged_position :: "row_values list \<Rightarrow> pyval" where
  "merged_position values =
     (let impressions = (\<Sum>v\<leftarrow>values. fst v);
          shown = filter (\<lambda>v. fst v \<noteq> 0) values
      in if length values = 1 then snd (snd (hd values))
         else if impressions \<noteq> 0 \<and> list_all (\<lambda>v. snd (snd v) \<noteq> PNone) shown
         then num_over (sum_numbers 0 (map (\<lambda>v. num_times (fst v) (snd (snd v))) shown)) impressions
         else PNone)"

definition merge_group :: "string \<Rightarrow> canonical_key \<times> row_values list \<Rightarrow> gsc_row" where
  "merge_group site = (\<lambda>((url, query, d), values).
     \<lparr>gr_site_id = site, gr_date = d, gr_normalized_url = url, gr_normalized_query = query,
      gr_impressions = (\<Sum>v\<leftarrow>values. fst v), gr_clicks = (\<Sum>v\<leftarrow>values. fst (snd v)),
      gr_avg_position = as_float (merged_position values)\<rparr>)"

definition normalize_gsc_response :: "std_library \<Rightarrow> gsc_response \<Rightarrow> exn + gsc_row list" where
  "normalize_gsc_response L r =
     and_maybe (groups L r True) (\<lambda>gs.
       collect (\<lambda>g. new_gsc_row (merge_group (rg_site_id r) g)) (sort_key fst gs))"

definition normalize_url_gsc_response :: "std_library \<Rightarrow> gsc_response \<Rightarrow> exn + url_metric list" where
  "normalize_url_gsc_response L r =
     and_maybe (groups L r False) (\<lambda>gs.
       collect (\<lambda>((url, query, d), values).
           new_url_metric (rg_site_id r) url d (\<Sum>v\<leftarrow>values. fst v) (\<Sum>v\<leftarrow>values. fst (snd v)))
         (sort_key fst gs))"

section \<open>Ingestion\<close>

definition ingest_gsc_response ::
  "std_library \<Rightarrow> gsc_response \<Rightarrow> day \<Rightarrow> day \<Rightarrow> day list option \<Rightarrow> exn + ingestion_result" where
  "ingest_gsc_response L r start_date end_date expected_zero_dates =
     and_maybe (normalize_gsc_response L r) (\<lambda>rows.
     and_maybe (rows_to_observations rows) (\<lambda>observations.
     and_maybe (aggregate_url_daily_metrics rows) (\<lambda>metrics.
     and_maybe (classify_daily_window start_date end_date observations expected_zero_dates) (\<lambda>daily_status.
       Inr \<lparr>in_site_id = rg_site_id r, in_response_id = rg_response_id r, in_normalized_rows = rows,
            in_observations = observations, in_url_daily_metrics = metrics,
            in_daily_status = daily_status\<rparr>))))"

section \<open>Facts\<close>

lemma py_eq_position: "position_ok p \<Longrightarrow> py_eq p p"
  by (cases p) auto

lemma read_row_values:
  assumes "read_row query_level exact row = Inr (keys, (i, c, p))"
  shows "0 \<le> c" "c \<le> i" "position_ok p"
  using assms by (auto simp: read_row_def split: pyval.splits option.splits if_splits elim!: count_of.elims)

text \<open>The grouping remembers every row it has taken, and takes none twice.\<close>

definition taken :: "bool \<Rightarrow> bool \<Rightarrow> grouping \<Rightarrow> pyval \<Rightarrow> bool" where
  "taken query_level exact g row \<longleftrightarrow> (\<exists>keys values w. read_row query_level exact row = Inr (keys, values)
     \<and> map_of (fst g) keys = Some w \<and> same_values w values)"

lemma group_row_taken: "taken query_level exact g row \<Longrightarrow> group_row L query_level exact d g row = Inr g"
  by (auto simp: taken_def group_row_def)

lemma group_row_takes:
  assumes "group_row L query_level exact d g row = Inr g'"
  shows "taken query_level exact g' row"
    and "taken query_level exact g other \<Longrightarrow> taken query_level exact g' other"
proof -
  obtain keys i c p where r: "read_row query_level exact row = Inr (keys, (i, c, p))"
    using assms by (auto simp: group_row_def and_maybe_Inr)
  have same: "same_values (i, c, p) (i, c, p)" using read_row_values(3) [OF r] py_eq_position by simp
  consider w where "map_of (fst g) keys = Some w" "same_values w (i, c, p)" "g' = g"
    | "map_of (fst g) keys = None" "fst g' = (keys, (i, c, p)) # fst g"
    using assms r by (auto simp: group_row_def and_maybe_Inr Let_def split: option.splits if_splits)
  note cases = this
  show "taken query_level exact g' row"
    using cases r same by cases (auto simp: taken_def)
  show "taken query_level exact g' other" if old: "taken query_level exact g other"
    using cases
  proof cases
    case 1
    then show ?thesis using old by simp
  next
    case 2
    obtain keys' vals w where "read_row query_level exact other = Inr (keys', vals)"
      "map_of (fst g) keys' = Some w" "same_values w vals" using old unfolding taken_def by (elim exE conjE) (rule that)
    moreover from this 2 have "map_of (fst g') keys' = Some w" by auto
    ultimately show ?thesis unfolding taken_def by blast
  qed
qed

lemma group_rows_take:
  assumes "group_rows L query_level exact d g rows = Inr g'"
  shows "taken query_level exact g other \<or> other \<in> set rows \<Longrightarrow> taken query_level exact g' other"
  using assms
  by (induction rows arbitrary: g) (auto simp: and_maybe_Inr dest: group_row_takes)

lemma group_rows_append:
  "group_rows L query_level exact d g (xs @ ys) =
     and_maybe (group_rows L query_level exact d g xs) (\<lambda>g'. group_rows L query_level exact d g' ys)"
proof (induction xs arbitrary: g)
  case (Cons x xs)
  then show ?case by (cases "group_row L query_level exact d g x") simp_all
qed simp

lemma group_rows_again:
  assumes "y \<in> set xs"
  shows "group_rows L query_level exact d g (xs @ y # ys) = group_rows L query_level exact d g (xs @ ys)"
proof (cases "group_rows L query_level exact d g xs")
  case (Inr g')
  then have "group_row L query_level exact d g' y = Inr g'"
    using group_row_taken group_rows_take assms by blast
  then show ?thesis using Inr by (simp add: group_rows_append)
qed (simp add: group_rows_append)

text \<open>What every group holds.\<close>

definition values_ok :: "row_values \<Rightarrow> bool" where
  "values_ok v \<longleftrightarrow> 0 \<le> fst (snd v) \<and> fst (snd v) \<le> fst v \<and> position_ok (snd (snd v))"

definition groups_ok :: "(canonical_key \<times> row_values list) list \<Rightarrow> bool" where
  "groups_ok gs \<longleftrightarrow> distinct (map fst gs) \<and> (\<forall>(k, vs) \<in> set gs. vs \<noteq> [] \<and> (\<forall>v \<in> set vs. values_ok v))"

lemma group_row_ok:
  assumes "group_row L query_level exact d g row = Inr g'" and "groups_ok (snd g)"
  shows "groups_ok (snd g')"
proof -
  obtain keys i c p where r: "read_row query_level exact row = Inr (keys, (i, c, p))"
    using assms by (auto simp: group_row_def and_maybe_Inr)
  have ok: "values_ok (i, c, p)" using read_row_values [OF r] by (simp add: values_ok_def)
  show ?thesis
  proof (cases "map_of (fst g) keys")
    case (Some w)
    then show ?thesis using assms r by (auto simp: group_row_def split: if_splits)
  next
    case None
    then obtain k where g': "snd g' = AList.update k ((case map_of (snd g) k of None \<Rightarrow> [] | Some vs \<Rightarrow> vs)
        @ [(i, c, p)]) (snd g)"
      using assms(1) r by (auto simp: group_row_def and_maybe_Inr Let_def)
    have "\<forall>v \<in> set (case map_of (snd g) k of None \<Rightarrow> [] | Some vs \<Rightarrow> vs). values_ok v"
      using assms(2) by (auto simp: groups_ok_def split: option.splits dest!: map_of_SomeD)
    then show ?thesis using assms(2) ok set_alist_update [of k _ "snd g"]
      unfolding g' groups_ok_def by (fastforce simp: distinct_update)
  qed
qed

lemma group_rows_ok:
  "group_rows L query_level exact d g rows = Inr g' \<Longrightarrow> groups_ok (snd g) \<Longrightarrow> groups_ok (snd g')"
  by (induction rows arbitrary: g) (auto simp: and_maybe_Inr dest: group_row_ok)

lemma groups_give_ok: "groups L r query_level = Inr gs \<Longrightarrow> groups_ok gs"
  unfolding groups_def
  by (auto simp: Let_def and_maybe_Inr groups_ok_def [of "[]"] split: option.splits if_splits
      dest!: group_rows_ok)

lemma collect_Inr:
  "collect f xs = Inr ys \<Longrightarrow> length ys = length xs \<and> (\<forall>i < length xs. f (xs ! i) = Inr (ys ! i))"
proof (induction xs arbitrary: ys)
  case (Cons x xs)
  then obtain y zs where "f x = Inr y" "collect f xs = Inr zs" "ys = y # zs" by (auto simp: and_maybe_Inr)
  then show ?case using Cons.IH by (auto simp: nth_Cons split: nat.splits)
qed simp

lemma collect_id:
  assumes "collect f xs = Inr ys" and "\<And>x y. f x = Inr y \<Longrightarrow> y = g x"
  shows "ys = map g xs"
  using assms(1)
proof (induction xs arbitrary: ys)
  case (Cons x xs)
  then show ?case using assms(2) by (auto simp: and_maybe_Inr)
qed simp

lemma new_gsc_row_Inr: "new_gsc_row r = Inr r' \<longleftrightarrow> r' = r \<and> gsc_row_valid r"
  by (auto simp: new_gsc_row_def)

lemma normalize_gsc_response_rows:
  assumes "normalize_gsc_response L r = Inr rows"
  obtains gs where "groups L r True = Inr gs" and "rows = map (merge_group (rg_site_id r)) (sort_key fst gs)"
    and "\<forall>x \<in> set rows. row_ok x"
proof -
  obtain gs where gs: "groups L r True = Inr gs"
    and c: "collect (\<lambda>g. new_gsc_row (merge_group (rg_site_id r) g)) (sort_key fst gs) = Inr rows"
    using assms by (auto simp: normalize_gsc_response_def and_maybe_Inr)
  have rows: "rows = map (merge_group (rg_site_id r)) (sort_key fst gs)"
    by (rule collect_id [OF c]) (simp add: new_gsc_row_Inr)
  have "row_ok x" if x: "x \<in> set rows" for x
  proof -
    obtain n where n: "n < length rows" "x = rows ! n" using x by (metis in_set_conv_nth)
    then have "gsc_row_valid x" using collect_Inr [OF c] by (auto simp: new_gsc_row_Inr)
    moreover obtain k vs where kv: "(k, vs) \<in> set gs" "x = merge_group (rg_site_id r) (k, vs)"
      using x rows by auto
    moreover have "(\<Sum>v\<leftarrow>vs. fst (snd v)) \<le> (\<Sum>v\<leftarrow>vs. fst v)"
      using groups_give_ok [OF gs] kv(1) by (intro sum_list_mono) (auto simp: groups_ok_def values_ok_def)
    ultimately show ?thesis by (cases k) (auto simp: row_ok_def merge_group_def)
  qed
  then show thesis using that gs rows by blast
qed

lemma normalize_strict:
  assumes "normalize_gsc_response L r = Inr rows"
  shows "sorted_wrt (<) (map (\<lambda>x. (gr_normalized_url x, gr_normalized_query x, gr_date x)) rows)"
proof -
  obtain gs where gs: "groups L r True = Inr gs" and rows: "rows = map (merge_group (rg_site_id r)) (sort_key fst gs)"
    using normalize_gsc_response_rows [OF assms] by blast
  have "map (\<lambda>x. (gr_normalized_url x, gr_normalized_query x, gr_date x)) rows = map fst (sort_key fst gs)"
    unfolding rows by (auto simp: merge_group_def split: prod.splits)
  moreover have "sorted (map fst (sort_key fst gs))" by (rule sorted_sort_key)
  moreover have "distinct (map fst (sort_key fst gs))"
    using groups_give_ok [OF gs] by (simp add: groups_ok_def distinct_map)
  ultimately show ?thesis by (simp add: strict_sorted_iff)
qed

lemma rows_observed:
  "collect row_to_observation rows = Inr obs \<Longrightarrow>
     map ob_impressions obs = map gr_impressions rows \<and> map ob_clicks obs = map gr_clicks rows
     \<and> map ob_date obs = map gr_date rows
     \<and> (\<forall>x \<in> set obs. observation_valid x \<and> ob_data_status x = OBSERVED)"
proof (induction rows arbitrary: obs)
  case (Cons r rows)
  obtain ob obs' where r: "row_to_observation r = Inr ob" "collect row_to_observation rows = Inr obs'" "obs = ob # obs'"
    using Cons.prems by (auto simp: and_maybe_Inr)
  have "observation_valid ob" using r(1) unfolding row_to_observation_def by (rule new_observation_valid)
  moreover have "ob_impressions ob = gr_impressions r" "ob_clicks ob = gr_clicks r" "ob_date ob = gr_date r"
    "ob_data_status ob = OBSERVED"
    using r(1) by (auto simp: row_to_observation_def new_observation_Inr)
  ultimately show ?case using Cons.IH [OF r(2)] by (simp add: r(3))
qed simp

section \<open>A response\<close>

definition demo_library :: std_library where
  "demo_library = \<lparr>sl_urlsplit = (\<lambda>u. Inr \<lparr>up_scheme = ''https'', up_netloc = ''a.ir'', up_path = drop 12 u, up_query = []\<rparr>),
     sl_hostname = (\<lambda>p. Some (up_netloc p)), sl_port = (\<lambda>p. Inr None), sl_parse_qsl = (\<lambda>q. []),
     sl_urlencode = (\<lambda>ps. []), sl_urlunsplit = (\<lambda>s h p q. s @ ''://'' @ h @ p),
     sl_fromisoformat = (\<lambda>s. Inr (of_char (last s) - 48))\<rparr>"

definition demo_row :: "string \<Rightarrow> string \<Rightarrow> int \<Rightarrow> int \<Rightarrow> pyval" where
  "demo_row page d impressions clicks = PDict [(''keys'', PList [PStr page, PStr ''shoes'', PStr d]),
     (''impressions'', PInt impressions), (''clicks'', PInt clicks), (''position'', PInt 5)]"

definition demo_rows :: "pyval list" where
  "demo_rows = [demo_row ''https://a.ir/b//c'' ''2026-01-01'' 10 2, demo_row ''https://a.ir/b/c'' ''2026-01-01'' 30 1]"

definition demo_response :: "pyval list \<Rightarrow> gsc_response" where
  "demo_response rows = \<lparr>rg_response_id = ''r'', rg_site_id = ''s'', rg_fetch_date = 3,
     rg_raw_payload = [(''rows'', PList rows)], rg_created_at = 0\<rparr>"

section \<open>Properties\<close>

text \<open>
  C16. What one response is turned into agrees with itself: the rows are in strict order of page,
  query and day (each identity once), the observations and the totals of the pages carry exactly
  the impressions and clicks of the rows, every day of the window has one status, which is
  observed exactly when an observation has that day, and the reconciliation of the response with
  its own totals is a match without gaps.
\<close>

theorem ingestion_consistent:
  assumes "ingest_gsc_response L r a b zeros = Inr res"
  shows "sorted_wrt (<) (map (\<lambda>x. (gr_normalized_url x, gr_normalized_query x, gr_date x)) (in_normalized_rows res))
    \<and> (\<Sum>x\<leftarrow>in_observations res. ob_impressions x) = daily_query_impressions res
    \<and> (\<Sum>x\<leftarrow>in_observations res. ob_clicks x) = daily_query_clicks res
    \<and> daily_url_impressions res = daily_query_impressions res
    \<and> daily_url_clicks res = daily_query_clicks res
    \<and> map fst (in_daily_status res) = [a..b]
    \<and> (\<forall>d st. (d, st) \<in> set (in_daily_status res) \<longrightarrow> (st = OBSERVED \<longleftrightarrow> d \<in> ob_date ` set (in_observations res)))
    \<and> (\<exists>R. reconcile_ingestion res None = Inr R \<and> rr_is_valid R \<and> \<not> rr_is_partial R
         \<and> rr_impression_status R = RECON_MATCH \<and> rr_click_status R = RECON_MATCH
         \<and> rr_impression_gap R = 0 \<and> rr_click_gap R = 0)"
proof -
  obtain rows obs ms st where r: "normalize_gsc_response L r = Inr rows" "rows_to_observations rows = Inr obs"
      "aggregate_url_daily_metrics rows = Inr ms" "classify_daily_window a b obs zeros = Inr st"
    and res: "in_normalized_rows res = rows" "in_observations res = obs" "in_url_daily_metrics res = ms"
      "in_daily_status res = st"
    using assms by (auto simp: ingest_gsc_response_def and_maybe_Inr)
  have ok: "\<forall>x \<in> set rows. row_ok x" using normalize_gsc_response_rows [OF r(1)] by blast
  have obs: "map ob_impressions obs = map gr_impressions rows" "map ob_clicks obs = map gr_clicks rows"
    using rows_observed r(2) by (auto simp: rows_to_observations_def)
  note totals = aggregate_totals [OF ok r(3)]
  have days: "st = classify_missing_days [a..b] obs zeros"
    using r(4) by (auto simp: classify_daily_window_def expand_date_range_def dates_from_upto split: if_splits)
  have "map fst st = [a..b]" unfolding days
    by (simp add: classify_missing_days_def Let_def comp_def distinct_remdups_id sorted_sort_id)
  moreover have "\<forall>d s. (d, s) \<in> set st \<longrightarrow> (s = OBSERVED \<longleftrightarrow> d \<in> ob_date ` set obs)"
    unfolding days by (auto simp: classify_missing_days_def Let_def split: if_splits)
  moreover have "0 \<le> (\<Sum>x\<leftarrow>rows. gr_impressions x)" "0 \<le> (\<Sum>x\<leftarrow>rows. gr_clicks x)"
    using ok by (auto intro!: sum_list_nonneg simp: row_ok_def gsc_row_valid_def)
  ultimately show ?thesis using normalize_strict [OF r(1)] obs totals
    by (simp add: Let_def res daily_query_impressions_def daily_query_clicks_def daily_url_impressions_def
        daily_url_clicks_def reconcile_ingestion_def new_reconciliation_input_def reconcile_input_def
        classify_totals_def)
qed

lemma ingestion_consistent_witness:
  "case ingest_gsc_response demo_library (demo_response demo_rows) 1 3 None of Inl _ \<Rightarrow> False
     | Inr res \<Rightarrow> daily_url_impressions res = daily_query_impressions res \<and> daily_query_impressions res = 40
         \<and> length (in_normalized_rows res) = 1"
proof -
  have "case ingest_gsc_response demo_library (demo_response demo_rows) 1 3 None of Inl _ \<Rightarrow> False
     | Inr res \<Rightarrow> daily_query_impressions res = 40 \<and> length (in_normalized_rows res) = 1"
    by code_simp
  then show ?thesis using ingestion_consistent [of demo_library "demo_response demo_rows" 1 3 None]
    by (auto split: sum.splits)
qed

text \<open>
  C35. A row sent again is not counted again: a response in which a row is repeated later, anywhere
  among the others, is turned into exactly what it is turned into without the repetition, or
  refused with the same error.
\<close>

theorem retransmission_ignored:
  assumes "y \<in> set xs" and "map_of p ''rows'' = Some (PList (xs @ ys))"
    and "map_of p' = (map_of p)(''rows'' \<mapsto> PList (xs @ y # ys))"
  shows "ingest_gsc_response L (r\<lparr>rg_raw_payload := p'\<rparr>) a b zeros = ingest_gsc_response L (r\<lparr>rg_raw_payload := p\<rparr>) a b zeros
    \<and> normalize_url_gsc_response L (r\<lparr>rg_raw_payload := p'\<rparr>) = normalize_url_gsc_response L (r\<lparr>rg_raw_payload := p\<rparr>)"
proof -
  have "field p' ''dimensions'' = field p ''dimensions''" using assms(3) by (simp add: field_def)
  then have "groups L (r\<lparr>rg_raw_payload := p'\<rparr>) q = groups L (r\<lparr>rg_raw_payload := p\<rparr>) q" for q
    using assms(2,3) group_rows_again [OF assms(1)] by (simp add: groups_def Let_def)
  then show ?thesis
    by (simp add: ingest_gsc_response_def normalize_gsc_response_def normalize_url_gsc_response_def)
qed

lemma retransmission_ignored_witness:
  "ingest_gsc_response demo_library (demo_response (demo_rows @ [hd demo_rows])) 1 3 None
     = ingest_gsc_response demo_library (demo_response demo_rows) 1 3 None"
  using retransmission_ignored [of "hd demo_rows" demo_rows "[(''rows'', PList (demo_rows @ []))]" "[]"
      "[(''rows'', PList (demo_rows @ [hd demo_rows]))]" demo_library "demo_response demo_rows" 1 3 None]
  by (simp add: demo_response_def demo_rows_def fun_eq_iff)

end
