(* ===== verification/Pipeline.thy ===== *)
theory Pipeline
  imports Decision_Facts Ingestion
begin

text \<open>
  \<open>app/models/pipeline.py\<close> and \<open>app/pipeline/decision.py\<close>: one raw response is ingested and
  reconciled, and what survives goes to the decision engine. The observation of the call for
  monitoring (\<open>@observe\<close>) does not change its result and is left out. The properties are about
  the whole way from the response to the action.
\<close>

section \<open>The pipeline\<close>

datatype pipeline_status = COMPLETED | REJECTED_RECONCILIATION | REJECTED_DATA_QUALITY

record pipeline_result =
  pr_status :: pipeline_status
  pr_ingestion :: ingestion_result
  pr_reconciliation :: reconciliation_result
  pr_evidence :: "decision_evidence option"
  pr_features :: "feature_set option"
  pr_signals :: "signal list"
  pr_classification :: classification
  pr_candidate :: "candidate option"
  pr_opportunity :: "opportunity option"
  pr_strategy :: "strategy option"
  pr_action :: "action option"
  pr_investigation_queue :: "candidate list"
  pr_learning_context :: "learning_context option"

definition rejected_classification :: "string \<Rightarrow> exn + classification" where
  "rejected_classification reason = new_classification CLASS_REJECT 0 [reason] 0 0"

definition build_decision_evidence ::
  "gsc_response \<Rightarrow> string \<Rightarrow> string \<Rightarrow> observation list \<Rightarrow> url_metric list \<Rightarrow> url_metric list
    \<Rightarrow> ingestion_result \<Rightarrow> reconciliation_result \<Rightarrow> snapshot \<Rightarrow> decision_evidence" where
  "build_decision_evidence response url query baseline baseline_metrics current_metrics ing rec snap =
     \<lparr>de_site_id = rg_site_id response, de_normalized_url = url, de_normalized_query = query,
      de_baseline_observations = baseline, de_current_observations = in_observations ing,
      de_baseline_url_metrics = baseline_metrics, de_current_url_metrics = current_metrics,
      de_baseline_daily_status = map (\<lambda>x. (ob_date x, ob_data_status x)) baseline,
      de_current_daily_status = in_daily_status ing, de_reconciliation = rec, de_snapshot = snap\<rparr>"

text \<open>The result of a rejected response, before (\<open>None\<close>) or after the engine looked at its quality.\<close>

definition rejected ::
  "pipeline_status \<Rightarrow> ingestion_result \<Rightarrow> reconciliation_result \<Rightarrow> decision_evidence option
    \<Rightarrow> feature_set option \<Rightarrow> classification \<Rightarrow> learning_context option \<Rightarrow> pipeline_result" where
  "rejected st ing rec evidence features cl learning =
     \<lparr>pr_status = st, pr_ingestion = ing, pr_reconciliation = rec, pr_evidence = evidence,
      pr_features = features, pr_signals = [], pr_classification = cl, pr_candidate = None,
      pr_opportunity = None, pr_strategy = None, pr_action = None, pr_investigation_queue = [],
      pr_learning_context = learning\<rparr>"

definition completed :: "ingestion_result \<Rightarrow> reconciliation_result \<Rightarrow> decision_evidence \<Rightarrow> decision_result \<Rightarrow> pipeline_result" where
  "completed ing rec evidence d =
     \<lparr>pr_status = COMPLETED, pr_ingestion = ing, pr_reconciliation = rec, pr_evidence = Some evidence,
      pr_features = Some (dr_features d), pr_signals = dr_signals d,
      pr_classification = dr_classification d, pr_candidate = dr_candidate d,
      pr_opportunity = dr_opportunity d, pr_strategy = dr_strategy d, pr_action = dr_action d,
      pr_investigation_queue = dr_investigation_queue d, pr_learning_context = dr_learning_context d\<rparr>"

definition run_decision_pipeline ::
  "numerics \<Rightarrow> std_library \<Rightarrow> gsc_response \<Rightarrow> day \<Rightarrow> day \<Rightarrow> observation list \<Rightarrow> url_metric list \<Rightarrow> snapshot
    \<Rightarrow> string \<Rightarrow> string \<Rightarrow> string \<Rightarrow> day list option \<Rightarrow> url_metric list option \<Rightarrow> learning_context option
    \<Rightarrow> exn + pipeline_result" where
  "run_decision_pipeline N L response start_date end_date baseline baseline_metrics snap candidate_id
     url query expected_zero_dates current_url_metrics learning =
     and_maybe (ingest_gsc_response L response start_date end_date expected_zero_dates) (\<lambda>ing.
       let current_metrics = (case current_url_metrics of Some ms \<Rightarrow> ms | None \<Rightarrow> in_url_daily_metrics ing) in
       and_maybe (reconcile_ingestion ing (Some current_metrics)) (\<lambda>rec.
         if \<not> rr_is_valid rec
         then and_maybe (rejected_classification ''invalid_reconciliation'') (\<lambda>cl.
           Inr (rejected REJECTED_RECONCILIATION ing rec None None cl learning))
         else
           let evidence = build_decision_evidence response url query baseline baseline_metrics current_metrics ing rec snap in
           and_maybe (run_decision_engine N evidence candidate_id learning) (\<lambda>d.
             if dr_candidate d = None
             then Inr (rejected REJECTED_DATA_QUALITY ing rec (Some evidence) (Some (dr_features d))
                         (dr_classification d) learning)
             else Inr (completed ing rec evidence d))))"

section \<open>From the response to the engine\<close>

text \<open>What the caller hands over besides the response.\<close>

definition pipeline_given ::
  "gsc_response \<Rightarrow> observation list \<Rightarrow> string \<Rightarrow> string \<Rightarrow> string \<Rightarrow> url_metric list option \<Rightarrow> bool" where
  "pipeline_given response baseline candidate_id url query current_url_metrics \<longleftrightarrow>
     rg_site_id response \<noteq> [] \<and> candidate_id \<noteq> [] \<and> url \<noteq> [] \<and> query \<noteq> []
     \<and> (\<forall>x \<in> set baseline. observation_valid x)
     \<and> (\<forall>ms. current_url_metrics = Some ms \<longrightarrow> (\<forall>m \<in> set ms. url_metric_valid m))"

lemma ingested:
  assumes "ingest_gsc_response L r a b zeros = Inr ing"
  shows "(\<Sum>x\<leftarrow>in_observations ing. ob_impressions x) = daily_query_impressions ing"
    and "\<forall>x \<in> set (in_observations ing). observation_valid x"
    and "\<forall>m \<in> set (in_url_daily_metrics ing). url_metric_valid m"
    and "0 \<le> daily_query_impressions ing" and "0 \<le> daily_query_clicks ing"
proof -
  obtain rows obs ms where r: "normalize_gsc_response L r = Inr rows" "collect row_to_observation rows = Inr obs"
      "aggregate_url_daily_metrics rows = Inr ms"
    and ing: "in_normalized_rows ing = rows" "in_observations ing = obs" "in_url_daily_metrics ing = ms"
    using assms by (auto simp: ingest_gsc_response_def and_maybe_Inr rows_to_observations_def)
  have ok: "\<forall>x \<in> set rows. row_ok x" using normalize_gsc_response_rows [OF r(1)] by blast
  note obs = rows_observed [OF r(2)]
  show "(\<Sum>x\<leftarrow>in_observations ing. ob_impressions x) = daily_query_impressions ing"
    using obs by (simp add: ing daily_query_impressions_def)
  show "\<forall>x \<in> set (in_observations ing). observation_valid x" using obs by (simp add: ing)
  show "0 \<le> daily_query_impressions ing" "0 \<le> daily_query_clicks ing"
    using ok by (auto intro!: sum_list_nonneg simp: ing daily_query_impressions_def daily_query_clicks_def
        row_ok_def gsc_row_valid_def)
  have "url_metric_valid (entry_metric e)" if "e \<in> set (foldl add_row [] rows)" for e
  proof -
    obtain site url d i c where e: "e = ((site, url, d), (i, c))" by (metis prod.exhaust)
    show ?thesis using aggregate_entry [OF ok that [unfolded e]]
      by (simp add: e url_metric_valid_def)
  qed
  then show "\<forall>m \<in> set (in_url_daily_metrics ing). url_metric_valid m"
    using r(3) unfolding aggregate_result [OF ok] by (auto simp: ing)
qed

lemma classify_totals_cases: "fst (classify_totals q u) \<noteq> RECON_INVALID \<longleftrightarrow> q \<le> u"
  by (simp add: classify_totals_def)

lemma reconciled:
  assumes "0 \<le> daily_query_impressions ing" and "0 \<le> daily_query_clicks ing"
    and "\<forall>m \<in> set ms. url_metric_valid m"
  obtains rec where "reconcile_ingestion ing (Some ms) = Inr rec"
    and "rr_is_valid rec \<longleftrightarrow> daily_query_impressions ing \<le> (\<Sum>m\<leftarrow>ms. um_total_impressions m)
      \<and> daily_query_clicks ing \<le> (\<Sum>m\<leftarrow>ms. um_total_clicks m)"
proof -
  have nonneg: "0 \<le> (\<Sum>m\<leftarrow>ms. um_total_impressions m)" "0 \<le> (\<Sum>m\<leftarrow>ms. um_total_clicks m)"
    using assms(3) by (auto intro!: sum_list_nonneg simp: url_metric_valid_def)
  obtain st1 gap1 st2 gap2 where
    c: "classify_totals (daily_query_impressions ing) (\<Sum>m\<leftarrow>ms. um_total_impressions m) = (st1, gap1)"
      "classify_totals (daily_query_clicks ing) (\<Sum>m\<leftarrow>ms. um_total_clicks m) = (st2, gap2)"
    by (metis prod.exhaust)
  then have "st1 \<noteq> RECON_INVALID \<longleftrightarrow> daily_query_impressions ing \<le> (\<Sum>m\<leftarrow>ms. um_total_impressions m)"
    "st2 \<noteq> RECON_INVALID \<longleftrightarrow> daily_query_clicks ing \<le> (\<Sum>m\<leftarrow>ms. um_total_clicks m)"
    using classify_totals_cases by (metis fst_conv)+
  then show thesis using that nonneg assms(1,2)
    by (simp add: reconcile_ingestion_def new_reconciliation_input_def reconcile_input_def Let_def c)
qed

section \<open>What the result holds\<close>

definition pipeline_valid :: "pipeline_result \<Rightarrow> bool" where
  "pipeline_valid r \<longleftrightarrow> (\<forall>f. pr_features r = Some f \<longrightarrow> feature_set_valid f)
     \<and> (\<forall>s \<in> set (pr_signals r). signal_ok s) \<and> classification_valid (pr_classification r)
     \<and> (\<forall>c. pr_candidate r = Some c \<longrightarrow> candidate_valid c)
     \<and> (\<forall>p. pr_opportunity r = Some p \<longrightarrow> opportunity_valid p)
     \<and> (\<forall>s. pr_strategy r = Some s \<longrightarrow> strategy_valid s)
     \<and> (\<forall>a. pr_action r = Some a \<longrightarrow> action_valid a)"

lemma pipeline_cases:
  assumes law: "median_law N" and given: "pipeline_given response baseline i url query metrics"
    and ing: "ingest_gsc_response L response a b zeros = Inr ing"
  obtains (unreconciled) rec cl where
      "run_decision_pipeline N L response a b baseline bms snap i url query zeros metrics learning
        = Inr (rejected REJECTED_RECONCILIATION ing rec None None cl learning)"
      and "\<not> rr_is_valid rec" and "classification_valid cl"
  | (unfit) rec e d where
      "run_decision_pipeline N L response a b baseline bms snap i url query zeros metrics learning
        = Inr (rejected REJECTED_DATA_QUALITY ing rec (Some e) (Some (dr_features d)) (dr_classification d) learning)"
      and "rr_is_valid rec" and "result_valid d"
      and "\<not> passes_data_quality_gate (fs_data_quality (dr_features d))"
  | (decided) rec e d where
      "run_decision_pipeline N L response a b baseline bms snap i url query zeros metrics learning
        = Inr (completed ing rec e d)"
      and "rr_is_valid rec" and "result_valid d" and "rests_on_evidence d"
      and "passes_data_quality_gate (fs_data_quality (dr_features d))"
      and "evidence_features N e = Inr (dr_features d)"
      and "e = build_decision_evidence response url query baseline bms
        (case metrics of Some ms \<Rightarrow> ms | None \<Rightarrow> in_url_daily_metrics ing) ing rec snap"
      and "detect_all_signals (dr_features d) = Inr (dr_signals d)"
      and "classify_signals (dr_signals d) (1 / 2) (Some (fs_data_quality (dr_features d))) = Inr (dr_classification d)"
      and "dr_action d \<noteq> None \<longleftrightarrow> cl_status (dr_classification d) = CLASS_INVESTIGATE"
      and "dr_investigation_queue d = (case dr_candidate d of None \<Rightarrow> []
         | Some c \<Rightarrow> if dr_action d \<noteq> None then [c] else [])"
proof -
  note I = ingested [OF ing]
  note goals = that
  define ms where "ms = (case metrics of Some ms \<Rightarrow> ms | None \<Rightarrow> in_url_daily_metrics ing)"
  have ms: "\<forall>m \<in> set ms. url_metric_valid m"
    using given I(3) by (auto simp: ms_def pipeline_given_def split: option.splits)
  obtain rec where rec: "reconcile_ingestion ing (Some ms) = Inr rec"
      "rr_is_valid rec \<longleftrightarrow> daily_query_impressions ing \<le> (\<Sum>m\<leftarrow>ms. um_total_impressions m)
      \<and> daily_query_clicks ing \<le> (\<Sum>m\<leftarrow>ms. um_total_clicks m)"
    by (rule reconciled [OF I(4,5) ms])
  show thesis
  proof (cases "rr_is_valid rec")
    case False
    then show thesis
      by (intro goals(1) [of rec "\<lparr>cl_status = CLASS_REJECT, cl_confidence = 0, cl_reasons = [''invalid_reconciliation''],
            cl_signal_count = 0, cl_risk_count = 0\<rparr>"])
        (simp_all add: run_decision_pipeline_def ing rec(1) ms_def [symmetric] rejected_classification_def
          new_classification_def classification_valid_def)
  next
    case True
    define e where "e = build_decision_evidence response url query baseline bms ms ing rec snap"
    have e: "evidence_ok e"
      using given I(1,2) ms True rec(2)
      by (simp add: e_def evidence_ok_def build_decision_evidence_def pipeline_given_def)
    have "i \<noteq> []" using given by (simp add: pipeline_given_def)
    from run_decision_engine_ok [OF law e this, of learning] obtain d where
      d: "run_decision_engine N e i learning = Inr d" "result_valid d" "rests_on_evidence d"
        "evidence_features N e = Inr (dr_features d)"
        "passes_data_quality_gate (fs_data_quality (dr_features d)) \<longrightarrow>
           detect_all_signals (dr_features d) = Inr (dr_signals d)
           \<and> classify_signals (dr_signals d) (1 / 2) (Some (fs_data_quality (dr_features d))) = Inr (dr_classification d)"
        "dr_candidate d = None \<longleftrightarrow> \<not> passes_data_quality_gate (fs_data_quality (dr_features d))"
        "dr_action d \<noteq> None \<longleftrightarrow> cl_status (dr_classification d) = CLASS_INVESTIGATE"
        "dr_investigation_queue d = (case dr_candidate d of None \<Rightarrow> []
           | Some c \<Rightarrow> if dr_action d \<noteq> None then [c] else [])"
      by (elim exE conjE) (rule that)
    have run: "run_decision_pipeline N L response a b baseline bms snap i url query zeros metrics learning
        = (if dr_candidate d = None
             then Inr (rejected REJECTED_DATA_QUALITY ing rec (Some e) (Some (dr_features d)) (dr_classification d) learning)
             else Inr (completed ing rec e d))"
      by (simp add: run_decision_pipeline_def ing rec(1) True ms_def [symmetric] e_def [symmetric] d(1))
    show thesis
    proof (cases "passes_data_quality_gate (fs_data_quality (dr_features d))")
      case False
      then show thesis using run d(6) by (intro goals(2) [OF _ True d(2) False]) simp
    next
      case gate: True
      have "run_decision_pipeline N L response a b baseline bms snap i url query zeros metrics learning
          = Inr (completed ing rec e d)" using run d(6) gate by simp
      then show thesis
        by (rule goals(3) [OF _ True d(2,3) gate d(4) _ conjunct1 [OF d(5) [rule_format, OF gate]]
              conjunct2 [OF d(5) [rule_format, OF gate]] d(7,8)]) (simp add: e_def ms_def)
    qed
  qed
qed

section \<open>A response that becomes an action\<close>

definition demo_numerics :: numerics where
  "demo_numerics = \<lparr>nu_median = (\<lambda>xs. sort xs ! ((length xs - 1) div 2)), nu_slope = (\<lambda>xs ys. 0), nu_repr = (\<lambda>x. [])\<rparr>"

lemma demo_median: "median_law demo_numerics"
proof -
  have "sort xs ! ((length xs - 1) div 2) \<in> set xs" if "xs \<noteq> []" for xs :: "rat list"
  proof -
    have "(length xs - 1) div 2 < length (sort xs)" using that by (cases xs) auto
    then have "sort xs ! ((length xs - 1) div 2) \<in> set (sort xs)" by (rule nth_mem)
    then show ?thesis by simp
  qed
  then show ?thesis by (auto simp: median_law_def demo_numerics_def)
qed

definition today :: gsc_response where
  "today = demo_response [demo_row ''https://a.ir/b'' ''2026-01-01'' 1000 50]"

definition before :: "observation list" where
  "before = [\<lparr>ob_site_id = ''s'', ob_normalized_url = ''https://a.ir/b'', ob_normalized_query = ''shoes'', ob_date = 0,
     ob_impressions = 1000, ob_clicks = 200, ob_avg_position = Some 5, ob_data_status = OBSERVED,
     ob_calendar_context = \<lparr>cc_is_weekend = False, cc_holiday_overlap = False, cc_event_type = None\<rparr>,
     ob_retrieved_at = None\<rparr>]"

definition demo_ingested :: ingestion_result where
  "demo_ingested = \<lparr>in_site_id = ''s'', in_response_id = ''r'',
     in_normalized_rows = [\<lparr>gr_site_id = ''s'', gr_date = 1, gr_normalized_url = ''https://a.ir/b'',
        gr_normalized_query = ''shoes'', gr_impressions = 1000, gr_clicks = 50, gr_avg_position = Some 5\<rparr>],
     in_observations = [\<lparr>ob_site_id = ''s'', ob_normalized_url = ''https://a.ir/b'',
        ob_normalized_query = ''shoes'', ob_date = 1, ob_impressions = 1000, ob_clicks = 50, ob_avg_position = Some 5,
        ob_data_status = OBSERVED,
        ob_calendar_context = \<lparr>cc_is_weekend = False, cc_holiday_overlap = False, cc_event_type = None\<rparr>,
        ob_retrieved_at = None\<rparr>],
     in_url_daily_metrics = [\<lparr>um_site_id = ''s'', um_normalized_url = ''https://a.ir/b'', um_date = 1,
        um_total_impressions = 1000, um_total_clicks = 50, um_data_status = OBSERVED\<rparr>],
     in_daily_status = [(1, OBSERVED)]\<rparr>"

abbreviation demo_pipeline :: "exn + pipeline_result" where
  "demo_pipeline \<equiv> run_decision_pipeline demo_numerics demo_library today 1 1 before [] taught_snapshot ''c''
     ''https://a.ir/b'' ''shoes'' None None None"

lemma demo_inputs: "pipeline_given today before ''c'' ''https://a.ir/b'' ''shoes'' None"
  by (simp add: pipeline_given_def today_def before_def demo_response_def observation_valid_def position_valid_def)

lemma demo_ingested: "ingest_gsc_response demo_library today 1 1 None = Inr demo_ingested"
  by code_simp

lemmas demo_ingested_parts = demo_ingested_def daily_query_impressions_def daily_query_clicks_def

definition demo_features :: feature_set where
  "demo_features =
     \<lparr>fs_volume = \<lparr>vo_current_impressions = 1000, vo_current_clicks = 50, vo_baseline_impressions = 1000,
        vo_baseline_clicks = 200\<rparr>,
      fs_ctr = \<lparr>ct_baseline_ctr = int_div 200 1000, ct_current_ctr = int_div 50 1000,
        ct_absolute_delta = calculate_ctr_delta (int_div 200 1000) (int_div 50 1000),
        ct_relative_change = calculate_relative_ctr_change (int_div 200 1000) (int_div 50 1000),
        ct_baseline_ctr_zero = False\<rparr>,
      fs_position = \<lparr>po_baseline_median = 5, po_current_median = 5, po_delta = 0, po_mad_current = 0,
        po_trend_slope = 0, po_trend_direction = ''stable''\<rparr>,
      fs_visibility = \<lparr>vi_query_impressions = 1000, vi_url_total_impressions = 1000, vi_query_visibility_share = 1\<rparr>,
      fs_data_quality = \<lparr>dq_url_level_completeness = 1, dq_query_level_completeness = 1,
        dq_current_window_completeness = 1, dq_baseline_window_completeness = 1,
        dq_reconciliation_completeness = 1\<rparr>\<rparr>"

lemma demo_features_facts: "feature_set_valid demo_features" "passes_data_quality_gate (fs_data_quality demo_features)"
proof -
  have "unit_score (int_div 200 1000)" "unit_score (int_div 50 1000)"
    by (simp_all add: unit_score_def int_div_nonneg int_div_le_1)
  then show "feature_set_valid demo_features"
    by (simp add: demo_features_def feature_set_valid_def volume_valid_def ctr_valid_def position_features_valid_def
        visibility_valid_def data_quality_valid_def)
  have "decimal 8 1 \<le> 1" by code_simp
  then show "passes_data_quality_gate (fs_data_quality demo_features)"
    by (simp add: demo_features_def passes_data_quality_gate_def)
qed

lemma demo_thresholds:
  "decimal 8 1 \<le> 1" "calculate_ctr_delta (int_div 200 1000) (int_div 50 1000) \<le> - decimal 2 2"
  "int_div 50 1000 \<le> decimal 8 2" "min 1 (fmul 1 1) = 1"
  by code_simp+

lemma demo_investigate:
  "case detect_all_signals demo_features of Inl _ \<Rightarrow> False | Inr sigs \<Rightarrow>
     (case classify_signals sigs (1 / 2) (Some (fs_data_quality demo_features)) of Inl _ \<Rightarrow> False
      | Inr cl \<Rightarrow> cl_status cl = CLASS_INVESTIGATE)"
proof -
  have whole: "\<not> window_incomplete demo_features (decimal 8 1)" "window_confidence demo_features = 1"
    using demo_thresholds by (simp_all add: window_incomplete_def window_confidence_def demo_features_def not_less)
  obtain a where a: "detect_ctr_drop (decimal 2 2) (decimal 5 2) (decimal 8 1) demo_features = Inr a"
      "sg_signal_type a = CTR_DROP" "sg_detected a" "sg_confidence a = 1"
    using whole demo_thresholds(2) unfolding detect_ctr_drop_def Let_def new_signal_def
    by (simp add: demo_features_def del: One_nat_def dict_merge_Cons)
  obtain b where b: "detect_position_decline (3 / 2) 3 (decimal 8 1) demo_features = Inr b" "\<not> sg_detected b"
    using whole unfolding detect_position_decline_def Let_def undetected_def new_signal_def
    by (simp add: demo_features_def del: One_nat_def dict_merge_Cons)
  obtain c where c: "detect_high_value_opportunity 100 4 20 (decimal 8 2) (decimal 8 1) demo_features = Inr c"
      "sg_signal_type c = HIGH_VALUE_OPPORTUNITY" "sg_detected c" "sg_confidence c = 1"
    using whole demo_thresholds(3) unfolding detect_high_value_opportunity_def Let_def new_signal_def
    by (simp add: demo_features_def not_less del: One_nat_def dict_merge_Cons)
  obtain d where d: "detect_position_volatility (3 / 2) 3 (decimal 8 1) demo_features = Inr d" "\<not> sg_detected d"
    using whole unfolding detect_position_volatility_def Let_def undetected_def new_signal_def
    by (simp add: demo_features_def del: One_nat_def dict_merge_Cons)
  have "detect_all_signals demo_features = Inr [a, b, c, d]"
    unfolding detect_all_signals_def a(1) b(1) c(1) d(1) collect.simps and_maybe_simps with_risks_def
      detect_signal_risks_def
    using a b c d by simp
  then show ?thesis using a b c d demo_features_facts(2)
    by (simp add: classify_signals_def is_risk_def is_actionable_def max_of_def new_classification_def)
qed

definition demo_reconciliation :: reconciliation_result where
  "demo_reconciliation = \<lparr>rr_impression_status = RECON_MATCH, rr_click_status = RECON_MATCH,
     rr_query_impressions = 1000, rr_url_impressions = 1000, rr_query_clicks = 50, rr_url_clicks = 50,
     rr_impression_gap = 0, rr_click_gap = 0, rr_is_valid = True, rr_is_partial = False\<rparr>"

definition demo_evidence :: decision_evidence where
  "demo_evidence = build_decision_evidence today ''https://a.ir/b'' ''shoes'' before []
     (in_url_daily_metrics demo_ingested) demo_ingested demo_reconciliation taught_snapshot"

lemma demo_reconciled:
  "reconcile_ingestion demo_ingested (Some (in_url_daily_metrics demo_ingested)) = Inr demo_reconciliation"
  by (simp add: reconcile_ingestion_def new_reconciliation_input_def reconcile_input_def demo_ingested_parts
      classify_totals_def demo_reconciliation_def)

lemma demo_whole: "int_div 1000 1000 = 1" "int_div 1 1 = 1" "fdiv (fadd 1 1) 2 = 1" "fsub 5 5 = 0" "int_div 200 1000 \<noteq> 0"
  "classify_trend 0 (decimal 5 2) = ''stable''"
  by code_simp+

lemma demo_evidence_facts:
  "evidence_features demo_numerics demo_evidence = Inr demo_features" "evidence_ok demo_evidence"
proof -
  have pos: "valid_positions (in_observations demo_ingested) = [5]" "valid_positions before = [5]"
    by (simp_all add: valid_positions_def demo_ingested_parts before_def usable_def List.map_filter_def)
  have ctr: "calculate_ctr (in_observations demo_ingested) = int_div 50 1000" "calculate_ctr before = int_div 200 1000"
    by (simp_all add: calculate_ctr_def usable_observations_def demo_ingested_parts before_def usable_def)
  show "evidence_ok demo_evidence"
    by (simp add: evidence_ok_def demo_evidence_def build_decision_evidence_def demo_ingested_parts before_def today_def
        demo_response_def observation_valid_def position_valid_def url_metric_valid_def)
  show "evidence_features demo_numerics demo_evidence = Inr demo_features"
    unfolding evidence_features_def extract_feature_set_def Let_def demo_evidence_def build_decision_evidence_def
      decision_evidence.simps ctr calculate_median_position_def calculate_mad_def calculate_trend_slope_def pos
    using demo_features_facts(1) demo_whole
    by (simp add: demo_features_def demo_numerics_def before_def demo_ingested_parts calculate_completeness_def
        calculate_window_completeness_def usable_def calculate_reconciliation_completeness_def
        demo_reconciliation_def calculate_position_delta_def)
qed

lemma demo_valid: "rr_is_valid demo_reconciliation"
  by (simp add: demo_reconciliation_def)

lemma demo_acts:
  obtains d act where "demo_pipeline = Inr (completed demo_ingested demo_reconciliation demo_evidence d)"
    and "dr_action d = Some act"
proof -
  have "''c'' \<noteq> []" by simp
  from run_decision_engine_ok [OF demo_median demo_evidence_facts(2) this, of None] obtain d where
    d: "run_decision_engine demo_numerics demo_evidence ''c'' None = Inr d"
      "evidence_features demo_numerics demo_evidence = Inr (dr_features d)"
      "passes_data_quality_gate (fs_data_quality (dr_features d)) \<longrightarrow>
         detect_all_signals (dr_features d) = Inr (dr_signals d)
         \<and> classify_signals (dr_signals d) (1 / 2) (Some (fs_data_quality (dr_features d))) = Inr (dr_classification d)"
      "dr_candidate d = None \<longleftrightarrow> \<not> passes_data_quality_gate (fs_data_quality (dr_features d))"
      "dr_action d \<noteq> None \<longleftrightarrow> cl_status (dr_classification d) = CLASS_INVESTIGATE"
    by (elim exE conjE) (rule that)
  have f: "dr_features d = demo_features" using d(2) demo_evidence_facts(1) by simp
  then have "cl_status (dr_classification d) = CLASS_INVESTIGATE"
    using d(3) demo_features_facts(2) demo_investigate by auto
  then obtain act where "dr_action d = Some act" using d(5) by blast
  moreover have "demo_pipeline = Inr (completed demo_ingested demo_reconciliation demo_evidence d)"
    using d(1,4) f demo_features_facts(2)
    by (auto simp: run_decision_pipeline_def demo_ingested demo_reconciled Let_def demo_evidence_def [symmetric]
        demo_valid)
  ultimately show thesis using that by blast
qed

section \<open>Properties\<close>

text \<open>
  C15. The pipeline always answers: given valid observations and totals, every response that can be
  read leads to a result and no step after it raises, and every record in the result (features,
  signals, classification, candidate, opportunity, strategy, action) satisfies the constraints of
  its model; in particular every score, as floating-point arithmetic rounds it, is between zero
  and one. The median of numpy is only assumed to lie between its smallest and largest argument.
\<close>

theorem pipeline_total:
  assumes "median_law N" and "pipeline_given response baseline i url query metrics"
    and "ingest_gsc_response L response a b zeros = Inr ing"
  shows "\<exists>r. run_decision_pipeline N L response a b baseline bms snap i url query zeros metrics learning = Inr r
    \<and> pipeline_valid r \<and> pr_ingestion r = ing"
  by (rule pipeline_cases [OF assms, of bms snap learning])
    (simp_all add: rejected_def completed_def pipeline_valid_def result_valid_def)

lemma pipeline_total_witness: "\<exists>r. demo_pipeline = Inr r \<and> pipeline_valid r"
  using pipeline_total [OF demo_median demo_inputs demo_ingested, of "[]" taught_snapshot None] by blast

text \<open>
  C14. No action without evidence: when the pipeline returns an action, the response was complete
  and reconciled with the totals of its pages, the completeness of both windows passed the gate,
  the classification is to investigate with a confidence of at least one half, the measured change
  passed the threshold of one of the detectors (the click rate, the position, or an opportunity
  worth more), the action is the one its strategy stands for, and an action that changes a page
  waits for approval; a rejected response has no action, and the queue holds the candidate exactly
  when there is an action.
\<close>

theorem pipeline_acts_on_evidence:
  assumes "median_law N" and "pipeline_given response baseline i url query metrics"
    and "ingest_gsc_response L response a b zeros = Inr ing"
    and "run_decision_pipeline N L response a b baseline bms snap i url query zeros metrics learning = Inr r"
    and "pr_action r = Some act"
  shows "pr_status r = COMPLETED \<and> rr_is_valid (pr_reconciliation r)
    \<and> (\<exists>f. pr_features r = Some f \<and> passes_data_quality_gate (fs_data_quality f)
         \<and> (ctr_dropped f \<or> position_declined f \<or> worth_more f))
    \<and> cl_status (pr_classification r) = CLASS_INVESTIGATE \<and> 1 / 2 \<le> cl_confidence (pr_classification r)
    \<and> (\<exists>s. pr_strategy r = Some s \<and> ac_action_type act = strategy_to_action (st_strategy_type s))
    \<and> (ac_action_type act \<in> {OPTIMIZE_TITLE, OPTIMIZE_META_DESCRIPTION, IMPROVE_CONTENT_DEPTH}
         \<longrightarrow> ac_status act = AWAITING_APPROVAL)
    \<and> (\<forall>c. pr_candidate r = Some c \<longrightarrow> pr_investigation_queue r = [c])"
proof (rule pipeline_cases [OF assms(1-3), of bms snap learning])
  fix rec cl
  assume "run_decision_pipeline N L response a b baseline bms snap i url query zeros metrics learning
      = Inr (rejected REJECTED_RECONCILIATION ing rec None None cl learning)"
  then show ?thesis using assms(4,5) by (simp add: rejected_def)
next
  fix rec e d
  assume "run_decision_pipeline N L response a b baseline bms snap i url query zeros metrics learning
      = Inr (rejected REJECTED_DATA_QUALITY ing rec (Some e) (Some (dr_features d)) (dr_classification d) learning)"
  then show ?thesis using assms(4,5) by (simp add: rejected_def)
next
  fix rec e d
  assume run: "run_decision_pipeline N L response a b baseline bms snap i url query zeros metrics learning = Inr (completed ing rec e d)"
    and d: "rr_is_valid rec" "rests_on_evidence d"
    and q: "dr_investigation_queue d = (case dr_candidate d of None \<Rightarrow> [] | Some c \<Rightarrow> if dr_action d \<noteq> None then [c] else [])"
  have r: "r = completed ing rec e d" using run assms(4) by simp
  then have act: "dr_action d = Some act" using assms(5) by (simp add: completed_def)
  from d(2) obtain s where E: "passes_data_quality_gate (fs_data_quality (dr_features d))"
      "cl_status (dr_classification d) = CLASS_INVESTIGATE" "1 / 2 \<le> cl_confidence (dr_classification d)"
      "ctr_dropped (dr_features d) \<or> position_declined (dr_features d) \<or> worth_more (dr_features d)"
      "dr_strategy d = Some s" "ac_action_type act = strategy_to_action (st_strategy_type s)"
      "ac_status act = (if ac_requires_approval act then AWAITING_APPROVAL else PLANNED)"
      "ac_requires_approval act = requires_approval (ac_action_type act) (ac_risk_level act)"
    unfolding rests_on_evidence_def act option.case by (elim exE conjE) (rule that)
  show ?thesis using d(1) E q act unfolding r
    by (simp add: completed_def requires_approval_def)
qed

lemma pipeline_acts_on_evidence_witness:
  "\<exists>r act. demo_pipeline = Inr r \<and> pr_action r = Some act \<and> pr_status r = COMPLETED
     \<and> cl_status (pr_classification r) = CLASS_INVESTIGATE"
proof -
  obtain d act where d: "demo_pipeline = Inr (completed demo_ingested demo_reconciliation demo_evidence d)"
      "dr_action d = Some act" by (rule demo_acts)
  then have "pr_action (completed demo_ingested demo_reconciliation demo_evidence d) = Some act"
    by (simp add: completed_def)
  then show ?thesis
    using pipeline_acts_on_evidence [OF demo_median demo_inputs demo_ingested d(1)] d(1) by blast
qed

end
