(* ===== verification/Queue_Claims.thy ===== *)
theory Queue_Claims
  imports Decisions
begin

text \<open>
  The budget of the investigation queue (\<open>app/classifier/queue.py\<close>): what is taken, in which
  order, how many at most in all and of each cluster, and that nothing eligible is left out while
  there is room for it.
\<close>

text \<open>How many candidates of a cluster a list holds, and what a count says of it.\<close>

definition of_cluster :: "(string \<times> string) list \<Rightarrow> string \<Rightarrow> candidate list \<Rightarrow> int" where
  "of_cluster clusters k cs = int (length (filter (\<lambda>c. map_of clusters (ca_candidate_id c) = Some k) cs))"

definition counted :: "(string \<times> int) list \<Rightarrow> string \<Rightarrow> int" where
  "counted counts k = (case map_of counts k of None \<Rightarrow> 0 | Some n \<Rightarrow> n)"

lemma of_cluster_append [simp]:
  "of_cluster clusters k (xs @ ys) = of_cluster clusters k xs + of_cluster clusters k ys"
  by (simp add: of_cluster_def)

lemma of_cluster_nonneg [simp]: "0 \<le> of_cluster clusters k xs"
  by (simp add: of_cluster_def)

lemma counted_update [simp]: "counted (AList.update k n counts) k' = (if k' = k then n else counted counts k')"
  by (simp add: counted_def update_conv')

definition fills :: "int \<Rightarrow> int \<Rightarrow> (string \<times> string) list \<Rightarrow> candidate list \<Rightarrow> candidate list \<Rightarrow> candidate list \<Rightarrow> bool" where
  "fills most each clusters queue cs q \<longleftrightarrow> (\<exists>ext. q = queue @ ext \<and> subseq ext cs)
     \<and> int (length q) \<le> max (int (length queue)) most
     \<and> (\<forall>k. of_cluster clusters k q \<le> max (of_cluster clusters k queue) each)
     \<and> (\<forall>c \<in> set cs. c \<in> set q \<or> most \<le> int (length q)
          \<or> (\<exists>k. map_of clusters (ca_candidate_id c) = Some k \<and> each \<le> of_cluster clusters k q))"

lemma fills_stop: "most \<le> int (length queue) \<Longrightarrow> fills most each clusters queue cs queue"
  by (auto simp: fills_def)

lemma fills_skip:
  assumes "fills most each clusters queue cs q"
    and "map_of clusters (ca_candidate_id c) = Some k" and "each \<le> of_cluster clusters k queue"
  shows "fills most each clusters queue (c # cs) q"
proof -
  obtain ext where q: "q = queue @ ext" "subseq ext cs" using assms(1) by (auto simp: fills_def)
  have "each \<le> of_cluster clusters k q" using assms(3) of_cluster_nonneg [of clusters k ext] unfolding q(1) of_cluster_append by linarith
  then show ?thesis using assms(1,2) q unfolding fills_def by (auto intro: list_emb_Cons)
qed

lemma fills_take:
  assumes "fills most each clusters (queue @ [c]) cs q" and "int (length queue) < most"
    and "\<And>k. map_of clusters (ca_candidate_id c) = Some k \<Longrightarrow> of_cluster clusters k queue < each"
  shows "fills most each clusters queue (c # cs) q"
proof -
  obtain ext where q: "q = queue @ c # ext" "subseq ext cs" using assms(1) by (auto simp: fills_def)
  have one: "of_cluster clusters k [c] = (if map_of clusters (ca_candidate_id c) = Some k then 1 else 0)" for k
    by (simp add: of_cluster_def)
  have "of_cluster clusters k q \<le> max (of_cluster clusters k queue) each" for k
  proof -
    have "of_cluster clusters k q \<le> max (of_cluster clusters k (queue @ [c])) each"
      using assms(1) by (simp add: fills_def)
    then show ?thesis using assms(3) [of k] unfolding of_cluster_append one by (auto split: if_splits)
  qed
  moreover have "int (length q) \<le> max (int (length queue)) most"
    using assms(1,2) by (auto simp: fills_def)
  ultimately show ?thesis using assms(1) q unfolding fills_def by auto
qed

lemma fill_queue_fills:
  "\<forall>k. counted counts k = of_cluster clusters k queue \<Longrightarrow>
     fills most each clusters queue cs (fill_queue most each clusters counts queue cs)"
proof (induction cs arbitrary: counts queue)
  case Nil
  then show ?case by (simp add: fills_def)
next
  case (Cons c cs)
  show ?case
  proof (cases "most \<le> int (length queue)")
    case True
    then show ?thesis by (simp add: fills_stop)
  next
    case False
    show ?thesis
    proof (cases "map_of clusters (ca_candidate_id c)")
      case None
      then have "\<forall>k. counted counts k = of_cluster clusters k (queue @ [c])"
        using Cons.prems by (simp add: of_cluster_def)
      from Cons.IH [OF this] show ?thesis using False None by (auto intro: fills_take)
    next
      case (Some k)
      show ?thesis
      proof (cases "each \<le> counted counts k")
        case True
        then have "fills most each clusters queue (c # cs) (fill_queue most each clusters counts queue cs)"
          using Cons.IH [OF Cons.prems] Cons.prems Some by (auto intro: fills_skip)
        then show ?thesis using True False Some by (simp add: counted_def)
      next
        case few: False
        have "\<forall>k'. counted (AList.update k (counted counts k + 1) counts) k' = of_cluster clusters k' (queue @ [c])"
          using Cons.prems Some by (simp add: of_cluster_def)
        from Cons.IH [OF this] have "fills most each clusters queue (c # cs)
            (fill_queue most each clusters (AList.update k (counted counts k + 1) counts) (queue @ [c]) cs)"
          using False few Some Cons.prems by (intro fills_take) auto
        then show ?thesis using few False Some by (simp add: counted_def)
      qed
    qed
  qed
qed

lemma eligible_set: "set (eligible_candidates cs) = {c \<in> set cs. ca_status c = CAND_INVESTIGATE}"
  by (auto simp: eligible_candidates_def)

lemma eligible_sorted:
  "sorted_wrt (\<lambda>x y. ca_priority_score y \<le> ca_priority_score x) (eligible_candidates cs)"
proof -
  have "sorted (map (\<lambda>c. (- ca_priority_score c, - ca_confidence c)) (eligible_candidates cs))"
    unfolding eligible_candidates_def by (rule sorted_sort_key)
  then have "sorted_wrt (\<lambda>x y. (- ca_priority_score x, - ca_confidence x) \<le> (- ca_priority_score y, - ca_confidence y))
      (eligible_candidates cs)" by (simp add: sorted_map)
  then show ?thesis by (rule sorted_wrt_mono_rel [rotated]) (auto simp: less_eq_prod_def)
qed

section \<open>Properties\<close>

text \<open>
  C36. The queue keeps its budget: built with clusters, it is the eligible candidates, those to
  investigate, in the order of falling priority, less some left out; it has no more than the
  allowed number of candidates in all and no more than the allowed number of any cluster; and a
  candidate is left out only when the queue is full or its own cluster has had its share.
\<close>

theorem investigation_queue_budget:
  "let q = build_investigation_queue candidates most each (Some clusters); place = cluster_of_candidate clusters in
     subseq q (eligible_candidates candidates)
     \<and> sorted_wrt (\<lambda>x y. ca_priority_score y \<le> ca_priority_score x) q
     \<and> (\<forall>c \<in> set q. c \<in> set candidates \<and> ca_status c = CAND_INVESTIGATE)
     \<and> int (length q) \<le> max 0 most
     \<and> (\<forall>k. of_cluster place k q \<le> max 0 each)
     \<and> (\<forall>c \<in> set candidates. ca_status c = CAND_INVESTIGATE \<longrightarrow> c \<in> set q \<or> most \<le> int (length q)
          \<or> (\<exists>k. map_of place (ca_candidate_id c) = Some k \<and> each \<le> of_cluster place k q))"
proof -
  define place where "place = cluster_of_candidate clusters"
  define q where "q = build_investigation_queue candidates most each (Some clusters)"
  have "\<forall>k. counted [] k = of_cluster place k []" by (simp add: counted_def of_cluster_def)
  from fill_queue_fills [OF this, of most each "eligible_candidates candidates"]
  have f: "fills most each place [] (eligible_candidates candidates) q"
    by (simp add: q_def build_investigation_queue_def place_def)
  then have s: "subseq q (eligible_candidates candidates)" by (auto simp: fills_def)
  then have "set q \<subseteq> set (eligible_candidates candidates)" by (metis notin_set_nthsI subseq_conv_nths subsetI)
  moreover have "sorted_wrt (\<lambda>x y. ca_priority_score y \<le> ca_priority_score x) q"
    using s eligible_sorted by (rule sorted_wrt_subseq)
  moreover have "of_cluster place k [] = 0" for k by (simp add: of_cluster_def)
  ultimately show ?thesis using f s eligible_set [of candidates]
    unfolding Let_def place_def [symmetric] q_def [symmetric] fills_def by auto
qed

definition queued :: "string \<Rightarrow> rat \<Rightarrow> candidate" where
  "queued i priority = \<lparr>ca_candidate_id = i, ca_site_id = ''s'', ca_normalized_url = ''u'', ca_normalized_query = ''q'',
     ca_status = CAND_INVESTIGATE, ca_confidence = 1, ca_priority_score = priority, ca_signal_types = [],
     ca_risk_types = [], ca_reasons = [], ca_snapshot = taught_snapshot\<rparr>"

definition queued_cluster :: cluster where
  "queued_cluster = \<lparr>cu_cluster_id = ''k'', cu_fingerprint = ''f'', cu_candidate_ids = [''a'', ''b''],
     cu_candidate_count = 2, cu_representative_priority_score = 2\<rparr>"

lemma investigation_queue_budget_witness:
  "let q = build_investigation_queue [queued ''a'' 1, queued ''b'' 2, queued ''c'' 0] 5 1 (Some [queued_cluster]) in
     map ca_candidate_id q = [''b'', ''c''] \<and> length q \<le> 5
     \<and> of_cluster (cluster_of_candidate [queued_cluster]) ''k'' q \<le> 1"
proof -
  have "map ca_candidate_id (build_investigation_queue [queued ''a'' 1, queued ''b'' 2, queued ''c'' 0] 5 1
      (Some [queued_cluster])) = [''b'', ''c'']"
    by code_simp
  then show ?thesis
    using investigation_queue_budget [of "[queued ''a'' 1, queued ''b'' 2, queued ''c'' 0]" 5 1 "[queued_cluster]"]
    unfolding Let_def by auto
qed

end
