(* ===== verification/Outcomes.thy ===== *)
theory Outcomes
  imports Observations
begin

text \<open>
  What a change did: the daily series read from the warehouse (\<open>app/measurement/series.py\<close>), the
  comparison of two windows (\<open>models/measurement.py\<close>, \<open>measurement/engine.py\<close>) and the verdict
  (\<open>models/outcomes.py\<close>, \<open>outcome/engine.py\<close>).
\<close>

section \<open>Daily series\<close>

definition window_days :: "day \<Rightarrow> day \<Rightarrow> day list" where
  "window_days start_day end_day = map (\<lambda>n. start_day + int n) [0..<nat (end_day - start_day + 1)]"

type_synonym query_row = "int \<times> int \<times> rat"

definition observe_day ::
  "string \<Rightarrow> string \<Rightarrow> string \<Rightarrow> day list \<Rightarrow> day list \<Rightarrow> (day \<times> query_row) list \<Rightarrow> day list \<Rightarrow> day
    \<Rightarrow> exn + observation" where
  "observe_day site url query stored capped query_rows page_days d =
     (let unseen = new_observation site url query d 0 0 None
            (if d \<in> set stored \<and> d \<notin> set capped \<and> d \<notin> set page_days then MISSING_EXPECTED_ZERO else MISSING_UNKNOWN)
      in case map_of query_rows d of
           None \<Rightarrow> unseen
         | Some (clicks, impressions, position_sum) \<Rightarrow>
             if d \<in> set stored \<and> 0 < impressions
             then new_observation site url query d impressions clicks
                    (Some (fdiv position_sum (fl (of_int impressions)))) OBSERVED
             else unseen)"

definition build_observations ::
  "string \<Rightarrow> string \<Rightarrow> string \<Rightarrow> day \<Rightarrow> day \<Rightarrow> day list \<Rightarrow> day list \<Rightarrow> (day \<times> query_row) list \<Rightarrow> day list
    \<Rightarrow> exn + observation list" where
  "build_observations site url query start_day end_day stored capped query_rows page_days =
     collect (observe_day site url query stored capped query_rows page_days) (window_days start_day end_day)"

section \<open>Window summaries\<close>

definition window_summary_valid :: "window_summary \<Rightarrow> bool" where
  "window_summary_valid w \<longleftrightarrow> 1 \<le> ws_expected_days w \<and> 0 \<le> ws_known_days w \<and> 0 \<le> ws_observed_days w
     \<and> unit_score (ws_completeness w) \<and> 0 \<le> ws_observation_count w \<and> 0 \<le> ws_impressions w
     \<and> 0 \<le> ws_clicks w \<and> unit_score (ws_ctr w) \<and> position_valid (ws_median_position w)"

definition validate_window_dates :: "day \<Rightarrow> day \<Rightarrow> exn + unit" where
  "validate_window_dates start_date end_date =
     (if end_date < start_date then Inl (Exn ValueError ''end_date cannot be before start_date'') else Inr ())"

fun validate_observations :: "observation list \<Rightarrow> string \<Rightarrow> string \<Rightarrow> string \<Rightarrow> exn + unit" where
  "validate_observations [] site url query = Inr ()"
| "validate_observations (x # xs) site url query =
     (if ob_site_id x \<noteq> site then Inl (Exn ValueError ''observation site_id does not match target'')
      else if ob_normalized_url x \<noteq> url then Inl (Exn ValueError ''observation normalized_url does not match target'')
      else if ob_normalized_query x \<noteq> query
      then Inl (Exn ValueError ''observation normalized_query does not match target'')
      else validate_observations xs site url query)"

text \<open>The four fields two observations of a day must agree on.\<close>

definition day_fields :: "observation \<Rightarrow> int \<times> int \<times> rat option \<times> data_status" where
  "day_fields x = (ob_impressions x, ob_clicks x, ob_avg_position x, ob_data_status x)"

fun unique_days :: "(day \<times> observation) list \<Rightarrow> observation list \<Rightarrow> exn + (day \<times> observation) list" where
  "unique_days unique [] = Inr unique"
| "unique_days unique (x # xs) =
     (case map_of unique (ob_date x) of
        Some existing \<Rightarrow>
          if day_fields existing \<noteq> day_fields x
          then Inl (Exn ValueError ''Conflicting observations for the same date.'')
          else unique_days unique xs
      | None \<Rightarrow> unique_days (unique @ [(ob_date x, x)]) xs)"

text \<open>\<open>statistics.median\<close> of floats.\<close>

definition median_of :: "rat list \<Rightarrow> rat" where
  "median_of xs = (let ds = sort xs; n = length xs in
     if odd n then ds ! (n div 2) else fdiv (fadd (ds ! (n div 2 - 1)) (ds ! (n div 2))) 2)"

definition summarize :: "observation list \<Rightarrow> day \<Rightarrow> day \<Rightarrow> exn + window_summary" where
  "summarize obs start_date end_date =
     (let expected_days = end_date - start_date + 1;
          known_days = int (length (filter (\<lambda>x. usable (ob_data_status x)) obs));
          counted_obs = filter (\<lambda>x. ob_data_status x \<noteq> MISSING_UNKNOWN) obs;
          impressions = (\<Sum>x\<leftarrow>counted_obs. ob_impressions x);
          clicks = (\<Sum>x\<leftarrow>counted_obs. ob_clicks x);
          positions = List.map_filter ob_avg_position counted_obs;
          w = \<lparr>ws_start_date = start_date, ws_end_date = end_date, ws_expected_days = expected_days,
               ws_known_days = known_days,
               ws_observed_days = int (length (filter (\<lambda>x. ob_data_status x = OBSERVED) obs)),
               ws_completeness = round6 (int_div known_days expected_days),
               ws_observation_count = int (length obs), ws_impressions = impressions, ws_clicks = clicks,
               ws_ctr = round6 (if impressions \<noteq> 0 then int_div clicks impressions else 0),
               ws_median_position = (if positions = [] then None else Some (round6 (median_of positions)))\<rparr>
      in if window_summary_valid w then Inr w else Inl (Exn ValidationError ''MeasurementWindowSummary''))"

definition summarize_window :: "observation list \<Rightarrow> day \<Rightarrow> day \<Rightarrow> exn + window_summary" where
  "summarize_window observations start_date end_date =
     and_maybe (validate_window_dates start_date end_date) (\<lambda>_.
     and_maybe (unique_days [] (filter (\<lambda>x. start_date \<le> ob_date x \<and> ob_date x \<le> end_date) observations)) (\<lambda>unique.
       summarize (map snd unique) start_date end_date))"

section \<open>Comparisons\<close>

definition relative_change :: "rat \<Rightarrow> rat \<Rightarrow> rat option" where
  "relative_change baseline current =
     (if baseline = 0 then None else Some (round6 (fdiv (fsub current baseline) \<bar>baseline\<bar>)))"

fun comparison :: "metric \<Rightarrow> rat option \<Rightarrow> rat option \<Rightarrow> metric_comparison option" where
  "comparison m (Some baseline) (Some current) =
     Some \<lparr>mc_metric = m, mc_baseline_value = round6 baseline, mc_current_value = round6 current,
           mc_absolute_delta = round6 (fsub current baseline),
           mc_relative_change = relative_change baseline current\<rparr>"
| "comparison m _ _ = None"

text \<open>The value of a window a metric is compared by.\<close>

fun metric_of :: "window_summary \<Rightarrow> metric \<Rightarrow> rat option" where
  "metric_of w CTR = Some (ws_ctr w)"
| "metric_of w POSITION = ws_median_position w"
| "metric_of w CLICKS = Some (fl (of_int (ws_clicks w)))"
| "metric_of w IMPRESSIONS = Some (fl (of_int (ws_impressions w)))"

definition compare_windows :: "window_summary \<Rightarrow> window_summary \<Rightarrow> metric_comparison list" where
  "compare_windows baseline current =
     List.map_filter (\<lambda>m. comparison m (metric_of baseline m) (metric_of current m))
       [CTR, POSITION, CLICKS, IMPRESSIONS]"

definition measurement_problems :: "rat \<Rightarrow> window_summary \<Rightarrow> window_summary \<Rightarrow> string list" where
  "measurement_problems min_completeness baseline current =
     (if ws_completeness baseline < min_completeness then [''baseline_window_insufficient_completeness''] else [])
     @ (if ws_completeness current < min_completeness then [''current_window_insufficient_completeness''] else [])
     @ (if ws_known_days baseline = 0 then [''baseline_window_has_no_known_days''] else [])
     @ (if ws_known_days current = 0 then [''current_window_has_no_known_days''] else [])"

record measurement_target =
  mt_measurement_id :: string
  mt_action_id :: string
  mt_site_id :: string
  mt_normalized_url :: string
  mt_normalized_query :: string
  mt_baseline_start :: day
  mt_baseline_end :: day
  mt_current_start :: day
  mt_current_end :: day
  mt_snapshot :: snapshot

text \<open>The checks of \<open>measure_action\<close> before the windows are summarized.\<close>

definition validate_target ::
  "measurement_target \<Rightarrow> observation list \<Rightarrow> observation list \<Rightarrow> rat \<Rightarrow> exn + unit" where
  "validate_target t baseline current min_completeness =
     (if \<not> (0 \<le> min_completeness \<and> min_completeness \<le> 1)
      then Inl (Exn ValueError ''min_completeness must be between 0 and 1'')
      else and_maybe (validate_window_dates (mt_baseline_start t) (mt_baseline_end t)) (\<lambda>_.
           and_maybe (validate_window_dates (mt_current_start t) (mt_current_end t)) (\<lambda>_.
             if mt_current_start t \<le> mt_baseline_end t
             then Inl (Exn ValueError ''Baseline must precede the current window without overlap.'')
             else if mt_baseline_end t - mt_baseline_start t \<noteq> mt_current_end t - mt_current_start t
             then Inl (Exn ValueError ''Comparison windows must have equal duration.'')
             else and_maybe (validate_observations baseline (mt_site_id t) (mt_normalized_url t) (mt_normalized_query t)) (\<lambda>_.
               validate_observations current (mt_site_id t) (mt_normalized_url t) (mt_normalized_query t)))))"

definition measure_action ::
  "measurement_target \<Rightarrow> observation list \<Rightarrow> observation list \<Rightarrow> rat \<Rightarrow> instant \<Rightarrow> exn + measurement" where
  "measure_action t baseline_observations current_observations min_completeness evaluated_at =
     and_maybe (validate_target t baseline_observations current_observations min_completeness) (\<lambda>_.
     and_maybe (summarize_window baseline_observations (mt_baseline_start t) (mt_baseline_end t)) (\<lambda>baseline.
     and_maybe (summarize_window current_observations (mt_current_start t) (mt_current_end t)) (\<lambda>current.
       let problems = measurement_problems min_completeness baseline current
       in Inr \<lparr>me_measurement_id = mt_measurement_id t, me_action_id = mt_action_id t,
               me_site_id = mt_site_id t, me_normalized_url = mt_normalized_url t,
               me_normalized_query = mt_normalized_query t,
               me_status = (if problems \<noteq> [] then INSUFFICIENT_DATA else READY),
               me_baseline = baseline, me_current = current,
               me_comparisons = compare_windows baseline current,
               me_reasons = (if problems \<noteq> [] then problems else [''measurement_data_ready'']),
               me_evidence = [(''min_completeness'', PFloat min_completeness),
                 (''baseline_observation_count'', PInt (int (length baseline_observations))),
                 (''current_observation_count'', PInt (int (length current_observations)))],
               me_snapshot = mt_snapshot t, me_evaluated_at = evaluated_at\<rparr>)))"

section \<open>The verdict\<close>

definition lower_is_better :: "metric \<Rightarrow> bool" where
  "lower_is_better m \<longleftrightarrow> m = POSITION"

definition metric_direction :: "metric \<Rightarrow> string" where
  "metric_direction m = (if lower_is_better m then ''lower_is_better'' else ''higher_is_better'')"

definition metric_outcome_of :: "metric_comparison \<Rightarrow> metric_outcome" where
  "metric_outcome_of c =
     (let direction = metric_direction (mc_metric c);
          lower = (direction = ''lower_is_better'')
      in \<lparr>mo_metric = mc_metric c, mo_baseline_value = mc_baseline_value c,
          mo_current_value = mc_current_value c, mo_absolute_delta = mc_absolute_delta c,
          mo_relative_change = mc_relative_change c, mo_direction = direction,
          mo_improved = (if lower then mc_absolute_delta c < 0 else 0 < mc_absolute_delta c),
          mo_regressed = (if lower then 0 < mc_absolute_delta c else mc_absolute_delta c < 0)\<rparr>)"

definition evaluate_primary_metric :: "metric_outcome option \<Rightarrow> outcome_policy \<Rightarrow> bool \<times> bool" where
  "evaluate_primary_metric m policy =
     (case m of None \<Rightarrow> (False, False)
      | Some p \<Rightarrow> (case mo_relative_change p of None \<Rightarrow> (False, False)
        | Some change \<Rightarrow>
          let improvement = (if mo_direction p = ''lower_is_better'' then - change else change);
              regression = (if mo_direction p = ''lower_is_better'' then change else - change)
          in (pol_min_relative_improvement policy \<le> improvement,
              pol_max_relative_regression policy < regression)))"

text \<open>The status and the first reason.\<close>

definition verdict :: "measurement_status \<Rightarrow> metric_outcome option \<Rightarrow> outcome_policy \<Rightarrow> string \<times> outcome_status" where
  "verdict st primary policy =
     (if st \<noteq> READY then (''measurement_not_ready'', OUTCOME_INCONCLUSIVE)
      else case primary of
          None \<Rightarrow> (''primary_metric_not_available'',
                   if pol_require_primary_metric policy then OUTCOME_INCONCLUSIVE else OUTCOME_FAILURE)
        | Some p \<Rightarrow>
          if mo_relative_change p = None
          then (''primary_metric_relative_change_undefined'', OUTCOME_INCONCLUSIVE)
          else let (improved, regressed) = evaluate_primary_metric primary policy
            in if regressed then (''primary_metric_regressed_beyond_threshold'', OUTCOME_FAILURE)
               else if improved then (''primary_metric_met_improvement_threshold'', OUTCOME_SUCCESS)
               else if pol_inconclusive_within_band policy
               then (''primary_metric_change_within_noise_band'', OUTCOME_INCONCLUSIVE)
               else (''primary_metric_did_not_meet_improvement_threshold'', OUTCOME_FAILURE))"

definition evaluate_outcome :: "string \<Rightarrow> measurement \<Rightarrow> outcome_policy \<Rightarrow> outcome" where
  "evaluate_outcome outcome_id m policy =
     (let metric_outcomes = map metric_outcome_of (me_comparisons m);
          primary = find (\<lambda>o'. mo_metric o' = pol_primary_metric policy) metric_outcomes;
          (reason, status) = verdict (me_status m) primary policy
      in \<lparr>oc_outcome_id = outcome_id, oc_action_id = me_action_id m, oc_site_id = me_site_id m,
          oc_normalized_url = me_normalized_url m, oc_normalized_query = me_normalized_query m,
          oc_status = status, oc_primary_metric = pol_primary_metric policy,
          oc_primary_metric_outcome = primary, oc_metric_outcomes = metric_outcomes, oc_policy = policy,
          oc_measurement = m,
          oc_reasons = reason # (case primary of None \<Rightarrow> []
             | Some p \<Rightarrow> if mo_regressed p then [''primary_metric_direction_regressed''] else []),
          oc_evidence = [(''measurement_status'', PStr (measurement_status_value (me_status m))),
             (''measurement_id'', PStr (me_measurement_id m)),
             (''primary_metric'', PStr (metric_value (pol_primary_metric policy))),
             (''min_relative_improvement'', PFloat (pol_min_relative_improvement policy)),
             (''max_relative_regression'', PFloat (pol_max_relative_regression policy))],
          oc_snapshot = me_snapshot m\<rparr>)"

end
