(* ===== verification/Outcome_Claims.thy ===== *)
theory Outcome_Claims
  imports Outcomes
begin

text \<open>
  What a measurement and its verdict guarantee: the summary of a window is a function of the set
  of its days' data, whatever the order or the repetitions it was read in; it always satisfies its
  constraints; and a verdict of success or failure means that the compared value moved.
\<close>

section \<open>One observation a day\<close>

lemma findSomeD: "find P xs = Some x \<Longrightarrow> P x \<and> x \<in> set xs"
  by (induction xs) (auto split: if_splits)

definition consistent :: "observation set \<Rightarrow> bool" where
  "consistent S \<longleftrightarrow> (\<forall>x \<in> S. \<forall>y \<in> S. ob_date x = ob_date y \<longrightarrow> day_fields x = day_fields y)"

definition dated :: "(day \<times> observation) list \<Rightarrow> bool" where
  "dated u \<longleftrightarrow> distinct (map fst u) \<and> (\<forall>(d, x) \<in> set u. ob_date x = d)"

definition day_view :: "observation \<Rightarrow> day \<times> int \<times> int \<times> rat option \<times> data_status" where
  "day_view x = (ob_date x, day_fields x)"

lemma consistent_views: "consistent S \<longleftrightarrow> inj_on fst (day_view ` S)"
  by (auto simp: consistent_def inj_on_def day_view_def)

text \<open>What reading the observations in a set may give: one of each day, or a conflict.\<close>

fun gathers :: "observation set \<Rightarrow> exn + (day \<times> observation) list \<Rightarrow> bool" where
  "gathers S (Inr u) \<longleftrightarrow> dated u \<and> consistent S \<and> day_view ` snd ` set u = day_view ` S \<and> snd ` set u \<subseteq> S"
| "gathers S (Inl e) \<longleftrightarrow> e = Exn ValueError ''Conflicting observations for the same date.'' \<and> \<not> consistent S"

lemma dated_consistent: "dated u \<Longrightarrow> consistent (snd ` set u)"
  unfolding consistent_def
proof (intro ballI impI)
  fix x y assume u: "dated u" and "x \<in> snd ` set u" "y \<in> snd ` set u" "ob_date x = ob_date y"
  then obtain d where "(d, x) \<in> set u" "(d, y) \<in> set u" by (fastforce simp: dated_def)
  then show "day_fields x = day_fields y" using u by (auto simp: dated_def dest: eq_key_imp_eq_value)
qed

lemma gathers_again:
  assumes "gathers S r" and "y \<in> S" and "day_view x = day_view y" shows "gathers (insert x S) r"
proof -
  have views: "day_view ` insert x S = day_view ` S" using assms(2,3) by (simp add: insert_absorb)
  then have "consistent (insert x S) = consistent S" unfolding consistent_views by (simp only:)
  then show ?thesis using assms(1) views by (cases r) auto
qed

lemma unique_days_gathers: "dated u \<Longrightarrow> gathers (snd ` set u \<union> set xs) (unique_days u xs)"
proof (induction xs arbitrary: u)
  case Nil
  then show ?case by (simp add: dated_consistent)
next
  case (Cons x xs)
  show ?case
  proof (cases "map_of u (ob_date x)")
    case None
    then have "dated (u @ [(ob_date x, x)])" using Cons.prems
      by (auto simp: dated_def map_of_eq_None_iff)
    from Cons.IH [OF this] show ?thesis using None by (simp add: insert_is_Un [symmetric])
  next
    case (Some y)
    then have y: "(ob_date x, y) \<in> set u" "ob_date y = ob_date x"
      using Cons.prems by (auto simp: dated_def dest: map_of_SomeD)
    then have S: "y \<in> snd ` set u \<union> set xs" by force
    show ?thesis
    proof (cases "day_fields y = day_fields x")
      case False
      then have "\<not> consistent (snd ` set u \<union> set (x # xs))"
        using y(2) S unfolding consistent_def by (metis UnI1 UnI2 Un_iff list.set_intros)
      then show ?thesis using Some False by simp
    next
      case True
      then have "day_view x = day_view y" using y(2) by (simp add: day_view_def)
      from gathers_again [OF Cons.IH [OF Cons.prems] S this] show ?thesis using Some True by simp
    qed
  qed
qed

definition views :: "(day \<times> observation) list \<Rightarrow> (day \<times> int \<times> int \<times> rat option \<times> data_status) list" where
  "views u = map day_view (map snd u)"

lemma set_views: "set (views u) = day_view ` snd ` set u"
  by (simp add: views_def image_image)

lemma distinct_views:
  assumes "dated u" shows "distinct (views u)"
proof -
  have "map fst (views u) = map fst u"
    using assms by (auto simp: dated_def views_def day_view_def)
  then show ?thesis using assms unfolding dated_def by (metis distinct_map)
qed

text \<open>Over an empty table: one observation a day, or a conflict, whichever way the list is ordered.\<close>

lemma unique_days_result: "gathers (set xs) (unique_days [] xs)"
  using unique_days_gathers [of "[]" xs] by (simp add: dated_def)

lemma mset_views: "gathers S (Inr u) \<Longrightarrow> mset (views u) = mset_set (day_view ` S)"
proof -
  assume u: "gathers S (Inr u)"
  then have "mset (views u) = mset_set (set (views u))" using distinct_views by (simp add: mset_set_set)
  with u show ?thesis by (simp add: set_views)
qed

section \<open>The summary\<close>

lemma length_filter_fields:
  "length (filter (\<lambda>x. P (ob_data_status x)) obs)
     = size (filter_mset (\<lambda>f. P (snd (snd (snd f)))) (mset (map day_fields obs)))"
  by (induction obs) (simp_all add: day_fields_def)

definition counted_fields :: "(int \<times> int \<times> rat option \<times> data_status) multiset \<Rightarrow> (int \<times> int \<times> rat option \<times> data_status) multiset" where
  "counted_fields M = filter_mset (\<lambda>f. snd (snd (snd f)) \<noteq> MISSING_UNKNOWN) M"

lemma counted_mset:
  "mset (map day_fields (filter (\<lambda>x. ob_data_status x \<noteq> MISSING_UNKNOWN) obs)) = counted_fields (mset (map day_fields obs))"
  by (induction obs) (simp_all add: day_fields_def counted_fields_def)

lemma map_filter_mset:
  assumes "mset (map g xs) = mset (map g ys)"
  shows "mset (List.map_filter (\<lambda>x. h (g x)) xs) = mset (List.map_filter (\<lambda>x. h (g x)) ys)"
proof -
  have "List.map_filter (\<lambda>x. h (g x)) zs = List.map_filter h (map g zs)" for zs
    by (induction zs) (simp_all split: option.splits)
  moreover have "mset (List.map_filter h zs) = image_mset (\<lambda>x. the (h x)) (filter_mset (\<lambda>x. h x \<noteq> None) (mset zs))" for zs
    by (induction zs) (auto split: option.splits)
  ultimately show ?thesis using assms by (simp only:)
qed

lemma sum_fields:
  fixes h :: "'a \<Rightarrow> int"
  assumes "mset (map g xs) = mset (map g ys)"
  shows "(\<Sum>x\<leftarrow>xs. h (g x)) = (\<Sum>x\<leftarrow>ys. h (g x))"
proof -
  have "(\<Sum>x\<leftarrow>zs. h (g x)) = sum_mset (image_mset h (mset (map g zs)))" for zs
    by (induction zs) simp_all
  then show ?thesis using assms by (simp only:)
qed

lemma median_of_mset:
  assumes "mset xs = mset ys" shows "median_of xs = median_of ys"
proof -
  have "sort xs = sort ys" by (rule properties_for_sort) (simp_all add: assms)
  moreover have "length xs = length ys" using assms by (rule mset_eq_length)
  ultimately show ?thesis unfolding median_of_def by (simp only:)
qed

definition counted_days :: "observation list \<Rightarrow> observation list" where
  "counted_days obs = filter (\<lambda>x. ob_data_status x \<noteq> MISSING_UNKNOWN) obs"

lemma summarize_mset:
  assumes same: "mset (map day_fields xs) = mset (map day_fields ys)"
  shows "summarize xs a b = summarize ys a b"
proof -
  have c: "mset (map day_fields (counted_days xs)) = mset (map day_fields (counted_days ys))"
    unfolding counted_days_def counted_mset same ..
  have sums: "(\<Sum>x\<leftarrow>counted_days xs. ob_impressions x) = (\<Sum>x\<leftarrow>counted_days ys. ob_impressions x)"
    "(\<Sum>x\<leftarrow>counted_days xs. ob_clicks x) = (\<Sum>x\<leftarrow>counted_days ys. ob_clicks x)"
    using sum_fields [OF c, of fst] sum_fields [OF c, of "\<lambda>f. fst (snd f)"] by (simp_all add: day_fields_def)
  have p: "mset (List.map_filter ob_avg_position (counted_days xs)) = mset (List.map_filter ob_avg_position (counted_days ys))"
    using map_filter_mset [OF c, of "\<lambda>f. fst (snd (snd f))"] by (simp add: day_fields_def)
  have e: "(List.map_filter ob_avg_position (counted_days xs) = []) = (List.map_filter ob_avg_position (counted_days ys) = [])"
    using p by (metis mset_zero_iff)
  have l: "length xs = length ys" using same by (metis length_map mset_eq_length)
  have f: "length (filter (\<lambda>x. P (ob_data_status x)) xs) = length (filter (\<lambda>x. P (ob_data_status x)) ys)" for P
    unfolding length_filter_fields same ..
  note known = f [of usable] and seen = f [of "\<lambda>st. st = OBSERVED"]
  show ?thesis
    unfolding summarize_def Let_def counted_days_def [symmetric] median_of_mset [OF p] sums e l known seen ..
qed

lemma summarize_window_same:
  assumes "set xs = set ys"
  shows "summarize_window xs a b = summarize_window ys a b"
proof -
  define wx where "wx = filter (\<lambda>x. a \<le> ob_date x \<and> ob_date x \<le> b) xs"
  define wy where "wy = filter (\<lambda>x. a \<le> ob_date x \<and> ob_date x \<le> b) ys"
  have same: "set wx = set wy" using assms by (simp add: wx_def wy_def)
  have "and_maybe (unique_days [] wx) (\<lambda>u. summarize (map snd u) a b)
      = and_maybe (unique_days [] wy) (\<lambda>u. summarize (map snd u) a b)"
  proof (cases "unique_days [] wx"; cases "unique_days [] wy")
    fix u v assume uv: "unique_days [] wx = Inr u" "unique_days [] wy = Inr v"
    then have "mset (views u) = mset (views v)"
      using mset_views unique_days_result [of wx] unique_days_result [of wy] same by metis
    then have "image_mset snd (mset (views u)) = image_mset snd (mset (views v))" by simp
    then have "mset (map day_fields (map snd u)) = mset (map day_fields (map snd v))"
      by (simp add: views_def day_view_def comp_def multiset.map_comp)
    from summarize_mset [OF this] uv show ?thesis by simp
  qed (use unique_days_result [of wx] unique_days_result [of wy] same in auto)
  then show ?thesis by (simp add: summarize_window_def wx_def wy_def)
qed

section \<open>Bounds\<close>

lemma median_of_nonneg:
  assumes "xs \<noteq> []" and "\<forall>x \<in> set xs. 0 \<le> x" shows "0 \<le> median_of xs"
proof -
  have nn: "0 \<le> sort xs ! i" if "i < length xs" for i
    using assms(2) that by (metis length_sort nth_mem set_sort)
  have "0 < length xs" using assms(1) by simp
  then have "length xs div 2 < length xs" "length xs div 2 - 1 < length xs" by linarith+
  then show ?thesis using nn by (auto simp: median_of_def Let_def fdiv_def fadd_def intro!: fl_nonneg add_nonneg_nonneg divide_nonneg_nonneg)
qed

lemma days_in_window:
  assumes "dated u" and "snd ` set u \<subseteq> {x. a \<le> ob_date x \<and> ob_date x \<le> b}" and "a \<le> b"
  shows "int (length u) \<le> b - a + 1"
proof -
  have "set (map fst u) \<subseteq> {a..b}" using assms(1,2) by (fastforce simp: dated_def)
  then have "card (set (map fst u)) \<le> card {a..b}" by (intro card_mono) simp_all
  moreover have "card (set (map fst u)) = length u" using assms(1) distinct_card by (fastforce simp: dated_def)
  ultimately show ?thesis using assms(3) by simp
qed

lemma filter_le: "(\<And>x. P x \<Longrightarrow> Q x) \<Longrightarrow> length (filter P xs) \<le> length (filter Q xs)"
  by (induction xs) auto

lemma clicks_le_impressions:
  "list_all observation_valid xs \<Longrightarrow> 0 \<le> (\<Sum>x\<leftarrow>xs. ob_clicks x) \<and> (\<Sum>x\<leftarrow>xs. ob_clicks x) \<le> (\<Sum>x\<leftarrow>xs. ob_impressions x)"
  by (induction xs) (auto simp: observation_valid_def)

definition summary_bounds :: "window_summary \<Rightarrow> bool" where
  "summary_bounds w \<longleftrightarrow> window_summary_valid w \<and> ws_observed_days w \<le> ws_known_days w
     \<and> ws_known_days w \<le> ws_observation_count w \<and> ws_observation_count w \<le> ws_expected_days w
     \<and> ws_clicks w \<le> ws_impressions w"

lemma summarize_ok:
  assumes valid: "list_all observation_valid obs" and "a \<le> b" and "int (length obs) \<le> b - a + 1"
  shows "\<exists>w. summarize obs a b = Inr w \<and> summary_bounds w \<and> ws_start_date w = a \<and> ws_end_date w = b"
proof -
  have v: "list_all observation_valid (counted_days obs)"
    using valid by (simp add: list_all_iff counted_days_def)
  note sums = clicks_le_impressions [OF v]
  have ps: "\<forall>p \<in> set (List.map_filter ob_avg_position (counted_days obs)). 0 \<le> p"
    using v by (force simp: list_all_iff observation_valid_def position_valid_def List.map_filter_def)
  then have pos: "position_valid (if List.map_filter ob_avg_position (counted_days obs) = [] then None
      else Some (round6 (median_of (List.map_filter ob_avg_position (counted_days obs)))))"
    by (simp add: position_valid_def round6_nonneg median_of_nonneg)
  define k where "k = int (length (filter (\<lambda>x. usable (ob_data_status x)) obs))"
  have k: "0 \<le> k" "k \<le> int (length obs)" by (simp_all add: k_def)
  have o': "int (length (filter (\<lambda>x. ob_data_status x = OBSERVED) obs)) \<le> k"
    unfolding k_def by (intro of_nat_mono filter_le) (simp add: usable_def)
  have c: "unit_score (round6 (int_div k (b - a + 1)))"
    using assms(2,3) k by (simp add: unit_score_def round6_nonneg round6_le_1 int_div_nonneg int_div_le_1)
  have ctr: "unit_score (round6 (if i \<noteq> 0 then int_div j i else 0))" if "0 \<le> j" "j \<le> i" for i j
    using that by (simp add: unit_score_def round6_nonneg round6_le_1 int_div_nonneg int_div_le_1)
  show ?thesis
    unfolding summarize_def Let_def counted_days_def [symmetric] k_def [symmetric]
    using assms(2,3) sums pos k o' c ctr [of "\<Sum>x\<leftarrow>counted_days obs. ob_clicks x" "\<Sum>x\<leftarrow>counted_days obs. ob_impressions x"]
    by (simp add: window_summary_valid_def summary_bounds_def)
qed

definition in_window :: "day \<Rightarrow> day \<Rightarrow> observation list \<Rightarrow> observation list" where
  "in_window a b obs = filter (\<lambda>x. a \<le> ob_date x \<and> ob_date x \<le> b) obs"

lemma summarize_window_cases:
  assumes valid: "list_all observation_valid obs" and "a \<le> b"
  shows "if consistent (set (in_window a b obs))
    then \<exists>w. summarize_window obs a b = Inr w \<and> summary_bounds w \<and> ws_start_date w = a \<and> ws_end_date w = b
    else summarize_window obs a b = Inl (Exn ValueError ''Conflicting observations for the same date.'')"
proof -
  have step: "summarize_window obs a b
      = and_maybe (unique_days [] (in_window a b obs)) (\<lambda>u. summarize (map snd u) a b)"
    using assms(2) by (simp add: summarize_window_def validate_window_dates_def in_window_def)
  show ?thesis
  proof (cases "consistent (set (in_window a b obs))")
    case False
    then show ?thesis using unique_days_result [of "in_window a b obs"]
      by (cases "unique_days [] (in_window a b obs)") (auto simp: step)
  next
    case True
    then obtain u where u: "unique_days [] (in_window a b obs) = Inr u" "dated u" "snd ` set u \<subseteq> set (in_window a b obs)"
      using unique_days_result [of "in_window a b obs"] by (cases "unique_days [] (in_window a b obs)") auto
    have "list_all observation_valid (map snd u)"
      using valid u(3) by (auto simp: list_all_iff in_window_def)
    moreover have "int (length (map snd u)) \<le> b - a + 1"
      using days_in_window [OF u(2) _ assms(2)] u(3) by (auto simp: in_window_def)
    ultimately show ?thesis using summarize_ok [OF _ assms(2)] u(1) True by (simp add: step)
  qed
qed

section \<open>The verdict\<close>

text \<open>A value that moved the way its metric means by better.\<close>

definition better :: "metric \<Rightarrow> rat option \<Rightarrow> rat option \<Rightarrow> bool" where
  "better m before after = (case (before, after) of
       (Some b, Some c) \<Rightarrow> if m = POSITION then c < b else b < c | _ \<Rightarrow> False)"

lemma relative_change_sign:
  assumes "relative_change b c = Some r" shows "0 < r \<Longrightarrow> b < c" and "r < 0 \<Longrightarrow> c < b"
proof -
  have r: "r = round6 (fdiv (fsub c b) \<bar>b\<bar>)" using assms by (auto simp: relative_change_def split: if_splits)
  have "0 \<le> r" if "b \<le> c"
    unfolding r using that by (intro round6_nonneg) (simp add: fdiv_def fsub_def fl_nonneg)
  moreover have "0 \<le> - r" if "c \<le> b"
  proof -
    have "- r = round6 (fdiv (fsub b c) \<bar>b\<bar>)"
      unfolding r fdiv_def fsub_def by (metis fl_uminus minus_diff_eq minus_divide_left round6_uminus)
    then show ?thesis using that by (simp add: round6_nonneg fdiv_def fsub_def fl_nonneg)
  qed
  ultimately show "0 < r \<Longrightarrow> b < c" "r < 0 \<Longrightarrow> c < b" by force+
qed

lemma comparison_of:
  assumes "find (\<lambda>x. mo_metric x = m) (map metric_outcome_of (compare_windows w v)) = Some p"
  shows "\<exists>b c. metric_of w m = Some b \<and> metric_of v m = Some c \<and> mo_relative_change p = relative_change b c
    \<and> mo_direction p = metric_direction m"
proof -
  obtain x where x: "x \<in> set (compare_windows w v)" "p = metric_outcome_of x" "mo_metric p = m"
    using findSomeD [OF assms] by auto
  then obtain k where k: "comparison k (metric_of w k) (metric_of v k) = Some x"
    unfolding compare_windows_def by (blast dest: map_filter_mem [THEN iffD1])
  then have "mc_metric x = k" by (cases "metric_of w k"; cases "metric_of v k") auto
  then have "k = m" using x(2,3) by (simp add: metric_outcome_of_def Let_def)
  with k show ?thesis using x(2)
    by (cases "metric_of w m"; cases "metric_of v m") (auto simp: metric_outcome_of_def Let_def)
qed

lemma primary_known:
  assumes "find (\<lambda>x. mo_metric x = m) (map metric_outcome_of (compare_windows w v)) = primary"
    and "evaluate_primary_metric primary policy = (improved, regressed)" and "improved \<or> regressed"
  obtains b c r p where "metric_of w m = Some b" and "metric_of v m = Some c" and "relative_change b c = Some r"
    and "primary = Some p" and "mo_relative_change p = Some r" and "mo_direction p = metric_direction m"
proof -
  obtain p r where p: "primary = Some p" "mo_relative_change p = Some r"
    using assms(2,3) by (auto simp: evaluate_primary_metric_def split: option.splits)
  obtain b c where "metric_of w m = Some b" "metric_of v m = Some c" "mo_relative_change p = relative_change b c"
      "mo_direction p = metric_direction m"
    using comparison_of [OF assms(1) [unfolded p(1)]] by blast
  then show thesis using p by (intro that [of b c r p]) simp_all
qed

text \<open>How much better a value became, relative to what it was.\<close>

definition improvement_of :: "metric \<Rightarrow> rat \<Rightarrow> rat" where
  "improvement_of m r = (if m = POSITION then - r else r)"

lemma primary_reached:
  assumes found: "find (\<lambda>x. mo_metric x = m) (map metric_outcome_of (compare_windows w v)) = primary"
    and eval: "evaluate_primary_metric primary policy = (improved, regressed)" and "improved"
  shows "\<exists>b c r. metric_of w m = Some b \<and> metric_of v m = Some c \<and> relative_change b c = Some r
    \<and> pol_min_relative_improvement policy \<le> improvement_of m r"
proof -
  obtain b c r p where k: "metric_of w m = Some b" "metric_of v m = Some c" "relative_change b c = Some r"
      "primary = Some p" "mo_relative_change p = Some r" "mo_direction p = metric_direction m"
    using primary_known [OF found eval] assms(3) by metis
  then show ?thesis using eval assms(3)
    by (auto simp: evaluate_primary_metric_def improvement_of_def metric_direction_def lower_is_better_def Let_def split: if_splits)
qed

lemma primary_moved:
  assumes found: "find (\<lambda>x. mo_metric x = m) (map metric_outcome_of (compare_windows w v)) = primary"
    and eval: "evaluate_primary_metric primary policy = (improved, regressed)"
  shows "improved \<Longrightarrow> 0 < pol_min_relative_improvement policy \<Longrightarrow> better m (metric_of w m) (metric_of v m)"
    and "regressed \<Longrightarrow> 0 \<le> pol_max_relative_regression policy \<Longrightarrow> better m (metric_of v m) (metric_of w m)"
proof -
  assume h: improved "0 < pol_min_relative_improvement policy"
  then obtain b c r p where k: "metric_of w m = Some b" "metric_of v m = Some c" "relative_change b c = Some r"
      "primary = Some p" "mo_relative_change p = Some r" "mo_direction p = metric_direction m"
    using primary_known [OF found eval] by metis
  show "better m (metric_of w m) (metric_of v m)"
    using eval h relative_change_sign [OF k(3)] k
    by (auto simp: evaluate_primary_metric_def better_def metric_direction_def lower_is_better_def Let_def split: if_splits)
next
  assume h: regressed "0 \<le> pol_max_relative_regression policy"
  then obtain b c r p where k: "metric_of w m = Some b" "metric_of v m = Some c" "relative_change b c = Some r"
      "primary = Some p" "mo_relative_change p = Some r" "mo_direction p = metric_direction m"
    using primary_known [OF found eval] by metis
  show "better m (metric_of v m) (metric_of w m)"
    using eval h relative_change_sign [OF k(3)] k
    by (auto simp: evaluate_primary_metric_def better_def metric_direction_def lower_is_better_def Let_def split: if_splits)
qed

section \<open>A measured change\<close>

definition demo_day :: "day \<Rightarrow> int \<Rightarrow> int \<Rightarrow> observation" where
  "demo_day d impressions clicks =
     \<lparr>ob_site_id = ''s'', ob_normalized_url = ''u'', ob_normalized_query = ''q'', ob_date = d,
      ob_impressions = impressions, ob_clicks = clicks, ob_avg_position = Some 4, ob_data_status = OBSERVED,
      ob_calendar_context = \<lparr>cc_is_weekend = False, cc_holiday_overlap = False, cc_event_type = None\<rparr>,
      ob_retrieved_at = None\<rparr>"

definition measured_snapshot :: snapshot where
  "measured_snapshot = \<lparr>sn_snapshot_id = ''s'', sn_data_snapshot_id = ''d'', sn_rule_version = ''r'',
     sn_config_version = ''c'', sn_generated_at = 0\<rparr>"

definition demo_target :: "snapshot \<Rightarrow> measurement_target" where
  "demo_target snap = \<lparr>mt_measurement_id = ''m'', mt_action_id = ''a'', mt_site_id = ''s'', mt_normalized_url = ''u'',
     mt_normalized_query = ''q'', mt_baseline_start = 1, mt_baseline_end = 2, mt_current_start = 5,
     mt_current_end = 6, mt_snapshot = snap\<rparr>"

definition clicks_policy :: outcome_policy where
  "clicks_policy = \<lparr>pol_primary_metric = CLICKS, pol_min_relative_improvement = 1 / 8,
     pol_max_relative_regression = 1 / 8, pol_require_primary_metric = True, pol_inconclusive_within_band = False\<rparr>"

lemma demo_numbers:
  "round6 (int_div 4 30) = decimal 133333 6" "round6 (int_div 6 30) = decimal 2 1" "round6 (int_div 2 2) = 1"
  "fl 4 = 4" "fl 6 = 6" "fl 8 = 8" "round6 4 = 4" "fdiv 8 2 = 4" "fadd 4 4 = 8"
  "round6 (fdiv (fsub 6 4) 4) = 1 / 2" "round6 (fsub 6 4) = 2"
  "unit_score 1" "unit_score (decimal 133333 6)" "unit_score (decimal 2 1)"
  by code_simp+

lemmas summary_unfolds = summarize_window_def validate_window_dates_def demo_day_def summarize_def Let_def usable_def
  median_of_def window_summary_valid_def position_valid_def demo_numbers [unfolded One_nat_def]

lemma demo_before:
  "summarize_window [demo_day 1 20 3, demo_day 2 10 1] 1 2 = Inr \<lparr>ws_start_date = 1, ws_end_date = 2,
     ws_expected_days = 2, ws_known_days = 2, ws_observed_days = 2, ws_completeness = 1, ws_observation_count = 2,
     ws_impressions = 30, ws_clicks = 4, ws_ctr = decimal 133333 6, ws_median_position = Some 4\<rparr>"
  by (simp add: summary_unfolds)

lemma demo_after:
  "summarize_window [demo_day 5 20 4, demo_day 6 10 2] 5 6 = Inr \<lparr>ws_start_date = 5, ws_end_date = 6,
     ws_expected_days = 2, ws_known_days = 2, ws_observed_days = 2, ws_completeness = 1, ws_observation_count = 2,
     ws_impressions = 30, ws_clicks = 6, ws_ctr = decimal 2 1, ws_median_position = Some 4\<rparr>"
  by (simp add: summary_unfolds)

text \<open>The metric that is judged is found among the comparisons; the others are left as they are.\<close>

lemma demo_verdict:
  assumes "me_status m = READY" and "me_comparisons m = [a, b, c, d]"
    and "mc_metric a = CTR" and "mc_metric b = POSITION" and "mc_metric c = CLICKS" and "mc_relative_change c = Some (1 / 2)"
  shows "oc_status (evaluate_outcome i m clicks_policy) = OUTCOME_SUCCESS"
  using assms
  by (simp add: evaluate_outcome_def Let_def clicks_policy_def metric_outcome_of_def metric_direction_def lower_is_better_def
      verdict_def evaluate_primary_metric_def split: prod.splits)

lemma demo_measured:
  "\<exists>m. measure_action (demo_target snap) [demo_day 1 20 3, demo_day 2 10 1] [demo_day 5 20 4, demo_day 6 10 2] (1 / 2) now = Inr m
     \<and> oc_status (evaluate_outcome i m clicks_policy) = OUTCOME_SUCCESS"
proof -
  have "validate_target (demo_target snap) [demo_day 1 20 3, demo_day 2 10 1] [demo_day 5 20 4, demo_day 6 10 2] (1 / 2) = Inr ()"
    by (simp add: validate_target_def demo_target_def validate_window_dates_def demo_day_def)
  then obtain m where m: "measure_action (demo_target snap) [demo_day 1 20 3, demo_day 2 10 1] [demo_day 5 20 4, demo_day 6 10 2] (1 / 2) now = Inr m"
    "me_status m = READY" "\<exists>a b c d. me_comparisons m = [a, b, c, d] \<and> mc_metric a = CTR \<and> mc_metric b = POSITION
       \<and> mc_metric c = CLICKS \<and> mc_relative_change c = Some (1 / 2)"
    by (simp add: measure_action_def demo_target_def demo_before demo_after measurement_problems_def Let_def
        compare_windows_def relative_change_def demo_numbers [unfolded One_nat_def])
  then show ?thesis using demo_verdict by blast
qed

text \<open>
  A window says the same however its data came: its summary depends on the set of the
  observations only, not on their order nor on repetitions, although it adds floats up, takes a
  median and keeps the first observation of each day.
\<close>

theorem window_order_independent:
  assumes "set xs = set ys" shows "summarize_window xs a b = summarize_window ys a b"
  by (rule summarize_window_same [OF assms])

lemma window_order_independent_witness:
  "summarize_window [demo_day 2 10 1, demo_day 1 20 3, demo_day 2 10 1] 1 2
     = summarize_window [demo_day 1 20 3, demo_day 2 10 1] 1 2"
  by (rule window_order_independent) auto

text \<open>
  Valid observations give a valid summary: it is refused only when two observations of a day
  disagree; otherwise it has no more observed days than known days, no more known days than days in
  the window, no more clicks than impressions, and both of its shares, rounded, lie between zero
  and one.
\<close>

theorem window_summarized:
  assumes "list_all observation_valid obs" and "a \<le> b"
  shows "if consistent (set (in_window a b obs))
    then \<exists>w. summarize_window obs a b = Inr w \<and> summary_bounds w \<and> ws_start_date w = a \<and> ws_end_date w = b
    else summarize_window obs a b = Inl (Exn ValueError ''Conflicting observations for the same date.'')"
  by (rule summarize_window_cases [OF assms])

lemma window_summarized_witness:
  "(\<exists>w. summarize_window [demo_day 1 20 3, demo_day 2 10 1] 1 2 = Inr w \<and> summary_bounds w)
   \<and> summarize_window [demo_day 1 20 3, demo_day 1 10 1] 1 2
       = Inl (Exn ValueError ''Conflicting observations for the same date.'')"
  using window_summarized [of "[demo_day 1 20 3, demo_day 2 10 1]" 1 2]
    window_summarized [of "[demo_day 1 20 3, demo_day 1 10 1]" 1 2]
  by (auto simp: demo_day_def observation_valid_def position_valid_def consistent_def in_window_def day_fields_def)

text \<open>
  C17. A verdict means what it says, for every policy within its constraints: an action is judged a
  success only when both windows were complete enough and had known days, both have the compared value,
  and its relative change, as it is rounded, reaches the policy's threshold in the direction that is better
  (down for a position, up for the others), so that under a threshold above zero the value became strictly
  better; it is judged a failure only when the data were ready, and the value got worse, or the policy
  counts an improvement below its threshold, or a metric that is missing, as a failure.
\<close>

theorem verdict_measured:
  assumes "measure_action t before after least now = Inr m" and "out = evaluate_outcome i m policy"
    and "outcome_policy_valid policy"
  shows "(oc_status out = OUTCOME_SUCCESS \<longrightarrow> me_status m = READY
       \<and> least \<le> ws_completeness (me_baseline m) \<and> least \<le> ws_completeness (me_current m)
       \<and> ws_known_days (me_baseline m) \<noteq> 0 \<and> ws_known_days (me_current m) \<noteq> 0
       \<and> (\<exists>b c r. metric_of (me_baseline m) (pol_primary_metric policy) = Some b
            \<and> metric_of (me_current m) (pol_primary_metric policy) = Some c \<and> relative_change b c = Some r
            \<and> pol_min_relative_improvement policy \<le> improvement_of (pol_primary_metric policy) r)
       \<and> (0 < pol_min_relative_improvement policy \<longrightarrow>
            better (pol_primary_metric policy) (metric_of (me_baseline m) (pol_primary_metric policy))
              (metric_of (me_current m) (pol_primary_metric policy))))
    \<and> (oc_status out = OUTCOME_FAILURE \<longrightarrow> me_status m = READY
       \<and> (better (pol_primary_metric policy) (metric_of (me_current m) (pol_primary_metric policy))
            (metric_of (me_baseline m) (pol_primary_metric policy))
          \<or> \<not> pol_inconclusive_within_band policy
          \<or> (oc_primary_metric_outcome out = None \<and> \<not> pol_require_primary_metric policy)))"
proof -
  define primary where
    "primary = find (\<lambda>x. mo_metric x = pol_primary_metric policy) (map metric_outcome_of (me_comparisons m))"
  obtain improved regressed where eval: "evaluate_primary_metric primary policy = (improved, regressed)"
    by (metis prod.exhaust)
  have cs: "me_comparisons m = compare_windows (me_baseline m) (me_current m)"
    and ready: "me_status m = READY \<Longrightarrow> measurement_problems least (me_baseline m) (me_current m) = []"
    using assms(1) by (auto simp: measure_action_def and_maybe_Inr Let_def split: if_splits)
  have known: "least \<le> ws_completeness (me_baseline m) \<and> least \<le> ws_completeness (me_current m)
      \<and> ws_known_days (me_baseline m) \<noteq> 0 \<and> ws_known_days (me_current m) \<noteq> 0" if "me_status m = READY"
    using ready [OF that] by (auto simp: measurement_problems_def split: if_splits)
  note moved = primary_moved [OF primary_def [symmetric, unfolded cs] eval]
  note reached = primary_reached [OF primary_def [symmetric, unfolded cs] eval]
  have out: "oc_status out = snd (verdict (me_status m) primary policy)" "oc_primary_metric_outcome out = primary"
    by (simp_all add: assms(2) evaluate_outcome_def Let_def primary_def split: prod.splits)
  show ?thesis
    unfolding out using eval known moved reached assms(3)
    by (cases primary) (auto simp: verdict_def outcome_policy_valid_def split: if_splits)
qed

lemma verdict_measured_witness:
  "\<exists>m. measure_action (demo_target measured_snapshot) [demo_day 1 20 3, demo_day 2 10 1] [demo_day 5 20 4, demo_day 6 10 2] (1 / 2) 0 = Inr m
     \<and> better CLICKS (metric_of (me_baseline m) CLICKS) (metric_of (me_current m) CLICKS)"
proof -
  obtain m where m: "measure_action (demo_target measured_snapshot) [demo_day 1 20 3, demo_day 2 10 1]
      [demo_day 5 20 4, demo_day 6 10 2] (1 / 2) 0 = Inr m"
    "oc_status (evaluate_outcome ''o'' m clicks_policy) = OUTCOME_SUCCESS" using demo_measured by blast
  from verdict_measured [OF m(1) refl, of clicks_policy "''o''"] m(2) show ?thesis using m(1) by (simp add: clicks_policy_def outcome_policy_valid_def)
qed

end
