(* ===== verification/Warehouse.thy ===== *)
theory Warehouse
  imports Ingestion
begin

text \<open>
  The Search Console warehouse: \<open>warehouse/models.py\<close> (a day as it is stored), \<open>planner.py\<close>
  (which days to fetch next), \<open>fetch.py\<close> (one settled day), \<open>store.py\<close>, \<open>sync.py\<close> and
  \<open>runner.py\<close> (a round over all sites). A request to Search Console is an argument; within a round
  each request is made at most once, so an answer is a function of the request. The tables are
  the maps their primary keys make them: a day's rows and its entry in the ledger by site and day;
  the identifiers of pages and queries are the texts they stand for.
\<close>

section \<open>A stored day\<close>

datatype device = DESKTOP | MOBILE | TABLET

fun device_value :: "device \<Rightarrow> string" where
  "device_value DESKTOP = ''DESKTOP''"
| "device_value MOBILE = ''MOBILE''"
| "device_value TABLET = ''TABLET''"

text \<open>\<open>Metrics\<close>, \<open>PageMetrics\<close> and \<open>QueryMetrics\<close>: what they are of, and three sums.\<close>

record metrics =
  ms_clicks :: int
  ms_impressions :: int
  ms_position_sum :: rat

record gsc_day =
  gd_site_id :: string
  gd_day :: day
  gd_property_url :: string
  gd_totals :: "(device \<times> metrics) list"
  gd_pages :: "((device \<times> string) \<times> metrics) list"
  gd_queries :: "((device \<times> string \<times> string) \<times> metrics) list"
  gd_page_rows_capped :: bool
  gd_query_rows_capped :: bool

datatype sync_status = SYNCED | FAILED_SYNC

text \<open>A row of the ledger; \<open>planner.LedgerEntry\<close> is its property, status and time.\<close>

record sync_day_status =
  sd_property_url :: string
  sd_status :: sync_status
  sd_totals_rows :: int
  sd_page_rows :: int
  sd_query_rows :: int
  sd_page_rows_capped :: bool
  sd_query_rows_capped :: bool
  sd_fetched_at :: instant
  sd_error :: "string option"

section \<open>Planning\<close>

text \<open>\<open>now.astimezone(UTC-8).date()\<close>; instants and days count from the same origin.\<close>

definition search_console_today :: "instant \<Rightarrow> day" where
  "search_console_today now = (now - hours 8) div days 1"

definition window_size :: int where "window_size = 480"

definition sync_window :: "instant \<Rightarrow> int \<Rightarrow> int \<Rightarrow> exn + day \<times> day" where
  "sync_window now lag_days held =
     and_maybe (latest_final_date (search_console_today now) lag_days) (\<lambda>newest.
       Inr (newest - (held - 1), newest))"

text \<open>Whether a day is fetched: no entry from this property, or one that failed long enough ago.\<close>

definition is_due :: "string \<Rightarrow> sync_day_status option \<Rightarrow> instant \<Rightarrow> int \<Rightarrow> bool" where
  "is_due property_url entry now retry_after = (case entry of
     None \<Rightarrow> True
   | Some e \<Rightarrow> if sd_property_url e \<noteq> property_url then True
       else sd_status e = FAILED_SYNC \<and> retry_after \<le> now - sd_fetched_at e)"

text \<open>The loop of \<open>plan_days\<close>, from the day it has reached.\<close>

function plan_from ::
  "day \<Rightarrow> string \<Rightarrow> (day \<Rightarrow> sync_day_status option) \<Rightarrow> instant \<Rightarrow> int \<Rightarrow> int \<Rightarrow> day list \<Rightarrow> day \<Rightarrow> day list" where
  "plan_from oldest property_url entries now retry_after limit due d =
     (if oldest \<le> d \<and> int (length due) < limit
      then plan_from oldest property_url entries now retry_after limit
             (if is_due property_url (entries d) now retry_after then due @ [d] else due) (d - 1)
      else due)"
  by pat_completeness auto
termination
  by (relation "measure (\<lambda>(oldest, _, _, _, _, _, _, d). nat (d + 1 - oldest))") auto

declare plan_from.simps [simp del]

definition plan_days ::
  "day \<times> day \<Rightarrow> string \<Rightarrow> (day \<Rightarrow> sync_day_status option) \<Rightarrow> instant \<Rightarrow> int \<Rightarrow> int \<Rightarrow> day list" where
  "plan_days window property_url entries now retry_after limit =
     plan_from (fst window) property_url entries now retry_after limit [] (snd window)"

datatype sync_state = NOT_CONNECTED | NOT_ELIGIBLE | BACKFILLING | UP_TO_DATE | FAILING

record sync_summary =
  su_site_id :: string
  su_state :: sync_state
  su_property_url :: string
  su_window_start :: day
  su_window_end :: day
  su_days_in_window :: int
  su_synced_days :: int
  su_failed_days :: int
  su_progress :: rat
  su_newest_synced_day :: "day option"
  su_oldest_synced_day :: "day option"
  su_capped_days :: "day list"
  su_recent_failures :: "(day \<times> string) list"

definition failure_message :: string where
  "failure_message = ''Search Console did not answer for this day. It will be tried again automatically.''"

definition failing_streak :: int where "failing_streak = 3"

definition round4 :: "rat \<Rightarrow> rat" where
  "round4 x = fl (of_int (half_even (x * 10000)) / 10000)"

text \<open>What the dashboard shows of a site, from the ledger's entries with their days.\<close>

definition summarize_sync ::
  "string \<Rightarrow> string \<Rightarrow> day \<times> day \<Rightarrow> (day \<times> sync_day_status) list \<Rightarrow> exn + sync_summary" where
  "summarize_sync site property_url window entries =
     (let (oldest, newest) = window;
          days_in_window = newest - oldest + 1;
          current = filter (\<lambda>(d, e). sd_property_url e = property_url \<and> oldest \<le> d \<and> d \<le> newest) entries;
          synced = sort (map fst (filter (\<lambda>(d, e). sd_status e = SYNCED) current));
          failed = sort_desc (\<lambda>d. d) (map fst (filter (\<lambda>(d, e). sd_status e = FAILED_SYNC) current));
          capped = sort (map fst (filter (\<lambda>(d, e). sd_status e = SYNCED
                     \<and> (sd_page_rows_capped e \<or> sd_query_rows_capped e)) current));
          newest_days = map (\<lambda>n. newest - n) [0..failing_streak - 1];
          state = (if set newest_days \<subseteq> set failed then FAILING
                   else if int (length synced) = days_in_window then UP_TO_DATE else BACKFILLING)
      in if days_in_window = 0 then Inl (Exn (OtherError ''ZeroDivisionError'') ''division by zero'')
         else Inr \<lparr>su_site_id = site, su_state = state, su_property_url = property_url,
               su_window_start = oldest, su_window_end = newest, su_days_in_window = days_in_window,
               su_synced_days = int (length synced), su_failed_days = int (length failed),
               su_progress = round4 (int_div (int (length synced)) days_in_window),
               su_newest_synced_day = (if synced = [] then None else Some (last synced)),
               su_oldest_synced_day = first synced, su_capped_days = capped,
               su_recent_failures = map (\<lambda>d. (d, failure_message)) (take 10 failed)\<rparr>)"

section \<open>Fetching a day\<close>

definition fetch_error :: "string \<Rightarrow> exn" where
  "fetch_error text = Exn FetchError text"

definition day_not_final :: "string \<Rightarrow> exn" where
  "day_not_final text = Exn DayNotFinalError text"

definition is_not_final :: "exn \<Rightarrow> bool" where
  "is_not_final e \<longleftrightarrow> exn_class e = DayNotFinalError"

record query_answer =
  qa_rows :: "dict list"
  qa_first_incomplete_date :: "day option"

type_synonym query_fn = "string list \<Rightarrow> day \<Rightarrow> string \<Rightarrow> exn + query_answer"

definition totals_dimensions :: "string list" where "totals_dimensions = [''date'', ''device'']"
definition page_dimensions :: "string list" where "page_dimensions = [''date'', ''page'', ''device'']"
definition query_dimensions :: "string list" where
  "query_dimensions = [''date'', ''page'', ''query'', ''device'']"

definition daily_row_cap :: int where "daily_row_cap = 50000"

text \<open>\<open>_count\<close>: an \<open>int\<close> or a \<open>float\<close> that is one, not negative.\<close>

fun whole_count :: "pyval \<Rightarrow> int option" where
  "whole_count (PInt n) = (if 0 \<le> n then Some n else None)"
| "whole_count (PFloat x) = (if 0 \<le> x \<and> of_int \<lfloor>x\<rfloor> = x then Some \<lfloor>x\<rfloor> else None)"
| "whole_count _ = None"

text \<open>\<open>float(position)\<close> of a position that is a number and not negative.\<close>

fun position_number :: "pyval \<Rightarrow> rat option" where
  "position_number (PInt n) = (if 0 \<le> n then Some (fl (of_int n)) else None)"
| "position_number (PFloat x) = (if 0 \<le> x then Some x else None)"
| "position_number _ = None"

definition str_keys :: "nat \<Rightarrow> pyval \<Rightarrow> string list option" where
  "str_keys n v = (case get_list v of
     None \<Rightarrow> None
   | Some ks \<Rightarrow> if length ks = n \<and> list_all (\<lambda>k. get_str k \<noteq> None) ks
       then Some (map (\<lambda>k. the (get_str k)) ks) else None)"

definition fetch_row :: "string list \<Rightarrow> string \<Rightarrow> dict \<Rightarrow> exn + string list \<times> row_values" where
  "fetch_row dimensions iso_day row = (case str_keys (length dimensions) (field row ''keys'') of
     None \<Rightarrow> Inl (fetch_error ''A Search Console row does not match the requested dimensions.'')
   | Some keys \<Rightarrow>
     if map_of (zip dimensions keys) ''date'' \<noteq> Some iso_day
     then Inl (fetch_error (''A Search Console row is for '' @ hd keys @ '', not '' @ iso_day @ ''.''))
     else (case whole_count (field row ''clicks'') of
        None \<Rightarrow> Inl (fetch_error ''A Search Console row has an invalid count.'')
      | Some clicks \<Rightarrow>
        (case whole_count (field row ''impressions'') of
           None \<Rightarrow> Inl (fetch_error ''A Search Console row has an invalid count.'')
         | Some impressions \<Rightarrow>
           if impressions < clicks then Inl (fetch_error ''A Search Console row has more clicks than impressions.'')
           else if position_number (field row ''position'') = None
           then Inl (fetch_error ''A Search Console row has an invalid position.'')
           else Inr (keys, (impressions, clicks, field row ''position'')))))"

type_synonym 'k tally = "('k \<times> metrics) list"

definition add_metrics :: "'k tally \<Rightarrow> 'k \<Rightarrow> metrics \<Rightarrow> 'k tally" where
  "add_metrics target k m =
     (let old = (case map_of target k of Some w \<Rightarrow> w
                 | None \<Rightarrow> \<lparr>ms_clicks = 0, ms_impressions = 0, ms_position_sum = 0\<rparr>)
      in AList.update k \<lparr>ms_clicks = ms_clicks old + ms_clicks m,
           ms_impressions = ms_impressions old + ms_impressions m,
           ms_position_sum = fadd (ms_position_sum old) (ms_position_sum m)\<rparr> target)"

definition row_metrics :: "row_values \<Rightarrow> metrics" where
  "row_metrics values = (case values of (impressions, clicks, position) \<Rightarrow>
     \<lparr>ms_clicks = clicks, ms_impressions = impressions,
      ms_position_sum = fmul (case position_number position of None \<Rightarrow> 0 | Some x \<Rightarrow> x) (fl (of_int impressions))\<rparr>)"

text \<open>
  The loop over the rows \<open>_rows\<close> yields: \<open>key_of\<close> says under which key a row is added, if under
  any. A row sent again is dropped. The state is the rows seen so far, and the sums.
\<close>

fun fetch_rows ::
  "string list \<Rightarrow> string \<Rightarrow> (string list \<Rightarrow> exn + 'k option) \<Rightarrow> (string list \<times> row_values) list \<Rightarrow> 'k tally
   \<Rightarrow> dict list \<Rightarrow> exn + (string list \<times> row_values) list \<times> 'k tally" where
  "fetch_rows dimensions iso_day key_of seen target [] = Inr (seen, target)"
| "fetch_rows dimensions iso_day key_of seen target (row # rows) =
     and_maybe (fetch_row dimensions iso_day row) (\<lambda>(keys, values).
       case map_of seen keys of
         Some w \<Rightarrow> if same_values w values then fetch_rows dimensions iso_day key_of seen target rows
           else Inl (fetch_error ''Search Console sent the same row twice with different numbers.'')
       | None \<Rightarrow> and_maybe (key_of keys) (\<lambda>k.
           fetch_rows dimensions iso_day key_of ((keys, values) # seen)
             (case k of None \<Rightarrow> target | Some k' \<Rightarrow> add_metrics target k' (row_metrics values)) rows))"

text \<open>\<open>str.upper\<close> of a character below 256 (of those whose upper case is below 256).\<close>

definition upper_latin :: "char \<Rightarrow> string" where
  "upper_latin c = (let n = of_char c :: int in
     if n = 223 then ''SS''
     else if (97 \<le> n \<and> n \<le> 122) \<or> (224 \<le> n \<and> n \<le> 254 \<and> n \<noteq> 247) then [char_of (n - 32)] else [c])"

definition device_of :: "string \<Rightarrow> exn + device" where
  "device_of text =
     (let name = concat (map upper_latin text) in
      if name = ''DESKTOP'' then Inr DESKTOP else if name = ''MOBILE'' then Inr MOBILE
      else if name = ''TABLET'' then Inr TABLET
      else Inl (fetch_error (''Unknown device from Search Console: '' @ text)))"

text \<open>\<open>_url\<close>: a text that is no address of a page is left out.\<close>

definition page_url :: "std_library \<Rightarrow> string \<Rightarrow> exn + string" where
  "page_url L text = (case canonicalize_url L text of
     Inl e \<Rightarrow> if exn_class e = ValueError then Inr [] else Inl e
   | Inr url \<Rightarrow> Inr url)"

definition total_key :: "string list \<Rightarrow> exn + device option" where
  "total_key keys = and_maybe (device_of (keys ! 1)) (\<lambda>d. Inr (Some d))"

definition page_key_of :: "std_library \<Rightarrow> string list \<Rightarrow> exn + (device \<times> string) option" where
  "page_key_of L keys = and_maybe (page_url L (keys ! 1)) (\<lambda>url.
     if url = [] then Inr None else and_maybe (device_of (keys ! 2)) (\<lambda>d. Inr (Some (d, url))))"

definition query_key_of :: "std_library \<Rightarrow> string list \<Rightarrow> exn + (device \<times> string \<times> string) option" where
  "query_key_of L keys = and_maybe (page_url L (keys ! 1)) (\<lambda>url.
     let text = normalize_query_latin (keys ! 2) in
     if url = [] \<or> text = [] then Inr None
     else and_maybe (device_of (keys ! 3)) (\<lambda>d. Inr (Some (d, url, text))))"

definition sorted_items :: "('k \<Rightarrow> 'o::linorder) \<Rightarrow> 'k tally \<Rightarrow> 'k tally" where
  "sorted_items f target = sort_key (\<lambda>(k, m). f k) target"

definition fetch_day ::
  "std_library \<Rightarrow> (day \<Rightarrow> string) \<Rightarrow> string \<Rightarrow> string \<Rightarrow> day \<Rightarrow> day \<Rightarrow> query_fn \<Rightarrow> exn + gsc_day" where
  "fetch_day L isoformat site property_url d final_through query =
     (if final_through < d
      then Inl (day_not_final (isoformat d @ '' is after the newest settled day, '' @ isoformat final_through @ ''.''))
      else and_maybe (query totals_dimensions d ''all'') (\<lambda>totals_answer.
        if (case qa_first_incomplete_date totals_answer of None \<Rightarrow> False | Some i \<Rightarrow> i \<le> d)
        then Inl (day_not_final (''Search Console is still collecting '' @ isoformat d))
        else and_maybe (query page_dimensions d ''final'') (\<lambda>page_answer.
        and_maybe (query query_dimensions d ''final'') (\<lambda>query_answer.
        and_maybe (fetch_rows totals_dimensions (isoformat d) total_key [] [] (qa_rows totals_answer)) (\<lambda>(_, totals).
        and_maybe (fetch_rows page_dimensions (isoformat d) (page_key_of L) [] [] (qa_rows page_answer)) (\<lambda>(page_seen, pages).
        and_maybe (fetch_rows query_dimensions (isoformat d) (query_key_of L) [] [] (qa_rows query_answer)) (\<lambda>(query_seen, queries).
          if site = [] \<or> property_url = [] then Inl (Exn ValidationError ''GSCDay'')
          else Inr \<lparr>gd_site_id = site, gd_day = d, gd_property_url = property_url,
                gd_totals = sorted_items device_value totals,
                gd_pages = sorted_items (\<lambda>(dev, url). (device_value dev, url)) pages,
                gd_queries = sorted_items (\<lambda>(dev, url, text). (device_value dev, url, text)) queries,
                gd_page_rows_capped = (daily_row_cap \<le> int (length page_seen)),
                gd_query_rows_capped = (daily_row_cap \<le> int (length query_seen))\<rparr>)))))))"

section \<open>The tables\<close>

record warehouse =
  wh_days :: "string \<times> day \<Rightarrow> gsc_day option"
  wh_ledger :: "string \<times> day \<Rightarrow> sync_day_status option"

definition empty_warehouse :: warehouse where
  "empty_warehouse = \<lparr>wh_days = (\<lambda>_. None), wh_ledger = (\<lambda>_. None)\<rparr>"

definition replace_day :: "instant \<Rightarrow> gsc_day \<Rightarrow> warehouse \<Rightarrow> warehouse" where
  "replace_day now data w =
     w\<lparr>wh_days := (wh_days w)((gd_site_id data, gd_day data) \<mapsto> data),
       wh_ledger := (wh_ledger w)((gd_site_id data, gd_day data) \<mapsto>
         \<lparr>sd_property_url = gd_property_url data, sd_status = SYNCED,
          sd_totals_rows = int (length (gd_totals data)), sd_page_rows = int (length (gd_pages data)),
          sd_query_rows = int (length (gd_queries data)), sd_page_rows_capped = gd_page_rows_capped data,
          sd_query_rows_capped = gd_query_rows_capped data, sd_fetched_at = now, sd_error = None\<rparr>)\<rparr>"

text \<open>The counts of a first failed entry are the defaults of the table (\<open>004_gsc_warehouse.sql\<close>).\<close>

definition record_failure :: "instant \<Rightarrow> string \<Rightarrow> day \<Rightarrow> string \<Rightarrow> string \<Rightarrow> warehouse \<Rightarrow> warehouse" where
  "record_failure now site d property_url err w =
     (case wh_ledger w (site, d) of
        None \<Rightarrow> w\<lparr>wh_ledger := (wh_ledger w)((site, d) \<mapsto>
          \<lparr>sd_property_url = property_url, sd_status = FAILED_SYNC, sd_totals_rows = 0, sd_page_rows = 0,
           sd_query_rows = 0, sd_page_rows_capped = False, sd_query_rows_capped = False,
           sd_fetched_at = now, sd_error = Some (take 500 err)\<rparr>)\<rparr>
      | Some e \<Rightarrow>
          if sd_status e = FAILED_SYNC \<or> sd_property_url e \<noteq> property_url
          then w\<lparr>wh_ledger := (wh_ledger w)((site, d) \<mapsto> e\<lparr>sd_property_url := property_url,
                 sd_status := FAILED_SYNC, sd_fetched_at := now, sd_error := Some (take 500 err)\<rparr>)\<rparr>
          else w)"

definition ledger :: "warehouse \<Rightarrow> string \<Rightarrow> day \<Rightarrow> day \<Rightarrow> (day \<times> sync_day_status) list" where
  "ledger w site start_day end_day =
     List.map_filter (\<lambda>d. map_option (Pair d) (wh_ledger w (site, d))) [start_day..end_day]"

definition synced_days :: "warehouse \<Rightarrow> string \<Rightarrow> string \<Rightarrow> day \<Rightarrow> day \<Rightarrow> day list" where
  "synced_days w site property_url start_day end_day =
     map fst (filter (\<lambda>(d, e). sd_property_url e = property_url \<and> sd_status e = SYNCED)
       (ledger w site start_day end_day))"

text \<open>
  \<open>GROUP BY day\<close>: a day with no row has no group. \<open>db_sum\<close> is the database's sum of doubles,
  whose order of addition is not specified.
\<close>

definition grouped_sums ::
  "(rat list \<Rightarrow> rat) \<Rightarrow> (gsc_day \<Rightarrow> metrics list) \<Rightarrow> warehouse \<Rightarrow> string \<Rightarrow> day \<Rightarrow> day
    \<Rightarrow> (day \<times> int \<times> int \<times> rat) list" where
  "grouped_sums db_sum rows w site start_day end_day =
     List.map_filter (\<lambda>d. case wh_days w (site, d) of
         None \<Rightarrow> None
       | Some data \<Rightarrow> (let ms = rows data in if ms = [] then None
           else Some (d, (\<Sum>m\<leftarrow>ms. ms_clicks m), (\<Sum>m\<leftarrow>ms. ms_impressions m), db_sum (map ms_position_sum ms))))
       [start_day..end_day]"

definition query_days ::
  "(rat list \<Rightarrow> rat) \<Rightarrow> warehouse \<Rightarrow> string \<Rightarrow> string \<Rightarrow> string \<Rightarrow> day \<Rightarrow> day \<Rightarrow> (day \<times> int \<times> int \<times> rat) list" where
  "query_days db_sum w site url query start_day end_day =
     grouped_sums db_sum (\<lambda>data. map snd (filter (\<lambda>((dev, u, q), m). u = url \<and> q = query) (gd_queries data)))
       w site start_day end_day"

definition page_totals ::
  "(rat list \<Rightarrow> rat) \<Rightarrow> warehouse \<Rightarrow> string \<Rightarrow> string \<Rightarrow> day \<Rightarrow> day \<Rightarrow> (day \<times> int \<times> int \<times> rat) list" where
  "page_totals db_sum w site url start_day end_day =
     grouped_sums db_sum (\<lambda>data. map snd (filter (\<lambda>((dev, u), m). u = url) (gd_pages data)))
       w site start_day end_day"

definition page_days :: "warehouse \<Rightarrow> string \<Rightarrow> string \<Rightarrow> day \<Rightarrow> day \<Rightarrow> day list" where
  "page_days w site url start_day end_day =
     map fst (filter (\<lambda>(d, clicks, impressions, position). 0 < impressions)
       (page_totals (\<lambda>_. 0) w site url start_day end_day))"

section \<open>Syncing a day\<close>

record day_sync_result =
  ds_site_id :: string
  ds_day :: day
  ds_totals_rows :: int
  ds_page_rows :: int
  ds_query_rows :: int
  ds_page_rows_capped :: bool
  ds_query_rows_capped :: bool

definition sync_day ::
  "std_library \<Rightarrow> (day \<Rightarrow> string) \<Rightarrow> instant \<Rightarrow> string \<Rightarrow> string \<Rightarrow> day \<Rightarrow> day \<Rightarrow> query_fn
   \<Rightarrow> (warehouse, day_sync_result) prog" where
  "sync_day L isoformat now site property_url d final_through query w =
     (case fetch_day L isoformat site property_url d final_through query of
        Inl e \<Rightarrow>
          if is_not_final e then (Inl e, w)
          else (Inl e, record_failure now site d property_url
                 (class_name (exn_class e) @ '': '' @ exn_text e) w)
      | Inr data \<Rightarrow>
          (Inr \<lparr>ds_site_id = site, ds_day = d, ds_totals_rows = int (length (gd_totals data)),
                ds_page_rows = int (length (gd_pages data)), ds_query_rows = int (length (gd_queries data)),
                ds_page_rows_capped = gd_page_rows_capped data,
                ds_query_rows_capped = gd_query_rows_capped data\<rparr>,
           replace_day now data w))"

section \<open>A round\<close>

record round_report =
  rd_synced :: int
  rd_failed :: int
  rd_not_final :: int
  rd_sites :: int
  rd_sites_stopped :: "string list"

record sync_site =
  ss_site_id :: string
  ss_property_url :: "string option"

definition credential_refused :: "exn \<Rightarrow> bool" where
  "credential_refused e = (case exn_class e of
     CredentialError \<Rightarrow> True | GSCClientError status \<Rightarrow> status \<in> {Some 401, Some 403} | _ \<Rightarrow> False)"

fun sync_days ::
  "std_library \<Rightarrow> (day \<Rightarrow> string) \<Rightarrow> instant \<Rightarrow> string \<Rightarrow> string \<Rightarrow> day \<Rightarrow> query_fn \<Rightarrow> day list
   \<Rightarrow> round_report \<Rightarrow> warehouse \<Rightarrow> round_report \<times> warehouse" where
  "sync_days L isoformat now site property_url newest query [] r w = (r, w)"
| "sync_days L isoformat now site property_url newest query (d # ds) r w =
     (case sync_day L isoformat now site property_url d newest query w of
        (Inr _, w') \<Rightarrow> sync_days L isoformat now site property_url newest query ds (r\<lparr>rd_synced := rd_synced r + 1\<rparr>) w'
      | (Inl e, w') \<Rightarrow>
          if is_not_final e
          then sync_days L isoformat now site property_url newest query ds (r\<lparr>rd_not_final := rd_not_final r + 1\<rparr>) w'
          else if credential_refused e
          then (r\<lparr>rd_failed := rd_failed r + 1, rd_sites_stopped := rd_sites_stopped r @ [site]\<rparr>, w')
          else sync_days L isoformat now site property_url newest query ds (r\<lparr>rd_failed := rd_failed r + 1\<rparr>) w')"

definition sync_site_round ::
  "std_library \<Rightarrow> (day \<Rightarrow> string) \<Rightarrow> instant \<Rightarrow> (sync_site \<Rightarrow> bool) \<Rightarrow> (sync_site \<Rightarrow> exn + query_fn) \<Rightarrow> int \<Rightarrow> int
   \<Rightarrow> day \<times> day \<Rightarrow> sync_site \<Rightarrow> round_report \<times> warehouse \<Rightarrow> round_report \<times> warehouse" where
  "sync_site_round L isoformat now eligible query_for per_round retry_after window site st =
     (case ss_property_url site of
        None \<Rightarrow> st
      | Some property_url \<Rightarrow>
          if \<not> eligible site then st
          else let (r0, w) = st;
                   r = r0\<lparr>rd_sites := rd_sites r0 + 1\<rparr>;
                   entries = map_of (ledger w (ss_site_id site) (fst window) (snd window));
                   ds = plan_days window property_url entries now retry_after per_round
               in if ds = [] then (r, w)
                  else (case query_for site of
                      Inl e \<Rightarrow> (r\<lparr>rd_sites_stopped := rd_sites_stopped r @ [ss_site_id site]\<rparr>, w)
                    | Inr query \<Rightarrow> sync_days L isoformat now (ss_site_id site) property_url (snd window) query ds r w))"

definition days_per_round :: int where "days_per_round = 10"
definition default_retry_after :: int where "default_retry_after = hours 6"

definition new_report :: round_report where
  "new_report = \<lparr>rd_synced = 0, rd_failed = 0, rd_not_final = 0, rd_sites = 0, rd_sites_stopped = []\<rparr>"

definition sync_round ::
  "std_library \<Rightarrow> (day \<Rightarrow> string) \<Rightarrow> instant \<Rightarrow> (sync_site \<Rightarrow> bool) \<Rightarrow> (sync_site \<Rightarrow> exn + query_fn) \<Rightarrow> int \<Rightarrow> int
   \<Rightarrow> sync_site list \<Rightarrow> (warehouse, round_report) prog" where
  "sync_round L isoformat now eligible query_for per_round retry_after sites w =
     (case sync_window now gsc_data_lag_days window_size of
        Inl e \<Rightarrow> (Inl e, w)
      | Inr window \<Rightarrow>
          (let (r, w') = fold (sync_site_round L isoformat now eligible query_for per_round retry_after window) sites (new_report, w)
           in (Inr r, w')))"

end
