(* ===== verification/Warehouse_Claims.thy ===== *)
theory Warehouse_Claims
  imports Warehouse
begin

text \<open>
  What the rounds of the warehouse guarantee: the plan is the newest days that are due, a good copy
  of a day is kept whatever a round meets, and a site whose days are answered is filled.
\<close>

section \<open>The plan\<close>

lemma plan_from_spec:
  "plan_from oldest p entries now retry limit due d
     = due @ take (nat (limit - int (length due))) (filter (\<lambda>x. is_due p (entries x) now retry) (rev [oldest..d]))"
proof (induction oldest p entries now retry limit due d rule: plan_from.induct)
  case (1 oldest p entries now retry limit due d)
  show ?case
  proof (cases "oldest \<le> d \<and> int (length due) < limit")
    case False
    then show ?thesis by (subst plan_from.simps) auto
  next
    case True
    have days: "rev [oldest..d] = d # rev [oldest..d - 1]" using True upto_rec2 [of oldest d] by simp
    have n: "nat (limit - int (length due)) = Suc (nat (limit - int (length due) - 1))"
      using True Suc_nat_eq_nat_zadd1 [of "limit - int (length due) - 1"] by simp
    have room: "limit - (1 + int (length due)) = limit - int (length due) - 1" by simp
    then show ?thesis using 1 [OF True] True
      by (subst plan_from.simps) (simp add: days n room)
  qed
qed

lemma plan_days_spec:
  "plan_days window p entries now retry limit
     = take (nat limit) (filter (\<lambda>d. is_due p (entries d) now retry) (rev [fst window..snd window]))"
  by (simp add: plan_days_def plan_from_spec)

lemma ledger_entry:
  "map_of (ledger w site a b) d = (if a \<le> d \<and> d \<le> b then wh_ledger w (site, d) else None)"
proof -
  have "map_of (List.map_filter (\<lambda>d. map_option (Pair d) (f d)) ds) d = (if d \<in> set ds then f d else None)"
    for f :: "day \<Rightarrow> sync_day_status option" and ds
    by (induction ds) (auto split: option.splits)
  then show ?thesis by (simp add: ledger_def)
qed

section \<open>What the tables keep\<close>

text \<open>A day that is stored from a property: its entry, and its rows.\<close>

definition copy_of :: "warehouse \<Rightarrow> string \<Rightarrow> string \<Rightarrow> day \<Rightarrow> bool" where
  "copy_of w site p d \<longleftrightarrow> (\<exists>e. wh_ledger w (site, d) = Some e \<and> sd_status e = SYNCED \<and> sd_property_url e = p)"

definition warehouse_ok :: "warehouse \<Rightarrow> bool" where
  "warehouse_ok w \<longleftrightarrow> (\<forall>site d e. wh_ledger w (site, d) = Some e \<longrightarrow> sd_status e = SYNCED \<longrightarrow>
     (\<exists>data. wh_days w (site, d) = Some data \<and> gd_site_id data = site \<and> gd_day data = d
        \<and> gd_property_url data = sd_property_url e \<and> sd_totals_rows e = int (length (gd_totals data))
        \<and> sd_page_rows e = int (length (gd_pages data)) \<and> sd_query_rows e = int (length (gd_queries data))))"

definition same_day :: "warehouse \<Rightarrow> warehouse \<Rightarrow> string \<times> day \<Rightarrow> bool" where
  "same_day w w' k \<longleftrightarrow> wh_ledger w' k = wh_ledger w k \<and> wh_days w' k = wh_days w k"

lemma same_day_refl: "same_day w w k"
  by (simp add: same_day_def)

lemma same_day_trans: "same_day u v k \<Longrightarrow> same_day v w k \<Longrightarrow> same_day u w k"
  by (simp add: same_day_def)

lemma same_day_copy: "same_day w w' (site, d) \<Longrightarrow> copy_of w' site p d = copy_of w site p d"
  by (simp add: same_day_def copy_of_def)

lemma not_due_copy: "copy_of w site p d \<Longrightarrow> \<not> is_due p (wh_ledger w (site, d)) now retry"
  by (auto simp: copy_of_def is_due_def)

lemma replace_day_ok: "warehouse_ok w \<Longrightarrow> warehouse_ok (replace_day now data w)"
  by (auto simp: warehouse_ok_def replace_day_def)

lemma record_failure_ok: "warehouse_ok w \<Longrightarrow> warehouse_ok (record_failure now site d p err w)"
  by (auto simp: warehouse_ok_def record_failure_def split: option.splits if_splits)

lemma record_failure_others: "k \<noteq> (site, d) \<Longrightarrow> same_day w (record_failure now site d p err w) k"
  by (auto simp: same_day_def record_failure_def split: option.splits)

lemma failure_keeps_copy: "copy_of w site p d \<Longrightarrow> record_failure now site d p err w = w"
  by (auto simp: copy_of_def record_failure_def split: option.splits)

lemma fetch_day_data:
  assumes "fetch_day L isoformat site p d newest q = Inr data"
  shows "gd_site_id data = site \<and> gd_day data = d \<and> gd_property_url data = p \<and> d \<le> newest"
  using assms by (auto simp: fetch_day_def and_maybe_Inr split: if_splits option.splits)

text \<open>Syncing a day touches this day only.\<close>

lemma sync_day_effect:
  assumes "sync_day L isoformat now site p d newest q w = (r, w')"
  shows "(warehouse_ok w \<longrightarrow> warehouse_ok w') \<and> (\<forall>k. k \<noteq> (site, d) \<longrightarrow> same_day w w' k)
    \<and> (case fetch_day L isoformat site p d newest q of Inl e \<Rightarrow> r = Inl e | Inr data \<Rightarrow> (\<exists>x. r = Inr x) \<and> copy_of w' site p d)"
proof (cases "fetch_day L isoformat site p d newest q")
  case (Inl e)
  then show ?thesis using assms record_failure_ok record_failure_others
    by (auto simp: sync_day_def same_day_refl split: if_splits)
next
  case (Inr data)
  then show ?thesis using assms fetch_day_data [OF Inr] replace_day_ok [of w now data]
    by (auto simp: sync_day_def same_day_def replace_day_def copy_of_def)
qed

lemma sync_days_effect:
  "sync_days L isoformat now site p newest q ds r w = (r', w') \<Longrightarrow>
    (warehouse_ok w \<longrightarrow> warehouse_ok w') \<and> (\<forall>k. k \<notin> Pair site ` set ds \<longrightarrow> same_day w w' k)"
proof (induction ds arbitrary: r w)
  case Nil
  then show ?case by (simp add: same_day_refl)
next
  case (Cons d ds)
  obtain x w1 where one: "sync_day L isoformat now site p d newest q w = (x, w1)" by force
  note e = sync_day_effect [OF one]
  have "w' = w1 \<or> (\<exists>r1. sync_days L isoformat now site p newest q ds r1 w1 = (r', w'))"
    using Cons.prems one by (auto split: sum.splits if_splits)
  then have "(warehouse_ok w1 \<longrightarrow> warehouse_ok w') \<and> (\<forall>k. k \<notin> Pair site ` set ds \<longrightarrow> same_day w1 w' k)"
    using Cons.IH same_day_refl by blast
  moreover have "same_day w w1 k" if "k \<notin> Pair site ` set (d # ds)" for k
  proof -
    have "k \<noteq> (site, d)" using that by auto
    then show ?thesis using e by blast
  qed
  moreover have "k \<notin> Pair site ` set ds" if "k \<notin> Pair site ` set (d # ds)" for k using that by simp
  ultimately show ?case using e same_day_trans by metis
qed

text \<open>When every day is answered, every day of the plan is stored.\<close>

lemma sync_days_answered:
  "sync_days L isoformat now site p newest q ds r w = (r', w') \<Longrightarrow>
    (\<And>d. d \<in> set ds \<Longrightarrow> \<exists>data. fetch_day L isoformat site p d newest q = Inr data) \<Longrightarrow> distinct ds \<Longrightarrow>
    \<forall>d \<in> set ds. copy_of w' site p d"
proof (induction ds arbitrary: r w)
  case Nil
  then show ?case by simp
next
  case (Cons d ds)
  obtain x w1 where one: "sync_day L isoformat now site p d newest q w = (x, w1)" by force
  obtain data where "fetch_day L isoformat site p d newest q = Inr data" using Cons.prems(2) [of d] by auto
  then have x: "\<exists>y. x = Inr y" "copy_of w1 site p d" using sync_day_effect [OF one] by simp_all
  then have rest: "sync_days L isoformat now site p newest q ds (r\<lparr>rd_synced := rd_synced r + 1\<rparr>) w1 = (r', w')"
    using Cons.prems(1) one by auto
  have "\<forall>d \<in> set ds. copy_of w' site p d" using Cons.IH [OF rest] Cons.prems(2,3) by auto
  moreover have "same_day w1 w' (site, d)" using sync_days_effect [OF rest] Cons.prems(3) by auto
  ultimately show ?case using x(2) same_day_copy by auto
qed

section \<open>A round of one site\<close>

lemma site_round_effect:
  assumes "sync_site_round L isoformat now eligible query_for per_round retry window site (r, w) = (r', w')"
  shows "(warehouse_ok w \<longrightarrow> warehouse_ok w')
    \<and> (\<forall>k. fst k \<noteq> ss_site_id site \<longrightarrow> same_day w w' k)
    \<and> (\<forall>p d. ss_property_url site \<in> {None, Some p} \<longrightarrow> copy_of w (ss_site_id site) p d \<longrightarrow> same_day w w' (ss_site_id site, d))"
proof (cases "\<exists>p q ds r0. ss_property_url site = Some p
    \<and> ds = plan_days window p (map_of (ledger w (ss_site_id site) (fst window) (snd window))) now retry per_round
    \<and> sync_days L isoformat now (ss_site_id site) p (snd window) q ds r0 w = (r', w')")
  case False
  then have "w' = w" using assms
    by (auto simp: sync_site_round_def Let_def split: option.splits if_splits sum.splits)
  then show ?thesis by (simp add: same_day_refl)
next
  case True
  then obtain p q ds r0 where p: "ss_property_url site = Some p"
    and ds: "ds = plan_days window p (map_of (ledger w (ss_site_id site) (fst window) (snd window))) now retry per_round"
    and run: "sync_days L isoformat now (ss_site_id site) p (snd window) q ds r0 w = (r', w')" by blast
  note e = sync_days_effect [OF run]
  have "d \<notin> set ds" if "copy_of w (ss_site_id site) p d" for d
    using not_due_copy [OF that] unfolding ds plan_days_spec
    by (auto dest!: in_set_takeD simp: ledger_entry)
  then show ?thesis using e p by auto
qed

text \<open>The unstored days of a window, newest first.\<close>

definition missing_days :: "warehouse \<Rightarrow> string \<Rightarrow> string \<Rightarrow> day \<times> day \<Rightarrow> day list" where
  "missing_days w site p window = filter (\<lambda>d. \<not> copy_of w site p d) (rev [fst window..snd window])"

text \<open>No failed day is still waiting for its next try.\<close>

definition may_fetch :: "warehouse \<Rightarrow> string \<Rightarrow> string \<Rightarrow> instant \<Rightarrow> int \<Rightarrow> bool" where
  "may_fetch w site p now retry \<longleftrightarrow> (\<forall>d e. wh_ledger w (site, d) = Some e \<longrightarrow> sd_property_url e = p \<longrightarrow>
     sd_status e = FAILED_SYNC \<longrightarrow> retry \<le> now - sd_fetched_at e)"

lemma due_missing:
  "may_fetch w site p now retry \<Longrightarrow> is_due p (wh_ledger w (site, d)) now retry \<longleftrightarrow> \<not> copy_of w site p d"
  by (cases "wh_ledger w (site, d)"; cases "sd_status (the (wh_ledger w (site, d)))")
    (auto simp: may_fetch_def is_due_def copy_of_def)

lemma site_round_fills:
  assumes run: "sync_site_round L isoformat now eligible query_for per_round retry window site (r, w) = (r', w')"
    and site: "ss_property_url site = Some p" "eligible site" "query_for site = Inr q"
    and answers: "\<forall>d \<in> {fst window..snd window}. \<exists>data. fetch_day L isoformat (ss_site_id site) p d (snd window) q = Inr data"
    and fetch: "may_fetch w (ss_site_id site) p now retry"
  shows "missing_days w' (ss_site_id site) p window = drop (nat per_round) (missing_days w (ss_site_id site) p window)
    \<and> (\<forall>d. copy_of w' (ss_site_id site) p d \<or> same_day w w' (ss_site_id site, d))"
proof -
  let ?i = "ss_site_id site" and ?all = "rev [fst window..snd window]"
  define ds where "ds = plan_days window p (map_of (ledger w ?i (fst window) (snd window))) now retry per_round"
  have ds: "ds = take (nat per_round) (missing_days w ?i p window)"
    unfolding ds_def plan_days_spec missing_days_def
    by (rule arg_cong [of _ _ "take (nat per_round)"], rule filter_cong) (simp_all add: ledger_entry due_missing [OF fetch])
  have "\<exists>r0. sync_days L isoformat now ?i p (snd window) q ds r0 w = (r', w')"
  proof (cases "ds = []")
    case False
    then have "sync_days L isoformat now ?i p (snd window) q ds (r\<lparr>rd_sites := rd_sites r + 1\<rparr>) w = (r', w')"
      using run site by (simp add: sync_site_round_def ds_def [symmetric])
    then show ?thesis by blast
  qed (use run site in \<open>simp add: sync_site_round_def ds_def [symmetric]\<close>)
  then obtain r0 where r0: "sync_days L isoformat now ?i p (snd window) q ds r0 w = (r', w')" by blast
  have dist: "distinct (missing_days w ?i p window)" by (simp add: missing_days_def)
  have in_window: "d \<in> {fst window..snd window}" if "d \<in> set ds" for d
    using that by (auto simp: ds missing_days_def dest!: in_set_takeD)
  have stored: "\<forall>d \<in> set ds. copy_of w' ?i p d"
    by (rule sync_days_answered [OF r0]) (use answers in_window dist in \<open>auto simp: ds\<close>)
  have others: "same_day w w' (?i, d)" if "d \<notin> set ds" for d
    using sync_days_effect [OF r0] that by auto
  have "copy_of w' ?i p d \<longleftrightarrow> copy_of w ?i p d \<or> d \<in> set ds" for d
    using stored others [of d] same_day_copy by blast
  then have "missing_days w' ?i p window = filter (\<lambda>d. d \<notin> set ds) (missing_days w ?i p window)"
    by (auto simp: missing_days_def intro: filter_cong)
  also have "\<dots> = drop (nat per_round) (missing_days w ?i p window)"
  proof -
    let ?m = "missing_days w ?i p window"
    have "filter (\<lambda>d. d \<notin> set (take n xs)) xs = drop n xs" if "distinct xs" for n and xs :: "day list"
    proof -
      have "set (take n xs) \<inter> set (drop n xs) = {}" using that by (metis set_take_disj_set_drop_if_distinct order_refl)
      then have "filter (\<lambda>d. d \<notin> set (take n xs)) (take n xs @ drop n xs) = drop n xs"
        unfolding filter_append by (auto simp: filter_id_conv filter_empty_conv)
      then show ?thesis by simp
    qed
    then show ?thesis using dist by (simp add: ds)
  qed
  finally show ?thesis using stored others by blast
qed

section \<open>Rounds over all sites\<close>

lemma sites_effect:
  "fold (sync_site_round L isoformat now eligible query_for per_round retry window) sites (r, w) = (r', w') \<Longrightarrow>
    (warehouse_ok w \<longrightarrow> warehouse_ok w') \<and> (\<forall>k. fst k \<notin> ss_site_id ` set sites \<longrightarrow> same_day w w' k)
    \<and> (\<forall>i p d. (\<forall>s \<in> set sites. ss_site_id s = i \<longrightarrow> ss_property_url s \<in> {None, Some p}) \<longrightarrow> copy_of w i p d
         \<longrightarrow> same_day w w' (i, d))"
proof (induction sites arbitrary: r w)
  case Nil
  then show ?case by (simp add: same_day_refl)
next
  case (Cons site sites)
  obtain r1 w1 where one: "sync_site_round L isoformat now eligible query_for per_round retry window site (r, w) = (r1, w1)"
    by force
  note e = site_round_effect [OF one]
  have rest: "fold (sync_site_round L isoformat now eligible query_for per_round retry window) sites (r1, w1) = (r', w')"
    using Cons.prems one by simp
  note IH = Cons.IH [OF rest]
  have "same_day w w' k" if "fst k \<notin> ss_site_id ` set (site # sites)" for k
  proof (rule same_day_trans)
    have k: "fst k \<noteq> ss_site_id site" "fst k \<notin> ss_site_id ` set sites" using that by simp_all
    show "same_day w w1 k" using e k(1) by blast
    show "same_day w1 w' k" using IH k(2) by blast
  qed
  moreover have "same_day w w' (i, d)"
    if h: "\<forall>s \<in> set (site # sites). ss_site_id s = i \<longrightarrow> ss_property_url s \<in> {None, Some p}" "copy_of w i p d" for i p d
  proof -
    have "same_day w w1 (i, d)"
    proof (cases "ss_site_id site = i")
      case True
      then have "ss_property_url site \<in> {None, Some p}" using h(1) by simp
      then show ?thesis using e h(2) True by blast
    next
      case False
      then show ?thesis using e by simp
    qed
    then have "copy_of w1 i p d" using h(2) same_day_copy by blast
    moreover have "\<forall>s \<in> set sites. ss_site_id s = i \<longrightarrow> ss_property_url s \<in> {None, Some p}" using h(1) by simp
    ultimately have "same_day w1 w' (i, d)" using IH by blast
    then show ?thesis using \<open>same_day w w1 (i, d)\<close> same_day_trans by blast
  qed
  ultimately show ?case using e IH by blast
qed

definition all_answered ::
  "std_library \<Rightarrow> (day \<Rightarrow> string) \<Rightarrow> (sync_site \<Rightarrow> exn + query_fn) \<Rightarrow> sync_site \<Rightarrow> string \<Rightarrow> day \<times> day \<Rightarrow> bool" where
  "all_answered L isoformat query_for site p window \<longleftrightarrow> (\<exists>q. query_for site = Inr q
     \<and> (\<forall>d \<in> {fst window..snd window}. \<exists>data. fetch_day L isoformat (ss_site_id site) p d (snd window) q = Inr data))"

lemma round_fills:
  assumes run: "fold (sync_site_round L isoformat now eligible query_for per_round retry window) sites (r, w) = (r', w')"
    and site: "site \<in> set sites" "distinct (map ss_site_id sites)" "ss_property_url site = Some p" "eligible site"
    and answers: "all_answered L isoformat query_for site p window" and fetch: "may_fetch w (ss_site_id site) p now retry"
  shows "missing_days w' (ss_site_id site) p window = drop (nat per_round) (missing_days w (ss_site_id site) p window)
    \<and> (\<forall>d. copy_of w' (ss_site_id site) p d \<or> same_day w w' (ss_site_id site, d))"
proof -
  let ?i = "ss_site_id site" and ?step = "sync_site_round L isoformat now eligible query_for per_round retry window"
  obtain xs ys where split: "sites = xs @ site # ys" using site(1) by (metis split_list)
  then have ids: "?i \<notin> ss_site_id ` set xs" "?i \<notin> ss_site_id ` set ys" using site(2) by auto
  obtain r1 w1 where one: "fold ?step xs (r, w) = (r1, w1)" by force
  obtain r2 w2 where two: "?step site (r1, w1) = (r2, w2)" by force
  have three: "fold ?step ys (r2, w2) = (r', w')" using run one two by (simp add: split)
  have before: "same_day w w1 (?i, d)" for d using sites_effect [OF one] ids(1) by simp
  have after: "same_day w2 w' (?i, d)" for d using sites_effect [OF three] ids(2) by simp
  have m1: "missing_days w1 ?i p window = missing_days w ?i p window"
    by (simp add: missing_days_def same_day_copy [OF before])
  have m2: "missing_days w' ?i p window = missing_days w2 ?i p window"
    by (simp add: missing_days_def same_day_copy [OF after])
  have "may_fetch w1 ?i p now retry" using fetch before by (simp add: may_fetch_def same_day_def)
  moreover obtain q where "query_for site = Inr q"
      "\<forall>d \<in> {fst window..snd window}. \<exists>data. fetch_day L isoformat ?i p d (snd window) q = Inr data"
    using answers by (auto simp: all_answered_def)
  ultimately have mid: "missing_days w2 ?i p window = drop (nat per_round) (missing_days w1 ?i p window)
      \<and> (\<forall>d. copy_of w2 ?i p d \<or> same_day w1 w2 (?i, d))"
    using site_round_fills [OF two site(3,4)] by blast
  have "copy_of w' ?i p d \<or> same_day w w' (?i, d)" for d
    using mid before [of d] after [of d] same_day_trans same_day_copy by metis
  then show ?thesis using mid m1 m2 by simp
qed

text \<open>Rounds one after another, each at its instant and with the answers of its time.\<close>

fun sync_rounds ::
  "std_library \<Rightarrow> (day \<Rightarrow> string) \<Rightarrow> (sync_site \<Rightarrow> bool) \<Rightarrow> int \<Rightarrow> int \<Rightarrow> sync_site list
   \<Rightarrow> (instant \<times> (sync_site \<Rightarrow> exn + query_fn)) list \<Rightarrow> warehouse \<Rightarrow> warehouse" where
  "sync_rounds L isoformat eligible per_round retry sites [] w = w"
| "sync_rounds L isoformat eligible per_round retry sites ((now, query_for) # rounds) w =
     sync_rounds L isoformat eligible per_round retry sites rounds
       (snd (sync_round L isoformat now eligible query_for per_round retry sites w))"

lemma sync_round_run:
  "sync_window now gsc_data_lag_days window_size = Inr window \<Longrightarrow>
    \<exists>r w'. sync_round L isoformat now eligible query_for per_round retry sites w = (Inr r, w')
      \<and> fold (sync_site_round L isoformat now eligible query_for per_round retry window) sites (new_report, w) = (r, w')"
  by (cases "fold (sync_site_round L isoformat now eligible query_for per_round retry window) sites (new_report, w)")
    (simp add: sync_round_def)

lemma sync_window_total: "\<exists>window. sync_window now gsc_data_lag_days window_size = Inr window"
  by (simp add: sync_window_def latest_final_date_def gsc_data_lag_days_def)

lemma rounds_fill:
  assumes site: "site \<in> set sites" "distinct (map ss_site_id sites)" "ss_property_url site = Some p" "eligible site"
  shows "\<forall>(now, qf) \<in> set rounds. sync_window now gsc_data_lag_days window_size = Inr window
      \<and> all_answered L isoformat qf site p window \<and> may_fetch w (ss_site_id site) p now retry \<Longrightarrow>
    missing_days (sync_rounds L isoformat eligible per_round retry sites rounds w) (ss_site_id site) p window
      = drop (length rounds * nat per_round) (missing_days w (ss_site_id site) p window)"
proof (induction rounds arbitrary: w)
  case Nil
  then show ?case by simp
next
  case (Cons x rounds)
  obtain now qf where x: "x = (now, qf)" by force
  have now: "sync_window now gsc_data_lag_days window_size = Inr window" "all_answered L isoformat qf site p window"
      "may_fetch w (ss_site_id site) p now retry" using Cons.prems by (simp_all add: x)
  obtain r w1 where run: "sync_round L isoformat now eligible qf per_round retry sites w = (Inr r, w1)"
      "fold (sync_site_round L isoformat now eligible qf per_round retry window) sites (new_report, w) = (r, w1)"
    using sync_round_run [OF now(1)] by blast
  note one = round_fills [OF run(2) site now(2,3)]
  have "may_fetch w1 (ss_site_id site) p n retry" if "may_fetch w (ss_site_id site) p n retry" for n
    unfolding may_fetch_def
  proof (intro allI impI)
    fix d e assume e: "wh_ledger w1 (ss_site_id site, d) = Some e" "sd_property_url e = p" "sd_status e = FAILED_SYNC"
    then have "same_day w w1 (ss_site_id site, d)" using one by (force simp: copy_of_def)
    then show "retry \<le> n - sd_fetched_at e" using e that by (auto simp: same_day_def may_fetch_def)
  qed
  then have "\<forall>(now, qf) \<in> set rounds. sync_window now gsc_data_lag_days window_size = Inr window
      \<and> all_answered L isoformat qf site p window \<and> may_fetch w1 (ss_site_id site) p now retry"
    using Cons.prems by auto
  from Cons.IH [OF this] one show ?case by (simp add: x run(1) add.commute)
qed

section \<open>A site that answers\<close>

definition no_rows :: query_fn where
  "no_rows dimensions d state = Inr \<lparr>qa_rows = [], qa_first_incomplete_date = None\<rparr>"

definition demo_shop :: sync_site where
  "demo_shop = \<lparr>ss_site_id = ''s'', ss_property_url = Some ''sc-domain:a.ir''\<rparr>"

lemma no_rows_answers:
  "all_answered L isoformat (\<lambda>_. Inr no_rows) demo_shop ''sc-domain:a.ir'' window"
  by (auto simp: all_answered_def fetch_day_def no_rows_def demo_shop_def)

lemma demo_window: "sync_window (days 1000) gsc_data_lag_days window_size = Inr (517, 996)"
  by (simp add: sync_window_def latest_final_date_def gsc_data_lag_days_def window_size_def search_console_today_def)

definition stored_day :: warehouse where
  "stored_day = replace_day 5 \<lparr>gd_site_id = ''s'', gd_day = 700, gd_property_url = ''sc-domain:a.ir'', gd_totals = [],
     gd_pages = [], gd_queries = [], gd_page_rows_capped = False, gd_query_rows_capped = False\<rparr> empty_warehouse"

lemma stored_day_facts: "warehouse_ok stored_day" "copy_of stored_day ''s'' ''sc-domain:a.ir'' 700"
  by (auto simp: stored_day_def replace_day_def empty_warehouse_def warehouse_ok_def copy_of_def)

section \<open>Properties\<close>

text \<open>
  The plan is the newest days that are due: walking back from the newest day, the planner
  returns the first of the window's days, newest first, that are not stored from this property
  and whose last failure is long enough ago, and never more than it may.
\<close>

theorem plan_newest_due:
  "plan_days window p entries now retry limit
     = take (nat limit) (filter (\<lambda>d. is_due p (entries d) now retry) (rev [fst window..snd window]))"
  by (rule plan_days_spec)

text \<open>
  C19. A good copy is kept: whatever a round meets (answers, refusals, days that are not final,
  refused credentials), the ledger still matches the rows, and a day that is stored from the
  property its site has is neither fetched again nor disturbed.
\<close>

theorem good_copy_kept:
  assumes "warehouse_ok w"
    and "sync_round L isoformat now eligible query_for per_round retry sites w = (Inr r, w')"
  shows "warehouse_ok w' \<and> (\<forall>i p d. (\<forall>s \<in> set sites. ss_site_id s = i \<longrightarrow> ss_property_url s \<in> {None, Some p})
      \<longrightarrow> copy_of w i p d \<longrightarrow> wh_ledger w' (i, d) = wh_ledger w (i, d) \<and> wh_days w' (i, d) = wh_days w (i, d))"
proof -
  obtain window where "sync_window now gsc_data_lag_days window_size = Inr window" using sync_window_total by blast
  then have "fold (sync_site_round L isoformat now eligible query_for per_round retry window) sites (new_report, w) = (r, w')"
    using sync_round_run [of now window L isoformat eligible query_for per_round retry sites w] assms(2) by auto
  from sites_effect [OF this] assms(1) show ?thesis unfolding same_day_def by blast
qed

lemma good_copy_kept_witness:
  "\<exists>w'. snd (sync_round demo_library show_int (days 1000) (\<lambda>_. True) (\<lambda>_. Inl (Exn CredentialError [])) 10 (hours 6) [demo_shop] stored_day) = w'
     \<and> wh_ledger w' (''s'', 700) = wh_ledger stored_day (''s'', 700)"
proof -
  obtain r w' where run: "sync_round demo_library show_int (days 1000) (\<lambda>_. True) (\<lambda>_. Inl (Exn CredentialError [])) 10 (hours 6)
      [demo_shop] stored_day = (Inr r, w')"
    using sync_round_run [OF demo_window] by blast
  have "wh_ledger w' (''s'', 700) = wh_ledger stored_day (''s'', 700)"
    using conjunct2 [OF good_copy_kept [OF stored_day_facts(1) run], rule_format, of "''s''" "''sc-domain:a.ir''" 700]
      stored_day_facts(2) by (simp add: demo_shop_def)
  then show ?thesis using run by simp
qed

text \<open>
  C23. The backfill ends: if Search Console answers for every day of the window, and no failed day is
  still waiting, then each round stores the newest days missing, as many as it may, and after
  enough rounds no day of the sixteen months is missing; other sites do not delay it.
\<close>

theorem backfill_ends:
  assumes "site \<in> set sites" and "distinct (map ss_site_id sites)" and "ss_property_url site = Some p" and "eligible site"
    and "\<forall>(now, query_for) \<in> set rounds. sync_window now gsc_data_lag_days window_size = Inr window
      \<and> all_answered L isoformat query_for site p window \<and> may_fetch w (ss_site_id site) p now retry"
    and "480 \<le> length rounds * nat per_round" and "rounds \<noteq> []"
  shows "\<forall>d \<in> {fst window..snd window}.
    copy_of (sync_rounds L isoformat eligible per_round retry sites rounds w) (ss_site_id site) p d"
proof -
  let ?w = "sync_rounds L isoformat eligible per_round retry sites rounds w"
  obtain now qf where "(now, qf) \<in> set rounds" using assms(7) by (metis list.set_intros(1) neq_Nil_conv surj_pair)
  then have "sync_window now gsc_data_lag_days window_size = Inr window" using assms(5) by blast
  then have "snd window - fst window = 479"
    by (auto simp: sync_window_def and_maybe_Inr window_size_def)
  then have "length (missing_days w (ss_site_id site) p window) \<le> 480"
    unfolding missing_days_def by (intro order_trans [OF length_filter_le]) simp
  then have "missing_days ?w (ss_site_id site) p window = []"
    using rounds_fill [where eligible = eligible, OF assms(1-5)] assms(6) by simp
  then show ?thesis by (auto simp: missing_days_def filter_empty_conv)
qed

lemma backfill_ends_witness:
  "{517..996} \<subseteq> {d. copy_of (sync_rounds demo_library show_int (\<lambda>_. True) 10 (hours 6) [demo_shop]
     (replicate 48 (days 1000, \<lambda>_. Inr no_rows)) empty_warehouse) ''s'' ''sc-domain:a.ir'' d}"
proof -
  have site: "ss_property_url demo_shop = Some ''sc-domain:a.ir''" "ss_site_id demo_shop = ''s''"
    by (simp_all add: demo_shop_def)
  have "\<forall>(now, qf) \<in> set (replicate 48 (days 1000, \<lambda>_. Inr no_rows)).
      sync_window now gsc_data_lag_days window_size = Inr (517, 996)
      \<and> all_answered demo_library show_int qf demo_shop ''sc-domain:a.ir'' (517, 996)
      \<and> may_fetch empty_warehouse (ss_site_id demo_shop) ''sc-domain:a.ir'' now (hours 6)"
    using demo_window no_rows_answers by (auto simp: may_fetch_def empty_warehouse_def)
  from backfill_ends [where sites = "[demo_shop]" and eligible = "\<lambda>_. True" and per_round = 10, OF _ _ site(1) _ this] show ?thesis
    by (auto simp: site(2))
qed

end
