(* ===== verification/Feedback.thy ===== *)
theory Feedback
  imports Stores Learning
begin

text \<open>
  \<open>app/learning/store.py\<close>: what each settled action taught, kept once and per tenant. A record
  that is written once and found again by a repeated write is shared with the outcome of a
  measurement (\<open>create_once\<close>); the loop over the pages of a listing has no bound in the code, so
  it is a partial function here, and that it ends is proved.
\<close>

section \<open>Records that are written once\<close>

text \<open>
  \<open>try: create ... except PersistenceConflictError\<close>: a record that is already there is accepted
  when it is the \<open>same\<close>, and the conflict raised otherwise.
\<close>

definition create_once ::
  "('s, 'p) repository_ops \<Rightarrow> ('p precord \<Rightarrow> bool) \<Rightarrow> 'p precord \<Rightarrow> ('s, unit) prog" where
  "create_once R same r =
     attempt (updates (\<lambda>s. repo_create R s r))
       (\<lambda>e. if is_conflict e
          then andthen (reads (\<lambda>s. repo_get R s (pr_type r) (pr_id r))) (\<lambda>existing.
               case existing of
                 None \<Rightarrow> raise_exn e
               | Some x \<Rightarrow> if same x then ret () else raise_exn e)
          else raise_exn e)"

context repository
begin

lemma create_once_spec:
  assumes "ok s" and "\<And>p. owner s (pr_record_id r) = Some p \<Longrightarrow> p = pr_identity r"
  shows "case repo_get R s (pr_type r) (pr_id r) of
      None \<Rightarrow> \<exists>s'. create_once R same r s = (Inr (), s') \<and> written_to R ok owner s r s'
    | Some x \<Rightarrow> if same x then create_once R same r s = (Inr (), s)
        else \<exists>e. is_conflict e \<and> create_once R same r s = (Inl e, s)"
proof (cases "repo_get R s (pr_type r) (pr_id r)")
  case None
  have "owner s (pr_record_id r) = None"
  proof (cases "owner s (pr_record_id r)")
    case (Some p)
    then show ?thesis using assms(2) [OF Some] owned [OF assms(1)] None by fastforce
  qed
  then show ?thesis using create_new [OF assms(1) None] None
    by (auto simp: create_once_def attempt_def updates_def)
next
  case (Some x)
  then obtain m where "repo_create R s r = Inl (Exn PersistenceConflictError m)"
    using create_exists [OF assms(1) Some] by (auto simp: refused_def)
  then show ?thesis using Some
    by (simp add: create_once_def attempt_def updates_def andthen_def reads_def ret_def raise_exn_def)
qed

end

section \<open>The store\<close>

abbreviation feedback_kind :: string where "feedback_kind \<equiv> ''learning_feedback''"

definition feedback_id_for :: "string \<Rightarrow> string" where
  "feedback_id_for action_id = ''feedback:'' @ action_id"

definition feedback_to_record ::
  "(feedback_event, 'p) codec \<Rightarrow> instant \<Rightarrow> feedback_event \<Rightarrow> string \<Rightarrow> exn + 'p precord" where
  "feedback_to_record c now e tenant =
     new_precord (fe_feedback_id e @ '':v1'') feedback_kind (fe_feedback_id e) 1 1 (model_dump c e) now
       (Some tenant) (Some (fe_site_id e))"

definition feedback_add ::
  "('s, 'p) repository_ops \<Rightarrow> (feedback_event, 'p) codec \<Rightarrow> instant \<Rightarrow> feedback_event \<Rightarrow> string
   \<Rightarrow> ('s, feedback_event) prog" where
  "feedback_add R c now e tenant =
     andthen (of_result (feedback_to_record c now e tenant)) (\<lambda>r.
     andthen (create_once R (\<lambda>x. pr_tenant_id x = Some tenant \<and> pr_payload x = pr_payload r) r) (\<lambda>_. ret e))"

text \<open>The \<open>while True\<close> of \<open>list_for_tenant\<close>, from the events read so far; \<open>None\<close> is not returning.\<close>

partial_function (option) list_from ::
  "('s, 'p) repository_ops \<Rightarrow> (feedback_event, 'p) codec \<Rightarrow> string \<Rightarrow> 's \<Rightarrow> feedback_event list \<Rightarrow> cursor option
   \<Rightarrow> (exn + feedback_event list) option" where
  "list_from R c tenant s events cur =
     (case repo_query R s tenant (Some feedback_kind) None 500 cur of
        Inl e \<Rightarrow> Some (Inl e)
      | Inr pg \<Rightarrow>
          (case collect (\<lambda>r. restore c (pr_payload r)) (page_records pg) of
             Inl e \<Rightarrow> Some (Inl e)
           | Inr es \<Rightarrow>
               (case page_next_cursor pg of
                  None \<Rightarrow> Some (Inr (events @ es))
                | Some cur' \<Rightarrow> list_from R c tenant s (events @ es) (Some cur'))))"

definition list_for_tenant ::
  "('s, 'p) repository_ops \<Rightarrow> (feedback_event, 'p) codec \<Rightarrow> string \<Rightarrow> 's \<Rightarrow> (exn + feedback_event list) option" where
  "list_for_tenant R c tenant s = list_from R c tenant s [] None"

text \<open>\<open>sha256(...).hexdigest()\<close> is an argument; the samples a signal needs are the default five.\<close>

definition learning_context_id :: "(string \<Rightarrow> string) \<Rightarrow> string \<Rightarrow> feedback_event list \<Rightarrow> string" where
  "learning_context_id sha tenant events =
     ''learning:'' @ tenant @ '':'' @ take 16 (sha (py_join [CHR 0x0A] (sort (map fe_feedback_id events))))"

definition tenant_learning ::
  "('s, 'p) repository_ops \<Rightarrow> (feedback_event, 'p) codec \<Rightarrow> (string \<Rightarrow> string) \<Rightarrow> string \<Rightarrow> 's
   \<Rightarrow> (exn + learning_context option) option" where
  "tenant_learning R c sha tenant s =
     map_option (\<lambda>r. and_maybe r (\<lambda>events.
       if events = [] then Inr None
       else and_maybe (build_learning_context (learning_context_id sha tenant events) events 5) (\<lambda>ctx. Inr (Some ctx))))
       (list_for_tenant R c tenant s)"

section \<open>What the store holds\<close>

definition feedback_good :: "string \<Rightarrow> feedback_event \<Rightarrow> bool" where
  "feedback_good a e \<longleftrightarrow> fe_feedback_id e = feedback_id_for a \<and> fe_action_id e = a \<and> same_event e e"

text \<open>The events by the action that taught them, each with its tenant.\<close>

definition taught_by ::
  "('s, 'p) repository_ops \<Rightarrow> (feedback_event, 'p) codec \<Rightarrow> 's \<Rightarrow> string \<Rightarrow> (string \<times> feedback_event) option" where
  "taught_by R c s a = (case repo_get R s feedback_kind (feedback_id_for a) of
     None \<Rightarrow> None
   | Some r \<Rightarrow> (case (pr_tenant_id r, model_validate c (pr_payload r)) of
       (Some t, Some e) \<Rightarrow> Some (t, e) | _ \<Rightarrow> None))"

definition feedback_ok ::
  "('s, 'p) repository_ops \<Rightarrow> ('s \<Rightarrow> bool) \<Rightarrow> ('s \<Rightarrow> string \<Rightarrow> (string \<times> string \<times> int) option)
   \<Rightarrow> (feedback_event, 'p) codec \<Rightarrow> 's \<Rightarrow> bool" where
  "feedback_ok R ok owner c s \<longleftrightarrow> ok s
     \<and> (\<forall>a p. owner s (rid ''feedback'' a 1) = Some p \<longrightarrow> p = (feedback_kind, feedback_id_for a, 1))
     \<and> (\<forall>i r. repo_get R s feedback_kind i = Some r \<longrightarrow> (\<exists>a t e. i = feedback_id_for a \<and> pr_tenant_id r = Some t
          \<and> pr_payload r = model_dump c e \<and> feedback_good a e))"

lemma feedback_id_inj: "feedback_id_for a = feedback_id_for b \<longleftrightarrow> a = b"
  by (simp add: feedback_id_for_def)

lemma feedback_rid: "feedback_id_for a @ '':v1'' = rid ''feedback'' a 1"
proof -
  have "show_int 1 = ''1''" by code_simp
  then show ?thesis by (simp add: feedback_id_for_def rid_def)
qed

lemma feedback_owner:
  "feedback_ok R ok owner c s \<Longrightarrow> owner s (rid ''feedback'' a 1) = Some p \<Longrightarrow> p = (feedback_kind, feedback_id_for a, 1)"
  unfolding feedback_ok_def by blast

lemma feedback_record:
  "feedback_ok R ok owner c s \<Longrightarrow> repo_get R s feedback_kind i = Some r \<Longrightarrow>
    \<exists>a t e. i = feedback_id_for a \<and> pr_tenant_id r = Some t \<and> pr_payload r = model_dump c e \<and> feedback_good a e"
  unfolding feedback_ok_def by blast

text \<open>A record of another kind, under another prefix, leaves what was taught alone.\<close>

lemma feedback_other:
  assumes "feedback_ok R ok owner c s" and "written_to R ok owner s r s'"
    and "pr_type r \<noteq> feedback_kind" and "\<not> prefix ''feedback:'' (pr_record_id r)"
  shows "feedback_ok R ok owner c s' \<and> taught_by R c s' = taught_by R c s"
proof -
  have get: "repo_get R s' feedback_kind i = repo_get R s feedback_kind i" for i
    using assms(2,3) by (auto simp: written_to_def)
  have own: "owner s' (rid ''feedback'' a 1) = owner s (rid ''feedback'' a 1)" for a
  proof -
    have "pr_record_id r \<noteq> rid ''feedback'' a 1" using assms(4) by (auto simp: rid_def)
    then show ?thesis using assms(2) by (auto simp: written_to_def)
  qed
  have "ok s'" using assms(2) by (simp add: written_to_def)
  then show ?thesis using assms(1) by (simp add: feedback_ok_def taught_by_def get own fun_eq_iff)
qed

locale feedback_store = repository R ok owner
  for R :: "('s, 'p) repository_ops" and ok and owner +
  fixes c :: "(feedback_event, 'p) codec"
  assumes round_trip: "codec_ok (\<lambda>e. same_event e e) c"
begin

text \<open>A stored event and its record.\<close>

lemma good_round: "feedback_good a e \<Longrightarrow> model_validate c (model_dump c e) = Some e"
  using round_trip by (simp add: codec_ok_def feedback_good_def)

lemma record_taught:
  assumes "feedback_ok R ok owner c s" and "repo_get R s feedback_kind (feedback_id_for a) = Some r"
  shows "\<exists>t e. taught_by R c s a = Some (t, e) \<and> pr_tenant_id r = Some t \<and> pr_payload r = model_dump c e \<and> feedback_good a e"
proof -
  obtain b t e where "feedback_id_for a = feedback_id_for b" "pr_tenant_id r = Some t"
      "pr_payload r = model_dump c e" "feedback_good b e"
    using feedback_record [OF assms] by blast
  then show ?thesis using assms(2) good_round by (auto simp: taught_by_def feedback_id_inj)
qed

lemma taught_record:
  assumes "feedback_ok R ok owner c s" and "taught_by R c s a = Some (t, e)"
  shows "\<exists>r. repo_get R s feedback_kind (feedback_id_for a) = Some r \<and> pr_tenant_id r = Some t
    \<and> pr_payload r = model_dump c e \<and> feedback_good a e"
proof -
  obtain r where r: "repo_get R s feedback_kind (feedback_id_for a) = Some r"
    using assms(2) by (auto simp: taught_by_def split: option.splits)
  then show ?thesis using record_taught [OF assms(1) r] assms(2) by auto
qed

lemma taught_none:
  assumes "feedback_ok R ok owner c s"
  shows "taught_by R c s a = None \<longleftrightarrow> repo_get R s feedback_kind (feedback_id_for a) = None"
  using record_taught [OF assms, of a] by (cases "repo_get R s feedback_kind (feedback_id_for a)") (auto simp: taught_by_def)

lemma add_written:
  assumes fb: "feedback_ok R ok owner c s" and good: "feedback_good a e"
    and r: "feedback_to_record c now e tenant = Inr r" and w: "written_to R ok owner s r s'"
  shows "feedback_ok R ok owner c s' \<and> taught_by R c s' = (taught_by R c s)(a \<mapsto> (tenant, e))"
proof -
  have e: "model_validate c (model_dump c e) = Some e" "fe_feedback_id e = feedback_id_for a"
    using good round_trip by (simp_all add: feedback_good_def codec_ok_def)
  have rec: "pr_type r = feedback_kind" "pr_id r = feedback_id_for a" "pr_record_id r = rid ''feedback'' a 1"
      "pr_version r = 1" "pr_tenant_id r = Some tenant" "pr_payload r = model_dump c e"
    using r e(2) by (auto simp: feedback_to_record_def new_precord_def Let_def feedback_rid split: if_splits)
  have get: "repo_get R s' t i = (if t = feedback_kind \<and> i = feedback_id_for a then Some r else repo_get R s t i)" for t i
    using w rec by (simp add: written_to_def)
  have own: "owner s' (rid ''feedback'' b 1)
      = (if b = a then Some (feedback_kind, feedback_id_for a, 1) else owner s (rid ''feedback'' b 1))" for b
    using w rec rid_inj [of "''feedback''" b 1 a 1] by (auto simp: written_to_def)
  have "feedback_ok R ok owner c s'"
    unfolding feedback_ok_def
  proof (intro conjI allI impI)
    show "ok s'" using w by (simp add: written_to_def)
    show "p = (feedback_kind, feedback_id_for b, 1)" if "owner s' (rid ''feedback'' b 1) = Some p" for b p
      using that feedback_owner [OF fb] by (simp add: own split: if_splits)
    fix i x assume x: "repo_get R s' feedback_kind i = Some x"
    show "\<exists>a t e. i = feedback_id_for a \<and> pr_tenant_id x = Some t \<and> pr_payload x = model_dump c e \<and> feedback_good a e"
    proof (cases "i = feedback_id_for a")
      case True
      then show ?thesis using x rec e(1) good by (auto simp: get)
    next
      case False
      then show ?thesis using x fb by (simp add: get feedback_ok_def)
    qed
  qed
  moreover have "taught_by R c s' = (taught_by R c s)(a \<mapsto> (tenant, e))"
    using rec e(1) by (auto simp: taught_by_def get feedback_id_inj fun_eq_iff)
  ultimately show ?thesis by blast
qed

text \<open>Adding is inserting once.\<close>

lemma add_once:
  assumes fb: "feedback_ok R ok owner c s" and good: "feedback_good a e"
  shows "case taught_by R c s a of
      None \<Rightarrow> \<exists>s' r. feedback_add R c now e tenant s = (Inr e, s') \<and> feedback_ok R ok owner c s'
        \<and> taught_by R c s' = (taught_by R c s)(a \<mapsto> (tenant, e))
        \<and> written_to R ok owner s r s' \<and> pr_type r = feedback_kind \<and> pr_record_id r = rid ''feedback'' a 1 \<and> pr_version r = 1
    | Some old \<Rightarrow> if old = (tenant, e) then feedback_add R c now e tenant s = (Inr e, s)
        else \<exists>x. is_conflict x \<and> feedback_add R c now e tenant s = (Inl x, s)"
proof -
  have e: "fe_feedback_id e = feedback_id_for a" using good by (simp add: feedback_good_def)
  obtain r where r: "feedback_to_record c now e tenant = Inr r"
    by (simp add: feedback_to_record_def new_precord_def pr_valid_def Let_def e feedback_rid feedback_id_for_def)
  then have rec: "pr_type r = feedback_kind" "pr_id r = feedback_id_for a" "pr_record_id r = rid ''feedback'' a 1"
      "pr_version r = 1" "pr_payload r = model_dump c e"
    using e by (auto simp: feedback_to_record_def new_precord_def Let_def feedback_rid split: if_splits)
  let ?same = "\<lambda>x. pr_tenant_id x = Some tenant \<and> pr_payload x = pr_payload r"
  have run: "feedback_add R c now e tenant s = (case create_once R ?same r s of (Inl x, s') \<Rightarrow> (Inl x, s') | (Inr _, s') \<Rightarrow> (Inr e, s'))"
    by (simp add: feedback_add_def andthen_def of_result_def r ret_def split: prod.splits sum.splits)
  have own: "p = pr_identity r" if "owner s (pr_record_id r) = Some p" for p
    using feedback_owner [OF fb] that rec by simp
  have "ok s" using fb by (simp add: feedback_ok_def)
  note once = create_once_spec [OF this own, of ?same]
  show ?thesis
  proof (cases "taught_by R c s a")
    case None
    then have "repo_get R s (pr_type r) (pr_id r) = None" using taught_none [OF fb] rec by simp
    then obtain s' where "create_once R ?same r s = (Inr (), s')" "written_to R ok owner s r s'" using once by auto
    then show ?thesis using add_written [OF fb good r] run rec None by auto
  next
    case (Some old)
    then obtain t e' where old: "old = (t, e')" by force
    obtain x where x: "repo_get R s feedback_kind (feedback_id_for a) = Some x" "pr_tenant_id x = Some t"
        "pr_payload x = model_dump c e'" "feedback_good a e'"
      using taught_record [OF fb, of a t e'] Some old by auto
    have "model_dump c e' = model_dump c e \<longleftrightarrow> e' = e"
      using good_round [OF x(4)] good_round [OF good] by (metis option.inject)
    then have same: "?same x \<longleftrightarrow> old = (tenant, e)" using x rec old by simp
    have "if ?same x then create_once R ?same r s = (Inr (), s)
        else \<exists>e. is_conflict e \<and> create_once R ?same r s = (Inl e, s)"
      using once x(1) rec(1,2) by simp
    then have "if old = (tenant, e) then create_once R ?same r s = (Inr (), s)
        else \<exists>e. is_conflict e \<and> create_once R ?same r s = (Inl e, s)" unfolding same .
    then show ?thesis unfolding Some option.case run by (cases "old = (tenant, e)") (simp, force)
  qed
qed

end

lemma memory_feedback: "codec_ok (\<lambda>e. same_event e e) c \<Longrightarrow> feedback_store memory_ops mem_ok mem_owner c"
  by unfold_locales

interpretation mem_feedback: feedback_store memory_ops mem_ok mem_owner "plain_codec :: (feedback_event, feedback_event) codec"
  by (rule memory_feedback) simp

section \<open>Reading all pages\<close>

lemma collect_append:
  "collect f (xs @ ys) = Inr es \<longleftrightarrow> (\<exists>as bs. collect f xs = Inr as \<and> collect f ys = Inr bs \<and> es = as @ bs)"
  by (induction xs arbitrary: es) (auto simp: and_maybe_Inr)

text \<open>The loop returns once the pages end, with what they hold.\<close>

lemma list_from_pages:
  "read_pages fuel (repo_query R s tenant (Some feedback_kind) None 500) cur = Some (Inr rs) \<Longrightarrow>
    collect (\<lambda>r. restore c (pr_payload r)) rs = Inr es \<Longrightarrow>
    list_from R c tenant s events cur = Some (Inr (events @ es))"
proof (induction fuel arbitrary: cur rs es events)
  case 0
  then show ?case by simp
next
  case (Suc fuel)
  obtain pg where pg: "repo_query R s tenant (Some feedback_kind) None 500 cur = Inr pg"
    using Suc.prems(1) by (cases "repo_query R s tenant (Some feedback_kind) None 500 cur") auto
  show ?case
  proof (cases "page_next_cursor pg")
    case None
    then have "rs = page_records pg" using Suc.prems(1) pg by simp
    then show ?thesis using Suc.prems(2) pg None by (subst list_from.simps) simp
  next
    case (Some cur')
    then obtain rest where rest: "read_pages fuel (repo_query R s tenant (Some feedback_kind) None 500) (Some cur') = Some (Inr rest)"
        "rs = page_records pg @ rest"
      using Suc.prems(1) pg by (auto simp: and_maybe_Inr)
    then obtain as bs where c: "collect (\<lambda>r. restore c (pr_payload r)) (page_records pg) = Inr as"
        "collect (\<lambda>r. restore c (pr_payload r)) rest = Inr bs" "es = as @ bs"
      using Suc.prems(2) unfolding rest(2) collect_append by blast
    from Suc.IH [OF rest(1) c(2), of "events @ as"] show ?thesis
      using pg c Some by (subst list_from.simps) simp
  qed
qed

lemma memory_pages:
  assumes "mem_ok m" and "\<forall>r \<in> set (query_hits m tenant (Some ty) None). pr_id r \<noteq> []" and "py_strip tenant \<noteq> []"
  shows "read_pages (Suc (length (query_hits m tenant (Some ty) None))) (mem_query m tenant (Some ty) None 500) None
    = Some (Inr (query_hits m tenant (Some ty) None))"
proof -
  have "mem_query m tenant (Some ty) None 500 None = Inr (page_of (drop 0 (query_hits m tenant (Some ty) None)) 500)"
    using assms(3) by (simp add: mem_query_def)
  from read_pages_rest [OF query_hits_decreasing [OF query_hits_distinct_keys [OF assms(1)]] assms(2,3) _ _ this, of "Suc (length (query_hits m tenant (Some ty) None))"]
  show ?thesis by (simp del: read_pages.simps)
qed

lemma memory_record:
  assumes "mem_ok m"
  shows "r \<in> snd ` set (mem_records m) \<longleftrightarrow> mem_get m (pr_type r) (pr_id r) = Some r"
proof
  assume "r \<in> snd ` set (mem_records m)"
  then obtain k where k: "(k, r) \<in> set (mem_records m)" by auto
  then have "k = (pr_type r, pr_id r)" using assms by (auto simp: mem_ok_def)
  then show "mem_get m (pr_type r) (pr_id r) = Some r"
    using k assms by (simp add: mem_get_def mem_ok_def)
next
  assume "mem_get m (pr_type r) (pr_id r) = Some r"
  then show "r \<in> snd ` set (mem_records m)" by (auto simp: mem_get_def dest: map_of_SomeD intro!: image_eqI)
qed

definition event_of :: "(feedback_event, 'p) codec \<Rightarrow> 'p precord \<Rightarrow> feedback_event" where
  "event_of c r = the (model_validate c (pr_payload r))"

lemma listed:
  assumes fb: "feedback_ok memory_ops mem_ok mem_owner c s" and codec: "codec_ok (\<lambda>e. same_event e e) c"
    and tenant: "py_strip tenant \<noteq> []"
  shows "\<exists>es. list_for_tenant memory_ops c tenant s = Some (Inr es)
    \<and> set es = {e. \<exists>a. taught_by memory_ops c s a = Some (tenant, e)} \<and> distinct es"
proof -
  note store = memory_feedback [OF codec]
  note record_taught = feedback_store.record_taught [OF store fb] and taught_record = feedback_store.taught_record [OF store fb]
    and good_round = feedback_store.good_round [OF store]
  let ?hits = "query_hits s tenant (Some feedback_kind) None"
  have ok: "mem_ok s" using fb by (simp add: feedback_ok_def)
  have hit: "r \<in> set ?hits \<longleftrightarrow> (\<exists>i. mem_get s feedback_kind i = Some r) \<and> pr_tenant_id r = Some tenant" for r
    unfolding set_query_hits memory_record [OF ok]
  proof (intro iffI conjI; elim conjE exE)
    fix i assume "mem_get s feedback_kind i = Some r"
    then show "mem_get s (pr_type r) (pr_id r) = Some r" using mem_get_key [OF ok, of feedback_kind i r] by simp
  qed (auto dest: mem_get_key [OF ok])
  have of_hit: "\<exists>a e. pr_id r = feedback_id_for a \<and> taught_by memory_ops c s a = Some (tenant, e)
      \<and> model_validate c (pr_payload r) = Some e \<and> fe_feedback_id e = pr_id r" if r: "r \<in> set ?hits" for r
  proof -
    obtain i where i: "mem_get s feedback_kind i = Some r" "pr_tenant_id r = Some tenant" using r hit by blast
    then obtain a where a: "i = feedback_id_for a" using feedback_record [OF fb, of i r] by auto
    obtain t e where e: "taught_by memory_ops c s a = Some (t, e)" "pr_tenant_id r = Some t"
        "pr_payload r = model_dump c e" "feedback_good a e"
      using record_taught [of a r] i a by auto
    have "pr_id r = i" using mem_get_key [OF ok i(1)] by simp
    then show ?thesis using e i a good_round [OF e(4)] by (auto simp: feedback_good_def)
  qed
  have ids: "\<forall>r \<in> set ?hits. pr_id r \<noteq> []"
  proof
    fix r assume "r \<in> set ?hits"
    from of_hit [OF this] show "pr_id r \<noteq> []" by (auto simp: feedback_id_for_def)
  qed
  have "collect (\<lambda>r. restore c (pr_payload r)) ?hits = Inr (map (event_of c) ?hits)"
    by (rule collect_map) (use of_hit in \<open>fastforce simp: restore_def event_of_def\<close>)
  from list_from_pages [where s = s and R = memory_ops and events = "[]" and cur = None, OF _ this]
  have "list_for_tenant memory_ops c tenant s = Some (Inr (map (event_of c) ?hits))"
    using memory_pages [OF ok ids tenant] unfolding list_for_tenant_def memory_ops_sel append_Nil by blast
  moreover have "set (map (event_of c) ?hits) = {e. \<exists>a. taught_by memory_ops c s a = Some (tenant, e)}"
  proof (intro set_eqI iffI)
    fix e assume "e \<in> set (map (event_of c) ?hits)"
    then show "e \<in> {e. \<exists>a. taught_by memory_ops c s a = Some (tenant, e)}" using of_hit by (fastforce simp: event_of_def)
  next
    fix e assume "e \<in> {e. \<exists>a. taught_by memory_ops c s a = Some (tenant, e)}"
    then obtain a where "taught_by memory_ops c s a = Some (tenant, e)" by blast
    then obtain r where r: "mem_get s feedback_kind (feedback_id_for a) = Some r" "pr_tenant_id r = Some tenant"
        "pr_payload r = model_dump c e" "feedback_good a e"
      using taught_record [of a tenant e] by auto
    then have "r \<in> set ?hits" "event_of c r = e" using hit good_round [OF r(4)] by (auto simp: event_of_def)
    then show "e \<in> set (map (event_of c) ?hits)" by force
  qed
  moreover have "distinct (map (event_of c) ?hits)"
  proof -
    have keys: "distinct (map page_key ?hits)" by (rule query_hits_distinct_keys [OF ok])
    have "inj_on (event_of c) (set ?hits)"
    proof (rule inj_onI)
      fix x y assume xy: "x \<in> set ?hits" "y \<in> set ?hits" "event_of c x = event_of c y"
      have id: "fe_feedback_id (event_of c r) = pr_id r" if "r \<in> set ?hits" for r
        using of_hit [OF that] by (auto simp: event_of_def)
      obtain i j where ij: "mem_get s feedback_kind i = Some x" "mem_get s feedback_kind j = Some y"
        using xy(1,2) hit by blast
      have "i = j" using mem_get_key [OF ok ij(1)] mem_get_key [OF ok ij(2)] id [OF xy(1)] id [OF xy(2)] xy(3) by metis
      then show "x = y" using ij by simp
    qed
    moreover have "distinct ?hits" using keys by (simp add: distinct_map)
    ultimately show ?thesis by (simp add: distinct_map)
  qed
  ultimately show ?thesis by blast
qed

lemma singleton_list: "distinct xs \<Longrightarrow> set xs = {x} \<Longrightarrow> xs = [x]"
proof (cases xs)
  fix y ys assume h: "distinct xs" "set xs = {x}" "xs = y # ys"
  then have "y = x" "set ys \<subseteq> {x}" "x \<notin> set ys" by auto
  then have "set ys = {}" using subset_singletonD [of "set ys" x] by auto
  then show "xs = [x]" using h(3) \<open>y = x\<close> by simp
qed simp

text \<open>The context of a tenant depends on the set of its events.\<close>

lemma same_context:
  assumes "set es = set es'" and "distinct es" and "distinct es'" and "inj_on fe_feedback_id (set es)"
    and "\<forall>e \<in> set es. same_event e e"
  shows "build_learning_context (learning_context_id sha t es) es n = build_learning_context (learning_context_id sha t es') es' n"
proof -
  have "mset es = mset es'" using assms(1-3) set_eq_iff_mset_eq_distinct by blast
  then have "sort (map fe_feedback_id es) = sort (map fe_feedback_id es')"
    by (intro properties_for_sort) simp_all
  then have "learning_context_id sha t es = learning_context_id sha t es'" by (simp add: learning_context_id_def)
  then show ?thesis using learning_same [OF assms(1,4,5)] by simp
qed

lemma taught_good:
  assumes "feedback_ok memory_ops mem_ok mem_owner c s" and "codec_ok (\<lambda>e. same_event e e) c"
    and "taught_by memory_ops c s a = Some (t, e)"
  shows "feedback_good a e"
  using feedback_store.taught_record [OF memory_feedback [OF assms(2)] assms(1,3)] by blast

lemma events_keyed:
  assumes "feedback_ok memory_ops mem_ok mem_owner c s" and "codec_ok (\<lambda>e. same_event e e) c"
    and "set es = {e. \<exists>a. taught_by memory_ops c s a = Some (t, e)}"
  shows "inj_on fe_feedback_id (set es) \<and> (\<forall>e \<in> set es. same_event e e)"
proof -
  note good = taught_good [OF assms(1,2)]
  have "x = y" if xy: "x \<in> set es" "y \<in> set es" "fe_feedback_id x = fe_feedback_id y" for x y
  proof -
    obtain a b where ab: "taught_by memory_ops c s a = Some (t, x)" "taught_by memory_ops c s b = Some (t, y)"
      using xy(1,2) assms(3) by auto
    then have "feedback_id_for a = feedback_id_for b" using good xy(3) unfolding feedback_good_def by metis
    then show ?thesis using ab by (simp add: feedback_id_inj)
  qed
  moreover have "\<forall>e \<in> set es. same_event e e" using assms(3) good by (auto simp: feedback_good_def)
  ultimately show ?thesis unfolding inj_on_def by blast
qed

lemma tenant_learning_listed:
  assumes "list_for_tenant memory_ops c t s = Some (Inr es)"
  shows "tenant_learning memory_ops c sha t s = Some (if es = [] then Inr None
    else and_maybe (build_learning_context (learning_context_id sha t es) es 5) (\<lambda>ctx. Inr (Some ctx)))"
  using assms by (simp add: tenant_learning_def)

section \<open>A lesson\<close>

definition demo_lesson :: "string \<Rightarrow> feedback_event" where
  "demo_lesson a = (taught_event (feedback_id_for a) (1 / 2))\<lparr>fe_action_id := a\<rparr>"

definition one_lesson :: "feedback_event memory" where
  "one_lesson = snd (feedback_add memory_ops plain_codec 0 (demo_lesson ''x'') ''t'' empty_memory)"

lemma demo_lesson_good: "feedback_good a (demo_lesson a)"
  by (simp add: feedback_good_def demo_lesson_def taught_event_def same_event_def)

lemma no_lessons:
  "feedback_ok memory_ops mem_ok mem_owner c empty_memory" "taught_by memory_ops c empty_memory = (\<lambda>_. None)"
  by (simp_all add: feedback_ok_def taught_by_def fun_eq_iff)

lemma lesson_taught:
  "feedback_ok memory_ops mem_ok mem_owner plain_codec one_lesson
   \<and> taught_by memory_ops plain_codec one_lesson = [''x'' \<mapsto> (''t'', demo_lesson ''x'')]
   \<and> feedback_add memory_ops plain_codec 0 (demo_lesson ''x'') ''t'' empty_memory = (Inr (demo_lesson ''x''), one_lesson)"
  using mem_feedback.add_once [OF no_lessons(1) demo_lesson_good [of "''x''"], where now = 0 and tenant = "''t''"]
  by (auto simp: no_lessons(2) one_lesson_def)

section \<open>Properties\<close>

text \<open>
  C26. The feedback store is a map that is written once: seen as the map from actions to what they
  taught and whom, adding an event of a new action inserts it, adding the same event for the same
  tenant again changes nothing, and anything else under an action's id is refused with a conflict
  and changes nothing; what was added is what is read.
\<close>

theorem feedback_written_once:
  assumes "codec_ok (\<lambda>e. same_event e e) c" and "feedback_ok memory_ops mem_ok mem_owner c s" and "feedback_good a e"
  shows "case taught_by memory_ops c s a of
      None \<Rightarrow> \<exists>s'. feedback_add memory_ops c now e tenant s = (Inr e, s') \<and> feedback_ok memory_ops mem_ok mem_owner c s'
        \<and> taught_by memory_ops c s' = (taught_by memory_ops c s)(a \<mapsto> (tenant, e))
    | Some old \<Rightarrow> if old = (tenant, e) then feedback_add memory_ops c now e tenant s = (Inr e, s)
        else \<exists>x. is_conflict x \<and> feedback_add memory_ops c now e tenant s = (Inl x, s)"
  using feedback_store.add_once [OF memory_feedback [OF assms(1)] assms(2,3), of now tenant]
  by (cases "taught_by memory_ops c s a") auto

lemma feedback_written_once_witness:
  "feedback_add memory_ops plain_codec 1 (demo_lesson ''x'') ''t'' one_lesson = (Inr (demo_lesson ''x''), one_lesson)
   \<and> (\<exists>x. is_conflict x \<and> feedback_add memory_ops plain_codec 1 (demo_lesson ''x'') ''u'' one_lesson = (Inl x, one_lesson))"
  using feedback_written_once [OF plain_codec_ok conjunct1 [OF lesson_taught] demo_lesson_good [of "''x''"], where now = 1 and tenant = "''t''"]
    feedback_written_once [OF plain_codec_ok conjunct1 [OF lesson_taught] demo_lesson_good [of "''x''"], where now = 1 and tenant = "''u''"]
  by (simp add: lesson_taught)

text \<open>
  C27. Reading the feedback of a tenant always returns: the loop over the pages ends and gives every
  event of the tenant, each once, and no event of another.
\<close>

theorem feedback_listing_ends:
  assumes "codec_ok (\<lambda>e. same_event e e) c" and "feedback_ok memory_ops mem_ok mem_owner c s" and "py_strip tenant \<noteq> []"
  shows "\<exists>es. list_for_tenant memory_ops c tenant s = Some (Inr es) \<and> distinct es
    \<and> set es = {e. \<exists>a. taught_by memory_ops c s a = Some (tenant, e)}"
  using listed [OF assms(2,1,3)] by blast

lemma feedback_listing_ends_witness:
  "list_for_tenant memory_ops plain_codec ''t'' one_lesson = Some (Inr [demo_lesson ''x''])"
proof -
  obtain es where es: "list_for_tenant memory_ops plain_codec ''t'' one_lesson = Some (Inr es)" "distinct es"
      "set es = {e. \<exists>a. taught_by memory_ops plain_codec one_lesson a = Some (''t'', e)}"
    using feedback_listing_ends [OF plain_codec_ok conjunct1 [OF lesson_taught], of "''t''"]
    by (auto simp: py_strip_def is_space_def)
  have "taught_by memory_ops plain_codec one_lesson a = Some (''t'', e) \<longleftrightarrow> a = ''x'' \<and> e = demo_lesson ''x''" for a e
    unfolding conjunct1 [OF conjunct2 [OF lesson_taught]] by (metis fun_upd_apply option.distinct(1) option.inject prod.inject)
  then have "set es = {demo_lesson ''x''}" using es(3) by simp
  then have "es = [demo_lesson ''x'']" by (rule singleton_list [OF es(2)])
  then show ?thesis using es(1) by simp
qed

text \<open>
  C25. One customer's results never steer another's site: the learning context of a tenant is the
  same in two states of the store in which this tenant's events are the same, whatever was stored
  for others, and in whatever order.
\<close>

theorem learning_isolated:
  assumes "codec_ok (\<lambda>e. same_event e e) c" and "feedback_ok memory_ops mem_ok mem_owner c s"
    and "feedback_ok memory_ops mem_ok mem_owner c s'" and "py_strip tenant \<noteq> []"
    and "\<forall>a e. taught_by memory_ops c s a = Some (tenant, e) \<longleftrightarrow> taught_by memory_ops c s' a = Some (tenant, e)"
  shows "tenant_learning memory_ops c sha tenant s = tenant_learning memory_ops c sha tenant s'
    \<and> tenant_learning memory_ops c sha tenant s \<noteq> None"
proof -
  obtain es where es: "list_for_tenant memory_ops c tenant s = Some (Inr es)"
      "set es = {e. \<exists>a. taught_by memory_ops c s a = Some (tenant, e)}" "distinct es"
    using listed [OF assms(2,1,4)] by blast
  obtain es' where es': "list_for_tenant memory_ops c tenant s' = Some (Inr es')"
      "set es' = {e. \<exists>a. taught_by memory_ops c s' a = Some (tenant, e)}" "distinct es'"
    using listed [OF assms(3,1,4)] by blast
  have same: "set es = set es'" unfolding es(2) es'(2) using assms(5) by simp
  then have "es = [] \<longleftrightarrow> es' = []" by auto
  moreover note same_context [OF same es(3) es'(3)] events_keyed [OF assms(2,1) es(2)]
  ultimately show ?thesis
    unfolding tenant_learning_listed [OF es(1)] tenant_learning_listed [OF es'(1)] by simp
qed

lemma learning_isolated_witness:
  "tenant_learning memory_ops plain_codec (\<lambda>x. x) ''u'' one_lesson = tenant_learning memory_ops plain_codec (\<lambda>x. x) ''u'' empty_memory"
  using learning_isolated [OF plain_codec_ok conjunct1 [OF lesson_taught] no_lessons(1), of "''u''" "\<lambda>x. x"]
  by (simp add: lesson_taught no_lessons(2) py_strip_def is_space_def)

end
