(* ===== verification/Measuring.thy ===== *)
theory Measuring
  imports Executor_Store Outcomes Feedback Warehouse
begin

text \<open>
  \<open>app/measurement/runner.py\<close>: measuring what a change did, settling its action and keeping what
  it taught. The repository, the warehouse, the site store (\<open>mr_property\<close>: the property of a site,
  or what looking the site up raises) and the transaction are arguments, gathered in a record;
  \<open>now\<close> is the clock of the round. Log lines are left out.
\<close>

section \<open>Policies and windows\<close>

definition ctr_policy :: outcome_policy where
  "ctr_policy = \<lparr>pol_primary_metric = CTR, pol_min_relative_improvement = decimal 10 2,
     pol_max_relative_regression = decimal 10 2, pol_require_primary_metric = True,
     pol_inconclusive_within_band = True\<rparr>"

fun policy_of :: "action_type \<Rightarrow> outcome_policy option" where
  "policy_of OPTIMIZE_TITLE = Some ctr_policy"
| "policy_of OPTIMIZE_META_DESCRIPTION = Some ctr_policy"
| "policy_of _ = None"

definition page_level :: "action_type set" where "page_level = {OPTIMIZE_META_DESCRIPTION}"
definition all_queries :: string where "all_queries = ''(all queries)''"
definition watched :: "action_status set" where "watched = {MEASUREMENT_WINDOW_ACTIVE, EVALUATING}"

definition rollback_gave_up :: "string set" where
  "rollback_gave_up = {''rollback_refused'', ''rollback_refused_page_changed'', ''rollback_failed'', ''rollback_not_verified''}"

text \<open>The loop over the history, newest event first.\<close>

fun pending_in :: "action_event list \<Rightarrow> bool" where
  "pending_in [] = False"
| "pending_in (e # es) =
     (if ev_reason e = ''rollback_requested'' then True
      else if ev_reason e \<in> rollback_gave_up then False else pending_in es)"

definition rollback_pending :: "managed \<Rightarrow> bool" where
  "rollback_pending m = pending_in (rev (mg_history m))"

record comparison_windows =
  mw_change_day :: day
  mw_baseline_start :: day
  mw_baseline_end :: day
  mw_current_start :: day
  mw_current_end :: day

definition compared_days :: "comparison_windows \<Rightarrow> day list" where
  "compared_days w = window_days (mw_baseline_start w) (mw_baseline_end w)
     @ window_days (mw_current_start w) (mw_current_end w)"

definition measurement_windows :: "instant \<Rightarrow> int \<Rightarrow> int \<Rightarrow> comparison_windows" where
  "measurement_windows applied_at window_length settle_days =
     (let change_day = search_console_today applied_at;
          baseline_end = change_day - 1;
          current_start = change_day + (1 + settle_days)
      in \<lparr>mw_change_day = change_day, mw_baseline_start = baseline_end - (window_length - 1),
          mw_baseline_end = baseline_end, mw_current_start = current_start,
          mw_current_end = current_start + (window_length - 1)\<rparr>)"

section \<open>The runner\<close>

record ('s, 'p) measurer =
  mr_repo :: "('s, 'p) repository_ops"
  mr_action_codec :: "(managed, 'p) codec"
  mr_feedback_codec :: "(feedback_event, 'p) codec"
  mr_outcome_codec :: "(outcome, 'p) codec"
  mr_property :: "'s \<Rightarrow> string \<Rightarrow> exn + string option"
  mr_warehouse :: "'s \<Rightarrow> warehouse"
  mr_db_sum :: "rat list \<Rightarrow> rat"
  mr_isoformat :: "day \<Rightarrow> string"
  mr_transaction :: "('s, unit) prog \<Rightarrow> ('s, unit) prog"
  mr_lag_days :: int
  mr_window_days :: int
  mr_settle_days :: int
  mr_deadline_days :: int

definition new_measurer :: "('s, 'p) measurer \<Rightarrow> exn + ('s, 'p) measurer" where
  "new_measurer M =
     (if mr_window_days M < 1 \<or> mr_settle_days M < 0 \<or> mr_deadline_days M < 0
      then Inl (Exn ValueError ''window_days must be >= 1; settle_days and deadline_days >= 0.'')
      else Inr M)"

text \<open>
  The site's property; once disconnected, the one its newest stored day came from: \<open>max\<close> keeps the
  first of the entries fetched last.
\<close>

fun newest_fetched :: "sync_day_status \<Rightarrow> sync_day_status list \<Rightarrow> sync_day_status" where
  "newest_fetched best [] = best"
| "newest_fetched best (e # es) = newest_fetched (if sd_fetched_at best < sd_fetched_at e then e else best) es"

definition property_of :: "exn + string option \<Rightarrow> (day \<times> sync_day_status) list \<Rightarrow> exn + string option" where
  "property_of site entries =
     (let synced = filter (\<lambda>e. sd_status e = SYNCED) (map snd entries);
          from_ledger = (case synced of [] \<Rightarrow> None | e # es \<Rightarrow> Some (sd_property_url (newest_fetched e es)))
      in case site of
           Inr (Some url) \<Rightarrow> Inr (Some url)
         | Inr None \<Rightarrow> Inr from_ledger
         | Inl e \<Rightarrow> if exn_class e = PersistenceNotFoundError then Inr from_ledger else Inl e)"

text \<open>The outcome of an action over its windows.\<close>

definition evaluate_windows ::
  "('s, 'p) measurer \<Rightarrow> instant \<Rightarrow> managed \<Rightarrow> comparison_windows \<Rightarrow> outcome_policy \<Rightarrow> day list \<Rightarrow> day list \<Rightarrow> bool
   \<Rightarrow> warehouse \<Rightarrow> exn + outcome" where
  "evaluate_windows M now m windows policy stored capped whole w =
     (let a = mg_action m; site = ac_site_id a; url = ac_normalized_url a;
          start_day = mw_baseline_start windows; end_day = mw_current_end windows;
          by_page = ac_action_type a \<in> page_level;
          query = (if by_page then all_queries else ac_normalized_query a);
          snap = \<lparr>sn_snapshot_id = ''measurement:'' @ mg_action_id m,
                  sn_data_snapshot_id = ''warehouse:'' @ site @ '':'' @ mr_isoformat M start_day @ '':'' @ mr_isoformat M end_day,
                  sn_rule_version = sn_rule_version (ac_snapshot a),
                  sn_config_version = ''measurement-stage39-v2'', sn_generated_at = now\<rparr>;
          t = \<lparr>mt_measurement_id = ''measurement:'' @ mg_action_id m, mt_action_id = mg_action_id m, mt_site_id = site,
               mt_normalized_url = url, mt_normalized_query = query,
               mt_baseline_start = mw_baseline_start windows, mt_baseline_end = mw_baseline_end windows,
               mt_current_start = mw_current_start windows, mt_current_end = mw_current_end windows, mt_snapshot = snap\<rparr>
      in and_maybe (build_observations site url query start_day end_day stored capped
             (if by_page then page_totals (mr_db_sum M) w site url start_day end_day
              else query_days (mr_db_sum M) w site url query start_day end_day)
             (page_days w site url start_day end_day)) (\<lambda>obs.
         and_maybe (measure_action t (filter (\<lambda>x. ob_date x \<le> mw_baseline_end windows) obs)
             (filter (\<lambda>x. mw_current_start windows \<le> ob_date x) obs) (decimal 8 1) now) (\<lambda>me.
           let out = evaluate_outcome (''outcome:'' @ mg_action_id m) me policy
           in Inr (out\<lparr>oc_evidence := dict_merge (oc_evidence out)
                [(''change_day'', PStr (mr_isoformat M (mw_change_day windows))),
                 (''settle_days'', PInt (mr_settle_days M)), (''data_complete'', PBool whole)]\<rparr>))))"

section \<open>Recording\<close>

abbreviation outcome_kind :: string where "outcome_kind \<equiv> ''action_outcome''"

definition stored_outcome :: "('s, 'p) measurer \<Rightarrow> string \<Rightarrow> ('s, outcome option) prog" where
  "stored_outcome M action_id =
     andthen (reads (\<lambda>s. repo_get (mr_repo M) s outcome_kind action_id)) (\<lambda>found.
     case found of
       None \<Rightarrow> ret None
     | Some r \<Rightarrow> andthen (of_result (restore (mr_outcome_codec M) (pr_payload r))) (\<lambda>oc. ret (Some oc)))"

definition outcome_to_record :: "('s, 'p) measurer \<Rightarrow> instant \<Rightarrow> managed \<Rightarrow> outcome \<Rightarrow> exn + 'p precord" where
  "outcome_to_record M now m oc =
     and_maybe (new_precord (''outcome:'' @ mg_action_id m @ '':v1'') outcome_kind (mg_action_id m) 1 1
         (model_dump (mr_outcome_codec M) oc) now (Some (mg_tenant_id m)) (Some (mg_site_id m))) (\<lambda>r.
       Inr (r\<lparr>pr_snapshot_id := Some (sn_snapshot_id (oc_snapshot oc)),
              pr_data_snapshot_id := Some (sn_data_snapshot_id (oc_snapshot oc)),
              pr_rule_version := Some (sn_rule_version (oc_snapshot oc)),
              pr_config_version := Some (sn_config_version (oc_snapshot oc))\<rparr>))"

definition save_outcome :: "('s, 'p) measurer \<Rightarrow> instant \<Rightarrow> managed \<Rightarrow> outcome \<Rightarrow> ('s, unit) prog" where
  "save_outcome M now m oc =
     andthen (of_result (outcome_to_record M now m oc)) (\<lambda>r.
       create_once (mr_repo M) (\<lambda>x. pr_payload x = pr_payload r) r)"

fun opt_float :: "rat option \<Rightarrow> pyval" where
  "opt_float None = PNone"
| "opt_float (Some x) = PFloat x"

definition window_detail :: "(day \<Rightarrow> string) \<Rightarrow> window_summary \<Rightarrow> pyval" where
  "window_detail isof w = PDict
     [(''start'', PStr (isof (ws_start_date w))), (''end'', PStr (isof (ws_end_date w))),
      (''impressions'', PInt (ws_impressions w)), (''clicks'', PInt (ws_clicks w)), (''ctr'', PFloat (ws_ctr w)),
      (''median_position'', opt_float (ws_median_position w)), (''completeness'', PFloat (ws_completeness w))]"

definition measurement_detail :: "(day \<Rightarrow> string) \<Rightarrow> measurement \<Rightarrow> outcome \<Rightarrow> dict" where
  "measurement_detail isof me oc =
     [(''measurement_id'', PStr (me_measurement_id me)),
      (''measurement_status'', PStr (measurement_status_value (me_status me))),
      (''baseline'', window_detail isof (me_baseline me)), (''current'', window_detail isof (me_current me)),
      (''data_complete'', (case map_of (oc_evidence oc) ''data_complete'' of None \<Rightarrow> PNone | Some v \<Rightarrow> v))]"

definition record_move :: "instant \<Rightarrow> managed \<Rightarrow> lifecycle_result \<Rightarrow> dict \<Rightarrow> exn + managed" where
  "record_move now m r detail = record_event now m (lr_action r) system_actor (hd (lr_reasons r)) detail"

definition apply_settled :: "(day \<Rightarrow> string) \<Rightarrow> instant \<Rightarrow> managed \<Rightarrow> outcome \<Rightarrow> exn + managed" where
  "apply_settled isof now m oc =
     and_maybe (if mg_status m = MEASUREMENT_WINDOW_ACTIVE
                then and_maybe (mark_evaluating (mg_action m) (oc_measurement oc)) (\<lambda>r.
                  record_move now m r (measurement_detail isof (oc_measurement oc) oc))
                else Inr m) (\<lambda>m1.
     and_maybe (mark_outcome (mg_action m1) oc) (\<lambda>r.
       record_move now m1 r
         [(''outcome_id'', PStr (oc_outcome_id oc)), (''outcome_status'', PStr (outcome_status_value (oc_status oc))),
          (''primary_metric'', PStr (metric_value (oc_primary_metric oc))),
          (''relative_change'', (case oc_primary_metric_outcome oc of None \<Rightarrow> PNone | Some p \<Rightarrow> opt_float (mo_relative_change p))),
          (''reasons'', PList (map PStr (oc_reasons oc)))]))"

section \<open>Settling\<close>

text \<open>Measuring, when the data is there: \<open>None\<close> is waiting.\<close>

definition measured_outcome ::
  "('s, 'p) measurer \<Rightarrow> day \<Rightarrow> instant \<Rightarrow> managed \<Rightarrow> outcome_policy \<Rightarrow> applied_change \<Rightarrow> 's \<Rightarrow> exn + outcome option" where
  "measured_outcome M newest_final now m policy applied s =
     (let windows = measurement_windows (ap_applied_at applied) (mr_window_days M) (mr_settle_days M) in
      if newest_final < mw_current_end windows then Inr None
      else
        let w = mr_warehouse M s;
            entries = ledger w (mg_site_id m) (mw_baseline_start windows) (mw_current_end windows)
        in and_maybe (property_of (mr_property M s (mg_site_id m)) entries) (\<lambda>property.
             let own = filter (\<lambda>(d, e). Some (sd_property_url e) = property) entries;
                 stored = map fst (filter (\<lambda>(d, e). sd_status e = SYNCED) own);
                 whole = list_all (\<lambda>d. d \<in> set stored) (compared_days windows)
             in if \<not> whole \<and> newest_final < mw_current_end windows + mr_deadline_days M then Inr None
                else
                  let capped = map fst (filter (\<lambda>(d, e). sd_page_rows_capped e) own)
                  in and_maybe (evaluate_windows M now m windows policy stored capped whole w) (\<lambda>oc. Inr (Some oc))))"

text \<open>The three writes of a settlement.\<close>

definition settle_writes :: "('s, 'p) measurer \<Rightarrow> instant \<Rightarrow> managed \<Rightarrow> outcome \<Rightarrow> ('s, unit) prog" where
  "settle_writes M now m oc =
     andthen (save_outcome M now m oc) (\<lambda>_.
     andthen (of_result (apply_settled (mr_isoformat M) now m oc)) (\<lambda>m'.
     andthen (action_update (mr_repo M) (mr_action_codec M) now m') (\<lambda>settled.
     if ac_action_type (mg_action m) \<in> page_level then ret ()
     else andthen (of_result (build_feedback_event (feedback_id_for (mg_action_id m)) (mg_action settled) oc)) (\<lambda>e.
          andthen (feedback_add (mr_repo M) (mr_feedback_codec M) now e (mg_tenant_id m)) (\<lambda>_. ret ())))))"

definition settle_action :: "('s, 'p) measurer \<Rightarrow> day \<Rightarrow> instant \<Rightarrow> managed \<Rightarrow> ('s, bool) prog" where
  "settle_action M newest_final now m =
     (case (policy_of (ac_action_type (mg_action m)), mg_applied m) of
        (Some policy, Some applied) \<Rightarrow>
          if rollback_pending m then ret False
          else
            andthen (stored_outcome M (mg_action_id m)) (\<lambda>found.
            andthen (case found of
                       Some oc \<Rightarrow> ret (Some oc)
                     | None \<Rightarrow> (\<lambda>s. (measured_outcome M newest_final now m policy applied s, s))) (\<lambda>ready.
            case ready of
              None \<Rightarrow> ret False
            | Some oc \<Rightarrow> andthen (mr_transaction M (settle_writes M now m oc)) (\<lambda>_. ret True)))
      | _ \<Rightarrow> ret False)"

record measurement_report =
  mp_settled :: int
  mp_waiting :: int
  mp_skipped :: int
  mp_failed :: int

text \<open>One record of the round: a record that is no action raises out of the round.\<close>

definition settle_record ::
  "('s, 'p) measurer \<Rightarrow> day \<Rightarrow> instant \<Rightarrow> measurement_report \<Rightarrow> 'p precord \<Rightarrow> ('s, measurement_report) prog" where
  "settle_record M newest_final now rep r =
     andthen (of_result (restore (mr_action_codec M) (pr_payload r))) (\<lambda>m.
     if mg_status m \<notin> watched then ret rep
     else attempt
       (andthen (settle_action M newest_final now m) (\<lambda>settled.
          ret (if settled then rep\<lparr>mp_settled := mp_settled rep + 1\<rparr> else rep\<lparr>mp_waiting := mp_waiting rep + 1\<rparr>)))
       (\<lambda>e. ret (if is_conflict e then rep\<lparr>mp_skipped := mp_skipped rep + 1\<rparr>
                 else rep\<lparr>mp_failed := mp_failed rep + 1\<rparr>)))"

fun settle_records ::
  "('s, 'p) measurer \<Rightarrow> day \<Rightarrow> instant \<Rightarrow> measurement_report \<Rightarrow> 'p precord list \<Rightarrow> ('s, measurement_report) prog" where
  "settle_records M newest_final now rep [] = ret rep"
| "settle_records M newest_final now rep (r # rs) =
     andthen (settle_record M newest_final now rep r) (\<lambda>rep'. settle_records M newest_final now rep' rs)"

definition run_measurement_round :: "('s, 'p) measurer \<Rightarrow> instant \<Rightarrow> ('s, measurement_report) prog" where
  "run_measurement_round M now =
     andthen (of_result (sync_window now (mr_lag_days M) window_size)) (\<lambda>window.
     andthen (\<lambda>s. (repo_list (mr_repo M) s (Some action_kind) None, s)) (\<lambda>rs.
       settle_records M (snd window) now \<lparr>mp_settled = 0, mp_waiting = 0, mp_skipped = 0, mp_failed = 0\<rparr> rs))"

end
