(* ===== verification/Measuring_Claims.thy ===== *)
theory Measuring_Claims
  imports Measuring Action_Life
begin

text \<open>
  Settling what a change did. A settlement is three writes in one transaction: the outcome, the
  action's next status and, for a change to one query's result, the event learning reads. The
  lemmas say what each write leaves alone, the locale \<open>measuring\<close> states what the runner relies on
  (a repository of actions, a transaction that is all or nothing, a warehouse the repository's
  writes do not touch), and the round is an induction over the actions it lists.
\<close>

section \<open>What is claimed\<close>

text \<open>The data of an action is there: the days to compare are stored from one property, or the deadline is over.\<close>

definition data_ready :: "('s, 'p) measurer \<Rightarrow> day \<Rightarrow> warehouse \<Rightarrow> managed \<Rightarrow> bool" where
  "data_ready M newest_final w m = (case mg_applied m of
     None \<Rightarrow> False
   | Some applied \<Rightarrow>
       let windows = measurement_windows (ap_applied_at applied) (mr_window_days M) (mr_settle_days M)
       in mw_current_end windows \<le> newest_final
          \<and> (mw_current_end windows + mr_deadline_days M \<le> newest_final
             \<or> (\<exists>url. \<forall>d \<in> set (compared_days windows). \<exists>e. wh_ledger w (mg_site_id m, d) = Some e
                  \<and> sd_status e = SYNCED \<and> sd_property_url e = url)))"

text \<open>From \<open>s\<close> to \<open>s'\<close> the action \<open>m\<close> was settled and is \<open>m'\<close> now.\<close>

definition settlement :: "('s, 'p) measurer \<Rightarrow> day \<Rightarrow> 's \<Rightarrow> 's \<Rightarrow> managed \<Rightarrow> managed \<Rightarrow> bool" where
  "settlement M newest_final s s' m m' \<longleftrightarrow>
     mg_status m \<in> watched \<and> \<not> rollback_pending m \<and> mg_applied m \<noteq> None \<and> mg_applied m' = mg_applied m
     \<and> (\<exists>oc r. repo_get (mr_repo M) s' outcome_kind (mg_action_id m) = Some r
          \<and> pr_payload r = model_dump (mr_outcome_codec M) oc
          \<and> (repo_get (mr_repo M) s outcome_kind (mg_action_id m) = None \<longrightarrow> data_ready M newest_final (mr_warehouse M s) m)
          \<and> mg_status m' = outcome_to_status (oc_status oc)
          \<and> statuses m' = statuses m @ (if mg_status m = EVALUATING then [] else [EVALUATING]) @ [mg_status m']
          \<and> (ac_action_type (mg_action m) \<notin> page_level \<longrightarrow>
               (\<exists>e x. build_feedback_event (feedback_id_for (mg_action_id m)) (mg_action m') oc = Inr e
                  \<and> repo_get (mr_repo M) s' feedback_kind (feedback_id_for (mg_action_id m)) = Some x
                  \<and> pr_payload x = model_dump (mr_feedback_codec M) e \<and> pr_tenant_id x = Some (mg_tenant_id m))))"

section \<open>What a write leaves alone\<close>

text \<open>Besides the actions, the repository only grows.\<close>

definition keeps_others :: "('s, 'p) repository_ops \<Rightarrow> 's \<Rightarrow> 's \<Rightarrow> bool" where
  "keeps_others R s s' \<longleftrightarrow> (\<forall>t i x. t \<noteq> action_kind \<longrightarrow> repo_get R s t i = Some x \<longrightarrow> repo_get R s' t i = Some x)"

lemma keeps_others_refl: "keeps_others R s s"
  by (simp add: keeps_others_def)

lemma keeps_others_trans: "keeps_others R s s' \<Longrightarrow> keeps_others R s' s'' \<Longrightarrow> keeps_others R s s''"
  by (simp add: keeps_others_def)

lemma keeps_others_get:
  "keeps_others R s s' \<Longrightarrow> t \<noteq> action_kind \<Longrightarrow> repo_get R s t i = Some x \<Longrightarrow> repo_get R s' t i = Some x"
  by (simp add: keeps_others_def)

lemma keeps_kind_other:
  "keeps_kind pre t own \<Longrightarrow> \<not> prefix (pre @ '':'') x \<Longrightarrow> ty \<noteq> t \<Longrightarrow> 0 \<le> v \<Longrightarrow> keeps_kind pre t (own(x \<mapsto> (ty, i, v)))"
  by (auto simp: keeps_kind_def)

context repository
begin

lemma create_once_Inr:
  assumes "ok s" and "create_once R same r s = (Inr (), s')"
  shows "(s' = s \<and> (\<exists>x. repo_get R s (pr_type r) (pr_id r) = Some x \<and> same x))
    \<or> (repo_get R s (pr_type r) (pr_id r) = None \<and> written_to R ok owner s r s' \<and> repo_create R s r = Inr s')"
proof (cases "repo_create R s r")
  case (Inl e)
  then show ?thesis using assms(2)
    by (auto simp: create_once_def attempt_def updates_def andthen_def reads_def ret_def raise_exn_def
        split: if_splits option.splits)
next
  case (Inr s1)
  then have "s' = s1" using assms(2) by (simp add: create_once_def attempt_def updates_def)
  then show ?thesis using create_written [OF assms(1) Inr] create_owner_none [OF assms(1) Inr] Inr by simp
qed

lemma create_once_stored:
  assumes "ok s" and "create_once R same r s = (Inr (), s')" and "same r"
  shows "\<exists>x. repo_get R s' (pr_type r) (pr_id r) = Some x \<and> same x"
  using create_once_Inr [OF assms(1,2)] assms(3) by (auto simp: written_to_def)

end

text \<open>A record written once beside the actions leaves them alone.\<close>

context action_store
begin

lemma write_beside:
  assumes ok: "actions_ok R ok owner c s" and once: "create_once R same r s = (Inr (), s')"
    and "pr_type r \<noteq> action_kind" and "\<not> prefix ''action:'' (pr_record_id r)" and "0 \<le> pr_version r"
  shows "actions_ok R ok owner c s' \<and> actions_of R c s' = actions_of R c s \<and> keeps_others R s s'
    \<and> (\<forall>t i. (t, i) \<noteq> pr_key r \<longrightarrow> repo_get R s' t i = repo_get R s t i)
    \<and> (s' = s \<or> repo_create R s r = Inr s')"
proof -
  have "ok s" using ok by (simp add: actions_ok_def store_ok_def)
  from create_once_Inr [OF this once]
  consider "s' = s" | "repo_get R s (pr_type r) (pr_id r) = None" "written_to R ok owner s r s'" "repo_create R s r = Inr s'" by auto
  then show ?thesis
  proof cases
    case 1
    then show ?thesis using ok by (simp add: keeps_others_refl)
  next
    case 2
    note get = written_get [OF 2(2)]
    have acts: "repo_get R s' action_kind i = repo_get R s action_kind i" for i using assms(3) by (simp add: get)
    have "keeps_kind ''action'' action_kind (owner s')"
      using keeps_kind_other [of "''action''" action_kind "owner s"] ok assms(3-5) written_owner [OF 2(2)]
      by (simp add: actions_ok_def store_ok_def)
    then have "actions_ok R ok owner c s'"
      using ok written_inv [OF 2(2)] by (simp add: actions_ok_def store_ok_def acts)
    moreover have "actions_of R c s' = actions_of R c s" by (simp add: actions_of_def model_of_def acts fun_eq_iff)
    moreover have "keeps_others R s s'" using 2(1) by (auto simp: keeps_others_def get)
    ultimately show ?thesis using 2 get by simp
  qed
qed

lemma update_writes:
  assumes ok: "actions_ok R ok owner c s" and up: "action_update R c now m s = (Inr x, s')"
  shows "x = m \<and> (\<exists>r v. pr_type r = action_kind \<and> pr_id r = mg_action_id m \<and> written_to R ok owner s r s' \<and> repo_replace R s r v = Inr s')"
proof -
  obtain cur where cur: "repo_get R s action_kind (mg_action_id m) = Some cur"
    using up by (cases "repo_get R s action_kind (mg_action_id m)") (simp_all add: action_update_def prog_simps andthen_def)
  obtain stored where stored: "restore c (pr_payload cur) = Inr stored"
    using up cur by (cases "restore c (pr_payload cur)") (simp_all add: action_update_def prog_simps andthen_def)
  have ext: "take (length (mg_history stored)) (mg_history m) = mg_history stored"
    using up cur stored
    by (cases "take (length (mg_history stored)) (mg_history m) = mg_history stored")
      (simp_all add: action_update_def prog_simps andthen_def)
  obtain r where rec: "action_to_record c now m (pr_version cur + 1) = Inr r"
    using up cur stored ext by (cases "action_to_record c now m (pr_version cur + 1)")
      (simp_all add: action_update_def prog_simps andthen_def)
  have r: "action_to_record c now m (pr_version cur + 1) = Inr r" "x = m" "repo_replace R s r (pr_version cur) = Inr s'"
    using up cur stored ext rec by (cases "repo_replace R s r (pr_version cur)",
      simp_all add: action_update_def prog_simps andthen_def updates_def)+
  moreover have "pr_type r = action_kind \<and> pr_id r = mg_action_id m"
    using r(1) by (auto simp: action_to_record_def new_precord_def Let_def split: if_splits)
  ultimately show ?thesis using replace_written [OF _ r(3)] ok by (auto simp: actions_ok_def store_ok_def)
qed

end

section \<open>The three writes\<close>

lemma save_outcome_record:
  assumes "save_outcome M now m oc s = (Inr (), s')"
  shows "\<exists>r. pr_type r = outcome_kind \<and> pr_id r = mg_action_id m \<and> pr_record_id r = ''outcome:'' @ mg_action_id m @ '':v1''
    \<and> pr_version r = 1 \<and> pr_payload r = model_dump (mr_outcome_codec M) oc
    \<and> create_once (mr_repo M) (\<lambda>x. pr_payload x = model_dump (mr_outcome_codec M) oc) r s = (Inr (), s')"
proof -
  obtain r where r: "outcome_to_record M now m oc = Inr r"
      "create_once (mr_repo M) (\<lambda>x. pr_payload x = pr_payload r) r s = (Inr (), s')"
    using assms by (auto simp: save_outcome_def andthen_def of_result_def split: sum.splits)
  then have "pr_type r = outcome_kind \<and> pr_id r = mg_action_id m \<and> pr_record_id r = ''outcome:'' @ mg_action_id m @ '':v1''
    \<and> pr_version r = 1 \<and> pr_payload r = model_dump (mr_outcome_codec M) oc"
    by (auto simp: outcome_to_record_def new_precord_def Let_def and_maybe_Inr split: if_splits)
  then show ?thesis using r(2) by auto
qed

lemma feedback_add_record:
  assumes "feedback_add R c now e tenant s = (Inr x, s')"
  shows "\<exists>r. pr_type r = feedback_kind \<and> pr_id r = fe_feedback_id e \<and> pr_record_id r = fe_feedback_id e @ '':v1''
    \<and> pr_version r = 1 \<and> pr_payload r = model_dump c e \<and> pr_tenant_id r = Some tenant
    \<and> create_once R (\<lambda>x. pr_tenant_id x = Some tenant \<and> pr_payload x = model_dump c e) r s = (Inr (), s')"
proof -
  obtain r where r: "feedback_to_record c now e tenant = Inr r"
      "create_once R (\<lambda>x. pr_tenant_id x = Some tenant \<and> pr_payload x = pr_payload r) r s = (Inr (), s')"
    using assms by (auto simp: feedback_add_def andthen_def of_result_def ret_def split: sum.splits prod.splits)
  then have "pr_type r = feedback_kind \<and> pr_id r = fe_feedback_id e \<and> pr_record_id r = fe_feedback_id e @ '':v1''
    \<and> pr_version r = 1 \<and> pr_payload r = model_dump c e \<and> pr_tenant_id r = Some tenant"
    by (auto simp: feedback_to_record_def new_precord_def Let_def split: if_splits)
  then show ?thesis using r(2) by auto
qed

text \<open>The next version of the action: one event, two when it was not being evaluated yet.\<close>

definition moved :: "managed \<Rightarrow> managed \<Rightarrow> bool" where
  "moved m m' \<longleftrightarrow> managed_ok m' \<and> mg_action_id m' = mg_action_id m \<and> mg_tenant_id m' = mg_tenant_id m
     \<and> mg_applied m' = mg_applied m \<and> ac_action_type (mg_action m') = ac_action_type (mg_action m)"

lemma record_move_ok:
  assumes "managed_ok m" and "mg_rolled_back m = None" and "transition_action (mg_action m) target reason ev = Inr r"
    and "record_move now m r detail = Inr m'"
  shows "moved m m' \<and> mg_rolled_back m' = None \<and> mg_status m' = target
    \<and> (\<exists>e. mg_history m' = mg_history m @ [e] \<and> ev_reason e = reason \<and> ev_status e = target)"
proof -
  note t = transition_action_Inr [OF assms(3)]
  have reasons: "lr_reasons r = [reason]" using assms(3) by (auto simp: transition_action_def and_maybe_Inr)
  have rec: "record_event now m (lr_action r) system_actor reason detail = Inr m'"
    using assms(4) reasons by (simp add: record_move_def)
  have "action_valid (mg_action m)" using assms(1) by (simp add: managed_ok_def managed_valid_def)
  then have "managed_ok m' \<and> mg_action_id m' = mg_action_id m \<and> mg_tenant_id m' = mg_tenant_id m
    \<and> mg_applied m' = mg_applied m \<and> mg_rolled_back m' = mg_rolled_back m \<and> mg_action m' = lr_action r"
    using managed_ok_record [OF assms(1) rec] t assms(2) by (auto simp: step_allowed_def)
  then show ?thesis using t assms(2) rec by (auto simp: moved_def record_event_Inr)
qed

lemma moved_trans: "moved m m' \<Longrightarrow> moved m' m'' \<Longrightarrow> moved m m''"
  by (simp add: moved_def)

lemma mark_outcome_Inr:
  "mark_outcome a oc = Inr r \<Longrightarrow> ac_status a = EVALUATING
    \<and> (\<exists>ev. transition_action a (outcome_to_status (oc_status oc)) (''outcome_'' @ outcome_status_value (oc_status oc)) ev = Inr r)"
  by (auto simp: mark_outcome_def apply_outcome_def split: if_splits)

lemma mark_evaluating_Inr:
  "mark_evaluating a me = Inr r \<Longrightarrow> \<exists>ev. transition_action a EVALUATING ''measurement_ready_for_evaluation'' ev = Inr r"
  by (auto simp: mark_evaluating_def move_action_def split: if_splits)

definition settling_reasons :: "string set" where
  "settling_reasons = insert ''measurement_ready_for_evaluation'' (range (\<lambda>x. ''outcome_'' @ outcome_status_value x))"

lemma apply_settled_ok:
  assumes ok: "managed_ok m" and st: "mg_status m \<in> watched" and ap: "apply_settled isof now m oc = Inr m'"
  shows "moved m m' \<and> mg_status m' = outcome_to_status (oc_status oc)
    \<and> (\<exists>es. mg_history m' = mg_history m @ es \<and> es \<noteq> [] \<and> ev_reason (hd es) \<in> settling_reasons
         \<and> map ev_status es = (if mg_status m = EVALUATING then [] else [EVALUATING]) @ [mg_status m'])"
proof -
  have free: "mg_rolled_back m = None" by (rule managed_ok_not_rolled [OF ok]) (use st in \<open>auto simp: watched_def\<close>)
  obtain m1 r2 d2 where m1: "(if mg_status m = MEASUREMENT_WINDOW_ACTIVE
                then and_maybe (mark_evaluating (mg_action m) (oc_measurement oc)) (\<lambda>r.
                  record_move now m r (measurement_detail isof (oc_measurement oc) oc))
                else Inr m) = Inr m1"
      and r2: "mark_outcome (mg_action m1) oc = Inr r2" "record_move now m1 r2 d2 = Inr m'"
    using ap by (auto simp: apply_settled_def and_maybe_Inr)
  obtain ev2 where t2: "transition_action (mg_action m1) (outcome_to_status (oc_status oc))
      (''outcome_'' @ outcome_status_value (oc_status oc)) ev2 = Inr r2"
    using mark_outcome_Inr [OF r2(1)] by blast
  show ?thesis
  proof (cases "mg_status m = EVALUATING")
    case True
    then have same: "m1 = m" using m1 by simp
    obtain e where e: "mg_history m' = mg_history m @ [e]" "ev_status e = outcome_to_status (oc_status oc)"
        "ev_reason e = ''outcome_'' @ outcome_status_value (oc_status oc)" and rest: "moved m m'" "mg_status m' = outcome_to_status (oc_status oc)"
      using record_move_ok [OF ok free t2 [unfolded same] r2(2) [unfolded same]] by blast
    have "ev_reason (hd [e]) \<in> settling_reasons" using e(3) by (simp add: settling_reasons_def)
    moreover have "map ev_status [e] = (if mg_status m = EVALUATING then [] else [EVALUATING]) @ [mg_status m']"
      using True e(2) rest(2) by simp
    ultimately show ?thesis using rest e(1) by blast
  next
    case False
    then have "mg_status m = MEASUREMENT_WINDOW_ACTIVE" using st by (simp add: watched_def)
    then obtain r1 d1 where r1: "mark_evaluating (mg_action m) (oc_measurement oc) = Inr r1" "record_move now m r1 d1 = Inr m1"
      using m1 by (auto simp: and_maybe_Inr)
    obtain ev1 where t1: "transition_action (mg_action m) EVALUATING ''measurement_ready_for_evaluation'' ev1 = Inr r1"
      using mark_evaluating_Inr [OF r1(1)] by blast
    note one = record_move_ok [OF ok free t1 r1(2)]
    then have "managed_ok m1" "mg_rolled_back m1 = None" by (simp_all add: moved_def)
    note two = record_move_ok [OF this t2 r2(2)]
    obtain e1 e2 where "mg_history m1 = mg_history m @ [e1]" "ev_reason e1 = ''measurement_ready_for_evaluation''"
        "ev_status e1 = EVALUATING" "mg_history m' = mg_history m1 @ [e2]" "ev_status e2 = outcome_to_status (oc_status oc)"
      using one two by blast
    then have "mg_history m' = mg_history m @ [e1, e2]" "ev_reason (hd [e1, e2]) \<in> settling_reasons"
        "map ev_status [e1, e2] = [EVALUATING] @ [outcome_to_status (oc_status oc)]"
      by (simp_all add: settling_reasons_def)
    moreover have "moved m m'" by (rule moved_trans [OF conjunct1 [OF one] conjunct1 [OF two]])
    moreover have "mg_status m' = outcome_to_status (oc_status oc)" using two by simp
    ultimately show ?thesis using False
      by (intro conjI exI [of _ "[e1, e2]"]) simp_all
  qed
qed

context action_store
begin

lemma save_outcome_beside:
  assumes "actions_ok R ok owner c s" and "mr_repo M = R" and "save_outcome M now m oc s = (Inr (), s')"
  shows "actions_ok R ok owner c s' \<and> actions_of R c s' = actions_of R c s"
proof -
  obtain r where r: "pr_type r = outcome_kind" "pr_record_id r = ''outcome:'' @ mg_action_id m @ '':v1''" "pr_version r = 1"
      "create_once R (\<lambda>x. pr_payload x = model_dump (mr_outcome_codec M) oc) r s = (Inr (), s')"
    using save_outcome_record [OF assms(3)] unfolding assms(2) by (elim exE conjE) (rule that)
  then have "pr_type r \<noteq> action_kind" "\<not> prefix ''action:'' (pr_record_id r)" "0 \<le> pr_version r" by simp_all
  from write_beside [OF assms(1) r(4) this] show ?thesis by blast
qed

end

section \<open>Settling one action\<close>

text \<open>The measured outcome comes from data that is there.\<close>

lemma ledger_holds: "(d, e) \<in> set (ledger w site a b) \<Longrightarrow> wh_ledger w (site, d) = Some e"
  unfolding ledger_def by (auto simp: map_filter_mem)

lemma measured_ready:
  assumes "measured_outcome M newest_final now m policy applied s = Inr (Some oc)" and "mg_applied m = Some applied"
  shows "data_ready M newest_final (mr_warehouse M s) m"
proof -
  let ?w = "measurement_windows (ap_applied_at applied) (mr_window_days M) (mr_settle_days M)"
  let ?led = "ledger (mr_warehouse M s) (mg_site_id m) (mw_baseline_start ?w) (mw_current_end ?w)"
  have final: "mw_current_end ?w \<le> newest_final"
    using assms(1) by (auto simp: measured_outcome_def Let_def split: if_splits)
  obtain property where p: "property_of (mr_property M s (mg_site_id m)) ?led = Inr property"
    using assms(1) by (auto simp: measured_outcome_def Let_def and_maybe_Inr split: if_splits)
  let ?own = "filter (\<lambda>(d, e). Some (sd_property_url e) = property) ?led"
  let ?stored = "map fst (filter (\<lambda>(d, e). sd_status e = SYNCED) ?own)"
  have due: "list_all (\<lambda>d. d \<in> set ?stored) (compared_days ?w) \<or> mw_current_end ?w + mr_deadline_days M \<le> newest_final"
    using assms(1) final p unfolding measured_outcome_def Let_def
    by (cases "\<not> list_all (\<lambda>d. d \<in> set ?stored) (compared_days ?w) \<and> newest_final < mw_current_end ?w + mr_deadline_days M") auto
  have "\<exists>url. \<forall>d \<in> set (compared_days ?w). \<exists>e. wh_ledger (mr_warehouse M s) (mg_site_id m, d) = Some e
      \<and> sd_status e = SYNCED \<and> sd_property_url e = url"
    if whole: "list_all (\<lambda>d. d \<in> set ?stored) (compared_days ?w)"
  proof (intro exI [of _ "the property"] ballI)
    fix d assume "d \<in> set (compared_days ?w)"
    then have "d \<in> set ?stored" using whole by (simp add: list_all_iff)
    then obtain e where "(d, e) \<in> set ?led" "Some (sd_property_url e) = property" "sd_status e = SYNCED" by auto
    then show "\<exists>e. wh_ledger (mr_warehouse M s) (mg_site_id m, d) = Some e \<and> sd_status e = SYNCED \<and> sd_property_url e = the property"
      using ledger_holds by force
  qed
  then show ?thesis using due final assms(2) by (auto simp: data_ready_def Let_def)
qed

text \<open>A settlement either happens with all its writes or leaves the state as it was.\<close>

lemma settle_cases:
  assumes "undoes_on_error (mr_transaction M)" and run: "settle_action M newest_final now m s = (res, s')"
  shows "(s' = s \<and> res \<noteq> Inr True) \<or> (res = Inr True \<and> \<not> rollback_pending m \<and> mg_applied m \<noteq> None
    \<and> (\<exists>oc. (repo_get (mr_repo M) s outcome_kind (mg_action_id m) = None \<longrightarrow> data_ready M newest_final (mr_warehouse M s) m)
        \<and> settle_writes M now m oc s = (Inr (), s')))"
proof (cases "policy_of (ac_action_type (mg_action m)) = None \<or> mg_applied m = None \<or> rollback_pending m")
  case True
  then show ?thesis using run by (auto simp: settle_action_def ret_def split: option.splits)
next
  case False
  then obtain policy applied where pol: "policy_of (ac_action_type (mg_action m)) = Some policy"
      "mg_applied m = Some applied" "\<not> rollback_pending m" by auto
  let ?tx = "\<lambda>oc. andthen (mr_transaction M (settle_writes M now m oc)) (\<lambda>_. ret True) s"
  have tx: "(s' = s \<and> res \<noteq> Inr True) \<or> (res = Inr True \<and> settle_writes M now m oc s = (Inr (), s'))"
    if "?tx oc = (res, s')" for oc
    using that assms(1) by (auto simp: undoes_on_error_def andthen_def ret_def split: prod.splits sum.splits)
  show ?thesis
  proof (cases "repo_get (mr_repo M) s outcome_kind (mg_action_id m)")
    case None
    then have here: "settle_action M newest_final now m s = (case measured_outcome M newest_final now m policy applied s of
        Inl e \<Rightarrow> (Inl e, s) | Inr None \<Rightarrow> (Inr False, s) | Inr (Some oc) \<Rightarrow> ?tx oc)"
      using pol by (auto simp: settle_action_def stored_outcome_def prog_simps andthen_def reads_def ret_def split: sum.splits option.splits)
    show ?thesis
    proof (cases "measured_outcome M newest_final now m policy applied s")
      case (Inr found)
      show ?thesis
      proof (cases found)
        case (Some oc)
        then have "measured_outcome M newest_final now m policy applied s = Inr (Some oc)" using Inr by simp
        then show ?thesis using tx [of oc] measured_ready [OF _ pol(2)] run here pol by auto
      qed (use run here Inr in auto)
    qed (use run here in auto)
  next
    case (Some r)
    have "settle_action M newest_final now m s = (case restore (mr_outcome_codec M) (pr_payload r) of
        Inl e \<Rightarrow> (Inl e, s) | Inr oc \<Rightarrow> ?tx oc)"
      using pol Some by (auto simp: settle_action_def stored_outcome_def prog_simps andthen_def reads_def ret_def of_result_def split: sum.splits)
    then show ?thesis using tx run pol Some by (auto split: sum.splits)
  qed
qed

locale measuring = action_store "mr_repo M" ok owner "mr_action_codec M"
  for M :: "('s, 'p) measurer" and ok :: "'s \<Rightarrow> bool" and owner +
  assumes atomic: "undoes_on_error (mr_transaction M)"
    and create_tables: "repo_create (mr_repo M) s r = Inr s' \<Longrightarrow> mr_warehouse M s' = mr_warehouse M s"
    and replace_tables: "repo_replace (mr_repo M) s r v = Inr s' \<Longrightarrow> mr_warehouse M s' = mr_warehouse M s"
begin

text \<open>What settling \<open>m\<close> keeps: everything but the action itself and its own outcome.\<close>

lemma settle_writes_ok:
  assumes ok: "actions_ok (mr_repo M) ok owner (mr_action_codec M) s"
    and st: "actions_of (mr_repo M) (mr_action_codec M) s (mg_action_id m) = Some m" and watched: "mg_status m \<in> watched"
    and run: "settle_writes M now m oc s = (Inr (), s')"
  shows "\<exists>m'. actions_ok (mr_repo M) ok owner (mr_action_codec M) s'
    \<and> actions_of (mr_repo M) (mr_action_codec M) s' = (actions_of (mr_repo M) (mr_action_codec M) s)(mg_action_id m \<mapsto> m')
    \<and> keeps_others (mr_repo M) s s' \<and> mr_warehouse M s' = mr_warehouse M s
    \<and> (\<forall>i. i \<noteq> mg_action_id m \<longrightarrow> repo_get (mr_repo M) s' outcome_kind i = repo_get (mr_repo M) s outcome_kind i)
    \<and> mg_applied m' = mg_applied m \<and> mg_status m' = outcome_to_status (oc_status oc)
    \<and> statuses m' = statuses m @ (if mg_status m = EVALUATING then [] else [EVALUATING]) @ [mg_status m']
    \<and> (\<exists>r. repo_get (mr_repo M) s' outcome_kind (mg_action_id m) = Some r \<and> pr_payload r = model_dump (mr_outcome_codec M) oc)
    \<and> (ac_action_type (mg_action m) \<notin> page_level \<longrightarrow>
         (\<exists>e x. build_feedback_event (feedback_id_for (mg_action_id m)) (mg_action m') oc = Inr e
            \<and> repo_get (mr_repo M) s' feedback_kind (feedback_id_for (mg_action_id m)) = Some x
            \<and> pr_payload x = model_dump (mr_feedback_codec M) e \<and> pr_tenant_id x = Some (mg_tenant_id m)))"
proof -
  let ?R = "mr_repo M" and ?c = "mr_action_codec M" and ?i = "mg_action_id m"
  let ?learn = "\<lambda>settled. if ac_action_type (mg_action m) \<in> page_level then ret () else
      andthen (of_result (build_feedback_event (feedback_id_for ?i) (mg_action settled) oc)) (\<lambda>e.
      andthen (feedback_add ?R (mr_feedback_codec M) now e (mg_tenant_id m)) (\<lambda>_. ret ()))"
  obtain s1 m' s2 x where one: "save_outcome M now m oc s = (Inr (), s1)"
      and ap: "apply_settled (mr_isoformat M) now m oc = Inr m'" and two: "action_update ?R ?c now m' s1 = (Inr x, s2)"
      and three: "?learn x s2 = (Inr (), s')"
    using run unfolding settle_writes_def by (auto simp: of_result_def elim!: andthen_cases)
  have good: "managed_ok m" using stored_good [OF ok st] by simp
  have m': "moved m m'" "mg_status m' = outcome_to_status (oc_status oc)" "prefix (mg_history m) (mg_history m')"
      "statuses m' = statuses m @ (if mg_status m = EVALUATING then [] else [EVALUATING]) @ [mg_status m']"
    using apply_settled_ok [OF good watched ap] by (auto simp: statuses_def)
  obtain r1 where r1: "pr_key r1 = (outcome_kind, ?i)" "pr_payload r1 = model_dump (mr_outcome_codec M) oc"
      and once1: "create_once ?R (\<lambda>x. pr_payload x = model_dump (mr_outcome_codec M) oc) r1 s = (Inr (), s1)"
      and kind1: "pr_type r1 \<noteq> action_kind" "\<not> prefix ''action:'' (pr_record_id r1)" "0 \<le> pr_version r1"
    using save_outcome_record [OF one] by auto
  note k1 = write_beside [OF ok once1 kind1]
  have oks: "ok s" using ok by (simp add: actions_ok_def store_ok_def)
  obtain o1 where o1: "repo_get ?R s1 outcome_kind ?i = Some o1" "pr_payload o1 = model_dump (mr_outcome_codec M) oc"
    using create_once_stored [OF oks once1] r1 by auto
  have ok1: "actions_ok ?R ok owner ?c s1" and st1: "actions_of ?R ?c s1 (mg_action_id m') = Some m"
    using k1 st m'(1) by (simp_all add: moved_def)
  have up: "x = m'" "actions_ok ?R ok owner ?c s2" "actions_of ?R ?c s2 = (actions_of ?R ?c s)(?i \<mapsto> m')"
    using update_lands [OF ok1 st1 _ _ m'(3), where now = now] m'(1) two k1 by (auto simp: moved_def)
  obtain r2 v where r2: "pr_type r2 = action_kind" "written_to ?R ok owner s1 r2 s2" "repo_replace ?R s1 r2 v = Inr s2"
    using update_writes [OF ok1 two] by blast
  note get2 = written_get [OF r2(2)]
  have k2: "keeps_others ?R s1 s2" using r2(1) by (auto simp: keeps_others_def get2)
  have fb: "actions_ok ?R ok owner ?c s' \<and> actions_of ?R ?c s' = actions_of ?R ?c s2 \<and> keeps_others ?R s2 s'
      \<and> (\<forall>i. repo_get ?R s' outcome_kind i = repo_get ?R s2 outcome_kind i) \<and> mr_warehouse M s' = mr_warehouse M s2
      \<and> (ac_action_type (mg_action m) \<notin> page_level \<longrightarrow>
         (\<exists>e x. build_feedback_event (feedback_id_for ?i) (mg_action m') oc = Inr e
            \<and> repo_get ?R s' feedback_kind (feedback_id_for ?i) = Some x
            \<and> pr_payload x = model_dump (mr_feedback_codec M) e \<and> pr_tenant_id x = Some (mg_tenant_id m)))"
  proof (cases "ac_action_type (mg_action m) \<in> page_level")
    case True
    then show ?thesis using three up by (simp add: ret_def keeps_others_refl)
  next
    case False
    obtain e y where e: "build_feedback_event (feedback_id_for ?i) (mg_action m') oc = Inr e"
        "feedback_add ?R (mr_feedback_codec M) now e (mg_tenant_id m) s2 = (Inr y, s')"
      using three False up(1) by (auto simp: of_result_def ret_def elim!: andthen_cases)
    then have id: "fe_feedback_id e = feedback_id_for ?i" by (auto simp: build_feedback_event_def Let_def split: if_splits)
    obtain r3 where r3: "pr_key r3 = (feedback_kind, feedback_id_for ?i)" "pr_payload r3 = model_dump (mr_feedback_codec M) e"
        "pr_tenant_id r3 = Some (mg_tenant_id m)"
        and once3: "create_once ?R (\<lambda>x. pr_tenant_id x = Some (mg_tenant_id m) \<and> pr_payload x = model_dump (mr_feedback_codec M) e) r3 s2 = (Inr (), s')"
        and kind3: "pr_type r3 \<noteq> action_kind" "\<not> prefix ''action:'' (pr_record_id r3)" "0 \<le> pr_version r3"
      using feedback_add_record [OF e(2)] id by (auto simp: feedback_id_for_def)
    note k3 = write_beside [OF up(2) once3 kind3]
    have "ok s2" using up(2) by (simp add: actions_ok_def store_ok_def)
    from create_once_stored [OF this once3]
    obtain x where "repo_get ?R s' feedback_kind (feedback_id_for ?i) = Some x" "pr_tenant_id x = Some (mg_tenant_id m)"
        "pr_payload x = model_dump (mr_feedback_codec M) e"
      using r3 by auto
    moreover have "mr_warehouse M s' = mr_warehouse M s2" using k3 create_tables by blast
    ultimately show ?thesis using k3 r3(1) e(1) by auto
  qed
  have "mr_warehouse M s1 = mr_warehouse M s" using k1 create_tables by metis
  then have "mr_warehouse M s' = mr_warehouse M s" using fb replace_tables [OF r2(3)] by simp
  moreover have others: "keeps_others ?R s1 s'" using keeps_others_trans [OF k2, of s'] fb by simp
  moreover have "keeps_others ?R s s'" using keeps_others_trans [OF _ others] k1 by simp
  moreover have "\<forall>i. i \<noteq> ?i \<longrightarrow> repo_get ?R s' outcome_kind i = repo_get ?R s outcome_kind i"
    using fb k1 r1(1) r2(1) by (simp add: get2)
  moreover have "\<exists>r. repo_get ?R s' outcome_kind ?i = Some r \<and> pr_payload r = model_dump (mr_outcome_codec M) oc"
    using fb o1 r2(1) by (simp add: get2)
  moreover have "mg_applied m' = mg_applied m" using m'(1) by (simp add: moved_def)
  moreover have "actions_of ?R ?c s' = (actions_of ?R ?c s)(?i \<mapsto> m')" using fb up(3) by simp
  moreover note conjunct1 [OF fb] conjunct2 [OF conjunct2 [OF conjunct2 [OF conjunct2 [OF conjunct2 [OF fb]]]]]
  moreover note m'(2,4)
  ultimately show ?thesis by (intro exI [of _ m'] conjI) assumption+
qed

lemma settle_ok:
  assumes ok: "actions_ok (mr_repo M) ok owner (mr_action_codec M) s"
    and st: "actions_of (mr_repo M) (mr_action_codec M) s (mg_action_id m) = Some m" and watched: "mg_status m \<in> watched"
    and run: "settle_action M newest_final now m s = (res, s')"
  shows "(s' = s \<and> res \<noteq> Inr True)
    \<or> (\<exists>m'. actions_ok (mr_repo M) ok owner (mr_action_codec M) s'
        \<and> actions_of (mr_repo M) (mr_action_codec M) s' = (actions_of (mr_repo M) (mr_action_codec M) s)(mg_action_id m \<mapsto> m')
        \<and> keeps_others (mr_repo M) s s' \<and> mr_warehouse M s' = mr_warehouse M s
        \<and> (\<forall>i. i \<noteq> mg_action_id m \<longrightarrow> repo_get (mr_repo M) s' outcome_kind i = repo_get (mr_repo M) s outcome_kind i)
        \<and> settlement M newest_final s s' m m')"
proof (cases "s' = s \<and> res \<noteq> Inr True")
  case False
  then obtain oc where oc: "\<not> rollback_pending m" "mg_applied m \<noteq> None"
      "repo_get (mr_repo M) s outcome_kind (mg_action_id m) = None \<longrightarrow> data_ready M newest_final (mr_warehouse M s) m"
      "settle_writes M now m oc s = (Inr (), s')"
    using settle_cases [OF atomic run] by auto
  obtain m' where m': "actions_ok (mr_repo M) ok owner (mr_action_codec M) s'"
      "actions_of (mr_repo M) (mr_action_codec M) s' = (actions_of (mr_repo M) (mr_action_codec M) s)(mg_action_id m \<mapsto> m')"
      "keeps_others (mr_repo M) s s'" "mr_warehouse M s' = mr_warehouse M s"
      "\<forall>i. i \<noteq> mg_action_id m \<longrightarrow> repo_get (mr_repo M) s' outcome_kind i = repo_get (mr_repo M) s outcome_kind i"
      and settled: "mg_applied m' = mg_applied m" "mg_status m' = outcome_to_status (oc_status oc)"
        "statuses m' = statuses m @ (if mg_status m = EVALUATING then [] else [EVALUATING]) @ [mg_status m']"
        "\<exists>r. repo_get (mr_repo M) s' outcome_kind (mg_action_id m) = Some r \<and> pr_payload r = model_dump (mr_outcome_codec M) oc"
        "ac_action_type (mg_action m) \<notin> page_level \<longrightarrow>
         (\<exists>e x. build_feedback_event (feedback_id_for (mg_action_id m)) (mg_action m') oc = Inr e
            \<and> repo_get (mr_repo M) s' feedback_kind (feedback_id_for (mg_action_id m)) = Some x
            \<and> pr_payload x = model_dump (mr_feedback_codec M) e \<and> pr_tenant_id x = Some (mg_tenant_id m))"
    by (rule exE [OF settle_writes_ok [OF ok st watched oc(4)]]) (elim conjE, rule that)
  obtain r where "repo_get (mr_repo M) s' outcome_kind (mg_action_id m) = Some r" "pr_payload r = model_dump (mr_outcome_codec M) oc"
    using settled(4) by blast
  then have "settlement M newest_final s s' m m'"
    unfolding settlement_def
    by (intro conjI exI [of _ oc] exI [of _ r] watched oc(1-3) settled)
  then show ?thesis using m' by blast
qed simp

end

text \<open>A settlement stays one when others follow, and counts from where the action was left alone until then.\<close>

lemma settlement_stays:
  assumes "settlement M newest_final s s' m m'" and "keeps_others (mr_repo M) s' s''"
    and "repo_get (mr_repo M) s outcome_kind (mg_action_id m) = repo_get (mr_repo M) s0 outcome_kind (mg_action_id m)"
    and "mr_warehouse M s = mr_warehouse M s0"
  shows "settlement M newest_final s0 s'' m m'"
proof -
  note keep = keeps_others_get [OF assms(2)]
  obtain oc r where st: "mg_status m \<in> watched" "\<not> rollback_pending m" "mg_applied m \<noteq> None" "mg_applied m' = mg_applied m"
      and r: "repo_get (mr_repo M) s' outcome_kind (mg_action_id m) = Some r" "pr_payload r = model_dump (mr_outcome_codec M) oc"
      and ready: "repo_get (mr_repo M) s outcome_kind (mg_action_id m) = None \<longrightarrow> data_ready M newest_final (mr_warehouse M s) m"
      and moves: "mg_status m' = outcome_to_status (oc_status oc)"
        "statuses m' = statuses m @ (if mg_status m = EVALUATING then [] else [EVALUATING]) @ [mg_status m']"
      and taught: "ac_action_type (mg_action m) \<notin> page_level \<longrightarrow>
               (\<exists>e x. build_feedback_event (feedback_id_for (mg_action_id m)) (mg_action m') oc = Inr e
                  \<and> repo_get (mr_repo M) s' feedback_kind (feedback_id_for (mg_action_id m)) = Some x
                  \<and> pr_payload x = model_dump (mr_feedback_codec M) e \<and> pr_tenant_id x = Some (mg_tenant_id m))"
    using assms(1) unfolding settlement_def by (elim conjE exE) (rule that)
  have "repo_get (mr_repo M) s'' outcome_kind (mg_action_id m) = Some r" by (rule keep [OF _ r(1)]) simp
  moreover have "ac_action_type (mg_action m) \<notin> page_level \<longrightarrow>
               (\<exists>e x. build_feedback_event (feedback_id_for (mg_action_id m)) (mg_action m') oc = Inr e
                  \<and> repo_get (mr_repo M) s'' feedback_kind (feedback_id_for (mg_action_id m)) = Some x
                  \<and> pr_payload x = model_dump (mr_feedback_codec M) e \<and> pr_tenant_id x = Some (mg_tenant_id m))"
    using taught keep [of feedback_kind] by (auto intro: keep [of feedback_kind])
  ultimately show ?thesis
    unfolding settlement_def
    by (intro conjI exI [of _ oc] exI [of _ r] st r(2) moves ready [unfolded assms(3,4)])
qed

text \<open>
  The round, by the records it still has to look at: an action is as it was, or it was settled;
  one that is not on the list is as it was.
\<close>

definition round_so_far ::
  "('s, 'p) measurer \<Rightarrow> ('s \<Rightarrow> bool) \<Rightarrow> ('s \<Rightarrow> string \<Rightarrow> (string \<times> string \<times> int) option) \<Rightarrow> day \<Rightarrow> 's \<Rightarrow> string set \<Rightarrow> 's \<Rightarrow> bool" where
  "round_so_far M ok owner newest_final s left s' \<longleftrightarrow> actions_ok (mr_repo M) ok owner (mr_action_codec M) s'
     \<and> mr_warehouse M s' = mr_warehouse M s
     \<and> (\<forall>i \<in> left. actions_of (mr_repo M) (mr_action_codec M) s' i = actions_of (mr_repo M) (mr_action_codec M) s i
          \<and> repo_get (mr_repo M) s' outcome_kind i = repo_get (mr_repo M) s outcome_kind i)
     \<and> (\<forall>i m. actions_of (mr_repo M) (mr_action_codec M) s i = Some m \<longrightarrow>
          actions_of (mr_repo M) (mr_action_codec M) s' i = Some m
          \<or> (\<exists>m'. actions_of (mr_repo M) (mr_action_codec M) s' i = Some m' \<and> settlement M newest_final s s' m m'))"

context measuring
begin

lemma round_step:
  assumes inv: "round_so_far M ok owner newest_final s left s1" and i: "mg_action_id m \<in> left"
    and st: "actions_of (mr_repo M) (mr_action_codec M) s (mg_action_id m) = Some m" and watched: "mg_status m \<in> watched"
    and run: "settle_action M newest_final now m s1 = (res, s2)"
  shows "round_so_far M ok owner newest_final s (left - {mg_action_id m}) s2"
proof -
  have before: "actions_ok (mr_repo M) ok owner (mr_action_codec M) s1" "mr_warehouse M s1 = mr_warehouse M s"
      "actions_of (mr_repo M) (mr_action_codec M) s1 (mg_action_id m) = Some m"
      "repo_get (mr_repo M) s1 outcome_kind (mg_action_id m) = repo_get (mr_repo M) s outcome_kind (mg_action_id m)"
    using inv i st unfolding round_so_far_def by auto
  from settle_ok [OF before(1,3) watched run]
  show ?thesis
  proof (elim disjE conjE exE)
    assume "s2 = s1"
    then show ?thesis using inv unfolding round_so_far_def by blast
  next
    fix m' assume s2: "actions_ok (mr_repo M) ok owner (mr_action_codec M) s2"
      "actions_of (mr_repo M) (mr_action_codec M) s2 = (actions_of (mr_repo M) (mr_action_codec M) s1)(mg_action_id m \<mapsto> m')"
      "keeps_others (mr_repo M) s1 s2" "mr_warehouse M s2 = mr_warehouse M s1"
      "\<forall>i. i \<noteq> mg_action_id m \<longrightarrow> repo_get (mr_repo M) s2 outcome_kind i = repo_get (mr_repo M) s1 outcome_kind i"
      "settlement M newest_final s1 s2 m m'"
    show ?thesis
      unfolding round_so_far_def
    proof (intro conjI ballI allI impI)
      show "actions_ok (mr_repo M) ok owner (mr_action_codec M) s2" by (rule s2(1))
      show "mr_warehouse M s2 = mr_warehouse M s" using s2(4) before(2) by simp
      fix j assume j: "j \<in> left - {mg_action_id m}"
      show "actions_of (mr_repo M) (mr_action_codec M) s2 j = actions_of (mr_repo M) (mr_action_codec M) s j"
        using inv j s2(2) unfolding round_so_far_def by simp
      show "repo_get (mr_repo M) s2 outcome_kind j = repo_get (mr_repo M) s outcome_kind j"
        using inv j s2(5) unfolding round_so_far_def by simp
    next
      fix j a assume a: "actions_of (mr_repo M) (mr_action_codec M) s j = Some a"
      show "actions_of (mr_repo M) (mr_action_codec M) s2 j = Some a
          \<or> (\<exists>m'. actions_of (mr_repo M) (mr_action_codec M) s2 j = Some m' \<and> settlement M newest_final s s2 a m')"
      proof (cases "j = mg_action_id m")
        case True
        then have "a = m" using a st by simp
        moreover have "settlement M newest_final s s2 m m'"
          by (rule settlement_stays [OF s2(6) keeps_others_refl before(4,2)])
        ultimately show ?thesis using True s2(2) by simp
      next
        case False
        consider "actions_of (mr_repo M) (mr_action_codec M) s1 j = Some a"
          | b where "actions_of (mr_repo M) (mr_action_codec M) s1 j = Some b" "settlement M newest_final s s1 a b"
          using inv a unfolding round_so_far_def by blast
        then show ?thesis
        proof cases
          case 2
          then show ?thesis using settlement_stays [OF 2(2) s2(3) refl refl] s2(2) False by simp
        qed (use s2(2) False in simp)
      qed
    qed
  qed
qed

lemma settle_record_step:
  assumes inv: "round_so_far M ok owner newest_final s left s1" and i: "pr_id r \<in> left"
    and rec: "repo_get (mr_repo M) s action_kind (pr_id r) = Some r" and ok: "actions_ok (mr_repo M) ok owner (mr_action_codec M) s"
  shows "round_so_far M ok owner newest_final s (left - {pr_id r}) (snd (settle_record M newest_final now rep r s1))"
proof -
  obtain m where m: "model_validate (mr_action_codec M) (pr_payload r) = Some m"
    using ok rec by (fastforce simp: actions_ok_def store_ok_def)
  then have st: "actions_of (mr_repo M) (mr_action_codec M) s (pr_id r) = Some m"
    using rec by (simp add: actions_of_def model_of_def)
  then have id: "mg_action_id m = pr_id r" using stored_good [OF ok] by blast
  show ?thesis
  proof (cases "mg_status m \<in> watched")
    case False
    then have "snd (settle_record M newest_final now rep r s1) = s1"
      using m by (simp add: settle_record_def restore_def prog_simps andthen_def of_result_def ret_def)
    then show ?thesis using inv unfolding round_so_far_def by auto
  next
    case True
    obtain res s2 where run: "settle_action M newest_final now m s1 = (res, s2)" by fastforce
    have "snd (settle_record M newest_final now rep r s1) = s2"
      using m True run
      by (simp add: settle_record_def restore_def andthen_def of_result_def ret_def attempt_def split: sum.splits)
    moreover have "round_so_far M ok owner newest_final s (left - {mg_action_id m}) s2"
      by (rule round_step [OF inv _ _ True run]) (use i st id in simp_all)
    ultimately show ?thesis using id by simp
  qed
qed

lemma settle_records_so_far:
  assumes "round_so_far M ok owner newest_final s (pr_id ` set rs) s1" and "distinct (map pr_id rs)"
    and "\<forall>r \<in> set rs. repo_get (mr_repo M) s action_kind (pr_id r) = Some r"
    and "actions_ok (mr_repo M) ok owner (mr_action_codec M) s"
  shows "round_so_far M ok owner newest_final s {} (snd (settle_records M newest_final now rep rs s1))"
  using assms
proof (induction rs arbitrary: rep s1)
  case Nil
  then show ?case by (simp add: ret_def)
next
  case (Cons r rs)
  let ?one = "settle_record M newest_final now rep r s1"
  have rest: "insert (pr_id r) (pr_id ` set rs) - {pr_id r} = pr_id ` set rs" using Cons.prems(2) by auto
  have step: "round_so_far M ok owner newest_final s (pr_id ` set rs) (snd ?one)"
    using settle_record_step [OF Cons.prems(1) _ _ Cons.prems(4), of r now rep] Cons.prems(3) rest by simp
  then have stop: "round_so_far M ok owner newest_final s {} (snd ?one)" unfolding round_so_far_def by blast
  show ?case
  proof (cases ?one)
    case (Pair res s2)
    then show ?thesis using stop step Cons.IH [of s2] Cons.prems(2-4) by (cases res) (simp_all add: andthen_def)
  qed
qed

lemma round_settles:
  assumes ok: "actions_ok (mr_repo M) ok owner (mr_action_codec M) s" and window: "sync_window now (mr_lag_days M) window_size = Inr (oldest, newest_final)"
  shows "round_so_far M ok owner newest_final s {} (snd (run_measurement_round M now s))"
proof -
  have "ok s" using ok by (simp add: actions_ok_def store_ok_def)
  then obtain rs where rs: "repo_list (mr_repo M) s (Some action_kind) None = Inr rs"
      "set rs = {r. \<exists>i. repo_get (mr_repo M) s action_kind i = Some r}" "sorted_wrt (<) (map pr_id rs)"
    using list_type by blast
  have own: "repo_get (mr_repo M) s action_kind (pr_id r) = Some r" if "r \<in> set rs" for r
    using that rs(2) get_key [OF \<open>ok s\<close>] by auto
  have "distinct (map pr_id rs)" using rs(3) by (simp add: strict_sorted_iff)
  moreover have "round_so_far M ok owner newest_final s (pr_id ` set rs) s" using ok by (simp add: round_so_far_def)
  ultimately show ?thesis using settle_records_so_far own ok window rs(1)
    by (simp add: run_measurement_round_def andthen_def of_result_def)
qed

end

section \<open>Over the in-memory repository\<close>

definition measures_beside :: "('p memory \<times> warehouse, 'p) measurer \<Rightarrow> bool" where
  "measures_beside M \<longleftrightarrow> mr_repo M = beside memory_ops \<and> mr_warehouse M = snd
     \<and> codec_ok managed_valid (mr_action_codec M) \<and> undoes_on_error (mr_transaction M)"

lemma measured_actions:
  "measures_beside M \<Longrightarrow> action_store site_ops (\<lambda>s. mem_ok (fst s)) (\<lambda>s. mem_owner (fst s)) (mr_action_codec M)"
  unfolding measures_beside_def by (elim conjE) (rule actions_beside_memory)

lemma measuring_memory:
  assumes "measures_beside M"
  shows "measuring M (\<lambda>s. mem_ok (fst s)) (\<lambda>s. mem_owner (fst s))"
proof -
  have "action_store (mr_repo M) (\<lambda>s. mem_ok (fst s)) (\<lambda>s. mem_owner (fst s)) (mr_action_codec M)"
    using measured_actions [OF assms] assms by (simp add: measures_beside_def)
  then show ?thesis
    using assms by (auto simp: measuring_def measuring_axioms_def measures_beside_def and_maybe_Inr)
qed

text \<open>The three kinds of documents a round reads and writes, in one repository.\<close>

datatype settled_doc = ActionDoc managed | FeedbackDoc feedback_event | OutcomeDoc outcome

fun action_doc :: "settled_doc \<Rightarrow> managed option" where
  "action_doc (ActionDoc m) = Some m"
| "action_doc _ = None"

fun feedback_doc :: "settled_doc \<Rightarrow> feedback_event option" where
  "feedback_doc (FeedbackDoc e) = Some e"
| "feedback_doc _ = None"

fun outcome_doc :: "settled_doc \<Rightarrow> outcome option" where
  "outcome_doc (OutcomeDoc oc) = Some oc"
| "outcome_doc _ = None"

definition whole_or_nothing :: "('s, 'a) prog \<Rightarrow> ('s, 'a) prog" where
  "whole_or_nothing p s = (case p s of (Inl e, _) \<Rightarrow> (Inl e, s) | (Inr x, s') \<Rightarrow> (Inr x, s'))"

definition plain_measurer :: "(settled_doc memory \<times> warehouse, settled_doc) measurer" where
  "plain_measurer = \<lparr>mr_repo = beside memory_ops,
     mr_action_codec = \<lparr>model_dump = ActionDoc, model_validate = action_doc\<rparr>,
     mr_feedback_codec = \<lparr>model_dump = FeedbackDoc, model_validate = feedback_doc\<rparr>,
     mr_outcome_codec = \<lparr>model_dump = OutcomeDoc, model_validate = outcome_doc\<rparr>,
     mr_property = (\<lambda>_ _. Inr None), mr_warehouse = snd, mr_db_sum = sum_list, mr_isoformat = show_int,
     mr_transaction = whole_or_nothing, mr_lag_days = gsc_data_lag_days, mr_window_days = 28, mr_settle_days = 7,
     mr_deadline_days = 14\<rparr>"

lemma plain_measures: "measures_beside plain_measurer"
  by (simp add: measures_beside_def plain_measurer_def codec_ok_def undoes_on_error_def whole_or_nothing_def)

interpretation mem_measuring: measuring plain_measurer "\<lambda>s. mem_ok (fst s)" "\<lambda>s. mem_owner (fst s)"
  by (rule measuring_memory [OF plain_measures])

section \<open>A change on its way\<close>

definition demo_waiting :: managed where
  "demo_waiting = \<lparr>mg_action = demo_plan\<lparr>ac_status := MEASUREMENT_WINDOW_ACTIVE\<rparr>, mg_tenant_id = ''t'', mg_run_id = ''r1'',
     mg_proposal_id = None, mg_observed_value = Some ''Old'',
     mg_applied = Some \<lparr>ap_adapter_id = ''wp'', ap_change_id = None, ap_previous_value = ''Old'', ap_new_value = ''New'',
       ap_applied_at = 0\<rparr>,
     mg_rolled_back = None, mg_error = None,
     mg_history = map (\<lambda>st. \<lparr>ev_at = 0, ev_status = st, ev_actor = ''user'', ev_reason = ''step'', ev_detail = []\<rparr>)
       [AWAITING_APPROVAL, APPROVED, EXECUTING, EXECUTED, WAITING_FOR_RECRAWL, MEASUREMENT_WINDOW_ACTIVE],
     mg_created_at = 0, mg_updated_at = 0\<rparr>"

definition empty_window :: window_summary where
  "empty_window = \<lparr>ws_start_date = 0, ws_end_date = 0, ws_expected_days = 1, ws_known_days = 0, ws_observed_days = 0,
     ws_completeness = 0, ws_observation_count = 0, ws_impressions = 0, ws_clicks = 0, ws_ctr = 0, ws_median_position = None\<rparr>"

text \<open>An outcome that was stored before a crash.\<close>

definition demo_outcome :: outcome where
  "demo_outcome = \<lparr>oc_outcome_id = ''outcome:a'', oc_action_id = ''a'', oc_site_id = ''site'', oc_normalized_url = ''/p'',
     oc_normalized_query = ''q'', oc_status = OUTCOME_SUCCESS, oc_primary_metric = CTR, oc_primary_metric_outcome = None,
     oc_metric_outcomes = [], oc_policy = ctr_policy,
     oc_measurement = \<lparr>me_measurement_id = ''measurement:a'', me_action_id = ''a'', me_site_id = ''site'',
       me_normalized_url = ''/p'', me_normalized_query = ''q'', me_status = READY, me_baseline = empty_window,
       me_current = empty_window, me_comparisons = [], me_reasons = [], me_evidence = [], me_snapshot = demo_snapshot,
       me_evaluated_at = 0\<rparr>,
     oc_reasons = [''primary_metric_met_improvement_threshold''], oc_evidence = [], oc_snapshot = demo_snapshot\<rparr>"

definition demo_crashed :: "settled_doc memory \<times> warehouse" where
  "demo_crashed = snd (save_outcome plain_measurer 0 demo_waiting demo_outcome
     (snd (action_create site_ops (mr_action_codec plain_measurer) 0 demo_waiting (empty_memory, empty_warehouse))))"

abbreviation demo_round :: "settled_doc memory \<times> warehouse" where
  "demo_round \<equiv> snd (run_measurement_round plain_measurer 0 demo_crashed)"

lemma demo_waiting_ok: "managed_ok demo_waiting"
  by (simp add: managed_ok_def managed_valid_def lawful_def statuses_def step_allowed_def can_transition_def
      demo_waiting_def demo_plan_def action_valid_def unit_score_def)

lemma demo_crashed_stored: "site_actions (mr_action_codec plain_measurer) demo_crashed ''a'' = Some demo_waiting"
  by code_simp

lemma demo_final: "sync_window 0 (mr_lag_days plain_measurer) window_size = Inr (-483, -4)"
  by code_simp

lemma demo_round_settles:
  "map_option mg_status (site_actions (mr_action_codec plain_measurer) demo_round ''a'') = Some SUCCEEDED"
  by code_simp

lemma demo_crashed_ok: "site_ok (mr_action_codec plain_measurer) demo_crashed"
proof -
  let ?c = "mr_action_codec plain_measurer" and ?s0 = "(empty_memory, empty_warehouse)"
  let ?s1 = "snd (action_create site_ops ?c 0 demo_waiting ?s0)"
  have codec: "codec_ok managed_valid ?c" using plain_measures by (simp add: measures_beside_def)
  note acts = actions_beside_memory [OF codec]
  have "site_ok ?c ?s0" by (simp add: actions_ok_def store_ok_def keeps_kind_empty memory_ops_def)
  then have s1: "site_ok ?c ?s1"
    using keeps_state [OF action_store.keeps_create [OF acts demo_waiting_ok]] by blast
  have "fst (save_outcome plain_measurer 0 demo_waiting demo_outcome ?s1) = Inr ()" by code_simp
  then have saved: "save_outcome plain_measurer 0 demo_waiting demo_outcome ?s1 = (Inr (), demo_crashed)"
    by (simp add: demo_crashed_def prod_eq_iff)
  have repo: "mr_repo plain_measurer = site_ops" by (simp add: plain_measurer_def)
  show ?thesis using action_store.save_outcome_beside [OF acts s1 repo saved] by blast
qed

section \<open>Properties\<close>

text \<open>
  C18. A measurement round settles an action only for cause, and whole: whatever the round does,
  returning or raising, every stored action is afterwards as it was, or it was being watched, no
  rollback was pending, and either an outcome had been stored before (a crash, another server) or
  every day of both windows was stored from one property, or the deadline had passed; then its
  status is the one of the outcome that is stored with it, reached through the evaluation, and what
  it taught is stored for its tenant, unless the change is to the whole page.
\<close>

theorem round_settles_for_cause:
  assumes "measures_beside M" and "site_ok (mr_action_codec M) s"
    and "sync_window now (mr_lag_days M) window_size = Inr (oldest, newest_final)"
    and "site_actions (mr_action_codec M) s i = Some m"
  shows "let s' = snd (run_measurement_round M now s) in site_ok (mr_action_codec M) s' \<and> snd s' = snd s
    \<and> (site_actions (mr_action_codec M) s' i = Some m
       \<or> (\<exists>m'. site_actions (mr_action_codec M) s' i = Some m' \<and> settlement M newest_final s s' m m'))"
proof -
  have repo: "mr_repo M = beside memory_ops" "mr_warehouse M = snd" using assms(1) by (simp_all add: measures_beside_def)
  show ?thesis
    using measuring.round_settles [OF measuring_memory [OF assms(1)] _ assms(3), of s] assms(2,4)
    unfolding round_so_far_def repo Let_def by blast
qed

lemma round_settles_for_cause_witness:
  "\<exists>m'. site_actions (mr_action_codec plain_measurer) demo_round ''a'' = Some m' \<and> mg_status m' = SUCCEEDED
    \<and> settlement plain_measurer (-4) demo_crashed demo_round demo_waiting m'"
proof -
  note round = round_settles_for_cause [OF plain_measures demo_crashed_ok demo_final demo_crashed_stored, unfolded Let_def]
  have "site_actions (mr_action_codec plain_measurer) demo_round ''a'' \<noteq> Some demo_waiting"
    using demo_round_settles by (auto simp: demo_waiting_def)
  then show ?thesis using round demo_round_settles by auto
qed

lemma pending_in_request:
  "\<forall>x \<in> set xs. ev_reason x \<notin> rollback_gave_up \<Longrightarrow> ev_reason e = ''rollback_requested'' \<Longrightarrow> pending_in (xs @ e # ys)"
  by (induction xs) auto

text \<open>
  C20. A rollback the customer asked for comes first: once the request is in the action's history,
  a settlement from a copy read before it writes nothing and does not count as settled, and one
  from the action as stored waits, as long as the rollback has not ended without rolling back.
\<close>

theorem rollback_request_first:
  assumes "measures_beside M" and "site_ok (mr_action_codec M) s"
    and "site_actions (mr_action_codec M) s (mg_action_id m) = Some m0" and "managed_ok m" and "mg_status m \<in> watched"
    and "mg_history m0 = mg_history m @ e # es" and "ev_reason e = ''rollback_requested''"
    and "\<forall>x \<in> set es. ev_reason x \<notin> rollback_gave_up"
  shows "snd (settle_action M newest_final now m s) = s \<and> fst (settle_action M newest_final now m s) \<noteq> Inr True
    \<and> settle_action M newest_final now m0 s = (Inr False, s)"
proof (intro conjI)
  have repo: "mr_repo M = beside memory_ops" using assms(1) by (simp add: measures_beside_def)
  have acts: "action_store site_ops (\<lambda>s. mem_ok (fst s)) (\<lambda>s. mem_owner (fst s)) (mr_action_codec M)"
    by (rule measured_actions [OF assms(1)])
  have never: "settle_writes M now m oc s \<noteq> (Inr (), s')" for oc s'
  proof
    assume run: "settle_writes M now m oc s = (Inr (), s')"
    obtain s1 m' x s2 where one: "save_outcome M now m oc s = (Inr (), s1)"
        and ap: "apply_settled (mr_isoformat M) now m oc = Inr m'"
        and two: "action_update site_ops (mr_action_codec M) now m' s1 = (Inr x, s2)"
      using run unfolding settle_writes_def repo by (auto simp: of_result_def elim!: andthen_cases)
    obtain e' es' where es': "moved m m'" "mg_history m' = mg_history m @ e' # es'" "ev_reason e' \<in> settling_reasons"
      using apply_settled_ok [OF assms(4,5) ap] by (metis list.collapse)
    have s1: "site_ok (mr_action_codec M) s1" "site_actions (mr_action_codec M) s1 (mg_action_id m') = Some m0"
      using action_store.save_outcome_beside [OF acts assms(2) repo one] assms(3) es'(1) by (simp_all add: moved_def)
    have "e' \<noteq> e" using es'(3) assms(7) by (auto simp: settling_reasons_def)
    then have "\<not> prefix (mg_history m0) (mg_history m')" using es'(2) assms(6) by simp
    from action_store.update_stale [OF acts s1 this, of now] show False using two by simp
  qed
  obtain res s' where run: "settle_action M newest_final now m s = (res, s')" by (meson surj_pair)
  have "undoes_on_error (mr_transaction M)" using assms(1) by (simp add: measures_beside_def)
  from settle_cases [OF this run] have "s' = s \<and> res \<noteq> Inr True" using never by auto
  then show "snd (settle_action M newest_final now m s) = s" "fst (settle_action M newest_final now m s) \<noteq> Inr True" using run by simp_all
  have "rollback_pending m0"
    using pending_in_request [of "rev es" e "rev (mg_history m)"] assms(6-8) by (simp add: rollback_pending_def)
  then show "settle_action M newest_final now m0 s = (Inr False, s)" by (auto simp: settle_action_def ret_def split: option.splits)
qed

text \<open>The change of the demonstration, after the customer asked to take it back.\<close>

definition demo_asked :: managed where
  "demo_asked = demo_waiting\<lparr>mg_history := mg_history demo_waiting @
     [\<lparr>ev_at = 1, ev_status = MEASUREMENT_WINDOW_ACTIVE, ev_actor = ''jo'', ev_reason = ''rollback_requested'', ev_detail = []\<rparr>]\<rparr>"

definition demo_recalled :: "settled_doc memory \<times> warehouse" where
  "demo_recalled = snd (action_update site_ops (mr_action_codec plain_measurer) 1 demo_asked demo_crashed)"

lemma demo_recalled_stored:
  "site_ok (mr_action_codec plain_measurer) demo_recalled"
  "site_actions (mr_action_codec plain_measurer) demo_recalled ''a'' = Some demo_asked"
proof -
  let ?c = "mr_action_codec plain_measurer"
  have codec: "codec_ok managed_valid ?c" using plain_measures by (simp add: measures_beside_def)
  have ok: "managed_ok demo_asked"
    by (simp add: demo_asked_def managed_ok_def managed_valid_def lawful_def statuses_def step_allowed_def can_transition_def
      demo_waiting_def demo_plan_def action_valid_def unit_score_def)
  show "site_ok ?c demo_recalled"
    using keeps_state [OF action_store.keeps_update [OF actions_beside_memory [OF codec] ok] demo_crashed_ok]
    by (simp add: demo_recalled_def)
  show "site_actions ?c demo_recalled ''a'' = Some demo_asked" by code_simp
qed

lemma rollback_request_first_witness:
  "snd (settle_action plain_measurer 99 1 demo_waiting demo_recalled) = demo_recalled
    \<and> settle_action plain_measurer 99 1 demo_asked demo_recalled = (Inr False, demo_recalled)"
  using rollback_request_first [OF plain_measures demo_recalled_stored(1), of demo_waiting demo_asked _ "[]" 99 1]
    demo_waiting_ok demo_recalled_stored(2)
  by (simp add: demo_asked_def demo_waiting_def demo_plan_def watched_def)

end
