(* ===== verification/Tenancy.thy ===== *)
theory Tenancy
  imports Stores Guarantee
begin

text \<open>
  Tenants and the API keys that speak for them: \<open>app/models/tenants.py\<close>, \<open>app/tenancy/keys.py\<close>,
  \<open>app/tenancy/store.py\<close>, the operator's commands of \<open>app/tenants.py\<close> and the authenticators of
  \<open>app/api/auth.py\<close>. SHA-256 and PBKDF2 are arguments, and so are random draws and the clock; what
  the commands print is left out, what they return is not.
\<close>

section \<open>Tenants and keys\<close>

datatype tenant_status = TENANT_ACTIVE | TENANT_SUSPENDED

record tenant =
  tn_tenant_id :: string
  tn_name :: string
  tn_status :: tenant_status
  tn_created_at :: instant
  tn_updated_at :: instant

definition length_between :: "int \<Rightarrow> int \<Rightarrow> string \<Rightarrow> bool" where
  "length_between low high s \<longleftrightarrow> low \<le> int (length s) \<and> int (length s) \<le> high"

definition tenant_valid :: "tenant \<Rightarrow> bool" where
  "tenant_valid t \<longleftrightarrow> length_between 1 64 (tn_tenant_id t) \<and> length_between 1 200 (tn_name t)"

definition new_tenant :: "string \<Rightarrow> string \<Rightarrow> instant \<Rightarrow> exn + tenant" where
  "new_tenant tenant_id name now =
     (let t = \<lparr>tn_tenant_id = tenant_id, tn_name = name, tn_status = TENANT_ACTIVE,
               tn_created_at = now, tn_updated_at = now\<rparr>
      in if tenant_valid t then Inr t else Inl (Exn ValidationError ''Tenant''))"

record api_key =
  ak_key_id :: string
  ak_tenant_id :: string
  ak_digest :: string
  ak_label :: string
  ak_created_at :: instant
  ak_revoked_at :: "instant option"

definition api_key_valid :: "api_key \<Rightarrow> bool" where
  "api_key_valid k \<longleftrightarrow> length_between 1 64 (ak_key_id k) \<and> length_between 1 64 (ak_tenant_id k)
     \<and> length_between 64 64 (ak_digest k) \<and> length_between 0 200 (ak_label k)"

definition new_api_key :: "string \<Rightarrow> string \<Rightarrow> string \<Rightarrow> string \<Rightarrow> instant \<Rightarrow> exn + api_key" where
  "new_api_key key_id tenant digest label now =
     (let k = \<lparr>ak_key_id = key_id, ak_tenant_id = tenant, ak_digest = digest, ak_label = label,
               ak_created_at = now, ak_revoked_at = None\<rparr>
      in if api_key_valid k then Inr k else Inl (Exn ValidationError ''APIKeyRecord''))"

definition key_active :: "api_key \<Rightarrow> bool" where "key_active k \<longleftrightarrow> ak_revoked_at k = None"

section \<open>The shape of a key\<close>

abbreviation key_prefix :: string where "key_prefix \<equiv> ''seo''"
abbreviation key_separator :: char where "key_separator \<equiv> CHR ''_''"

record issued_key =
  ik_key_id :: string
  ik_secret :: string
  ik_digest :: string

definition token_of :: "issued_key \<Rightarrow> string" where
  "token_of k = key_prefix @ key_separator # ik_key_id k @ key_separator # ik_secret k"

definition digest_for :: "(string \<Rightarrow> string) \<Rightarrow> string \<Rightarrow> string \<Rightarrow> string" where
  "digest_for sha key_id secret = sha (key_id @ key_separator # secret)"

definition issue_key :: "(string \<Rightarrow> string) \<Rightarrow> string \<Rightarrow> string \<Rightarrow> issued_key" where
  "issue_key sha key_id secret = \<lparr>ik_key_id = key_id, ik_secret = secret, ik_digest = digest_for sha key_id secret\<rparr>"

text \<open>\<open>str.split(sep, n)\<close>: at most \<open>n\<close> splits.\<close>

fun split_at_most :: "char \<Rightarrow> nat \<Rightarrow> string \<Rightarrow> string list" where
  "split_at_most c 0 s = [s]"
| "split_at_most c (Suc n) s =
     (if c \<in> set s then takeWhile (\<lambda>x. x \<noteq> c) s # split_at_most c n (tl (dropWhile (\<lambda>x. x \<noteq> c) s)) else [s])"

definition parse_token :: "string \<Rightarrow> exn + string \<times> string" where
  "parse_token token =
     (case split_at_most key_separator 2 (py_strip token) of
        [p, key_id, secret] \<Rightarrow>
          if p \<noteq> key_prefix \<or> key_id = [] \<or> secret = []
          then Inl (Exn InvalidKeyFormat ''expected seo_<key_id>_<secret>'') else Inr (key_id, secret)
      | _ \<Rightarrow> Inl (Exn InvalidKeyFormat ''expected seo_<key_id>_<secret>''))"

definition looks_like_ours :: "string \<Rightarrow> bool" where
  "looks_like_ours token = (case parse_token token of Inl _ \<Rightarrow> False | Inr _ \<Rightarrow> True)"

definition key_matches :: "(string \<Rightarrow> string) \<Rightarrow> string \<Rightarrow> string \<Rightarrow> string \<Rightarrow> bool" where
  "key_matches sha key_id secret expected_digest \<longleftrightarrow> digest_for sha key_id secret = expected_digest"

section \<open>The stores\<close>

abbreviation tenant_kind :: string where "tenant_kind \<equiv> ''tenant''"
abbreviation key_kind :: string where "key_kind \<equiv> ''api_key''"

record ('s, 'p) tenancy =
  ty_repo :: "('s, 'p) repository_ops"
  ty_tenant :: "(tenant, 'p) codec"
  ty_key :: "(api_key, 'p) codec"
  ty_sha :: "string \<Rightarrow> string"

definition tenant_to_record :: "('s, 'p) tenancy \<Rightarrow> instant \<Rightarrow> tenant \<Rightarrow> int \<Rightarrow> exn + 'p precord" where
  "tenant_to_record T now t v =
     new_precord (rid ''tenant'' (tn_tenant_id t) v) tenant_kind (tn_tenant_id t) 1 v (model_dump (ty_tenant T) t) now
       (Some (tn_tenant_id t)) None"

definition tenant_create :: "('s, 'p) tenancy \<Rightarrow> instant \<Rightarrow> tenant \<Rightarrow> ('s, tenant) prog" where
  "tenant_create T now t =
     andthen (of_result (tenant_to_record T now t 1)) (\<lambda>r.
     andthen (updates (\<lambda>s. repo_create (ty_repo T) s r)) (\<lambda>_. ret t))"

definition tenant_find :: "('s, 'p) tenancy \<Rightarrow> string \<Rightarrow> ('s, tenant option) prog" where
  "tenant_find T i =
     andthen (reads (\<lambda>s. repo_get (ty_repo T) s tenant_kind i)) (\<lambda>found.
     case found of None \<Rightarrow> ret None
     | Some r \<Rightarrow> andthen (of_result (restore (ty_tenant T) (pr_payload r))) (\<lambda>t. ret (Some t)))"

definition tenant_get :: "('s, 'p) tenancy \<Rightarrow> string \<Rightarrow> ('s, tenant) prog" where
  "tenant_get T i =
     andthen (tenant_find T i) (\<lambda>found.
     case found of None \<Rightarrow> raise_exn (Exn PersistenceNotFoundError (''tenant not found: '' @ i)) | Some t \<Rightarrow> ret t)"

definition tenant_update :: "('s, 'p) tenancy \<Rightarrow> instant \<Rightarrow> tenant \<Rightarrow> ('s, tenant) prog" where
  "tenant_update T now t =
     andthen (reads (\<lambda>s. repo_get (ty_repo T) s tenant_kind (tn_tenant_id t))) (\<lambda>found.
     case found of None \<Rightarrow> raise_exn (Exn PersistenceNotFoundError (''tenant not found: '' @ tn_tenant_id t))
     | Some current \<Rightarrow>
         let updated = t\<lparr>tn_updated_at := now\<rparr> in
         andthen (of_result (tenant_to_record T now updated (pr_version current + 1))) (\<lambda>r.
         andthen (updates (\<lambda>s. repo_replace (ty_repo T) s r (pr_version current))) (\<lambda>_. ret updated)))"

definition tenant_list :: "('s, 'p) tenancy \<Rightarrow> ('s, tenant list) prog" where
  "tenant_list T =
     andthen (\<lambda>s. (repo_list (ty_repo T) s (Some tenant_kind) None, s)) (\<lambda>rs.
       of_result (collect (\<lambda>r. restore (ty_tenant T) (pr_payload r)) rs))"

definition key_to_record :: "('s, 'p) tenancy \<Rightarrow> instant \<Rightarrow> api_key \<Rightarrow> int \<Rightarrow> exn + 'p precord" where
  "key_to_record T now k v =
     new_precord (rid ''api-key'' (ak_key_id k) v) key_kind (ak_key_id k) 1 v (model_dump (ty_key T) k) now
       (Some (ak_tenant_id k)) None"

definition key_create :: "('s, 'p) tenancy \<Rightarrow> instant \<Rightarrow> api_key \<Rightarrow> ('s, api_key) prog" where
  "key_create T now k =
     andthen (of_result (key_to_record T now k 1)) (\<lambda>r.
     andthen (updates (\<lambda>s. repo_create (ty_repo T) s r)) (\<lambda>_. ret k))"

definition key_find :: "('s, 'p) tenancy \<Rightarrow> string \<Rightarrow> ('s, api_key option) prog" where
  "key_find T i =
     andthen (reads (\<lambda>s. repo_get (ty_repo T) s key_kind i)) (\<lambda>found.
     case found of None \<Rightarrow> ret None
     | Some r \<Rightarrow> andthen (of_result (restore (ty_key T) (pr_payload r))) (\<lambda>k. ret (Some k)))"

definition key_revoke :: "('s, 'p) tenancy \<Rightarrow> instant \<Rightarrow> string \<Rightarrow> ('s, api_key) prog" where
  "key_revoke T now i =
     andthen (reads (\<lambda>s. repo_get (ty_repo T) s key_kind i)) (\<lambda>found.
     case found of None \<Rightarrow> raise_exn (Exn PersistenceNotFoundError (''api key not found: '' @ i))
     | Some current \<Rightarrow>
         andthen (of_result (restore (ty_key T) (pr_payload current))) (\<lambda>existing.
         if \<not> key_active existing then ret existing
         else
           let revoked = existing\<lparr>ak_revoked_at := Some now\<rparr> in
           andthen (of_result (key_to_record T now revoked (pr_version current + 1))) (\<lambda>r.
           andthen (updates (\<lambda>s. repo_replace (ty_repo T) s r (pr_version current))) (\<lambda>_. ret revoked))))"

definition keys_of_tenant :: "('s, 'p) tenancy \<Rightarrow> string \<Rightarrow> ('s, api_key list) prog" where
  "keys_of_tenant T tenant =
     andthen (\<lambda>s. (repo_list (ty_repo T) s (Some key_kind) None, s)) (\<lambda>rs.
     andthen (of_result (collect (\<lambda>r. restore (ty_key T) (pr_payload r)) rs)) (\<lambda>ks.
       ret (filter (\<lambda>k. ak_tenant_id k = tenant) ks)))"

section \<open>The operator's commands\<close>

datatype tenant_command =
    ListTenants
  | CreateTenant (cmd_name: string) (cmd_no_key: bool)
  | IssueKey (cmd_tenant: string) (cmd_label: string)
  | RevokeKey (cmd_key_id: string)
  | SetStatus (cmd_tenant: string) (cmd_status: tenant_status)

text \<open>What a command draws: sixteen hexadecimal digits of a tenant id, and a key's id and secret.\<close>

record drawn =
  dr_tenant :: string
  dr_key_id :: string
  dr_secret :: string

definition issue_to :: "('s, 'p) tenancy \<Rightarrow> instant \<Rightarrow> drawn \<Rightarrow> string \<Rightarrow> string \<Rightarrow> ('s, int) prog" where
  "issue_to T now dr tenant label =
     (let issued = issue_key (ty_sha T) (dr_key_id dr) (dr_secret dr) in
      andthen (of_result (new_api_key (ik_key_id issued) tenant (ik_digest issued) label now)) (\<lambda>k.
      andthen (key_create T now k) (\<lambda>_. ret 0)))"

fun list_keys :: "('s, 'p) tenancy \<Rightarrow> tenant list \<Rightarrow> ('s, int) prog" where
  "list_keys T [] = ret 0"
| "list_keys T (t # ts) = andthen (keys_of_tenant T (tn_tenant_id t)) (\<lambda>_. list_keys T ts)"

fun tenant_admin :: "('s, 'p) tenancy \<Rightarrow> instant \<Rightarrow> drawn \<Rightarrow> tenant_command \<Rightarrow> ('s, int) prog" where
  "tenant_admin T now dr ListTenants =
     andthen (tenant_list T) (\<lambda>ts. list_keys T (sort_key tn_created_at ts))"
| "tenant_admin T now dr (CreateTenant name no_key) =
     andthen (of_result (new_tenant (''t-'' @ dr_tenant dr) name now)) (\<lambda>t.
     andthen (tenant_create T now t) (\<lambda>_.
       if no_key then ret 0 else issue_to T now dr (tn_tenant_id t) ''initial''))"
| "tenant_admin T now dr (IssueKey tenant label) =
     andthen (tenant_find T tenant) (\<lambda>found. if found = None then ret 1 else issue_to T now dr tenant label)"
| "tenant_admin T now dr (RevokeKey key_id) =
     andthen (key_find T key_id) (\<lambda>found.
       if found = None then ret 1 else andthen (key_revoke T now key_id) (\<lambda>_. ret 0))"
| "tenant_admin T now dr (SetStatus tenant status) =
     andthen (tenant_find T tenant) (\<lambda>found.
     case found of None \<Rightarrow> ret 1
     | Some t \<Rightarrow> andthen (tenant_update T now (t\<lparr>tn_status := status\<rparr>)) (\<lambda>_. ret 0))"

section \<open>Who a request speaks for\<close>

record bearer =
  be_scheme :: string
  be_credentials :: string

record hashed_key =
  hk_salt :: string
  hk_digest :: string
  hk_iterations :: int
  hk_principal :: string

definition unauthorized :: "string \<Rightarrow> exn" where "unauthorized detail = Exn (HTTPException 401) detail"

text \<open>\<open>derive\<close> is PBKDF2 with the given salt and iterations; the salt is drawn.\<close>

definition new_hashed_key ::
  "(string \<Rightarrow> string \<Rightarrow> int \<Rightarrow> string) \<Rightarrow> string \<Rightarrow> string \<Rightarrow> string \<Rightarrow> int \<Rightarrow> exn + hashed_key" where
  "new_hashed_key derive salt expected_key principal_id iterations =
     (if expected_key = [] \<or> py_strip expected_key = [] then Inl (Exn ValueError ''expected_key cannot be empty'')
      else if iterations < 100000 then Inl (Exn ValueError ''iterations must be at least 100000'')
      else Inr \<lparr>hk_salt = salt, hk_digest = derive expected_key salt iterations, hk_iterations = iterations,
                hk_principal = principal_id\<rparr>)"

definition authenticate_single ::
  "(string \<Rightarrow> string \<Rightarrow> int \<Rightarrow> string) \<Rightarrow> hashed_key \<Rightarrow> bearer option \<Rightarrow> exn + string" where
  "authenticate_single derive h credentials = (case credentials of
     None \<Rightarrow> Inl (unauthorized ''Authentication required.'')
   | Some b \<Rightarrow>
       if map lower_latin (be_scheme b) \<noteq> ''bearer'' then Inl (unauthorized ''Invalid authentication scheme.'')
       else if derive (be_credentials b) (hk_salt h) (hk_iterations h) \<noteq> hk_digest h
       then Inl (unauthorized ''Invalid credentials.'')
       else Inr (hk_principal h))"

text \<open>\<open>TenantAPIKeyAuthenticator\<close> with its tenant store, as the service builds it; \<open>admin\<close> is the hashed admin key.\<close>

definition authenticate ::
  "('s, 'p) tenancy \<Rightarrow> (string \<Rightarrow> string \<Rightarrow> int \<Rightarrow> string) \<Rightarrow> hashed_key option \<Rightarrow> bearer option \<Rightarrow> ('s, string) prog" where
  "authenticate T derive admin credentials = (case credentials of
     None \<Rightarrow> raise_exn (unauthorized ''Authentication required.'')
   | Some b \<Rightarrow>
       if map lower_latin (be_scheme b) \<noteq> ''bearer'' then raise_exn (unauthorized ''Invalid authentication scheme.'')
       else case parse_token (be_credentials b) of
         Inl _ \<Rightarrow> (case admin of
             Some h \<Rightarrow> of_result (authenticate_single derive h credentials)
           | None \<Rightarrow> raise_exn (unauthorized ''Invalid credentials.''))
       | Inr (key_id, secret) \<Rightarrow>
           andthen (key_find T key_id) (\<lambda>found.
           case found of
             None \<Rightarrow> raise_exn (unauthorized ''Invalid credentials.'')
           | Some k \<Rightarrow>
               if \<not> key_active k then raise_exn (unauthorized ''Invalid credentials.'')
               else if \<not> key_matches (ty_sha T) key_id secret (ak_digest k)
               then raise_exn (unauthorized ''Invalid credentials.'')
               else andthen (tenant_find T (ak_tenant_id k)) (\<lambda>t.
                 case t of
                   None \<Rightarrow> raise_exn (unauthorized ''Invalid credentials.'')
                 | Some t \<Rightarrow>
                     if tn_status t \<noteq> TENANT_ACTIVE
                     then raise_exn (Exn (HTTPException 403) ''This account is suspended.'')
                     else ret (ak_tenant_id k))))"

end
