(* ===== verification/Accounts.thy ===== *)
theory Accounts
  imports Tenancy Limiter
begin

text \<open>
  The people who sign in: \<open>app/accounts/models.py\<close>, \<open>passwords.py\<close>, \<open>store.py\<close>, \<open>service.py\<close>
  (\<open>AttemptLimiter\<close> is in Limiter) and the operator's commands of \<open>__main__.py\<close>. Accounts, the
  index records they are found by, sessions and tenants live in one repository. scrypt, base64,
  SHA-256, random draws, the clock and the repository's transaction are arguments. Opening a session
  is two definitions, before and after the account is read again, so that what others do in between
  can be stated.
\<close>

section \<open>Passwords\<close>

abbreviation (input) scrypt_n :: int where "scrypt_n \<equiv> 16384"
abbreviation (input) scrypt_r :: int where "scrypt_r \<equiv> 8"
abbreviation (input) scrypt_p :: int where "scrypt_p \<equiv> 1"
abbreviation password_min :: int where "password_min \<equiv> 10"
abbreviation password_max :: int where "password_max \<equiv> 256"

record hashing =
  hs_derive :: "string \<Rightarrow> string \<Rightarrow> int \<Rightarrow> int \<Rightarrow> int \<Rightarrow> exn + string"
  hs_b64 :: "string \<Rightarrow> string"
  hs_unb64 :: "string \<Rightarrow> exn + string"
  hs_int :: "string \<Rightarrow> exn + int"

text \<open>\<open>except ValueError\<close> catches its subclasses.\<close>

definition is_value_error :: "exn \<Rightarrow> bool" where
  "is_value_error e \<longleftrightarrow> exn_class e \<in> {ValueError, ValidationError, InvalidKeyFormat, WeakPasswordError}"

definition check_strength :: "string \<Rightarrow> exn + unit" where
  "check_strength password =
     (if int (length password) < password_min
      then Inl (Exn WeakPasswordError ''A password needs at least 10 characters.'')
      else if password_max < int (length password)
      then Inl (Exn WeakPasswordError ''A password can have at most 256 characters.'')
      else Inr ())"

text \<open>The first four fields of what is stored.\<close>

definition scrypt_head :: string where
  "scrypt_head = py_join ''$'' [''scrypt'', show_int scrypt_n, show_int scrypt_r, show_int scrypt_p]"

lemma scrypt_head_text [code]: "scrypt_head = ''scrypt$16384$8$1''"
proof -
  have "digit 1 = CHR ''1''" "digit 3 = CHR ''3''" "digit 4 = CHR ''4''" "digit 6 = CHR ''6''" "digit 8 = CHR ''8''" by code_simp+
  then have "show_int 16384 = ''16384''" "show_int 8 = ''8''" "show_int 1 = ''1''"
    by (simp_all add: show_int_def show_nat.simps)
  then show ?thesis by (simp add: scrypt_head_def)
qed

definition hash_password :: "hashing \<Rightarrow> string \<Rightarrow> string \<Rightarrow> exn + string" where
  "hash_password H salt password =
     and_maybe (check_strength password) (\<lambda>_.
     and_maybe (hs_derive H password salt scrypt_n scrypt_r scrypt_p) (\<lambda>key.
       Inr (py_join ''$'' [scrypt_head, hs_b64 H salt, hs_b64 H key])))"

definition split_all :: "char \<Rightarrow> string \<Rightarrow> string list" where
  "split_all c s = split_at_most c (length s) s"

text \<open>The body of the \<open>try\<close>.\<close>

definition compare_password :: "hashing \<Rightarrow> string \<Rightarrow> string \<Rightarrow> exn + bool" where
  "compare_password H password hashed =
     (case split_all (CHR ''$'') hashed of
        [scheme, n, r, p, salt, key] \<Rightarrow>
          if scheme \<noteq> ''scrypt'' then Inr False
          else and_maybe (hs_unb64 H key) (\<lambda>expected_key.
               and_maybe (hs_unb64 H salt) (\<lambda>salt'.
               and_maybe (hs_int H n) (\<lambda>n'. and_maybe (hs_int H r) (\<lambda>r'. and_maybe (hs_int H p) (\<lambda>p'.
               and_maybe (hs_derive H password salt' n' r' p') (\<lambda>actual. Inr (actual = expected_key)))))))
      | _ \<Rightarrow> Inl (Exn ValueError ''unpack''))"

definition verify_password :: "hashing \<Rightarrow> string \<Rightarrow> string option \<Rightarrow> exn + bool" where
  "verify_password H password hashed =
     (if hashed = None \<or> hashed = Some [] \<or> password_max < int (length password)
      then and_maybe (hs_derive H (if take (nat password_max) password = [] then ''x'' else take (nat password_max) password)
             (replicate 16 (char_of (0::nat))) scrypt_n scrypt_r scrypt_p) (\<lambda>_. Inr False)
      else case compare_password H password (the hashed) of
          Inr same \<Rightarrow> Inr same
        | Inl e \<Rightarrow> if is_value_error e \<or> exn_class e = TypeError then Inr False else Inl e)"

definition needs_rehash :: "hashing \<Rightarrow> string \<Rightarrow> exn + bool" where
  "needs_rehash H hashed =
     (case (case split_all (CHR ''$'') hashed of
        scheme # n # r # p # _ \<Rightarrow>
          if scheme \<noteq> ''scrypt'' then Inr True
          else and_maybe (hs_int H n) (\<lambda>n'. and_maybe (hs_int H r) (\<lambda>r'. and_maybe (hs_int H p) (\<lambda>p'.
                 Inr ((n', r', p') \<noteq> (scrypt_n, scrypt_r, scrypt_p)))))
      | _ \<Rightarrow> Inl (Exn ValueError ''unpack'')) of
        Inr b \<Rightarrow> Inr b
      | Inl e \<Rightarrow> if is_value_error e then Inr True else Inl e)"

section \<open>Accounts and sessions\<close>

datatype account_status = ACCOUNT_ACTIVE | ACCOUNT_DISABLED

record account =
  acc_account_id :: string
  acc_tenant_id :: string
  acc_email :: "string option"
  acc_mobile :: "string option"
  acc_terms_accepted_at :: "instant option"
  acc_status :: account_status
  acc_password_hash :: "string option"
  acc_google_subject :: "string option"
  acc_google_link_allowed :: bool
  acc_session_generation :: int
  acc_created_at :: instant
  acc_updated_at :: instant
  acc_last_login_at :: "instant option"

definition mobile_shape :: "string \<Rightarrow> bool" where
  "mobile_shape m \<longleftrightarrow> length m = 11 \<and> take 2 m = ''09'' \<and> (\<forall>c \<in> set m. CHR ''0'' \<le> c \<and> c \<le> CHR ''9'')"

definition account_valid :: "account \<Rightarrow> bool" where
  "account_valid a \<longleftrightarrow> length_between 1 64 (acc_account_id a) \<and> length_between 1 64 (acc_tenant_id a)
     \<and> (case acc_email a of None \<Rightarrow> True | Some e \<Rightarrow> length_between 3 254 e)
     \<and> (case acc_mobile a of None \<Rightarrow> True | Some m \<Rightarrow> mobile_shape m)
     \<and> 0 \<le> acc_session_generation a \<and> (acc_email a \<noteq> None \<or> acc_mobile a \<noteq> None)"

definition new_account ::
  "string \<Rightarrow> string \<Rightarrow> string option \<Rightarrow> string option \<Rightarrow> instant option \<Rightarrow> string option \<Rightarrow> instant \<Rightarrow> exn + account" where
  "new_account account_id tenant email mobile terms password_hash now =
     (let a = \<lparr>acc_account_id = account_id, acc_tenant_id = tenant, acc_email = email, acc_mobile = mobile,
               acc_terms_accepted_at = terms, acc_status = ACCOUNT_ACTIVE, acc_password_hash = password_hash,
               acc_google_subject = None, acc_google_link_allowed = True, acc_session_generation = 0,
               acc_created_at = now, acc_updated_at = now, acc_last_login_at = None\<rparr>
      in if account_valid a then Inr a else Inl (Exn ValidationError ''Account''))"

datatype login_method = PASSWORD_LOGIN | GOOGLE_LOGIN | SMS_LOGIN

record session =
  se_token_hash :: string
  se_account_id :: string
  se_tenant_id :: string
  se_method :: login_method
  se_generation :: int
  se_csrf_token :: string
  se_created_at :: instant
  se_expires_at :: instant
  se_last_seen_at :: instant
  se_revoked_at :: "instant option"

definition session_valid :: "session \<Rightarrow> bool" where
  "session_valid x \<longleftrightarrow> length_between 64 64 (se_token_hash x) \<and> 0 \<le> se_generation x"

section \<open>The store of accounts\<close>

abbreviation account_kind :: string where "account_kind \<equiv> ''account''"
abbreviation email_kind :: string where "email_kind \<equiv> ''account_email''"
abbreviation mobile_kind :: string where "mobile_kind \<equiv> ''account_mobile''"
abbreviation google_kind :: string where "google_kind \<equiv> ''account_google''"
abbreviation session_kind :: string where "session_kind \<equiv> ''session''"

record ('s, 'p) accounts =
  as_repo :: "('s, 'p) repository_ops"
  as_account :: "(account, 'p) codec"
  as_session :: "(session, 'p) codec"
  as_index :: "(string option, 'p) codec"
  as_tenancy :: "('s, 'p) tenancy"
  as_transaction :: "('s, account) prog \<Rightarrow> ('s, account) prog"
  as_clock :: "'s \<Rightarrow> instant"
  as_hashing :: hashing
  as_sha :: "string \<Rightarrow> string"

definition normalize_email :: "string \<Rightarrow> string" where
  "normalize_email email = map lower_latin (py_strip email)"

definition later_than :: "instant \<Rightarrow> instant \<Rightarrow> instant" where
  "later_than now previous = (if previous < now then now else previous + 1)"

text \<open>Writing the record a function of the clock gives.\<close>

definition create_record :: "('s, 'p) accounts \<Rightarrow> (instant \<Rightarrow> exn + 'p precord) \<Rightarrow> ('s, unit) prog" where
  "create_record A r = (\<lambda>s. andthen (of_result (r (as_clock A s))) (\<lambda>x. updates (\<lambda>s. repo_create (as_repo A) s x)) s)"

definition replace_record :: "('s, 'p) accounts \<Rightarrow> (instant \<Rightarrow> exn + 'p precord) \<Rightarrow> int \<Rightarrow> ('s, unit) prog" where
  "replace_record A r v = (\<lambda>s. andthen (of_result (r (as_clock A s))) (\<lambda>x. updates (\<lambda>s. repo_replace (as_repo A) s x v)) s)"

definition account_to_record :: "('s, 'p) accounts \<Rightarrow> account \<Rightarrow> int \<Rightarrow> instant \<Rightarrow> exn + 'p precord" where
  "account_to_record A a v now =
     new_precord (rid account_kind (acc_account_id a) v) account_kind (acc_account_id a) 1 v (model_dump (as_account A) a) now
       (Some (acc_tenant_id a)) None"

definition session_to_record :: "('s, 'p) accounts \<Rightarrow> session \<Rightarrow> int \<Rightarrow> instant \<Rightarrow> exn + 'p precord" where
  "session_to_record A x v now =
     new_precord (rid session_kind (se_token_hash x) v) session_kind (se_token_hash x) 1 v (model_dump (as_session A) x) now
       (Some (se_tenant_id x)) None"

definition index_to_record ::
  "('s, 'p) accounts \<Rightarrow> string \<Rightarrow> string \<Rightarrow> string option \<Rightarrow> string option \<Rightarrow> int \<Rightarrow> instant \<Rightarrow> exn + 'p precord" where
  "index_to_record A kind k account_id tenant v now =
     new_precord (rid kind k v) kind k 1 v (model_dump (as_index A) account_id) now tenant None"

text \<open>\<open>except PersistenceConflictError: raise e from None\<close>\<close>

definition on_conflict :: "exn \<Rightarrow> ('s, 'a) prog \<Rightarrow> ('s, 'a) prog" where
  "on_conflict e p = attempt p (\<lambda>x. raise_exn (if is_conflict x then e else x))"

definition account_create :: "('s, 'p) accounts \<Rightarrow> account \<Rightarrow> ('s, account) prog" where
  "account_create A a = as_transaction A (
     andthen (case acc_email a of None \<Rightarrow> ret ()
       | Some e \<Rightarrow> on_conflict (Exn AccountExistsError (''An account with this email already exists: '' @ e))
           (create_record A (index_to_record A email_kind e (Some (acc_account_id a)) (Some (acc_tenant_id a)) 1))) (\<lambda>_.
     andthen (case acc_mobile a of None \<Rightarrow> ret ()
       | Some m \<Rightarrow> on_conflict (Exn AccountExistsError ''An account with this mobile number already exists.'')
           (create_record A (index_to_record A mobile_kind m (Some (acc_account_id a)) (Some (acc_tenant_id a)) 1))) (\<lambda>_.
     andthen (create_record A (account_to_record A a 1)) (\<lambda>_. ret a))))"

definition account_get :: "('s, 'p) accounts \<Rightarrow> string \<Rightarrow> ('s, account option) prog" where
  "account_get A i =
     andthen (reads (\<lambda>s. repo_get (as_repo A) s account_kind i)) (\<lambda>found.
     case found of None \<Rightarrow> ret None
     | Some r \<Rightarrow> andthen (of_result (restore (as_account A) (pr_payload r))) (\<lambda>a. ret (Some a)))"

text \<open>The account an index record points to, with the record's version.\<close>

definition index_read :: "('s, 'p) accounts \<Rightarrow> string \<Rightarrow> string \<Rightarrow> ('s, (string option \<times> int) option) prog" where
  "index_read A kind k =
     andthen (reads (\<lambda>s. repo_get (as_repo A) s kind k)) (\<lambda>found.
     case found of None \<Rightarrow> ret None
     | Some r \<Rightarrow> andthen (of_result (restore (as_index A) (pr_payload r))) (\<lambda>i. ret (Some (i, pr_version r))))"

definition by_index :: "('s, 'p) accounts \<Rightarrow> string \<Rightarrow> string \<Rightarrow> ('s, account option) prog" where
  "by_index A kind k =
     andthen (index_read A kind k) (\<lambda>found.
     case found of Some (Some i, _) \<Rightarrow> account_get A i | _ \<Rightarrow> ret None)"

definition by_mobile :: "('s, 'p) accounts \<Rightarrow> string \<Rightarrow> ('s, account option) prog" where
  "by_mobile A mobile = by_index A mobile_kind mobile"

definition by_email :: "('s, 'p) accounts \<Rightarrow> string \<Rightarrow> ('s, account option) prog" where
  "by_email A email = by_index A email_kind (normalize_email email)"

text \<open>An empty id points nowhere, too.\<close>

definition points_to :: "(string option \<times> int) option \<Rightarrow> string option" where
  "points_to found = (case found of Some (Some i, _) \<Rightarrow> if i = [] then None else Some i | _ \<Rightarrow> None)"

definition by_google_subject :: "('s, 'p) accounts \<Rightarrow> string \<Rightarrow> ('s, account option) prog" where
  "by_google_subject A subject =
     andthen (index_read A google_kind subject) (\<lambda>found.
     case points_to found of None \<Rightarrow> ret None | Some i \<Rightarrow> account_get A i)"

definition account_changed :: "string \<Rightarrow> exn" where
  "account_changed i = Exn AccountChangedError (''account changed while being written: '' @ i)"

definition account_update :: "('s, 'p) accounts \<Rightarrow> account \<Rightarrow> ('s, account) prog" where
  "account_update A a =
     andthen (reads (\<lambda>s. repo_get (as_repo A) s account_kind (acc_account_id a))) (\<lambda>found.
     case found of
       None \<Rightarrow> raise_exn (Exn LookupError (''account not found: '' @ acc_account_id a))
     | Some current \<Rightarrow>
         andthen (of_result (restore (as_account A) (pr_payload current))) (\<lambda>stored.
         if acc_updated_at stored \<noteq> acc_updated_at a
         then raise_exn (Exn AccountChangedError (''account changed since it was read: '' @ acc_account_id a))
         else
           andthen (reads (\<lambda>s. a\<lparr>acc_updated_at := later_than (as_clock A s) (acc_updated_at a)\<rparr>)) (\<lambda>written.
           andthen (on_conflict (account_changed (acc_account_id a))
             (replace_record A (account_to_record A written (pr_version current + 1)) (pr_version current))) (\<lambda>_.
             ret written))))"

definition claim_google :: "('s, 'p) accounts \<Rightarrow> string \<Rightarrow> string \<Rightarrow> ('s, unit) prog" where
  "claim_google A account_id subject =
     (let taken = Exn AccountExistsError ''This Google account is already linked to an account.'' in
      andthen (index_read A google_kind subject) (\<lambda>index.
      if points_to index \<noteq> None then raise_exn taken
      else on_conflict taken
        (case index of
           None \<Rightarrow> create_record A (index_to_record A google_kind subject (Some account_id) None 1)
         | Some (_, v) \<Rightarrow> replace_record A (index_to_record A google_kind subject (Some account_id) None (v + 1)) v)))"

definition bind_once :: "('s, 'p) accounts \<Rightarrow> string \<Rightarrow> string \<Rightarrow> ('s, account) prog" where
  "bind_once A account_id subject = as_transaction A (
     andthen (account_get A account_id) (\<lambda>found.
     case found of
       None \<Rightarrow> raise_exn (Exn AccountExistsError ''This account cannot take this Google account.'')
     | Some current \<Rightarrow>
         if acc_status current \<noteq> ACCOUNT_ACTIVE \<or> \<not> acc_google_link_allowed current
            \<or> acc_google_subject current \<notin> {None, Some subject}
         then raise_exn (Exn AccountExistsError ''This account cannot take this Google account.'')
         else andthen (claim_google A account_id subject) (\<lambda>_.
              account_update A (current\<lparr>acc_google_subject := Some subject\<rparr>))))"

fun bind_tries :: "('s, 'p) accounts \<Rightarrow> nat \<Rightarrow> string \<Rightarrow> string \<Rightarrow> ('s, account) prog" where
  "bind_tries A 0 account_id subject = raise_exn (Exn AccountChangedError (''account kept changing: '' @ account_id))"
| "bind_tries A (Suc n) account_id subject =
     attempt (bind_once A account_id subject)
       (\<lambda>e. if exn_class e = AccountChangedError then bind_tries A n account_id subject else raise_exn e)"

definition bind_google :: "('s, 'p) accounts \<Rightarrow> account \<Rightarrow> string \<Rightarrow> ('s, account) prog" where
  "bind_google A a subject = bind_tries A 3 (acc_account_id a) subject"

definition empty_google :: "('s, 'p) accounts \<Rightarrow> account \<Rightarrow> ('s, unit) prog" where
  "empty_google A a = (case acc_google_subject a of
       None \<Rightarrow> ret ()
     | Some subject \<Rightarrow>
         if subject = [] then ret ()
         else andthen (index_read A google_kind subject) (\<lambda>index.
           case index of
             Some (Some i, v) \<Rightarrow>
               if i = acc_account_id a
               then on_conflict (account_changed (acc_account_id a))
                 (replace_record A (index_to_record A google_kind subject None None (v + 1)) v)
               else ret ()
           | _ \<Rightarrow> ret ()))"

text \<open>\<open>changes\<close> are the other fields written in the same update.\<close>

definition store_unlink_google :: "('s, 'p) accounts \<Rightarrow> account \<Rightarrow> (account \<Rightarrow> account) \<Rightarrow> ('s, account) prog" where
  "store_unlink_google A a changes = as_transaction A (
     andthen (empty_google A a) (\<lambda>_.
       account_update A (changes (a\<lparr>acc_google_subject := None, acc_google_link_allowed := False\<rparr>))))"

definition accounts_of_tenant :: "('s, 'p) accounts \<Rightarrow> string \<Rightarrow> ('s, account list) prog" where
  "accounts_of_tenant A tenant =
     andthen (\<lambda>s. (repo_list (as_repo A) s (Some account_kind) None, s)) (\<lambda>rs.
       of_result (collect (\<lambda>r. restore (as_account A) (pr_payload r)) (filter (\<lambda>r. pr_tenant_id r = Some tenant) rs)))"

section \<open>The store of sessions\<close>

definition session_create :: "('s, 'p) accounts \<Rightarrow> session \<Rightarrow> ('s, session) prog" where
  "session_create A x = andthen (create_record A (session_to_record A x 1)) (\<lambda>_. ret x)"

definition session_get :: "('s, 'p) accounts \<Rightarrow> string \<Rightarrow> ('s, (session \<times> int) option) prog" where
  "session_get A h =
     andthen (reads (\<lambda>s. repo_get (as_repo A) s session_kind h)) (\<lambda>found.
     case found of None \<Rightarrow> ret None
     | Some r \<Rightarrow> andthen (of_result (restore (as_session A) (pr_payload r))) (\<lambda>x. ret (Some (x, pr_version r))))"

definition session_replace :: "('s, 'p) accounts \<Rightarrow> session \<Rightarrow> int \<Rightarrow> ('s, session) prog" where
  "session_replace A x v = andthen (replace_record A (session_to_record A x (v + 1)) v) (\<lambda>_. ret x)"

section \<open>Signing in\<close>

abbreviation session_lifetime :: int where "session_lifetime \<equiv> days 14"
abbreviation idle_timeout :: int where "idle_timeout \<equiv> days 3"
abbreviation touch_every :: int where "touch_every \<equiv> minutes 10"
abbreviation generic_refusal :: string where "generic_refusal \<equiv> ''The email or password is not correct.''"
abbreviation google_refusal :: string where "google_refusal \<equiv> ''There is no HoshyarSEO account for this Google account.''"
abbreviation mobile_refusal :: string where "mobile_refusal \<equiv> ''This account cannot sign in.''"
abbreviation suspended_message :: string where
  "suspended_message \<equiv> ''This account is suspended. Contact HoshyarSEO support.''"

text \<open>The text of a token is ASCII, or encoding it raises.\<close>

definition token_hash :: "('s, 'p) accounts \<Rightarrow> string \<Rightarrow> exn + string" where
  "token_hash A token =
     (if \<forall>c \<in> set token. of_char c < (128::nat) then Inr (as_sha A token) else Inl (Exn ValueError ''ascii''))"

definition tenant_active :: "('s, 'p) accounts \<Rightarrow> string \<Rightarrow> ('s, bool) prog" where
  "tenant_active A tenant =
     andthen (tenant_find (as_tenancy A) tenant) (\<lambda>t.
       ret (case t of None \<Rightarrow> False | Some t \<Rightarrow> tn_status t = TENANT_ACTIVE))"

definition require_active_tenant :: "('s, 'p) accounts \<Rightarrow> account \<Rightarrow> ('s, unit) prog" where
  "require_active_tenant A a =
     andthen (tenant_active A (acc_tenant_id a)) (\<lambda>active.
       if active then ret () else raise_exn (Exn SignInError suspended_message))"

definition refusal :: "login_method \<Rightarrow> string" where
  "refusal m = (case m of PASSWORD_LOGIN \<Rightarrow> generic_refusal | GOOGLE_LOGIN \<Rightarrow> google_refusal | SMS_LOGIN \<Rightarrow> mobile_refusal)"

text \<open>\<open>_open\<close> up to the second reading of the account, and from it on.\<close>

definition open_create :: "('s, 'p) accounts \<Rightarrow> account \<Rightarrow> login_method \<Rightarrow> string \<Rightarrow> string \<Rightarrow> ('s, session) prog" where
  "open_create A a m token csrf =
     andthen (require_active_tenant A a) (\<lambda>_.
     andthen (reads (as_clock A)) (\<lambda>now.
     andthen (of_result (token_hash A token)) (\<lambda>h.
     let x = \<lparr>se_token_hash = h, se_account_id = acc_account_id a, se_tenant_id = acc_tenant_id a, se_method = m,
              se_generation = acc_session_generation a, se_csrf_token = csrf, se_created_at = now,
              se_expires_at = now + session_lifetime, se_last_seen_at = now, se_revoked_at = None\<rparr>
     in if session_valid x then session_create A x else raise_exn (Exn ValidationError ''Session''))))"

definition open_confirm ::
  "('s, 'p) accounts \<Rightarrow> (account \<Rightarrow> bool) \<Rightarrow> string \<Rightarrow> session \<Rightarrow> ('s, string \<times> session) prog" where
  "open_confirm A still_valid token x =
     andthen (account_get A (se_account_id x)) (\<lambda>found.
     case found of
       Some current \<Rightarrow>
         if acc_status current \<noteq> ACCOUNT_ACTIVE \<or> acc_session_generation current \<noteq> se_generation x \<or> \<not> still_valid current
         then andthen (session_replace A (x\<lparr>se_revoked_at := Some (se_created_at x)\<rparr>) 1) (\<lambda>_.
              raise_exn (Exn SignInError (refusal (se_method x))))
         else andthen (attempt (andthen (account_update A (current\<lparr>acc_last_login_at := Some (se_created_at x)\<rparr>)) (\<lambda>_. ret ()))
                (\<lambda>e. if exn_class e = AccountChangedError then ret () else raise_exn e)) (\<lambda>_. ret (token, x))
     | None \<Rightarrow> andthen (session_replace A (x\<lparr>se_revoked_at := Some (se_created_at x)\<rparr>) 1) (\<lambda>_.
         raise_exn (Exn SignInError (refusal (se_method x)))))"

definition open_session ::
  "('s, 'p) accounts \<Rightarrow> account \<Rightarrow> login_method \<Rightarrow> (account \<Rightarrow> bool) \<Rightarrow> string \<Rightarrow> string \<Rightarrow> ('s, string \<times> session) prog" where
  "open_session A a m still_valid token csrf =
     andthen (open_create A a m token csrf) (\<lambda>x. open_confirm A still_valid token x)"

text \<open>With a password: what is done before the attempt counts as right, and after.\<close>

definition password_account :: "('s, 'p) accounts \<Rightarrow> string \<Rightarrow> string \<Rightarrow> ('s, account) prog" where
  "password_account A email password =
     andthen (by_email A email) (\<lambda>found.
     andthen (of_result (verify_password (as_hashing A) password (case found of None \<Rightarrow> None | Some a \<Rightarrow> acc_password_hash a))) (\<lambda>right.
     case found of
       Some a \<Rightarrow> if \<not> right \<or> acc_status a \<noteq> ACCOUNT_ACTIVE then raise_exn (Exn SignInError generic_refusal) else ret a
     | None \<Rightarrow> if \<not> right then raise_exn (Exn SignInError generic_refusal) else raise_exn (Exn AttributeError ''status'')))"

definition password_open :: "('s, 'p) accounts \<Rightarrow> account \<Rightarrow> string \<Rightarrow> string \<Rightarrow> string \<Rightarrow> string \<Rightarrow> ('s, string \<times> session) prog" where
  "password_open A a password salt token csrf =
     andthen (of_result (case acc_password_hash a of None \<Rightarrow> Inl (Exn AttributeError ''split'')
        | Some h \<Rightarrow> needs_rehash (as_hashing A) h)) (\<lambda>rehash.
     andthen (if rehash
         then attempt (andthen (of_result (hash_password (as_hashing A) salt password)) (\<lambda>h.
                account_update A (a\<lparr>acc_password_hash := Some h\<rparr>)))
              (\<lambda>e. if exn_class e = AccountChangedError \<or> is_value_error e then ret a else raise_exn e)
         else ret a) (\<lambda>a.
       open_session A a PASSWORD_LOGIN (\<lambda>current. acc_password_hash current = acc_password_hash a) token csrf))"

record 's auth_state =
  au_store :: 's
  au_per_email :: limiter
  au_per_address :: limiter

definition new_auth_state :: "'s \<Rightarrow> 's auth_state" where
  "new_auth_state s = \<lparr>au_store = s, au_per_email = new_limiter 8 (minutes 15) 10000,
     au_per_address = new_limiter 40 (minutes 15) 10000\<rparr>"

definition too_many_attempts :: exn where
  "too_many_attempts = Exn TooManyAttemptsError ''Too many attempts. Wait a few minutes and try again.''"

text \<open>\<open>addr\<close> is what \<open>address_key\<close> counts the client's address under, \<open>tick\<close> the limiters' clock.\<close>

definition sign_in_with_password ::
  "('s, 'p) accounts \<Rightarrow> instant \<Rightarrow> string \<Rightarrow> string \<Rightarrow> string \<Rightarrow> string \<Rightarrow> string \<Rightarrow> string
   \<Rightarrow> ('s auth_state, string \<times> session) prog" where
  "sign_in_with_password A tick email0 password addr salt token csrf = (\<lambda>st.
     let email = normalize_email email0;
         (allowed, per_email) = attempt_event email tick (au_per_email st);
         st = st\<lparr>au_per_email := per_email\<rparr>
     in if \<not> allowed then (Inl too_many_attempts, st)
        else
          let (allowed, per_address) = attempt_event addr tick (au_per_address st);
              st = st\<lparr>au_per_address := per_address\<rparr>
          in if \<not> allowed then (Inl too_many_attempts, st\<lparr>au_per_email := cancel_event email (au_per_email st)\<rparr>)
             else case password_account A email password (au_store st) of
                 (Inl e, s) \<Rightarrow> (Inl e, st\<lparr>au_store := s\<rparr>)
               | (Inr a, s) \<Rightarrow>
                   let st = st\<lparr>au_per_email := succeeded email (au_per_email st),
                               au_per_address := cancel_event addr (au_per_address st)\<rparr>;
                       (r, s') = password_open A a password salt token csrf s
                   in (r, st\<lparr>au_store := s'\<rparr>))"

definition google_account :: "('s, 'p) accounts \<Rightarrow> string \<Rightarrow> string option \<Rightarrow> bool \<Rightarrow> ('s, account) prog" where
  "google_account A subject email email_verified =
     andthen (by_google_subject A subject) (\<lambda>found.
     case found of
       Some a \<Rightarrow> ret a
     | None \<Rightarrow>
         if email = None \<or> email = Some [] \<or> \<not> email_verified
         then raise_exn (Exn SignInError ''Google did not confirm an email address for this account.'')
         else andthen (by_email A (the email)) (\<lambda>found.
           case found of
             None \<Rightarrow> raise_exn (Exn SignInError google_refusal)
           | Some a \<Rightarrow>
               if acc_google_subject a \<notin> {None, Some subject} \<or> \<not> acc_google_link_allowed a \<or> acc_status a \<noteq> ACCOUNT_ACTIVE
               then raise_exn (Exn SignInError google_refusal)
               else andthen (require_active_tenant A a) (\<lambda>_.
                 attempt (bind_google A a subject)
                   (\<lambda>e. if exn_class e \<in> {AccountExistsError, AccountChangedError}
                        then raise_exn (Exn SignInError google_refusal) else raise_exn e))))"

definition sign_in_with_google ::
  "('s, 'p) accounts \<Rightarrow> string \<Rightarrow> string option \<Rightarrow> bool \<Rightarrow> string \<Rightarrow> string \<Rightarrow> ('s, string \<times> session) prog" where
  "sign_in_with_google A subject email email_verified token csrf =
     andthen (google_account A subject email email_verified) (\<lambda>a.
       if acc_status a \<noteq> ACCOUNT_ACTIVE then raise_exn (Exn SignInError google_refusal)
       else open_session A a GOOGLE_LOGIN (\<lambda>current. acc_google_subject current = Some subject) token csrf)"

definition sign_in_with_mobile :: "('s, 'p) accounts \<Rightarrow> string \<Rightarrow> string \<Rightarrow> string \<Rightarrow> ('s, string \<times> session) prog" where
  "sign_in_with_mobile A mobile token csrf =
     andthen (by_mobile A mobile) (\<lambda>found.
     case found of
       None \<Rightarrow> raise_exn (Exn SignInError mobile_refusal)
     | Some a \<Rightarrow>
         if acc_status a \<noteq> ACCOUNT_ACTIVE then raise_exn (Exn SignInError mobile_refusal)
         else open_session A a SMS_LOGIN (\<lambda>current. acc_mobile current = Some mobile) token csrf)"

text \<open>\<open>hex1\<close> and \<open>hex2\<close> are the hexadecimal digits drawn for the two ids.\<close>

definition sign_up_with_mobile ::
  "('s, 'p) accounts \<Rightarrow> string \<Rightarrow> string \<Rightarrow> string \<Rightarrow> string \<Rightarrow> ('s, account \<times> tenant) prog" where
  "sign_up_with_mobile A hex1 hex2 mobile business_name =
     andthen (reads (as_clock A)) (\<lambda>now.
     let name = take 200 (py_strip business_name) in
     andthen (of_result (new_tenant (''t-'' @ hex1) (if name = [] then mobile else name) now)) (\<lambda>t0.
     andthen (tenant_create (as_tenancy A) now t0) (\<lambda>t.
     andthen (of_result (new_account (''u-'' @ hex2) (tn_tenant_id t) None (Some mobile) (Some now) None now)) (\<lambda>a0.
     andthen (account_create A a0) (\<lambda>a. ret (a, t))))))"

section \<open>Recognising a browser, and signing out\<close>

definition session_for :: "('s, 'p) accounts \<Rightarrow> string option \<Rightarrow> ('s, (session \<times> account) option) prog" where
  "session_for A token = (case token of
     None \<Rightarrow> ret None
   | Some token \<Rightarrow>
       if token = [] \<or> 200 < length token then ret None
       else
         andthen (of_result (token_hash A token)) (\<lambda>h.
         andthen (session_get A h) (\<lambda>found.
         case found of
           None \<Rightarrow> ret None
         | Some (x, version) \<Rightarrow>
             andthen (reads (as_clock A)) (\<lambda>now.
             if se_revoked_at x \<noteq> None \<or> se_expires_at x \<le> now \<or> idle_timeout \<le> now - se_last_seen_at x then ret None
             else andthen (account_get A (se_account_id x)) (\<lambda>account.
               case account of
                 None \<Rightarrow> ret None
               | Some a \<Rightarrow>
                   if acc_status a \<noteq> ACCOUNT_ACTIVE then ret None
                   else if se_generation x \<noteq> acc_session_generation a then ret None
                   else andthen (tenant_active A (se_tenant_id x)) (\<lambda>active.
                     if \<not> active then ret None
                     else andthen
                       (if touch_every \<le> now - se_last_seen_at x
                        then attempt (session_replace A (x\<lparr>se_last_seen_at := now\<rparr>) version)
                               (\<lambda>e. if is_conflict e then ret x else raise_exn e)
                        else ret x) (\<lambda>x'. ret (Some (x', a)))))))))"

definition sign_out :: "('s, 'p) accounts \<Rightarrow> string option \<Rightarrow> ('s, unit) prog" where
  "sign_out A token = (case token of
     None \<Rightarrow> ret ()
   | Some token \<Rightarrow>
       if token = [] then ret ()
       else
         andthen (of_result (token_hash A token)) (\<lambda>h.
         andthen (session_get A h) (\<lambda>found.
         case found of
           None \<Rightarrow> ret ()
         | Some (x, version) \<Rightarrow>
             if se_revoked_at x \<noteq> None then ret ()
             else andthen (reads (as_clock A)) (\<lambda>now.
               andthen (session_replace A (x\<lparr>se_revoked_at := Some now\<rparr>) version) (\<lambda>_. ret ())))))"

section \<open>The operator's commands\<close>

definition end_sessions :: "('s, 'p) accounts \<Rightarrow> account \<Rightarrow> (account \<Rightarrow> account) \<Rightarrow> ('s, account) prog" where
  "end_sessions A a changes =
     account_update A ((changes a)\<lparr>acc_session_generation := acc_session_generation a + 1\<rparr>)"

definition unlink_google :: "('s, 'p) accounts \<Rightarrow> account \<Rightarrow> ('s, account) prog" where
  "unlink_google A a =
     store_unlink_google A a (\<lambda>x. x\<lparr>acc_session_generation := acc_session_generation a + 1\<rparr>)"

definition allow_google :: "('s, 'p) accounts \<Rightarrow> account \<Rightarrow> ('s, account) prog" where
  "allow_google A a = account_update A (a\<lparr>acc_google_link_allowed := True\<rparr>)"

definition create_account ::
  "('s, 'p) accounts \<Rightarrow> string \<Rightarrow> string \<Rightarrow> string \<Rightarrow> string \<Rightarrow> string option \<Rightarrow> ('s, account) prog" where
  "create_account A hex salt tenant email password =
     andthen (of_result (case password of None \<Rightarrow> Inr None | Some p \<Rightarrow>
        if p = [] then Inr None else and_maybe (hash_password (as_hashing A) salt p) (\<lambda>h. Inr (Some h)))) (\<lambda>h.
     andthen (reads (as_clock A)) (\<lambda>now.
     andthen (of_result (new_account (''u-'' @ hex) tenant (Some (normalize_email email)) None None h now)) (\<lambda>a.
       account_create A a)))"

datatype account_command =
    CreateAccount (ac_tenant: string) (ac_google_only: bool)
  | ListAccounts (ac_tenant: string)
  | SetPassword
  | DisableAccount
  | EnableAccount
  | RevokeSessions
  | UnlinkGoogle
  | AllowGoogle

text \<open>What is typed at the two prompts; leaving the program with a message is status 1.\<close>

definition ask_password :: "string \<Rightarrow> string \<Rightarrow> string option" where
  "ask_password typed again = (case check_strength typed of
     Inl _ \<Rightarrow> None | Inr _ \<Rightarrow> if again \<noteq> typed then None else Some typed)"

definition changing :: "('s, 'p) accounts \<Rightarrow> string \<Rightarrow> (account \<Rightarrow> ('s, account) prog) \<Rightarrow> ('s, int) prog" where
  "changing A email change =
     andthen (by_email A email) (\<lambda>found.
     case found of
       None \<Rightarrow> raise_exn (Exn AttributeError ''account'')
     | Some a \<Rightarrow> attempt (andthen (change a) (\<lambda>_. ret 0))
         (\<lambda>e. if exn_class e = AccountChangedError then ret 1 else raise_exn e))"

fun account_admin ::
  "('s, 'p) accounts \<Rightarrow> string \<Rightarrow> string \<Rightarrow> string \<Rightarrow> string \<Rightarrow> string \<Rightarrow> account_command \<Rightarrow> ('s, int) prog" where
  "account_admin A hex salt typed again email (CreateAccount tenant google_only) =
     andthen (tenant_find (as_tenancy A) tenant) (\<lambda>t.
     if t = None then ret 1
     else
       let password = (if google_only then Some None else map_option Some (ask_password typed again))
       in case password of
            None \<Rightarrow> ret 1
          | Some p \<Rightarrow> attempt (andthen (create_account A hex salt tenant email p) (\<lambda>_. ret 0))
              (\<lambda>e. if exn_class e = AccountExistsError then ret 1 else raise_exn e))"
| "account_admin A hex salt typed again email (ListAccounts tenant) =
     andthen (accounts_of_tenant A tenant) (\<lambda>_. ret 0)"
| "account_admin A hex salt typed again email cmd =
     andthen (by_email A email) (\<lambda>found.
     if found = None then ret 1
     else
       case cmd of
         SetPassword \<Rightarrow>
           (case ask_password typed again of
              None \<Rightarrow> ret 1
            | Some p \<Rightarrow> andthen (of_result (hash_password (as_hashing A) salt p)) (\<lambda>h.
                changing A email (\<lambda>a. end_sessions A a (\<lambda>x. x\<lparr>acc_password_hash := Some h\<rparr>))))
       | UnlinkGoogle \<Rightarrow> changing A email (unlink_google A)
       | AllowGoogle \<Rightarrow> changing A email (allow_google A)
       | RevokeSessions \<Rightarrow> changing A email (\<lambda>a. end_sessions A a (\<lambda>x. x))
       | DisableAccount \<Rightarrow> changing A email (\<lambda>a. end_sessions A a (\<lambda>x. x\<lparr>acc_status := ACCOUNT_DISABLED\<rparr>))
       | _ \<Rightarrow> changing A email (\<lambda>a. account_update A (a\<lparr>acc_status := ACCOUNT_ACTIVE\<rparr>)))"

end
