(* ===== verification/Tenancy_Claims.thy ===== *)
theory Tenancy_Claims
  imports Tenancy
begin

text \<open>
  What the operator's commands keep: tenants and keys stay, a key belongs to its tenant for good and
  a revoked key stays revoked. The laws the stores rely on are the locale \<open>tenancy_store\<close>; every
  command is a triple over them.
\<close>

section \<open>Keys and their text\<close>

lemma split_once:
  "c \<notin> set a \<Longrightarrow> split_at_most c (Suc n) (a @ c # b) = a # split_at_most c n b"
  by (induction a) auto

lemma split_pieces:
  "split_at_most c n s = ps \<Longrightarrow> \<exists>p rest. ps = p # rest \<and> s = concat (p # map ((#) c) rest)
    \<and> (\<forall>x \<in> set (butlast ps). c \<notin> set x)"
proof (induction c n s arbitrary: ps rule: split_at_most.induct)
  case (1 c s)
  then show ?case by auto
next
  case (2 c n s)
  show ?case
  proof (cases "c \<in> set s")
    case False
    then show ?thesis using 2 by auto
  next
    case True
    let ?a = "takeWhile (\<lambda>x. x \<noteq> c) s" and ?b = "dropWhile (\<lambda>x. x \<noteq> c) s"
    have ne: "?b \<noteq> []" using True by (simp add: dropWhile_eq_Nil_conv)
    then have "hd ?b = c" using hd_dropWhile [of "\<lambda>x. x \<noteq> c" s] by blast
    then have b: "?b = c # tl ?b" using list.collapse [OF ne] by simp
    obtain p rest where ih: "split_at_most c n (tl ?b) = p # rest" "tl ?b = concat (p # map ((#) c) rest)"
        "\<forall>x \<in> set (butlast (p # rest)). c \<notin> set x"
      using "2.IH" [OF True refl] by auto
    have "ps = ?a # p # rest" using 2(2) True ih(1) by simp
    moreover have "s = concat (?a # map ((#) c) (p # rest))"
    proof -
      have "s = ?a @ ?b" by simp
      also have "\<dots> = ?a @ c # concat (p # map ((#) c) rest)" using b ih(2) by simp
      finally show ?thesis by simp
    qed
    moreover have "c \<notin> set ?a" using set_takeWhileD by fast
    ultimately show ?thesis using ih(3) by auto
  qed
qed

lemma py_strip_neat:
  "s \<noteq> [] \<Longrightarrow> \<not> is_space (hd s) \<Longrightarrow> \<not> is_space (last s) \<Longrightarrow> py_strip s = s"
proof -
  assume s: "s \<noteq> []" "\<not> is_space (hd s)" "\<not> is_space (last s)"
  have one: "dropWhile is_space s = s" using s by (cases s) auto
  have "dropWhile is_space (rev s) = rev s" using s by (cases s rule: rev_cases) auto
  then show ?thesis by (simp add: py_strip_def one)
qed

lemma parse_issued:
  assumes "key_separator \<notin> set (ik_key_id k)" and "ik_key_id k \<noteq> []" and "ik_secret k \<noteq> []"
    and "\<not> is_space (last (ik_secret k))"
  shows "parse_token (token_of k) = Inr (ik_key_id k, ik_secret k)"
proof -
  have "py_strip (token_of k) = token_of k"
    by (rule py_strip_neat) (use assms(3,4) in \<open>simp_all add: token_of_def is_space_def\<close>)
  moreover have "split_at_most key_separator 2 (token_of k) = [key_prefix, ik_key_id k, ik_secret k]"
    using split_once [of key_separator key_prefix 1 "ik_key_id k @ key_separator # ik_secret k"]
      split_once [of key_separator "ik_key_id k" 0 "ik_secret k"] assms(1)
    by (simp add: token_of_def numeral_2_eq_2)
  ultimately show ?thesis using assms(2,3) by (simp add: parse_token_def)
qed

lemma parsed_is_token:
  assumes "parse_token token = Inr (key_id, secret)"
  shows "py_strip token = token_of \<lparr>ik_key_id = key_id, ik_secret = secret, ik_digest = d\<rparr>
    \<and> key_separator \<notin> set key_id \<and> key_id \<noteq> [] \<and> secret \<noteq> []"
proof -
  have s: "split_at_most key_separator 2 (py_strip token) = [key_prefix, key_id, secret]" "key_id \<noteq> []" "secret \<noteq> []"
    using assms by (auto simp: parse_token_def split: list.splits if_splits)
  show ?thesis using split_pieces [OF s(1)] s(2,3) by (auto simp: token_of_def)
qed

section \<open>What the stores hold\<close>

definition tenant_good :: "string \<Rightarrow> string option \<Rightarrow> tenant \<Rightarrow> bool" where
  "tenant_good i tenant t \<longleftrightarrow> tenant_valid t \<and> tn_tenant_id t = i \<and> tenant = Some i"

definition key_good :: "string \<Rightarrow> string option \<Rightarrow> api_key \<Rightarrow> bool" where
  "key_good i tenant k \<longleftrightarrow> api_key_valid k \<and> ak_key_id k = i \<and> tenant = Some (ak_tenant_id k)"

definition tenants_of :: "('s, 'p) tenancy \<Rightarrow> 's \<Rightarrow> string \<Rightarrow> tenant option" where
  "tenants_of T s = model_of (ty_repo T) tenant_kind (ty_tenant T) s"

definition keys_of :: "('s, 'p) tenancy \<Rightarrow> 's \<Rightarrow> string \<Rightarrow> api_key option" where
  "keys_of T s = model_of (ty_repo T) key_kind (ty_key T) s"

definition tenancy_ok ::
  "('s, 'p) tenancy \<Rightarrow> ('s \<Rightarrow> bool) \<Rightarrow> ('s \<Rightarrow> string \<Rightarrow> (string \<times> string \<times> int) option) \<Rightarrow> 's \<Rightarrow> bool" where
  "tenancy_ok T ok owner s \<longleftrightarrow> store_ok (ty_repo T) ok owner ''tenant'' tenant_kind (ty_tenant T) tenant_good s
     \<and> store_ok (ty_repo T) ok owner ''api-key'' key_kind (ty_key T) key_good s
     \<and> (\<forall>i k. keys_of T s i = Some k \<longrightarrow> tenants_of T s (ak_tenant_id k) \<noteq> None)"

text \<open>What the commands do to tenants and keys over time: none goes, a key is at most revoked, once.\<close>

definition key_later :: "api_key \<Rightarrow> api_key \<Rightarrow> bool" where
  "key_later k k' \<longleftrightarrow> k' = k \<or> (key_active k \<and> (\<exists>t. k' = k\<lparr>ak_revoked_at := Some t\<rparr>))"

definition tenancy_later :: "('s, 'p) tenancy \<Rightarrow> 's \<Rightarrow> 's \<Rightarrow> bool" where
  "tenancy_later T s s' \<longleftrightarrow> (\<forall>i. tenants_of T s i \<noteq> None \<longrightarrow> tenants_of T s' i \<noteq> None)
     \<and> (\<forall>i k. keys_of T s i = Some k \<longrightarrow> (\<exists>k'. keys_of T s' i = Some k' \<and> key_later k k'))"

lemma key_later_refl: "key_later k k"
  by (simp add: key_later_def)

lemma key_later_trans: "key_later a b \<Longrightarrow> key_later b c \<Longrightarrow> key_later a c"
  by (auto simp: key_later_def key_active_def)

lemma tenancy_later_refl: "tenancy_later T s s"
  by (simp add: tenancy_later_def key_later_refl)

lemma tenancy_later_trans: "tenancy_later T a b \<Longrightarrow> tenancy_later T b c \<Longrightarrow> tenancy_later T a c"
  unfolding tenancy_later_def by (meson key_later_trans)

locale tenancy_store = repository R ok owner
  for R :: "('s, 'p) repository_ops" and ok and owner +
  fixes T :: "('s, 'p) tenancy"
  assumes repo: "ty_repo T = R"
    and tenant_codec: "codec_ok tenant_valid (ty_tenant T)"
    and key_codec: "codec_ok api_key_valid (ty_key T)"
begin

sublocale guarantee "tenancy_ok T ok owner" "tenancy_later T"
  by unfold_locales (simp_all add: tenancy_later_refl, blast intro: tenancy_later_trans)

abbreviation (input) TT where "TT \<equiv> triple (tenancy_ok T ok owner) (tenancy_later T)"

text \<open>A tenant that is written, as a new one or over itself.\<close>

lemma tenant_written:
  assumes s: "tenancy_ok T ok owner s" and r: "tenant_to_record T now t v = Inr r" and w: "written_to R ok owner s r s'"
    and "1 \<le> v" and "tenant_valid t"
  shows "tenancy_ok T ok owner s' \<and> tenancy_later T s s' \<and> tenants_of T s' = (tenants_of T s)(tn_tenant_id t \<mapsto> t)
    \<and> keys_of T s' = keys_of T s"
proof -
  have "model_validate (ty_tenant T) (model_dump (ty_tenant T) t) = Some t"
    using tenant_codec assms(5) by (simp add: codec_ok_def)
  note sr' = new_precord_store [OF r [unfolded tenant_to_record_def] this]
  have sr: "store_record ''tenant'' tenant_kind (ty_tenant T) (tn_tenant_id t) v t r" "pr_tenant_id r = Some (tn_tenant_id t)"
    using sr' by simp_all
  have so: "store_ok R ok owner ''tenant'' tenant_kind (ty_tenant T) tenant_good s"
      "store_ok R ok owner ''api-key'' key_kind (ty_key T) key_good s"
    using s repo by (simp_all add: tenancy_ok_def)
  note one = store_written [OF so(1) w sr(1) assms(4)]
  note two = store_other [OF so(2) w, where pre' = "''tenant''"]
  have maps: "tenants_of T s' = (tenants_of T s)(tn_tenant_id t \<mapsto> t)" "keys_of T s' = keys_of T s"
    using one two sr assms(4,5) repo by (simp_all add: tenants_of_def keys_of_def tenant_good_def store_record_def)
  have "tenancy_ok T ok owner s'"
    using one two sr assms(4,5) s repo unfolding tenancy_ok_def maps by (simp add: tenant_good_def store_record_def)
  then show ?thesis using maps by (simp add: tenancy_later_def key_later_refl)
qed

lemma key_written:
  assumes s: "tenancy_ok T ok owner s" and r: "key_to_record T now k v = Inr r" and w: "written_to R ok owner s r s'"
    and "1 \<le> v" and "api_key_valid k" and "tenants_of T s (ak_tenant_id k) \<noteq> None"
    and "\<And>k0. keys_of T s (ak_key_id k) = Some k0 \<Longrightarrow> key_later k0 k"
  shows "tenancy_ok T ok owner s' \<and> tenancy_later T s s' \<and> keys_of T s' = (keys_of T s)(ak_key_id k \<mapsto> k)
    \<and> tenants_of T s' = tenants_of T s"
proof -
  have "model_validate (ty_key T) (model_dump (ty_key T) k) = Some k"
    using key_codec assms(5) by (simp add: codec_ok_def)
  note sr' = new_precord_store [OF r [unfolded key_to_record_def] this]
  have sr: "store_record ''api-key'' key_kind (ty_key T) (ak_key_id k) v k r" "pr_tenant_id r = Some (ak_tenant_id k)"
    using sr' by simp_all
  have so: "store_ok R ok owner ''tenant'' tenant_kind (ty_tenant T) tenant_good s"
      "store_ok R ok owner ''api-key'' key_kind (ty_key T) key_good s"
    using s repo by (simp_all add: tenancy_ok_def)
  note one = store_written [OF so(2) w sr(1) assms(4)]
  note two = store_other [OF so(1) w, where pre' = "''api-key''"]
  have maps: "keys_of T s' = (keys_of T s)(ak_key_id k \<mapsto> k)" "tenants_of T s' = tenants_of T s"
    using one two sr assms(4,5) repo by (simp_all add: tenants_of_def keys_of_def key_good_def store_record_def)
  have "tenancy_ok T ok owner s'"
    using one two sr assms(4-6) s repo unfolding tenancy_ok_def maps by (simp add: key_good_def store_record_def)
  then show ?thesis using maps assms(7) by (auto simp: tenancy_later_def key_later_refl)
qed

lemma stored_tenant: "tenancy_ok T ok owner s \<Longrightarrow> tenants_of T s i = Some t \<Longrightarrow> tenant_valid t \<and> tn_tenant_id t = i"
  using store_ok_good [of "''tenant''" tenant_kind "ty_tenant T" tenant_good s i t] repo
  by (auto simp: tenancy_ok_def tenants_of_def tenant_good_def)

lemma stored_key: "tenancy_ok T ok owner s \<Longrightarrow> keys_of T s i = Some k \<Longrightarrow> api_key_valid k \<and> ak_key_id k = i
    \<and> tenants_of T s (ak_tenant_id k) \<noteq> None"
  using store_ok_good [of "''api-key''" key_kind "ty_key T" key_good s i k] repo
  by (auto simp: tenancy_ok_def keys_of_def key_good_def)

text \<open>Reading.\<close>

lemma stored_model:
  assumes "store_ok R ok owner pre kind c good s"
  shows "case repo_get R s kind i of None \<Rightarrow> model_of R kind c s i = None
    | Some r \<Rightarrow> \<exists>m. restore c (pr_payload r) = Inr m \<and> model_of R kind c s i = Some m"
proof (cases "repo_get R s kind i")
  case (Some r)
  then obtain m where "model_validate c (pr_payload r) = Some m" using assms unfolding store_ok_def by blast
  then show ?thesis using Some by (simp add: model_of_def restore_def)
qed (simp add: model_of_def)

lemma tenant_find_run:
  assumes "tenancy_ok T ok owner s"
  shows "tenant_find T i s = (Inr (tenants_of T s i), s)"
proof -
  have "store_ok R ok owner ''tenant'' tenant_kind (ty_tenant T) tenant_good s" using assms repo by (simp add: tenancy_ok_def)
  from stored_model [OF this, of i] show ?thesis
    by (auto simp: tenant_find_def tenants_of_def andthen_def reads_def of_result_def ret_def repo split: option.splits)
qed

lemma key_find_run:
  assumes "tenancy_ok T ok owner s"
  shows "key_find T i s = (Inr (keys_of T s i), s)"
proof -
  have "store_ok R ok owner ''api-key'' key_kind (ty_key T) key_good s" using assms repo by (simp add: tenancy_ok_def)
  from stored_model [OF this, of i] show ?thesis
    by (auto simp: key_find_def keys_of_def andthen_def reads_def of_result_def ret_def repo split: option.splits)
qed

text \<open>Writing.\<close>

lemma t_tenant_create:
  assumes "tenant_valid t"
  shows "TT (\<lambda>_. True) (tenant_create T now t) (\<lambda>x s. x = t \<and> tenants_of T s (tn_tenant_id t) \<noteq> None)"
  unfolding triple_def
proof (intro allI impI)
  fix s assume ok: "tenancy_ok T ok owner s"
  have oks: "ok s" using ok by (simp add: tenancy_ok_def store_ok_def)
  show "tenancy_ok T ok owner (snd (tenant_create T now t s)) \<and> tenancy_later T s (snd (tenant_create T now t s))
      \<and> (\<forall>x. fst (tenant_create T now t s) = Inr x \<longrightarrow> x = t \<and> tenants_of T (snd (tenant_create T now t s)) (tn_tenant_id t) \<noteq> None)"
  proof (cases "tenant_to_record T now t 1")
    case (Inl e)
    then show ?thesis using ok by (simp add: tenant_create_def andthen_def of_result_def tenancy_later_refl)
  next
    case (Inr r)
    show ?thesis
    proof (cases "repo_create R s r")
      case (Inl e)
      then show ?thesis using ok \<open>tenant_to_record T now t 1 = Inr r\<close>
        by (simp add: tenant_create_def andthen_def of_result_def updates_def repo tenancy_later_refl)
    next
      case (Inr s')
      note w = tenant_written [OF ok \<open>tenant_to_record T now t 1 = Inr r\<close> create_written [OF oks Inr] _ assms]
      show ?thesis using w Inr \<open>tenant_to_record T now t 1 = Inr r\<close>
        by (simp add: tenant_create_def andthen_def of_result_def updates_def ret_def repo)
    qed
  qed
qed

lemma t_key_create:
  assumes "api_key_valid k"
  shows "TT (\<lambda>s. tenants_of T s (ak_tenant_id k) \<noteq> None) (key_create T now k) (\<lambda>x s. x = k \<and> keys_of T s (ak_key_id k) = Some k)"
  unfolding triple_def
proof (intro allI impI)
  fix s assume ok: "tenancy_ok T ok owner s" and tenant: "tenants_of T s (ak_tenant_id k) \<noteq> None"
  have oks: "ok s" using ok by (simp add: tenancy_ok_def store_ok_def)
  show "tenancy_ok T ok owner (snd (key_create T now k s)) \<and> tenancy_later T s (snd (key_create T now k s))
      \<and> (\<forall>x. fst (key_create T now k s) = Inr x \<longrightarrow> x = k \<and> keys_of T (snd (key_create T now k s)) (ak_key_id k) = Some k)"
  proof (cases "key_to_record T now k 1")
    case (Inl e)
    then show ?thesis using ok by (simp add: key_create_def andthen_def of_result_def tenancy_later_refl)
  next
    case (Inr r)
    note rec = Inr
    show ?thesis
    proof (cases "repo_create R s r")
      case (Inl e)
      then show ?thesis using ok rec
        by (simp add: key_create_def andthen_def of_result_def updates_def repo tenancy_later_refl)
    next
      case (Inr s')
      have "pr_type r = key_kind" "pr_id r = ak_key_id k"
        using rec by (auto simp: key_to_record_def new_precord_def Let_def split: if_splits)
      then have "keys_of T s (ak_key_id k) = None"
        using create_owner_none [OF oks Inr] by (simp add: keys_of_def model_of_def repo)
      then show ?thesis using key_written [OF ok rec create_written [OF oks Inr] _ assms tenant] Inr rec
        by (simp add: key_create_def andthen_def of_result_def updates_def ret_def repo)
    qed
  qed
qed

lemma t_tenant_update:
  assumes "tenant_valid t"
  shows "TT (\<lambda>_. True) (tenant_update T now t) (\<lambda>_ _. True)"
  unfolding triple_def
proof (intro allI impI)
  fix s assume ok: "tenancy_ok T ok owner s"
  have oks: "ok s" using ok by (simp add: tenancy_ok_def store_ok_def)
  let ?u = "t\<lparr>tn_updated_at := now\<rparr>"
  have valid: "tenant_valid ?u" using assms by (simp add: tenant_valid_def)
  show "tenancy_ok T ok owner (snd (tenant_update T now t s)) \<and> tenancy_later T s (snd (tenant_update T now t s))
      \<and> (\<forall>x. fst (tenant_update T now t s) = Inr x \<longrightarrow> True)"
  proof (cases "repo_get R s tenant_kind (tn_tenant_id t)")
    case None
    then show ?thesis using ok by (simp add: tenant_update_def andthen_def reads_def raise_exn_def repo tenancy_later_refl)
  next
    case (Some cur)
    have v: "1 \<le> pr_version cur" using ok Some repo unfolding tenancy_ok_def store_ok_def by blast
    have run: "tenant_update T now t s = (case tenant_to_record T now ?u (pr_version cur + 1) of Inl e \<Rightarrow> (Inl e, s)
        | Inr r \<Rightarrow> (case repo_replace R s r (pr_version cur) of Inl e \<Rightarrow> (Inl e, s) | Inr s' \<Rightarrow> (Inr ?u, s')))"
      using Some by (simp add: tenant_update_def andthen_def reads_def of_result_def updates_def ret_def repo Let_def split: sum.split)
    show ?thesis
    proof (cases "\<exists>r s'. tenant_to_record T now ?u (pr_version cur + 1) = Inr r \<and> repo_replace R s r (pr_version cur) = Inr s'")
      case True
      then obtain r s' where r: "tenant_to_record T now ?u (pr_version cur + 1) = Inr r" "repo_replace R s r (pr_version cur) = Inr s'"
        by blast
      show ?thesis using tenant_written [OF ok r(1) replace_written [OF oks r(2)] _ valid] v r run by simp
    next
      case False
      then have "snd (tenant_update T now t s) = s" using run by (auto split: sum.splits)
      then show ?thesis using ok by (simp add: tenancy_later_refl)
    qed
  qed
qed

lemma t_key_revoke: "TT (\<lambda>_. True) (key_revoke T now i) (\<lambda>_ s. \<exists>k. keys_of T s i = Some k \<and> \<not> key_active k)"
  unfolding triple_def
proof (intro allI impI)
  fix s assume ok: "tenancy_ok T ok owner s"
  have oks: "ok s" using ok by (simp add: tenancy_ok_def store_ok_def)
  have so: "store_ok R ok owner ''api-key'' key_kind (ty_key T) key_good s" using ok repo by (simp add: tenancy_ok_def)
  let ?run = "key_revoke T now i s"
  show "tenancy_ok T ok owner (snd ?run) \<and> tenancy_later T s (snd ?run)
      \<and> (\<forall>x. fst ?run = Inr x \<longrightarrow> (\<exists>k. keys_of T (snd ?run) i = Some k \<and> \<not> key_active k))"
  proof (cases "repo_get R s key_kind i")
    case None
    then show ?thesis using ok by (simp add: key_revoke_def andthen_def reads_def raise_exn_def repo tenancy_later_refl)
  next
    case (Some cur)
    have v: "1 \<le> pr_version cur" using so Some unfolding store_ok_def by blast
    obtain k where k: "restore (ty_key T) (pr_payload cur) = Inr k" "keys_of T s i = Some k"
      using stored_model [OF so, of i] Some repo by (auto simp: keys_of_def)
    note good = stored_key [OF ok k(2)]
    let ?u = "k\<lparr>ak_revoked_at := Some now\<rparr>"
    have valid: "api_key_valid ?u" using good by (auto simp: api_key_valid_def)
    have run: "?run = (if \<not> key_active k then (Inr k, s) else case key_to_record T now ?u (pr_version cur + 1) of Inl e \<Rightarrow> (Inl e, s)
        | Inr r \<Rightarrow> (case repo_replace R s r (pr_version cur) of Inl e \<Rightarrow> (Inl e, s) | Inr s' \<Rightarrow> (Inr ?u, s')))"
      using Some k(1) by (simp add: key_revoke_def andthen_def reads_def of_result_def updates_def ret_def repo Let_def split: sum.split)
    show ?thesis
    proof (cases "key_active k \<and> (\<exists>r s'. key_to_record T now ?u (pr_version cur + 1) = Inr r \<and> repo_replace R s r (pr_version cur) = Inr s')")
      case True
      then obtain r s' where r: "key_to_record T now ?u (pr_version cur + 1) = Inr r" "repo_replace R s r (pr_version cur) = Inr s'"
        by blast
      have tenant: "tenants_of T s (ak_tenant_id ?u) \<noteq> None" using good by simp
      have later: "key_later k0 ?u" if "keys_of T s (ak_key_id ?u) = Some k0" for k0
        using that k(2) good True by (auto simp: key_later_def)
      have "tenancy_ok T ok owner s' \<and> tenancy_later T s s' \<and> keys_of T s' = (keys_of T s)(ak_key_id ?u \<mapsto> ?u)"
        using key_written [OF ok r(1) replace_written [OF oks r(2)] _ valid tenant later] v by simp
      moreover have "?run = (Inr ?u, s')" using run r True by simp
      ultimately show ?thesis using good by (simp add: key_active_def)
    next
      case False
      then have "snd ?run = s" "key_active k \<longrightarrow> (\<exists>e. fst ?run = Inl e)" using run by (auto split: sum.splits)
      then show ?thesis using ok k(2) by (auto simp: tenancy_later_refl)
    qed
  qed
qed

lemma t_reading: "(\<And>s. snd (p s) = s) \<Longrightarrow> TT P p (\<lambda>_. P)"
  by (simp add: triple_def tenancy_later_refl)

lemma lasting_tenant: "lasting (tenancy_ok T ok owner) (tenancy_later T) (\<lambda>s. tenants_of T s i \<noteq> None)"
  unfolding lasting_def tenancy_later_def by blast

lemma t_issue_to: "TT (\<lambda>s. tenants_of T s tenant \<noteq> None) (issue_to T now dr tenant label)
    (\<lambda>_ s. \<exists>k. keys_of T s (dr_key_id dr) = Some k \<and> key_active k \<and> ak_tenant_id k = tenant
       \<and> ak_digest k = digest_for (ty_sha T) (dr_key_id dr) (dr_secret dr))"
  unfolding issue_to_def Let_def
proof (rule t_andthen [OF t_result [where Q = "\<lambda>k s. api_key_valid k \<and> tenants_of T s (ak_tenant_id k) \<noteq> None
      \<and> ak_tenant_id k = tenant \<and> ak_key_id k = dr_key_id dr \<and> key_active k
      \<and> ak_digest k = digest_for (ty_sha T) (dr_key_id dr) (dr_secret dr)"]])
  fix k s
  assume "new_api_key (ik_key_id (issue_key (ty_sha T) (dr_key_id dr) (dr_secret dr))) tenant
      (ik_digest (issue_key (ty_sha T) (dr_key_id dr) (dr_secret dr))) label now = Inr k"
    and "tenants_of T s tenant \<noteq> None"
  then show "api_key_valid k \<and> tenants_of T s (ak_tenant_id k) \<noteq> None \<and> ak_tenant_id k = tenant
      \<and> ak_key_id k = dr_key_id dr \<and> key_active k \<and> ak_digest k = digest_for (ty_sha T) (dr_key_id dr) (dr_secret dr)"
    by (auto simp: new_api_key_def issue_key_def key_active_def Let_def split: if_splits)
next
  fix k
  show "TT (\<lambda>s. api_key_valid k \<and> tenants_of T s (ak_tenant_id k) \<noteq> None \<and> ak_tenant_id k = tenant
      \<and> ak_key_id k = dr_key_id dr \<and> key_active k \<and> ak_digest k = digest_for (ty_sha T) (dr_key_id dr) (dr_secret dr))
      (andthen (key_create T now k) (\<lambda>_. ret 0))
      (\<lambda>_ s. \<exists>k. keys_of T s (dr_key_id dr) = Some k \<and> key_active k \<and> ak_tenant_id k = tenant
       \<and> ak_digest k = digest_for (ty_sha T) (dr_key_id dr) (dr_secret dr))"
  proof (cases "api_key_valid k \<and> ak_tenant_id k = tenant \<and> ak_key_id k = dr_key_id dr \<and> key_active k
      \<and> ak_digest k = digest_for (ty_sha T) (dr_key_id dr) (dr_secret dr)")
    case True
    then show ?thesis
      by (intro t_andthen [OF t_weaken [OF t_key_create]] t_ret) auto
  next
    case False
    then have "TT (\<lambda>_. False) (andthen (key_create T now k) (\<lambda>_. ret 0)) (\<lambda>_ s. \<exists>k. keys_of T s (dr_key_id dr) = Some k
        \<and> key_active k \<and> ak_tenant_id k = tenant \<and> ak_digest k = digest_for (ty_sha T) (dr_key_id dr) (dr_secret dr))"
      by (simp add: triple_def)
    then show ?thesis by (rule t_weaken) (use False in auto)
  qed
qed

lemma keys_reading: "snd (keys_of_tenant T tenant s) = s"
  by (simp add: keys_of_tenant_def andthen_def of_result_def ret_def split: sum.splits)

lemma list_keys_reading: "snd (list_keys T ts s) = s"
proof (induction ts arbitrary: s)
  case (Cons t ts)
  then show ?case using keys_reading [of "tn_tenant_id t" s] by (auto simp: andthen_def split: prod.splits sum.splits)
qed (simp add: ret_def)

lemma list_reading: "snd (tenant_list T s) = s"
  by (simp add: tenant_list_def andthen_def of_result_def split: sum.splits)

text \<open>What a command leaves, when it answers 0.\<close>

fun done_by :: "drawn \<Rightarrow> tenant_command \<Rightarrow> 's \<Rightarrow> bool" where
  "done_by dr (IssueKey tenant label) s = (\<exists>k. keys_of T s (dr_key_id dr) = Some k \<and> key_active k \<and> ak_tenant_id k = tenant
     \<and> ak_digest k = digest_for (ty_sha T) (dr_key_id dr) (dr_secret dr))"
| "done_by dr (RevokeKey i) s = (\<exists>k. keys_of T s i = Some k \<and> \<not> key_active k)"
| "done_by dr _ s = True"

lemma t_tenant_admin: "TT (\<lambda>_. True) (tenant_admin T now dr cmd) (\<lambda>x s. x = 0 \<longrightarrow> done_by dr cmd s)"
proof (cases cmd)
  case ListTenants
  have "snd (tenant_admin T now dr ListTenants s) = s" for s
    using list_reading [of s] by (auto simp: andthen_def list_keys_reading split: prod.splits sum.splits)
  from t_reading [OF this, of "\<lambda>_. True"] show ?thesis using ListTenants by simp
next
  case (CreateTenant name no_key)
  have "TT (\<lambda>_. True) (tenant_admin T now dr cmd) (\<lambda>_ _. True)"
    unfolding CreateTenant tenant_admin.simps
  proof (rule t_andthen [OF t_result [where Q = "\<lambda>t _. tenant_valid t"]])
    show "tenant_valid t" if "new_tenant (''t-'' @ dr_tenant dr) name now = Inr t" for t
      using that by (auto simp: new_tenant_def Let_def split: if_splits)
    fix t
    show "TT (\<lambda>_. tenant_valid t) (andthen (tenant_create T now t) (\<lambda>_. if no_key then ret 0
        else issue_to T now dr (tn_tenant_id t) ''initial'')) (\<lambda>_ _. True)"
    proof (cases "tenant_valid t")
      case True
      show ?thesis
        by (rule t_andthen [OF t_weaken [OF t_tenant_create [OF True], where Q' = "\<lambda>_ s. tenants_of T s (tn_tenant_id t) \<noteq> None"]])
          (auto intro!: t_if t_ret t_weaken [OF t_issue_to])
    qed (simp add: triple_def)
  qed
  then show ?thesis using CreateTenant by simp
next
  case (IssueKey tenant label)
  have "TT (\<lambda>_. True) (tenant_find T tenant) (\<lambda>x s. tenants_of T s tenant = x)"
    unfolding triple_def by (simp add: tenant_find_run tenancy_later_refl)
  then show ?thesis unfolding IssueKey tenant_admin.simps
    by (rule t_andthen) (auto intro!: t_if t_ret t_weaken [OF t_issue_to])
next
  case (RevokeKey i)
  have "TT (\<lambda>_. True) (key_find T i) (\<lambda>_ _. True)"
    unfolding triple_def by (simp add: key_find_run tenancy_later_refl)
  then show ?thesis unfolding RevokeKey tenant_admin.simps
    by (rule t_andthen) (auto intro!: t_if t_ret t_andthen [OF t_key_revoke])
next
  case (SetStatus tenant status)
  have "TT (\<lambda>_. True) (tenant_find T tenant) (\<lambda>x s. \<forall>t. x = Some t \<longrightarrow> tenant_valid t)"
    unfolding triple_def using stored_tenant by (simp add: tenant_find_run tenancy_later_refl)
  then show ?thesis unfolding SetStatus tenant_admin.simps
  proof (rule t_andthen)
    fix found
    show "TT (\<lambda>s. \<forall>t. found = Some t \<longrightarrow> tenant_valid t)
        (case found of None \<Rightarrow> ret 1 | Some t \<Rightarrow> andthen (tenant_update T now (t\<lparr>tn_status := status\<rparr>)) (\<lambda>_. ret 0))
        (\<lambda>x s. x = 0 \<longrightarrow> done_by dr (SetStatus tenant status) s)"
    proof (cases found)
      case None
      then show ?thesis by (auto intro!: t_ret)
    next
      case (Some t)
      show ?thesis
      proof (cases "tenant_valid t")
        case True
        then have "tenant_valid (t\<lparr>tn_status := status\<rparr>)" by (simp add: tenant_valid_def)
        note update = t_tenant_update [OF this, of now]
        show ?thesis unfolding Some option.case
          by (rule t_andthen [OF t_weaken [OF update, where Q' = "\<lambda>_ _. True"]]) (simp_all add: t_ret)
      qed (simp add: Some triple_def)
    qed
  qed
qed

end

text \<open>Any commands, each with its own draws and clock, those that fail included.\<close>

definition tenant_step :: "('s, 'p) tenancy \<Rightarrow> 's \<Rightarrow> 's \<Rightarrow> bool" where
  "tenant_step T s s' \<longleftrightarrow> (\<exists>now dr cmd. s' = snd (tenant_admin T now dr cmd s))"

context tenancy_store
begin

lemma steps_later: "(tenant_step T)\<^sup>*\<^sup>* s s' \<Longrightarrow> tenancy_ok T ok owner s \<Longrightarrow> tenancy_ok T ok owner s' \<and> tenancy_later T s s'"
proof (induction rule: rtranclp_induct)
  case base
  then show ?case by (simp add: tenancy_later_refl)
next
  case (step s1 s2)
  then obtain now dr cmd where "s2 = snd (tenant_admin T now dr cmd s1)" by (auto simp: tenant_step_def)
  moreover have "tenancy_ok T ok owner s1" "tenancy_later T s s1" using step by simp_all
  ultimately show ?case using triple_state [OF t_tenant_admin [of now dr cmd], of s1] tenancy_later_trans [of T s s1 s2] by simp
qed

text \<open>Whom a token of our shape speaks for.\<close>

lemma authenticate_run:
  assumes ok: "tenancy_ok T ok owner s" and scheme: "map lower_latin (be_scheme b) = ''bearer''"
    and token: "parse_token (be_credentials b) = Inr (key_id, secret)"
  shows "authenticate T derive admin (Some b) s = (case keys_of T s key_id of
      None \<Rightarrow> (Inl (unauthorized ''Invalid credentials.''), s)
    | Some k \<Rightarrow>
        if \<not> key_active k \<or> digest_for (ty_sha T) key_id secret \<noteq> ak_digest k then (Inl (unauthorized ''Invalid credentials.''), s)
        else if map_option tn_status (tenants_of T s (ak_tenant_id k)) \<noteq> Some TENANT_ACTIVE
        then (Inl (Exn (HTTPException 403) ''This account is suspended.''), s)
        else (Inr (ak_tenant_id k), s))"
proof (cases "keys_of T s key_id")
  case None
  then show ?thesis using scheme token key_find_run [OF ok]
    by (simp add: authenticate_def andthen_def raise_exn_def)
next
  case (Some k)
  then obtain t where t: "tenants_of T s (ak_tenant_id k) = Some t" using stored_key [OF ok] by blast
  show ?thesis using scheme token key_find_run [OF ok] tenant_find_run [OF ok] Some t
    by (auto simp: authenticate_def andthen_def raise_exn_def ret_def key_matches_def)
qed

end

section \<open>Over the in-memory repository\<close>

definition tenancy_on_memory :: "('p memory, 'p) tenancy \<Rightarrow> bool" where
  "tenancy_on_memory T \<longleftrightarrow> ty_repo T = memory_ops \<and> codec_ok tenant_valid (ty_tenant T) \<and> codec_ok api_key_valid (ty_key T)"

lemma tenancy_memory: "tenancy_on_memory T \<Longrightarrow> tenancy_store memory_ops mem_ok mem_owner T"
  by (simp add: tenancy_on_memory_def tenancy_store_def tenancy_store_axioms_def mem.repository_axioms)

datatype tenancy_doc = TenantDoc tenant | KeyDoc api_key

fun tenant_doc :: "tenancy_doc \<Rightarrow> tenant option" where
  "tenant_doc (TenantDoc t) = Some t"
| "tenant_doc _ = None"

fun key_doc :: "tenancy_doc \<Rightarrow> api_key option" where
  "key_doc (KeyDoc k) = Some k"
| "key_doc _ = None"

text \<open>A hash that keeps all of a short text, in 64 characters.\<close>

definition demo_sha :: "string \<Rightarrow> string" where
  "demo_sha x = x @ CHR ''!'' # replicate (63 - length x) (CHR ''.'')"

lemma demo_sha_inj: "inj demo_sha"
proof (rule inj_on_inverseI)
  fix x
  have "dropWhile (\<lambda>c. c = CHR ''.'') (rev (demo_sha x)) = CHR ''!'' # rev x"
    by (simp add: demo_sha_def dropWhile_append3)
  then show "rev (tl (dropWhile (\<lambda>c. c = CHR ''.'') (rev (demo_sha x)))) = x" by simp
qed

definition demo_tenancy :: "(tenancy_doc memory, tenancy_doc) tenancy" where
  "demo_tenancy = \<lparr>ty_repo = memory_ops, ty_tenant = \<lparr>model_dump = TenantDoc, model_validate = tenant_doc\<rparr>,
     ty_key = \<lparr>model_dump = KeyDoc, model_validate = key_doc\<rparr>, ty_sha = demo_sha\<rparr>"

lemma demo_tenancy_ok: "tenancy_on_memory demo_tenancy"
  by (simp add: tenancy_on_memory_def demo_tenancy_def codec_ok_def)

interpretation mem_tenancy: tenancy_store memory_ops mem_ok mem_owner demo_tenancy
  by (rule tenancy_memory [OF demo_tenancy_ok])

lemma no_tenants: "tenancy_ok T mem_ok mem_owner empty_memory" if "tenancy_on_memory T"
  using that by (simp add: tenancy_on_memory_def tenancy_ok_def store_ok_def keeps_kind_empty keys_of_def model_of_def)

abbreviation demo_drawn :: drawn where
  "demo_drawn \<equiv> \<lparr>dr_tenant = ''1'', dr_key_id = ''ab'', dr_secret = ''s_1''\<rparr>"

definition one_tenant :: "tenancy_doc memory" where
  "one_tenant = snd (tenant_admin demo_tenancy 0 demo_drawn (CreateTenant ''PAMA'' True) empty_memory)"

definition one_key :: "tenancy_doc memory" where
  "one_key = snd (tenant_admin demo_tenancy 1 demo_drawn (IssueKey ''t-1'' ''server'') one_tenant)"

definition key_gone :: "tenancy_doc memory" where
  "key_gone = snd (tenant_admin demo_tenancy 2 demo_drawn (RevokeKey ''ab'') one_key)"

lemma demo_keys_ok: "tenancy_ok demo_tenancy mem_ok mem_owner one_tenant" "tenancy_ok demo_tenancy mem_ok mem_owner one_key"
proof -
  have "tenant_step demo_tenancy empty_memory one_tenant" "tenant_step demo_tenancy one_tenant one_key"
    unfolding tenant_step_def one_tenant_def one_key_def by blast+
  then have "(tenant_step demo_tenancy)\<^sup>*\<^sup>* empty_memory one_tenant" "(tenant_step demo_tenancy)\<^sup>*\<^sup>* empty_memory one_key"
    by (auto intro: rtranclp.rtrancl_into_rtrancl)
  then show "tenancy_ok demo_tenancy mem_ok mem_owner one_tenant" "tenancy_ok demo_tenancy mem_ok mem_owner one_key"
    using mem_tenancy.steps_later no_tenants [OF demo_tenancy_ok] by blast+
qed

lemma demo_issued: "tenant_admin demo_tenancy 1 demo_drawn (IssueKey ''t-1'' ''server'') one_tenant = (Inr 0, one_key)"
proof -
  have "fst (tenant_admin demo_tenancy 1 demo_drawn (IssueKey ''t-1'' ''server'') one_tenant) = Inr 0" by code_simp
  then show ?thesis by (simp add: one_key_def prod_eq_iff)
qed

lemma demo_revoked: "tenant_admin demo_tenancy 2 demo_drawn (RevokeKey ''ab'') one_key = (Inr 0, key_gone)"
proof -
  have "fst (tenant_admin demo_tenancy 2 demo_drawn (RevokeKey ''ab'') one_key) = Inr 0" by code_simp
  then show ?thesis by (simp add: key_gone_def prod_eq_iff)
qed

lemma demo_key_held: "map_option key_active (keys_of demo_tenancy one_key ''ab'') = Some True"
    "map_option tn_status (tenants_of demo_tenancy one_key ''t-1'') = Some TENANT_ACTIVE"
  by code_simp+

section \<open>Properties\<close>

text \<open>
  C21. A key's text and its parts correspond: what is issued is read back as the id and the secret it
  was made of, whatever separators the secret holds, and a text that is read as an id and a secret
  is, without the white space around it, the one issued with them.
\<close>

theorem key_text_roundtrip:
  assumes "key_separator \<notin> set (ik_key_id k)" and "ik_key_id k \<noteq> []" and "ik_secret k \<noteq> []"
    and "\<not> is_space (last (ik_secret k))"
  shows "parse_token (token_of k) = Inr (ik_key_id k, ik_secret k)
    \<and> (\<forall>token. parse_token token = Inr (ik_key_id k, ik_secret k) \<longrightarrow> py_strip token = token_of k)"
proof (intro conjI allI impI)
  show "parse_token (token_of k) = Inr (ik_key_id k, ik_secret k)" by (rule parse_issued [OF assms])
  show "py_strip token = token_of k" if "parse_token token = Inr (ik_key_id k, ik_secret k)" for token
    using conjunct1 [OF parsed_is_token [OF that, of "ik_digest k"]] by (simp add: token_of_def)
qed

lemma key_text_roundtrip_witness:
  "parse_token (token_of (issue_key demo_sha ''ab'' ''s_1'')) = Inr (''ab'', ''s_1'')"
  using key_text_roundtrip [of "issue_key demo_sha ''ab'' ''s_1''"] by (simp add: issue_key_def is_space_def)

text \<open>
  C6. A key speaks for its tenant and nobody else, for life: once it was issued, whatever commands
  follow, a token under its id is accepted as its tenant, never as another, exactly if the digest of the
  secret in the token is the digest of the secret that was handed out, the key is not revoked and the tenant
  is active; it is answered with 403 while the tenant is suspended and with 401 otherwise; and a check
  changes nothing. Nothing is assumed of the hash function.
\<close>

theorem key_speaks_for_tenant:
  assumes "tenancy_on_memory T" and "tenancy_ok T mem_ok mem_owner s"
    and "tenant_admin T now dr (IssueKey tenant label) s = (Inr 0, s1)" and "(tenant_step T)\<^sup>*\<^sup>* s1 s2"
    and "map lower_latin (be_scheme b) = ''bearer''" and "parse_token (be_credentials b) = Inr (dr_key_id dr, secret)"
  shows "\<exists>k. keys_of T s2 (dr_key_id dr) = Some k \<and> ak_tenant_id k = tenant
    \<and> authenticate T derive admin (Some b) s2 =
       (if digest_for (ty_sha T) (dr_key_id dr) secret \<noteq> digest_for (ty_sha T) (dr_key_id dr) (dr_secret dr) \<or> \<not> key_active k
        then Inl (unauthorized ''Invalid credentials.'')
        else if map_option tn_status (tenants_of T s2 tenant) \<noteq> Some TENANT_ACTIVE
        then Inl (Exn (HTTPException 403) ''This account is suspended.'')
        else Inr tenant, s2)"
proof -
  note store = tenancy_memory [OF assms(1)]
  have s1: "tenancy_ok T mem_ok mem_owner s1"
      "\<exists>k. keys_of T s1 (dr_key_id dr) = Some k \<and> key_active k \<and> ak_tenant_id k = tenant
        \<and> ak_digest k = digest_for (ty_sha T) (dr_key_id dr) (dr_secret dr)"
    using tripleD [OF tenancy_store.t_tenant_admin [OF store] assms(2) TrueI assms(3)]
    by (simp_all add: tenancy_store.done_by.simps [OF store])
  note later = tenancy_store.steps_later [OF store assms(4) s1(1)]
  obtain k where k: "keys_of T s2 (dr_key_id dr) = Some k" "ak_tenant_id k = tenant"
      "ak_digest k = digest_for (ty_sha T) (dr_key_id dr) (dr_secret dr)"
    using s1(2) later by (fastforce simp: tenancy_later_def key_later_def)
  show ?thesis
    using tenancy_store.authenticate_run [OF store conjunct1 [OF later] assms(5,6), of derive admin] k
    by (intro exI [of _ k]) (auto split: if_splits)
qed

lemma key_speaks_for_tenant_witness:
  "authenticate demo_tenancy (\<lambda>x _ _. x) None (Some \<lparr>be_scheme = ''Bearer'', be_credentials = ''seo_ab_s_1''\<rparr>) one_key
    = (Inr ''t-1'', one_key)
   \<and> fst (authenticate demo_tenancy (\<lambda>x _ _. x) None (Some \<lparr>be_scheme = ''Bearer'', be_credentials = ''seo_ab_s_2''\<rparr>) one_key)
    = Inl (unauthorized ''Invalid credentials.'')"
proof -
  have scheme: "map lower_latin ''Bearer'' = ''bearer''" by code_simp
  have other: "digest_for (ty_sha demo_tenancy) ''ab'' ''s_2'' \<noteq> digest_for (ty_sha demo_tenancy) ''ab'' ''s_1''"
    using demo_sha_inj by (auto simp: digest_for_def demo_tenancy_def dest: injD)
  have parsed: "parse_token ''seo_ab_s_1'' = Inr (''ab'', ''s_1'')" "parse_token ''seo_ab_s_2'' = Inr (''ab'', ''s_2'')"
    by code_simp+
  note speaks = key_speaks_for_tenant [OF demo_tenancy_ok demo_keys_ok(1) demo_issued rtranclp.rtrancl_refl,
      where derive = "\<lambda>x _ _. x" and admin = None]
  show ?thesis
    using speaks [of "\<lparr>be_scheme = ''Bearer'', be_credentials = ''seo_ab_s_1''\<rparr>" "''s_1''"]
      speaks [of "\<lparr>be_scheme = ''Bearer'', be_credentials = ''seo_ab_s_2''\<rparr>" "''s_2''"] scheme parsed demo_key_held other
    by auto
qed

text \<open>
  C5. A revoked key is dead at once and for good: after the command that revoked it has answered, no
  later command of any kind makes any token with its id pass, whatever the secret and the tenant.
\<close>

theorem revoked_key_refused:
  assumes "tenancy_on_memory T" and "tenancy_ok T mem_ok mem_owner s"
    and "tenant_admin T now dr (RevokeKey key_id) s = (Inr 0, s1)" and "(tenant_step T)\<^sup>*\<^sup>* s1 s2"
    and "map lower_latin (be_scheme b) = ''bearer''" and "parse_token (be_credentials b) = Inr (key_id, secret)"
  shows "authenticate T derive admin (Some b) s2 = (Inl (unauthorized ''Invalid credentials.''), s2)"
proof -
  note store = tenancy_memory [OF assms(1)]
  have s1: "tenancy_ok T mem_ok mem_owner s1" "\<exists>k. keys_of T s1 key_id = Some k \<and> \<not> key_active k"
    using tripleD [OF tenancy_store.t_tenant_admin [OF store] assms(2) TrueI assms(3)]
    by (simp_all add: tenancy_store.done_by.simps [OF store])
  note later = tenancy_store.steps_later [OF store assms(4) s1(1)]
  obtain k where k: "keys_of T s2 key_id = Some k" "\<not> key_active k"
    using s1(2) later by (fastforce simp: tenancy_later_def key_later_def)
  then show ?thesis
    using tenancy_store.authenticate_run [OF store conjunct1 [OF later] assms(5,6), of derive admin] by simp
qed

lemma revoked_key_refused_witness:
  "authenticate demo_tenancy (\<lambda>x _ _. x) None (Some \<lparr>be_scheme = ''Bearer'', be_credentials = ''seo_ab_s_1''\<rparr>)
    (snd (tenant_admin demo_tenancy 3 demo_drawn (IssueKey ''t-1'' ''server'') key_gone))
   = (Inl (unauthorized ''Invalid credentials.''), snd (tenant_admin demo_tenancy 3 demo_drawn (IssueKey ''t-1'' ''server'') key_gone))"
proof -
  let ?s2 = "snd (tenant_admin demo_tenancy 3 demo_drawn (IssueKey ''t-1'' ''server'') key_gone)"
  have scheme: "map lower_latin ''Bearer'' = ''bearer''" by code_simp
  have parsed: "parse_token ''seo_ab_s_1'' = Inr (''ab'', ''s_1'')" by code_simp
  have "(tenant_step demo_tenancy)\<^sup>*\<^sup>* key_gone ?s2" by (rule r_into_rtranclp) (unfold tenant_step_def, blast)
  from revoked_key_refused [OF demo_tenancy_ok demo_keys_ok(2) demo_revoked this,
      of "\<lparr>be_scheme = ''Bearer'', be_credentials = ''seo_ab_s_1''\<rparr>" "''s_1''" "\<lambda>x _ _. x" None] scheme parsed
  show ?thesis by simp
qed

end
