(* ===== verification/Account_Store.thy ===== *)
theory Account_Store
  imports Accounts Tenancy_Claims
begin

text \<open>
  What signing in, signing out and the operator's commands keep, whatever runs in between: an account
  only moves forward (its stamp grows with every write, its session generation never falls, its names
  never change), a session keeps its generation and stays revoked, and an email, a mobile number or a
  Google identity belongs to one account. The laws are the locale \<open>account_store\<close>; every handler,
  and every half of one that others may interrupt, is a triple over them.
\<close>

section \<open>What the stores hold\<close>

definition account_good :: "string \<Rightarrow> string option \<Rightarrow> account \<Rightarrow> bool" where
  "account_good i tenant a \<longleftrightarrow> account_valid a \<and> acc_account_id a = i \<and> tenant = Some (acc_tenant_id a)"

definition session_good :: "string \<Rightarrow> string option \<Rightarrow> session \<Rightarrow> bool" where
  "session_good h tenant x \<longleftrightarrow> session_valid x \<and> se_token_hash x = h \<and> tenant = Some (se_tenant_id x)"

definition index_good :: "string \<Rightarrow> string option \<Rightarrow> string option \<Rightarrow> bool" where
  "index_good k tenant x \<longleftrightarrow> True"

definition accounts_at :: "('s, 'p) accounts \<Rightarrow> 's \<Rightarrow> string \<Rightarrow> account option" where
  "accounts_at A s = model_of (as_repo A) account_kind (as_account A) s"

definition sessions_at :: "('s, 'p) accounts \<Rightarrow> 's \<Rightarrow> string \<Rightarrow> session option" where
  "sessions_at A s = model_of (as_repo A) session_kind (as_session A) s"

definition session_version :: "('s, 'p) accounts \<Rightarrow> 's \<Rightarrow> string \<Rightarrow> int" where
  "session_version A s = version_of (as_repo A) session_kind s"

definition index_at :: "('s, 'p) accounts \<Rightarrow> string \<Rightarrow> 's \<Rightarrow> string \<Rightarrow> string option option" where
  "index_at A kind s = model_of (as_repo A) kind (as_index A) s"

definition index_kinds :: "string set" where
  "index_kinds = {email_kind, mobile_kind, google_kind}"

definition stored_ok ::
  "('s, 'p) accounts \<Rightarrow> ('s \<Rightarrow> bool) \<Rightarrow> ('s \<Rightarrow> string \<Rightarrow> (string \<times> string \<times> int) option) \<Rightarrow> 's \<Rightarrow> bool" where
  "stored_ok A ok owner s \<longleftrightarrow>
     store_ok (as_repo A) ok owner account_kind account_kind (as_account A) account_good s
     \<and> store_ok (as_repo A) ok owner email_kind email_kind (as_index A) index_good s
     \<and> store_ok (as_repo A) ok owner mobile_kind mobile_kind (as_index A) index_good s
     \<and> store_ok (as_repo A) ok owner google_kind google_kind (as_index A) index_good s
     \<and> store_ok (as_repo A) ok owner session_kind session_kind (as_session A) session_good s
     \<and> tenancy_ok (as_tenancy A) ok owner s"

text \<open>What an account is found by, under each kind of index.\<close>

definition key_of :: "string \<Rightarrow> account \<Rightarrow> string option" where
  "key_of kind a = (if kind = email_kind then acc_email a else if kind = mobile_kind then acc_mobile a
     else acc_google_subject a)"

definition linked :: "('s, 'p) accounts \<Rightarrow> 's \<Rightarrow> bool" where
  "linked A s \<longleftrightarrow>
     (\<forall>i a kind k. accounts_at A s i = Some a \<longrightarrow> kind \<in> index_kinds \<longrightarrow> key_of kind a = Some k \<longrightarrow>
        index_at A kind s k = Some (Some i))
     \<and> (\<forall>h x. sessions_at A s h = Some x \<longrightarrow>
        (\<exists>a. accounts_at A s (se_account_id x) = Some a \<and> se_generation x \<le> acc_session_generation a))"

definition accounts_ok ::
  "('s, 'p) accounts \<Rightarrow> ('s \<Rightarrow> bool) \<Rightarrow> ('s \<Rightarrow> string \<Rightarrow> (string \<times> string \<times> int) option) \<Rightarrow> 's \<Rightarrow> bool" where
  "accounts_ok A ok owner s \<longleftrightarrow> stored_ok A ok owner s \<and> linked A s"

section \<open>What time does to them\<close>

definition same_names :: "account \<Rightarrow> account \<Rightarrow> bool" where
  "same_names a b \<longleftrightarrow> acc_account_id b = acc_account_id a \<and> acc_tenant_id b = acc_tenant_id a
     \<and> acc_email b = acc_email a \<and> acc_mobile b = acc_mobile a"

definition account_later :: "account \<Rightarrow> account \<Rightarrow> bool" where
  "account_later a b \<longleftrightarrow> b = a \<or> (acc_updated_at a < acc_updated_at b
     \<and> acc_session_generation a \<le> acc_session_generation b \<and> same_names a b)"

definition session_later :: "session \<Rightarrow> session \<Rightarrow> bool" where
  "session_later x y \<longleftrightarrow> se_token_hash y = se_token_hash x \<and> se_account_id y = se_account_id x
     \<and> se_tenant_id y = se_tenant_id x \<and> se_generation y = se_generation x
     \<and> (se_revoked_at x \<noteq> None \<longrightarrow> se_revoked_at y \<noteq> None)"

definition accounts_later :: "('s, 'p) accounts \<Rightarrow> 's \<Rightarrow> 's \<Rightarrow> bool" where
  "accounts_later A s s' \<longleftrightarrow>
     (\<forall>i a. accounts_at A s i = Some a \<longrightarrow> (\<exists>b. accounts_at A s' i = Some b \<and> account_later a b))
     \<and> (\<forall>kind \<in> {email_kind, mobile_kind}. \<forall>k x. index_at A kind s k = Some x \<longrightarrow> index_at A kind s' k = Some x)
     \<and> (\<forall>h x. sessions_at A s h = Some x \<longrightarrow> (\<exists>y. sessions_at A s' h = Some y \<and> session_later x y
          \<and> (session_version A s h < session_version A s' h
             \<or> session_version A s' h = session_version A s h \<and> y = x)))"

lemma account_later_refl: "account_later a a"
  by (simp add: account_later_def)

lemma account_later_trans: "account_later a b \<Longrightarrow> account_later b c \<Longrightarrow> account_later a c"
  unfolding account_later_def same_names_def by auto

lemma account_later_names: "account_later a b \<Longrightarrow> same_names a b"
  by (auto simp: account_later_def same_names_def)

lemma account_later_generation: "account_later a b \<Longrightarrow> acc_session_generation a \<le> acc_session_generation b"
  by (auto simp: account_later_def)

lemma account_later_stamp: "account_later a b \<Longrightarrow> acc_updated_at b = acc_updated_at a \<Longrightarrow> b = a"
  by (auto simp: account_later_def)

lemma session_later_refl: "session_later x x"
  by (simp add: session_later_def)

lemma session_later_trans: "session_later x y \<Longrightarrow> session_later y z \<Longrightarrow> session_later x z"
  by (simp add: session_later_def)

lemma accounts_later_refl: "accounts_later A s s"
  by (auto simp: accounts_later_def account_later_refl session_later_refl)

lemma accounts_later_account:
  "accounts_later A s s' \<Longrightarrow> accounts_at A s i = Some a \<Longrightarrow> \<exists>b. accounts_at A s' i = Some b \<and> account_later a b"
  unfolding accounts_later_def by blast

lemma accounts_later_session:
  "accounts_later A s s' \<Longrightarrow> sessions_at A s h = Some x \<Longrightarrow> \<exists>y. sessions_at A s' h = Some y \<and> session_later x y
    \<and> (session_version A s h < session_version A s' h \<or> session_version A s' h = session_version A s h \<and> y = x)"
  unfolding accounts_later_def by blast

lemma accounts_later_index:
  "accounts_later A s s' \<Longrightarrow> kind \<in> {email_kind, mobile_kind} \<Longrightarrow> index_at A kind s k = Some x \<Longrightarrow> index_at A kind s' k = Some x"
  unfolding accounts_later_def by blast

lemma accounts_later_trans:
  assumes "accounts_later A s t" and "accounts_later A t u"
  shows "accounts_later A s u"
  unfolding accounts_later_def
proof (intro conjI allI impI ballI)
  fix i a assume "accounts_at A s i = Some a"
  then obtain b where b: "accounts_at A t i = Some b" "account_later a b" using accounts_later_account [OF assms(1)] by blast
  obtain c where "accounts_at A u i = Some c" "account_later b c" using accounts_later_account [OF assms(2) b(1)] by blast
  then show "\<exists>b. accounts_at A u i = Some b \<and> account_later a b" using account_later_trans [OF b(2)] by blast
next
  fix kind k x assume "kind \<in> {email_kind, mobile_kind}" "index_at A kind s k = Some x"
  then show "index_at A kind u k = Some x" using accounts_later_index assms by metis
next
  fix h x assume "sessions_at A s h = Some x"
  from accounts_later_session [OF assms(1) this] obtain y where y: "sessions_at A t h = Some y" "session_later x y"
      "session_version A s h < session_version A t h \<or> session_version A t h = session_version A s h \<and> y = x" by blast
  from accounts_later_session [OF assms(2) y(1)] obtain z where z: "sessions_at A u h = Some z" "session_later y z"
      "session_version A t h < session_version A u h \<or> session_version A u h = session_version A t h \<and> z = y" by blast
  have "session_version A s h < session_version A u h \<or> session_version A u h = session_version A s h \<and> z = x"
    using y(3) z(3) by auto
  then show "\<exists>y. sessions_at A u h = Some y \<and> session_later x y
      \<and> (session_version A s h < session_version A u h \<or> session_version A u h = session_version A s h \<and> y = x)"
    using z(1) session_later_trans [OF y(2) z(2)] by blast
qed

text \<open>A copy of an account read at some time, and a session opened at some time.\<close>

definition seen :: "('s, 'p) accounts \<Rightarrow> account \<Rightarrow> 's \<Rightarrow> bool" where
  "seen A a s \<longleftrightarrow> account_valid a \<and> (\<exists>b. accounts_at A s (acc_account_id a) = Some b \<and> account_later a b)"

definition opened :: "('s, 'p) accounts \<Rightarrow> session \<Rightarrow> 's \<Rightarrow> bool" where
  "opened A x s \<longleftrightarrow> session_valid x \<and> (\<exists>y. sessions_at A s (se_token_hash x) = Some y \<and> session_later x y
     \<and> 1 \<le> session_version A s (se_token_hash x) \<and> (session_version A s (se_token_hash x) = 1 \<longrightarrow> y = x))"

lemma seen_lasting: "lasting I (accounts_later A) (seen A a)"
  unfolding lasting_def
proof (intro allI impI)
  fix s s' assume l: "accounts_later A s s'" and "seen A a s"
  then obtain b where b: "accounts_at A s (acc_account_id a) = Some b" "account_later a b" "account_valid a" by (auto simp: seen_def)
  show "seen A a s'" using accounts_later_account [OF l b(1)] account_later_trans [OF b(2)] b(3) by (auto simp: seen_def)
qed

lemma opened_lasting: "lasting I (accounts_later A) (opened A x)"
  unfolding lasting_def
proof (intro allI impI)
  fix s s' assume l: "accounts_later A s s'" and "opened A x s"
  then obtain y where valid: "session_valid x" and y: "sessions_at A s (se_token_hash x) = Some y" "session_later x y"
      "1 \<le> session_version A s (se_token_hash x)" "session_version A s (se_token_hash x) = 1 \<longrightarrow> y = x" by (auto simp: opened_def)
  show "opened A x s'" using accounts_later_session [OF l y(1)] session_later_trans [OF y(2)] y(3,4) valid
    by (fastforce simp: opened_def)
qed

section \<open>Writing\<close>

locale account_store = tenancy_store R ok owner T
  for R :: "('s, 'p) repository_ops" and ok and owner and T +
  fixes A :: "('s, 'p) accounts"
  assumes a_repo: "as_repo A = R" and a_tenancy: "as_tenancy A = T"
    and account_codec: "codec_ok account_valid (as_account A)"
    and session_codec: "codec_ok session_valid (as_session A)"
    and index_codec: "codec_ok (\<lambda>_. True) (as_index A)"
    and atomic: "undoes_on_error (as_transaction A)"
begin

sublocale acc: guarantee "accounts_ok A ok owner" "accounts_later A"
  by unfold_locales (simp_all add: accounts_later_refl, blast intro: accounts_later_trans)

abbreviation (input) AT where "AT \<equiv> triple (accounts_ok A ok owner) (accounts_later A)"

text \<open>A record of one kind leaves the stores of the others as they are.\<close>

lemma kept:
  assumes "store_ok R ok owner pre kind c good s" and "written_to R ok owner s r s'"
    and "pr_record_id r = rid own (pr_id r) (pr_version r)" and "0 \<le> pr_version r"
    and "pr_type r = own" and "own \<noteq> kind" and "own \<noteq> pre" and "CHR '':'' \<notin> set pre" and "CHR '':'' \<notin> set own"
  shows "store_ok R ok owner pre kind c good s' \<and> model_of R kind c s' = model_of R kind c s
    \<and> version_of R kind s' = version_of R kind s"
  using store_other [OF assms(1,2), where pre' = own] assms(3-) by auto

lemma stored_kinds:
  assumes "stored_ok A ok owner s"
  shows "store_ok R ok owner account_kind account_kind (as_account A) account_good s"
    and "store_ok R ok owner email_kind email_kind (as_index A) index_good s"
    and "store_ok R ok owner mobile_kind mobile_kind (as_index A) index_good s"
    and "store_ok R ok owner google_kind google_kind (as_index A) index_good s"
    and "store_ok R ok owner session_kind session_kind (as_session A) session_good s"
    and "store_ok R ok owner ''tenant'' tenant_kind (ty_tenant T) tenant_good s"
    and "store_ok R ok owner ''api-key'' key_kind (ty_key T) key_good s"
  using assms by (simp_all add: stored_ok_def a_repo a_tenancy tenancy_ok_def repo)

lemma tenancy_kept:
  assumes "stored_ok A ok owner s"
    and "store_ok R ok owner ''tenant'' tenant_kind (ty_tenant T) tenant_good s' \<and> model_of R tenant_kind (ty_tenant T) s' = model_of R tenant_kind (ty_tenant T) s"
    and "store_ok R ok owner ''api-key'' key_kind (ty_key T) key_good s' \<and> model_of R key_kind (ty_key T) s' = model_of R key_kind (ty_key T) s"
  shows "tenancy_ok T ok owner s'"
  using assms by (simp add: stored_ok_def a_tenancy tenancy_ok_def repo keys_of_def tenants_of_def)

lemma account_put:
  assumes s: "stored_ok A ok owner s" and r: "account_to_record A a v now = Inr r" and w: "written_to R ok owner s r s'"
    and v: "1 \<le> v" and a: "account_valid a"
  shows "stored_ok A ok owner s' \<and> accounts_at A s' = (accounts_at A s)(acc_account_id a \<mapsto> a)
    \<and> sessions_at A s' = sessions_at A s \<and> session_version A s' = session_version A s
    \<and> (\<forall>kind \<in> index_kinds. index_at A kind s' = index_at A kind s)"
proof -
  have "model_validate (as_account A) (model_dump (as_account A) a) = Some a"
    using account_codec a by (simp add: codec_ok_def)
  note sr' = new_precord_store [OF r [unfolded account_to_record_def] this]
  have sr: "store_record account_kind account_kind (as_account A) (acc_account_id a) v a r" "pr_tenant_id r = Some (acc_tenant_id a)"
    using sr' by simp_all
  have rec: "pr_record_id r = rid account_kind (pr_id r) (pr_version r)" "0 \<le> pr_version r" "pr_type r = account_kind"
    using sr v by (simp_all add: store_record_def)
  note k = stored_kinds [OF s]
  note keep = kept [OF _ w rec]
  have good: "account_good (acc_account_id a) (pr_tenant_id r) a" using a sr(2) by (simp add: account_good_def)
  note one = store_written [OF k(1) w sr(1) v good]
  note rest = keep [OF k(2)] keep [OF k(3)] keep [OF k(4)] keep [OF k(5)] keep [OF k(6)] keep [OF k(7)]
  have "tenancy_ok T ok owner s'" by (rule tenancy_kept [OF s]) (use rest in simp_all)
  then show ?thesis using one rest
    by (simp add: stored_ok_def a_repo a_tenancy accounts_at_def sessions_at_def session_version_def index_at_def index_kinds_def)
qed

lemma session_put:
  assumes s: "stored_ok A ok owner s" and r: "session_to_record A x v now = Inr r" and w: "written_to R ok owner s r s'"
    and v: "1 \<le> v" and a: "session_valid x"
  shows "stored_ok A ok owner s' \<and> sessions_at A s' = (sessions_at A s)(se_token_hash x \<mapsto> x)
    \<and> session_version A s' = (session_version A s)(se_token_hash x := v) \<and> accounts_at A s' = accounts_at A s
    \<and> (\<forall>kind \<in> index_kinds. index_at A kind s' = index_at A kind s)"
proof -
  have "model_validate (as_session A) (model_dump (as_session A) x) = Some x"
    using session_codec a by (simp add: codec_ok_def)
  note sr' = new_precord_store [OF r [unfolded session_to_record_def] this]
  have sr: "store_record session_kind session_kind (as_session A) (se_token_hash x) v x r" "pr_tenant_id r = Some (se_tenant_id x)"
    using sr' by simp_all
  have rec: "pr_record_id r = rid session_kind (pr_id r) (pr_version r)" "0 \<le> pr_version r" "pr_type r = session_kind"
    using sr v by (simp_all add: store_record_def)
  note k = stored_kinds [OF s]
  note keep = kept [OF _ w rec]
  have good: "session_good (se_token_hash x) (pr_tenant_id r) x" using a sr(2) by (simp add: session_good_def)
  note one = store_written [OF k(5) w sr(1) v good]
  note rest = keep [OF k(1)] keep [OF k(2)] keep [OF k(3)] keep [OF k(4)] keep [OF k(6)] keep [OF k(7)]
  have "tenancy_ok T ok owner s'" by (rule tenancy_kept [OF s]) (use rest in simp_all)
  then show ?thesis using one rest
    by (auto simp: stored_ok_def a_repo a_tenancy accounts_at_def sessions_at_def session_version_def index_at_def index_kinds_def)
qed

lemma index_put:
  assumes s: "stored_ok A ok owner s" and r: "index_to_record A kind k x tenant v now = Inr r" and w: "written_to R ok owner s r s'"
    and v: "1 \<le> v" and kind: "kind \<in> index_kinds"
  shows "stored_ok A ok owner s' \<and> index_at A kind s' = (index_at A kind s)(k \<mapsto> x)
    \<and> (\<forall>other \<in> index_kinds - {kind}. index_at A other s' = index_at A other s)
    \<and> accounts_at A s' = accounts_at A s \<and> sessions_at A s' = sessions_at A s \<and> session_version A s' = session_version A s"
proof -
  have "model_validate (as_index A) (model_dump (as_index A) x) = Some x"
    using index_codec by (simp add: codec_ok_def)
  note sr' = new_precord_store [OF r [unfolded index_to_record_def] this]
  have sr: "store_record kind kind (as_index A) k v x r" using sr' by simp_all
  have rec: "pr_record_id r = rid kind (pr_id r) (pr_version r)" "0 \<le> pr_version r" "pr_type r = kind"
    using sr v by (simp_all add: store_record_def)
  note st = stored_kinds [OF s]
  note keep = kept [OF _ w rec]
  have good: "index_good k (pr_tenant_id r) x" by (simp add: index_good_def)
  have ks: "kind = email_kind \<or> kind = mobile_kind \<or> kind = google_kind" using kind by (auto simp: index_kinds_def)
  then have colon: "CHR '':'' \<notin> set kind" and ne: "kind \<noteq> account_kind" "kind \<noteq> session_kind" "kind \<noteq> ''tenant''"
      "kind \<noteq> ''api-key''" "kind \<noteq> key_kind"
    by auto
  have "store_ok R ok owner kind kind (as_index A) index_good s" using ks st by auto
  note one = store_written [OF this w sr v good colon]
  have same: "store_ok R ok owner other other (as_index A) index_good s'
      \<and> (other \<noteq> kind \<longrightarrow> model_of R other (as_index A) s' = model_of R other (as_index A) s)" if "other \<in> index_kinds" for other
  proof (cases "other = kind")
    case False
    have so: "store_ok R ok owner other other (as_index A) index_good s" "CHR '':'' \<notin> set other"
      using that st by (auto simp: index_kinds_def)
    show ?thesis using keep [OF so(1)] so(2) False colon by simp
  qed (use one in simp)
  note rest = keep [OF st(1)] keep [OF st(5)] keep [OF st(6)] keep [OF st(7)]
  have rest: "store_ok R ok owner account_kind account_kind (as_account A) account_good s'
        \<and> model_of R account_kind (as_account A) s' = model_of R account_kind (as_account A) s"
      "store_ok R ok owner session_kind session_kind (as_session A) session_good s'
        \<and> model_of R session_kind (as_session A) s' = model_of R session_kind (as_session A) s
        \<and> version_of R session_kind s' = version_of R session_kind s"
    using keep [OF st(1)] keep [OF st(5)] ne colon by simp_all
  have "tenancy_ok T ok owner s'"
    by (rule tenancy_kept [OF s]) (use keep [OF st(6)] keep [OF st(7)] ne colon in simp_all)
  then show ?thesis using one(2) rest same same [unfolded index_kinds_def]
    by (simp add: stored_ok_def a_repo a_tenancy accounts_at_def sessions_at_def session_version_def index_at_def)
qed

text \<open>Running a write.\<close>

lemma create_cases:
  assumes run: "create_record A r s = (y, s')" and s: "stored_ok A ok owner s"
  obtains (failed) e where "y = Inl e" "s' = s"
  | (written) x where "y = Inr ()" "r (as_clock A s) = Inr x" "written_to R ok owner s x s'" "repo_get R s (pr_type x) (pr_id x) = None"
proof -
  have ok: "ok s" using stored_kinds(1) [OF s] by (simp add: store_ok_def)
  show thesis
  proof (cases "r (as_clock A s)")
    case (Inl e)
    then show ?thesis using run failed by (auto simp: create_record_def andthen_def of_result_def)
  next
    case (Inr x)
    show ?thesis
    proof (cases "repo_create R s x")
      case (Inl e)
      then show ?thesis using run failed \<open>r _ = _\<close> by (auto simp: create_record_def andthen_def of_result_def updates_def a_repo)
    next
      case (Inr t)
      note made = this
      show ?thesis
      proof (rule written)
        show "y = Inr ()" "r (as_clock A s) = Inr x" "written_to R ok owner s x s'" "repo_get R s (pr_type x) (pr_id x) = None"
          using run made \<open>r _ = _\<close> create_written [OF ok made] create_owner_none [OF ok made]
          by (simp_all add: create_record_def andthen_def of_result_def updates_def a_repo)
      qed
    qed
  qed
qed

lemma replace_cases:
  assumes run: "replace_record A r v s = (y, s')" and s: "stored_ok A ok owner s"
  obtains (failed) e where "y = Inl e" "s' = s"
  | (written) x where "y = Inr ()" "r (as_clock A s) = Inr x" "written_to R ok owner s x s'" "repo_replace R s x v = Inr s'"
proof -
  have ok: "ok s" using stored_kinds(1) [OF s] by (simp add: store_ok_def)
  show thesis
  proof (cases "\<exists>x t. r (as_clock A s) = Inr x \<and> repo_replace R s x v = Inr t")
    case True
    then obtain x t where x: "r (as_clock A s) = Inr x" "repo_replace R s x v = Inr t" by blast
    show ?thesis
      by (rule written [of x]) (use run x replace_written [OF ok x(2)] in
        \<open>simp_all add: replace_record_def andthen_def of_result_def updates_def a_repo\<close>)
  next
    case False
    then show ?thesis using run failed
      by (auto simp: replace_record_def andthen_def of_result_def updates_def a_repo split: sum.splits prod.splits)
  qed
qed

lemma on_conflict_run:
  "on_conflict e p s = (case p s of (Inl x, s') \<Rightarrow> (Inl (if is_conflict x then e else x), s') | (Inr x, s') \<Rightarrow> (Inr x, s'))"
  by (auto simp: on_conflict_def attempt_def raise_exn_def split: prod.split sum.split)

lemma account_get_run:
  assumes "stored_ok A ok owner s"
  shows "account_get A i s = (Inr (accounts_at A s i), s)"
  using stored_model [OF stored_kinds(1) [OF assms], of i]
  by (auto simp: account_get_def accounts_at_def andthen_def reads_def of_result_def ret_def a_repo split: option.splits)

lemma session_get_run:
  assumes "stored_ok A ok owner s"
  shows "session_get A h s = (Inr (map_option (\<lambda>x. (x, session_version A s h)) (sessions_at A s h)), s)"
  using stored_model [OF stored_kinds(5) [OF assms], of h]
  by (auto simp: session_get_def sessions_at_def session_version_def version_of_def andthen_def reads_def of_result_def ret_def a_repo
      split: option.splits)

lemma index_read_run:
  assumes "stored_ok A ok owner s" and "kind \<in> index_kinds"
  shows "\<exists>f. index_read A kind k s = (Inr (map_option f (index_at A kind s k)), s)
    \<and> (\<forall>x. f x = (x, version_of R kind s k))"
proof -
  have "store_ok R ok owner kind kind (as_index A) index_good s"
    using assms stored_kinds(2-4) [OF assms(1)] by (auto simp: index_kinds_def)
  from stored_model [OF this, of k] show ?thesis
    by (intro exI [of _ "\<lambda>x. (x, version_of R kind s k)"])
       (auto simp: index_read_def index_at_def version_of_def andthen_def reads_def of_result_def ret_def a_repo split: option.splits)
qed

lemma by_index_run:
  assumes "stored_ok A ok owner s" and "kind \<in> index_kinds"
  shows "by_index A kind k s = (Inr (case index_at A kind s k of Some (Some i) \<Rightarrow> accounts_at A s i | _ \<Rightarrow> None), s)"
proof -
  obtain f where "index_read A kind k s = (Inr (map_option f (index_at A kind s k)), s)" "\<And>x. f x = (x, version_of R kind s k)"
    using index_read_run [OF assms] by blast
  then show ?thesis
    by (auto simp: by_index_def andthen_def ret_def account_get_run [OF assms(1)] split: option.splits)
qed

lemma tenant_active_run:
  assumes "stored_ok A ok owner s"
  shows "tenant_active A i s = (Inr (map_option tn_status (tenants_of T s i) = Some TENANT_ACTIVE), s)"
proof -
  have "tenancy_ok T ok owner s" using assms by (simp add: stored_ok_def a_tenancy)
  then show ?thesis
    by (auto simp: tenant_active_def andthen_def ret_def a_tenancy tenant_find_run split: option.split)
qed

lemma account_update_run:
  assumes s: "stored_ok A ok owner s" and valid: "account_valid a" and run: "account_update A a s = (y, s')"
  shows "(\<exists>e. y = Inl e) \<and> s' = s \<or> (\<exists>cur t. accounts_at A s (acc_account_id a) = Some cur \<and> acc_updated_at cur = acc_updated_at a
    \<and> acc_updated_at a < t \<and> y = Inr (a\<lparr>acc_updated_at := t\<rparr>) \<and> stored_ok A ok owner s'
    \<and> accounts_at A s' = (accounts_at A s)(acc_account_id a \<mapsto> a\<lparr>acc_updated_at := t\<rparr>)
    \<and> sessions_at A s' = sessions_at A s \<and> session_version A s' = session_version A s
    \<and> (\<forall>kind \<in> index_kinds. index_at A kind s' = index_at A kind s))"
proof (cases "repo_get R s account_kind (acc_account_id a)")
  case None
  then show ?thesis using run by (auto simp: account_update_def andthen_def reads_def raise_exn_def a_repo)
next
  case (Some rec)
  then obtain cur where cur: "restore (as_account A) (pr_payload rec) = Inr cur" "accounts_at A s (acc_account_id a) = Some cur"
    using stored_model [OF stored_kinds(1) [OF s], of "acc_account_id a"] by (auto simp: accounts_at_def a_repo)
  have v: "1 \<le> pr_version rec" using stored_kinds(1) [OF s] Some unfolding store_ok_def by blast
  let ?t = "later_than (as_clock A s) (acc_updated_at a)"
  let ?b = "a\<lparr>acc_updated_at := ?t\<rparr>"
  have t: "acc_updated_at a < ?t" by (simp add: later_than_def)
  have b: "account_valid ?b" using valid by (simp add: account_valid_def)
  show ?thesis
  proof (cases "acc_updated_at cur = acc_updated_at a")
    case False
    then show ?thesis using run Some cur by (auto simp: account_update_def andthen_def reads_def of_result_def raise_exn_def a_repo)
  next
    case True
    obtain z s1 where rep: "replace_record A (account_to_record A ?b (pr_version rec + 1)) (pr_version rec) s = (z, s1)" by force
    have run': "(y, s') = (case z of Inl x \<Rightarrow> Inl (if is_conflict x then account_changed (acc_account_id a) else x) | Inr _ \<Rightarrow> Inr ?b, s1)"
      using run Some cur True rep
      by (auto simp: account_update_def andthen_def reads_def of_result_def ret_def on_conflict_run a_repo split: sum.splits)
    from rep s show ?thesis
    proof (cases rule: replace_cases)
      case failed
      then show ?thesis using run' by auto
    next
      case (written x)
      have "1 \<le> pr_version rec + 1" using v by simp
      note put = account_put [OF s written(2,3) this b]
      then show ?thesis using run' written(1) cur(2) True t by (intro disjI2 exI [of _ cur] exI [of _ ?t]) simp
    qed
  qed
qed

text \<open>Reading changes nothing, and the rest runs in a state that has what was read.\<close>

lemma t_lookup:
  assumes "\<And>s. accounts_ok A ok owner s \<Longrightarrow> p s = (Inr (g s), s)" and "\<And>x. AT (\<lambda>s. P s \<and> g s = x) (f x) Q"
  shows "AT P (andthen p f) Q"
  using assms unfolding triple_def by (simp add: andthen_def)

lemma t_in_transaction: "AT P p Q \<Longrightarrow> AT P (as_transaction A p) Q"
  using atomic unfolding triple_def undoes_on_error_def
  by (auto simp: accounts_later_refl split: sum.splits prod.splits)

lemma t_on_conflict: "AT P p Q \<Longrightarrow> AT P (on_conflict e p) Q"
  unfolding triple_def on_conflict_run by (auto split: sum.splits prod.splits)

text \<open>An account written again, over the copy that is stored.\<close>

lemma accounts_okD:
  assumes "accounts_ok A ok owner s"
  shows "stored_ok A ok owner s" and "linked A s"
  using assms by (simp_all add: accounts_ok_def)

lemma stored_account:
  assumes "stored_ok A ok owner s" and "accounts_at A s i = Some a"
  shows "account_valid a" and "acc_account_id a = i"
  using store_ok_good [OF stored_kinds(1) [OF assms(1)], of i a] assms(2)
  by (auto simp: accounts_at_def a_repo account_good_def)

lemma stored_session:
  assumes "stored_ok A ok owner s" and "sessions_at A s h = Some x"
  shows "session_valid x" and "se_token_hash x = h" and "1 \<le> session_version A s h"
proof -
  show "session_valid x" "se_token_hash x = h"
    using store_ok_good [OF stored_kinds(5) [OF assms(1)], of h x] assms(2)
    by (auto simp: sessions_at_def a_repo session_good_def)
  show "1 \<le> session_version A s h"
    using version_pos [OF stored_kinds(5) [OF assms(1)], of h] assms(2)
    by (simp add: session_version_def sessions_at_def a_repo)
qed

lemma stored_seen: "stored_ok A ok owner s \<Longrightarrow> accounts_at A s i = Some a \<Longrightarrow> seen A a s"
  using stored_account by (fastforce simp: seen_def account_later_refl)

lemma linked_index:
  "linked A s \<Longrightarrow> accounts_at A s i = Some a \<Longrightarrow> kind \<in> index_kinds \<Longrightarrow> key_of kind a = Some k \<Longrightarrow> index_at A kind s k = Some (Some i)"
  unfolding linked_def by blast

lemma linked_session:
  "linked A s \<Longrightarrow> sessions_at A s h = Some x \<Longrightarrow>
    \<exists>a. accounts_at A s (se_account_id x) = Some a \<and> se_generation x \<le> acc_session_generation a"
  unfolding linked_def by blast

lemma account_over:
  assumes s: "accounts_ok A ok owner s" and s': "stored_ok A ok owner s'"
    and cur: "accounts_at A s i = Some cur" and b: "same_names cur b" "acc_session_generation cur \<le> acc_session_generation b"
      "acc_updated_at cur < acc_updated_at b"
    and written: "accounts_at A s' = (accounts_at A s)(i \<mapsto> b)"
    and sessions: "sessions_at A s' = sessions_at A s" "session_version A s' = session_version A s"
    and names: "\<forall>kind \<in> {email_kind, mobile_kind}. index_at A kind s' = index_at A kind s"
    and google: "\<And>g. acc_google_subject b = Some g \<Longrightarrow> index_at A google_kind s' g = Some (Some i)"
    and others: "\<And>j g. j \<noteq> i \<Longrightarrow> index_at A google_kind s g = Some (Some j) \<Longrightarrow> index_at A google_kind s' g = Some (Some j)"
  shows "accounts_ok A ok owner s' \<and> accounts_later A s s'"
proof -
  note l = accounts_okD(2) [OF s]
  have index: "index_at A kind s' k = Some (Some j)"
    if "accounts_at A s' j = Some a" "kind \<in> index_kinds" "key_of kind a = Some k" for j a kind k
  proof (cases "j = i")
    case False
    then have "index_at A kind s k = Some (Some j)" using linked_index [OF l _ that(2,3)] that(1) written by simp
    then show ?thesis using names others [OF False] that(2) by (auto simp: index_kinds_def)
  next
    case True
    then have a: "a = b" using that(1) written by simp
    show ?thesis
    proof (cases "kind = google_kind")
      case True
      then show ?thesis using google that(3) a \<open>j = i\<close> by (simp add: key_of_def)
    next
      case False
      then have "key_of kind cur = Some k" using that(2,3) a b(1) by (auto simp: key_of_def index_kinds_def same_names_def)
      then have "index_at A kind s k = Some (Some j)" using linked_index [OF l cur that(2)] True by simp
      then show ?thesis using names that(2) False by (auto simp: index_kinds_def)
    qed
  qed
  have bound: "\<exists>a. accounts_at A s' (se_account_id x) = Some a \<and> se_generation x \<le> acc_session_generation a"
    if x: "sessions_at A s' h = Some x" for h x
  proof -
    have "sessions_at A s h = Some x" using x sessions(1) by simp
    from linked_session [OF l this] obtain a where a: "accounts_at A s (se_account_id x) = Some a"
        "se_generation x \<le> acc_session_generation a" by blast
    show ?thesis using a cur b(2) written by (cases "se_account_id x = i") auto
  qed
  have "linked A s'" unfolding linked_def using index bound by blast
  moreover have "accounts_later A s s'"
    using cur b written sessions names account_later_refl session_later_refl
    by (auto simp: accounts_later_def account_later_def)
  ultimately show ?thesis using s' by (simp add: accounts_ok_def)
qed

end

text \<open>What a copy may be changed to before it is written: not its names and not its stamp.\<close>

definition edit :: "account \<Rightarrow> account \<Rightarrow> bool" where
  "edit a b \<longleftrightarrow> same_names a b \<and> acc_updated_at b = acc_updated_at a
     \<and> acc_session_generation a \<le> acc_session_generation b \<and> account_valid b"

context account_store
begin

lemma t_update:
  assumes e: "edit a b"
  shows "AT (\<lambda>s. seen A a s \<and> (\<forall>g. acc_google_subject b = Some g \<longrightarrow>
        acc_google_subject a = Some g \<or> index_at A google_kind s g = Some (Some (acc_account_id a))))
    (account_update A b)
    (\<lambda>c s. \<exists>t. c = b\<lparr>acc_updated_at := t\<rparr> \<and> accounts_at A s (acc_account_id a) = Some c)"
  unfolding triple_def
proof (intro allI impI, elim conjE)
  fix s assume s: "accounts_ok A ok owner s" and copy: "seen A a s"
    and google: "\<forall>g. acc_google_subject b = Some g \<longrightarrow>
        acc_google_subject a = Some g \<or> index_at A google_kind s g = Some (Some (acc_account_id a))"
  let ?i = "acc_account_id a"
  have id: "acc_account_id b = ?i" using e by (simp add: edit_def same_names_def)
  obtain y s' where run: "account_update A b s = (y, s')" by force
  note so = accounts_okD [OF s]
  have valid: "account_valid b" using e by (simp add: edit_def)
  from account_update_run [OF so(1) valid run]
  show "accounts_ok A ok owner (snd (account_update A b s)) \<and> accounts_later A s (snd (account_update A b s))
      \<and> (\<forall>x. fst (account_update A b s) = Inr x \<longrightarrow>
          (\<exists>t. x = b\<lparr>acc_updated_at := t\<rparr> \<and> accounts_at A (snd (account_update A b s)) ?i = Some x))"
  proof (elim disjE exE conjE)
    fix ex assume "y = Inl ex" "s' = s"
    then show ?thesis using s run by (simp add: accounts_later_refl)
  next
    fix cur t assume cur: "accounts_at A s (acc_account_id b) = Some cur" "acc_updated_at cur = acc_updated_at b" "acc_updated_at b < t"
      and y: "y = Inr (b\<lparr>acc_updated_at := t\<rparr>)" and s': "stored_ok A ok owner s'"
      and w: "accounts_at A s' = (accounts_at A s)(acc_account_id b \<mapsto> b\<lparr>acc_updated_at := t\<rparr>)"
      "sessions_at A s' = sessions_at A s" "session_version A s' = session_version A s"
      "\<forall>kind \<in> index_kinds. index_at A kind s' = index_at A kind s"
    obtain c where c: "accounts_at A s ?i = Some c" "account_later a c" using copy by (auto simp: seen_def)
    then have "account_later a cur" using cur(1) id by simp
    then have same: "cur = a" by (rule account_later_stamp) (use cur(2) e in \<open>simp add: edit_def\<close>)
    have "accounts_ok A ok owner s' \<and> accounts_later A s s'"
    proof (rule account_over [OF s s' cur(1)])
      show "same_names cur (b\<lparr>acc_updated_at := t\<rparr>)"
          "acc_session_generation cur \<le> acc_session_generation (b\<lparr>acc_updated_at := t\<rparr>)"
        using e same by (simp_all add: edit_def same_names_def)
      show "acc_updated_at cur < acc_updated_at (b\<lparr>acc_updated_at := t\<rparr>)" using cur by simp
      show "accounts_at A s' = (accounts_at A s)(acc_account_id b \<mapsto> b\<lparr>acc_updated_at := t\<rparr>)" by (rule w(1))
      show "\<forall>kind \<in> {email_kind, mobile_kind}. index_at A kind s' = index_at A kind s"
        using w(4) by (simp add: index_kinds_def)
      fix g assume g: "acc_google_subject (b\<lparr>acc_updated_at := t\<rparr>) = Some g"
      have gk: "google_kind \<in> index_kinds" by (simp add: index_kinds_def)
      have "index_at A google_kind s g = Some (Some ?i)"
      proof (cases "acc_google_subject a = Some g")
        case True
        then show ?thesis using linked_index [OF so(2) _ gk, of ?i a g] cur(1) id same by (simp add: key_of_def)
      qed (use google g in auto)
      then show "index_at A google_kind s' g = Some (Some (acc_account_id b))" using w(4) gk id by simp
    qed (use w in \<open>simp_all add: index_kinds_def\<close>)
    then show ?thesis using run y w(1) id by auto
  qed
qed

section \<open>The operations of the two stores\<close>

lemma index_over:
  assumes s: "accounts_ok A ok owner s" and s': "stored_ok A ok owner s'" and kind: "kind \<in> index_kinds"
    and w: "index_at A kind s' = (index_at A kind s)(k \<mapsto> x)" "\<forall>other \<in> index_kinds - {kind}. index_at A other s' = index_at A other s"
      "accounts_at A s' = accounts_at A s" "sessions_at A s' = sessions_at A s" "session_version A s' = session_version A s"
    and free: "\<And>j. index_at A kind s k = Some (Some j) \<Longrightarrow> accounts_at A s j = None"
    and new: "kind \<noteq> google_kind \<Longrightarrow> index_at A kind s k = None"
  shows "accounts_ok A ok owner s' \<and> accounts_later A s s'"
proof -
  note l = accounts_okD(2) [OF s]
  have index: "index_at A other s' n = Some (Some j)"
    if a: "accounts_at A s' j = Some a" and o: "other \<in> index_kinds" and n: "key_of other a = Some n" for j a other n
  proof -
    have old: "index_at A other s n = Some (Some j)" using linked_index [OF l _ o n] a w(3) by simp
    show ?thesis
    proof (cases "other = kind")
      case True
      have "n \<noteq> k" using free [of j] old a w(3) True by auto
      then show ?thesis using old w(1) True by simp
    next
      case False
      then show ?thesis using old w(2) o by simp
    qed
  qed
  have "linked A s'" unfolding linked_def using index linked_session [OF l] w(3,4) by metis
  moreover have "accounts_later A s s'"
    unfolding accounts_later_def
  proof (intro conjI allI impI ballI)
    fix other n y assume o: "other \<in> {email_kind, mobile_kind}" and y: "index_at A other s n = Some y"
    show "index_at A other s' n = Some y"
    proof (cases "other = kind")
      case True
      then have "index_at A kind s k = None" using new o by auto
      then have "n \<noteq> k" using y True by auto
      then show ?thesis using y w(1) True by simp
    next
      case False
      then show ?thesis using y w(2) o by (auto simp: index_kinds_def)
    qed
  qed (use w account_later_refl session_later_refl in auto)
  ultimately show ?thesis using s' by (simp add: accounts_ok_def)
qed

lemma t_index_create:
  assumes kind: "kind \<in> index_kinds"
  shows "AT (\<lambda>_. True) (create_record A (index_to_record A kind k x tenant 1)) (\<lambda>_ s. index_at A kind s k = Some x)"
  unfolding triple_def
proof (intro allI impI)
  fix s assume s: "accounts_ok A ok owner s"
  let ?p = "create_record A (index_to_record A kind k x tenant 1)"
  obtain y s' where run: "?p s = (y, s')" by force
  note so = accounts_okD(1) [OF s]
  from run so have "(accounts_ok A ok owner s' \<and> accounts_later A s s') \<and> (\<forall>u. y = Inr u \<longrightarrow> index_at A kind s' k = Some x)"
  proof (cases rule: create_cases)
    case failed
    then show ?thesis using s by (simp add: accounts_later_refl)
  next
    case (written r)
    have "(1::int) \<le> 1" by simp
    note put = index_put [OF so written(2,3) this kind]
    have "pr_type r = kind" "pr_id r = k"
      using written(2) by (auto simp: index_to_record_def new_precord_def Let_def split: if_splits)
    then have none: "index_at A kind s k = None" using written(4) by (simp add: index_at_def model_of_def a_repo)
    have "accounts_ok A ok owner s' \<and> accounts_later A s s'"
      by (rule index_over [OF s _ kind, where k = k and x = x]) (use put none in simp_all)
    then show ?thesis using put by simp
  qed
  then show "accounts_ok A ok owner (snd (?p s)) \<and> accounts_later A s (snd (?p s))
      \<and> (\<forall>u. fst (?p s) = Inr u \<longrightarrow> index_at A kind (snd (?p s)) k = Some x)"
    using run by simp
qed

lemma t_account_write:
  assumes a: "account_valid a" "acc_google_subject a = None"
  shows "AT (\<lambda>s. \<forall>kind \<in> {email_kind, mobile_kind}. \<forall>k. key_of kind a = Some k \<longrightarrow> index_at A kind s k = Some (Some (acc_account_id a)))
    (create_record A (account_to_record A a 1)) (\<lambda>_ s. accounts_at A s (acc_account_id a) = Some a)"
  unfolding triple_def
proof (intro allI impI)
  fix s assume s: "accounts_ok A ok owner s"
    and names: "\<forall>kind \<in> {email_kind, mobile_kind}. \<forall>k. key_of kind a = Some k \<longrightarrow> index_at A kind s k = Some (Some (acc_account_id a))"
  let ?p = "create_record A (account_to_record A a 1)" and ?i = "acc_account_id a"
  obtain y s' where run: "?p s = (y, s')" by force
  note so = accounts_okD [OF s]
  from run so(1) have "(accounts_ok A ok owner s' \<and> accounts_later A s s') \<and> (\<forall>u. y = Inr u \<longrightarrow> accounts_at A s' ?i = Some a)"
  proof (cases rule: create_cases)
    case failed
    then show ?thesis using s by (simp add: accounts_later_refl)
  next
    case (written r)
    have "(1::int) \<le> 1" by simp
    note put = account_put [OF so(1) written(2,3) this a(1)]
    have "pr_type r = account_kind" "pr_id r = ?i"
      using written(2) by (auto simp: account_to_record_def new_precord_def Let_def split: if_splits)
    then have none: "accounts_at A s ?i = None" using written(4) by (simp add: accounts_at_def model_of_def a_repo)
    have index: "index_at A kind s' k = Some (Some j)"
      if "accounts_at A s' j = Some b" "kind \<in> index_kinds" "key_of kind b = Some k" for j b kind k
    proof (cases "j = ?i")
      case True
      then have "b = a" using that(1) put by simp
      then show ?thesis using True that(2,3) names put a(2) by (auto simp: index_kinds_def key_of_def)
    next
      case False
      then show ?thesis using that put linked_index [OF so(2), of j b kind k] by simp
    qed
    have bound: "\<exists>c. accounts_at A s' (se_account_id x) = Some c \<and> se_generation x \<le> acc_session_generation c"
      if "sessions_at A s' h = Some x" for h x
      using linked_session [OF so(2), of h x] that put none by auto
    have "linked A s'" unfolding linked_def using index bound by blast
    moreover have "accounts_later A s s'"
      using put none account_later_refl session_later_refl by (auto simp: accounts_later_def index_kinds_def)
    ultimately show ?thesis using put by (simp add: accounts_ok_def)
  qed
  then show "accounts_ok A ok owner (snd (?p s)) \<and> accounts_later A s (snd (?p s))
      \<and> (\<forall>u. fst (?p s) = Inr u \<longrightarrow> accounts_at A (snd (?p s)) ?i = Some a)"
    using run by simp
qed

lemma t_name:
  assumes "kind \<in> {email_kind, mobile_kind}"
  shows "AT (\<lambda>_. True) (case n of None \<Rightarrow> ret () | Some k \<Rightarrow> on_conflict (e k) (create_record A (index_to_record A kind k (Some i) tenant 1)))
    (\<lambda>_ s. \<forall>k. n = Some k \<longrightarrow> index_at A kind s k = Some (Some i))"
proof (cases n)
  case (Some k)
  have "kind \<in> index_kinds" using assms by (auto simp: index_kinds_def)
  from t_on_conflict [OF t_index_create [OF this]] show ?thesis unfolding Some option.case
    by (rule acc.t_weaken) simp_all
qed (simp add: acc.t_ret)

lemma t_account_create:
  assumes a: "account_valid a" "acc_google_subject a = None"
  shows "AT (\<lambda>_. True) (account_create A a) (\<lambda>b s. b = a \<and> accounts_at A s (acc_account_id a) = Some a)"
proof -
  let ?i = "acc_account_id a"
  let ?E = "\<lambda>s. \<forall>k. acc_email a = Some k \<longrightarrow> index_at A email_kind s k = Some (Some ?i)"
  let ?M = "\<lambda>s. \<forall>k. acc_mobile a = Some k \<longrightarrow> index_at A mobile_kind s k = Some (Some ?i)"
  have E: "lasting (accounts_ok A ok owner) (accounts_later A) ?E"
    unfolding lasting_def
  proof (intro allI impI)
    fix s s' k assume later: "accounts_later A s s'" and had: "?E s" and k: "acc_email a = Some k"
    show "index_at A email_kind s' k = Some (Some ?i)" using accounts_later_index [OF later, of email_kind k "Some ?i"] had k by simp
  qed
  have email: "AT (\<lambda>_. True) (case acc_email a of None \<Rightarrow> ret () | Some e \<Rightarrow> on_conflict (Exn AccountExistsError
      (''An account with this email already exists: '' @ e))
      (create_record A (index_to_record A email_kind e (Some ?i) (Some (acc_tenant_id a)) 1))) (\<lambda>_. ?E)"
    by (rule t_name) simp
  have mobile: "AT (\<lambda>_. True) (case acc_mobile a of None \<Rightarrow> ret () | Some m \<Rightarrow> on_conflict (Exn AccountExistsError
      ''An account with this mobile number already exists.'')
      (create_record A (index_to_record A mobile_kind m (Some ?i) (Some (acc_tenant_id a)) 1))) (\<lambda>_. ?M)"
    by (rule t_name) simp
  have row: "AT (\<lambda>s. ?M s \<and> ?E s) (create_record A (account_to_record A a 1)) (\<lambda>_ s. accounts_at A s ?i = Some a)"
    by (rule acc.t_weaken [OF t_account_write [OF a]]) (auto simp: key_of_def)
  have last: "AT (\<lambda>s. ?M s \<and> ?E s) (andthen (create_record A (account_to_record A a 1)) (\<lambda>_. ret a))
      (\<lambda>b s. b = a \<and> accounts_at A s ?i = Some a)"
    by (rule acc.t_andthen [OF row]) (rule acc.t_ret, simp)
  show ?thesis unfolding account_create_def
    by (rule t_in_transaction, rule acc.t_andthen [OF email], rule acc.t_andthen_lasting [OF mobile E], rule last)
qed

lemma t_claim:
  "AT (\<lambda>_. True) (claim_google A i g) (\<lambda>_ s. index_at A google_kind s g = Some (Some i))"
  unfolding triple_def
proof (intro allI impI)
  fix s assume s: "accounts_ok A ok owner s"
  note so = accounts_okD [OF s]
  have gk: "google_kind \<in> index_kinds" by (simp add: index_kinds_def)
  obtain f where read: "index_read A google_kind g s = (Inr (map_option f (index_at A google_kind s g)), s)"
      and f: "\<And>x. f x = (x, version_of R google_kind s g)"
    using index_read_run [OF so(1) gk] by blast
  let ?p = "claim_google A i g"
  show "accounts_ok A ok owner (snd (?p s)) \<and> accounts_later A s (snd (?p s))
      \<and> (\<forall>u. fst (?p s) = Inr u \<longrightarrow> index_at A google_kind (snd (?p s)) g = Some (Some i))"
  proof (cases "index_at A google_kind s g")
    case None
    have run: "?p s = on_conflict (Exn AccountExistsError ''This Google account is already linked to an account.'')
        (create_record A (index_to_record A google_kind g (Some i) None 1)) s"
      using read None by (simp add: claim_google_def andthen_def points_to_def Let_def)
    show ?thesis unfolding run using t_on_conflict [OF t_index_create [OF gk]] s unfolding triple_def by blast
  next
    case (Some x)
    show ?thesis
    proof (cases "x = None \<or> x = Some []")
      case False
      then have "?p s = (Inl (Exn AccountExistsError ''This Google account is already linked to an account.''), s)"
        using read Some f by (auto simp: claim_google_def andthen_def points_to_def Let_def raise_exn_def)
      then show ?thesis using s by (simp add: accounts_later_refl)
    next
      case True
      let ?v = "version_of R google_kind s g"
      let ?q = "replace_record A (index_to_record A google_kind g (Some i) None (?v + 1)) ?v"
      obtain y s' where q: "?q s = (y, s')" by force
      have run: "?p s = on_conflict (Exn AccountExistsError ''This Google account is already linked to an account.'') ?q s"
        using read Some f True by (auto simp: claim_google_def andthen_def points_to_def Let_def)
      from q so(1) have "(accounts_ok A ok owner s' \<and> accounts_later A s s') \<and> (\<forall>u. y = Inr u \<longrightarrow> index_at A google_kind s' g = Some (Some i))"
      proof (cases rule: replace_cases)
        case failed
        then show ?thesis using s by (simp add: accounts_later_refl)
      next
        case (written r)
        have "0 \<le> ?v" using version_pos [OF stored_kinds(4) [OF so(1)], of g] by simp
        then have "1 \<le> ?v + 1" by simp
        note put = index_put [OF so(1) written(2,3) this gk]
        have "accounts_at A s j = None" if "index_at A google_kind s g = Some (Some j)" for j
        proof -
          have "j = []" using that Some True by simp
          show ?thesis
          proof (cases "accounts_at A s j")
            case (Some b)
            then have "account_valid b" "acc_account_id b = []" using stored_account [OF so(1)] \<open>j = []\<close> by auto
            then show ?thesis by (simp add: account_valid_def length_between_def)
          qed simp
        qed
        then have "accounts_ok A ok owner s' \<and> accounts_later A s s'"
          by (intro index_over [OF s _ gk, where k = g and x = "Some i"]) (use put in simp_all)
        then show ?thesis using put by simp
      qed
      then show ?thesis using run q by (auto simp: on_conflict_run split: sum.split)
    qed
  qed
qed

lemma t_bind_once:
  "AT (\<lambda>_. True) (bind_once A i g) (\<lambda>b s. seen A b s \<and> acc_account_id b = i)"
proof -
  have body: "AT (\<lambda>s. accounts_at A s i = x) (case x of
       None \<Rightarrow> raise_exn (Exn AccountExistsError ''This account cannot take this Google account.'')
     | Some current \<Rightarrow>
         if acc_status current \<noteq> ACCOUNT_ACTIVE \<or> \<not> acc_google_link_allowed current
            \<or> acc_google_subject current \<notin> {None, Some g}
         then raise_exn (Exn AccountExistsError ''This account cannot take this Google account.'')
         else andthen (claim_google A i g) (\<lambda>_. account_update A (current\<lparr>acc_google_subject := Some g\<rparr>)))
      (\<lambda>b s. seen A b s \<and> acc_account_id b = i)" for x
  proof (cases x)
    case (Some c)
    show ?thesis
    proof (cases "account_valid c \<and> acc_account_id c = i")
      case True
      let ?b = "c\<lparr>acc_google_subject := Some g\<rparr>"
      have "account_valid ?b" using True by (auto simp: account_valid_def)
      then have e: "edit c ?b" by (simp add: edit_def same_names_def)
      have up: "AT (\<lambda>s. index_at A google_kind s g = Some (Some i) \<and> seen A c s) (account_update A ?b) (\<lambda>b s. seen A b s \<and> acc_account_id b = i)"
        by (rule acc.t_weaken [OF t_update [OF e]]) (use True \<open>account_valid ?b\<close> in \<open>auto simp: seen_def account_valid_def account_later_refl\<close>)
      have "AT (seen A c) (andthen (claim_google A i g) (\<lambda>_. account_update A ?b)) (\<lambda>b s. seen A b s \<and> acc_account_id b = i)"
        by (rule acc.t_andthen_lasting [OF t_claim seen_lasting]) (rule up)
      then have "AT (\<lambda>s. accounts_at A s i = Some c) (andthen (claim_google A i g) (\<lambda>_. account_update A ?b)) (\<lambda>b s. seen A b s \<and> acc_account_id b = i)"
        using stored_seen accounts_okD(1) unfolding triple_def by blast
      then show ?thesis unfolding Some option.case by (intro acc.t_if acc.t_raise)
    next
      case False
      then have "\<not> (accounts_ok A ok owner s \<and> accounts_at A s i = Some c)" for s
        using stored_account accounts_okD(1) by blast
      then show ?thesis unfolding triple_def Some by blast
    qed
  qed (simp add: acc.t_raise)
  have "AT (\<lambda>s. True \<and> accounts_at A s i = x) p Q = AT (\<lambda>s. accounts_at A s i = x) p Q" for x and p :: "('s, account) prog" and Q
    by simp
  then show ?thesis unfolding bind_once_def
    by (intro t_in_transaction t_lookup [where g = "\<lambda>s. accounts_at A s i"])
       (use account_get_run accounts_okD(1) body in simp_all)
qed

lemma t_bind_tries: "AT (\<lambda>_. True) (bind_tries A n i g) (\<lambda>b s. seen A b s \<and> acc_account_id b = i)"
  by (induction n) (auto intro!: acc.t_raise acc.t_attempt t_bind_once)

text \<open>
  Cutting an account off from Google: the index record is emptied before the account is written, so
  what is kept is kept by the transaction as a whole.
\<close>

lemma unlink_body:
  assumes s: "accounts_ok A ok owner s" and copy: "seen A a s" and e: "edit a b" and b: "acc_google_subject b = None"
    and s1: "stored_ok A ok owner s1"
    and w: "accounts_at A s1 = accounts_at A s" "sessions_at A s1 = sessions_at A s" "session_version A s1 = session_version A s"
      "\<forall>kind \<in> {email_kind, mobile_kind}. index_at A kind s1 = index_at A kind s"
    and others: "\<And>j g. j \<noteq> acc_account_id a \<Longrightarrow> index_at A google_kind s g = Some (Some j) \<Longrightarrow> index_at A google_kind s1 g = Some (Some j)"
    and run: "account_update A b s1 = (Inr c, s')"
  shows "accounts_ok A ok owner s' \<and> accounts_later A s s' \<and> (\<exists>t. c = b\<lparr>acc_updated_at := t\<rparr>)
    \<and> accounts_at A s' (acc_account_id a) = Some c"
proof -
  have id: "acc_account_id b = acc_account_id a" and valid: "account_valid b" using e by (simp_all add: edit_def same_names_def)
  from account_update_run [OF s1 valid run] obtain cur t where
      cur: "accounts_at A s1 (acc_account_id b) = Some cur" "acc_updated_at cur = acc_updated_at b" "acc_updated_at b < t"
      and c: "c = b\<lparr>acc_updated_at := t\<rparr>" and s': "stored_ok A ok owner s'"
      and w': "accounts_at A s' = (accounts_at A s1)(acc_account_id b \<mapsto> b\<lparr>acc_updated_at := t\<rparr>)"
      "sessions_at A s' = sessions_at A s1" "session_version A s' = session_version A s1"
      "\<forall>kind \<in> index_kinds. index_at A kind s' = index_at A kind s1" by auto
  obtain a' where "accounts_at A s (acc_account_id a) = Some a'" "account_later a a'" using copy by (auto simp: seen_def)
  then have "account_later a cur" using cur(1) id w(1) by simp
  then have same: "cur = a" by (rule account_later_stamp) (use cur(2) e in \<open>simp add: edit_def\<close>)
  have ix: "index_at A google_kind s' = index_at A google_kind s1" using w'(4) by (simp add: index_kinds_def)
  have "accounts_ok A ok owner s' \<and> accounts_later A s s'"
  proof (rule account_over [OF s s'])
    show "accounts_at A s (acc_account_id a) = Some cur" using cur(1) id w(1) by simp
    show "same_names cur c" "acc_session_generation cur \<le> acc_session_generation c" "acc_updated_at cur < acc_updated_at c"
      using e same c cur(3) by (simp_all add: edit_def same_names_def)
    show "accounts_at A s' = (accounts_at A s)(acc_account_id a \<mapsto> c)" using w'(1) w(1) id c by simp
    show "\<forall>kind \<in> {email_kind, mobile_kind}. index_at A kind s' = index_at A kind s"
      using w'(4) w(4) by (simp add: index_kinds_def)
  qed (use w w' others ix b c in auto)
  then show ?thesis using c w'(1) id by auto
qed

lemma empty_google_run:
  assumes s: "accounts_ok A ok owner s" and run: "empty_google A a s = (Inr (), s1)"
  shows "stored_ok A ok owner s1 \<and> accounts_at A s1 = accounts_at A s \<and> sessions_at A s1 = sessions_at A s
      \<and> session_version A s1 = session_version A s
      \<and> (\<forall>kind \<in> {email_kind, mobile_kind}. index_at A kind s1 = index_at A kind s)
      \<and> (\<forall>j g. j \<noteq> acc_account_id a \<longrightarrow> index_at A google_kind s g = Some (Some j) \<longrightarrow> index_at A google_kind s1 g = Some (Some j))"
proof (cases "s1 = s")
  case False
  note so = accounts_okD [OF s]
  obtain g where g: "acc_google_subject a = Some g" "g \<noteq> []"
    using run False by (auto simp: empty_google_def ret_def split: option.splits if_splits)
  have gk: "google_kind \<in> index_kinds" by (simp add: index_kinds_def)
  obtain f where read: "index_read A google_kind g s = (Inr (map_option f (index_at A google_kind s g)), s)"
      and f: "\<And>x. f x = (x, version_of R google_kind s g)"
    using index_read_run [OF so(1) gk] by blast
  let ?v = "version_of R google_kind s g"
  let ?q = "replace_record A (index_to_record A google_kind g None None (?v + 1)) ?v"
  have own: "index_at A google_kind s g = Some (Some (acc_account_id a))" and "on_conflict (account_changed (acc_account_id a)) ?q s = (Inr (), s1)"
    using run g read f False by (auto simp: empty_google_def andthen_def ret_def split: option.splits if_splits)
  then have q: "?q s = (Inr (), s1)" by (auto simp: on_conflict_run split: prod.splits sum.splits)
  from q so(1) show ?thesis
  proof (cases rule: replace_cases)
    case (written r)
    have "0 \<le> ?v" using version_pos [OF stored_kinds(4) [OF so(1)], of g] by simp
    then have "1 \<le> ?v + 1" by simp
    from index_put [OF so(1) written(2,3) this gk] show ?thesis using own by (auto simp: index_kinds_def)
  qed auto
qed (use accounts_okD(1) [OF s] in simp)

lemma unlink_run:
  "store_unlink_google A a ch s = (case empty_google A a s of (Inl e, _) \<Rightarrow> (Inl e, s)
    | (Inr _, s1) \<Rightarrow> (case account_update A (ch (a\<lparr>acc_google_subject := None, acc_google_link_allowed := False\<rparr>)) s1 of
        (Inl e, _) \<Rightarrow> (Inl e, s) | (Inr c, s2) \<Rightarrow> (Inr c, s2)))"
  using atomic unfolding undoes_on_error_def store_unlink_google_def
  by (auto simp: andthen_def split: prod.split sum.split)

lemma t_unlink:
  assumes e: "edit a (ch (a\<lparr>acc_google_subject := None, acc_google_link_allowed := False\<rparr>))"
    and b: "acc_google_subject (ch (a\<lparr>acc_google_subject := None, acc_google_link_allowed := False\<rparr>)) = None"
  shows "AT (seen A a) (store_unlink_google A a ch) (\<lambda>c s. accounts_at A s (acc_account_id a) = Some c
    \<and> (\<exists>t. c = (ch (a\<lparr>acc_google_subject := None, acc_google_link_allowed := False\<rparr>))\<lparr>acc_updated_at := t\<rparr>))"
  unfolding triple_def
proof (intro allI impI)
  fix s assume s: "accounts_ok A ok owner s" and copy: "seen A a s"
  let ?i = "acc_account_id a" and ?b = "ch (a\<lparr>acc_google_subject := None, acc_google_link_allowed := False\<rparr>)"
  obtain y s1 where one: "empty_google A a s = (y, s1)" by force
  obtain z s2 where two: "account_update A ?b s1 = (z, s2)" by force
  have tx: "store_unlink_google A a ch s = (case y of Inl e \<Rightarrow> (Inl e, s)
      | Inr _ \<Rightarrow> (case z of Inl e \<Rightarrow> (Inl e, s) | Inr c \<Rightarrow> (Inr c, s2)))"
    unfolding unlink_run using one two by (simp split: sum.split)
  show "accounts_ok A ok owner (snd (store_unlink_google A a ch s)) \<and> accounts_later A s (snd (store_unlink_google A a ch s))
      \<and> (\<forall>c. fst (store_unlink_google A a ch s) = Inr c \<longrightarrow> accounts_at A (snd (store_unlink_google A a ch s)) ?i = Some c
          \<and> (\<exists>t. c = ?b\<lparr>acc_updated_at := t\<rparr>))"
  proof (cases "\<exists>c. y = Inr () \<and> z = Inr c")
    case True
    then obtain c where yz: "y = Inr ()" "z = Inr c" by blast
    note first = empty_google_run [OF s one [unfolded yz(1)]]
    have "accounts_ok A ok owner s2 \<and> accounts_later A s s2 \<and> (\<exists>t. c = ?b\<lparr>acc_updated_at := t\<rparr>) \<and> accounts_at A s2 ?i = Some c"
      by (rule unlink_body [OF s copy e b _ _ _ _ _ _ two [unfolded yz(2)]]) (use first in auto)
    then show ?thesis using tx yz by simp
  next
    case False
    then have "snd (store_unlink_google A a ch s) = s" "\<nexists>c. fst (store_unlink_google A a ch s) = Inr c"
      using tx by (auto split: sum.splits)
    then show ?thesis using s by (simp add: accounts_later_refl)
  qed
qed

text \<open>A write that answers was made over the copy it started from.\<close>

lemma update_current:
  assumes s: "stored_ok A ok owner s" and copy: "\<exists>c. accounts_at A s (acc_account_id a) = Some c \<and> account_later a c"
    and e: "edit a b" and run: "account_update A b s = (Inr x, s')"
  shows "accounts_at A s (acc_account_id a) = Some a"
proof -
  have id: "acc_account_id b = acc_account_id a" "account_valid b" using e by (simp_all add: edit_def same_names_def)
  obtain cur where cur: "accounts_at A s (acc_account_id a) = Some cur" "acc_updated_at cur = acc_updated_at b"
    using account_update_run [OF s id(2) run] id(1) by auto
  have "account_later a cur" using copy cur(1) by auto
  then have "cur = a" by (rule account_later_stamp) (use cur(2) e in \<open>simp add: edit_def\<close>)
  then show ?thesis using cur(1) by simp
qed

lemma unlink_current:
  assumes s: "accounts_ok A ok owner s" and copy: "seen A a s"
    and e: "edit a (ch (a\<lparr>acc_google_subject := None, acc_google_link_allowed := False\<rparr>))"
    and run: "store_unlink_google A a ch s = (Inr x, s')"
  shows "accounts_at A s (acc_account_id a) = Some a"
proof -
  obtain y s1 where one: "empty_google A a s = (y, s1)" by force
  then have y: "y = Inr ()" using run unfolding unlink_run by (cases y) auto
  let ?b = "ch (a\<lparr>acc_google_subject := None, acc_google_link_allowed := False\<rparr>)"
  obtain z s2 where two: "account_update A ?b s1 = (z, s2)" by force
  then have z: "z = Inr x" using run one y unfolding unlink_run by (cases z) auto
  note first = empty_google_run [OF s one [unfolded y]]
  have "\<exists>c. accounts_at A s1 (acc_account_id a) = Some c \<and> account_later a c" using copy first by (auto simp: seen_def)
  from update_current [OF _ this e two [unfolded z]] show ?thesis using first by simp
qed

text \<open>Sessions.\<close>

lemma session_over:
  assumes s: "accounts_ok A ok owner s" and s': "stored_ok A ok owner s'"
    and w: "sessions_at A s' = (sessions_at A s)(h \<mapsto> y)" "session_version A s' = (session_version A s)(h := v)"
      "accounts_at A s' = accounts_at A s" "\<forall>kind \<in> index_kinds. index_at A kind s' = index_at A kind s"
    and bound: "\<exists>a. accounts_at A s (se_account_id y) = Some a \<and> se_generation y \<le> acc_session_generation a"
    and old: "\<And>x. sessions_at A s h = Some x \<Longrightarrow> session_later x y \<and> session_version A s h < v"
  shows "accounts_ok A ok owner s' \<and> accounts_later A s s'"
proof -
  note l = accounts_okD(2) [OF s]
  have "linked A s'" unfolding linked_def
  proof (intro conjI allI impI)
    fix i a kind k assume "accounts_at A s' i = Some a" "kind \<in> index_kinds" "key_of kind a = Some k"
    then show "index_at A kind s' k = Some (Some i)" using linked_index [OF l] w(3,4) by simp
  next
    fix g x assume x: "sessions_at A s' g = Some x"
    show "\<exists>a. accounts_at A s' (se_account_id x) = Some a \<and> se_generation x \<le> acc_session_generation a"
    proof (cases "g = h")
      case True
      then show ?thesis using x bound w(1,3) by simp
    next
      case False
      then show ?thesis using linked_session [OF l, of g x] x w(1,3) by simp
    qed
  qed
  moreover have "accounts_later A s s'"
    using w old account_later_refl session_later_refl by (auto simp: accounts_later_def index_kinds_def)
  ultimately show ?thesis using s' by (simp add: accounts_ok_def)
qed

lemma t_session_create:
  assumes x: "session_valid x"
  shows "AT (\<lambda>s. \<exists>a. accounts_at A s (se_account_id x) = Some a \<and> se_generation x \<le> acc_session_generation a)
    (session_create A x)
    (\<lambda>y s. y = x \<and> sessions_at A s (se_token_hash x) = Some x \<and> session_version A s (se_token_hash x) = 1)"
  unfolding triple_def
proof (intro allI impI)
  fix s assume s: "accounts_ok A ok owner s"
    and bound: "\<exists>a. accounts_at A s (se_account_id x) = Some a \<and> se_generation x \<le> acc_session_generation a"
  note so = accounts_okD(1) [OF s]
  let ?h = "se_token_hash x"
  obtain y s' where run: "create_record A (session_to_record A x 1) s = (y, s')" by force
  have all: "session_create A x s = (case y of Inl e \<Rightarrow> Inl e | Inr _ \<Rightarrow> Inr x, s')"
    using run by (simp add: session_create_def andthen_def ret_def split: sum.split)
  from run so have "(accounts_ok A ok owner s' \<and> accounts_later A s s')
      \<and> (\<forall>u. y = Inr u \<longrightarrow> sessions_at A s' ?h = Some x \<and> session_version A s' ?h = 1)"
  proof (cases rule: create_cases)
    case failed
    then show ?thesis using s by (simp add: accounts_later_refl)
  next
    case (written r)
    have "(1::int) \<le> 1" by simp
    note put = session_put [OF so written(2,3) this x]
    have "pr_type r = session_kind" "pr_id r = ?h"
      using written(2) by (auto simp: session_to_record_def new_precord_def Let_def split: if_splits)
    then have none: "sessions_at A s ?h = None" using written(4) by (simp add: sessions_at_def model_of_def a_repo)
    have "accounts_ok A ok owner s' \<and> accounts_later A s s'"
      by (rule session_over [OF s _ _ _ _ _ bound]) (use put none in auto)
    then show ?thesis using put by simp
  qed
  then show "accounts_ok A ok owner (snd (session_create A x s)) \<and> accounts_later A s (snd (session_create A x s))
      \<and> (\<forall>z. fst (session_create A x s) = Inr z \<longrightarrow> z = x \<and> sessions_at A (snd (session_create A x s)) ?h = Some x
          \<and> session_version A (snd (session_create A x s)) ?h = 1)"
    using all by (auto split: sum.splits)
qed

lemma t_session_replace:
  assumes y: "session_valid y"
  shows "AT (\<lambda>s. \<forall>x. sessions_at A s (se_token_hash y) = Some x \<longrightarrow> session_version A s (se_token_hash y) = v \<longrightarrow> session_later x y)
    (session_replace A y v) (\<lambda>z s. z = y \<and> sessions_at A s (se_token_hash y) = Some y)"
  unfolding triple_def
proof (intro allI impI)
  fix s assume s: "accounts_ok A ok owner s"
    and cur: "\<forall>x. sessions_at A s (se_token_hash y) = Some x \<longrightarrow> session_version A s (se_token_hash y) = v \<longrightarrow> session_later x y"
  note so = accounts_okD [OF s]
  have okr: "ok s" using stored_kinds(1) [OF so(1)] by (simp add: store_ok_def)
  let ?h = "se_token_hash y"
  obtain z s' where run: "replace_record A (session_to_record A y (v + 1)) v s = (z, s')" by force
  have all: "session_replace A y v s = (case z of Inl e \<Rightarrow> Inl e | Inr _ \<Rightarrow> Inr y, s')"
    using run by (simp add: session_replace_def andthen_def ret_def split: sum.split)
  from run so(1) have "(accounts_ok A ok owner s' \<and> accounts_later A s s') \<and> (\<forall>u. z = Inr u \<longrightarrow> sessions_at A s' ?h = Some y)"
  proof (cases rule: replace_cases)
    case failed
    then show ?thesis using s by (simp add: accounts_later_refl)
  next
    case (written r)
    have "pr_type r = session_kind" "pr_id r = ?h"
      using written(2) by (auto simp: session_to_record_def new_precord_def Let_def split: if_splits)
    then obtain rec where rec: "repo_get R s session_kind ?h = Some rec" "pr_version rec = v"
      using replace_current [OF okr written(4)] by auto
    then have v: "session_version A s ?h = v" by (simp add: session_version_def version_of_def a_repo)
    obtain x where x: "sessions_at A s ?h = Some x"
      using stored_model [OF stored_kinds(5) [OF so(1)], of ?h] rec(1) by (auto simp: sessions_at_def a_repo)
    have later: "session_later x y" using cur x v by blast
    obtain a where a: "accounts_at A s (se_account_id x) = Some a" "se_generation x \<le> acc_session_generation a"
      using linked_session [OF so(2) x] by blast
    have "1 \<le> v + 1" using stored_session(3) [OF so(1) x] v by simp
    note put = session_put [OF so(1) written(2,3) this y]
    have "accounts_ok A ok owner s' \<and> accounts_later A s s'"
    proof (rule session_over [OF s])
      show "\<exists>a. accounts_at A s (se_account_id y) = Some a \<and> se_generation y \<le> acc_session_generation a"
        using a later by (simp add: session_later_def)
    qed (use put x later v in auto)
    then show ?thesis using put by simp
  qed
  then show "accounts_ok A ok owner (snd (session_replace A y v s)) \<and> accounts_later A s (snd (session_replace A y v s))
      \<and> (\<forall>u. fst (session_replace A y v s) = Inr u \<longrightarrow> u = y \<and> sessions_at A (snd (session_replace A y v s)) ?h = Some y)"
    using all by (auto split: sum.splits)
qed

lemma t_tenant_made:
  assumes t: "tenant_valid t"
  shows "AT (\<lambda>_. True) (tenant_create T now t) (\<lambda>_ _. True)"
  unfolding triple_def
proof (intro allI impI)
  fix s assume s: "accounts_ok A ok owner s"
  note so = accounts_okD [OF s]
  have okr: "ok s" using stored_kinds(1) [OF so(1)] by (simp add: store_ok_def)
  have tok: "tenancy_ok T ok owner s" using so(1) by (simp add: stored_ok_def a_tenancy)
  have same: "accounts_ok A ok owner s' \<and> accounts_later A s s'"
    if r: "tenant_to_record T now t 1 = Inr r" and made: "repo_create R s r = Inr s'" for r s'
  proof -
    note w = create_written [OF okr made]
    have rec: "pr_record_id r = rid ''tenant'' (pr_id r) (pr_version r)" "0 \<le> pr_version r" "pr_type r = ''tenant''"
      using r by (auto simp: tenant_to_record_def new_precord_def Let_def split: if_splits)
    note k = stored_kinds [OF so(1)]
    note keep = kept [OF _ w rec]
    have "tenancy_ok T ok owner s'" using tenant_written [OF tok r w _ t] by simp
    then have "stored_ok A ok owner s' \<and> accounts_at A s' = accounts_at A s \<and> sessions_at A s' = sessions_at A s
        \<and> session_version A s' = session_version A s \<and> (\<forall>kind \<in> index_kinds. index_at A kind s' = index_at A kind s)"
      using keep [OF k(1)] keep [OF k(2)] keep [OF k(3)] keep [OF k(4)] keep [OF k(5)]
      by (simp add: stored_ok_def a_repo a_tenancy accounts_at_def sessions_at_def session_version_def index_at_def index_kinds_def)
    then show ?thesis using so(2) account_later_refl session_later_refl
      by (auto simp: accounts_ok_def linked_def accounts_later_def index_kinds_def)
  qed
  then show "accounts_ok A ok owner (snd (tenant_create T now t s)) \<and> accounts_later A s (snd (tenant_create T now t s))
      \<and> (\<forall>x. fst (tenant_create T now t s) = Inr x \<longrightarrow> True)"
    using s by (auto simp: tenant_create_def andthen_def of_result_def updates_def ret_def repo accounts_later_refl split: sum.split)
qed

end

end
