(* ===== verification/Accounts_Claims.thy ===== *)
theory Accounts_Claims
  imports Account_Store
begin

text \<open>
  Every handler of the accounts as a triple over \<open>account_store\<close>, the steps anyone can take in between
  (whole handlers, the two halves of opening a session, an operator's change from a copy read earlier),
  and what follows for the code.
\<close>

section \<open>The handlers\<close>

context account_store
begin

lemma t_attempt_any:
  assumes "AT P p Q" and "\<And>e. AT (\<lambda>_. True) (h e) Q"
  shows "AT P (attempt p h) Q"
  unfolding triple_def
proof (intro allI impI)
  fix s assume s: "accounts_ok A ok owner s" "P s"
  obtain y s' where ps: "p s = (y, s')" by force
  note one = tripleD [OF assms(1) s ps]
  show "accounts_ok A ok owner (snd (attempt p h s)) \<and> accounts_later A s (snd (attempt p h s))
      \<and> (\<forall>x. fst (attempt p h s) = Inr x \<longrightarrow> Q x (snd (attempt p h s)))"
  proof (cases y)
    case (Inl e)
    obtain z s2 where hs: "h e s' = (z, s2)" by force
    note two = tripleD [OF assms(2) conjunct1 [OF one] TrueI hs]
    show ?thesis using one two ps hs Inl accounts_later_trans [of A s s' s2] by (simp add: attempt_def)
  qed (use one ps in \<open>simp add: attempt_def\<close>)
qed

lemma t_any: "AT P p Q \<Longrightarrow> AT P p (\<lambda>_ _. True)"
  by (rule acc.t_weaken [where P = P and Q = Q]) simp_all

lemma t_readonly: "(\<And>s. accounts_ok A ok owner s \<Longrightarrow> snd (p s) = s) \<Longrightarrow> AT P p (\<lambda>_ _. True)"
  by (simp add: triple_def accounts_later_refl)

lemma found_seen:
  assumes "accounts_ok A ok owner s" and "(case index_at A kind s k of Some (Some i) \<Rightarrow> accounts_at A s i | _ \<Rightarrow> None) = Some a"
  shows "seen A a s"
proof -
  obtain i where "accounts_at A s i = Some a" using assms(2) by (auto split: option.splits)
  then show ?thesis using stored_seen accounts_okD(1) [OF assms(1)] by blast
qed

lemma by_email_run: "accounts_ok A ok owner s \<Longrightarrow>
    by_email A e s = (Inr (case index_at A email_kind s (normalize_email e) of Some (Some i) \<Rightarrow> accounts_at A s i | _ \<Rightarrow> None), s)"
  unfolding by_email_def by (rule by_index_run) (simp_all add: accounts_ok_def index_kinds_def)

lemma by_mobile_run: "accounts_ok A ok owner s \<Longrightarrow>
    by_mobile A m s = (Inr (case index_at A mobile_kind s m of Some (Some i) \<Rightarrow> accounts_at A s i | _ \<Rightarrow> None), s)"
  unfolding by_mobile_def by (rule by_index_run) (simp_all add: accounts_ok_def index_kinds_def)

lemma by_google_run:
  assumes "accounts_ok A ok owner s"
  shows "by_google_subject A g s = (Inr (case index_at A google_kind s g of
    Some (Some i) \<Rightarrow> if i = [] then None else accounts_at A s i | _ \<Rightarrow> None), s)"
proof -
  obtain f where "index_read A google_kind g s = (Inr (map_option f (index_at A google_kind s g)), s)"
      "\<And>x. f x = (x, version_of R google_kind s g)"
    using index_read_run [OF accounts_okD(1) [OF assms], of google_kind g] by (auto simp: index_kinds_def)
  then show ?thesis
    by (auto simp: by_google_subject_def points_to_def andthen_def ret_def account_get_run [OF accounts_okD(1) [OF assms]]
        split: option.splits)
qed

lemma t_found:
  assumes run: "\<And>s. accounts_ok A ok owner s \<Longrightarrow> p s = (Inr (g s), s)"
    and was: "\<And>s a. accounts_ok A ok owner s \<Longrightarrow> g s = Some a \<Longrightarrow> seen A a s"
    and none: "AT (\<lambda>_. True) (f None) Q" and some: "\<And>a. AT (seen A a) (f (Some a)) Q"
  shows "AT (\<lambda>_. True) (andthen p f) Q"
  unfolding triple_def
proof (intro allI impI)
  fix s assume s: "accounts_ok A ok owner s"
  have next_run: "andthen p f s = f (g s) s" by (simp add: andthen_def run [OF s])
  show "accounts_ok A ok owner (snd (andthen p f s)) \<and> accounts_later A s (snd (andthen p f s))
      \<and> (\<forall>x. fst (andthen p f s) = Inr x \<longrightarrow> Q x (snd (andthen p f s)))"
  proof (cases "g s")
    case None
    then show ?thesis using none [unfolded triple_def] s next_run by simp
  next
    case (Some a)
    then show ?thesis using some [of a, unfolded triple_def] s next_run was [OF s Some] by simp
  qed
qed

lemma t_by_email:
  "AT (\<lambda>_. True) (f None) Q \<Longrightarrow> (\<And>a. AT (seen A a) (f (Some a)) Q) \<Longrightarrow> AT (\<lambda>_. True) (andthen (by_email A e) f) Q"
  by (rule t_found [OF by_email_run found_seen])

lemma t_by_mobile:
  "AT (\<lambda>_. True) (f None) Q \<Longrightarrow> (\<And>a. AT (seen A a) (f (Some a)) Q) \<Longrightarrow> AT (\<lambda>_. True) (andthen (by_mobile A m) f) Q"
  by (rule t_found [OF by_mobile_run found_seen])

lemma t_by_google:
  "AT (\<lambda>_. True) (f None) Q \<Longrightarrow> (\<And>a. AT (seen A a) (f (Some a)) Q) \<Longrightarrow> AT (\<lambda>_. True) (andthen (by_google_subject A g) f) Q"
proof (rule t_found [OF by_google_run])
  fix s a assume s: "accounts_ok A ok owner s" and "(case index_at A google_kind s g of
      Some (Some i) \<Rightarrow> if i = [] then None else accounts_at A s i | _ \<Rightarrow> None) = Some a"
  then obtain i where "accounts_at A s i = Some a" by (auto split: option.splits if_splits)
  then show "seen A a s" using stored_seen accounts_okD(1) [OF s] by blast
qed

lemma t_update_seen:
  assumes "edit a b" and "acc_google_subject b = acc_google_subject a"
  shows "AT (seen A a) (account_update A b) (\<lambda>c s. seen A c s)"
proof (rule acc.t_weaken [OF t_update [OF assms(1)]])
  fix c s assume "\<exists>t. c = b\<lparr>acc_updated_at := t\<rparr> \<and> accounts_at A s (acc_account_id a) = Some c"
  then show "seen A c s" using assms(1) by (auto simp: edit_def same_names_def seen_def account_valid_def account_later_refl)
qed (use assms in auto)

text \<open>Opening a session.\<close>

definition open_as :: "account \<Rightarrow> string \<Rightarrow> session \<Rightarrow> bool" where
  "open_as a token x \<longleftrightarrow> token_hash A token = Inr (se_token_hash x) \<and> se_account_id x = acc_account_id a
     \<and> se_generation x = acc_session_generation a \<and> se_revoked_at x = None \<and> session_valid x"

lemma t_open_create:
  "AT (seen A a) (open_create A a m token csrf) (\<lambda>x s. open_as a token x \<and> se_method x = m
     \<and> sessions_at A s (se_token_hash x) = Some x \<and> session_version A s (se_token_hash x) = 1)"
proof -
  have made: "AT (\<lambda>s. token_hash A token = Inr h \<and> seen A a s) (session_create A x) (\<lambda>x s. open_as a token x \<and> se_method x = m
      \<and> sessions_at A s (se_token_hash x) = Some x \<and> session_version A s (se_token_hash x) = 1)"
    if "session_valid x" "se_account_id x = acc_account_id a" "se_generation x = acc_session_generation a" "se_token_hash x = h"
      "se_revoked_at x = None" "se_method x = m" for x h
  proof (cases "token_hash A token = Inr h")
    case True
    show ?thesis
      by (rule acc.t_weaken [OF t_session_create [OF that(1)]])
         (use that True in \<open>auto simp: seen_def open_as_def intro: account_later_generation\<close>)
  qed (simp add: triple_def)
  show ?thesis unfolding open_create_def
    apply (rule acc.t_andthen [where M = "\<lambda>_. seen A a"])
    subgoal
      unfolding require_active_tenant_def
      by (rule t_lookup [OF tenant_active_run [OF accounts_okD(1)]]) (auto intro!: acc.t_ret acc.t_raise)
    apply (rule acc.t_andthen [where M = "\<lambda>_. seen A a"])
    subgoal by (rule acc.t_reads)
    apply (rule acc.t_andthen [where M = "\<lambda>h s. token_hash A token = Inr h \<and> seen A a s"])
    subgoal by (rule acc.t_result) simp
    unfolding Let_def
    apply (rule acc.t_if)
    subgoal by (rule made) simp_all
    subgoal by (rule acc.t_raise)
    done
qed

lemma opened_now:
  "session_valid x \<Longrightarrow> sessions_at A s (se_token_hash x) = Some x \<Longrightarrow> session_version A s (se_token_hash x) = 1 \<Longrightarrow> opened A x s"
  by (simp add: opened_def session_later_refl)

lemma t_revoke_opened:
  "AT (opened A x) (andthen (session_replace A (x\<lparr>se_revoked_at := Some t\<rparr>) 1) (\<lambda>_. raise_exn e)) Q"
proof (cases "session_valid x")
  case True
  then have "session_valid (x\<lparr>se_revoked_at := Some t\<rparr>)" by (simp add: session_valid_def)
  note rep = t_session_replace [OF this, of 1]
  show ?thesis
    by (rule acc.t_andthen [OF t_any [OF acc.t_weaken [OF rep, where P' = "opened A x"]]])
       (auto simp: opened_def session_later_def intro: acc.t_raise)
qed (simp add: opened_def triple_def)

lemma t_open_confirm: "AT (opened A x) (open_confirm A still_valid token x) (\<lambda>_ _. True)"
  unfolding open_confirm_def
proof (rule t_lookup [OF account_get_run [OF accounts_okD(1)]])
  fix found
  let ?ask = "\<lambda>c. acc_status c \<noteq> ACCOUNT_ACTIVE \<or> acc_session_generation c \<noteq> se_generation x \<or> \<not> still_valid c"
  let ?upd = "\<lambda>c. andthen (attempt (andthen (account_update A (c\<lparr>acc_last_login_at := Some (se_created_at x)\<rparr>)) (\<lambda>_. ret ()))
                (\<lambda>e. if exn_class e = AccountChangedError then ret () else raise_exn e)) (\<lambda>_. ret (token, x))"
  have upd: "AT (seen A c) (?upd c) (\<lambda>_ _. True)" for c
  proof (cases "account_valid c")
    case True
    then have "edit c (c\<lparr>acc_last_login_at := Some (se_created_at x)\<rparr>)"
      by (simp add: edit_def same_names_def account_valid_def)
    note up = t_any [OF t_update_seen [OF this]]
    show ?thesis
      by (rule acc.t_andthen [where M = "\<lambda>_ _. True"])
         (auto intro!: t_attempt_any acc.t_andthen [OF up] acc.t_ret acc.t_raise)
  qed (simp add: seen_def triple_def)
  show "AT (\<lambda>s. opened A x s \<and> accounts_at A s (se_account_id x) = found)
      (case found of
         Some c \<Rightarrow> if ?ask c
           then andthen (session_replace A (x\<lparr>se_revoked_at := Some (se_created_at x)\<rparr>) 1) (\<lambda>_. raise_exn (Exn SignInError (refusal (se_method x))))
           else ?upd c
       | None \<Rightarrow> andthen (session_replace A (x\<lparr>se_revoked_at := Some (se_created_at x)\<rparr>) 1) (\<lambda>_. raise_exn (Exn SignInError (refusal (se_method x)))))
      (\<lambda>_ _. True)"
  proof (cases found)
    case None
    show ?thesis unfolding None option.case
      by (rule acc.t_weaken [OF t_revoke_opened [where Q = "\<lambda>_ _. True"]]) simp_all
  next
    case (Some c)
    have "seen A c s" if "accounts_ok A ok owner s" "accounts_at A s (se_account_id x) = Some c" for s
      using that stored_seen accounts_okD(1) by blast
    then have "AT (\<lambda>s. opened A x s \<and> accounts_at A s (se_account_id x) = Some c) (?upd c) (\<lambda>_ _. True)"
      using upd unfolding triple_def by blast
    moreover have "AT (\<lambda>s. opened A x s \<and> accounts_at A s (se_account_id x) = Some c)
        (andthen (session_replace A (x\<lparr>se_revoked_at := Some (se_created_at x)\<rparr>) 1) (\<lambda>_. raise_exn (Exn SignInError (refusal (se_method x)))))
        (\<lambda>_ _. True)"
      by (rule acc.t_weaken [OF t_revoke_opened [where Q = "\<lambda>_ _. True"]]) simp_all
    ultimately show ?thesis unfolding Some option.case by (intro acc.t_if)
  qed
qed

lemma t_open_session: "AT (seen A a) (open_session A a m still_valid token csrf) (\<lambda>_ _. True)"
  unfolding open_session_def
  by (rule acc.t_andthen [OF acc.t_weaken [OF t_open_create [of a m token csrf], where Q' = "\<lambda>x. opened A x"] t_open_confirm])
     (auto simp: open_as_def intro: opened_now)

text \<open>The ways in.\<close>

lemma t_password_account: "AT (\<lambda>_. True) (password_account A email password) (\<lambda>a. seen A a)"
  unfolding password_account_def
proof (rule t_by_email)
  show "AT (\<lambda>_. True) (andthen (of_result (verify_password (as_hashing A) password (case None of None \<Rightarrow> None | Some a \<Rightarrow> acc_password_hash a)))
      (\<lambda>right. case None of
         Some a \<Rightarrow> if \<not> right \<or> acc_status a \<noteq> ACCOUNT_ACTIVE then raise_exn (Exn SignInError generic_refusal) else ret a
       | None \<Rightarrow> if \<not> right then raise_exn (Exn SignInError generic_refusal) else raise_exn (Exn AttributeError ''status''))) (\<lambda>a. seen A a)"
    by (rule acc.t_andthen [where M = "\<lambda>_ _. True"]) (auto intro: acc.t_result acc.t_if acc.t_raise)
  show "AT (seen A a) (andthen (of_result (verify_password (as_hashing A) password (case Some a of None \<Rightarrow> None | Some a \<Rightarrow> acc_password_hash a)))
      (\<lambda>right. case Some a of
         Some a \<Rightarrow> if \<not> right \<or> acc_status a \<noteq> ACCOUNT_ACTIVE then raise_exn (Exn SignInError generic_refusal) else ret a
       | None \<Rightarrow> if \<not> right then raise_exn (Exn SignInError generic_refusal) else raise_exn (Exn AttributeError ''status''))) (\<lambda>a. seen A a)" for a
    unfolding option.case
    by (rule acc.t_andthen [where M = "\<lambda>_. seen A a"]) (auto intro!: acc.t_result acc.t_if acc.t_raise acc.t_ret)
qed

lemma t_rehash:
  "AT (seen A a) (attempt (andthen (of_result (hash_password (as_hashing A) salt password)) (\<lambda>h.
                account_update A (a\<lparr>acc_password_hash := Some h\<rparr>)))
              (\<lambda>e. if exn_class e = AccountChangedError \<or> is_value_error e then ret a else raise_exn e)) (\<lambda>b. seen A b)"
proof (rule acc.t_attempt [OF _ seen_lasting])
  show "AT (seen A a) (andthen (of_result (hash_password (as_hashing A) salt password)) (\<lambda>h.
                account_update A (a\<lparr>acc_password_hash := Some h\<rparr>))) (\<lambda>b. seen A b)"
  proof (cases "account_valid a")
    case True
    then have "edit a (a\<lparr>acc_password_hash := Some h\<rparr>)" for h
      by (simp add: edit_def same_names_def account_valid_def)
    note up = t_update_seen [OF this]
    show ?thesis by (rule acc.t_andthen [where M = "\<lambda>_. seen A a"]) (auto intro!: acc.t_result up)
  qed (simp add: seen_def triple_def)
qed (auto intro: acc.t_ret acc.t_raise)

lemma t_password_open: "AT (seen A a) (password_open A a password salt token csrf) (\<lambda>_ _. True)"
  unfolding password_open_def
proof (rule acc.t_andthen [where M = "\<lambda>_. seen A a"])
  fix rehash
  let ?again = "if rehash then attempt (andthen (of_result (hash_password (as_hashing A) salt password)) (\<lambda>h.
                account_update A (a\<lparr>acc_password_hash := Some h\<rparr>)))
              (\<lambda>e. if exn_class e = AccountChangedError \<or> is_value_error e then ret a else raise_exn e) else ret a"
  have "AT (seen A a) ?again (\<lambda>b. seen A b)" by (rule acc.t_if [OF t_rehash]) (rule acc.t_ret)
  then show "AT (seen A a) (andthen ?again (\<lambda>a. open_session A a PASSWORD_LOGIN
      (\<lambda>current. acc_password_hash current = acc_password_hash a) token csrf)) (\<lambda>_ _. True)"
    by (rule acc.t_andthen) (rule t_open_session)
qed (auto intro: acc.t_result)

lemma password_step:
  assumes "accounts_ok A ok owner (au_store st)"
  shows "accounts_ok A ok owner (au_store (snd (sign_in_with_password A tick email password addr salt token csrf st)))
    \<and> accounts_later A (au_store st) (au_store (snd (sign_in_with_password A tick email password addr salt token csrf st)))"
proof -
  let ?e = "normalize_email email"
  obtain y s where one: "password_account A ?e password (au_store st) = (y, s)" by force
  note first = tripleD [OF t_password_account assms TrueI one]
  have second: "accounts_ok A ok owner (snd (password_open A a password salt token csrf s))
      \<and> accounts_later A (au_store st) (snd (password_open A a password salt token csrf s))" if "y = Inr a" for a
  proof -
    have s: "accounts_ok A ok owner s" "seen A a s" "accounts_later A (au_store st) s" using first that by auto
    show ?thesis using triple_state [OF t_password_open s(1,2)] accounts_later_trans [OF s(3)] by blast
  qed
  show ?thesis unfolding sign_in_with_password_def Let_def
    using assms accounts_later_refl [of A "au_store st"] one first second
    by (auto split: prod.split sum.split)
qed

lemma t_sign_in_with_google: "AT (\<lambda>_. True) (sign_in_with_google A subject email verified token csrf) (\<lambda>_ _. True)"
proof -
  have bind: "AT (\<lambda>_. True) (attempt (bind_google A a subject)
      (\<lambda>e. if exn_class e \<in> {AccountExistsError, AccountChangedError} then raise_exn (Exn SignInError google_refusal) else raise_exn e))
      (\<lambda>b. seen A b)" for a
    unfolding bind_google_def
    by (rule t_attempt_any [OF acc.t_weaken [OF t_bind_tries]]) (auto intro: acc.t_raise)
  have require: "AT (\<lambda>_. True) (require_active_tenant A a) (\<lambda>_ _. True)" for a
    unfolding require_active_tenant_def
    by (rule t_lookup [OF tenant_active_run [OF accounts_okD(1)]]) (auto intro!: acc.t_ret acc.t_raise)
  have link: "AT (\<lambda>_. True) (andthen (by_email A (the email)) (\<lambda>found.
           case found of
             None \<Rightarrow> raise_exn (Exn SignInError google_refusal)
           | Some a \<Rightarrow>
               if acc_google_subject a \<notin> {None, Some subject} \<or> \<not> acc_google_link_allowed a \<or> acc_status a \<noteq> ACCOUNT_ACTIVE
               then raise_exn (Exn SignInError google_refusal)
               else andthen (require_active_tenant A a) (\<lambda>_.
                 attempt (bind_google A a subject)
                   (\<lambda>e. if exn_class e \<in> {AccountExistsError, AccountChangedError}
                        then raise_exn (Exn SignInError google_refusal) else raise_exn e)))) (\<lambda>b. seen A b)"
  proof (rule t_by_email)
    have "AT (\<lambda>_. True) (andthen (require_active_tenant A a) (\<lambda>_.
                 attempt (bind_google A a subject)
                   (\<lambda>e. if exn_class e \<in> {AccountExistsError, AccountChangedError}
                        then raise_exn (Exn SignInError google_refusal) else raise_exn e))) (\<lambda>b. seen A b)" for a
      by (rule acc.t_andthen [OF require bind])
    then show "AT (seen A a) (case Some a of
             None \<Rightarrow> raise_exn (Exn SignInError google_refusal)
           | Some a \<Rightarrow>
               if acc_google_subject a \<notin> {None, Some subject} \<or> \<not> acc_google_link_allowed a \<or> acc_status a \<noteq> ACCOUNT_ACTIVE
               then raise_exn (Exn SignInError google_refusal)
               else andthen (require_active_tenant A a) (\<lambda>_.
                 attempt (bind_google A a subject)
                   (\<lambda>e. if exn_class e \<in> {AccountExistsError, AccountChangedError}
                        then raise_exn (Exn SignInError google_refusal) else raise_exn e))) (\<lambda>b. seen A b)" for a
      unfolding option.case by (intro acc.t_if acc.t_raise) (rule acc.t_weaken, auto)
  qed (simp add: acc.t_raise)
  have "AT (\<lambda>_. True) (google_account A subject email verified) (\<lambda>b. seen A b)"
    unfolding google_account_def
  proof (rule t_by_google)
    show "AT (seen A a) (case Some a of Some a \<Rightarrow> ret a
     | None \<Rightarrow>
         if email = None \<or> email = Some [] \<or> \<not> verified
         then raise_exn (Exn SignInError ''Google did not confirm an email address for this account.'')
         else andthen (by_email A (the email)) (\<lambda>found.
           case found of
             None \<Rightarrow> raise_exn (Exn SignInError google_refusal)
           | Some a \<Rightarrow>
               if acc_google_subject a \<notin> {None, Some subject} \<or> \<not> acc_google_link_allowed a \<or> acc_status a \<noteq> ACCOUNT_ACTIVE
               then raise_exn (Exn SignInError google_refusal)
               else andthen (require_active_tenant A a) (\<lambda>_.
                 attempt (bind_google A a subject)
                   (\<lambda>e. if exn_class e \<in> {AccountExistsError, AccountChangedError}
                        then raise_exn (Exn SignInError google_refusal) else raise_exn e)))) (\<lambda>b. seen A b)" for a
      unfolding option.case by (rule acc.t_ret)
  qed (unfold option.case, intro acc.t_if acc.t_raise link)
  then show ?thesis unfolding sign_in_with_google_def
    by (rule acc.t_andthen) (auto intro: acc.t_raise t_open_session)
qed

lemma t_sign_in_with_mobile: "AT (\<lambda>_. True) (sign_in_with_mobile A mobile token csrf) (\<lambda>_ _. True)"
  unfolding sign_in_with_mobile_def by (rule t_by_mobile) (auto intro: acc.t_raise t_open_session)

lemma new_account_valid: "new_account i t e m terms h now = Inr a \<Longrightarrow> account_valid a \<and> acc_google_subject a = None"
  by (auto simp: new_account_def Let_def split: if_splits)

lemma t_sign_up_with_mobile: "AT (\<lambda>_. True) (sign_up_with_mobile A hex1 hex2 mobile business) (\<lambda>_ _. True)"
  unfolding sign_up_with_mobile_def Let_def a_tenancy
proof (rule acc.t_andthen [where M = "\<lambda>_ _. True"])
  fix now
  let ?name = "take 200 (py_strip business)"
  show "AT (\<lambda>_. True) (andthen (of_result (new_tenant (''t-'' @ hex1) (if ?name = [] then mobile else ?name) now)) (\<lambda>t0.
     andthen (tenant_create T now t0) (\<lambda>t.
     andthen (of_result (new_account (''u-'' @ hex2) (tn_tenant_id t) None (Some mobile) (Some now) None now)) (\<lambda>a0.
     andthen (account_create A a0) (\<lambda>a. ret (a, t)))))) (\<lambda>_ _. True)"
  proof (rule acc.t_andthen [where M = "\<lambda>t _. tenant_valid t"])
    show "AT (\<lambda>_. True) (of_result (new_tenant (''t-'' @ hex1) (if ?name = [] then mobile else ?name) now)) (\<lambda>t _. tenant_valid t)"
      by (rule acc.t_result) (auto simp: new_tenant_def Let_def split: if_splits)
    fix t0
    have later: "AT (\<lambda>_. True) (andthen (of_result (new_account (''u-'' @ hex2) (tn_tenant_id t) None (Some mobile) (Some now) None now)) (\<lambda>a0.
     andthen (account_create A a0) (\<lambda>a. ret (a, t)))) (\<lambda>_ _. True)" for t
    proof (rule acc.t_andthen [where M = "\<lambda>a _. account_valid a \<and> acc_google_subject a = None"])
      show "AT (\<lambda>s. account_valid a0 \<and> acc_google_subject a0 = None) (andthen (account_create A a0) (\<lambda>a. ret (a, t))) (\<lambda>_ _. True)" for a0
      proof (cases "account_valid a0 \<and> acc_google_subject a0 = None")
        case True
        then have "AT (\<lambda>_. True) (account_create A a0) (\<lambda>_ _. True)" using t_any [OF t_account_create] by blast
        from acc.t_andthen [OF this, of "\<lambda>a. ret (a, t)" "\<lambda>_ _. True"] show ?thesis using True by (simp add: acc.t_ret)
      qed (auto simp: triple_def)
    qed (auto intro: acc.t_result dest: new_account_valid)
    show "AT (\<lambda>_. tenant_valid t0) (andthen (tenant_create T now t0) (\<lambda>t.
     andthen (of_result (new_account (''u-'' @ hex2) (tn_tenant_id t) None (Some mobile) (Some now) None now)) (\<lambda>a0.
     andthen (account_create A a0) (\<lambda>a. ret (a, t))))) (\<lambda>_ _. True)"
    proof (cases "tenant_valid t0")
      case True
      from acc.t_andthen [OF t_tenant_made [OF this] later, of now] show ?thesis using True by simp
    qed (simp add: triple_def)
  qed
qed (auto intro: acc.t_reads)

text \<open>Recognising a browser, and signing out.\<close>

lemma t_session_again:
  assumes "session_later x y" and "session_valid x \<Longrightarrow> session_valid y"
  shows "AT (\<lambda>s. sessions_at A s h = Some x \<and> session_version A s h = v) (session_replace A y v) (\<lambda>_ _. True)"
proof (cases "session_valid x \<and> se_token_hash x = h")
  case True
  then have y: "session_valid y" "se_token_hash y = h" using assms by (simp_all add: session_later_def)
  show ?thesis
    by (rule acc.t_weaken [OF t_session_replace [OF y(1), of v]]) (use y(2) assms(1) in auto)
next
  case False
  then have "\<not> (accounts_ok A ok owner s \<and> sessions_at A s h = Some x)" for s
    using stored_session accounts_okD(1) by blast
  then show ?thesis unfolding triple_def by blast
qed

lemma t_session_found:
  assumes "AT (\<lambda>_. True) (f None) Q"
    and "\<And>x v. AT (\<lambda>s. sessions_at A s h = Some x \<and> session_version A s h = v) (f (Some (x, v))) Q"
  shows "AT (\<lambda>_. True) (andthen (session_get A h) f) Q"
  unfolding triple_def
proof (intro allI impI)
  fix s assume s: "accounts_ok A ok owner s"
  let ?found = "map_option (\<lambda>x. (x, session_version A s h)) (sessions_at A s h)"
  have next_run: "andthen (session_get A h) f s = f ?found s"
    by (simp add: andthen_def session_get_run [OF accounts_okD(1) [OF s]])
  show "accounts_ok A ok owner (snd (andthen (session_get A h) f s)) \<and> accounts_later A s (snd (andthen (session_get A h) f s))
      \<and> (\<forall>x. fst (andthen (session_get A h) f s) = Inr x \<longrightarrow> Q x (snd (andthen (session_get A h) f s)))"
  proof (cases "sessions_at A s h")
    case None
    then show ?thesis using assms(1) [unfolded triple_def] s next_run by simp
  next
    case (Some x)
    then show ?thesis using assms(2) [of x "session_version A s h", unfolded triple_def] s next_run by simp
  qed
qed

lemma t_session_for: "AT (\<lambda>_. True) (session_for A token) (\<lambda>_ _. True)"
proof (cases token)
  case (Some t)
  have touch: "AT (\<lambda>s. sessions_at A s h = Some x \<and> session_version A s h = v)
      (andthen (if touch_every \<le> now - se_last_seen_at x
                        then attempt (session_replace A (x\<lparr>se_last_seen_at := now\<rparr>) v)
                               (\<lambda>e. if is_conflict e then ret x else raise_exn e)
                        else ret x) (\<lambda>x'. ret (Some (x', a)))) (\<lambda>_ _. True)" for h x v now a
  proof (rule acc.t_andthen [where M = "\<lambda>_ _. True"])
    have "session_later x (x\<lparr>se_last_seen_at := now\<rparr>)" "session_valid x \<Longrightarrow> session_valid (x\<lparr>se_last_seen_at := now\<rparr>)"
      by (simp_all add: session_later_def session_valid_def)
    note again = t_session_again [OF this, of h v]
    show "AT (\<lambda>s. sessions_at A s h = Some x \<and> session_version A s h = v)
      (if touch_every \<le> now - se_last_seen_at x
                        then attempt (session_replace A (x\<lparr>se_last_seen_at := now\<rparr>) v)
                               (\<lambda>e. if is_conflict e then ret x else raise_exn e)
                        else ret x) (\<lambda>_ _. True)"
      by (intro acc.t_if t_attempt_any again acc.t_ret acc.t_raise TrueI)
  qed (rule acc.t_ret, simp)
  show ?thesis unfolding session_for_def Some option.case
  proof (intro acc.t_if acc.t_ret TrueI)
    let ?holds = "\<lambda>h x v s. sessions_at A s h = Some x \<and> session_version A s h = v"
    let ?tail = "\<lambda>x v now a. andthen (tenant_active A (se_tenant_id x)) (\<lambda>active.
                     if \<not> active then ret None
                     else andthen
                       (if touch_every \<le> now - se_last_seen_at x
                        then attempt (session_replace A (x\<lparr>se_last_seen_at := now\<rparr>) v)
                               (\<lambda>e. if is_conflict e then ret x else raise_exn e)
                        else ret x) (\<lambda>x'. ret (Some (x', a))))"
    have tail: "AT (?holds h x v) (?tail x v now a) (\<lambda>_ _. True)" for h x v now a
    proof (rule t_lookup [OF tenant_active_run [OF accounts_okD(1)]])
      fix active
      show "AT (\<lambda>s. ?holds h x v s \<and> (map_option tn_status (tenants_of T s (se_tenant_id x)) = Some TENANT_ACTIVE) = active)
          (if \<not> active then ret None
           else andthen
             (if touch_every \<le> now - se_last_seen_at x
              then attempt (session_replace A (x\<lparr>se_last_seen_at := now\<rparr>) v) (\<lambda>e. if is_conflict e then ret x else raise_exn e)
              else ret x) (\<lambda>x'. ret (Some (x', a)))) (\<lambda>_ _. True)"
        by (rule acc.t_if, rule acc.t_ret, simp, rule acc.t_weaken [OF touch [of h x v]], auto)
    qed
    show "AT (\<lambda>_. True)
       (andthen (of_result (token_hash A t)) (\<lambda>h. andthen (session_get A h) (\<lambda>found.
         case found of
           None \<Rightarrow> ret None
         | Some (x, version) \<Rightarrow>
             andthen (reads (as_clock A)) (\<lambda>now.
             if se_revoked_at x \<noteq> None \<or> se_expires_at x \<le> now \<or> idle_timeout \<le> now - se_last_seen_at x then ret None
             else andthen (account_get A (se_account_id x)) (\<lambda>account.
               case account of
                 None \<Rightarrow> ret None
               | Some a \<Rightarrow>
                   if acc_status a \<noteq> ACCOUNT_ACTIVE then ret None
                   else if se_generation x \<noteq> acc_session_generation a then ret None
                   else ?tail x version now a))))) (\<lambda>_ _. True)"
    proof (rule acc.t_andthen [where M = "\<lambda>_ _. True"], rule acc.t_result, simp, rule t_session_found)
      fix h x v
      have body: "AT (?holds h x v) (andthen (account_get A (se_account_id x)) (\<lambda>account.
               case account of
                 None \<Rightarrow> ret None
               | Some a \<Rightarrow>
                   if acc_status a \<noteq> ACCOUNT_ACTIVE then ret None
                   else if se_generation x \<noteq> acc_session_generation a then ret None
                   else ?tail x v now a)) (\<lambda>_ _. True)" for now
      proof (rule t_lookup [OF account_get_run [OF accounts_okD(1)]])
        fix account
        show "AT (\<lambda>s. ?holds h x v s \<and> accounts_at A s (se_account_id x) = account) (case account of
                 None \<Rightarrow> ret None
               | Some a \<Rightarrow>
                   if acc_status a \<noteq> ACCOUNT_ACTIVE then ret None
                   else if se_generation x \<noteq> acc_session_generation a then ret None
                   else ?tail x v now a) (\<lambda>_ _. True)"
          by (cases account; simp only: option.case; intro acc.t_if acc.t_ret TrueI; rule acc.t_weaken [OF tail [of h x v]]; simp)
      qed
      show "AT (?holds h x v) (case Some (x, v) of
           None \<Rightarrow> ret None
         | Some (x, version) \<Rightarrow>
             andthen (reads (as_clock A)) (\<lambda>now.
             if se_revoked_at x \<noteq> None \<or> se_expires_at x \<le> now \<or> idle_timeout \<le> now - se_last_seen_at x then ret None
             else andthen (account_get A (se_account_id x)) (\<lambda>account.
               case account of
                 None \<Rightarrow> ret None
               | Some a \<Rightarrow>
                   if acc_status a \<noteq> ACCOUNT_ACTIVE then ret None
                   else if se_generation x \<noteq> acc_session_generation a then ret None
                   else ?tail x version now a))) (\<lambda>_ _. True)"
        unfolding option.case prod.case
        by (rule acc.t_andthen [where M = "\<lambda>_. ?holds h x v"], rule acc.t_reads, simp, intro acc.t_if acc.t_ret TrueI body)
    qed (simp add: acc.t_ret)
  qed
qed (simp add: session_for_def acc.t_ret)

lemma t_sign_out: "AT (\<lambda>_. True) (sign_out A token) (\<lambda>_ _. True)"
proof (cases token)
  case (Some t)
  have rest: "AT (\<lambda>_. True) (andthen (session_get A h) (\<lambda>found.
         case found of
           None \<Rightarrow> ret ()
         | Some (x, version) \<Rightarrow>
             if se_revoked_at x \<noteq> None then ret ()
             else andthen (reads (as_clock A)) (\<lambda>now.
               andthen (session_replace A (x\<lparr>se_revoked_at := Some now\<rparr>) version) (\<lambda>_. ret ())))) (\<lambda>_ _. True)" for h
  proof (rule t_session_found)
    fix x v
    have "session_later x (x\<lparr>se_revoked_at := Some now\<rparr>)" "session_valid x \<Longrightarrow> session_valid (x\<lparr>se_revoked_at := Some now\<rparr>)" for now
      by (simp_all add: session_later_def session_valid_def)
    note again = t_session_again [OF this, of h v]
    show "AT (\<lambda>s. sessions_at A s h = Some x \<and> session_version A s h = v) (case Some (x, v) of
           None \<Rightarrow> ret ()
         | Some (x, version) \<Rightarrow>
             if se_revoked_at x \<noteq> None then ret ()
             else andthen (reads (as_clock A)) (\<lambda>now.
               andthen (session_replace A (x\<lparr>se_revoked_at := Some now\<rparr>) version) (\<lambda>_. ret ()))) (\<lambda>_ _. True)"
      unfolding option.case prod.case
      by (intro acc.t_if acc.t_ret TrueI, rule acc.t_andthen [where M = "\<lambda>_ s. sessions_at A s h = Some x \<and> session_version A s h = v"],
          rule acc.t_reads, simp, rule acc.t_andthen [OF again], assumption, rule acc.t_ret, simp)
  qed (simp add: acc.t_ret)
  show ?thesis unfolding sign_out_def Some option.case
    by (intro acc.t_if acc.t_ret TrueI, rule acc.t_andthen [OF _ rest], rule acc.t_result, simp)
qed (simp add: sign_out_def acc.t_ret)

end

section \<open>The operator's commands\<close>

text \<open>Changes that leave the names, the stamp and the Google identity as they are.\<close>

definition keeps_names :: "(account \<Rightarrow> account) \<Rightarrow> bool" where
  "keeps_names ch \<longleftrightarrow> (\<forall>a. same_names a (ch a) \<and> acc_updated_at (ch a) = acc_updated_at a
     \<and> acc_google_subject (ch a) = acc_google_subject a \<and> acc_session_generation (ch a) = acc_session_generation a
     \<and> (account_valid a \<longrightarrow> account_valid (ch a)))"

context account_store
begin

lemma t_end_sessions:
  assumes ch: "keeps_names ch"
  shows "AT (seen A a) (end_sessions A a ch)
    (\<lambda>c s. accounts_at A s (acc_account_id a) = Some c \<and> acc_session_generation c = acc_session_generation a + 1)"
proof (cases "account_valid a")
  case True
  let ?b = "(ch a)\<lparr>acc_session_generation := acc_session_generation a + 1\<rparr>"
  have k: "same_names a (ch a)" "acc_updated_at (ch a) = acc_updated_at a" "acc_google_subject (ch a) = acc_google_subject a"
      "account_valid (ch a)" using ch True by (simp_all add: keeps_names_def)
  have "0 \<le> acc_session_generation a" using True by (simp add: account_valid_def)
  then have "account_valid ?b" using k(4) by (simp add: account_valid_def)
  then have "edit a ?b" using k(1,2) by (simp add: edit_def same_names_def)
  then show ?thesis unfolding end_sessions_def
    by (intro acc.t_weaken [OF t_update]) (use k(3) in auto)
qed (simp add: seen_def triple_def)

lemma t_unlink_google:
  "AT (seen A a) (unlink_google A a)
    (\<lambda>c s. accounts_at A s (acc_account_id a) = Some c \<and> acc_session_generation c = acc_session_generation a + 1
      \<and> acc_google_subject c = None \<and> \<not> acc_google_link_allowed c)"
proof (cases "account_valid a")
  case True
  let ?ch = "\<lambda>x. x\<lparr>acc_session_generation := acc_session_generation a + 1\<rparr>"
  let ?b = "a\<lparr>acc_google_subject := None, acc_google_link_allowed := False\<rparr>"
  have "edit a (?ch ?b)" using True by (auto simp: edit_def same_names_def account_valid_def)
  moreover have "acc_google_subject (?ch ?b) = None" by simp
  ultimately show ?thesis unfolding unlink_google_def
    by (intro acc.t_weaken [OF t_unlink [where a = a and ch = ?ch]]) auto
qed (simp add: seen_def triple_def)

lemma ended_current:
  assumes s: "accounts_ok A ok owner s" and copy: "seen A a s" and ch: "keeps_names ch"
    and run: "end_sessions A a ch s = (Inr c, s1) \<or> unlink_google A a s = (Inr c, s1)"
  shows "accounts_at A s (acc_account_id a) = Some a"
proof -
  have valid: "account_valid a" and was: "\<exists>b. accounts_at A s (acc_account_id a) = Some b \<and> account_later a b"
    using copy by (auto simp: seen_def)
  have "0 \<le> acc_session_generation a" using valid by (simp add: account_valid_def)
  then have e: "edit a ((ch a)\<lparr>acc_session_generation := acc_session_generation a + 1\<rparr>)"
      "edit a ((a\<lparr>acc_google_subject := None, acc_google_link_allowed := False\<rparr>)\<lparr>acc_session_generation := acc_session_generation a + 1\<rparr>)"
    using ch valid by (auto simp: edit_def keeps_names_def same_names_def account_valid_def)
  from run show ?thesis
  proof
    assume "end_sessions A a ch s = (Inr c, s1)"
    then show ?thesis unfolding end_sessions_def by (rule update_current [OF accounts_okD(1) [OF s] was e(1)])
  next
    assume "unlink_google A a s = (Inr c, s1)"
    then show ?thesis unfolding unlink_google_def 
      by (rule unlink_current [OF s copy, where ch = "\<lambda>x. x\<lparr>acc_session_generation := acc_session_generation a + 1\<rparr>", OF e(2)])
  qed
qed

lemma t_allow_google: "AT (seen A a) (allow_google A a) (\<lambda>c s. seen A c s)"
proof (cases "account_valid a")
  case True
  then have "edit a (a\<lparr>acc_google_link_allowed := True\<rparr>)"
    by (simp add: edit_def same_names_def account_valid_def)
  from t_update_seen [OF this] show ?thesis unfolding allow_google_def by simp
qed (simp add: seen_def triple_def)

lemma t_enable: "AT (seen A a) (account_update A (a\<lparr>acc_status := st\<rparr>)) (\<lambda>c s. seen A c s)"
proof (cases "account_valid a")
  case True
  then have "edit a (a\<lparr>acc_status := st\<rparr>)" by (simp add: edit_def same_names_def account_valid_def)
  from t_update_seen [OF this] show ?thesis by simp
qed (simp add: seen_def triple_def)

lemma t_create_account: "AT (\<lambda>_. True) (create_account A hex salt tenant email password) (\<lambda>_ _. True)"
proof -
  have make: "AT (\<lambda>_. account_valid a \<and> acc_google_subject a = None) (account_create A a) (\<lambda>_ _. True)" for a
  proof (cases "account_valid a \<and> acc_google_subject a = None")
    case True
    then show ?thesis using t_any [OF t_account_create [of a]] by simp
  qed (auto simp: triple_def)
  show ?thesis unfolding create_account_def
    by (rule acc.t_andthen [where M = "\<lambda>_ _. True"], rule acc.t_result, simp,
        rule acc.t_andthen [where M = "\<lambda>_ _. True"], rule acc.t_reads, simp,
        rule acc.t_andthen [OF _ make], rule acc.t_result, auto dest: new_account_valid)
qed

lemma t_changing:
  assumes "\<And>a. AT (seen A a) (change a) (\<lambda>_ _. True)"
  shows "AT (\<lambda>_. True) (changing A email change) (\<lambda>_ _. True)"
proof -
  have one: "AT (seen A a) (attempt (andthen (change a) (\<lambda>_. ret 0)) (\<lambda>e. if exn_class e = AccountChangedError then ret 1 else raise_exn e))
      (\<lambda>_ _. True)" for a
    by (rule t_attempt_any, rule acc.t_andthen [OF assms]) (auto intro: acc.t_ret acc.t_raise)
  show ?thesis unfolding changing_def
    by (rule t_by_email, simp_all only: option.case) (auto intro: acc.t_raise one)
qed

lemma keeps_names_here:
  "keeps_names (\<lambda>x. x)" "keeps_names (\<lambda>x. x\<lparr>acc_password_hash := h\<rparr>)" "keeps_names (\<lambda>x. x\<lparr>acc_status := st\<rparr>)"
  by (simp_all add: keeps_names_def same_names_def account_valid_def)

lemma t_account_admin: "AT (\<lambda>_. True) (account_admin A hex salt typed again email cmd) (\<lambda>_ _. True)"
proof -
  note ends = t_any [OF t_end_sessions [OF keeps_names_here(1)]] t_any [OF t_end_sessions [OF keeps_names_here(2)]]
    t_any [OF t_end_sessions [OF keeps_names_here(3)]]
  note change = t_changing [OF ends(1)] t_changing [OF ends(2)] t_changing [OF ends(3)]
    t_changing [OF t_any [OF t_unlink_google]] t_changing [OF t_any [OF t_allow_google]] t_changing [OF t_any [OF t_enable]]
  have found: "AT (\<lambda>_. True) (andthen (by_email A email) (\<lambda>found. if found = None then ret 1 else p)) (\<lambda>_ _. True)"
    if p: "AT (\<lambda>_. True) p (\<lambda>_ _. True)" for p :: "('s, int) prog"
  proof (rule t_by_email)
    fix a
    show "AT (seen A a) (if Some a = None then ret 1 else p) (\<lambda>_ _. True)"
      using acc.t_weaken [OF p, of "seen A a" "\<lambda>_ _. True"] by simp
  qed (simp add: acc.t_ret)
  have pw: "AT (\<lambda>_. True) (andthen (of_result (hash_password (as_hashing A) salt p)) (\<lambda>h.
                changing A email (\<lambda>a. end_sessions A a (\<lambda>x. x\<lparr>acc_password_hash := Some h\<rparr>)))) (\<lambda>_ _. True)" for p
    by (rule acc.t_andthen [OF _ change(2)]) (auto intro: acc.t_result)
  have create: "AT (\<lambda>_. True) (attempt (andthen (create_account A hex salt tenant email p) (\<lambda>_. ret 0))
      (\<lambda>e. if exn_class e = AccountExistsError then ret 1 else raise_exn e)) (\<lambda>_ _. True)" for tenant p
    by (rule t_attempt_any, rule acc.t_andthen [OF t_create_account]) (auto intro: acc.t_ret acc.t_raise)
  show ?thesis
  proof (cases cmd)
    case (CreateAccount tenant g)
    have "tenant_find (as_tenancy A) tenant s = (Inr (tenants_of T s tenant), s)" if "accounts_ok A ok owner s" for s
      using tenant_find_run accounts_okD(1) [OF that] by (simp add: stored_ok_def a_tenancy)
    then show ?thesis unfolding CreateAccount account_admin.simps Let_def
      by (rule t_lookup) (auto intro!: acc.t_weaken [OF create] acc.t_ret split: option.split)
  next
    case (ListAccounts tenant)
    have "AT (\<lambda>_. True) (accounts_of_tenant A tenant) (\<lambda>_ _. True)"
      by (rule t_readonly) (auto simp: accounts_of_tenant_def andthen_def of_result_def split: sum.split)
    then show ?thesis unfolding ListAccounts account_admin.simps by (rule acc.t_andthen) (rule acc.t_ret, simp)
  next
    case SetPassword
    have "AT (\<lambda>_. True) (case ask_password typed again of None \<Rightarrow> ret 1
        | Some p \<Rightarrow> andthen (of_result (hash_password (as_hashing A) salt p)) (\<lambda>h.
                changing A email (\<lambda>a. end_sessions A a (\<lambda>x. x\<lparr>acc_password_hash := Some h\<rparr>)))) (\<lambda>_ _. True)"
      by (cases "ask_password typed again") (simp_all add: acc.t_ret pw)
    from found [OF this] show ?thesis unfolding SetPassword account_admin.simps account_command.case .
  qed (simp only: account_admin.simps account_command.case, rule found, rule change)+
qed

end

text \<open>
  What anyone may do, in any order: every handler, and the halves of those that others may interrupt,
  from a copy of the account or a session read or opened at any earlier time.
\<close>

inductive auth_step :: "('s, 'p) accounts \<Rightarrow> 's \<Rightarrow> 's \<Rightarrow> bool" for A where
  by_password: "auth_step A (au_store st) (au_store (snd (sign_in_with_password A tick email password addr salt token csrf st)))"
| by_google: "auth_step A s (snd (sign_in_with_google A subject g_email verified token csrf s))"
| by_mobile: "auth_step A s (snd (sign_in_with_mobile A mobile token csrf s))"
| signing_up: "auth_step A s (snd (sign_up_with_mobile A hex1 hex2 mobile business s))"
| browsing: "auth_step A s (snd (session_for A cookie s))"
| leaving: "auth_step A s (snd (sign_out A cookie s))"
| operator: "auth_step A s (snd (account_admin A hex1 salt typed again email cmd s))"
| opening_session: "seen A a s \<Longrightarrow> auth_step A s (snd (open_create A a m token csrf s))"
| confirming_session: "opened A x s \<Longrightarrow> auth_step A s (snd (open_confirm A still_valid token x s))"
| rehashing: "seen A a s \<Longrightarrow> auth_step A s (snd (password_open A a password salt token csrf s))"
| ending: "seen A a s \<Longrightarrow> keeps_names ch \<Longrightarrow> auth_step A s (snd (end_sessions A a ch s))"
| unlinking: "seen A a s \<Longrightarrow> auth_step A s (snd (unlink_google A a s))"
| allowing: "seen A a s \<Longrightarrow> auth_step A s (snd (allow_google A a s))"

inductive_cases auth_stepE: "auth_step A s s'"

context account_store
begin

lemma step_ok:
  assumes "auth_step A s s'" and "accounts_ok A ok owner s"
  shows "accounts_ok A ok owner s' \<and> accounts_later A s s'"
  using assms(1)
proof cases
  case (by_password st)
  then show ?thesis using password_step [of st] assms(2) by simp
next
  case (ending a ch)
  show ?thesis unfolding ending(1) by (rule triple_state [OF t_end_sessions [OF ending(3)] assms(2) ending(2)])
next
  case by_google
  show ?thesis unfolding by_google by (rule triple_state [OF t_sign_in_with_google assms(2) TrueI])
next
  case by_mobile
  show ?thesis unfolding by_mobile by (rule triple_state [OF t_sign_in_with_mobile assms(2) TrueI])
next
  case signing_up
  show ?thesis unfolding signing_up by (rule triple_state [OF t_sign_up_with_mobile assms(2) TrueI])
next
  case browsing
  show ?thesis unfolding browsing by (rule triple_state [OF t_session_for assms(2) TrueI])
next
  case leaving
  show ?thesis unfolding leaving by (rule triple_state [OF t_sign_out assms(2) TrueI])
next
  case operator
  show ?thesis unfolding operator by (rule triple_state [OF t_account_admin assms(2) TrueI])
next
  case (opening_session a m token csrf)
  show ?thesis unfolding opening_session(1) by (rule triple_state [OF t_open_create assms(2) opening_session(2)])
next
  case (confirming_session x still_valid token)
  show ?thesis unfolding confirming_session(1) by (rule triple_state [OF t_open_confirm assms(2) confirming_session(2)])
next
  case (rehashing a password salt token csrf)
  show ?thesis unfolding rehashing(1) by (rule triple_state [OF t_password_open assms(2) rehashing(2)])
next
  case (unlinking a)
  show ?thesis unfolding unlinking(1) by (rule triple_state [OF t_unlink_google assms(2) unlinking(2)])
next
  case (allowing a)
  show ?thesis unfolding allowing(1) by (rule triple_state [OF t_allow_google assms(2) allowing(2)])
qed

lemma auth_steps_ok:
  "(auth_step A)\<^sup>*\<^sup>* s s' \<Longrightarrow> accounts_ok A ok owner s \<Longrightarrow> accounts_ok A ok owner s' \<and> accounts_later A s s'"
proof (induction rule: rtranclp_induct)
  case base
  then show ?case by (simp add: accounts_later_refl)
next
  case (step t u)
  have t: "accounts_ok A ok owner t" "accounts_later A s t" using step by simp_all
  show ?case using step_ok [OF step(2) t(1)] accounts_later_trans [OF t(2)] by simp
qed

text \<open>A write over the current copy lands.\<close>

lemma account_update_lands:
  assumes s: "stored_ok A ok owner s" and cur: "accounts_at A s (acc_account_id b) = Some a" and e: "edit a b"
  shows "\<exists>c s'. account_update A b s = (Inr c, s')"
proof -
  let ?i = "acc_account_id b"
  obtain rec where rec: "repo_get R s account_kind ?i = Some rec" "restore (as_account A) (pr_payload rec) = Inr a"
    using stored_model [OF stored_kinds(1) [OF s], of ?i] cur by (auto simp: accounts_at_def a_repo split: option.splits)
  have v: "1 \<le> pr_version rec" using stored_kinds(1) [OF s] rec(1) unfolding store_ok_def by blast
  have tenant: "pr_tenant_id rec = Some (acc_tenant_id a)"
    using store_ok_good [OF stored_kinds(1) [OF s], of ?i a] cur rec(1) by (auto simp: accounts_at_def a_repo account_good_def)
  let ?c = "b\<lparr>acc_updated_at := later_than (as_clock A s) (acc_updated_at b)\<rparr>"
  have valid: "account_valid ?c" using e by (auto simp: edit_def account_valid_def)
  then have "?i \<noteq> []" by (auto simp: account_valid_def length_between_def)
  moreover have "1 \<le> pr_version rec + 1" using v by simp
  ultimately obtain r where r: "account_to_record A ?c (pr_version rec + 1) (as_clock A s) = Inr r"
    using new_precord_Inr [of account_kind ?i "pr_version rec + 1" 1] unfolding account_to_record_def by force
  have "model_validate (as_account A) (model_dump (as_account A) ?c) = Some ?c"
    using account_codec valid by (simp add: codec_ok_def)
  note sr = new_precord_store [OF r [unfolded account_to_record_def] this]
  have sr1: "store_record account_kind account_kind (as_account A) ?i (pr_version rec + 1) ?c r" using sr by simp
  have "pr_tenant_id rec = pr_tenant_id r" using sr tenant e by (simp add: edit_def same_names_def)
  then obtain s' where "repo_replace R s r (pr_version rec) = Inr s'"
    using store_replace [OF stored_kinds(1) [OF s] sr1 rec(1) refl] by blast
  then show ?thesis using rec r e
    by (simp add: account_update_def andthen_def reads_def of_result_def ret_def on_conflict_run replace_record_def updates_def
        a_repo edit_def)
qed

lemma session_replace_lands:
  assumes s: "stored_ok A ok owner s" and cur: "sessions_at A s (se_token_hash y) = Some x"
    and v: "session_version A s (se_token_hash y) = v" and y: "session_valid y" "se_tenant_id y = se_tenant_id x"
  shows "\<exists>s'. session_replace A y v s = (Inr y, s')"
proof -
  let ?h = "se_token_hash y"
  obtain rec where rec: "repo_get R s session_kind ?h = Some rec"
    using stored_model [OF stored_kinds(5) [OF s], of ?h] cur by (auto simp: sessions_at_def a_repo split: option.splits)
  have ver: "pr_version rec = v" using v rec by (simp add: session_version_def version_of_def a_repo)
  have tenant: "pr_tenant_id rec = Some (se_tenant_id x)"
    using store_ok_good [OF stored_kinds(5) [OF s], of ?h x] cur rec by (auto simp: sessions_at_def a_repo session_good_def)
  have "?h \<noteq> []" using y(1) by (auto simp: session_valid_def length_between_def)
  moreover have "1 \<le> v + 1" using stored_session(3) [OF s cur] v by simp
  ultimately obtain r where r: "session_to_record A y (v + 1) (as_clock A s) = Inr r"
    using new_precord_Inr [of session_kind ?h "v + 1" 1] unfolding session_to_record_def by force
  have "model_validate (as_session A) (model_dump (as_session A) y) = Some y"
    using session_codec y(1) by (simp add: codec_ok_def)
  note sr = new_precord_store [OF r [unfolded session_to_record_def] this]
  have sr1: "store_record session_kind session_kind (as_session A) ?h (v + 1) y r" using sr by simp
  have "pr_tenant_id rec = pr_tenant_id r" using sr tenant y(2) by simp
  then obtain s' where "repo_replace R s r v = Inr s'"
    using store_replace [OF stored_kinds(5) [OF s] sr1 rec ver] by blast
  then show ?thesis using r
    by (simp add: session_replace_def andthen_def ret_def replace_record_def of_result_def updates_def a_repo)
qed

lemma stored_account_record:
  assumes "stored_ok A ok owner s" and "accounts_at A s i = Some a"
  shows "\<exists>r. repo_get (as_repo A) s account_kind i = Some r \<and> restore (as_account A) (pr_payload r) = Inr a"
  using stored_model [OF stored_kinds(1) [OF assms(1)], of i] assms(2) by (auto simp: accounts_at_def a_repo split: option.splits)

text \<open>A session that does not count.\<close>

lemma session_dead:
  assumes s: "stored_ok A ok owner s" and h: "token_hash A token = Inr h" and x: "sessions_at A s h = Some x"
    and dead: "se_revoked_at x \<noteq> None \<or> (\<exists>a. accounts_at A s (se_account_id x) = Some a \<and> acc_session_generation a \<noteq> se_generation x)"
  shows "session_for A (Some token) s = (Inr None, s)"
  using h x dead
  by (auto simp: session_for_def andthen_def of_result_def ret_def reads_def session_get_run [OF s] account_get_run [OF s])

lemma ended_session_dead:
  assumes s: "accounts_ok A ok owner s1" and steps: "(auth_step A)\<^sup>*\<^sup>* s1 s2"
    and c: "accounts_at A s1 i = Some c" "g < acc_session_generation c"
    and x: "sessions_at A s1 h = Some x" "se_account_id x = i" "se_generation x \<le> g"
    and h: "token_hash A token = Inr h"
  shows "session_for A (Some token) s2 = (Inr None, s2)"
proof -
  note later = auth_steps_ok [OF steps s]
  have l: "accounts_later A s1 s2" and ok2: "stored_ok A ok owner s2" using later accounts_okD(1) by simp_all
  obtain c2 where c2: "accounts_at A s2 i = Some c2" "account_later c c2" using accounts_later_account [OF l c(1)] by blast
  obtain x2 where x2: "sessions_at A s2 h = Some x2" "session_later x x2" using accounts_later_session [OF l x(1)] by blast
  have "acc_session_generation c2 \<noteq> se_generation x2"
    using account_later_generation [OF c2(2)] c(2) x(3) x2(2) by (simp add: session_later_def)
  then show ?thesis using session_dead [OF ok2 h x2(1)] c2(1) x2(2) x(2) by (auto simp: session_later_def)
qed

lemma revoked_session_dead:
  assumes s: "accounts_ok A ok owner s1" and steps: "(auth_step A)\<^sup>*\<^sup>* s1 s2"
    and x: "sessions_at A s1 h = Some x" "se_revoked_at x \<noteq> None" and h: "token_hash A token = Inr h"
  shows "session_for A (Some token) s2 = (Inr None, s2)"
proof -
  note later = auth_steps_ok [OF steps s]
  have l: "accounts_later A s1 s2" and ok2: "stored_ok A ok owner s2" using later accounts_okD(1) by simp_all
  obtain x2 where x2: "sessions_at A s2 h = Some x2" "session_later x x2" using accounts_later_session [OF l x(1)] by blast
  then show ?thesis using session_dead [OF ok2 h x2(1)] x(2) by (auto simp: session_later_def)
qed

text \<open>The second half of opening a session, on what it finds.\<close>

lemma confirm_run:
  assumes s: "accounts_ok A ok owner s" and x: "sessions_at A s (se_token_hash x) = Some x" "session_version A s (se_token_hash x) = 1"
    and run: "open_confirm A still_valid token x s = (r, s')"
  shows "if (case accounts_at A s (se_account_id x) of None \<Rightarrow> False
      | Some c \<Rightarrow> acc_status c = ACCOUNT_ACTIVE \<and> acc_session_generation c = se_generation x \<and> still_valid c)
    then r = Inr (token, x)
    else r = Inl (Exn SignInError (refusal (se_method x))) \<and> accounts_ok A ok owner s'
      \<and> (\<exists>y. sessions_at A s' (se_token_hash x) = Some y \<and> se_revoked_at y \<noteq> None)"
proof -
  note so = accounts_okD(1) [OF s]
  have valid: "session_valid x" using stored_session(1) [OF so x(1)] .
  let ?y = "x\<lparr>se_revoked_at := Some (se_created_at x)\<rparr>"
  have y: "session_valid ?y" using valid by (simp add: session_valid_def)
  obtain t where t: "session_replace A ?y 1 s = (Inr ?y, t)"
    using session_replace_lands [OF so _ _ y, of x 1] x by auto
  have gone: "accounts_ok A ok owner t \<and> sessions_at A t (se_token_hash x) = Some ?y"
    using tripleD [OF t_session_replace [OF y, of 1] s _ t] x by (simp add: session_later_def)
  have refused: "(andthen (session_replace A ?y 1) (\<lambda>_. raise_exn (Exn SignInError (refusal (se_method x)))) :: ('s, string \<times> session) prog) s
      = (Inl (Exn SignInError (refusal (se_method x))), t)"
    using t by (simp add: andthen_def raise_exn_def)
  show ?thesis
  proof (cases "accounts_at A s (se_account_id x)")
    case None
    then show ?thesis using run refused gone
      by (auto simp: open_confirm_def andthen_def [of "account_get A (se_account_id x)"] account_get_run [OF so])
  next
    case (Some c)
    show ?thesis
    proof (cases "acc_status c = ACCOUNT_ACTIVE \<and> acc_session_generation c = se_generation x \<and> still_valid c")
      case False
      then show ?thesis using run refused gone Some
        by (auto simp: open_confirm_def andthen_def [of "account_get A (se_account_id x)"] account_get_run [OF so])
    next
      case True
      let ?b = "c\<lparr>acc_last_login_at := Some (se_created_at x)\<rparr>"
      have c: "account_valid c" "acc_account_id c = se_account_id x" using stored_account [OF so Some] .
      have "edit c ?b" using c(1) by (simp add: edit_def same_names_def account_valid_def)
      then obtain d u where "account_update A ?b s = (Inr d, u)" using account_update_lands [OF so, of ?b c] Some c(2) by auto
      then show ?thesis using run True Some
        by (simp add: open_confirm_def andthen_def attempt_def ret_def account_get_run [OF so])
    qed
  qed
qed

end

section \<open>Over the in-memory repository\<close>

definition accounts_on_memory :: "('p memory, 'p) accounts \<Rightarrow> bool" where
  "accounts_on_memory A \<longleftrightarrow> as_repo A = memory_ops \<and> tenancy_on_memory (as_tenancy A)
     \<and> codec_ok account_valid (as_account A) \<and> codec_ok session_valid (as_session A) \<and> codec_ok (\<lambda>_. True) (as_index A)
     \<and> undoes_on_error (as_transaction A)"

lemma accounts_memory: "accounts_on_memory A \<Longrightarrow> account_store memory_ops mem_ok mem_owner (as_tenancy A) A"
  by (simp add: accounts_on_memory_def account_store_def account_store_axioms_def tenancy_memory)

datatype account_doc = AccountDoc account | SessionDoc session | IndexDoc "string option" | TenancyDoc tenancy_doc

fun account_in :: "account_doc \<Rightarrow> account option" where
  "account_in (AccountDoc a) = Some a" | "account_in _ = None"

fun session_in :: "account_doc \<Rightarrow> session option" where
  "session_in (SessionDoc x) = Some x" | "session_in _ = None"

fun index_in :: "account_doc \<Rightarrow> string option option" where
  "index_in (IndexDoc x) = Some x" | "index_in _ = None"

fun tenant_in :: "account_doc \<Rightarrow> tenant option" where
  "tenant_in (TenancyDoc d) = tenant_doc d" | "tenant_in _ = None"

fun key_in :: "account_doc \<Rightarrow> api_key option" where
  "key_in (TenancyDoc d) = key_doc d" | "key_in _ = None"

definition back_on_error :: "('s, 'a) prog \<Rightarrow> ('s, 'a) prog" where
  "back_on_error p = (\<lambda>s. case p s of (Inl e, _) \<Rightarrow> (Inl e, s) | (Inr x, s') \<Rightarrow> (Inr x, s'))"

definition demo_hashing :: hashing where
  "demo_hashing = \<lparr>hs_derive = (\<lambda>password salt _ _ _. Inr (password @ salt)), hs_b64 = (\<lambda>x. x), hs_unb64 = Inr,
     hs_int = (\<lambda>n. if n = ''16384'' then Inr 16384 else if n = ''8'' then Inr 8 else Inr 1)\<rparr>"

definition demo_accounts :: "(account_doc memory, account_doc) accounts" where
  "demo_accounts = \<lparr>as_repo = memory_ops,
     as_account = \<lparr>model_dump = AccountDoc, model_validate = account_in\<rparr>,
     as_session = \<lparr>model_dump = SessionDoc, model_validate = session_in\<rparr>,
     as_index = \<lparr>model_dump = IndexDoc, model_validate = index_in\<rparr>,
     as_tenancy = \<lparr>ty_repo = memory_ops, ty_tenant = \<lparr>model_dump = TenancyDoc \<circ> TenantDoc, model_validate = tenant_in\<rparr>,
       ty_key = \<lparr>model_dump = TenancyDoc \<circ> KeyDoc, model_validate = key_in\<rparr>, ty_sha = demo_sha\<rparr>,
     as_transaction = back_on_error, as_clock = (\<lambda>_. 100), as_hashing = demo_hashing, as_sha = demo_sha\<rparr>"

lemma demo_accounts_ok: "accounts_on_memory demo_accounts"
  by (simp add: accounts_on_memory_def demo_accounts_def tenancy_on_memory_def codec_ok_def undoes_on_error_def back_on_error_def)

interpretation mem_accounts: account_store memory_ops mem_ok mem_owner "as_tenancy demo_accounts" demo_accounts
  by (rule accounts_memory [OF demo_accounts_ok])

lemma no_accounts: "accounts_ok A mem_ok mem_owner empty_memory" if "accounts_on_memory A"
  using that no_tenants [of "as_tenancy A"]
  by (simp add: accounts_on_memory_def accounts_ok_def stored_ok_def linked_def store_ok_def keeps_kind_empty accounts_at_def
      sessions_at_def model_of_def tenancy_ok_def)

definition demo_tenant :: tenant where
  "demo_tenant = \<lparr>tn_tenant_id = ''t-1'', tn_name = ''PAMA'', tn_status = TENANT_ACTIVE, tn_created_at = 0, tn_updated_at = 0\<rparr>"

definition demo_password :: string where "demo_password = ''correct horse''"

text \<open>The tenant's customer has an account; somebody who knows the password signs in, up to the second half.\<close>

definition acc0 :: "account_doc memory" where
  "acc0 = snd (tenant_create (as_tenancy demo_accounts) 0 demo_tenant empty_memory)"

definition acc1 :: "account_doc memory" where
  "acc1 = snd (account_admin demo_accounts ''1'' ''salt'' demo_password demo_password '' A@b.ir'' (CreateAccount ''t-1'' False) acc0)"

definition demo_account :: account where
  "demo_account = \<lparr>acc_account_id = ''u-1'', acc_tenant_id = ''t-1'', acc_email = Some ''a@b.ir'', acc_mobile = None,
     acc_terms_accepted_at = None, acc_status = ACCOUNT_ACTIVE, acc_password_hash = Some ''scrypt$16384$8$1$salt$correct horsesalt'',
     acc_google_subject = None, acc_google_link_allowed = True, acc_session_generation = 0,
     acc_created_at = 100, acc_updated_at = 100, acc_last_login_at = None\<rparr>"

definition acc2 :: "account_doc memory" where
  "acc2 = snd (open_create demo_accounts demo_account PASSWORD_LOGIN ''tok'' ''csrf'' acc1)"

definition demo_session :: session where
  "demo_session = \<lparr>se_token_hash = demo_sha ''tok'', se_account_id = ''u-1'', se_tenant_id = ''t-1'', se_method = PASSWORD_LOGIN,
     se_generation = 0, se_csrf_token = ''csrf'', se_created_at = 100, se_expires_at = 100 + session_lifetime,
     se_last_seen_at = 100, se_revoked_at = None\<rparr>"

definition acc3 :: "account_doc memory" where
  "acc3 = snd (end_sessions demo_accounts demo_account (\<lambda>a. a\<lparr>acc_status := ACCOUNT_DISABLED\<rparr>) acc2)"

lemma demo_account_stored: "accounts_at demo_accounts acc1 ''u-1'' = Some demo_account" "accounts_at demo_accounts acc2 ''u-1'' = Some demo_account"
  by code_simp+

lemma demo_opened: "fst (open_create demo_accounts demo_account PASSWORD_LOGIN ''tok'' ''csrf'' acc1) = Inr demo_session"
    "sessions_at demo_accounts acc2 (demo_sha ''tok'') = Some demo_session" "session_version demo_accounts acc3 (demo_sha ''tok'') = 1"
    "token_hash demo_accounts ''tok'' = Inr (demo_sha ''tok'')"
  by code_simp+

lemma demo_ended: "map_sum (\<lambda>_. ()) acc_session_generation (fst (end_sessions demo_accounts demo_account (\<lambda>a. a\<lparr>acc_status := ACCOUNT_DISABLED\<rparr>) acc2)) = Inr 1"
  by code_simp

lemma demo_states_ok: "accounts_ok demo_accounts mem_ok mem_owner acc1" "accounts_ok demo_accounts mem_ok mem_owner acc2"
proof -
  have "tenant_valid demo_tenant" by code_simp
  from triple_state [OF mem_accounts.t_tenant_made [OF this] no_accounts [OF demo_accounts_ok] TrueI]
  have a0: "accounts_ok demo_accounts mem_ok mem_owner acc0" by (simp add: acc0_def)
  from triple_state [OF mem_accounts.t_account_admin a0 TrueI]
  show a1: "accounts_ok demo_accounts mem_ok mem_owner acc1" unfolding acc1_def by blast
  have "seen demo_accounts demo_account acc1"
    using mem_accounts.stored_seen [OF mem_accounts.accounts_okD(1) [OF a1] demo_account_stored(1)] .
  from triple_state [OF mem_accounts.t_open_create a1 this]
  show "accounts_ok demo_accounts mem_ok mem_owner acc2" by (simp add: acc2_def)
qed

lemma demo_seen: "seen demo_accounts demo_account acc1" "seen demo_accounts demo_account acc2"
  using mem_accounts.stored_seen [OF mem_accounts.accounts_okD(1)] demo_states_ok demo_account_stored by blast+

section \<open>Properties\<close>

text \<open>
  C7. An operator's change ends every session there is, for good: once disabling the account, setting
  its password, unlinking its Google identity or revoking its sessions has answered, no session of the
  account that was stored before is recognised again, whatever sign-ins, sign-outs, touches and further
  commands follow, the enabling of the account included.
\<close>

theorem ended_sessions_stay_ended:
  assumes "accounts_on_memory A" and "accounts_ok A mem_ok mem_owner s" and "seen A a s" and "keeps_names ch"
    and "end_sessions A a ch s = (Inr c, s1) \<or> unlink_google A a s = (Inr c, s1)"
    and "sessions_at A s h = Some x" and "se_account_id x = acc_account_id a"
    and "(auth_step A)\<^sup>*\<^sup>* s1 s2" and "token_hash A token = Inr h"
  shows "session_for A (Some token) s2 = (Inr None, s2)"
proof -
  note store = accounts_memory [OF assms(1)]
  have s1: "accounts_ok A mem_ok mem_owner s1" "accounts_later A s s1" "accounts_at A s1 (acc_account_id a) = Some c"
      "acc_session_generation c = acc_session_generation a + 1"
    using assms(5) tripleD [OF account_store.t_end_sessions [OF store assms(4)] assms(2,3)]
      tripleD [OF account_store.t_unlink_google [OF store] assms(2,3)] by auto
  obtain b where b: "accounts_at A s (acc_account_id a) = Some b" "se_generation x \<le> acc_session_generation b"
    using account_store.linked_session [OF store account_store.accounts_okD(2) [OF store assms(2)] assms(6)] assms(7) by auto
  have "b = a" using account_store.ended_current [OF store assms(2-5)] b(1) by simp
  then have "acc_session_generation b < acc_session_generation c" using s1(4) by simp
  moreover obtain y where "sessions_at A s1 h = Some y" "session_later x y" using accounts_later_session [OF s1(2) assms(6)] by blast
  ultimately show ?thesis
    using account_store.ended_session_dead [OF store s1(1) assms(8) s1(3), of "acc_session_generation b" h y token] assms(7,9) b(2)
    by (simp add: session_later_def)
qed

lemma ended_sessions_stay_ended_witness:
  "session_for demo_accounts (Some ''tok'') acc3 = (Inr None, acc3)"
proof -
  obtain c where run: "end_sessions demo_accounts demo_account (\<lambda>a. a\<lparr>acc_status := ACCOUNT_DISABLED\<rparr>) acc2 = (Inr c, acc3)"
    using demo_ended by (cases "fst (end_sessions demo_accounts demo_account (\<lambda>a. a\<lparr>acc_status := ACCOUNT_DISABLED\<rparr>) acc2)")
      (auto simp: acc3_def prod_eq_iff)
  show ?thesis
    by (rule ended_sessions_stay_ended [OF demo_accounts_ok demo_states_ok(2) demo_seen(2) mem_accounts.keeps_names_here(3)
        disjI1 [OF run] demo_opened(2) _ rtranclp.rtrancl_refl demo_opened(4)]) (simp add: demo_session_def demo_account_def)
qed

text \<open>
  C8. A sign-in that races with the operator is decided by what is stored when it ends. A session is
  opened from a copy of the account that may be old; then anything happens; then the opening is
  confirmed. It succeeds exactly if the stored account is active, of the generation the copy had, and
  the credential used is still its own; otherwise the answer is the refusal, and the session that was
  opened is never recognised, whatever happens later.
\<close>

theorem racing_sign_in_decided:
  assumes "accounts_on_memory A" and "accounts_ok A mem_ok mem_owner s" and "seen A a s"
    and "open_create A a m token csrf s = (Inr x, s1)" and "(auth_step A)\<^sup>*\<^sup>* s1 s2"
    and "session_version A s2 (se_token_hash x) = 1"
    and "open_confirm A still_valid token x s2 = (r, s3)" and "(auth_step A)\<^sup>*\<^sup>* s3 s4"
  shows "if (case accounts_at A s2 (acc_account_id a) of None \<Rightarrow> False
      | Some c \<Rightarrow> acc_status c = ACCOUNT_ACTIVE \<and> acc_session_generation c = acc_session_generation a \<and> still_valid c)
    then r = Inr (token, x)
    else r = Inl (Exn SignInError (refusal m)) \<and> session_for A (Some token) s4 = (Inr None, s4)"
proof -
  note store = accounts_memory [OF assms(1)]
  have s1: "accounts_ok A mem_ok mem_owner s1" "account_store.open_as A a token x" "se_method x = m"
      "sessions_at A s1 (se_token_hash x) = Some x" "session_version A s1 (se_token_hash x) = 1"
    using tripleD [OF account_store.t_open_create [OF store] assms(2,3,4)] by auto
  note as = s1(2) [unfolded account_store.open_as_def [OF store]]
  note two = account_store.auth_steps_ok [OF store assms(5) s1(1)]
  have x2: "sessions_at A s2 (se_token_hash x) = Some x"
    using accounts_later_session [OF conjunct2 [OF two] s1(4)] s1(5) assms(6) by auto
  have acct: "se_account_id x = acc_account_id a" "se_generation x = acc_session_generation a" using as by simp_all
  note run = account_store.confirm_run [OF store conjunct1 [OF two] x2 assms(6,7), unfolded acct s1(3)]
  show ?thesis
  proof (cases "case accounts_at A s2 (acc_account_id a) of None \<Rightarrow> False
      | Some c \<Rightarrow> acc_status c = ACCOUNT_ACTIVE \<and> acc_session_generation c = acc_session_generation a \<and> still_valid c")
    case True
    show ?thesis using run unfolding if_P [OF True] .
  next
    case False
    have r: "r = Inl (Exn SignInError (refusal m))" and s3: "accounts_ok A mem_ok mem_owner s3"
        "\<exists>y. sessions_at A s3 (se_token_hash x) = Some y \<and> se_revoked_at y \<noteq> None"
      using run unfolding if_not_P [OF False] by simp_all
    obtain y where y: "sessions_at A s3 (se_token_hash x) = Some y" "se_revoked_at y \<noteq> None" using s3(2) by blast
    show ?thesis unfolding if_not_P [OF False] using r account_store.revoked_session_dead [OF store s3(1) assms(8) y] as by simp
  qed
qed

lemma racing_sign_in_decided_witness:
  "fst (open_confirm demo_accounts (\<lambda>c. acc_password_hash c = acc_password_hash demo_account) ''tok'' demo_session acc3)
    = Inl (Exn SignInError generic_refusal)"
proof -
  obtain r s3 where run: "open_confirm demo_accounts (\<lambda>c. acc_password_hash c = acc_password_hash demo_account) ''tok'' demo_session acc3 = (r, s3)"
    by force
  have create: "open_create demo_accounts demo_account PASSWORD_LOGIN ''tok'' ''csrf'' acc1 = (Inr demo_session, acc2)"
    using demo_opened(1) by (simp add: acc2_def prod_eq_iff)
  have "(auth_step demo_accounts)\<^sup>*\<^sup>* acc2 acc3"
    unfolding acc3_def by (rule r_into_rtranclp, rule auth_step.ending [OF demo_seen(2) mem_accounts.keeps_names_here(3)])
  moreover have "session_version demo_accounts acc3 (se_token_hash demo_session) = 1" using demo_opened(3) by (simp add: demo_session_def)
  moreover have "map_option acc_status (accounts_at demo_accounts acc3 ''u-1'') = Some ACCOUNT_DISABLED" by code_simp
  ultimately show ?thesis
    using racing_sign_in_decided [OF demo_accounts_ok demo_states_ok(1) demo_seen(1) create _ _ run rtranclp.rtrancl_refl] run
    by (auto simp: demo_account_def refusal_def split: option.splits if_splits)
qed

text \<open>
  C10. Nobody's change is lost and a stale copy writes nothing. Writing an edited copy lands exactly if
  the copy is still what is stored, with a stamp later than the copy's; otherwise it is refused with
  AccountChangedError and the store is as it was.
\<close>

theorem stale_copy_refused:
  assumes "accounts_on_memory A" and "accounts_ok A mem_ok mem_owner s" and "seen A a s" and "edit a b"
    and "account_update A b s = (r, s')"
  shows "if accounts_at A s (acc_account_id a) = Some a
    then (\<exists>t > acc_updated_at a. r = Inr (b\<lparr>acc_updated_at := t\<rparr>)
      \<and> accounts_at A s' = (accounts_at A s)(acc_account_id a \<mapsto> b\<lparr>acc_updated_at := t\<rparr>))
    else r = Inl (Exn AccountChangedError (''account changed since it was read: '' @ acc_account_id a)) \<and> s' = s"
proof -
  note store = accounts_memory [OF assms(1)]
  have so: "stored_ok A mem_ok mem_owner s" using assms(2) by (simp add: accounts_ok_def)
  have id: "acc_account_id b = acc_account_id a" "account_valid b" "acc_updated_at b = acc_updated_at a"
    using assms(4) by (simp_all add: edit_def same_names_def)
  obtain c where c: "accounts_at A s (acc_account_id a) = Some c" "account_later a c" using assms(3) by (auto simp: seen_def)
  show ?thesis
  proof (cases "c = a")
    case True
    then obtain d t where "account_update A b s = (Inr d, t)"
      using account_store.account_update_lands [OF store so _ assms(4)] c(1) id(1) by auto
    then show ?thesis using account_store.account_update_run [OF store so id(2) assms(5)] assms(5) True c(1) id by auto
  next
    case False
    then have "acc_updated_at c \<noteq> acc_updated_at b" using account_later_stamp [OF c(2)] id(3) by auto
    moreover obtain rec where "repo_get (as_repo A) s account_kind (acc_account_id b) = Some rec" "restore (as_account A) (pr_payload rec) = Inr c"
      using account_store.stored_account_record [OF store so c(1)] id(1) by auto
    ultimately show ?thesis using assms(5) False c(1) id(1)
      by (auto simp: account_update_def andthen_def reads_def of_result_def raise_exn_def)
  qed
qed

lemma stale_copy_refused_witness:
  "account_update demo_accounts (demo_account\<lparr>acc_last_login_at := Some 100\<rparr>) acc3
    = (Inl (Exn AccountChangedError ''account changed since it was read: u-1''), acc3)"
proof -
  obtain r s where run: "account_update demo_accounts (demo_account\<lparr>acc_last_login_at := Some 100\<rparr>) acc3 = (r, s)" by force
  have step: "auth_step demo_accounts acc2 acc3"
    unfolding acc3_def by (rule auth_step.ending [OF demo_seen(2) mem_accounts.keeps_names_here(3)])
  note three = mem_accounts.step_ok [OF step demo_states_ok(2)]
  have copy: "seen demo_accounts demo_account acc3"
    by (rule seen_lasting [where I = "\<lambda>_. True", unfolded lasting_def, rule_format, OF TrueI TrueI conjunct2 [OF three] demo_seen(2)])
  have e: "edit demo_account (demo_account\<lparr>acc_last_login_at := Some 100\<rparr>)"
    using demo_seen(1) by (auto simp: seen_def edit_def same_names_def account_valid_def)
  have "map_option acc_status (accounts_at demo_accounts acc3 ''u-1'') = Some ACCOUNT_DISABLED" by code_simp
  then have "accounts_at demo_accounts acc3 (acc_account_id demo_account) \<noteq> Some demo_account" by (auto simp: demo_account_def)
  from stale_copy_refused [OF demo_accounts_ok conjunct1 [OF three] copy e run, unfolded if_not_P [OF this]] show ?thesis
    using run by (simp add: demo_account_def)
qed

text \<open>
  C9. An email, a mobile number and a Google identity each belong to one account, and find it: from a
  store where that is so, whatever is done in whatever order, no two accounts share any of them, and
  looking one up gives the account that has it.
\<close>

theorem accounts_unique:
  assumes "accounts_on_memory A" and "accounts_ok A mem_ok mem_owner s" and "(auth_step A)\<^sup>*\<^sup>* s s2"
    and "accounts_at A s2 i = Some a" and "accounts_at A s2 j = Some b"
    and "kind \<in> {''account_email'', ''account_mobile'', ''account_google''}" and "key_of kind a = Some k" and "key_of kind b = Some k"
  shows "i = j \<and> (acc_email a = Some (normalize_email e) \<longrightarrow> by_email A e s2 = (Inr (Some a), s2))
    \<and> (acc_mobile a = Some m \<longrightarrow> by_mobile A m s2 = (Inr (Some a), s2))
    \<and> (acc_google_subject a = Some g \<longrightarrow> by_google_subject A g s2 = (Inr (Some a), s2))"
proof -
  note store = accounts_memory [OF assms(1)]
  have ok2: "accounts_ok A mem_ok mem_owner s2" using account_store.auth_steps_ok [OF store assms(3,2)] by simp
  note so = account_store.accounts_okD [OF store ok2]
  have i: "acc_account_id a = i" "account_valid a" using account_store.stored_account [OF store so(1) assms(4)] by simp_all
  then have "i \<noteq> []" by (auto simp: account_valid_def length_between_def)
  note index = account_store.linked_index [OF store so(2) assms(4)]
  have "i = j" using index [of kind k] account_store.linked_index [OF store so(2) assms(5), of kind k] assms(6-8)
    by (simp add: index_kinds_def)
  moreover have "by_email A e s2 = (Inr (Some a), s2)" if "acc_email a = Some (normalize_email e)"
    using index [of email_kind "normalize_email e"] that assms(4) account_store.by_email_run [OF store ok2, of e]
    by (simp add: index_kinds_def key_of_def)
  moreover have "by_mobile A m s2 = (Inr (Some a), s2)" if "acc_mobile a = Some m"
    using index [of mobile_kind m] that assms(4) account_store.by_mobile_run [OF store ok2, of m]
    by (simp add: index_kinds_def key_of_def)
  moreover have "by_google_subject A g s2 = (Inr (Some a), s2)" if "acc_google_subject a = Some g"
    using index [of google_kind g] that assms(4) account_store.by_google_run [OF store ok2, of g] \<open>i \<noteq> []\<close>
    by (simp add: index_kinds_def key_of_def)
  ultimately show ?thesis by blast
qed

lemma accounts_unique_witness:
  "by_email demo_accounts ''a@B.ir '' acc2 = (Inr (Some demo_account), acc2)"
proof -
  have "acc_email demo_account = Some (normalize_email ''a@B.ir '')" by code_simp
  moreover have "key_of ''account_email'' demo_account = Some ''a@b.ir''" by code_simp
  ultimately show ?thesis
    using accounts_unique [OF demo_accounts_ok demo_states_ok(2) rtranclp.rtrancl_refl demo_account_stored(2) demo_account_stored(2), of "''account_email''"]
    by simp
qed

lemma split_joined:
  "ws \<noteq> [] \<Longrightarrow> \<forall>w \<in> set ws. c \<notin> set w \<Longrightarrow> length ws \<le> Suc n \<Longrightarrow> split_at_most c n (py_join [c] ws) = ws"
proof (induction "[c]" ws arbitrary: n rule: py_join.induct)
  case (2 w)
  then show ?case by (cases n) auto
next
  case (3 w v ws)
  then obtain m where n: "n = Suc m" by (cases n) auto
  then show ?case using 3 split_once [of c w m "py_join [c] (v # ws)"] by simp
qed simp

lemma join_length: "length ws \<le> Suc (length (py_join [c] ws))"
  by (induction "[c]" ws rule: py_join.induct) auto

lemma split_all_joined: "ws \<noteq> [] \<Longrightarrow> \<forall>w \<in> set ws. c \<notin> set w \<Longrightarrow> split_all c (py_join [c] ws) = ws"
  unfolding split_all_def by (rule split_joined) (use join_length in auto)

text \<open>
  C22. A stored password accepts that password and what scrypt makes the same of: of any text of at
  most 256 characters, the answer is whether the derived keys are equal, and the hash is not due for
  renewal. What is assumed of base64 and of reading a number is that they bring back what was written
  and that no dollar sign is among the characters of base64.
\<close>

theorem password_roundtrip:
  assumes "\<forall>x \<in> {salt, key}. hs_unb64 H (hs_b64 H x) = Inr x \<and> CHR ''$'' \<notin> set (hs_b64 H x)"
    and "hs_int H ''16384'' = Inr 16384" and "hs_int H ''8'' = Inr 8" and "hs_int H ''1'' = Inr 1"
    and "10 \<le> length password" and "length password \<le> 256" and "length guess \<le> 256"
    and "hs_derive H password salt 16384 8 1 = Inr key" and "hs_derive H guess salt 16384 8 1 = Inr other"
  shows "\<exists>h. hash_password H salt password = Inr h \<and> verify_password H guess (Some h) = Inr (other = key)
    \<and> needs_rehash H h = Inr False"
proof -
  let ?ws = "[''scrypt'', ''16384'', ''8'', ''1'', hs_b64 H salt, hs_b64 H key]"
  let ?h = "py_join ''$'' ?ws"
  have "hash_password H salt password = Inr (py_join ''$'' [scrypt_head, hs_b64 H salt, hs_b64 H key])"
    using assms(5,6,8) by (simp add: hash_password_def check_strength_def and_maybe_def)
  then have made: "hash_password H salt password = Inr ?h" by (simp add: scrypt_head_text)
  have fields: "split_all (CHR ''$'') ?h = ?ws" by (rule split_all_joined) (use assms(1) in auto)
  have "compare_password H guess ?h = Inr (other = key)"
    unfolding compare_password_def fields using assms(1-4,9) by (simp add: and_maybe_def)
  then have "verify_password H guess (Some ?h) = Inr (other = key)"
    using assms(7) by (simp add: verify_password_def)
  moreover have "needs_rehash H ?h = Inr False"
    unfolding needs_rehash_def fields using assms(2-4) by (simp add: and_maybe_def)
  ultimately show ?thesis using made by blast
qed

lemma password_roundtrip_witness:
  "\<exists>h. hash_password demo_hashing ''salt'' ''correct horse'' = Inr h
    \<and> verify_password demo_hashing ''correct horsE'' (Some h) = Inr (''correct horsEsalt'' = ''correct horsesalt'')
    \<and> needs_rehash demo_hashing h = Inr False"
  by (rule password_roundtrip) (simp_all add: demo_hashing_def)

end
