(* ===== verification/Keywords.thy ===== *)
theory Keywords
  imports Stores Ingestion
begin

text \<open>
  Keyword demand and what asking for it may cost: \<open>models/keyword_intel.py\<close>,
  \<open>keyword_intel/contracts.py\<close>, \<open>keyword_intel/cache.py\<close>. A document store reads and then writes, and
  others may come in between: what they do is a function of the store, \<open>ds_others\<close>. The provider is a
  program. Every document is a payload of the repository; how a count and a volume are written in one
  are arguments.
\<close>

section \<open>Keyword demand\<close>

datatype competition = COMPETITION_LOW | COMPETITION_MEDIUM | COMPETITION_HIGH | COMPETITION_VERY_HIGH | COMPETITION_UNKNOWN

record keyword_volume =
  kv_keyword :: string
  kv_search_volume :: "int option"
  kv_competition :: competition
  kv_provider_id :: string
  kv_fetched_at :: instant
  kv_confirmed :: bool

definition keyword_volume_valid :: "keyword_volume \<Rightarrow> bool" where
  "keyword_volume_valid v \<longleftrightarrow> kv_keyword v \<noteq> [] \<and> kv_provider_id v \<noteq> []
     \<and> (case kv_search_volume v of None \<Rightarrow> True | Some n \<Rightarrow> 0 \<le> n)"

record volume_lookup =
  vl_volumes :: "keyword_volume list"
  vl_pending :: "string list"
  vl_requests_made :: int

section \<open>Documents\<close>

record ('s, 'p) documents =
  ds_repo :: "('s, 'p) repository_ops"
  ds_type :: string
  ds_now :: "'s \<Rightarrow> instant"
  ds_others :: "'s \<Rightarrow> 's"

definition doc_read :: "('s, 'p) documents \<Rightarrow> string \<Rightarrow> ('s, ('p \<times> int) option) prog" where
  "doc_read D key = reads (\<lambda>s. map_option (\<lambda>r. (pr_payload r, pr_version r)) (repo_get (ds_repo D) s (ds_type D) key))"

definition doc_write :: "('s, 'p) documents \<Rightarrow> string \<Rightarrow> 'p \<Rightarrow> int option \<Rightarrow> ('s, unit) prog" where
  "doc_write D key payload expected_version = (\<lambda>s.
     let version = (case expected_version of None \<Rightarrow> 1 | Some v \<Rightarrow> v + 1) in
     andthen (of_result (new_precord (rid (ds_type D) key version) (ds_type D) key 1 version payload (ds_now D s) None None)) (\<lambda>r.
       updates (\<lambda>s. case expected_version of
           None \<Rightarrow> repo_create (ds_repo D) s r
         | Some v \<Rightarrow> repo_replace (ds_repo D) s r v)) s)"

text \<open>What happens between a read and a write.\<close>

definition meanwhile :: "('s, 'p) documents \<Rightarrow> ('s, unit) prog" where
  "meanwhile D = (\<lambda>s. (Inr (), ds_others D s))"

fun upsert_tries :: "('s, 'p) documents \<Rightarrow> nat \<Rightarrow> string \<Rightarrow> 'p \<Rightarrow> ('s, unit) prog" where
  "upsert_tries D 0 key payload = ret ()"
| "upsert_tries D (Suc n) key payload =
     andthen (doc_read D key) (\<lambda>current.
     andthen (meanwhile D) (\<lambda>_.
       attempt (doc_write D key payload (map_option snd current))
         (\<lambda>e. if is_conflict e then upsert_tries D n key payload else raise_exn e)))"

definition doc_upsert :: "('s, 'p) documents \<Rightarrow> string \<Rightarrow> 'p \<Rightarrow> ('s, unit) prog" where
  "doc_upsert D key payload = upsert_tries D 3 key payload"

section \<open>Budgets\<close>

abbreviation tehran_offset :: int where "tehran_offset \<equiv> hours 3 + minutes 30"

record ('s, 'p) budget =
  bu_store :: "('s, 'p) documents"
  bu_scope :: string
  bu_limit :: int
  bu_clock :: "'s \<Rightarrow> instant"
  bu_day_text :: "day \<Rightarrow> string"
  bu_document :: "int \<Rightarrow> int \<Rightarrow> bool \<Rightarrow> 'p"
  bu_used :: "'p \<Rightarrow> int"

definition new_budget :: "('s, 'p) budget \<Rightarrow> exn + ('s, 'p) budget" where
  "new_budget B = (if bu_limit B < 0 then Inl (Exn ValueError ''daily_limit must not be negative.'') else Inr B)"

definition budget_key :: "('s, 'p) budget \<Rightarrow> 's \<Rightarrow> string" where
  "budget_key B s = bu_scope B @ CHR '':'' # bu_day_text B ((bu_clock B s + tehran_offset) div days 1)"

definition used_in :: "('s, 'p) budget \<Rightarrow> ('p \<times> int) option \<Rightarrow> int" where
  "used_in B current = (case current of None \<Rightarrow> 0 | Some (p, _) \<Rightarrow> bu_used B p)"

definition budget_used :: "('s, 'p) budget \<Rightarrow> ('s, int) prog" where
  "budget_used B = (\<lambda>s. andthen (doc_read (bu_store B) (budget_key B s)) (\<lambda>current. ret (used_in B current)) s)"

definition budget_remaining :: "('s, 'p) budget \<Rightarrow> ('s, int) prog" where
  "budget_remaining B = andthen (budget_used B) (\<lambda>used. ret (max 0 (bu_limit B - used)))"

fun consume_tries :: "('s, 'p) budget \<Rightarrow> string \<Rightarrow> nat \<Rightarrow> ('s, unit) prog" where
  "consume_tries B key 0 =
     raise_exn (Exn BudgetExhaustedError ''The request budget is too contended right now; try again.'')"
| "consume_tries B key (Suc n) =
     andthen (doc_read (bu_store B) key) (\<lambda>current.
     if bu_limit B \<le> used_in B current
     then raise_exn (Exn BudgetExhaustedError
       (''Today's budget of '' @ show_int (bu_limit B) @ '' requests to '' @ bu_scope B @ '' is spent.''))
     else
       andthen (meanwhile (bu_store B)) (\<lambda>_.
       attempt (doc_write (bu_store B) key (bu_document B (used_in B current + 1) (bu_limit B) False) (map_option snd current))
         (\<lambda>e. if is_conflict e then consume_tries B key n else raise_exn e)))"

definition consume :: "('s, 'p) budget \<Rightarrow> ('s, unit) prog" where
  "consume B = (\<lambda>s. consume_tries B (budget_key B s) 5 s)"

definition budget_exhaust :: "('s, 'p) budget \<Rightarrow> ('s, unit) prog" where
  "budget_exhaust B = (\<lambda>s. doc_upsert (bu_store B) (budget_key B s) (bu_document B (bu_limit B) (bu_limit B) True) s)"

text \<open>Several budgets that must all have room; the last is the service's own.\<close>

fun combined_remaining :: "('s, 'p) budget list \<Rightarrow> ('s, int) prog" where
  "combined_remaining [] = raise_exn (Exn ValueError ''min() of nothing'')"
| "combined_remaining [B] = budget_remaining B"
| "combined_remaining (B # C # Bs) =
     andthen (budget_remaining B) (\<lambda>m. andthen (combined_remaining (C # Bs)) (\<lambda>n. ret (min m n)))"

fun all_have_room :: "('s, 'p) budget list \<Rightarrow> ('s, unit) prog" where
  "all_have_room [] = ret ()"
| "all_have_room (B # Bs) =
     andthen (budget_remaining B) (\<lambda>n.
       if n \<le> 0 then raise_exn (Exn BudgetExhaustedError ''Today's request budget is spent.'') else all_have_room Bs)"

fun consume_each :: "('s, 'p) budget list \<Rightarrow> ('s, unit) prog" where
  "consume_each [] = ret ()"
| "consume_each (B # Bs) = andthen (consume B) (\<lambda>_. consume_each Bs)"

definition combined_consume :: "('s, 'p) budget list \<Rightarrow> ('s, unit) prog" where
  "combined_consume Bs = andthen (all_have_room Bs) (\<lambda>_. consume_each Bs)"

definition combined_exhaust :: "('s, 'p) budget list \<Rightarrow> ('s, unit) prog" where
  "combined_exhaust Bs = (if Bs = [] then raise_exn (Exn LookupError ''list index'') else budget_exhaust (last Bs))"

datatype ('s, 'p) allowance = OneBudget "('s, 'p) budget" | Combined "('s, 'p) budget list"

fun allowance_consume :: "('s, 'p) allowance \<Rightarrow> ('s, unit) prog" where
  "allowance_consume (OneBudget B) = consume B"
| "allowance_consume (Combined Bs) = combined_consume Bs"

fun allowance_exhaust :: "('s, 'p) allowance \<Rightarrow> ('s, unit) prog" where
  "allowance_exhaust (OneBudget B) = budget_exhaust B"
| "allowance_exhaust (Combined Bs) = combined_exhaust Bs"

section \<open>The cache\<close>

abbreviation volume_ttl :: int where "volume_ttl \<equiv> days 30"
abbreviation unconfirmed_ttl :: int where "unconfirmed_ttl \<equiv> days 1"

record ('s, 'p) search_volume =
  sv_provider_id :: string
  sv_max_per_request :: int
  sv_search :: "string list \<Rightarrow> ('s, keyword_volume list) prog"
  sv_store :: "('s, 'p) documents"
  sv_volume :: "(keyword_volume, 'p) codec"
  sv_allowance :: "('s, 'p) allowance"
  sv_ttl :: int
  sv_unconfirmed_ttl :: int
  sv_clock :: "'s \<Rightarrow> instant"

definition volume_key :: "('s, 'p) search_volume \<Rightarrow> string \<Rightarrow> string" where
  "volume_key K keyword = sv_provider_id K @ CHR '':'' # keyword"

definition cached_volume :: "('s, 'p) search_volume \<Rightarrow> string \<Rightarrow> ('s, keyword_volume option) prog" where
  "cached_volume K keyword =
     andthen (doc_read (sv_store K) (volume_key K keyword)) (\<lambda>cached.
     case cached of None \<Rightarrow> ret None
     | Some (p, _) \<Rightarrow> andthen (of_result (restore (sv_volume K) p)) (\<lambda>v. ret (Some v)))"

text \<open>The dictionary that is filled is an association list, in the order of insertion.\<close>

fun peek_from :: "('s, 'p) search_volume \<Rightarrow> (string \<times> keyword_volume) list \<Rightarrow> string list \<Rightarrow> ('s, (string \<times> keyword_volume) list) prog" where
  "peek_from K found [] = ret found"
| "peek_from K found (k # ks) =
     (let normalized = normalize_query_latin k in
      if normalized = [] \<or> map_of found normalized \<noteq> None then peek_from K found ks
      else andthen (cached_volume K normalized) (\<lambda>v. peek_from K (found @ (case v of None \<Rightarrow> [] | Some v \<Rightarrow> [(normalized, v)])) ks))"

definition peek :: "('s, 'p) search_volume \<Rightarrow> string list \<Rightarrow> ('s, (string \<times> keyword_volume) list) prog" where
  "peek K keywords = peek_from K [] keywords"

fun wanted_from :: "string list \<Rightarrow> string list \<Rightarrow> string list" where
  "wanted_from wanted [] = wanted"
| "wanted_from wanted (k # ks) =
     (let normalized = normalize_query_latin k in
      wanted_from (if normalized \<noteq> [] \<and> normalized \<notin> set wanted then wanted @ [normalized] else wanted) ks)"

type_synonym volumes = "string \<Rightarrow> keyword_volume option"

text \<open>What is fresh, and what is there but old.\<close>

fun sort_cached :: "('s, 'p) search_volume \<Rightarrow> instant \<Rightarrow> string list \<Rightarrow> volumes \<times> volumes \<Rightarrow> ('s, volumes \<times> volumes) prog" where
  "sort_cached K now [] acc = ret acc"
| "sort_cached K now (k # ks) (answers, stale) =
     andthen (cached_volume K k) (\<lambda>v.
     case v of
       None \<Rightarrow> sort_cached K now ks (answers, stale)
     | Some v \<Rightarrow>
         if now - kv_fetched_at v \<le> (if kv_confirmed v then sv_ttl K else sv_unconfirmed_ttl K)
         then sort_cached K now ks (answers(k \<mapsto> v), stale)
         else sort_cached K now ks (answers, stale(k \<mapsto> v)))"

fun keep_answers :: "('s, 'p) search_volume \<Rightarrow> keyword_volume list \<Rightarrow> volumes \<Rightarrow> ('s, volumes) prog" where
  "keep_answers K [] answers = ret answers"
| "keep_answers K (v # vs) answers =
     (let key = normalize_query_latin (kv_keyword v); v' = v\<lparr>kv_keyword := key\<rparr> in
      andthen (doc_upsert (sv_store K) (volume_key K key) (model_dump (sv_volume K) v')) (\<lambda>_.
        keep_answers K vs (answers(key \<mapsto> v'))))"

text \<open>The requests: what is still missing, the answers so far and the requests made.\<close>

function ask_missing ::
  "('s, 'p) search_volume \<Rightarrow> string list \<Rightarrow> volumes \<Rightarrow> int \<Rightarrow> ('s, volumes \<times> string list \<times> int) prog" where
  "ask_missing K missing answers requests =
     (if missing = [] then ret (answers, [], requests)
      else
        let size = nat (max 1 (sv_max_per_request K)) in
        andthen (attempt
            (andthen (allowance_consume (sv_allowance K)) (\<lambda>_.
             andthen (sv_search K (take size missing)) (\<lambda>fetched. ret (Some fetched))))
            (\<lambda>e. if exn_class e = BudgetExhaustedError then ret None
                 else if exn_class e = ProviderQuotaError then andthen (allowance_exhaust (sv_allowance K)) (\<lambda>_. ret None)
                 else raise_exn e)) (\<lambda>got.
        case got of
          None \<Rightarrow> ret (answers, missing, requests)
        | Some fetched \<Rightarrow> andthen (keep_answers K fetched answers) (\<lambda>answers'.
            ask_missing K (drop size missing) answers' (requests + 1))))"
  by pat_completeness auto
termination
  by (relation "measure (\<lambda>(K, missing, answers, requests). length missing)") auto

fun fall_back :: "volumes \<Rightarrow> string list \<Rightarrow> volumes \<Rightarrow> volumes \<times> string list" where
  "fall_back stale [] answers = (answers, [])"
| "fall_back stale (k # ks) answers =
     (case stale k of
        Some v \<Rightarrow> fall_back stale ks (answers(k \<mapsto> v))
      | None \<Rightarrow> (let (answers', pending) = fall_back stale ks answers in (answers', k # pending)))"

definition lookup_volumes :: "('s, 'p) search_volume \<Rightarrow> string list \<Rightarrow> ('s, volume_lookup) prog" where
  "lookup_volumes K keywords =
     (let wanted = wanted_from [] keywords in
      andthen (reads (sv_clock K)) (\<lambda>now.
      andthen (sort_cached K now wanted (Map.empty, Map.empty)) (\<lambda>(answers, stale).
      let missing = filter (\<lambda>k. answers k = None) wanted in
      andthen (ask_missing K missing answers 0) (\<lambda>(answers', pending, requests).
      let (answers'', still_pending) = fall_back stale pending answers' in
      ret \<lparr>vl_volumes = map (\<lambda>k. the (answers'' k)) (filter (\<lambda>k. answers'' k \<noteq> None) wanted),
           vl_pending = still_pending, vl_requests_made = requests\<rparr>))))"

end
