(* ===== verification/Keywords_Claims.thy ===== *)
theory Keywords_Claims
  imports Keywords
begin

text \<open>
  What the daily budget and the cache of keyword demand keep: a budget shared by several workers hands
  out no more requests in a day than its limit, whatever comes between a read and a write, and a lookup
  answers or defers every keyword. What the documents rely on is the locale \<open>document_store\<close>.
\<close>

section \<open>Documents\<close>

definition doc_at :: "('s, 'p) documents \<Rightarrow> 's \<Rightarrow> string \<Rightarrow> ('p \<times> int) option" where
  "doc_at D s key = map_option (\<lambda>r. (pr_payload r, pr_version r)) (repo_get (ds_repo D) s (ds_type D) key)"

definition docs_ok ::
  "('s, 'p) documents \<Rightarrow> ('s \<Rightarrow> bool) \<Rightarrow> ('s \<Rightarrow> string \<Rightarrow> (string \<times> string \<times> int) option) \<Rightarrow> 's \<Rightarrow> bool" where
  "docs_ok D ok owner s \<longleftrightarrow>
     store_ok (ds_repo D) ok owner (ds_type D) (ds_type D) plain_codec (\<lambda>_ tenant _. tenant = None) s"

text \<open>Over time a document stays, and is another one only under a greater version.\<close>

definition docs_later :: "('s, 'p) documents \<Rightarrow> 's \<Rightarrow> 's \<Rightarrow> bool" where
  "docs_later D s s' \<longleftrightarrow> (\<forall>key p v. doc_at D s key = Some (p, v) \<longrightarrow>
     (\<exists>q w. doc_at D s' key = Some (q, w) \<and> (v < w \<or> w = v \<and> q = p)))"

lemma docs_later_refl: "docs_later D s s"
  by (simp add: docs_later_def)

lemma docs_later_trans:
  assumes "docs_later D s t" and "docs_later D t u"
  shows "docs_later D s u"
  unfolding docs_later_def
proof (intro allI impI)
  fix key p v assume "doc_at D s key = Some (p, v)"
  then obtain q w where q: "doc_at D t key = Some (q, w)" "v < w \<or> w = v \<and> q = p" using assms(1) unfolding docs_later_def by blast
  then obtain r x where "doc_at D u key = Some (r, x)" "w < x \<or> x = w \<and> r = q" using assms(2) unfolding docs_later_def by blast
  then show "\<exists>q w. doc_at D u key = Some (q, w) \<and> (v < w \<or> w = v \<and> q = p)" using q(2) by auto
qed

locale document_store = repository R ok owner
  for R :: "('s, 'p) repository_ops" and ok and owner +
  fixes D :: "('s, 'p) documents"
  assumes d_repo: "ds_repo D = R" and d_type: "ds_type D \<noteq> []" "CHR '':'' \<notin> set (ds_type D)"
begin

lemma doc_read_run: "doc_read D key s = (Inr (doc_at D s key), s)"
  by (simp add: doc_read_def doc_at_def reads_def)

text \<open>A write over what is there lands; over anything else it is a conflict, as long as documents stay.\<close>

lemma doc_written:
  assumes s: "docs_ok D ok owner s" and key: "key \<noteq> []"
  shows "\<exists>s'. doc_write D key p (map_option snd (doc_at D s key)) s = (Inr (), s') \<and> docs_ok D ok owner s'
    \<and> doc_at D s' = (doc_at D s)(key \<mapsto> (p, (case doc_at D s key of None \<Rightarrow> 1 | Some (_, v) \<Rightarrow> v + 1)))
    \<and> docs_later D s s'"
proof -
  let ?c = "plain_codec :: ('p, 'p) codec"
  let ?T = "ds_type D"
  have so: "store_ok R ok owner ?T ?T ?c (\<lambda>_ tenant _. tenant = None) s" using s by (simp add: docs_ok_def d_repo)
  let ?v = "case doc_at D s key of None \<Rightarrow> 1 | Some (_, v) \<Rightarrow> v + 1"
  have v: "1 \<le> ?v"
    using so unfolding store_ok_def by (fastforce simp: doc_at_def d_repo split: option.split)
  obtain r where r: "new_precord (rid ?T key ?v) ?T key 1 ?v p (ds_now D s) None None = Inr r"
    using new_precord_Inr [OF d_type(1) key v, of 1] by force
  have sr: "store_record ?T ?T ?c key ?v p r" "pr_tenant_id r = None"
    using new_precord_store [of ?T key ?v ?T 1 ?c p] r by (auto simp: plain_codec_def)
  have "\<exists>s'. (case map_option snd (doc_at D s key) of None \<Rightarrow> repo_create R s r | Some v \<Rightarrow> repo_replace R s r v) = Inr s'
      \<and> written_to R ok owner s r s'"
  proof (cases "repo_get R s ?T key")
    case None
    then show ?thesis using store_create [OF so] sr(1) by (simp add: doc_at_def d_repo)
  next
    case (Some rec)
    have "pr_tenant_id rec = None" using so Some unfolding store_ok_def by blast
    then show ?thesis using store_replace [OF so _ Some refl] sr Some by (simp add: doc_at_def d_repo)
  qed
  then obtain s' where s': "(case map_option snd (doc_at D s key) of None \<Rightarrow> repo_create R s r | Some v \<Rightarrow> repo_replace R s r v) = Inr s'"
      and w: "written_to R ok owner s r s'" by blast
  have run: "doc_write D key p (map_option snd (doc_at D s key)) s = (Inr (), s')"
    using r s' by (cases "doc_at D s key")
      (auto simp: doc_write_def andthen_def of_result_def updates_def Let_def d_repo split: sum.splits)
  have good: "pr_tenant_id r = None" using sr(2) .
  note one = store_written [OF so w sr(1) v good d_type(2)]
  have get: "repo_get R s' ?T k = (if k = key then Some r else repo_get R s ?T k)" for k
    using written_get [OF w] sr(1) by (simp add: store_record_def)
  have at: "doc_at D s' = (doc_at D s)(key \<mapsto> (p, ?v))"
    using sr(1) by (auto simp: doc_at_def d_repo get fun_eq_iff store_record_def plain_codec_def)
  have "docs_ok D ok owner s'" using one(1) by (simp add: docs_ok_def d_repo)
  moreover have "docs_later D s s'" unfolding docs_later_def at by (auto split: option.splits)
  ultimately show ?thesis using run at by blast
qed

lemma doc_refused:
  assumes s: "docs_ok D ok owner s" and key: "key \<noteq> []"
    and old: "ev \<noteq> map_option snd (doc_at D s key)" and there: "ev \<noteq> None \<Longrightarrow> doc_at D s key \<noteq> None" and e: "\<And>v. ev = Some v \<Longrightarrow> 1 \<le> v"
  shows "\<exists>x. doc_write D key p ev s = (Inl x, s) \<and> is_conflict x"
proof -
  let ?c = "plain_codec :: ('p, 'p) codec"
  let ?T = "ds_type D"
  have so: "store_ok R ok owner ?T ?T ?c (\<lambda>_ tenant _. tenant = None) s" using s by (simp add: docs_ok_def d_repo)
  let ?v = "case ev of None \<Rightarrow> 1 | Some v \<Rightarrow> v + 1"
  have v: "1 \<le> ?v" using e by (auto split: option.split)
  obtain r where r: "new_precord (rid ?T key ?v) ?T key 1 ?v p (ds_now D s) None None = Inr r"
    using new_precord_Inr [OF d_type(1) key v, of 1] by force
  have sr: "store_record ?T ?T ?c key ?v p r" using new_precord_store [of ?T key ?v ?T 1 ?c p] r by (auto simp: plain_codec_def)
  have "refused PersistenceConflictError (case ev of None \<Rightarrow> repo_create R s r | Some v \<Rightarrow> repo_replace R s r v)"
  proof (cases ev)
    case None
    then have "repo_get R s ?T key \<noteq> None" using old by (auto simp: doc_at_def d_repo)
    then show ?thesis using store_create_stale [OF so, of key p r] sr None by simp
  next
    case (Some w)
    then have "repo_get R s ?T key \<noteq> None" "version_of R ?T s key \<noteq> w"
      using old there by (auto simp: doc_at_def d_repo version_of_def)
    then show ?thesis using store_replace_stale [OF so, of key w p r] sr Some by simp
  qed
  then obtain m where "(case ev of None \<Rightarrow> repo_create R s r | Some v \<Rightarrow> repo_replace R s r v) = Inl (Exn PersistenceConflictError m)"
    unfolding refused_def by blast
  then show ?thesis using r
    by (intro exI [of _ "Exn PersistenceConflictError m"])
       (cases ev; auto simp: doc_write_def andthen_def of_result_def updates_def Let_def d_repo)
qed

text \<open>A copy that was read at some time.\<close>

definition doc_copy :: "string \<Rightarrow> ('p \<times> int) option \<Rightarrow> 's \<Rightarrow> bool" where
  "doc_copy key current s \<longleftrightarrow> (case current of None \<Rightarrow> True
     | Some (p, v) \<Rightarrow> 1 \<le> v \<and> (\<exists>q w. doc_at D s key = Some (q, w) \<and> (v < w \<or> w = v \<and> q = p)))"

lemma doc_copy_read:
  assumes "docs_ok D ok owner s"
  shows "doc_copy key (doc_at D s key) s"
  using assms unfolding doc_copy_def docs_ok_def store_ok_def by (fastforce simp: doc_at_def d_repo split: option.split)

lemma doc_copy_lasting: "doc_copy key current s \<Longrightarrow> docs_later D s s' \<Longrightarrow> doc_copy key current s'"
  unfolding doc_copy_def docs_later_def by (fastforce split: option.splits)

lemma doc_write_copy:
  assumes s: "docs_ok D ok owner s" and key: "key \<noteq> []" and copy: "doc_copy key current s"
  shows "(\<exists>x. doc_write D key p (map_option snd current) s = (Inl x, s) \<and> is_conflict x)
    \<or> (current = doc_at D s key \<and> (\<exists>s'. doc_write D key p (map_option snd current) s = (Inr (), s') \<and> docs_ok D ok owner s'
      \<and> doc_at D s' = (doc_at D s)(key \<mapsto> (p, (case current of None \<Rightarrow> 1 | Some (_, v) \<Rightarrow> v + 1))) \<and> docs_later D s s'))"
proof (cases "map_option snd current = map_option snd (doc_at D s key)")
  case True
  then have "current = doc_at D s key" using copy by (auto simp: doc_copy_def split: option.splits)
  then show ?thesis using doc_written [OF s key, of p] by auto
next
  case False
  have "\<exists>x. doc_write D key p (map_option snd current) s = (Inl x, s) \<and> is_conflict x"
    by (rule doc_refused [OF s key False]) (use copy in \<open>auto simp: doc_copy_def split: option.splits\<close>)
  then show ?thesis ..
qed

end

section \<open>A budget that several share\<close>

definition used_at :: "('s, 'p) budget \<Rightarrow> string \<Rightarrow> 's \<Rightarrow> int" where
  "used_at B key s = used_in B (doc_at (bu_store B) s key)"

text \<open>What workers of the budget do to its count when \<open>n\<close> requests are granted.\<close>

definition grants ::
  "('s, 'p) budget \<Rightarrow> ('s \<Rightarrow> bool) \<Rightarrow> ('s \<Rightarrow> string \<Rightarrow> (string \<times> string \<times> int) option) \<Rightarrow> string \<Rightarrow> nat \<Rightarrow> 's \<Rightarrow> 's \<Rightarrow> bool" where
  "grants B ok owner key n s s' \<longleftrightarrow> docs_ok (bu_store B) ok owner s' \<and> docs_later (bu_store B) s s'
     \<and> used_at B key s' = used_at B key s + int n \<and> (n \<noteq> 0 \<longrightarrow> used_at B key s' \<le> bu_limit B)"

definition fair_others ::
  "('s, 'p) budget \<Rightarrow> ('s \<Rightarrow> bool) \<Rightarrow> ('s \<Rightarrow> string \<Rightarrow> (string \<times> string \<times> int) option) \<Rightarrow> string \<Rightarrow> bool" where
  "fair_others B ok owner key \<longleftrightarrow>
     (\<forall>s. docs_ok (bu_store B) ok owner s \<longrightarrow> (\<exists>n. grants B ok owner key n s (ds_others (bu_store B) s)))"

lemma grants_none: "docs_ok (bu_store B) ok owner s \<Longrightarrow> grants B ok owner key 0 s s"
  by (simp add: grants_def docs_later_refl)

lemma grants_trans: "grants B ok owner key m s t \<Longrightarrow> grants B ok owner key n t u \<Longrightarrow> grants B ok owner key (m + n) s u"
  unfolding grants_def using docs_later_trans [of "bu_store B" s t u] by auto

locale budget_store = document_store R ok owner "bu_store B"
  for R :: "('s, 'p) repository_ops" and ok and owner and B :: "('s, 'p) budget" +
  assumes count_written: "bu_used B (bu_document B u l e) = u"
begin

lemma consume_tries_granted:
  assumes key: "key \<noteq> []" and fair: "fair_others B ok owner key"
  shows "docs_ok (bu_store B) ok owner s \<Longrightarrow> consume_tries B key n s = (r, s') \<Longrightarrow>
    \<exists>m. grants B ok owner key (if r = Inr () then Suc m else m) s s'"
proof (induction n arbitrary: s)
  case 0
  then show ?case by (auto simp: raise_exn_def intro!: exI [of _ 0] grants_none)
next
  case (Suc n)
  let ?cur = "doc_at (bu_store B) s key" and ?t = "ds_others (bu_store B) s"
  let ?p = "bu_document B (used_in B ?cur + 1) (bu_limit B) False"
  show ?case
  proof (cases "bu_limit B \<le> used_in B ?cur")
    case True
    then show ?thesis using Suc.prems
      by (auto simp: andthen_def doc_read_run raise_exn_def intro!: exI [of _ 0] grants_none)
  next
    case False
    obtain k where k: "grants B ok owner key k s ?t" using fair Suc.prems(1) unfolding fair_others_def by blast
    then have t: "docs_ok (bu_store B) ok owner ?t" "docs_later (bu_store B) s ?t" by (simp_all add: grants_def)
    have run: "consume_tries B key (Suc n) s = attempt (doc_write (bu_store B) key ?p (map_option snd ?cur))
         (\<lambda>e. if is_conflict e then consume_tries B key n else raise_exn e) ?t"
      using False by (simp add: andthen_def doc_read_run meanwhile_def)
    have copy: "doc_copy key ?cur ?t" by (rule doc_copy_lasting [OF doc_copy_read [OF Suc.prems(1)] t(2)])
    from doc_write_copy [OF t(1) key copy, of ?p] show ?thesis
    proof (elim disjE exE conjE)
      fix x assume x: "doc_write (bu_store B) key ?p (map_option snd ?cur) ?t = (Inl x, ?t)" "is_conflict x"
      then have "consume_tries B key n ?t = (r, s')" using run Suc.prems(2) by (simp add: attempt_def)
      from Suc.IH [OF t(1) this] obtain m where m: "grants B ok owner key (if r = Inr () then Suc m else m) ?t s'" by blast
      show ?thesis using grants_trans [OF k m] by (intro exI [of _ "k + m"]) (simp split: if_splits)
    next
      fix u assume same: "?cur = doc_at (bu_store B) ?t key" and w: "doc_write (bu_store B) key ?p (map_option snd ?cur) ?t = (Inr (), u)"
        "docs_ok (bu_store B) ok owner u"
        "doc_at (bu_store B) u = (doc_at (bu_store B) ?t)(key \<mapsto> (?p, (case ?cur of None \<Rightarrow> 1 | Some (_, v) \<Rightarrow> v + 1)))"
        "docs_later (bu_store B) ?t u"
      have r: "r = Inr ()" "s' = u" using run Suc.prems(2) w(1) by (simp_all add: attempt_def)
      have "used_at B key ?t = used_in B ?cur" using same by (simp add: used_at_def)
      moreover have "used_at B key u = used_in B ?cur + 1" by (simp add: used_at_def w(3) used_in_def count_written)
      ultimately have "grants B ok owner key 1 ?t u" using w(2,4) False by (simp add: grants_def)
      from grants_trans [OF k this] show ?thesis using r by (intro exI [of _ k]) simp
    qed
  qed
qed

lemma consume_alone:
  assumes s: "docs_ok (bu_store B) ok owner s" and key: "key \<noteq> []" and alone: "ds_others (bu_store B) = (\<lambda>s. s)"
  shows "if used_at B key s < bu_limit B
    then \<exists>s'. consume_tries B key (Suc n) s = (Inr (), s') \<and> docs_ok (bu_store B) ok owner s' \<and> used_at B key s' = used_at B key s + 1
    else \<exists>e. consume_tries B key (Suc n) s = (Inl e, s)"
  using doc_written [OF s key, of "bu_document B (used_in B (doc_at (bu_store B) s key) + 1) (bu_limit B) False"]
  by (auto simp: used_at_def andthen_def doc_read_run meanwhile_def alone attempt_def raise_exn_def used_in_def [of B "Some _"] count_written)

end

text \<open>So many calls, one after another, and how many were granted.\<close>

fun takes :: "('s, 'p) budget \<Rightarrow> nat \<Rightarrow> 's \<Rightarrow> nat \<times> 's" where
  "takes B 0 s = (0, s)"
| "takes B (Suc n) s = (let (r, s') = consume B s; (m, s'') = takes B n s' in (if r = Inr () then Suc m else m, s''))"

context budget_store
begin

lemma takes_granted:
  assumes day: "\<And>s. budget_key B s = key" and fair: "fair_others B ok owner key"
  shows "docs_ok (bu_store B) ok owner s \<Longrightarrow> \<exists>m. grants B ok owner key (fst (takes B n s) + m) s (snd (takes B n s))"
proof (induction n arbitrary: s)
  case 0
  then show ?case using grants_none by (intro exI [of _ 0]) simp
next
  case (Suc n)
  have key: "key \<noteq> []" using day [of s] by (auto simp: budget_key_def)
  obtain r s' where r: "consume B s = (r, s')" by force
  then have "consume_tries B key 5 s = (r, s')" by (simp add: consume_def day)
  from consume_tries_granted [OF key fair Suc.prems this] obtain m where
      m: "grants B ok owner key (if r = Inr () then Suc m else m) s s'" by blast
  then have "docs_ok (bu_store B) ok owner s'" by (simp add: grants_def)
  from Suc.IH [OF this] obtain k where k: "grants B ok owner key (fst (takes B n s') + k) s' (snd (takes B n s'))" by blast
  show ?case using grants_trans [OF m k] r
    by (intro exI [of _ "m + k"]) (auto simp: split_beta ac_simps split: if_splits)
qed

lemma takes_alone:
  assumes day: "\<And>s. budget_key B s = key" and alone: "ds_others (bu_store B) = (\<lambda>s. s)"
  shows "docs_ok (bu_store B) ok owner s \<Longrightarrow> fst (takes B n s) = min n (nat (bu_limit B - used_at B key s))"
proof (induction n arbitrary: s)
  case (Suc n)
  have key: "key \<noteq> []" using day [of s] by (auto simp: budget_key_def)
  show ?case
  proof (cases "used_at B key s < bu_limit B")
    case True
    then obtain s' where "consume B s = (Inr (), s')" "docs_ok (bu_store B) ok owner s'" "used_at B key s' = used_at B key s + 1"
      using consume_alone [OF Suc.prems key alone, of 4] by (auto simp: consume_def day)
    moreover have "nat (bu_limit B - used_at B key s) = Suc (nat (bu_limit B - (used_at B key s + 1)))" using True by arith
    ultimately show ?thesis using Suc.IH [of s'] by (simp add: split_beta min_def)
  next
    case False
    then obtain e where "consume B s = (Inl e, s)"
      using consume_alone [OF Suc.prems key alone, of 4] by (auto simp: consume_def day)
    then show ?thesis using Suc.IH [OF Suc.prems] False by (simp add: split_beta)
  qed
qed simp

end

section \<open>A keyword is its own key\<close>

text \<open>No white space next to another, and every one a plain space.\<close>

definition tidy :: "int list \<Rightarrow> bool" where
  "tidy cs \<longleftrightarrow> successively (\<lambda>a b. \<not> (unicode_space a \<and> unicode_space b)) cs \<and> (\<forall>c \<in> set cs. unicode_space c \<longrightarrow> c = 32)"

lemma unicode_space_32 [simp]: "unicode_space 32"
  by (simp add: unicode_space_def between_def)

lemma single_spaces_Cons: "single_spaces (c # cs) =
    (if unicode_space c then if cs \<noteq> [] \<and> unicode_space (hd cs) then single_spaces cs else 32 # single_spaces cs
     else c # single_spaces cs)"
  by (cases cs) simp_all

lemma single_spaces_Nil: "single_spaces cs = [] \<longleftrightarrow> cs = []"
proof (induction cs)
  case (Cons c cs)
  then show ?case by (simp add: single_spaces_Cons del: single_spaces.simps(2))
qed simp

lemma single_spaces_head: "unicode_space (hd (single_spaces cs)) = unicode_space (hd cs)"
proof (induction cs)
  case (Cons c cs)
  then show ?case by (simp add: single_spaces_Cons del: single_spaces.simps(2))
qed simp

lemma tidy_Cons: "tidy (c # cs) \<longleftrightarrow> tidy cs \<and> (unicode_space c \<longrightarrow> c = 32 \<and> (cs \<noteq> [] \<longrightarrow> \<not> unicode_space (hd cs)))"
  by (cases cs) (auto simp: tidy_def)

lemma single_spaces_tidy: "tidy (single_spaces cs)"
proof (induction cs)
  case (Cons c cs)
  then show ?case
    by (auto simp: single_spaces_Cons tidy_Cons single_spaces_head single_spaces_Nil simp del: single_spaces.simps(2))
qed (simp add: tidy_def)

lemma single_spaces_id: "tidy cs \<Longrightarrow> single_spaces cs = cs"
proof (induction cs)
  case (Cons c cs)
  then show ?case by (auto simp: single_spaces_Cons tidy_Cons simp del: single_spaces.simps(2))
qed simp

lemma single_spaces_set: "set (single_spaces cs) \<subseteq> insert 32 (set cs)"
proof (induction cs)
  case (Cons c cs)
  then show ?case by (auto simp: single_spaces_Cons simp del: single_spaces.simps(2))
qed simp

lemma tidy_append: "tidy (xs @ ys) \<Longrightarrow> tidy xs \<and> tidy ys"
  by (auto simp: tidy_def successively_append_iff)

lemma tidy_rev: "tidy (rev xs) = tidy xs"
  by (auto simp: tidy_def conj_commute elim: successively_mono)

lemma tidy_dropWhile: "tidy cs \<Longrightarrow> tidy (dropWhile P cs)"
  using tidy_append [of "takeWhile P cs" "dropWhile P cs"] by simp

lemma tidy_strip: "tidy cs \<Longrightarrow> tidy (strip_spaces cs)"
  by (simp add: strip_spaces_def tidy_rev tidy_dropWhile)

lemma strip_spaces_idem: "strip_spaces (strip_spaces cs) = strip_spaces cs"
proof -
  let ?d = "dropWhile unicode_space cs"
  let ?e = "strip_spaces cs"
  have e: "rev ?e = dropWhile unicode_space (rev ?d)" by (simp add: strip_spaces_def)
  then have "?d = ?e @ rev (takeWhile unicode_space (rev ?d))" by (metis rev_append rev_rev_ident takeWhile_dropWhile_id)
  then have "?e \<noteq> [] \<Longrightarrow> hd ?e = hd ?d \<and> ?d \<noteq> []" by (metis Nil_is_append_conv hd_append2)
  then have "dropWhile unicode_space ?e = ?e" using hd_dropWhile [of unicode_space cs] by (auto simp: dropWhile_eq_self_iff)
  moreover have "dropWhile unicode_space (rev ?e) = rev ?e" unfolding e by (rule dropWhile_idem)
  ultimately show ?thesis by (simp add: strip_spaces_def [of ?e])
qed

lemma close_zwnj_id: "zwnj \<notin> set cs \<Longrightarrow> close_zwnj cs = cs"
proof (induction cs rule: close_zwnj.induct)
  case (2 c cs)
  have "d \<noteq> zwnj" if "dropWhile unicode_space (c # cs) = d # ds" for d ds
    using "2.prems" set_dropWhileD [of d unicode_space "c # cs", unfolded that] by auto
  then show ?case using 2 by (simp del: dropWhile.simps split: list.splits)
qed simp

text \<open>On code points below 256 only the white space is changed.\<close>

lemma clean_query_latin:
  assumes "\<forall>c \<in> set cs. 0 \<le> c \<and> c < 256"
  shows "clean_query cs = strip_spaces (single_spaces cs)" and "\<forall>c \<in> set (clean_query cs). 0 \<le> c \<and> c < 256"
proof -
  have "map translate_char cs = cs" using assms by (intro map_idI) auto
  moreover have "filter (\<lambda>c. \<not> invisible_control c) cs = cs" "filter (\<lambda>c. \<not> zero_width_noise c) cs = cs" "filter (\<lambda>c. \<not> diacritic c) cs = cs"
    using assms by (auto simp: filter_id_conv invisible_control_def zero_width_noise_def diacritic_def between_def)
  moreover have all: "\<forall>c \<in> set (strip_spaces (single_spaces cs)). 0 \<le> c \<and> c < 256"
    using assms single_spaces_set [of cs] by (fastforce simp: strip_spaces_def dest!: set_dropWhileD)
  moreover have "zwnj \<notin> set (strip_spaces (single_spaces cs))" using all by fastforce
  ultimately show "clean_query cs = strip_spaces (single_spaces cs)" and "\<forall>c \<in> set (clean_query cs). 0 \<le> c \<and> c < 256"
    by (simp_all add: clean_query_def Let_def close_zwnj_id del: filter_filter)
qed

lemma of_char_range: "0 \<le> (of_char c :: int) \<and> of_char c < (256 :: int)"
  by (metis of_char_mod_256 pos_mod_bound pos_mod_sign zero_less_numeral)

lemma normalize_query_latin_idem: "normalize_query_latin (normalize_query_latin s) = normalize_query_latin s"
proof -
  let ?cs = "map of_char s :: int list"
  have latin: "\<forall>c \<in> set ?cs. 0 \<le> c \<and> c < 256"
    using of_char_range by simp
  note one = clean_query_latin [OF latin]
  have same: "map of_char (map char_of (clean_query ?cs)) = clean_query ?cs"
    using one(2) by (auto intro!: map_idI simp: take_bit_int_eq_self)
  have "clean_query (clean_query ?cs) = clean_query ?cs"
    using clean_query_latin(1) [OF one(2)]
    by (simp add: one(1) single_spaces_id tidy_strip single_spaces_tidy strip_spaces_idem)
  then show ?thesis using same by (simp add: normalize_query_latin_def normalize_query_def del: map_map)
qed

section \<open>A lookup\<close>

lemma wanted_from_set: "distinct wanted \<Longrightarrow> [] \<notin> set wanted \<Longrightarrow> distinct (wanted_from wanted ks) \<and> [] \<notin> set (wanted_from wanted ks)
    \<and> set (wanted_from wanted ks) = set wanted \<union> (normalize_query_latin ` set ks - {[]})"
  by (induction ks arbitrary: wanted) (auto simp: Let_def)

definition by_name :: "volumes \<Rightarrow> bool" where
  "by_name a \<longleftrightarrow> (\<forall>k v. a k = Some v \<longrightarrow> kv_keyword v = k)"

lemma by_name_upd: "by_name a \<Longrightarrow> kv_keyword v = k \<Longrightarrow> by_name (a(k \<mapsto> v))"
  by (simp add: by_name_def)

text \<open>The provider's promise: an entry per keyword asked about, in that order. It is only asked about
  normalised keywords.\<close>

definition search_answers_each :: "('s, 'p) search_volume \<Rightarrow> bool" where
  "search_answers_each K \<longleftrightarrow> (\<forall>ks s vs s'. map normalize_query_latin ks = ks \<longrightarrow> sv_search K ks s = (Inr vs, s') \<longrightarrow> map (normalize_query_latin \<circ> kv_keyword) vs = ks)"

lemma keep_answers_dom:
  "keep_answers K vs answers s = (Inr a, s') \<Longrightarrow> dom a = dom answers \<union> (normalize_query_latin \<circ> kv_keyword) ` set vs
    \<and> (by_name answers \<longrightarrow> by_name a)"
proof (induction vs arbitrary: answers s)
  case (Cons v vs)
  let ?key = "normalize_query_latin (kv_keyword v)"
  obtain s1 where "keep_answers K vs (answers(?key \<mapsto> v\<lparr>kv_keyword := ?key\<rparr>)) s1 = (Inr a, s')"
    using Cons.prems by (auto simp: Let_def andthen_def split: prod.splits sum.splits)
  note ih = Cons.IH [OF this]
  show ?case
  proof (intro conjI impI)
    show "dom a = dom answers \<union> (normalize_query_latin \<circ> kv_keyword) ` set (v # vs)" using conjunct1 [OF ih] by auto
    assume "by_name answers"
    then have "by_name (answers(?key \<mapsto> v\<lparr>kv_keyword := ?key\<rparr>))" by (rule by_name_upd) simp
    then show "by_name a" using conjunct2 [OF ih] by blast
  qed
qed (auto simp: ret_def)

lemma ask_missing_parts:
  "search_answers_each K \<Longrightarrow> map normalize_query_latin missing = missing \<Longrightarrow>
    ask_missing K missing answers n s = (Inr (a, pending, m), s') \<Longrightarrow>
    \<exists>asked. missing = asked @ pending \<and> dom a = dom answers \<union> set asked \<and> (by_name answers \<longrightarrow> by_name a) \<and> n \<le> m
      \<and> (m - n) * max 1 (sv_max_per_request K) < int (length asked) + max 1 (sv_max_per_request K)"
proof (induction K missing answers n arbitrary: s rule: ask_missing.induct)
  case (1 K missing answers n)
  let ?size = "nat (max 1 (sv_max_per_request K))"
  show ?case
  proof (cases "missing = []")
    case True
    then show ?thesis using "1.prems"(3) by (simp add: ret_def)
  next
    case False
    let ?request = "attempt
            (andthen (allowance_consume (sv_allowance K)) (\<lambda>_.
             andthen (sv_search K (take ?size missing)) (\<lambda>fetched. ret (Some fetched))))
            (\<lambda>e. if exn_class e = BudgetExhaustedError then ret None
                 else if exn_class e = ProviderQuotaError then andthen (allowance_exhaust (sv_allowance K)) (\<lambda>_. ret None)
                 else raise_exn e)"
    obtain y s1 where one: "?request s = (y, s1)" by force
    note step = "1.prems"(3) [unfolded ask_missing.simps [of K missing], unfolded Let_def if_not_P [OF False] andthen_def [of ?request] one]
    obtain got where y: "y = Inr got" using step by (cases y) auto
    show ?thesis
    proof (cases got)
      case None
      then show ?thesis using step y by (auto simp: ret_def)
    next
      case (Some vs)
      obtain s2 s3 where "sv_search K (take ?size missing) s2 = (Inr vs, s3)"
        using one y Some by (auto simp: attempt_def andthen_def ret_def raise_exn_def split: prod.splits sum.splits if_splits)
      moreover have part: "map normalize_query_latin (take ?size missing) = take ?size missing"
          "map normalize_query_latin (drop ?size missing) = drop ?size missing"
        using "1.prems"(2) by (metis take_map, metis drop_map)
      ultimately have asked: "map (normalize_query_latin \<circ> kv_keyword) vs = take ?size missing"
        using "1.prems"(1) part(1) unfolding search_answers_each_def by blast
      obtain b s4 where b: "keep_answers K vs answers s1 = (Inr b, s4)"
          "ask_missing K (drop ?size missing) b (n + 1) s4 = (Inr (a, pending, m), s')"
        using step y Some by (auto simp: andthen_def split: prod.splits sum.splits)
      have "dom b = dom answers \<union> set (take ?size missing)" and nb: "by_name answers \<longrightarrow> by_name b"
        using keep_answers_dom [OF b(1)] asked by (metis set_map)+
      moreover obtain asked where ih: "drop ?size missing = asked @ pending" "dom a = dom b \<union> set asked" "n + 1 \<le> m"
          "by_name b \<longrightarrow> by_name a" "(m - (n + 1)) * max 1 (sv_max_per_request K) < int (length asked) + max 1 (sv_max_per_request K)"
        using "1.IH" [OF False refl "1.prems"(1) part(2) b(2)] by (elim exE conjE) (rule that)
      moreover have "missing = (take ?size missing @ asked) @ pending" using ih(1) by (metis append_assoc append_take_drop_id)
      moreover have "(m - n) * max 1 (sv_max_per_request K) < int (length (take ?size missing @ asked)) + max 1 (sv_max_per_request K)"
      proof (cases "?size \<le> length missing")
        case True
        then show ?thesis using ih(5) by (simp add: algebra_simps le_max_iff_disj)
      next
        case False
        then have "asked = []" using ih(1) by simp
        then have less: "(m - (n + 1)) * max 1 (sv_max_per_request K) < max 1 (sv_max_per_request K)" using ih(5) by simp
        have "m - (n + 1) < 1"
          by (rule ccontr) (use less mult_right_mono [of 1 "m - (n + 1)" "max 1 (sv_max_per_request K)"] in linarith)
        then have "m = n + 1" using ih(3) by simp
        then show ?thesis using \<open>missing \<noteq> []\<close> by (cases missing) simp_all
      qed
      ultimately show ?thesis using nb by (intro exI [of _ "take ?size missing @ asked"]) auto
    qed
  qed
qed

lemma fall_back_parts:
  "fall_back stale ks answers = (a, pending) \<Longrightarrow> dom answers \<inter> set ks = {} \<Longrightarrow> distinct ks \<Longrightarrow>
    pending = filter (\<lambda>k. stale k = None) ks \<and> dom a = dom answers \<union> (set ks - set pending)
      \<and> (by_name stale \<longrightarrow> by_name answers \<longrightarrow> by_name a)"
proof (induction ks arbitrary: answers pending)
  case (Cons k ks)
  show ?case
  proof (cases "stale k")
    case None
    then obtain p where p: "fall_back stale ks answers = (a, p)" "pending = k # p" using Cons.prems(1) by (auto split: prod.splits)
    then show ?thesis using Cons.IH [OF p(1)] Cons.prems(2,3) None by auto
  next
    case (Some v)
    have "fall_back stale ks (answers(k \<mapsto> v)) = (a, pending)" using Cons.prems(1) Some by simp
    moreover have "dom (answers(k \<mapsto> v)) \<inter> set ks = {}" using Cons.prems(2,3) by auto
    ultimately have "pending = filter (\<lambda>k. stale k = None) ks \<and> dom a = dom (answers(k \<mapsto> v)) \<union> (set ks - set pending)
        \<and> (by_name stale \<longrightarrow> by_name (answers(k \<mapsto> v)) \<longrightarrow> by_name a)"
      by (rule Cons.IH) (use Cons.prems(3) in simp)
    moreover have "by_name stale \<Longrightarrow> kv_keyword v = k" using Some by (simp add: by_name_def)
    ultimately show ?thesis using Some Cons.prems(3) by_name_upd [of answers v k] by auto
  qed
qed auto

text \<open>What is cached is kept under its own keyword.\<close>

definition cache_sound :: "('s, 'p) search_volume \<Rightarrow> 's \<Rightarrow> bool" where
  "cache_sound K s \<longleftrightarrow> (\<forall>k v. cached_volume K k s = (Inr (Some v), s) \<longrightarrow> kv_keyword v = k)"

lemma cached_volume_reads: "cached_volume K k s = (y, s') \<Longrightarrow> s' = s"
  by (auto simp: cached_volume_def doc_read_def andthen_def reads_def of_result_def ret_def split: option.splits sum.splits)

lemma sort_cached_parts:
  "sort_cached K now ks acc s = (Inr acc', s') \<Longrightarrow> dom (fst acc) \<inter> set ks = {} \<Longrightarrow> distinct ks \<Longrightarrow>
    s' = s \<and> dom (fst acc') \<subseteq> dom (fst acc) \<union> set ks
    \<and> (cache_sound K s \<longrightarrow> by_name (fst acc) \<longrightarrow> by_name (snd acc) \<longrightarrow> by_name (fst acc') \<and> by_name (snd acc'))"
proof (induction ks arbitrary: acc)
  case (Cons k ks)
  obtain answers stale where acc: "acc = (answers, stale)" by force
  obtain v where v: "cached_volume K k s = (Inr v, s)"
    using Cons.prems(1) acc cached_volume_reads [of K k s] by (auto simp: andthen_def split: prod.splits sum.splits)
  have "\<exists>b. sort_cached K now ks b s = (Inr acc', s') \<and> dom (fst b) \<subseteq> insert k (dom answers)
      \<and> (cache_sound K s \<longrightarrow> by_name answers \<longrightarrow> by_name stale \<longrightarrow> by_name (fst b) \<and> by_name (snd b))"
  proof (cases v)
    case None
    then show ?thesis using Cons.prems(1) acc v by (intro exI [of _ acc]) (auto simp: andthen_def)
  next
    case (Some x)
    have name: "cache_sound K s \<Longrightarrow> kv_keyword x = k" using v Some by (simp add: cache_sound_def)
    show ?thesis
    proof (cases "now - kv_fetched_at x \<le> (if kv_confirmed x then sv_ttl K else sv_unconfirmed_ttl K)")
      case True
      then show ?thesis using Cons.prems(1) acc v Some name by_name_upd [of answers x k]
        by (intro exI [of _ "(answers(k \<mapsto> x), stale)"]) (simp add: andthen_def)
    next
      case False
      then show ?thesis using Cons.prems(1) acc v Some name by_name_upd [of stale x k]
        by (intro exI [of _ "(answers, stale(k \<mapsto> x))"]) (auto simp: andthen_def)
    qed
  qed
  then obtain b where b: "sort_cached K now ks b s = (Inr acc', s')" "dom (fst b) \<subseteq> insert k (dom answers)"
      "cache_sound K s \<longrightarrow> by_name answers \<longrightarrow> by_name stale \<longrightarrow> by_name (fst b) \<and> by_name (snd b)" by blast
  then have free: "dom (fst b) \<inter> set ks = {}" using Cons.prems(2,3) acc by auto
  have ih: "s' = s" "dom (fst acc') \<subseteq> dom (fst b) \<union> set ks"
      "cache_sound K s \<longrightarrow> by_name (fst b) \<longrightarrow> by_name (snd b) \<longrightarrow> by_name (fst acc') \<and> by_name (snd acc')"
    using Cons.IH [OF b(1) free] Cons.prems(3) by simp_all
  have "dom (fst acc') \<subseteq> dom (fst acc) \<union> set (k # ks)" 
    by (rule subset_trans [OF ih(2)]) (use b(2) acc in auto)
  moreover have "cache_sound K s \<longrightarrow> by_name (fst acc) \<longrightarrow> by_name (snd acc) \<longrightarrow> by_name (fst acc') \<and> by_name (snd acc')"
    using ih(3) b(3) acc by simp
  ultimately show ?case using ih(1) by blast
qed (auto simp: ret_def)

lemma by_name_list: "by_name a \<Longrightarrow> set ks \<subseteq> dom a \<Longrightarrow> map (\<lambda>k. kv_keyword (the (a k))) ks = ks"
  by (induction ks) (auto simp: by_name_def)

section \<open>Over the in-memory repository\<close>

definition budget_on_memory :: "('p memory \<times> 'w, 'p) budget \<Rightarrow> bool" where
  "budget_on_memory B \<longleftrightarrow> ds_repo (bu_store B) = beside memory_ops \<and> ds_type (bu_store B) \<noteq> []
     \<and> CHR '':'' \<notin> set (ds_type (bu_store B)) \<and> (\<forall>u l e. bu_used B (bu_document B u l e) = u)"

abbreviation beside_ok :: "'p memory \<times> 'w \<Rightarrow> bool" where "beside_ok s \<equiv> mem_ok (fst s)"
abbreviation beside_owner :: "'p memory \<times> 'w \<Rightarrow> string \<Rightarrow> (string \<times> string \<times> int) option" where
  "beside_owner s \<equiv> mem_owner (fst s)"

lemma budget_memory: "budget_on_memory B \<Longrightarrow> budget_store (beside memory_ops) beside_ok beside_owner B"
  by (simp add: budget_on_memory_def budget_store_def budget_store_axioms_def document_store_def document_store_axioms_def
      mem_beside.repository_axioms)

text \<open>
  Two workers and a budget: each is the other's \<open>ds_others\<close>, as long as its turns last. A payload is a
  count or a volume.
\<close>

type_synonym shared = "(int + keyword_volume) memory \<times> nat"

definition quiet_budget :: "int \<Rightarrow> string \<Rightarrow> (shared, int + keyword_volume) budget" where
  "quiet_budget limit scope = \<lparr>bu_store = \<lparr>ds_repo = beside memory_ops, ds_type = ''provider_budget'', ds_now = (\<lambda>_. 0), ds_others = (\<lambda>s. s)\<rparr>,
     bu_scope = scope, bu_limit = limit, bu_clock = (\<lambda>_. 0), bu_day_text = (\<lambda>_. ''1970-01-01''),
     bu_document = (\<lambda>u _ _. Inl u), bu_used = (\<lambda>p. case p of Inl u \<Rightarrow> u | Inr _ \<Rightarrow> 0)\<rparr>"

definition between_with :: "(shared, int + keyword_volume) budget \<Rightarrow> (shared, int + keyword_volume) budget \<Rightarrow> (shared, int + keyword_volume) budget" where
  "between_with other B = B\<lparr>bu_store := (bu_store B)\<lparr>ds_others := \<lambda>(m, turns).
     case turns of 0 \<Rightarrow> (m, 0) | Suc n \<Rightarrow> snd (consume other (m, n))\<rparr>\<rparr>"

lemma quiet_on_memory: "budget_on_memory (quiet_budget l scope)" "budget_on_memory (between_with other (quiet_budget l scope))"
  by (simp_all add: budget_on_memory_def quiet_budget_def between_with_def)

interpretation quiet: budget_store "beside memory_ops" beside_ok beside_owner "quiet_budget 3 ''seo''"
  by (rule budget_memory [OF quiet_on_memory(1)])

lemma quiet_key: "budget_key (quiet_budget l scope) s = scope @ '':1970-01-01''"
    "budget_key (between_with other (quiet_budget l scope)) s = scope @ '':1970-01-01''"
  by (simp_all add: budget_key_def quiet_budget_def between_with_def)

lemma no_documents: "ds_repo D = beside memory_ops \<Longrightarrow> docs_ok D beside_ok beside_owner (empty_memory, w)"
  by (simp add: docs_ok_def store_ok_def keeps_kind_empty)

lemma shared_start:
  fixes B defines "B \<equiv> between_with (quiet_budget 3 ''seo'') (quiet_budget 3 ''seo'')"
  shows "\<And>s. budget_key B s = ''seo:1970-01-01''" and "ds_repo (bu_store B) = beside memory_ops"
    and "used_at B key (empty_memory, n) = 0" and "bu_limit B = 3"
  unfolding B_def by (simp add: quiet_key) (simp_all add: used_at_def doc_at_def used_in_def between_with_def quiet_budget_def)

text \<open>Another worker of the same budget is fair.\<close>

lemma between_fair: "fair_others (between_with (quiet_budget 3 ''seo'') (quiet_budget 3 ''seo'')) beside_ok beside_owner ''seo:1970-01-01''"
proof -
  let ?Q = "quiet_budget 3 ''seo''" and ?key = "''seo:1970-01-01''"
  let ?B = "between_with ?Q ?Q"
  have alone: "fair_others ?Q beside_ok beside_owner ?key"
    unfolding fair_others_def by (auto intro!: exI [of _ 0] grants_none simp: quiet_budget_def)
  have same: "doc_at (bu_store ?B) s k = doc_at (bu_store ?Q) (fst s, n) k" "docs_ok (bu_store ?B) beside_ok beside_owner s = docs_ok (bu_store ?Q) beside_ok beside_owner (fst s, n)"
      "used_in ?B = used_in ?Q" "bu_limit ?B = bu_limit ?Q" for s k n
    by (simp_all add: doc_at_def docs_ok_def store_ok_def quiet_budget_def between_with_def used_in_def fun_eq_iff split: option.split)
  show ?thesis unfolding fair_others_def
  proof (intro allI impI)
    fix s assume ok: "docs_ok (bu_store ?B) beside_ok beside_owner s"
    obtain m turns where s: "s = (m, turns)" by force
    show "\<exists>n. grants ?B beside_ok beside_owner ?key n s (ds_others (bu_store ?B) s)"
    proof (cases turns)
      case 0
      then have "ds_others (bu_store ?B) s = s" using s by (simp add: between_with_def)
      then show ?thesis using grants_none [OF ok] by auto
    next
      case (Suc n)
      obtain r s' where r: "consume_tries ?Q ?key 5 (m, n) = (r, s')" by (cases "consume_tries ?Q ?key 5 (m, n)")
      have "docs_ok (bu_store ?Q) beside_ok beside_owner (m, n)" using ok same(2) [of s n] s by simp
      from quiet.consume_tries_granted [OF _ alone this r] obtain k
        where k: "grants ?Q beside_ok beside_owner ?key k (m, n) s'" by auto
      have "ds_others (bu_store ?B) s = s'" using s Suc r by (simp add: between_with_def consume_def quiet_key)
      moreover have "grants ?B beside_ok beside_owner ?key k s s'"
        using k same(1) [of s _ n] same(1) [of s' _ "snd s'"] same(2) [of s' "snd s'"] same(3,4) s
        by (auto simp: grants_def docs_later_def used_at_def)
      ultimately show ?thesis by auto
    qed
  qed
qed

section \<open>The properties\<close>

text \<open>C11. A daily budget is never exceeded. Of \<open>n\<close> calls at most as many are granted as the count of the day
  then shows, and that count does not pass the limit, whatever other workers of the same budget do between
  a read and a write; and alone, exactly as many calls are granted as there is room for.\<close>

theorem budget_never_exceeded:
  assumes B: "budget_on_memory B" and day: "\<And>s. budget_key B s = key"
    and s: "docs_ok (bu_store B) beside_ok beside_owner s" and fair: "fair_others B beside_ok beside_owner key"
  shows "int (fst (takes B n s)) \<le> used_at B key (snd (takes B n s)) - used_at B key s
    \<and> used_at B key (snd (takes B n s)) \<le> max (bu_limit B) (used_at B key s)
    \<and> (ds_others (bu_store B) = (\<lambda>s. s) \<longrightarrow> fst (takes B n s) = min n (nat (bu_limit B - used_at B key s)))"
proof -
  note S = budget_memory [OF B]
  obtain m where "grants B beside_ok beside_owner key (fst (takes B n s) + m) s (snd (takes B n s))"
    using budget_store.takes_granted [OF S day fair s] by blast
  then show ?thesis using budget_store.takes_alone [OF S day _ s] by (auto simp: grants_def)
qed

text \<open>Limit three, and the other worker has two turns.\<close>

theorem budget_never_exceeded_witness:
  "used_at (between_with (quiet_budget 3 ''seo'') (quiet_budget 3 ''seo'')) ''seo:1970-01-01''
     (snd (takes (between_with (quiet_budget 3 ''seo'') (quiet_budget 3 ''seo'')) 5 (empty_memory, 2))) \<le> 3"
  using budget_never_exceeded [OF quiet_on_memory(2) shared_start(1) no_documents [OF shared_start(2)] between_fair, of 5 2]
  by (simp add: shared_start(3,4))

text \<open>C28. A lookup answers or defers every keyword. The volumes it returns are by_name by exactly the wanted
  keywords that are not pending, in the order they were asked; what is pending is wanted and named once; and it
  made no more requests than full batches of the provider's size (and a last one) would take. The provider
  answers every keyword it is asked about, and what is cached is kept under its own name.\<close>

theorem lookup_answers_or_defers:
  assumes answers: "search_answers_each K" and cached: "cache_sound K s"
    and run: "lookup_volumes K ks s = (Inr r, s')"
  shows "map kv_keyword (vl_volumes r) = filter (\<lambda>k. k \<notin> set (vl_pending r)) (wanted_from [] ks)
    \<and> set (wanted_from [] ks) = normalize_query_latin ` set ks - {[]} \<and> distinct (wanted_from [] ks)
    \<and> set (vl_pending r) \<subseteq> set (wanted_from [] ks) \<and> distinct (vl_pending r)
    \<and> 0 \<le> vl_requests_made r
    \<and> vl_requests_made r * max 1 (sv_max_per_request K) < int (length (wanted_from [] ks)) + max 1 (sv_max_per_request K)"
proof -
  let ?w = "wanted_from [] ks"
  have w: "distinct ?w" "set ?w = normalize_query_latin ` set ks - {[]}" using wanted_from_set [of "[]" ks] by auto
  obtain a0 stale s1 a1 pending n s2 where
      c: "sort_cached K (sv_clock K s) ?w (Map.empty, Map.empty) s = (Inr (a0, stale), s1)"
    and ask: "ask_missing K (filter (\<lambda>k. a0 k = None) ?w) a0 0 s1 = (Inr (a1, pending, n), s2)"
    and r: "r = (let (a2, left) = fall_back stale pending a1 in
        \<lparr>vl_volumes = map (\<lambda>k. the (a2 k)) (filter (\<lambda>k. a2 k \<noteq> None) ?w), vl_pending = left, vl_requests_made = n\<rparr>)"
    using run by (auto simp: lookup_volumes_def andthen_def reads_def ret_def Let_def split: prod.splits sum.splits)
  obtain a2 left where f: "fall_back stale pending a1 = (a2, left)" by force
  have dom0: "dom a0 \<subseteq> set ?w" and n0: "by_name a0" "by_name stale"
    using sort_cached_parts [OF c _ w(1)] cached by (auto simp: by_name_def)
  have normal: "map normalize_query_latin (filter (\<lambda>k. a0 k = None) ?w) = filter (\<lambda>k. a0 k = None) ?w"
    using w(2) by (intro map_idI) (auto simp: normalize_query_latin_idem)
  obtain asked where asked: "filter (\<lambda>k. a0 k = None) ?w = asked @ pending" "dom a1 = dom a0 \<union> set asked" "by_name a1" "0 \<le> n"
      "n * max 1 (sv_max_per_request K) < int (length asked) + max 1 (sv_max_per_request K)"
    using ask_missing_parts [OF answers normal ask] n0(1) by auto
  have open_keys: "set asked \<union> set pending = {k \<in> set ?w. a0 k = None}" using arg_cong [OF asked(1), of set] by simp
  have apart: "distinct (asked @ pending)" using w(1) asked(1) by (metis distinct_filter)
  have "dom a1 \<inter> set pending = {}" using open_keys apart asked(2) by auto
  moreover have "distinct pending" using apart by simp
  ultimately have left: "left = filter (\<lambda>k. stale k = None) pending" "dom a2 = dom a1 \<union> (set pending - set left)" "by_name a2"
    using fall_back_parts [OF f] n0(2) asked(3) by blast+
  have sub: "set left \<subseteq> set ?w" "distinct left" using left(1) open_keys \<open>distinct pending\<close> by auto
  have "k \<in> dom a2 \<longleftrightarrow> k \<notin> set left" if "k \<in> set ?w" for k
    using that open_keys left(1,2) asked(2) \<open>dom a1 \<inter> set pending = {}\<close> by (cases "a0 k") auto
  then have same: "filter (\<lambda>k. a2 k \<noteq> None) ?w = filter (\<lambda>k. k \<notin> set left) ?w"
    by (intro filter_cong refl) (auto simp: domIff)
  have "map kv_keyword (vl_volumes r) = filter (\<lambda>k. k \<notin> set left) ?w"
    unfolding r f Let_def by (simp add: same [symmetric] by_name_list [OF left(3)] comp_def subset_iff domIff)
  moreover have "length asked \<le> length ?w" using arg_cong [OF asked(1), of length] length_filter_le [of _ ?w] by (metis le_add1 length_append le_trans)
  ultimately show ?thesis using r f w sub asked(4,5) by simp
qed


text \<open>A budget of one request, a provider of one keyword a request, and three keywords, two of them the same.\<close>

definition demo_source :: "(shared, int + keyword_volume) search_volume" where
  "demo_source = \<lparr>sv_provider_id = ''seo'', sv_max_per_request = 1,
     sv_search = (\<lambda>ks. ret (map (\<lambda>k. \<lparr>kv_keyword = k, kv_search_volume = Some 7, kv_competition = COMPETITION_LOW,
       kv_provider_id = ''seo'', kv_fetched_at = 0, kv_confirmed = True\<rparr>) ks)),
     sv_store = \<lparr>ds_repo = beside memory_ops, ds_type = ''keyword_volume'', ds_now = (\<lambda>_. 0), ds_others = (\<lambda>s. s)\<rparr>,
     sv_volume = \<lparr>model_dump = Inr, model_validate = (\<lambda>p. case p of Inl _ \<Rightarrow> None | Inr v \<Rightarrow> Some v)\<rparr>,
     sv_allowance = OneBudget (quiet_budget 1 ''seo''), sv_ttl = volume_ttl, sv_unconfirmed_ttl = unconfirmed_ttl, sv_clock = (\<lambda>_. 0)\<rparr>"

definition demo_volume :: keyword_volume where
  "demo_volume = \<lparr>kv_keyword = ''a'', kv_search_volume = Some 7, kv_competition = COMPETITION_LOW,
     kv_provider_id = ''seo'', kv_fetched_at = 0, kv_confirmed = True\<rparr>"

definition demo_lookup :: volume_lookup where
  "demo_lookup = \<lparr>vl_volumes = [demo_volume], vl_pending = [''b''], vl_requests_made = 1\<rparr>"

lemma demo_source_facts: "search_answers_each demo_source" "cache_sound demo_source (empty_memory, 0)"
proof -
  show "search_answers_each demo_source"
    by (simp add: search_answers_each_def demo_source_def ret_def comp_def)
  have "fst (cached_volume demo_source k (empty_memory, 0)) = Inr None" for k
    by (simp add: cached_volume_def demo_source_def doc_read_def andthen_def reads_def ret_def)
  then show "cache_sound demo_source (empty_memory, 0)"
    unfolding cache_sound_def by (metis fst_conv option.discI sum.inject(2))
qed

lemma demo_lookup_run: "fst (lookup_volumes demo_source ['' a'', ''b'', ''a''] (empty_memory, 0)) = Inr demo_lookup"
  by code_simp

theorem lookup_answers_or_defers_witness:
  "map kv_keyword (vl_volumes demo_lookup) = filter (\<lambda>k. k \<notin> set (vl_pending demo_lookup)) (wanted_from [] ['' a'', ''b'', ''a''])"
  using lookup_answers_or_defers [OF demo_source_facts, of "['' a'', ''b'', ''a'']" demo_lookup] demo_lookup_run
  by (metis prod.collapse)

text \<open>
  Two budgets taken together are checked first and taken after. Another worker that takes the last request of
  the second between the two leaves a refusal that has cost the first budget a request.
\<close>

definition own_budget :: "(shared, int + keyword_volume) budget" where
  "own_budget = between_with (quiet_budget 1 ''all'') (quiet_budget 5 ''own'')"

theorem combined_refusal_costs:
  "case combined_consume [own_budget, quiet_budget 1 ''all''] (empty_memory, 1) of (r, s') \<Rightarrow>
     (case r of Inl e \<Rightarrow> exn_class e = BudgetExhaustedError | Inr _ \<Rightarrow> False)
     \<and> used_at own_budget ''own:1970-01-01'' (empty_memory, 1) = 0 \<and> used_at own_budget ''own:1970-01-01'' s' = 1"
  by code_simp

end
