(* ===== verification/Spec2Isabelle.thy ===== *)
theory Spec2Isabelle
  imports Jobs Otp Execution_Claims Billing_Claims Pipeline Queue_Claims Outcome_Claims Warehouse_Claims
    Measuring_Claims Accounts_Claims Keywords_Claims
begin

text \<open>
  A verification library for the back end of an SEO service (\<open>src/app\<close>). The service measures a
  customer's pages, proposes changes to them, and carries out the ones the customer approves on
  the customer's own site; one-time codes let people in, and a job queue does the slow work.

  \<^bold>\<open>Parts and theories\<close>

  \<^item> \<open>Seo_Prelude\<close>: exceptions as values (\<open>exn\<close>, with the class names of the code), programs
    on a state (\<open>ret\<close>, \<open>andthen\<close>, \<open>attempt\<close>, \<open>noting\<close> for \<open>try\<close>/\<open>except\<close>), Python values and
    dictionaries as association lists, \<open>str.split\<close>, joining, decimal numbers, sorting.
  \<^item> \<open>Persistence\<close>: \<open>models/persistence.py\<close> and \<open>persistence/\<close> (\<open>contracts.py\<close>,
    \<open>cursor.py\<close>, \<open>memory.py\<close>). The \<open>Repository\<close> protocol is the record \<open>repository_ops\<close>, its
    laws the locale \<open>repository\<close>, interpreted on the in-memory repository.
  \<^item> \<open>Stores\<close>: what a store of one kind of aggregate over any repository promises (create,
    replace, what a refused write leaves), in the locale, and a repository beside other state.
  \<^item> \<open>Jobs\<close>: \<open>models/jobs.py\<close>, \<open>jobs/store.py\<close>, \<open>jobs/scheduler.py\<close>: a job's life, the
    queue, recovery after a restart, the worker's loop.
  \<^item> \<open>Limiter\<close>, \<open>Otp\<close>: \<open>AttemptLimiter\<close> of \<open>accounts/service.py\<close>, \<open>accounts/phone.py\<close> and
    \<open>accounts/otp.py\<close>: sliding windows, mobile numbers, sending and checking codes.
  \<^item> \<open>Domain\<close>: the records and enums of \<open>models/\<close> that flow through the pipeline.
  \<^item> \<open>Actions\<close>: \<open>action/planner.py\<close>, \<open>state_machine.py\<close>, \<open>lifecycle.py\<close>, \<open>fields.py\<close>,
    \<open>models/action_lifecycle.py\<close>, \<open>verification/engine.py\<close>.
  \<^item> \<open>Approvals\<close>: \<open>models/managed_action.py\<close> and \<open>action/approval.py\<close>: proposals, decisions,
    and which histories are lawful.
  \<^item> \<open>Executor\<close>, \<open>Executor_Store\<close>: \<open>action/store.py\<close>, \<open>action/executor.py\<close>,
    \<open>execution/capabilities.py\<close>; the site adapter is a record of programs. The laws of a store
    of actions are the locale \<open>action_store\<close>.
  \<^item> \<open>Action_Life\<close>, \<open>Execution_Claims\<close>: the life of a change as a step relation, and the
    properties of applying, checking and undoing one.
  \<^item> \<open>Guarantee\<close>, \<open>Billing\<close>, \<open>Billing_Store\<close>, \<open>Billing_Claims\<close>: \<open>app/billing\<close>. Plans and prices,
    subscriptions and payments as versioned records, the payment gateway as programs, and every
    operation of the service; \<open>Guarantee\<close> holds the triples the proofs about its programs use.
  \<^item> \<open>Py_Float\<close>: binary64 arithmetic on rational numbers, rounding half to even after each
    operation, \<open>round(x, 6)\<close>, decimal literals, the compensated \<open>sum\<close> of floats.
  \<^item> \<open>Observations\<close>: the records of daily data, \<open>ingestion/calendar.py\<close>, \<open>daily_window.py\<close>,
    \<open>integrity.py\<close>, \<open>reconciliation.py\<close>, \<open>features/missing_data.py\<close>, \<open>url_metrics.py\<close>,
    \<open>normalization/observation.py\<close>.
  \<^item> \<open>Ingestion\<close>: \<open>normalization/query.py\<close>, \<open>url.py\<close>, \<open>gsc.py\<close>, \<open>ingestion/gsc.py\<close>.
  \<^item> \<open>Features\<close>: \<open>features/\<close>, \<open>detectors/\<close>, \<open>classifier/rules.py\<close>.
  \<^item> \<open>Learning\<close>: \<open>learning/engine.py\<close>, \<open>decision.py\<close>, \<open>direction.py\<close>.
  \<^item> \<open>Decisions\<close>, \<open>Decision_Facts\<close>: \<open>classifier/candidate_builder.py\<close>, \<open>clustering.py\<close>,
    \<open>queue.py\<close>, \<open>opportunity/engine.py\<close>, \<open>strategy/engine.py\<close>, \<open>engine/decision.py\<close> and what they
    keep of the constraints of their records.
  \<^item> \<open>Pipeline\<close>, \<open>Queue_Claims\<close>: \<open>pipeline/decision.py\<close>, and the properties of the pipeline and of
    the investigation queue.
  \<^item> \<open>Outcomes\<close>, \<open>Outcome_Claims\<close>: \<open>measurement/series.py\<close>, \<open>measurement/engine.py\<close>,
    \<open>outcome/engine.py\<close>: windows, comparisons and the verdict.
  \<^item> \<open>Feedback\<close>: \<open>learning/store.py\<close>: what each change taught, kept once; the laws of the store
    are the locale \<open>feedback_store\<close>. The loop over the pages of a listing is a partial function.
  \<^item> \<open>Warehouse\<close>, \<open>Warehouse_Claims\<close>: \<open>warehouse/models.py\<close>, \<open>planner.py\<close>, \<open>fetch.py\<close>, \<open>store.py\<close>,
    \<open>sync.py\<close>, \<open>runner.py\<close>: sixteen months of daily data per site. The tables are maps by primary
    key; a statement or transaction is a step.
  \<^item> \<open>Measuring\<close>, \<open>Measuring_Claims\<close>: \<open>measurement/runner.py\<close>: which changes are measured, over
    which days, and the settlement of one; what the runner relies on is the locale \<open>measuring\<close>.

  \<^item> \<open>Tenancy\<close>, \<open>Tenancy_Claims\<close>: \<open>models/tenants.py\<close>, \<open>tenancy/keys.py\<close>, \<open>tenancy/store.py\<close>,
    \<open>tenants.py\<close>, \<open>api/auth.py\<close>: tenants, the keys that speak for them and who a request is taken
    for; the laws of the two stores are the locale \<open>tenancy_store\<close>.
  \<^item> \<open>Accounts\<close>, \<open>Account_Store\<close>, \<open>Accounts_Claims\<close>: \<open>accounts/models.py\<close>, \<open>passwords.py\<close>,
    \<open>store.py\<close>, \<open>service.py\<close>, \<open>__main__.py\<close>: accounts and the index records they are found by,
    passwords, sessions, the ways in and out and the operator's commands; the locale \<open>account_store\<close>
    extends \<open>tenancy_store\<close>. Opening a session is two definitions, so that others can come between.
  \<^item> \<open>Keywords\<close>, \<open>Keywords_Claims\<close>: \<open>models/keyword_intel.py\<close>, \<open>keyword_intel/contracts.py\<close>,
    \<open>cache.py\<close>: documents, daily budgets that several workers share, the cached lookup of demand; the
    locales \<open>document_store\<close> and \<open>budget_store\<close>. What others do between a read and a write is a
    function of the store.

  \<^bold>\<open>How the code is read\<close>

  A method of a store is a program on the state its repository lives in; a raise is the value
  \<open>Inl\<close> of a program and keeps what was written before it. Instants are microseconds as
  integers and the clock is an argument. A lock is the atomicity of one step. JSON round trips
  of a model are an argument, the \<open>codec\<close>, with the law \<open>codec_ok\<close> that a valid model comes
  back; every witness has the codec that stores the model as it is. Hashes, random draws, the SMS
  gateway, the site's HTTP interface and job handlers are arguments as well. Floats are rational
  numbers; every arithmetic operation on them rounds to binary64 as CPython does (from 3.12 on for
  \<open>sum\<close>). Infinities and NaN are not represented. The medians and slopes of numpy, the decimal text
  of a float, Unicode normalisation, percent-encoding and splitting of URLs and the reading of ISO
  dates are arguments (\<open>numerics\<close>, \<open>std_library\<close>). A date is a day number without bounds.

  \<^bold>\<open>What is shown\<close>

  The store listing is complete page by page and confined to one tenant; a round of the worker
  takes the oldest job and records its outcome, and a worker that keeps going finishes every job
  within its attempts, across restarts; codes to one number are paced and cannot be guessed past
  their tries, used twice or accepted from a stale read; a sliding window never lets more than its
  limit through and never grows past its bound. A change reaches a site only after it was approved
  and claimed, only when the page still shows what was to be replaced, is recorded with what it
  replaced before it is checked, is checked rather than written again after a crash, and is undone
  by writing only while the page still shows it, or by its id where the site keeps its own record of
  changes; a decision made meanwhile wins; histories only grow. A payment
  extends one subscription, once, and is never lost, whatever runs while the gateway is called. A
  response that is ingested agrees with itself and with its totals, a row sent twice counts once;
  the pipeline answers every readable response with records that satisfy their constraints, and
  acts only on reconciled data whose change passed a detector; what was learned moves a priority
  within its bound and does not depend on the order of events; the investigation queue keeps its
  budgets; a window's summary is a function of the set of its days, and a verdict of success means
  that the compared value reached the threshold of its policy. A sync of the warehouse plans the newest days that are due,
  never disturbs a good copy and ends its backfill; a change is settled once, on complete data, and
  never over a rollback that was asked for; what it taught is kept once and teaches its tenant only. A key speaks for one tenant as long as
  neither is cut off, and a revoked key never passes again; a session that was ended stays ended, a
  sign-in that races with the operator is decided by what is stored, a stale copy of an account writes
  nothing, and a name belongs to one account. A daily budget is never exceeded, whoever shares it, and a
  lookup of demand answers or defers every keyword.

  \<^bold>\<open>Bounds\<close>

  No fuel is used: loops run over given lists (the clock readings of the worker), recurse on data,
  or are partial functions whose end is proved (the pages of a listing). Sizes that matter are the code's constants (300 characters of a title, five codes a day,
  the limiter's bound on keys).

  \<^bold>\<open>Not modelled\<close>

  HTTP and SQL clients, cryptography, the language-model prompts, the web routes and the crawler
  are I/O around the modelled parts. The reports of the warehouse, runs and
  the onboarding of sites are still to be added. A database error of the transaction that
  replaces a day of the warehouse is not represented: that write always lands. The in-memory repository
  has no transaction; where the code groups writes in one, the undoing transaction of the deployed
  repository is an argument.
\<close>

end
